(* ===== verification/Prelude.thy ===== *)
theory Prelude
  imports Main "HOL-Library.Word"
begin

text \<open>
  The vocabulary every other theory uses.

  The C code is written as objects: a pointer to private state, and methods that
  mutate that state and return a \<open>_Bool\<close>.  A failing method executes
  \<open>ERR(goto done)\<close>, and the code behind the label \<open>done\<close> usually sets the
  \<open>poisoned\<close> flag of the object.  A method is modelled as a function from the
  state to a value of type \<open>('a, 's) res\<close>:

  \<^item> \<open>Ret v s\<close>: the method returned true (or the value \<open>v\<close>) and left the state \<open>s\<close>;
  \<^item> \<open>Fail s\<close>: the method returned false and left the state \<open>s\<close>;
  \<^item> \<open>Undef\<close>: the C code has no defined behaviour here (a NULL pointer is
    dereferenced, memory is read that was never written, an array is left).

  A sequence \<open>if ( !f() ) ERR(goto done);\<close> of C statements is a list of such
  functions, run by \<open>steps\<close>.
\<close>

section \<open>Machine types\<close>

type_synonym byte = char
type_synonym u16 = "16 word"
type_synonym u32 = "32 word"
type_synonym u64 = "64 word"

text \<open>\<open>NAAAIM_IDSIZE\<close>, the size of a digest.\<close>

abbreviation IDSIZE :: nat where
  "IDSIZE \<equiv> 32"

named_theorems res_simps \<open>unfolding of the outcomes of C methods\<close>
named_theorems bytes_simps \<open>lengths and contents of byte encodings\<close>

section \<open>Outcomes of methods\<close>

datatype ('a, 's) res = Ret 'a 's | Fail 's | Undef

fun res_bind :: "('a, 's) res \<Rightarrow> ('a \<Rightarrow> 's \<Rightarrow> ('b, 's) res) \<Rightarrow> ('b, 's) res" where
  "res_bind (Ret a s) f = f a s"
| "res_bind (Fail s) f = Fail s"
| "res_bind Undef f = Undef"

text \<open>What the statements behind a \<open>done\<close> label do when \<open>retn\<close> is false.\<close>

fun on_fail :: "('s \<Rightarrow> 's) \<Rightarrow> ('a, 's) res \<Rightarrow> ('a, 's) res" where
  "on_fail f (Ret a s) = Ret a s"
| "on_fail f (Fail s) = Fail (f s)"
| "on_fail f Undef = Undef"

text \<open>
  A call of a method of an object that is a member of a larger state: the outcome of the
  method is put back into the larger state.
\<close>

fun zoom :: "('t \<Rightarrow> 's) \<Rightarrow> ('a, 't) res \<Rightarrow> ('a, 's) res" where
  "zoom put (Ret a t) = Ret a (put t)"
| "zoom put (Fail t) = Fail (put t)"
| "zoom put Undef = Undef"

text \<open>A run of statements, left at the first one that fails.\<close>

fun steps :: "('s \<Rightarrow> (unit, 's) res) list \<Rightarrow> 's \<Rightarrow> (unit, 's) res" where
  "steps [] s = Ret () s"
| "steps (f # fs) s = res_bind (f s) (\<lambda>_. steps fs)"

text \<open>The guard \<open>if ( cond ) ERR(goto done);\<close>.\<close>

definition fail_if :: "('s \<Rightarrow> bool) \<Rightarrow> 's \<Rightarrow> (unit, 's) res" where
  "fail_if c s = (if c s then Fail s else Ret () s)"

text \<open>An assignment, which cannot fail.\<close>

definition assign :: "('s \<Rightarrow> 's) \<Rightarrow> 's \<Rightarrow> (unit, 's) res" where
  "assign f s = Ret () (f s)"

text \<open>A call whose result is ignored.\<close>

fun attempt :: "('s \<Rightarrow> (unit, 's) res) \<Rightarrow> 's \<Rightarrow> (unit, 's) res" where
  "attempt f s = (case f s of Ret _ t \<Rightarrow> Ret () t | Fail t \<Rightarrow> Ret () t | Undef \<Rightarrow> Undef)"

lemma steps_append: "steps (fs @ gs) s = res_bind (steps fs s) (\<lambda>_. steps gs)"
proof (induction fs arbitrary: s)
  case Nil
  show ?case by simp
next
  case (Cons f fs)
  then show ?case by (cases "f s") simp_all
qed

lemma res_bind_Ret_iff [res_simps]:
  "res_bind m f = Ret b t \<longleftrightarrow> (\<exists>a s. m = Ret a s \<and> f a s = Ret b t)"
  by (cases m) simp_all

lemma res_bind_Fail_iff [res_simps]:
  "res_bind m f = Fail t \<longleftrightarrow> m = Fail t \<or> (\<exists>a s. m = Ret a s \<and> f a s = Fail t)"
  by (cases m) simp_all

lemma res_bind_Undef_iff [res_simps]:
  "res_bind m f = Undef \<longleftrightarrow> m = Undef \<or> (\<exists>a s. m = Ret a s \<and> f a s = Undef)"
  by (cases m) simp_all

lemma on_fail_Ret_iff [res_simps]: "on_fail f m = Ret a s \<longleftrightarrow> m = Ret a s"
  by (cases m) simp_all

lemma on_fail_Fail_iff [res_simps]: "on_fail f m = Fail t \<longleftrightarrow> (\<exists>s. m = Fail s \<and> t = f s)"
  by (cases m) auto

lemma on_fail_Undef_iff [res_simps]: "on_fail f m = Undef \<longleftrightarrow> m = Undef"
  by (cases m) simp_all

lemma zoom_Ret_iff [res_simps]: "zoom put m = Ret a s \<longleftrightarrow> (\<exists>t. m = Ret a t \<and> s = put t)"
  by (cases m) auto

lemma zoom_Fail_iff [res_simps]: "zoom put m = Fail s \<longleftrightarrow> (\<exists>t. m = Fail t \<and> s = put t)"
  by (cases m) auto

lemma zoom_Undef_iff [res_simps]: "zoom put m = Undef \<longleftrightarrow> m = Undef"
  by (cases m) simp_all

lemma fail_if_simps [simp]:
  "c s \<Longrightarrow> fail_if c s = Fail s"
  "\<not> c s \<Longrightarrow> fail_if c s = Ret () s"
  by (simp_all add: fail_if_def)

lemma fail_if_Ret_iff [res_simps]: "fail_if c s = Ret u t \<longleftrightarrow> \<not> c s \<and> t = s"
  by (auto simp: fail_if_def)

lemma fail_if_Fail_iff [res_simps]: "fail_if c s = Fail t \<longleftrightarrow> c s \<and> t = s"
  by (auto simp: fail_if_def)

lemma fail_if_not_Undef [simp]: "fail_if c s \<noteq> Undef"
  by (simp add: fail_if_def)

lemma assign_simp [simp]: "assign f s = Ret () (f s)"
  by (simp add: assign_def)

text \<open>Stepping a run of statements: the rules are applied one statement at a time.\<close>

lemma steps_fail_if: "\<not> c s \<Longrightarrow> steps fs s \<in> X \<Longrightarrow> steps (fail_if c # fs) s \<in> X"
  by simp

lemma steps_assign: "steps fs (f s) \<in> X \<Longrightarrow> steps (assign f # fs) s \<in> X"
  by simp

lemma steps_Ret: "f s = Ret u t \<Longrightarrow> steps fs t \<in> X \<Longrightarrow> steps (f # fs) s \<in> X"
  by simp

text \<open>A run of statements that keeps a property of the state, whatever the outcome.\<close>

definition keeps :: "('s \<Rightarrow> bool) \<Rightarrow> ('a, 's) res \<Rightarrow> bool" where
  "keeps P r \<longleftrightarrow> (case r of Ret _ s \<Rightarrow> P s | Fail s \<Rightarrow> P s | Undef \<Rightarrow> True)"

lemma keeps_simps [simp]:
  "keeps P (Ret a s) = P s" "keeps P (Fail s) = P s" "keeps P Undef"
  by (simp_all add: keeps_def)

lemma keeps_bind [intro]:
  "keeps P m \<Longrightarrow> (\<And>a s. m = Ret a s \<Longrightarrow> P s \<Longrightarrow> keeps P (f a s)) \<Longrightarrow> keeps P (res_bind m f)"
  by (cases m) auto

lemma keeps_steps:
  assumes "\<And>f s. f \<in> set fs \<Longrightarrow> P s \<Longrightarrow> keeps P (f s)" and "P s"
  shows "keeps P (steps fs s)"
  using assms
proof (induction fs arbitrary: s)
  case Nil
  then show ?case by simp
next
  case (Cons f fs)
  then have "keeps P (f s)" by simp
  moreover have "keeps P (steps fs t)" if "P t" for t
    using Cons.IH [of t] Cons.prems(1) that by simp
  ultimately show ?case by (auto intro: keeps_bind)
qed

section \<open>Objects that latch failure\<close>

text \<open>
  The contract that the methods of the security model objects share: a method called
  on a poisoned object fails and changes nothing, and a method that fails leaves the
  object poisoned.  \<open>'i\<close> is the argument of the method.
\<close>

locale latching =
  fixes meth :: "'i \<Rightarrow> 's \<Rightarrow> ('a, 's) res"
    and poisoned :: "'s \<Rightarrow> bool"
  assumes refuses: "poisoned s \<Longrightarrow> meth i s = Fail s"
    and latches: "meth i s = Fail t \<Longrightarrow> poisoned t"
begin

lemma fail_is_final: "meth i s = Fail t \<Longrightarrow> meth j t = Fail t"
  by (rule refuses) (rule latches)

lemma success_means_healthy: "meth i s = Ret a t \<Longrightarrow> \<not> poisoned s"
  using refuses by fastforce

text \<open>
  A client that keeps calling an object after ignoring a failure: nothing succeeds and
  nothing changes any more.
\<close>

fun calls :: "'i list \<Rightarrow> 's \<Rightarrow> ('a option list \<times> 's) option" where
  "calls [] s = Some ([], s)"
| "calls (i # is) s =
     (case meth i s of
        Ret a t \<Rightarrow> map_option (\<lambda>(rs, u). (Some a # rs, u)) (calls is t)
      | Fail t \<Rightarrow> map_option (\<lambda>(rs, u). (None # rs, u)) (calls is t)
      | Undef \<Rightarrow> None)"

lemma calls_poisoned:
  "poisoned s \<Longrightarrow> calls is s = Some (replicate (length is) None, s)"
proof (induction "is")
  case (Cons i "is")
  then show ?case by (simp add: refuses)
qed simp

lemma calls_after_fail:
  assumes "meth i s = Fail t"
  shows "calls (i # is) s = Some (replicate (Suc (length is)) None, t)"
  using assms latches [OF assms] by (simp add: calls_poisoned)

end

text \<open>An object whose \<open>reset\<close> method makes it usable again.\<close>

locale resettable = latching +
  fixes reset :: "'b \<Rightarrow> 'b"
  assumes reset_heals: "\<not> poisoned (reset s)"
begin

lemma reset_after_fail: "meth i s = Fail t \<Longrightarrow> \<not> poisoned (reset t)"
  by (rule reset_heals)

end

section \<open>Little-endian byte encodings\<close>

text \<open>
  The bytes of an integer in memory, as a \<open>Buffer->add(&x, sizeof(x))\<close> copies them.  All
  targets of the program (x86-64, Cortex-M) are little-endian.
\<close>

fun le_bytes :: "nat \<Rightarrow> nat \<Rightarrow> byte list" where
  "le_bytes 0 n = []"
| "le_bytes (Suc k) n = char_of n # le_bytes k (n div 256)"

fun le_value :: "byte list \<Rightarrow> nat" where
  "le_value [] = 0"
| "le_value (c # cs) = of_char c + 256 * le_value cs"

lemma length_le_bytes [simp, bytes_simps]: "length (le_bytes k n) = k"
  by (induction k arbitrary: n) auto

lemma le_value_le_bytes: "le_value (le_bytes k n) = n mod 256 ^ k"
proof (induction k arbitrary: n)
  case 0
  then show ?case by simp
next
  case (Suc k)
  have "n mod 256 ^ Suc k = n mod 256 + 256 * (n div 256 mod 256 ^ k)"
    by (simp add: mod_mult2_eq add.commute)
  with Suc show ?case by simp
qed

lemma le_bytes_inj: "n < 256 ^ k \<Longrightarrow> m < 256 ^ k \<Longrightarrow> le_bytes k n = le_bytes k m \<Longrightarrow> n = m"
  by (metis le_value_le_bytes mod_less)

definition u16_bytes :: "u16 \<Rightarrow> byte list" where
  "u16_bytes w = le_bytes 2 (unat w)"

definition u32_bytes :: "u32 \<Rightarrow> byte list" where
  "u32_bytes w = le_bytes 4 (unat w)"

definition u64_bytes :: "u64 \<Rightarrow> byte list" where
  "u64_bytes w = le_bytes 8 (unat w)"

lemma length_u_bytes [simp, bytes_simps]:
  "length (u16_bytes a) = 2" "length (u32_bytes b) = 4" "length (u64_bytes c) = 8"
  by (simp_all add: u16_bytes_def u32_bytes_def u64_bytes_def)

lemma u16_bytes_eq_iff [simp]: "u16_bytes a = u16_bytes b \<longleftrightarrow> a = b"
proof
  assume "u16_bytes a = u16_bytes b"
  then have "unat a = unat b"
    unfolding u16_bytes_def using unsigned_less [of a] unsigned_less [of b]
    by (intro le_bytes_inj [of _ 2]) simp_all
  then show "a = b" by (simp add: word_unat_eq_iff)
qed simp

lemma u32_bytes_eq_iff [simp]: "u32_bytes a = u32_bytes b \<longleftrightarrow> a = b"
proof
  assume "u32_bytes a = u32_bytes b"
  then have "unat a = unat b"
    unfolding u32_bytes_def using unsigned_less [of a] unsigned_less [of b]
    by (intro le_bytes_inj [of _ 4]) simp_all
  then show "a = b" by (simp add: word_unat_eq_iff)
qed simp

lemma u64_bytes_eq_iff [simp]: "u64_bytes a = u64_bytes b \<longleftrightarrow> a = b"
proof
  assume "u64_bytes a = u64_bytes b"
  then have "unat a = unat b"
    unfolding u64_bytes_def using unsigned_less [of a] unsigned_less [of b]
    by (intro le_bytes_inj [of _ 8]) simp_all
  then show "a = b" by (simp add: word_unat_eq_iff)
qed simp

text \<open>Encodings that start with parts of equal length are compared part by part.\<close>

lemma append_eq_parts [bytes_simps]:
  "length xs = length ys \<Longrightarrow> xs @ us = ys @ vs \<longleftrightarrow> xs = ys \<and> us = vs"
  by simp

section \<open>Writing into fixed-size memory\<close>

text \<open>\<open>memcpy(p, src, n)\<close> into the start of a memory area.\<close>

definition overwrite :: "'a list \<Rightarrow> 'a list \<Rightarrow> 'a list" where
  "overwrite src mem = src @ drop (length src) mem"

lemma length_overwrite [simp]:
  "length src \<le> length mem \<Longrightarrow> length (overwrite src mem) = length mem"
  by (simp add: overwrite_def)

lemma take_overwrite [simp]: "take (length src) (overwrite src mem) = src"
  by (simp add: overwrite_def)

lemma overwrite_all [simp]: "length src = length mem \<Longrightarrow> overwrite src mem = src"
  by (simp add: overwrite_def)

text \<open>Reading \<open>n\<close> bytes through a pointer: undefined beyond the bytes that were stored.\<close>

definition read_bytes :: "nat \<Rightarrow> byte list \<Rightarrow> byte list option" where
  "read_bytes n bs = (if n \<le> length bs then Some (take n bs) else None)"

end
