(* ===== verification/CLib.thy ===== *)
theory CLib
  imports Prelude
begin

text \<open>
  The functions of the C standard library that the modelled code calls: string search,
  character classes, \<open>strtoll\<close> with base 0 and the \<open>printf\<close> conversions.  A C string
  is a \<open>string\<close> without the terminating NUL.
\<close>

section \<open>Searching\<close>

text \<open>
  A \<open>char *\<close> into a string is the string split at the pointer: \<open>(pre, suf)\<close> with the
  characters before the pointer and those it points to.  \<open>strstr hay pat\<close> is the
  pointer to the first occurrence of \<open>pat\<close> in \<open>hay\<close>.
\<close>

fun is_prefix :: "string \<Rightarrow> string \<Rightarrow> bool" where
  "is_prefix [] ys = True"
| "is_prefix (x # xs) [] = False"
| "is_prefix (x # xs) (y # ys) = (x = y \<and> is_prefix xs ys)"

fun strstr :: "string \<Rightarrow> string \<Rightarrow> (string \<times> string) option" where
  "strstr [] pat = (if pat = [] then Some ([], []) else None)"
| "strstr (c # cs) pat =
     (if is_prefix pat (c # cs) then Some ([], c # cs)
      else map_option (\<lambda>(pre, suf). (c # pre, suf)) (strstr cs pat))"

text \<open>\<open>strchr\<close> for a character other than NUL.\<close>

fun strchr :: "string \<Rightarrow> char \<Rightarrow> (string \<times> string) option" where
  "strchr [] c = None"
| "strchr (d # ds) c =
     (if d = c then Some ([], d # ds)
      else map_option (\<lambda>(pre, suf). (d # pre, suf)) (strchr ds c))"

lemma is_prefix_iff: "is_prefix xs ys \<longleftrightarrow> (\<exists>zs. ys = xs @ zs)"
  by (induction xs ys rule: is_prefix.induct) auto

lemma is_prefix_append [simp]: "is_prefix xs (xs @ ys)"
  by (induction xs) auto

lemma strstr_Some:
  "strstr hay pat = Some (pre, suf) \<Longrightarrow> hay = pre @ suf \<and> is_prefix pat suf"
  by (induction hay arbitrary: pre) (auto split: if_splits)

lemma strstr_length:
  "strstr hay pat = Some (pre, suf) \<Longrightarrow> length pre + length pat \<le> length hay"
  by (auto dest!: strstr_Some simp: is_prefix_iff)

lemma strstr_first:
  assumes "strstr hay pat = Some (pre, suf)" and "hay = pre' @ suf'" and "is_prefix pat suf'"
  shows "length pre \<le> length pre'"
  using assms
proof (induction hay arbitrary: pre pre')
  case Nil
  then show ?case by (auto split: if_splits)
next
  case (Cons c cs)
  then show ?case
    by (cases pre') (fastforce split: if_splits)+
qed

lemma strstr_skip:
  assumes "c \<notin> set v"
  shows "strstr (v @ rest) (c # pat) = map_option (\<lambda>(pre, suf). (v @ pre, suf)) (strstr rest (c # pat))"
  using assms
  by (induction v; cases "strstr rest (c # pat)") auto

lemma strchr_skip:
  assumes "c \<notin> set v"
  shows "strchr (v @ rest) c = map_option (\<lambda>(pre, suf). (v @ pre, suf)) (strchr rest c)"
  using assms
  by (induction v; cases "strchr rest c") auto

lemma strchr_Some:
  "strchr s c = Some (pre, suf) \<Longrightarrow> s = pre @ suf \<and> c \<notin> set pre \<and> (\<exists>r. suf = c # r)"
  by (induction s arbitrary: pre) (auto split: if_splits)

text \<open>\<open>strncmp(a, b, strlen(a)) == 0\<close> is \<open>is_prefix a b\<close>.\<close>

section \<open>Character classes and digits\<close>

definition isspace :: "char \<Rightarrow> bool" where
  "isspace c \<longleftrightarrow> c = CHR '' '' \<or> (9 \<le> (of_char c :: nat) \<and> (of_char c :: nat) \<le> 13)"

text \<open>The value of a digit in the bases up to 36.\<close>

definition digit_of :: "char \<Rightarrow> nat option" where
  "digit_of c =
     (let n = of_char c in
      if 48 \<le> n \<and> n \<le> 57 then Some (n - 48)
      else if 97 \<le> n \<and> n \<le> 122 then Some (n - 87)
      else if 65 \<le> n \<and> n \<le> 90 then Some (n - 55)
      else None)"

definition digit_char :: "nat \<Rightarrow> char" where
  "digit_char d = char_of (if d < 10 then 48 + d else 87 + d)"

lemma digit_char_0: "digit_char 0 = CHR ''0''"
  by code_simp

lemma digit_of_digit_char [simp]: "d < 16 \<Longrightarrow> digit_of (digit_char d) = Some d"
  by (simp add: digit_of_def digit_char_def Let_def)

lemma digit_char_eq_iff: "d < 16 \<Longrightarrow> e < 16 \<Longrightarrow> digit_char d = digit_char e \<longleftrightarrow> d = e"
  by (metis digit_of_digit_char option.inject)

lemma digit_char_code:
  "d < 16 \<Longrightarrow> (of_char (digit_char d) :: nat) = (if d < 10 then 48 + d else 87 + d)"
  by (simp add: digit_char_def)

section \<open>Numbers to text\<close>

fun digits_in :: "nat \<Rightarrow> nat \<Rightarrow> nat list" where
  "digits_in b n = (if b < 2 \<or> n < b then [n] else digits_in b (n div b) @ [n mod b])"

declare digits_in.simps [simp del]

definition sprint_nat :: "nat \<Rightarrow> nat \<Rightarrow> string" where
  "sprint_nat b n = map digit_char (digits_in b n)"

text \<open>\<open>%u\<close> and \<open>%lu\<close>, \<open>%x\<close> and \<open>%llx\<close>, \<open>%lo\<close>, and \<open>%02x\<close> of one byte.\<close>

abbreviation sprint_u :: "nat \<Rightarrow> string" where
  "sprint_u \<equiv> sprint_nat 10"

abbreviation sprint_x :: "nat \<Rightarrow> string" where
  "sprint_x \<equiv> sprint_nat 16"

abbreviation sprint_o :: "nat \<Rightarrow> string" where
  "sprint_o \<equiv> sprint_nat 8"

definition sprint_02x :: "byte \<Rightarrow> string" where
  "sprint_02x c = [digit_char (of_char c div 16), digit_char (of_char c mod 16)]"

text \<open>\<open>%d\<close> of a 32-bit integer.\<close>

definition sprint_d :: "32 word \<Rightarrow> string" where
  "sprint_d w = (if sint w < 0 then CHR ''-'' # sprint_u (nat (- sint w)) else sprint_u (nat (sint w)))"

definition sprint_hex :: "byte list \<Rightarrow> string" where
  "sprint_hex bs = concat (map sprint_02x bs)"

lemma length_sprint_hex [simp]: "length (sprint_hex bs) = 2 * length bs"
  by (induction bs) (simp_all add: sprint_hex_def sprint_02x_def)

lemma digits_in_bound: "2 \<le> b \<Longrightarrow> d \<in> set (digits_in b n) \<Longrightarrow> d < b"
proof (induction b n rule: digits_in.induct)
  case (1 b n)
  show ?case
  proof (cases "n < b")
    case True
    with "1.prems" show ?thesis by (simp add: digits_in.simps [of b n])
  next
    case False
    with 1 show ?thesis by (auto simp: digits_in.simps [of b n])
  qed
qed

lemma digits_in_nonempty [simp]: "digits_in b n \<noteq> []"
  by (subst digits_in.simps) simp

lemma digits_in_hd: "2 \<le> b \<Longrightarrow> 0 < n \<Longrightarrow> 0 < hd (digits_in b n)"
proof (induction b n rule: digits_in.induct)
  case (1 b n)
  then show ?case
    by (cases "n < b") (simp_all add: digits_in.simps [of b n] div_greater_zero_iff)
qed

lemma sprint_nat_0: "2 \<le> b \<Longrightarrow> sprint_nat b 0 = ''0''"
  by (simp add: sprint_nat_def digits_in.simps [of b 0] digit_char_0)

section \<open>Text to numbers\<close>

fun scan_digits :: "nat \<Rightarrow> nat \<Rightarrow> string \<Rightarrow> nat" where
  "scan_digits b acc [] = acc"
| "scan_digits b acc (c # cs) =
     (case digit_of c of
        Some d \<Rightarrow> if d < b then scan_digits b (acc * b + d) cs else acc
      | None \<Rightarrow> acc)"

text \<open>The magnitude \<open>strtoll(s, NULL, 0)\<close> reads after white space and sign.\<close>

definition is_hex_digit :: "char \<Rightarrow> bool" where
  "is_hex_digit c \<longleftrightarrow> (case digit_of c of Some d \<Rightarrow> d < 16 | None \<Rightarrow> False)"

fun scan_base0 :: "string \<Rightarrow> nat" where
  "scan_base0 s =
     (case s of
        [] \<Rightarrow> 0
      | c # cs \<Rightarrow>
          if c \<noteq> CHR ''0'' then scan_digits 10 0 (c # cs)
          else (case cs of
                  x # d # ds \<Rightarrow>
                    if (x = CHR ''x'' \<or> x = CHR ''X'') \<and> is_hex_digit d
                    then scan_digits 16 0 (d # ds)
                    else scan_digits 8 0 cs
                | _ \<Rightarrow> scan_digits 8 0 cs))"

declare scan_base0.simps [simp del]

text \<open>
  \<open>strtoll(s, NULL, 0)\<close>: the value and whether it set \<open>errno\<close> to \<open>ERANGE\<close>.  On
  success \<open>errno\<close> is left as it was.
\<close>

definition strtoll :: "string \<Rightarrow> int \<times> bool" where
  "strtoll s =
     (let s1 = dropWhile isspace s;
          neg = (case s1 of c # _ \<Rightarrow> c = CHR ''-'' | [] \<Rightarrow> False);
          s2 = (case s1 of c # cs \<Rightarrow> if c = CHR ''-'' \<or> c = CHR ''+'' then cs else s1 | [] \<Rightarrow> []);
          v = (if neg then - int (scan_base0 s2) else int (scan_base0 s2))
      in if v > 2 ^ 63 - 1 then (2 ^ 63 - 1, True)
         else if v < - (2 ^ 63) then (- (2 ^ 63), True)
         else (v, False))"

text \<open>\<open>strtoll(s, NULL, 10)\<close>.\<close>

definition strtoll10 :: "string \<Rightarrow> int \<times> bool" where
  "strtoll10 s =
     (let s1 = dropWhile isspace s;
          neg = (case s1 of c # _ \<Rightarrow> c = CHR ''-'' | [] \<Rightarrow> False);
          s2 = (case s1 of c # cs \<Rightarrow> if c = CHR ''-'' \<or> c = CHR ''+'' then cs else s1 | [] \<Rightarrow> []);
          v = (if neg then - int (scan_digits 10 0 s2) else int (scan_digits 10 0 s2))
      in if v > 2 ^ 63 - 1 then (2 ^ 63 - 1, True)
         else if v < - (2 ^ 63) then (- (2 ^ 63), True)
         else (v, False))"


definition ERANGE :: int where
  "ERANGE = 34"

lemma scan_digits_append:
  "\<forall>d \<in> set ds. d < b \<Longrightarrow> b \<le> 16 \<Longrightarrow>
   scan_digits b acc (map digit_char ds @ rest) = scan_digits b (foldl (\<lambda>a d. a * b + d) acc ds) rest"
proof (induction ds arbitrary: acc)
  case (Cons d ds)
  then have "d < 16" by auto
  with Cons show ?case by simp
qed simp

lemma foldl_digits_in: "2 \<le> b \<Longrightarrow> foldl (\<lambda>a d. a * b + d) 0 (digits_in b n) = n"
proof (induction b n rule: digits_in.induct)
  case (1 b n)
  then show ?case
    by (cases "n < b") (simp_all add: digits_in.simps [of b n])
qed

lemma scan_digits_sprint:
  "2 \<le> b \<Longrightarrow> b \<le> 16 \<Longrightarrow> scan_digits b 0 (sprint_nat b n) = n"
  using scan_digits_append [of "digits_in b n" b 0 "[]"] digits_in_bound [of b _ n]
  by (simp add: sprint_nat_def foldl_digits_in)

lemma sprint_nat_codes:
  assumes "2 \<le> b" "b \<le> 16" "c \<in> set (sprint_nat b n)"
  shows "(48 \<le> (of_char c :: nat) \<and> (of_char c :: nat) \<le> 57) \<or> (97 \<le> (of_char c :: nat) \<and> (of_char c :: nat) \<le> 102)"
proof -
  from assms(3) obtain d where d: "d \<in> set (digits_in b n)" "c = digit_char d"
    by (auto simp: sprint_nat_def)
  with assms digits_in_bound have "d < 16" by fastforce
  with d show ?thesis by (auto simp: digit_char_code)
qed

lemma sprint_nat_hd:
  assumes "2 \<le> b" "b \<le> 16" "0 < n"
  shows "\<exists>c cs. sprint_nat b n = c # cs \<and> c \<noteq> CHR ''0''"
proof -
  obtain d ds where ds: "digits_in b n = d # ds" by (cases "digits_in b n") auto
  have "0 < d" using digits_in_hd [of b n] assms ds by simp
  moreover have "d < 16" using digits_in_bound [of b d n] assms ds by simp
  ultimately have "digit_char d \<noteq> digit_char 0" by (simp add: digit_char_eq_iff)
  then have "digit_char d \<noteq> CHR ''0''" by (simp add: digit_char_0)
  with ds show ?thesis by (simp add: sprint_nat_def)
qed

lemma strtoll_digit_start:
  assumes "s = c # cs" and "48 \<le> (of_char c :: nat)" and "(of_char c :: nat) \<le> 57"
    and "scan_base0 s < 2 ^ 63"
  shows "strtoll s = (int (scan_base0 s), False)"
proof -
  have "\<not> isspace c" "c \<noteq> CHR ''-''" "c \<noteq> CHR ''+''"
    using assms(2,3) by (auto simp: isspace_def)
  with assms(1,4) show ?thesis
    by (simp add: strtoll_def Let_def)
qed

text \<open>Reading back what \<open>%u\<close> and \<open>0x%llx\<close> print.\<close>

lemma scan_base0_sprint_u:
  assumes "0 < n"
  obtains c cs where "sprint_u n = c # cs" "48 \<le> (of_char c :: nat)" "(of_char c :: nat) \<le> 57"
    "scan_base0 (sprint_u n) = n"
proof -
  obtain c cs where c: "sprint_u n = c # cs" "c \<noteq> CHR ''0''"
    using sprint_nat_hd [of 10 n] assms by auto
  then have "scan_base0 (sprint_u n) = n"
    using scan_digits_sprint [of 10 n] by (simp add: scan_base0.simps)
  moreover have "\<exists>d < 10. c = digit_char d"
    using c digits_in_bound [of 10 _ n] by (cases "digits_in 10 n") (auto simp: sprint_nat_def)
  then have "48 \<le> (of_char c :: nat)" "(of_char c :: nat) \<le> 57"
    by (auto simp: digit_char_code)
  ultimately show thesis using that [OF c(1)] by simp
qed

lemma strtoll_sprint_u:
  assumes "n < 2 ^ 63"
  shows "strtoll (sprint_u n) = (int n, False)"
proof (cases "n = 0")
  case True
  have "strtoll ''0'' = (0, False)"
    by (simp add: strtoll_def isspace_def scan_base0.simps)
  with True show ?thesis by (simp add: sprint_nat_0)
next
  case False
  then obtain c cs where c: "sprint_u n = c # cs" "48 \<le> (of_char c :: nat)" "(of_char c :: nat) \<le> 57"
    "scan_base0 (sprint_u n) = n"
    using scan_base0_sprint_u by blast
  then show ?thesis using strtoll_digit_start [OF c(1-3)] assms by simp
qed

lemma strtoll_sprint_u_large:
  assumes "2 ^ 63 \<le> n"
  shows "strtoll (sprint_u n) = (2 ^ 63 - 1, True)"
proof -
  obtain c cs where c: "sprint_u n = c # cs" "48 \<le> (of_char c :: nat)" "(of_char c :: nat) \<le> 57"
    "scan_base0 (sprint_u n) = n"
    using scan_base0_sprint_u [of n] assms by auto
  moreover have "\<not> isspace c" "c \<noteq> CHR ''-''" "c \<noteq> CHR ''+''"
    using c(2,3) by (auto simp: isspace_def)
  ultimately show ?thesis using assms by (simp add: strtoll_def Let_def)
qed

lemma strtoll_sprint_x:
  assumes "n < 2 ^ 63"
  shows "strtoll (''0x'' @ sprint_x n) = (int n, False)"
proof -
  obtain c cs where c: "sprint_x n = c # cs"
    by (cases "sprint_x n") (auto simp: sprint_nat_def)
  have "\<exists>d < 16. c = digit_char d"
    using c digits_in_bound [of 16 _ n] by (cases "digits_in 16 n") (auto simp: sprint_nat_def)
  then have "is_hex_digit c" by (auto simp: is_hex_digit_def)
  then have "scan_base0 (''0x'' @ sprint_x n) = n"
    using c scan_digits_sprint [of 16 n] by (simp add: scan_base0.simps)
  with assms show ?thesis
    using strtoll_digit_start [of "''0x'' @ sprint_x n" "CHR ''0''" "''x'' @ sprint_x n"] by simp
qed

lemma strtoll_sprint_o:
  assumes "n < 2 ^ 63"
  shows "strtoll (CHR ''0'' # sprint_o n) = (int n, False)"
proof -
  obtain c cs where c: "sprint_o n = c # cs"
    by (cases "sprint_o n") (auto simp: sprint_nat_def)
  have "\<exists>d < 8. c = digit_char d"
    using c digits_in_bound [of 8 _ n] by (cases "digits_in 8 n") (auto simp: sprint_nat_def)
  then have "(of_char c :: nat) < 56" by (auto simp: digit_char_code)
  then have "c \<noteq> CHR ''x''" "c \<noteq> CHR ''X''" by auto
  then have "scan_base0 (CHR ''0'' # sprint_o n) = n"
    using c scan_digits_sprint [of 8 n] by (auto simp: scan_base0.simps split: list.splits)
  with assms show ?thesis
    using strtoll_digit_start [of "CHR ''0'' # sprint_o n" "CHR ''0''" "sprint_o n"] by simp
qed

end
