(* ===== verification/Fibsequence.thy ===== *)
theory Fibsequence
  imports Prelude
begin

text \<open>
  HurdLib's Fibonacci sequence object (\<open>Fibsequence.c\<close>), which sizes the memory of a
  \<open>Buffer\<close>.  The two members are \<open>unsigned int\<close>, so the sequence wraps around at
  \<open>2 ^ 32\<close>.  The lemmas relate the machine state to the mathematical sequence up to
  the largest Fibonacci number below \<open>2 ^ 32\<close>.
\<close>

section \<open>The object\<close>

record Fibsequence_State =
  fs_previous :: u32
  fs_current :: u32

definition Fibsequence_init_state :: Fibsequence_State where
  "Fibsequence_init_state = \<lparr>fs_previous = 0, fs_current = 1\<rparr>"

definition Fibsequence_get :: "Fibsequence_State \<Rightarrow> u32" where
  "Fibsequence_get S = fs_previous S + fs_current S"

definition Fibsequence_next :: "Fibsequence_State \<Rightarrow> u32 \<times> Fibsequence_State" where
  "Fibsequence_next S =
     (let retn = fs_previous S + fs_current S
      in (retn, \<lparr>fs_previous = fs_current S, fs_current = retn\<rparr>))"

text \<open>The endless loop of \<open>getAbove\<close>: \<open>None\<close> is a loop that never returns.\<close>

partial_function (option) Fibsequence_getAbove ::
  "u32 \<Rightarrow> Fibsequence_State \<Rightarrow> (u32 \<times> Fibsequence_State) option" where
  "Fibsequence_getAbove to S =
     (let retn = Fibsequence_get S
      in if to \<le> retn then Some (retn, S)
         else let S1 = snd (Fibsequence_next S)
              in if Fibsequence_get S1 < retn
                 then Some (- 1, \<lparr>fs_previous = 0, fs_current = - 1\<rparr>)
                 else Fibsequence_getAbove to S1)"

definition Fibsequence_reset :: "Fibsequence_State \<Rightarrow> Fibsequence_State" where
  "Fibsequence_reset S = Fibsequence_init_state"

section \<open>The mathematical sequence\<close>

primrec fib_pair :: "nat \<Rightarrow> nat \<times> nat" where
  "fib_pair 0 = (0, 1)"
| "fib_pair (Suc k) = (let (a, b) = fib_pair k in (b, a + b))"

definition fib_state :: "nat \<Rightarrow> Fibsequence_State" where
  "fib_state k = \<lparr>fs_previous = of_nat (fst (fib_pair k)), fs_current = of_nat (snd (fib_pair k))\<rparr>"

definition fib_cap :: "nat \<Rightarrow> nat" where
  "fib_cap k = fst (fib_pair k) + snd (fib_pair k)"

text \<open>The last index before the wrap-around, and the value there.\<close>

definition fib_last :: nat where
  "fib_last = 45"

definition fib_max :: nat where
  "fib_max = 2971215073"

lemma fib_pair_5step: "fib_pair k = (a, b) \<Longrightarrow> fib_pair (k + 5) = (3 * a + 5 * b, 5 * a + 8 * b)"
  by (simp add: numeral_eq_Suc)

lemma fib_pair_45: "fib_pair 45 = (1134903170, 1836311903)"
proof -
  have "fib_pair 0 = (0, 1)" by simp
  from this [THEN fib_pair_5step, THEN fib_pair_5step, THEN fib_pair_5step, THEN fib_pair_5step,
      THEN fib_pair_5step, THEN fib_pair_5step, THEN fib_pair_5step, THEN fib_pair_5step,
      THEN fib_pair_5step]
  show ?thesis by simp
qed

lemma fib_pair_46: "fib_pair 46 = (1836311903, 2971215073)"
  using fib_pair.simps(2) [of 45] by (simp add: fib_pair_45 del: fib_pair.simps)

lemma fib_cap_last: "fib_cap fib_last = fib_max"
  by (simp add: fib_cap_def fib_last_def fib_max_def fib_pair_45)

lemma fib_cap_Suc: "fib_cap k \<le> fib_cap (Suc k)"
  by (simp add: fib_cap_def case_prod_beta Let_def)

lemma fib_cap_mono: "k \<le> l \<Longrightarrow> fib_cap k \<le> fib_cap l"
  by (rule lift_Suc_mono_le [of fib_cap]) (rule fib_cap_Suc)

lemma fib_cap_le_max: "k \<le> fib_last \<Longrightarrow> fib_cap k \<le> fib_max"
  using fib_cap_mono fib_cap_last by fastforce

lemma fib_cap_pos: "0 < fib_cap k"
proof -
  have "fib_cap 0 = 1" by (simp add: fib_cap_def)
  with fib_cap_mono [of 0 k] show ?thesis by simp
qed

lemma init_is_fib_state: "Fibsequence_init_state = fib_state 0"
  by (simp add: Fibsequence_init_state_def fib_state_def)

lemma next_fib_state: "snd (Fibsequence_next (fib_state k)) = fib_state (Suc k)"
  by (simp add: Fibsequence_next_def fib_state_def Let_def case_prod_beta)

lemma get_fib_state:
  assumes "k \<le> fib_last"
  shows "unat (Fibsequence_get (fib_state k)) = fib_cap k"
proof -
  have "fib_cap k < 2 ^ 32"
    using fib_cap_le_max [OF assms] by (simp add: fib_max_def)
  moreover have "Fibsequence_get (fib_state k) = of_nat (fib_cap k)"
    by (simp add: Fibsequence_get_def fib_state_def fib_cap_def)
  ultimately show ?thesis by (simp add: unat_of_nat)
qed

lemma get_wraps: "Fibsequence_get (fib_state (Suc fib_last)) < Fibsequence_get (fib_state fib_last)"
  by (simp add: fib_last_def fib_state_def Fibsequence_get_def fib_pair_45 fib_pair_46)

text \<open>\<open>getAbove\<close> returns from every state of the sequence, with a value that is not below its argument.\<close>

lemma getAbove_returns_from:
  assumes "k \<le> fib_last"
  shows "\<exists>r S. Fibsequence_getAbove to (fib_state k) = Some (r, S) \<and> to \<le> r"
  using assms
proof (induction "fib_last - k" arbitrary: k)
  case 0
  then have "k = fib_last" by simp
  with get_wraps show ?case
    by (subst Fibsequence_getAbove.simps) (simp add: Let_def next_fib_state word_order.extremum)
next
  case (Suc n)
  then have "\<exists>r S. Fibsequence_getAbove to (fib_state (Suc k)) = Some (r, S) \<and> to \<le> r"
    by simp
  then show ?case
    by (subst Fibsequence_getAbove.simps) (auto simp: Let_def next_fib_state word_order.extremum)
qed

end
