(* ===== verification/HBuffer.thy ===== *)
theory HBuffer
  imports CLib Fibsequence
begin

text \<open>
  HurdLib's \<open>Buffer\<close> object (\<open>Buffer.c\<close>): a dynamically sized byte array.

  The state has the members of the C structure.  The memory \<open>bf\<close> points to is modelled
  by the bytes that were written to it: \<open>None\<close> is a NULL pointer, and the bytes from
  \<open>length\<close> up to the allocated size are indeterminate.  \<open>mem n\<close> tells whether the
  heap can provide an allocation of \<open>n\<close> bytes, so that the failure of \<open>realloc\<close> is a
  branch of the model.

  The second half is the abstract byte buffer the other components of the program are
  written against, and the lemmas that \<open>Buffer.c\<close> implements it.
\<close>

section \<open>State and operations\<close>

text \<open>A heap that provides every allocation.\<close>

abbreviation plenty :: "nat \<Rightarrow> bool" where
  "plenty \<equiv> (\<lambda>_. True)"

record Buffer_State =
  bf_poisoned :: bool
  bf_used :: nat
  bf_mem :: "byte list option"
  bf_seqn :: Fibsequence_State

definition Buffer_Init :: Buffer_State where
  "Buffer_Init = \<lparr>bf_poisoned = False, bf_used = 0, bf_mem = None,
                  bf_seqn = Fibsequence_init_state\<rparr>"

text \<open>\<open>free = S->seqn->get(S->seqn) - S->used\<close>: a \<open>size_t\<close> difference, which wraps.\<close>

definition Buffer_free :: "nat \<Rightarrow> Fibsequence_State \<Rightarrow> nat" where
  "Buffer_free used seqn = nat ((int (unat (Fibsequence_get seqn)) - int used) mod 2 ^ 64)"

text \<open>The \<open>do ... while ( cnt > free )\<close> loop of \<open>add\<close>.\<close>

partial_function (option) Buffer_grow ::
  "nat \<Rightarrow> nat \<Rightarrow> Fibsequence_State \<Rightarrow> Fibsequence_State option" where
  "Buffer_grow cnt used seqn =
     (let seqn1 = snd (Fibsequence_next seqn)
      in if cnt > Buffer_free used seqn1 then Buffer_grow cnt used seqn1 else Some seqn1)"

definition Buffer_do_alloc :: "(nat \<Rightarrow> bool) \<Rightarrow> Buffer_State \<Rightarrow> (unit, Buffer_State) res" where
  "Buffer_do_alloc mem S =
     (if mem (unat (Fibsequence_get (bf_seqn S)))
      then Ret () (S\<lparr>bf_mem := Some (case bf_mem S of None \<Rightarrow> []
                      | Some m \<Rightarrow> take (unat (Fibsequence_get (bf_seqn S))) m)\<rparr>)
      else Fail (S\<lparr>bf_mem := None, bf_poisoned := True\<rparr>))"

text \<open>\<open>memcpy(S->bf + S->used, src, cnt)\<close>: undefined outside of the allocation.\<close>

definition Buffer_store :: "byte list \<Rightarrow> Buffer_State \<Rightarrow> (unit, Buffer_State) res" where
  "Buffer_store src S =
     (case bf_mem S of
        None \<Rightarrow> Undef
      | Some m \<Rightarrow>
          if bf_used S + length src \<le> unat (Fibsequence_get (bf_seqn S)) \<and> bf_used S \<le> length m
          then Ret () (S\<lparr>bf_mem := Some (take (bf_used S) m @ src @ drop (bf_used S + length src) m),
                         bf_used := bf_used S + length src\<rparr>)
          else Undef)"

definition Buffer_add :: "(nat \<Rightarrow> bool) \<Rightarrow> byte list \<Rightarrow> Buffer_State \<Rightarrow> (unit, Buffer_State) res" where
  "Buffer_add mem src S =
     (if bf_poisoned S then Fail S
      else
        (case (if length src > Buffer_free (bf_used S) (bf_seqn S)
               then Buffer_grow (length src) (bf_used S) (bf_seqn S)
               else Some (bf_seqn S)) of
           None \<Rightarrow> Undef
         | Some seqn \<Rightarrow>
             res_bind (Buffer_do_alloc mem (S\<lparr>bf_seqn := seqn\<rparr>)) (\<lambda>_. Buffer_store src)))"

definition Buffer_get :: "Buffer_State \<Rightarrow> byte list option" where
  "Buffer_get S = (if bf_poisoned S then None else bf_mem S)"

definition Buffer_size :: "Buffer_State \<Rightarrow> nat" where
  "Buffer_size S = (if bf_poisoned S then 0 else bf_used S)"

text \<open>\<open>add(this, bf->get(bf), bf->size(bf))\<close>; a copy of no bytes reads nothing.\<close>

definition Buffer_add_Buffer ::
  "(nat \<Rightarrow> bool) \<Rightarrow> Buffer_State \<Rightarrow> Buffer_State \<Rightarrow> (unit, Buffer_State) res" where
  "Buffer_add_Buffer mem bf S =
     (case Buffer_get bf of
        None \<Rightarrow> if Buffer_size bf = 0 then Buffer_add mem [] S else Undef
      | Some m \<Rightarrow> Buffer_add mem (take (Buffer_size bf) m) S)"

text \<open>The \<open>switch ( toupper(...) )\<close> over the sixteen digits.\<close>

definition hex_nybble :: "char \<Rightarrow> nat option" where
  "hex_nybble c = (case digit_of c of Some d \<Rightarrow> if d < 16 then Some d else None | None \<Rightarrow> None)"

text \<open>
  The conversion loop.  \<open>first\<close> and \<open>b\<close> are the loop variables \<open>first_nybble\<close> and
  \<open>byte[0]\<close>; the return value of \<open>add\<close> is ignored, as in the code.
\<close>

fun Buffer_hex_loop ::
  "(nat \<Rightarrow> bool) \<Rightarrow> bool \<Rightarrow> nat \<Rightarrow> string \<Rightarrow> Buffer_State \<Rightarrow> (unit, Buffer_State) res" where
  "Buffer_hex_loop mem first b [] S = Ret () S"
| "Buffer_hex_loop mem first b (c # cs) S =
     (case hex_nybble c of
        None \<Rightarrow> Fail (S\<lparr>bf_poisoned := True\<rparr>)
      | Some n \<Rightarrow>
          if first then Buffer_hex_loop mem False (16 * n) cs S
          else (case Buffer_add mem [char_of (b + n)] S of
                  Ret _ S1 \<Rightarrow> Buffer_hex_loop mem True (b + n) cs S1
                | Fail S1 \<Rightarrow> Buffer_hex_loop mem True (b + n) cs S1
                | Undef \<Rightarrow> Undef))"

definition Buffer_add_hexstring ::
  "(nat \<Rightarrow> bool) \<Rightarrow> string option \<Rightarrow> Buffer_State \<Rightarrow> (unit, Buffer_State) res" where
  "Buffer_add_hexstring mem hexbufr S =
     (if bf_poisoned S then Fail S
      else case hexbufr of
             None \<Rightarrow> Fail (S\<lparr>bf_poisoned := True\<rparr>)
           | Some s \<Rightarrow>
               if length s = 0 \<or> length s mod 2 \<noteq> 0 then Fail (S\<lparr>bf_poisoned := True\<rparr>)
               else Buffer_hex_loop mem True 0 s S)"

text \<open>\<open>equal\<close> returns the comparison and may poison the object it is called on.\<close>

definition Buffer_equal :: "Buffer_State \<Rightarrow> Buffer_State \<Rightarrow> (bool \<times> Buffer_State) option" where
  "Buffer_equal bufr S =
     (if bf_poisoned S then Some (False, S)
      else if bf_poisoned bufr then Some (False, S\<lparr>bf_poisoned := True\<rparr>)
      else if bf_used S \<noteq> Buffer_size bufr then Some (False, S)
      else if bf_used S = 0 then Some (True, S)
      else case (bf_mem S, Buffer_get bufr) of
             (Some m, Some n) \<Rightarrow> Some (take (bf_used S) m = take (bf_used S) n, S)
           | _ \<Rightarrow> None)"

definition Buffer_shrink :: "nat \<Rightarrow> Buffer_State \<Rightarrow> Buffer_State" where
  "Buffer_shrink cnt S =
     (if bf_poisoned S then S
      else if cnt > bf_used S then S
      else S\<lparr>bf_used := bf_used S - cnt\<rparr>)"

text \<open>\<open>memset(S->bf, 0, S->used)\<close> clears the bytes in use before they are given up.\<close>

definition Buffer_reset :: "Buffer_State \<Rightarrow> Buffer_State" where
  "Buffer_reset S =
     (if bf_poisoned S then S
      else S\<lparr>bf_mem := map_option (\<lambda>m. replicate (bf_used S) CHR 0x00 @ drop (bf_used S) m) (bf_mem S),
             bf_used := 0\<rparr>)"

section \<open>The abstract byte buffer\<close>

record buf =
  b_poisoned :: bool
  b_data :: "byte list"

definition buf_empty :: buf where
  "buf_empty = \<lparr>b_poisoned = False, b_data = []\<rparr>"

definition buf_add :: "byte list \<Rightarrow> buf \<Rightarrow> (unit, buf) res" where
  "buf_add src b = (if b_poisoned b then Fail b else Ret () (b\<lparr>b_data := b_data b @ src\<rparr>))"

fun hex_decode :: "string \<Rightarrow> byte list option" where
  "hex_decode [] = Some []"
| "hex_decode [c] = None"
| "hex_decode (c # d # cs) =
     (case (hex_nybble c, hex_nybble d) of
        (Some h, Some l) \<Rightarrow> map_option (\<lambda>bs. char_of (16 * h + l) # bs) (hex_decode cs)
      | _ \<Rightarrow> None)"

definition buf_add_hexstring :: "string option \<Rightarrow> buf \<Rightarrow> (unit, buf) res" where
  "buf_add_hexstring s b =
     (if b_poisoned b then Fail b
      else case s of
             None \<Rightarrow> Fail \<lparr>b_poisoned = True, b_data = []\<rparr>
           | Some t \<Rightarrow>
               if t = [] then Fail \<lparr>b_poisoned = True, b_data = []\<rparr>
               else case hex_decode t of
                      None \<Rightarrow> Fail \<lparr>b_poisoned = True, b_data = []\<rparr>
                    | Some bs \<Rightarrow> Ret () (b\<lparr>b_data := b_data b @ bs\<rparr>))"

definition buf_reset :: "buf \<Rightarrow> buf" where
  "buf_reset b = (if b_poisoned b then b else b\<lparr>b_data := []\<rparr>)"

definition buf_size :: "buf \<Rightarrow> nat" where
  "buf_size b = (if b_poisoned b then 0 else length (b_data b))"

text \<open>\<open>equal\<close>: the comparison and the buffer it was called on.\<close>

definition buf_equal :: "buf \<Rightarrow> buf \<Rightarrow> bool \<times> buf" where
  "buf_equal other b =
     (if b_poisoned b then (False, b)
      else if b_poisoned other then (False, \<lparr>b_poisoned = True, b_data = []\<rparr>)
      else (b_data b = b_data other, b))"

text \<open>The abstraction of a \<open>Buffer.c\<close> state and the invariant of healthy objects.\<close>

definition buf_of :: "Buffer_State \<Rightarrow> buf" where
  "buf_of S =
     \<lparr>b_poisoned = bf_poisoned S,
      b_data = (if bf_poisoned S then []
                else case bf_mem S of None \<Rightarrow> [] | Some m \<Rightarrow> take (bf_used S) m)\<rparr>"

definition buffer_ok :: "Buffer_State \<Rightarrow> bool" where
  "buffer_ok S \<longleftrightarrow>
     \<not> bf_poisoned S \<and>
     (\<exists>k \<le> fib_last. bf_seqn S = fib_state k \<and> bf_used S \<le> fib_cap k \<and>
        (case bf_mem S of None \<Rightarrow> bf_used S = 0
         | Some m \<Rightarrow> bf_used S \<le> length m \<and> length m \<le> fib_cap k))"

lemma buffer_ok_Init: "buffer_ok Buffer_Init"
  unfolding buffer_ok_def Buffer_Init_def
  by (auto intro!: exI [of _ 0] simp: init_is_fib_state)

lemma Buffer_free_fib:
  "k \<le> fib_last \<Longrightarrow> used \<le> fib_cap k \<Longrightarrow> Buffer_free used (fib_state k) = fib_cap k - used"
  using fib_cap_le_max [of k]
  by (simp add: Buffer_free_def get_fib_state nat_diff_distrib fib_max_def of_nat_diff flip: of_nat_diff)

text \<open>The growth loop ends at the first Fibonacci number that leaves enough room.\<close>

lemma Buffer_grow_fib:
  assumes "k \<le> fib_last" "used \<le> fib_cap k" "fib_cap k < used + cnt" "used + cnt \<le> fib_max"
  shows "\<exists>l. l \<le> fib_last \<and> k < l \<and> used + cnt \<le> fib_cap l \<and>
             Buffer_grow cnt used (fib_state k) = Some (fib_state l)"
  using assms
proof (induction "fib_last - k" arbitrary: k)
  case 0
  then show ?case using fib_cap_last by simp
next
  case (Suc n)
  then have k: "Suc k \<le> fib_last" by simp
  have used: "used \<le> fib_cap (Suc k)"
    using Suc.prems(2) fib_cap_Suc le_trans by blast
  note unfold = Buffer_grow.simps [of cnt used "fib_state k"] next_fib_state Buffer_free_fib [OF k used]
  show ?case
  proof (cases "fib_cap (Suc k) < used + cnt")
    case True
    from Suc.hyps(2) have "n = fib_last - Suc k" by simp
    from Suc.hyps(1) [OF this k used True Suc.prems(4)] obtain l where
      "l \<le> fib_last" "Suc k < l" "used + cnt \<le> fib_cap l"
      "Buffer_grow cnt used (fib_state (Suc k)) = Some (fib_state l)"
      by blast
    with True used show ?thesis by (auto simp: unfold Let_def intro!: exI [of _ l])
  next
    case False
    with k show ?thesis by (auto simp: unfold Let_def intro!: exI [of _ "Suc k"])
  qed
qed

text \<open>\<open>add\<close> implements the append of the abstract buffer, as long as the heap provides memory.\<close>

lemma Buffer_add_refines:
  assumes ok: "buffer_ok S" and room: "bf_used S + length src \<le> fib_max"
  shows "\<exists>T. Buffer_add plenty src S = Ret () T \<and> buffer_ok T \<and>
             bf_used T = bf_used S + length src \<and> buf_add src (buf_of S) = Ret () (buf_of T)"
proof -
  from ok obtain k where k: "k \<le> fib_last" "bf_seqn S = fib_state k" "bf_used S \<le> fib_cap k"
    and np: "\<not> bf_poisoned S"
    and m: "case bf_mem S of None \<Rightarrow> bf_used S = 0 | Some m \<Rightarrow> bf_used S \<le> length m \<and> length m \<le> fib_cap k"
    by (auto simp: buffer_ok_def)
  obtain l where l: "l \<le> fib_last" "k \<le> l" "bf_used S + length src \<le> fib_cap l"
    "(if length src > Buffer_free (bf_used S) (bf_seqn S)
      then Buffer_grow (length src) (bf_used S) (bf_seqn S) else Some (bf_seqn S)) = Some (fib_state l)"
  proof (cases "length src > Buffer_free (bf_used S) (bf_seqn S)")
    case True
    then have "fib_cap k < bf_used S + length src"
      using k Buffer_free_fib [of k "bf_used S"] by simp
    with Buffer_grow_fib [OF k(1,3) _ room] k(2) True that show ?thesis
      by (metis nat_less_le)
  next
    case False
    then have "bf_used S + length src \<le> fib_cap k"
      using k Buffer_free_fib [of k "bf_used S"] by simp
    with False k that [of k] show ?thesis by simp
  qed
  have cap: "fib_cap k \<le> fib_cap l" using l(2) by (rule fib_cap_mono)
  define m0 where "m0 = (case bf_mem S of None \<Rightarrow> [] | Some n \<Rightarrow> n)"
  have m0: "bf_used S \<le> length m0" "length m0 \<le> fib_cap l"
    using m cap by (auto simp: m0_def split: option.splits)
  define T where "T = S\<lparr>bf_seqn := fib_state l, bf_used := bf_used S + length src,
    bf_mem := Some (take (bf_used S) m0 @ src @ drop (bf_used S + length src) m0)\<rparr>"
  have "Buffer_add plenty src S = Ret () T"
    using np l m0
    by (simp add: Buffer_add_def Buffer_do_alloc_def Buffer_store_def get_fib_state T_def
        m0_def split: option.splits)
  moreover have "buffer_ok T"
    using np l m0 by (auto simp: buffer_ok_def T_def)
  moreover have "buf_add src (buf_of S) = Ret () (buf_of T)"
    using np m0 by (auto simp: buf_add_def buf_of_def T_def m0_def split: option.splits)
  moreover have "bf_used T = bf_used S + length src" by (simp add: T_def)
  ultimately show ?thesis by blast
qed

lemma buf_add_data: "buf_add src b = Ret () c \<Longrightarrow> b_data c = b_data b @ src"
  by (auto simp: buf_add_def split: if_splits)

lemma Buffer_add_poisoned: "bf_poisoned S \<Longrightarrow> Buffer_add mem src S = Fail S"
  by (simp add: Buffer_add_def)

lemma Buffer_reset_refines:
  "buffer_ok S \<Longrightarrow> buffer_ok (Buffer_reset S) \<and> buf_of (Buffer_reset S) = buf_reset (buf_of S)"
  by (auto simp: buffer_ok_def Buffer_reset_def buf_of_def buf_reset_def split: option.splits)

lemma Buffer_size_refines: "buffer_ok S \<Longrightarrow> Buffer_size S = buf_size (buf_of S)"
  by (auto simp: buffer_ok_def Buffer_size_def buf_size_def buf_of_def split: option.splits)

text \<open>The hexadecimal conversion of \<open>Buffer.c\<close> decodes what \<open>hex_decode\<close> says, or poisons the buffer.\<close>

lemma Buffer_hex_loop_refines:
  assumes "buffer_ok S" "bf_used S + length s div 2 \<le> fib_max" "even (length s)"
  shows "case hex_decode s of
           Some bs \<Rightarrow> \<exists>T. Buffer_hex_loop plenty True b s S = Ret () T \<and> buffer_ok T \<and>
                         b_data (buf_of T) = b_data (buf_of S) @ bs
         | None \<Rightarrow> \<exists>T. Buffer_hex_loop plenty True b s S = Fail T \<and> bf_poisoned T"
  using assms
proof (induction s arbitrary: S b rule: hex_decode.induct)
  case 1
  then show ?case by simp
next
  case (2 c)
  then show ?case by simp
next
  case (3 c d cs)
  show ?case
  proof (cases "hex_nybble c = None \<or> hex_nybble d = None")
    case True
    then show ?thesis by (auto split: option.splits)
  next
    case False
    then obtain h l where hl: "hex_nybble c = Some h" "hex_nybble d = Some l" by auto
    have "bf_used S + length [char_of (16 * h + l) :: byte] \<le> fib_max"
      using "3.prems"(2) by simp
    from Buffer_add_refines [OF "3.prems"(1) this] obtain S1 where
      S1: "Buffer_add plenty [char_of (16 * h + l)] S = Ret () S1" "buffer_ok S1"
        "bf_used S1 = bf_used S + 1"
        "buf_add [char_of (16 * h + l)] (buf_of S) = Ret () (buf_of S1)" by auto
    have "bf_used S1 + length cs div 2 \<le> fib_max" "even (length cs)"
      using "3.prems"(2,3) S1(3) by auto
    from "3.IH" [OF refl hl S1(2) this, of "16 * h + l"] S1(1) hl buf_add_data [OF S1(4)]
    show ?thesis by (auto split: option.splits)
  qed
qed

lemma hex_decode_even: "hex_decode s = Some bs \<Longrightarrow> length s = 2 * length bs"
  by (induction s arbitrary: bs rule: hex_decode.induct) (auto split: option.splits)

lemma Buffer_add_hexstring_refines:
  assumes ok: "buffer_ok S" and room: "bf_used S + length s div 2 \<le> fib_max"
  shows "case buf_add_hexstring (Some s) (buf_of S) of
           Ret _ b \<Rightarrow> \<exists>T. Buffer_add_hexstring plenty (Some s) S = Ret () T \<and> buffer_ok T \<and> buf_of T = b
         | Fail b \<Rightarrow> \<exists>T. Buffer_add_hexstring plenty (Some s) S = Fail T \<and> buf_of T = b
         | Undef \<Rightarrow> False"
proof (cases "s = [] \<or> odd (length s)")
  case True
  then have "s = [] \<or> hex_decode s = None"
    using hex_decode_even [of s] by (cases "hex_decode s") auto
  with True ok show ?thesis
    by (auto simp: buf_add_hexstring_def Buffer_add_hexstring_def buf_of_def buffer_ok_def
        odd_iff_mod_2_eq_one)
next
  case False
  then have "even (length s)" by simp
  note loop = Buffer_hex_loop_refines [OF ok room this, of 0]
  have np: "\<not> bf_poisoned S" using ok by (simp add: buffer_ok_def)
  have call: "Buffer_add_hexstring plenty (Some s) S = Buffer_hex_loop plenty True 0 s S"
    using np False by (simp add: Buffer_add_hexstring_def even_iff_mod_2_eq_zero)
  show ?thesis
  proof (cases "hex_decode s")
    case None
    with loop False np show ?thesis
      by (auto simp: call buf_add_hexstring_def buf_of_def)
  next
    case (Some bs)
    with loop obtain T where T: "Buffer_hex_loop plenty True 0 s S = Ret () T" "buffer_ok T"
      "b_data (buf_of T) = b_data (buf_of S) @ bs" by auto
    then have "buf_of T = (buf_of S)\<lparr>b_data := b_data (buf_of S) @ bs\<rparr>"
      using np by (simp add: buf_of_def buffer_ok_def)
    with T Some False np show ?thesis
      by (simp add: call buf_add_hexstring_def buf_of_def)
  qed
qed

lemma hex_nybble_digit_char [simp]: "d < 16 \<Longrightarrow> hex_nybble (digit_char d) = Some d"
  by (simp add: hex_nybble_def)

lemma char_of_nybbles: "char_of (16 * (of_char c div 16) + of_char c mod (16 :: nat)) = c"
  by simp

text \<open>Decoding inverts the \<open>%02x\<close> conversions.\<close>

lemma hex_decode_sprint_hex: "hex_decode (sprint_hex bs) = Some bs"
proof (induction bs)
  case Nil
  then show ?case by (simp add: sprint_hex_def)
next
  case (Cons c bs)
  have "(of_char c :: nat) div 16 < 16"
    using nat_of_char_less_256 [of c] by (simp add: less_mult_imp_div_less)
  with Cons show ?case by (simp add: sprint_hex_def sprint_02x_def)
qed

section \<open>Stores of bytes\<close>

text \<open>
  What a component that assembles a message out of parts relies on: an append keeps
  what is stored and adds the new bytes behind it.
\<close>

locale byte_store =
  fixes add :: "byte list \<Rightarrow> 's \<Rightarrow> (unit, 's) res"
    and data :: "'s \<Rightarrow> byte list"
    and ok :: "'s \<Rightarrow> bool"
    and limit :: "nat option"
  assumes add_appends:
    "ok s \<Longrightarrow> (case limit of None \<Rightarrow> True | Some n \<Rightarrow> length (data s) + length bs \<le> n) \<Longrightarrow>
     \<exists>t. add bs s = Ret () t \<and> ok t \<and> data t = data s @ bs"
begin

lemma add_all:
  assumes "ok s"
    and "case limit of None \<Rightarrow> True | Some n \<Rightarrow> length (data s) + length (concat bss) \<le> n"
  shows "\<exists>t. steps (map add bss) s = Ret () t \<and> ok t \<and> data t = data s @ concat bss"
  using assms
proof (induction bss arbitrary: s)
  case Nil
  then show ?case by simp
next
  case (Cons bs bss)
  have "case limit of None \<Rightarrow> True | Some n \<Rightarrow> length (data s) + length bs \<le> n"
    using Cons.prems(2) by (auto split: option.splits)
  from add_appends [OF Cons.prems(1) this] obtain t where
    t: "add bs s = Ret () t" "ok t" "data t = data s @ bs" by blast
  have "case limit of None \<Rightarrow> True | Some n \<Rightarrow> length (data t) + length (concat bss) \<le> n"
    using Cons.prems(2) t(3) by (auto split: option.splits)
  from Cons.IH [OF t(2) this] t show ?case by auto
qed

end

interpretation abstract_buffer: byte_store buf_add b_data "\<lambda>b. \<not> b_poisoned b" None
  by unfold_locales (auto simp: buf_add_def)

interpretation hurd_buffer:
  byte_store "Buffer_add plenty" "\<lambda>S. b_data (buf_of S)" buffer_ok "Some fib_max"
proof
  fix S :: Buffer_State and bs :: "byte list"
  assume ok: "buffer_ok S" and room: "case Some fib_max of None \<Rightarrow> True
    | Some n \<Rightarrow> length (b_data (buf_of S)) + length bs \<le> n"
  have "length (b_data (buf_of S)) = bf_used S"
    using ok by (auto simp: buffer_ok_def buf_of_def split: option.splits)
  with room Buffer_add_refines [OF ok, of bs] show "\<exists>T. Buffer_add plenty bs S = Ret () T \<and>
      buffer_ok T \<and> b_data (buf_of T) = b_data (buf_of S) @ bs"
    by (auto dest: buf_add_data)
qed

interpretation buffer_latch: latching "Buffer_add mem" bf_poisoned
proof
  fix S T :: Buffer_State and src :: "byte list"
  show "bf_poisoned S \<Longrightarrow> Buffer_add mem src S = Fail S"
    by (rule Buffer_add_poisoned)
  assume "Buffer_add mem src S = Fail T"
  then show "bf_poisoned T"
    by (auto simp: Buffer_add_def Buffer_do_alloc_def Buffer_store_def res_simps
        split: if_splits option.splits)
qed

text \<open>
  A run of \<open>bufr->add()\<close> calls of which only the last is tested: because the buffer latches
  its failures, this notices every failure.
\<close>

fun buf_adds :: "byte list list \<Rightarrow> buf \<Rightarrow> (unit, buf) res" where
  "buf_adds [] b = Ret () b"
| "buf_adds [p] b = buf_add p b"
| "buf_adds (p # q # ps) b =
     buf_adds (q # ps) (case buf_add p b of Ret _ c \<Rightarrow> c | Fail c \<Rightarrow> c | Undef \<Rightarrow> b)"

lemma buf_adds_ok:
  "\<not> b_poisoned b \<Longrightarrow> buf_adds ps b = Ret () (b\<lparr>b_data := b_data b @ concat ps\<rparr>)"
  by (induction ps b rule: buf_adds.induct) (simp_all add: buf_add_def)

lemma buf_adds_poisoned: "b_poisoned b \<Longrightarrow> ps \<noteq> [] \<Longrightarrow> buf_adds ps b = Fail b"
  by (induction ps b rule: buf_adds.induct) (simp_all add: buf_add_def)

end
