(* ===== verification/SecurityPoint.thy ===== *)
theory SecurityPoint
  imports HBuffer
begin

text \<open>
  A security state point (\<open>SecurityModel/SecurityPoint.c\<close>): the coefficient that one event
  contributes to the state of a model, how often it was seen and whether it violates the
  model.
\<close>

record SecurityPoint_State =
  sp_poisoned :: bool
  sp_violation :: bool
  sp_count :: u64
  sp_point :: "byte list"

definition SecurityPoint_Init :: SecurityPoint_State where
  "SecurityPoint_Init = \<lparr>sp_poisoned = False, sp_violation = False, sp_count = 0,
                         sp_point = replicate IDSIZE (CHR 0x00)\<rparr>"

text \<open>A measurement of the wrong size is silently ignored.\<close>

definition SecurityPoint_add :: "buf \<Rightarrow> SecurityPoint_State \<Rightarrow> SecurityPoint_State" where
  "SecurityPoint_add bufr S =
     (if b_poisoned bufr then S
      else if buf_size bufr \<noteq> IDSIZE then S
      else S\<lparr>sp_point := b_data bufr\<rparr>)"

definition SecurityPoint_get :: "SecurityPoint_State \<Rightarrow> byte list" where
  "SecurityPoint_get S = sp_point S"

definition SecurityPoint_get_Buffer :: "SecurityPoint_State \<Rightarrow> buf \<Rightarrow> (unit, buf) res" where
  "SecurityPoint_get_Buffer S bufr =
     (if sp_poisoned S then Fail bufr
      else if b_poisoned bufr then Fail bufr
      else buf_add (sp_point S) bufr)"

definition SecurityPoint_increment :: "SecurityPoint_State \<Rightarrow> SecurityPoint_State" where
  "SecurityPoint_increment S = S\<lparr>sp_count := sp_count S + 1\<rparr>"

definition SecurityPoint_get_count :: "SecurityPoint_State \<Rightarrow> u64" where
  "SecurityPoint_get_count S = sp_count S"

definition SecurityPoint_set_count :: "u64 \<Rightarrow> SecurityPoint_State \<Rightarrow> SecurityPoint_State" where
  "SecurityPoint_set_count count S = S\<lparr>sp_count := count\<rparr>"

definition SecurityPoint_set_invalid :: "SecurityPoint_State \<Rightarrow> SecurityPoint_State" where
  "SecurityPoint_set_invalid S = S\<lparr>sp_violation := True\<rparr>"

definition SecurityPoint_is_valid :: "SecurityPoint_State \<Rightarrow> bool" where
  "SecurityPoint_is_valid S = (\<not> sp_violation S)"

definition SecurityPoint_equal :: "SecurityPoint_State \<Rightarrow> SecurityPoint_State \<Rightarrow> bool" where
  "SecurityPoint_equal other S = (sp_point S = sp_point other)"

definition SecurityPoint_reset :: "SecurityPoint_State \<Rightarrow> SecurityPoint_State" where
  "SecurityPoint_reset S = S\<lparr>sp_count := 0, sp_poisoned := False, sp_violation := False,
                             sp_point := replicate IDSIZE (CHR 0x00)\<rparr>"

definition point_ok :: "SecurityPoint_State \<Rightarrow> bool" where
  "point_ok S \<longleftrightarrow> \<not> sp_poisoned S \<and> length (sp_point S) = IDSIZE"

lemma point_ok_simps [simp]:
  "point_ok SecurityPoint_Init" "point_ok (SecurityPoint_increment S) = point_ok S"
  "point_ok (SecurityPoint_set_count n S) = point_ok S"
  "point_ok (SecurityPoint_set_invalid S) = point_ok S" "point_ok (SecurityPoint_reset S)"
  by (simp_all add: point_ok_def SecurityPoint_Init_def SecurityPoint_increment_def
      SecurityPoint_set_count_def SecurityPoint_set_invalid_def SecurityPoint_reset_def)

lemma point_ok_add [simp]: "point_ok S \<Longrightarrow> point_ok (SecurityPoint_add b S)"
  by (simp add: point_ok_def SecurityPoint_add_def buf_size_def)

text \<open>A point made from a digest.\<close>

lemma SecurityPoint_add_digest:
  "\<not> b_poisoned b \<Longrightarrow> length (b_data b) = IDSIZE \<Longrightarrow> SecurityPoint_add b S = S\<lparr>sp_point := b_data b\<rparr>"
  by (simp add: SecurityPoint_add_def buf_size_def)

text \<open>The count is a 64-bit counter: it wraps.\<close>

lemma SecurityPoint_increments:
  "sp_count ((SecurityPoint_increment ^^ n) S) = sp_count S + of_nat n"
  by (induction n) (simp_all add: SecurityPoint_increment_def)

end
