(* ===== verification/SHA256.thy ===== *)
theory SHA256
  imports HBuffer
begin

text \<open>
  The \<open>Sha256\<close> object (\<open>lib/SHA256.c\<close>), a wrapper of OpenSSL's EVP digest interface.
  The digest itself is not part of the repository: it is the parameter \<open>sha\<close>, a
  function from the bytes of all \<open>EVP_DigestUpdate\<close> calls since \<open>EVP_DigestInit_ex\<close>
  to the digest.  Finishing a digest that was not started is undefined.
\<close>

section \<open>State and operations\<close>

record Sha256_State =
  sh_poisoned :: bool
  sh_initialized :: bool
  sh_computed :: bool
  sh_context :: "byte list"
  sh_buffer :: buf

definition Sha256_Init :: Sha256_State where
  "Sha256_Init = \<lparr>sh_poisoned = False, sh_initialized = False, sh_computed = False,
                  sh_context = [], sh_buffer = buf_empty\<rparr>"

definition sha_poison :: "Sha256_State \<Rightarrow> Sha256_State" where
  "sha_poison S = S\<lparr>sh_poisoned := True\<rparr>"

text \<open>A call of \<open>S->buffer->add\<close>.\<close>

definition sha_buffer_add :: "byte list \<Rightarrow> Sha256_State \<Rightarrow> (unit, Sha256_State) res" where
  "sha_buffer_add bs S = zoom (\<lambda>b. S\<lparr>sh_buffer := b\<rparr>) (buf_add bs (sh_buffer S))"

definition Sha256_compute_digest ::
  "(byte list \<Rightarrow> byte list) \<Rightarrow> Sha256_State \<Rightarrow> (unit, Sha256_State) res" where
  "Sha256_compute_digest sha S =
     on_fail sha_poison
       (steps
          [fail_if sh_poisoned,
           fail_if sh_computed,
           assign (\<lambda>S. S\<lparr>sh_computed := True\<rparr>),
           (\<lambda>S. if sh_initialized S then sha_buffer_add (sha (sh_context S)) S else Undef)] S)"

definition Sha256_add :: "buf \<Rightarrow> Sha256_State \<Rightarrow> (unit, Sha256_State) res" where
  "Sha256_add bf S =
     on_fail sha_poison
       (steps
          [fail_if sh_poisoned,
           fail_if (\<lambda>_. b_poisoned bf),
           fail_if sh_computed,
           assign (\<lambda>S. if sh_initialized S then S
                       else S\<lparr>sh_context := [], sh_initialized := True\<rparr>),
           assign (\<lambda>S. S\<lparr>sh_context := sh_context S @ b_data bf\<rparr>)] S)"

definition Sha256_compute ::
  "(byte list \<Rightarrow> byte list) \<Rightarrow> Sha256_State \<Rightarrow> (unit, Sha256_State) res" where
  "Sha256_compute sha S = Sha256_compute_digest sha S"

text \<open>The loop of \<open>rehash\<close>: the digest buffer is replaced by its own digest.\<close>

fun Sha256_rehash_loop ::
  "(byte list \<Rightarrow> byte list) \<Rightarrow> nat \<Rightarrow> Sha256_State \<Rightarrow> (unit, Sha256_State) res" where
  "Sha256_rehash_loop sha 0 S = Ret () S"
| "Sha256_rehash_loop sha (Suc n) S =
     (let digest = sha (b_data (sh_buffer S))
      in res_bind
           (sha_buffer_add digest (S\<lparr>sh_context := b_data (sh_buffer S),
                                     sh_buffer := buf_reset (sh_buffer S)\<rparr>))
           (\<lambda>_. Sha256_rehash_loop sha n))"

definition Sha256_rehash ::
  "(byte list \<Rightarrow> byte list) \<Rightarrow> nat \<Rightarrow> Sha256_State \<Rightarrow> (unit, Sha256_State) res" where
  "Sha256_rehash sha cnt S =
     on_fail sha_poison
       (steps
          [fail_if sh_poisoned,
           fail_if (\<lambda>_. cnt = 0),
           fail_if (\<lambda>S. \<not> sh_computed S),
           Sha256_rehash_loop sha cnt] S)"

definition Sha256_reset :: "Sha256_State \<Rightarrow> Sha256_State" where
  "Sha256_reset S = S\<lparr>sh_computed := False, sh_initialized := False,
                      sh_buffer := buf_reset (sh_buffer S)\<rparr>"

text \<open>\<open>extend\<close>: the result of the inner \<open>add\<close> is ignored, as in the code.\<close>

definition Sha256_extend ::
  "(byte list \<Rightarrow> byte list) \<Rightarrow> buf \<Rightarrow> Sha256_State \<Rightarrow> (unit, Sha256_State) res" where
  "Sha256_extend sha bufr S =
     on_fail sha_poison
       (steps
          [fail_if sh_poisoned,
           fail_if (\<lambda>S. \<not> sh_computed S),
           fail_if (\<lambda>_. b_poisoned bufr),
           sha_buffer_add (sha (b_data bufr)),
           assign (\<lambda>S. S\<lparr>sh_computed := False, sh_initialized := False\<rparr>),
           (\<lambda>S. case Sha256_add (sh_buffer S) S of
                  Ret _ T \<Rightarrow> Ret () T | Fail T \<Rightarrow> Ret () T | Undef \<Rightarrow> Undef),
           assign (\<lambda>S. S\<lparr>sh_buffer := buf_reset (sh_buffer S)\<rparr>),
           Sha256_compute sha] S)"

text \<open>\<open>get\<close> and \<open>get_Buffer\<close> return NULL, and poison the object, before a digest was computed.\<close>

definition Sha256_get :: "Sha256_State \<Rightarrow> byte list option \<times> Sha256_State" where
  "Sha256_get S =
     (if sh_poisoned S then (None, S)
      else if \<not> sh_computed S then (None, sha_poison S)
      else (Some (b_data (sh_buffer S)), S))"

definition Sha256_get_Buffer :: "Sha256_State \<Rightarrow> buf option \<times> Sha256_State" where
  "Sha256_get_Buffer S =
     (if \<not> sh_computed S then (None, sha_poison S) else (Some (sh_buffer S), S))"

section \<open>Properties\<close>

text \<open>An object that is ready to take a new message.\<close>

definition sha_fresh :: "Sha256_State \<Rightarrow> bool" where
  "sha_fresh S \<longleftrightarrow> \<not> sh_poisoned S \<and> \<not> sh_initialized S \<and> \<not> sh_computed S \<and>
                  \<not> b_poisoned (sh_buffer S) \<and> b_data (sh_buffer S) = []"

text \<open>An object that holds the digest \<open>d\<close>.\<close>

definition sha_holds :: "byte list \<Rightarrow> Sha256_State \<Rightarrow> bool" where
  "sha_holds d S \<longleftrightarrow> \<not> sh_poisoned S \<and> sh_computed S \<and>
                    \<not> b_poisoned (sh_buffer S) \<and> b_data (sh_buffer S) = d"

lemma sha_fresh_Init [simp]: "sha_fresh Sha256_Init"
  by (simp add: sha_fresh_def Sha256_Init_def buf_empty_def)

lemma sha_fresh_reset:
  "\<not> sh_poisoned S \<Longrightarrow> \<not> b_poisoned (sh_buffer S) \<Longrightarrow> sha_fresh (Sha256_reset S)"
  by (simp add: sha_fresh_def Sha256_reset_def buf_reset_def)

lemma Sha256_add_more:
  assumes "\<not> sh_poisoned S" "\<not> sh_computed S" "\<not> b_poisoned b"
  shows "Sha256_add b S =
    Ret () (S\<lparr>sh_context := (if sh_initialized S then sh_context S else []) @ b_data b,
              sh_initialized := True\<rparr>)"
  using assms by (simp add: Sha256_add_def)

text \<open>One message, added and finished: the object holds its digest.\<close>

lemma Sha256_digest:
  assumes "sha_fresh S" "\<not> b_poisoned b"
  shows "\<exists>T. res_bind (Sha256_add b S) (\<lambda>_. Sha256_compute sha) = Ret () T \<and> sha_holds (sha (b_data b)) T"
  using assms
  by (simp add: sha_fresh_def sha_holds_def Sha256_add_more Sha256_compute_def
      Sha256_compute_digest_def sha_buffer_add_def buf_add_def)

text \<open>A message in parts has the digest of the concatenated parts.\<close>

lemma Sha256_adds:
  assumes "\<not> sh_poisoned S" "\<not> sh_computed S" "sh_initialized S" "\<forall>b \<in> set bs. \<not> b_poisoned b"
  shows "steps (map Sha256_add bs) S =
    Ret () (S\<lparr>sh_context := sh_context S @ concat (map b_data bs)\<rparr>)"
  using assms
proof (induction bs arbitrary: S)
  case (Cons b bs)
  then show ?case by (simp add: Sha256_add_more)
qed simp

lemma Sha256_digest_parts:
  assumes "sha_fresh S" "\<forall>b \<in> set bs. \<not> b_poisoned b" "bs \<noteq> []"
  shows "\<exists>T. steps (map Sha256_add bs @ [Sha256_compute sha]) S = Ret () T \<and>
             sha_holds (sha (concat (map b_data bs))) T"
proof -
  obtain b cs where bs: "bs = b # cs" using assms(3) by (cases bs) auto
  with assms show ?thesis
    by (simp add: steps_append sha_fresh_def sha_holds_def Sha256_add_more Sha256_adds
        Sha256_compute_def Sha256_compute_digest_def sha_buffer_add_def buf_add_def)
qed

lemma Sha256_rehash_loop_holds:
  "sha_holds d S \<Longrightarrow> \<exists>T. Sha256_rehash_loop sha n S = Ret () T \<and> sha_holds ((sha ^^ n) d) T"
proof (induction n arbitrary: d S)
  case 0
  then show ?case by simp
next
  case (Suc n)
  define U where "U = S\<lparr>sh_context := b_data (sh_buffer S), sh_buffer := (buf_reset (sh_buffer S))\<lparr>b_data := sha d\<rparr>\<rparr>"
  have "sha_holds (sha d) U"
    using Suc.prems by (simp add: U_def sha_holds_def buf_reset_def)
  from Suc.IH [OF this] obtain T where
    "Sha256_rehash_loop sha n U = Ret () T" "sha_holds ((sha ^^ n) (sha d)) T" by blast
  moreover have "Sha256_rehash_loop sha (Suc n) S = Sha256_rehash_loop sha n U"
    using Suc.prems
    by (simp add: U_def sha_holds_def sha_buffer_add_def buf_add_def buf_reset_def Let_def)
  ultimately show ?case by (simp add: funpow_swap1)
qed

lemma Sha256_rehash_holds:
  assumes "sha_holds d S" "0 < n"
  shows "\<exists>T. Sha256_rehash sha n S = Ret () T \<and> sha_holds ((sha ^^ n) d) T"
  using Sha256_rehash_loop_holds [OF assms(1), of sha n] assms
  by (auto simp: Sha256_rehash_def sha_holds_def)

text \<open>\<open>extend\<close> is the register extension of a TPM: the digest of the old value and the digest of the update.\<close>

lemma Sha256_extend_holds:
  assumes "sha_holds d S" "\<not> b_poisoned b"
  shows "\<exists>T. Sha256_extend sha b S = Ret () T \<and> sha_holds (sha (d @ sha (b_data b))) T"
  using assms
  by (simp add: Sha256_extend_def sha_holds_def sha_buffer_add_def buf_add_def Sha256_add_more
      Sha256_compute_def Sha256_compute_digest_def buf_reset_def)

lemma Sha256_get_Buffer_holds:
  "sha_holds d S \<Longrightarrow> Sha256_get_Buffer S = (Some \<lparr>b_poisoned = False, b_data = d\<rparr>, S)"
  by (cases "sh_buffer S") (simp add: sha_holds_def Sha256_get_Buffer_def)

interpretation sha_add_latch: latching Sha256_add sh_poisoned
  by unfold_locales (auto simp: Sha256_add_def res_simps sha_poison_def)

end
