(* ===== verification/HString.thy ===== *)
theory HString
  imports HBuffer
begin

text \<open>
  HurdLib's \<open>String\<close> object (\<open>String.c\<close>): a NUL-terminated string kept in a \<open>Buffer\<close>.
  The second half is the abstract string object that the clients are written against,
  and the lemmas that \<open>String.c\<close> implements it.
\<close>

section \<open>State and operations\<close>

record String_State =
  str_poisoned :: bool
  str_buffer :: Buffer_State

abbreviation NUL :: char where
  "NUL \<equiv> CHR 0x00"

definition String_Init :: String_State where
  "String_Init = \<lparr>str_poisoned = False, str_buffer = Buffer_Init\<rparr>"

definition String_add :: "(nat \<Rightarrow> bool) \<Rightarrow> string \<Rightarrow> String_State \<Rightarrow> (unit, String_State) res" where
  "String_add mem src S =
     (if bf_poisoned (str_buffer S) then Fail S
      else zoom (\<lambda>b. S\<lparr>str_buffer := b\<rparr>)
             (res_bind (Buffer_add mem src (Buffer_shrink 1 (str_buffer S)))
                (\<lambda>_. Buffer_add mem [NUL])))"

text \<open>The loop \<open>for (lp=0; lp < add; ++lp)\<close> that makes room for the formatted text.\<close>

fun String_expand :: "(nat \<Rightarrow> bool) \<Rightarrow> nat \<Rightarrow> Buffer_State \<Rightarrow> (unit, Buffer_State) res" where
  "String_expand mem 0 B = Ret () B"
| "String_expand mem (Suc n) B = res_bind (Buffer_add mem [NUL] B) (\<lambda>_. String_expand mem n)"

text \<open>
  \<open>add_sprintf\<close> for the text that the format describes.  The length is the \<open>int\<close> that \<open>vsnprintf\<close>
  returns: a text that is longer than \<open>INT_MAX\<close> makes it negative, and for a text of just this length
  \<open>rc + 1\<close> overflows.  Otherwise the memory is expanded and the text, with its NUL, printed over it from
  \<open>nullposn\<close>.
\<close>

definition INT_MAX :: nat where
  "INT_MAX = 2 ^ 31 - 1"

definition String_add_sprintf ::
  "(nat \<Rightarrow> bool) \<Rightarrow> string \<Rightarrow> String_State \<Rightarrow> (unit, String_State) res" where
  "String_add_sprintf mem txt S =
     (if length txt > INT_MAX then Fail (S\<lparr>str_poisoned := True\<rparr>)
      else if length txt = INT_MAX then Undef
      else
      let needed = length txt + 1;
          size = Buffer_size (str_buffer S);
          nullposn = (if size > 0 then size - 1 else size);
          room = (if size > 0 then needed - 1 else needed)
      in case String_expand mem room (str_buffer S) of
           Ret _ B \<Rightarrow>
             (case Buffer_get B of
                None \<Rightarrow> Undef
              | Some m \<Rightarrow> Ret () (S\<lparr>str_buffer := B\<lparr>bf_mem :=
                          Some (take nullposn m @ txt @ [NUL] @ drop (nullposn + needed) m)\<rparr>\<rparr>))
         | Fail B \<Rightarrow> Fail (S\<lparr>str_poisoned := True, str_buffer := B\<rparr>)
         | Undef \<Rightarrow> Undef)"

text \<open>The C string that \<open>get\<close> points to; \<open>None\<close> is the NULL pointer.\<close>

definition cstring :: "byte list \<Rightarrow> string" where
  "cstring m = takeWhile (\<lambda>c. c \<noteq> NUL) m"

definition String_get :: "String_State \<Rightarrow> string option" where
  "String_get S = (if bf_poisoned (str_buffer S) then None
                   else map_option cstring (Buffer_get (str_buffer S)))"

definition String_size :: "String_State \<Rightarrow> nat" where
  "String_size S =
     (if bf_poisoned (str_buffer S) then 0
      else if Buffer_size (str_buffer S) = 0 then 0
      else Buffer_size (str_buffer S) - 1)"

definition String_is_poisoned :: "String_State \<Rightarrow> bool" where
  "String_is_poisoned S = bf_poisoned (str_buffer S)"

definition String_reset :: "String_State \<Rightarrow> String_State" where
  "String_reset S = S\<lparr>str_buffer := Buffer_reset (str_buffer S)\<rparr>"

section \<open>The abstract string object\<close>

text \<open>\<open>h_text = None\<close>: nothing was ever added, and \<open>get\<close> returns NULL.\<close>

record hstr =
  h_poisoned :: bool
  h_text :: "string option"

definition hs_empty :: hstr where
  "hs_empty = \<lparr>h_poisoned = False, h_text = None\<rparr>"

definition hs_of :: "string \<Rightarrow> hstr" where
  "hs_of s = \<lparr>h_poisoned = False, h_text = Some s\<rparr>"

definition hs_get :: "hstr \<Rightarrow> string option" where
  "hs_get s = (if h_poisoned s then None else h_text s)"

definition hs_chars :: "hstr \<Rightarrow> string" where
  "hs_chars s = (case hs_get s of None \<Rightarrow> [] | Some t \<Rightarrow> t)"

definition hs_size :: "hstr \<Rightarrow> nat" where
  "hs_size s = length (hs_chars s)"

definition hs_add :: "string \<Rightarrow> hstr \<Rightarrow> (unit, hstr) res" where
  "hs_add t s = (if h_poisoned s then Fail s else Ret () (s\<lparr>h_text := Some (hs_chars s @ t)\<rparr>))"

definition hs_reset :: "hstr \<Rightarrow> hstr" where
  "hs_reset s = (if h_poisoned s then s else s\<lparr>h_text := map_option (\<lambda>_. []) (h_text s)\<rparr>)"

lemma hs_chars_simps [simp]:
  "hs_chars hs_empty = []" "hs_chars (hs_of t) = t" "hs_chars (hs_reset s) = []"
  by (auto simp: hs_chars_def hs_get_def hs_empty_def hs_of_def hs_reset_def split: option.splits)

lemma hs_get_of [simp]: "hs_get (hs_of t) = Some t"
  by (simp add: hs_get_def hs_of_def)

lemma hs_poisoned_simps [simp]:
  "\<not> h_poisoned hs_empty" "\<not> h_poisoned (hs_of t)" "h_poisoned (hs_reset s) = h_poisoned s"
  by (simp_all add: hs_empty_def hs_of_def hs_reset_def)

lemma hs_size_of [simp]: "hs_size (hs_of t) = length t"
  by (simp add: hs_size_def)

lemma hs_add_of [simp]: "hs_add t (hs_of s) = Ret () (hs_of (s @ t))"
  by (simp add: hs_add_def hs_of_def hs_chars_def hs_get_def)

lemma hs_add_empty [simp]: "hs_add t hs_empty = Ret () (hs_of t)"
  by (simp add: hs_add_def hs_of_def hs_empty_def hs_chars_def hs_get_def)

lemma hs_add_reset: "\<not> h_poisoned s \<Longrightarrow> hs_add t (hs_reset s) = Ret () (hs_of t)"
  by (simp add: hs_add_def hs_of_def hs_reset_def hs_chars_def hs_get_def split: option.splits)

lemma hs_add_Ret_iff:
  "hs_add t s = Ret () u \<longleftrightarrow> \<not> h_poisoned s \<and> u = hs_of (hs_chars s @ t)"
  by (auto simp: hs_add_def hs_of_def)

lemma hs_add_ok: "\<not> h_poisoned s \<Longrightarrow> hs_add t s = Ret () (hs_of (hs_chars s @ t))"
  by (simp add: hs_add_Ret_iff)

lemma hs_add_Fail_iff: "hs_add t s = Fail u \<longleftrightarrow> h_poisoned s \<and> u = s"
  by (auto simp: hs_add_def)

section \<open>\<open>String.c\<close> implements the abstract string\<close>

text \<open>The memory is a text without NUL followed by one, or was cleared by a reset.\<close>

definition string_ok :: "String_State \<Rightarrow> bool" where
  "string_ok S \<longleftrightarrow> buffer_ok (str_buffer S) \<and>
     (case bf_mem (str_buffer S) of
        None \<Rightarrow> True
      | Some m \<Rightarrow>
          (if bf_used (str_buffer S) = 0 then m \<noteq> [] \<and> m ! 0 = NUL
           else m ! (bf_used (str_buffer S) - 1) = NUL \<and>
                NUL \<notin> set (take (bf_used (str_buffer S) - 1) m)))"

definition hstr_of :: "String_State \<Rightarrow> hstr" where
  "hstr_of S = \<lparr>h_poisoned = bf_poisoned (str_buffer S), h_text = String_get S\<rparr>"

lemma string_ok_Init: "string_ok String_Init"
  using buffer_ok_Init by (simp add: string_ok_def String_Init_def Buffer_Init_def)

lemma cstring_append: "NUL \<notin> set t \<Longrightarrow> cstring (t @ NUL # r) = t"
  unfolding cstring_def by (induction t) auto

lemma cstring_take:
  assumes "n < length m" "m ! n = NUL" "NUL \<notin> set (take n m)"
  shows "cstring m = take n m"
  using cstring_append [OF assms(3), of "drop (Suc n) m"] id_take_nth_drop [OF assms(1)] assms(2)
  by simp

lemma buffer_ok_shrink:
  assumes "buffer_ok B"
  shows "buffer_ok (Buffer_shrink n B)"
proof -
  from assms obtain k where "k \<le> fib_last" "bf_seqn B = fib_state k" "bf_used B \<le> fib_cap k"
    "\<not> bf_poisoned B" "case bf_mem B of None \<Rightarrow> bf_used B = 0
       | Some m \<Rightarrow> bf_used B \<le> length m \<and> length m \<le> fib_cap k"
    by (auto simp: buffer_ok_def)
  then show ?thesis
    by (auto simp: buffer_ok_def Buffer_shrink_def intro!: exI [of _ k] split: option.splits)
qed

lemma string_ok_get:
  assumes "string_ok S"
  shows "String_get S = (case bf_mem (str_buffer S) of None \<Rightarrow> None
           | Some m \<Rightarrow> Some (take (bf_used (str_buffer S) - 1) m))"
proof (cases "bf_mem (str_buffer S)")
  case None
  with assms show ?thesis
    by (simp add: String_get_def Buffer_get_def string_ok_def buffer_ok_def)
next
  case (Some m)
  let ?u = "bf_used (str_buffer S)"
  have len: "?u \<le> length m" and np: "\<not> bf_poisoned (str_buffer S)"
    using assms Some by (auto simp: string_ok_def buffer_ok_def)
  have "cstring m = take (?u - 1) m"
  proof (cases "?u = 0")
    case True
    with assms Some have "m \<noteq> []" "m ! 0 = NUL" by (auto simp: string_ok_def)
    with True show ?thesis by (cases m) (simp_all add: cstring_def)
  next
    case False
    with assms Some len show ?thesis
      by (intro cstring_take) (auto simp: string_ok_def)
  qed
  with Some np show ?thesis by (simp add: String_get_def Buffer_get_def)
qed

lemma String_add_refines:
  assumes ok: "string_ok S" and src: "NUL \<notin> set src"
    and room: "bf_used (str_buffer S) + length src + 1 \<le> fib_max"
  shows "\<exists>T. String_add plenty src S = Ret () T \<and> string_ok T \<and>
             hs_add src (hstr_of S) = Ret () (hstr_of T)"
proof -
  let ?B = "Buffer_shrink 1 (str_buffer S)"
  have bok: "buffer_ok (str_buffer S)" and np: "\<not> bf_poisoned (str_buffer S)"
    using ok by (auto simp: string_ok_def buffer_ok_def)
  then have sok: "buffer_ok ?B" by (intro buffer_ok_shrink)
  have used: "bf_used ?B = bf_used (str_buffer S) - 1"
    using np by (auto simp: Buffer_shrink_def)
  have room1: "bf_used ?B + length src \<le> fib_max" using used room by simp
  obtain B1 where B1: "Buffer_add plenty src ?B = Ret () B1" "buffer_ok B1"
    "bf_used B1 = bf_used ?B + length src" "buf_add src (buf_of ?B) = Ret () (buf_of B1)"
    using Buffer_add_refines [OF sok room1] by blast
  have room2: "bf_used B1 + length [NUL] \<le> fib_max" using B1(3) used room by simp
  obtain B2 where B2: "Buffer_add plenty [NUL] B1 = Ret () B2" "buffer_ok B2"
    "bf_used B2 = bf_used B1 + length [NUL]" "buf_add [NUL] (buf_of B1) = Ret () (buf_of B2)"
    using Buffer_add_refines [OF B1(2) room2] by blast
  define T where "T = S\<lparr>str_buffer := B2\<rparr>"
  have data: "b_data (buf_of B2) = b_data (buf_of ?B) @ src @ [NUL]"
    using buf_add_data [OF B1(4)] buf_add_data [OF B2(4)] by simp
  obtain m where m: "bf_mem B2 = Some m" "bf_used B2 \<le> length m" "\<not> bf_poisoned B2"
    using B2(2,3) by (auto simp: buffer_ok_def split: option.splits)
  define t where "t = hs_chars (hstr_of S)"
  have t: "b_data (buf_of ?B) = t"
    using ok np sok string_ok_get [OF ok] used
    by (auto simp: t_def hs_chars_def hs_get_def hstr_of_def buf_of_def Buffer_shrink_def
        string_ok_def buffer_ok_def split: option.splits)
  have nul: "NUL \<notin> set t"
    using ok string_ok_get [OF ok]
    by (auto simp: t_def hs_chars_def hs_get_def hstr_of_def string_ok_def split: option.splits if_splits)
  have tk: "take (bf_used B2) m = t @ src @ [NUL]"
    using data t m by (simp add: buf_of_def)
  then have "length (take (bf_used B2) m) = length (t @ src @ [NUL])" by (rule arg_cong)
  then have len: "bf_used B2 = length t + length src + 1"
    using m(2) by simp
  have "take (bf_used B2 - 1) (take (bf_used B2) m) = t @ src"
    unfolding tk using len by simp
  then have tk1: "take (bf_used B2 - 1) m = t @ src"
    by (simp add: min_def)
  have last: "m ! (bf_used B2 - 1) = NUL"
  proof -
    have "m ! (bf_used B2 - 1) = take (bf_used B2) m ! (bf_used B2 - 1)"
      using len by simp
    also have "\<dots> = NUL" using tk len by (simp add: nth_append)
    finally show ?thesis .
  qed
  have "String_add plenty src S = Ret () T"
    using np B1(1) B2(1) by (simp add: String_add_def T_def)
  moreover have Tok: "string_ok T"
    using B2(2) m last tk1 nul src len by (simp add: string_ok_def T_def)
  moreover have "hs_add src (hstr_of S) = Ret () (hstr_of T)"
    using string_ok_get [OF Tok] m tk1 np
    by (simp add: hs_add_def hstr_of_def T_def t_def)
  ultimately show ?thesis by blast
qed

lemma String_reset_refines:
  "string_ok S \<Longrightarrow> string_ok (String_reset S) \<and> hstr_of (String_reset S) = hs_reset (hstr_of S)"
proof -
  assume ok: "string_ok S"
  then have bok: "buffer_ok (str_buffer S)" by (simp add: string_ok_def)
  have "string_ok (String_reset S)"
    using ok Buffer_reset_refines [OF bok] bok
    by (auto simp: string_ok_def String_reset_def Buffer_reset_def buffer_ok_def nth_append
        split: option.splits if_splits)
  with ok bok show ?thesis
    by (auto simp: hstr_of_def hs_reset_def string_ok_get String_reset_def Buffer_reset_def
        buffer_ok_def split: option.splits)
qed

lemma String_size_refines: "string_ok S \<Longrightarrow> String_size S = hs_size (hstr_of S)"
  using string_ok_get [of S]
  by (auto simp: String_size_def Buffer_size_def hs_size_def hs_chars_def hs_get_def hstr_of_def
      string_ok_def buffer_ok_def split: option.splits)

text \<open>The loop of \<open>add_sprintf\<close> appends NUL bytes.\<close>

lemma String_expand_adds:
  assumes "buffer_ok B" "bf_used B + n \<le> fib_max"
  shows "\<exists>C. String_expand plenty n B = Ret () C \<and> buffer_ok C \<and> bf_used C = bf_used B + n \<and>
             b_data (buf_of C) = b_data (buf_of B) @ replicate n NUL"
  using assms(1,2)
proof (induction n arbitrary: B)
  case 0
  then show ?case by simp
next
  case (Suc n)
  obtain B1 where B1: "Buffer_add plenty [NUL] B = Ret () B1" "buffer_ok B1"
    "bf_used B1 = bf_used B + 1" "buf_add [NUL] (buf_of B) = Ret () (buf_of B1)"
    using Buffer_add_refines [OF Suc.prems(1), of "[NUL]"] Suc.prems(2) by auto
  then have "b_data (buf_of B1) = b_data (buf_of B) @ [NUL]"
    by (intro buf_add_data) simp
  moreover obtain C where "String_expand plenty n B1 = Ret () C" "buffer_ok C"
    "bf_used C = bf_used B1 + n" "b_data (buf_of C) = b_data (buf_of B1) @ replicate n NUL"
    using Suc.IH [OF B1(2)] B1(3) Suc.prems(2) by auto
  ultimately show ?case using B1(1,3) by simp
qed

lemma String_add_sprintf_refines:
  assumes ok: "string_ok S" and clean: "NUL \<notin> set txt"
    and room: "bf_used (str_buffer S) + length txt + 1 \<le> fib_max" "length txt < INT_MAX"
  shows "\<exists>T. String_add_sprintf plenty txt S = Ret () T \<and> string_ok T \<and>
             hs_add txt (hstr_of S) = Ret () (hstr_of T)"
proof -
  let ?B = "str_buffer S"
  let ?u = "bf_used ?B"
  let ?np = "if ?u > 0 then ?u - 1 else ?u"
  have bok: "buffer_ok ?B" and np: "\<not> bf_poisoned ?B"
    using ok by (auto simp: string_ok_def buffer_ok_def)
  define k where "k = (if ?u > 0 then length txt else length txt + 1)"
  have "?u + k \<le> fib_max" using room(1) by (simp add: k_def)
  then obtain C where C: "String_expand plenty k ?B = Ret () C" "buffer_ok C" "bf_used C = ?u + k"
    "b_data (buf_of C) = b_data (buf_of ?B) @ replicate k NUL"
    using String_expand_adds [OF bok, of k] by blast
  have uC: "bf_used C = ?np + length txt + 1" using C(3) by (auto simp: k_def)
  obtain m where m: "bf_mem C = Some m" "bf_used C \<le> length m" "\<not> bf_poisoned C"
    using C(2) uC by (auto simp: buffer_ok_def split: option.splits)
  define m' where "m' = take ?np m @ txt @ [NUL] @ drop (?np + (length txt + 1)) m"
  define T where "T = S\<lparr>str_buffer := C\<lparr>bf_mem := Some m'\<rparr>\<rparr>"
  have res: "String_add_sprintf plenty txt S = Ret () T"
    using C(1) m np room(2)
    by (auto simp: String_add_sprintf_def Buffer_size_def Buffer_get_def Let_def k_def T_def m'_def)
  define t where "t = hs_chars (hstr_of S)"
  have "take ?np (b_data (buf_of ?B)) = t"
    using ok np string_ok_get [OF ok]
    by (auto simp: t_def hs_chars_def hs_get_def hstr_of_def buf_of_def string_ok_def
        buffer_ok_def min_def split: option.splits)
  moreover have "take ?np (b_data (buf_of C)) = take ?np m"
    using m uC by (simp add: buf_of_def min_def)
  moreover have "?np \<le> length (b_data (buf_of ?B))"
    using bok by (auto simp: buf_of_def buffer_ok_def split: option.splits)
  ultimately have tm: "take ?np m = t" using C(4) by auto
  then have lt: "length t = ?np" using m(2) uC by auto
  have nul: "NUL \<notin> set t"
    using ok string_ok_get [OF ok]
    by (auto simp: t_def hs_chars_def hs_get_def hstr_of_def string_ok_def split: option.splits if_splits)
  have lm: "length m' = length m" using m(2) uC by (simp add: m'_def)
  have tk: "take (bf_used C - 1) m' = t @ txt" and lst: "m' ! (bf_used C - 1) = NUL"
    using uC lt by (simp_all add: m'_def tm nth_append)
  have Tok: "string_ok T"
    using C(2) m lm tk lst nul clean uC
    by (auto simp: string_ok_def T_def buffer_ok_def)
  moreover have "hs_add txt (hstr_of S) = Ret () (hstr_of T)"
    using string_ok_get [OF Tok] tk np m
    by (simp add: hs_add_def hstr_of_def T_def t_def)
  ultimately show ?thesis using res by blast
qed

end
