(* ===== verification/TSEMparser.thy ===== *)
theory TSEMparser
  imports HString
begin

text \<open>
  The parser of JSON encoded event descriptions (\<open>lib/TSEMparser.c\<close>).  It extracts the
  text of a named field, with its braces, and looks keys up in that text.  \<open>errno\<close> is
  the C library's global variable; the parser tests it but never clears it.
\<close>

section \<open>State\<close>

record TSEMparser_State =
  tp_poisoned :: bool
  tp_field :: hstr
  tp_key_value :: hstr

definition TSEMparser_Init :: TSEMparser_State where
  "TSEMparser_Init = \<lparr>tp_poisoned = False, tp_field = hs_empty, tp_key_value = hs_empty\<rparr>"

abbreviation DQ :: char where
  "DQ \<equiv> CHR 0x22"

section \<open>Extracting a field\<close>

text \<open>\<open>add_sprintf(..., "\"%s\": {", field)\<close>\<close>

definition field_spec :: "string \<Rightarrow> string" where
  "field_spec field = DQ # field @ DQ # '': {''"

text \<open>
  The loop that counts braces from behind the opening one: the characters it passes and
  those left at \<open>end\<close>.
\<close>

fun brace_scan :: "nat \<Rightarrow> string \<Rightarrow> string \<times> string" where
  "brace_scan 0 s = ([], s)"
| "brace_scan (Suc n) [] = ([], [])"
| "brace_scan (Suc n) (c # cs) =
     (let cnt = (if c = CHR ''{'' then n + 2 else if c = CHR ''}'' then n else n + 1);
          (inside, rest) = brace_scan cnt cs
      in (c # inside, rest))"

text \<open>The copy loop: one character at a time, the result of \<open>add\<close> ignored.\<close>

fun copy_chars :: "string \<Rightarrow> hstr \<Rightarrow> hstr" where
  "copy_chars [] s = s"
| "copy_chars (c # cs) s =
     copy_chars cs (case hs_add [c] s of Ret _ t \<Rightarrow> t | Fail t \<Rightarrow> t | Undef \<Rightarrow> s)"

definition TSEMparser_extract_field ::
  "hstr \<Rightarrow> string \<Rightarrow> TSEMparser_State \<Rightarrow> (unit, TSEMparser_State) res" where
  "TSEMparser_extract_field event field S =
     (if tp_poisoned S then Fail S
      else if h_poisoned event then Fail S
      else
        (case hs_get event of
           None \<Rightarrow> Undef
         | Some ev \<Rightarrow>
             if ev = [] \<or> hd ev \<noteq> CHR ''{'' \<or> last ev \<noteq> CHR ''}'' then Fail S
             else
               res_bind
                 (zoom (\<lambda>f. S\<lparr>tp_field := f\<rparr>) (hs_add (field_spec field) (hs_reset (tp_field S))))
                 (\<lambda>_ S1.
                    (case strstr ev (field_spec field) of
                       None \<Rightarrow> Fail S1
                     | Some (pre, suf) \<Rightarrow>
                         let start = drop (hs_size (tp_field S1) - 1) suf;
                             (inside, end) = brace_scan 1 (drop 1 start)
                         in if end = [] then Fail S1
                            else
                              let S2 = S1\<lparr>tp_field :=
                                          copy_chars (take 1 start @ inside) (hs_reset (tp_field S1))\<rparr>
                              in if h_poisoned (tp_field S2) then Fail S2 else Ret () S2))))"

definition TSEMparser_get_field ::
  "TSEMparser_State \<Rightarrow> hstr \<Rightarrow> (unit, hstr) res" where
  "TSEMparser_get_field S str =
     (if tp_poisoned S then Fail str
      else if h_poisoned str then Fail str
      else case hs_get (tp_field S) of None \<Rightarrow> Undef | Some t \<Rightarrow> hs_add t str)"

section \<open>Looking up a key\<close>

text \<open>The nesting level of a position, from the characters before it.\<close>

definition brace_step :: "int \<Rightarrow> char \<Rightarrow> int" where
  "brace_step level c =
     (if c = CHR ''{'' then level + 1 else if c = CHR ''}'' then level - 1 else level)"

definition find_level :: "string \<Rightarrow> nat" where
  "find_level pre = nat (foldl brace_step 0 (drop 1 pre))"

text \<open>\<open>add_sprintf(..., "\"%s\": ", key)\<close>\<close>

definition key_spec :: "string \<Rightarrow> string" where
  "key_spec key = DQ # key @ DQ # '': ''"

lemma length_key_spec [simp]: "length (key_spec key) = length key + 4"
  by (simp add: key_spec_def)

text \<open>
  The search loop of \<open>_find_key\<close>.  \<open>fp\<close> is the offset of the pointer of that name; it
  advances by the size of the key descriptor whenever the occurrence found is nested.
\<close>

function find_key_loop :: "string \<Rightarrow> string \<Rightarrow> nat \<Rightarrow> (string \<times> string) option" where
  "find_key_loop field key fp =
     (case strstr (drop fp field) (key_spec key) of
        None \<Rightarrow> None
      | Some (pre, suf) \<Rightarrow>
          if find_level (take fp field @ pre) = 0 then Some (take fp field @ pre, suf)
          else find_key_loop field key (fp + length (key_spec key)))"
  by pat_completeness auto
termination
  by (relation "measure (\<lambda>(field, key, fp). length field - fp)") (auto dest!: strstr_length)

declare find_key_loop.simps [simp del]

definition TSEMparser_find_key ::
  "string \<Rightarrow> TSEMparser_State \<Rightarrow> ((string \<times> string) option, TSEMparser_State) res" where
  "TSEMparser_find_key key S =
     (case hs_add (key_spec key) (hs_reset (tp_key_value S)) of
        Undef \<Rightarrow> Undef
      | Fail k \<Rightarrow> Ret None (S\<lparr>tp_key_value := k\<rparr>)
      | Ret _ k \<Rightarrow>
          let S1 = S\<lparr>tp_key_value := k\<rparr>
          in (case hs_get (tp_field S1) of
                None \<Rightarrow> Undef
              | Some field \<Rightarrow>
                  (case find_key_loop field key 0 of
                     None \<Rightarrow> Ret None S1
                   | Some (pre, suf) \<Rightarrow>
                       (case drop (hs_size k) suf of
                          [] \<Rightarrow> Ret None S1
                        | type # _ \<Rightarrow>
                            if type \<noteq> DQ \<and> type \<noteq> CHR ''{'' then Ret None S1
                            else (case hs_add [type] k of
                                    Ret _ k2 \<Rightarrow> Ret (Some (pre, suf)) (S\<lparr>tp_key_value := k2\<rparr>)
                                  | Fail k2 \<Rightarrow> Ret None (S\<lparr>tp_key_value := k2\<rparr>)
                                  | Undef \<Rightarrow> Undef)))))"

definition TSEMparser_get_key :: "string \<Rightarrow> TSEMparser_State \<Rightarrow> (unit, TSEMparser_State) res" where
  "TSEMparser_get_key key S =
     res_bind (TSEMparser_find_key key S)
       (\<lambda>r S1. case r of
          None \<Rightarrow> Fail S1
        | Some (pre, suf) \<Rightarrow>
            let start = drop (hs_size (tp_key_value S1)) suf
            in (case strchr start DQ of
                  None \<Rightarrow> Fail S1
                | Some (val, end) \<Rightarrow>
                    let S2 = S1\<lparr>tp_key_value :=
                               copy_chars (if val = [] then take 1 start else val)
                                 (hs_reset (tp_key_value S1))\<rparr>
                    in if h_poisoned (tp_key_value S2) then Fail S2 else Ret () S2))"

text \<open>\<open>get_integer\<close>; a \<open>None\<close> key is the NULL pointer, which selects the field itself.\<close>

definition TSEMparser_get_integer ::
  "string option \<Rightarrow> TSEMparser_State \<times> int \<Rightarrow> (u64, TSEMparser_State \<times> int) res" where
  "TSEMparser_get_integer key = (\<lambda>(S, errno).
     (case (case key of Some k \<Rightarrow> TSEMparser_get_key k S | None \<Rightarrow> Ret () S) of
        Undef \<Rightarrow> Undef
      | Fail S1 \<Rightarrow> Fail (S1, errno)
      | Ret _ S1 \<Rightarrow>
          (case hs_get (case key of Some _ \<Rightarrow> tp_key_value S1 | None \<Rightarrow> tp_field S1) of
             None \<Rightarrow> Undef
           | Some t \<Rightarrow>
               let (value, range) = strtoll t;
                   errno1 = (if range then ERANGE else errno)
               in if errno1 = ERANGE then Fail (S1, errno1)
                  else Ret (word_of_int value) (S1, errno1))))"

definition TSEMparser_get_text ::
  "string option \<Rightarrow> TSEMparser_State \<times> hstr \<Rightarrow> (unit, TSEMparser_State \<times> hstr) res" where
  "TSEMparser_get_text key = (\<lambda>(S, text).
     (case (case key of Some k \<Rightarrow> TSEMparser_get_key k S | None \<Rightarrow> Ret () S) of
        Undef \<Rightarrow> Undef
      | Fail S1 \<Rightarrow> Fail (S1, text)
      | Ret _ S1 \<Rightarrow>
          (case hs_get (case key of Some _ \<Rightarrow> tp_key_value S1 | None \<Rightarrow> tp_field S1) of
             None \<Rightarrow> Undef
           | Some t \<Rightarrow> zoom (\<lambda>x. (S1, x)) (hs_add t text))))"

definition TSEMparser_has_key :: "string \<Rightarrow> TSEMparser_State \<Rightarrow> (bool, TSEMparser_State) res" where
  "TSEMparser_has_key key S =
     (if hs_size (tp_field S) = 0 then Ret False S
      else res_bind (TSEMparser_find_key key S) (\<lambda>r S1. Ret (r \<noteq> None) S1))"

definition TSEMparser_reset :: "TSEMparser_State \<Rightarrow> TSEMparser_State" where
  "TSEMparser_reset S = S\<lparr>tp_field := hs_reset (tp_field S)\<rparr>"

section \<open>Parsing into another object\<close>

text \<open>
  The methods that parse a field into their own state keep a parser in a local variable, and
  read integers into it: the frame of such a method is its object, the parser and \<open>errno\<close>.
\<close>

type_synonym 's frame = "'s \<times> TSEMparser_State \<times> int"

definition parse_field :: "hstr \<Rightarrow> string \<Rightarrow> 's frame \<Rightarrow> (unit, 's frame) res" where
  "parse_field entry field = (\<lambda>(S, p, e). zoom (\<lambda>p. (S, p, e)) (TSEMparser_extract_field entry field p))"

definition parse_integer ::
  "string \<Rightarrow> (u64 \<Rightarrow> 's frame \<Rightarrow> (unit, 's frame) res) \<Rightarrow> 's frame \<Rightarrow> (unit, 's frame) res" where
  "parse_integer key f = (\<lambda>(S, p, e).
     res_bind (zoom (\<lambda>(p, e). (S, p, e)) (TSEMparser_get_integer (Some key) (p, e))) f)"

definition parse_text ::
  "string option \<Rightarrow> ('s \<Rightarrow> hstr) \<Rightarrow> ('s \<Rightarrow> hstr \<Rightarrow> 's) \<Rightarrow> 's frame \<Rightarrow> (unit, 's frame) res" where
  "parse_text key get put = (\<lambda>(S, p, e).
     zoom (\<lambda>(p, t). (put S t, p, e)) (TSEMparser_get_text key (p, get S)))"

definition parse_local_text ::
  "string \<Rightarrow> (hstr \<Rightarrow> 's frame \<Rightarrow> (unit, 's frame) res) \<Rightarrow> 's frame \<Rightarrow> (unit, 's frame) res" where
  "parse_local_text key f = (\<lambda>(S, p, e).
     (case TSEMparser_get_text (Some key) (p, hs_empty) of
        Ret _ (p, match) \<Rightarrow> f match (S, p, e)
      | Fail (p, _) \<Rightarrow> Fail (S, p, e)
      | Undef \<Rightarrow> Undef))"

definition parse_has_key ::
  "string \<Rightarrow> (bool \<Rightarrow> 's frame \<Rightarrow> (unit, 's frame) res) \<Rightarrow> 's frame \<Rightarrow> (unit, 's frame) res" where
  "parse_has_key key f = (\<lambda>(S, p, e). res_bind (zoom (\<lambda>p. (S, p, e)) (TSEMparser_has_key key p)) f)"

text \<open>A change of the object in the frame.\<close>

definition frame_map :: "('s \<Rightarrow> 's) \<Rightarrow> 's frame \<Rightarrow> 's frame" where
  "frame_map f = (\<lambda>(S, p, e). (f S, p, e))"

text \<open>A parsing function with a parser of its own.\<close>

definition with_parser ::
  "('s frame \<Rightarrow> (unit, 's frame) res) list \<Rightarrow> 's \<times> int \<Rightarrow> (unit, 's \<times> int) res" where
  "with_parser fs = (\<lambda>(S, e).
     zoom (\<lambda>(S, p, e). (S, e)) (steps fs (S, TSEMparser_Init, e)))"

section \<open>What the parser computes\<close>

text \<open>
  The text of a field and the value of a key, as functions of the event text.  The
  operations of a healthy parser are these functions.
\<close>

definition extract_text :: "string \<Rightarrow> string \<Rightarrow> string option" where
  "extract_text ev field =
     (if ev = [] \<or> hd ev \<noteq> CHR ''{'' \<or> last ev \<noteq> CHR ''}'' then None
      else
        (case strstr ev (field_spec field) of
           None \<Rightarrow> None
         | Some (pre, suf) \<Rightarrow>
             let start = drop (length (field_spec field) - 1) suf;
                 (inside, end) = brace_scan 1 (drop 1 start)
             in if end = [] then None else Some (take 1 start @ inside)))"

definition key_text :: "string \<Rightarrow> string \<Rightarrow> string option" where
  "key_text field key =
     (case find_key_loop field key 0 of
        None \<Rightarrow> None
      | Some (pre, suf) \<Rightarrow>
          (case drop (length (key_spec key)) suf of
             [] \<Rightarrow> None
           | type # start \<Rightarrow>
               if type \<noteq> DQ \<and> type \<noteq> CHR ''{'' then None
               else (case strchr start DQ of
                       None \<Rightarrow> None
                     | Some (val, end) \<Rightarrow> Some (if val = [] then take 1 start else val))))"

definition parser_ok :: "TSEMparser_State \<Rightarrow> bool" where
  "parser_ok S \<longleftrightarrow> \<not> tp_poisoned S \<and> \<not> h_poisoned (tp_field S) \<and> \<not> h_poisoned (tp_key_value S)"

lemma parser_ok_Init [simp]: "parser_ok TSEMparser_Init"
  by (simp add: parser_ok_def TSEMparser_Init_def)

lemma parser_ok_updates [simp]:
  "parser_ok S \<Longrightarrow> parser_ok (S\<lparr>tp_field := hs_of t\<rparr>)"
  "parser_ok S \<Longrightarrow> parser_ok (S\<lparr>tp_key_value := hs_of t\<rparr>)"
  by (simp_all add: parser_ok_def)

lemma length_field_spec [simp]: "length (field_spec field) = length field + 5"
  by (simp add: field_spec_def)

lemma copy_chars_hs: "\<not> h_poisoned s \<Longrightarrow> cs \<noteq> [] \<Longrightarrow> copy_chars cs s = hs_of (hs_chars s @ cs)"
proof (induction cs arbitrary: s)
  case (Cons c cs)
  then have "hs_add [c] s = Ret () (hs_of (hs_chars s @ [c]))"
    by (simp add: hs_add_Ret_iff)
  with Cons show ?case by (cases "cs = []") simp_all
qed simp

lemma copy_chars_reset: "\<not> h_poisoned s \<Longrightarrow> cs \<noteq> [] \<Longrightarrow> copy_chars cs (hs_reset s) = hs_of cs"
  using copy_chars_hs [of "hs_reset s" cs] by simp

lemma brace_scan_length: "brace_scan n s = (inside, rest) \<Longrightarrow> s = inside @ rest"
  by (induction n s arbitrary: inside rest rule: brace_scan.induct)
    (auto simp: Let_def split: prod.splits if_splits)

lemma brace_scan_nonempty: "brace_scan (Suc n) s = (inside, rest) \<Longrightarrow> rest \<noteq> [] \<Longrightarrow> inside \<noteq> []"
  by (cases s) (auto simp: Let_def split: prod.splits)

lemma extract_textE:
  assumes "extract_text ev field = Some t"
  obtains pre suf inside rest where
    "ev \<noteq> []" "hd ev = CHR ''{''" "last ev = CHR ''}''"
    "strstr ev (field_spec field) = Some (pre, suf)"
    "brace_scan (Suc 0) (drop 1 (drop (length field + 4) suf)) = (inside, rest)"
    "rest \<noteq> []" "inside \<noteq> []" "t = take 1 (drop (length field + 4) suf) @ inside"
proof -
  from assms obtain pre suf where st: "strstr ev (field_spec field) = Some (pre, suf)"
    and ev: "ev \<noteq> []" "hd ev = CHR ''{''" "last ev = CHR ''}''"
    by (auto simp: extract_text_def split: if_splits option.splits)
  obtain inside rest where
    bs: "brace_scan (Suc 0) (drop 1 (drop (length field + 4) suf)) = (inside, rest)"
    by fastforce
  with assms st ev have "rest \<noteq> []" "t = take 1 (drop (length field + 4) suf) @ inside"
    by (simp_all add: extract_text_def Let_def add.commute split: if_splits)
  with brace_scan_nonempty [OF bs] st ev bs that show thesis by blast
qed

lemma extract_field_ok:
  assumes "parser_ok S" "extract_text ev field = Some t"
  shows "TSEMparser_extract_field (hs_of ev) field S = Ret () (S\<lparr>tp_field := hs_of t\<rparr>)"
  using assms(2)
proof (rule extract_textE)
  fix pre suf inside rest
  assume "ev \<noteq> []" "hd ev = CHR ''{''" "last ev = CHR ''}''"
    "strstr ev (field_spec field) = Some (pre, suf)"
    "brace_scan (Suc 0) (drop 1 (drop (length field + 4) suf)) = (inside, rest)"
    "rest \<noteq> []" "inside \<noteq> []" "t = take 1 (drop (length field + 4) suf) @ inside"
  with assms(1) show ?thesis
    by (simp add: TSEMparser_extract_field_def parser_ok_def hs_add_reset copy_chars_reset
        Let_def add.commute)
qed

lemma extract_field_none:
  assumes "parser_ok S" "extract_text ev field = None"
  shows "\<exists>f. TSEMparser_extract_field (hs_of ev) field S = Fail (S\<lparr>tp_field := f\<rparr>) \<and> \<not> h_poisoned f"
proof (cases "ev = [] \<or> hd ev \<noteq> CHR ''{'' \<or> last ev \<noteq> CHR ''}''")
  case True
  with assms(1) show ?thesis
    by (auto simp: TSEMparser_extract_field_def parser_ok_def intro!: exI [of _ "tp_field S"])
next
  case ev: False
  have "TSEMparser_extract_field (hs_of ev) field S = Fail (S\<lparr>tp_field := hs_of (field_spec field)\<rparr>)"
  proof (cases "strstr ev (field_spec field)")
    case None
    with assms(1) ev show ?thesis
      by (simp add: TSEMparser_extract_field_def parser_ok_def hs_add_reset)
  next
    case (Some p)
    obtain pre suf where p: "p = (pre, suf)" by fastforce
    obtain inside rest where
      bs: "brace_scan (Suc 0) (drop 1 (drop (length field + 4) suf)) = (inside, rest)"
      by fastforce
    with assms(2) Some p ev have "rest = []"
      by (auto simp: extract_text_def Let_def add.commute split: if_splits)
    with assms(1) Some p ev bs show ?thesis
      by (simp add: TSEMparser_extract_field_def parser_ok_def hs_add_reset Let_def add.commute)
  qed
  then show ?thesis by auto
qed

lemma strchr_empty_first: "strchr start c = Some ([], end) \<Longrightarrow> take 1 start = [c]"
  by (cases start) (auto split: if_splits)

lemma find_key_none:
  assumes "parser_ok S" "tp_field S = hs_of f" "find_key_loop f key 0 = None"
  shows "TSEMparser_find_key key S = Ret None (S\<lparr>tp_key_value := hs_of (key_spec key)\<rparr>)"
  using assms by (simp add: TSEMparser_find_key_def parser_ok_def hs_add_reset Let_def)

lemma find_key_found:
  assumes "parser_ok S" "tp_field S = hs_of f" "find_key_loop f key 0 = Some (pre, suf)"
    "drop (length key + 4) suf = c # start" "c = DQ \<or> c = CHR ''{''"
  shows "TSEMparser_find_key key S =
           Ret (Some (pre, suf)) (S\<lparr>tp_key_value := hs_of (key_spec key @ [c])\<rparr>)"
  using assms by (auto simp: TSEMparser_find_key_def parser_ok_def hs_add_reset Let_def)

lemma find_key_other:
  assumes "parser_ok S" "tp_field S = hs_of f" "find_key_loop f key 0 = Some (pre, suf)"
    "drop (length key + 4) suf = [] \<or> hd (drop (length key + 4) suf) \<notin> {DQ, CHR ''{''}"
  shows "TSEMparser_find_key key S = Ret None (S\<lparr>tp_key_value := hs_of (key_spec key)\<rparr>)"
  using assms
  by (cases "drop (length key + 4) suf")
    (auto simp: TSEMparser_find_key_def parser_ok_def hs_add_reset Let_def)

lemma drop_Suc_tail: "drop n xs = c # ys \<Longrightarrow> drop (Suc n) xs = ys"
  by (metis drop_Suc list.sel(3) drop_Cons' tl_drop)

lemma key_text_cases:
  obtains (absent) "find_key_loop f key 0 = None" "key_text f key = None"
  | (other) pre suf where "find_key_loop f key 0 = Some (pre, suf)" "key_text f key = None"
      "drop (length key + 4) suf = [] \<or> hd (drop (length key + 4) suf) \<notin> {DQ, CHR ''{''}"
  | (found) pre suf c start where "find_key_loop f key 0 = Some (pre, suf)"
      "drop (length key + 4) suf = c # start" "c = DQ \<or> c = CHR ''{''"
      "key_text f key = (case strchr start DQ of None \<Rightarrow> None
         | Some (val, end) \<Rightarrow> Some (if val = [] then take 1 start else val))"
proof (cases "find_key_loop f key 0")
  case None
  then show ?thesis by (intro absent) (simp_all add: key_text_def)
next
  case (Some p)
  obtain pre suf where p: "find_key_loop f key 0 = Some (pre, suf)" using Some by (cases p) simp
  show ?thesis
  proof (cases "drop (length key + 4) suf = [] \<or> hd (drop (length key + 4) suf) \<notin> {DQ, CHR ''{''}")
    case True
    with p show ?thesis
      by (intro other [OF p]) (auto simp: key_text_def split: list.splits)
  next
    case False
    then obtain c start where "drop (length key + 4) suf = c # start" "c = DQ \<or> c = CHR ''{''"
      by (cases "drop (length key + 4) suf") auto
    with p show ?thesis
      by (intro found [OF p]) (auto simp: key_text_def)
  qed
qed

lemma get_key_ok:
  assumes ok: "parser_ok S" "tp_field S = hs_of f" and kt: "key_text f key = Some v"
  shows "TSEMparser_get_key key S = Ret () (S\<lparr>tp_key_value := hs_of v\<rparr>)"
proof (cases rule: key_text_cases [of f key])
  case (found pre suf c start)
  with kt obtain val rest where sc: "strchr start DQ = Some (val, rest)"
    and v: "v = (if val = [] then take 1 start else val)"
    by (auto split: option.splits)
  then have "v \<noteq> []" using strchr_empty_first by (auto split: if_splits)
  then have "copy_chars v (hs_reset (hs_of (key_spec key @ [c]))) = hs_of v"
    by (intro copy_chars_reset) simp_all
  then show ?thesis
    using find_key_found [OF ok found(1-3)] sc drop_Suc_tail [OF found(2)]
    by (simp add: TSEMparser_get_key_def v [symmetric])
qed (use kt in simp_all)

lemma get_key_none:
  assumes ok: "parser_ok S" "tp_field S = hs_of f" and kt: "key_text f key = None"
  shows "\<exists>k. TSEMparser_get_key key S = Fail (S\<lparr>tp_key_value := hs_of k\<rparr>)"
proof (cases rule: key_text_cases [of f key])
  case absent
  then show ?thesis using find_key_none [OF ok] by (auto simp: TSEMparser_get_key_def)
next
  case (other pre suf)
  then show ?thesis using find_key_other [OF ok] by (auto simp: TSEMparser_get_key_def)
next
  case (found pre suf c start)
  with kt have sc: "strchr start DQ = None" by (auto split: option.splits)
  then show ?thesis
    using find_key_found [OF ok found(1-3)] drop_Suc_tail [OF found(2)]
    by (auto simp: TSEMparser_get_key_def Let_def)
qed

text \<open>The two value readers.\<close>

lemma get_text_ok:
  assumes "parser_ok S" "tp_field S = hs_of f" "key_text f key = Some v" "\<not> h_poisoned text"
  shows "TSEMparser_get_text (Some key) (S, text) =
           Ret () (S\<lparr>tp_key_value := hs_of v\<rparr>, hs_of (hs_chars text @ v))"
  using assms get_key_ok [OF assms(1-3)]
  by (simp add: TSEMparser_get_text_def hs_add_ok)

lemma get_text_none:
  assumes "parser_ok S" "tp_field S = hs_of f" "key_text f key = None"
  shows "\<exists>k. TSEMparser_get_text (Some key) (S, text) = Fail (S\<lparr>tp_key_value := hs_of k\<rparr>, text)"
  using get_key_none [OF assms] by (auto simp: TSEMparser_get_text_def)

lemma get_text_field:
  assumes "tp_field S = hs_of f" "\<not> h_poisoned text"
  shows "TSEMparser_get_text None (S, text) = Ret () (S, hs_of (hs_chars text @ f))"
  using assms by (simp add: TSEMparser_get_text_def hs_add_ok)

lemma get_integer_ok:
  assumes "parser_ok S" "tp_field S = hs_of f" "key_text f key = Some v"
    "strtoll v = (n, False)" "errno \<noteq> ERANGE"
  shows "TSEMparser_get_integer (Some key) (S, errno) =
           Ret (word_of_int n) (S\<lparr>tp_key_value := hs_of v\<rparr>, errno)"
  using assms get_key_ok [OF assms(1-3)] by (simp add: TSEMparser_get_integer_def)

lemma get_integer_none:
  assumes "parser_ok S" "tp_field S = hs_of f" "key_text f key = None"
  shows "\<exists>k. TSEMparser_get_integer (Some key) (S, errno) = Fail (S\<lparr>tp_key_value := hs_of k\<rparr>, errno)"
  using get_key_none [OF assms] by (auto simp: TSEMparser_get_integer_def)

lemma get_integer_errno:
  assumes "TSEMparser_get_integer key (S, ERANGE) = r"
  shows "\<forall>v s. r \<noteq> Ret v s" "\<forall>S' e. r = Fail (S', e) \<longrightarrow> e = ERANGE"
  using assms
  by (auto simp: TSEMparser_get_integer_def Let_def split: res.splits option.splits prod.splits if_splits)

text \<open>A frame whose parser holds the field \<open>f\<close>, with \<open>errno\<close> clear.\<close>

definition frame_ok :: "string \<Rightarrow> 's frame \<Rightarrow> bool" where
  "frame_ok f = (\<lambda>(S, p, e). parser_ok p \<and> tp_field p = hs_of f \<and> e \<noteq> ERANGE)"

lemma parse_field_frame:
  assumes "parser_ok p" "extract_text ev field = Some f" "e \<noteq> ERANGE"
  shows "\<exists>q. parse_field (hs_of ev) field (S, p, e) = Ret () (S, q, e) \<and> frame_ok f (S, q, e)"
  using extract_field_ok [OF assms(1,2)] assms
  by (auto simp: parse_field_def frame_ok_def)

lemma steps_parse_field:
  assumes "parser_ok p" "extract_text ev field = Some f" "e \<noteq> ERANGE"
    and "\<And>q. frame_ok f (S, q, e) \<Longrightarrow> steps fs (S, q, e) \<in> X"
  shows "steps (parse_field (hs_of ev) field # fs) (S, p, e) \<in> X"
  using parse_field_frame [OF assms(1-3), of S] assms(4) by auto

lemma parse_integer_ok:
  assumes "frame_ok f (S, p, e)" "key_text f key = Some v" "strtoll v = (n, False)"
  shows "\<exists>q. parse_integer key g (S, p, e) = g (word_of_int n) (S, q, e) \<and> frame_ok f (S, q, e)"
  using assms get_integer_ok [of p f key v n e]
  by (auto simp: parse_integer_def frame_ok_def)

lemma parse_integer_absent:
  assumes "frame_ok f (S, p, e)" "key_text f key = None"
  shows "\<exists>q. parse_integer key g (S, p, e) = Fail (S, q, e)"
  using assms get_integer_none [of p f key e]
  by (auto simp: parse_integer_def frame_ok_def)

lemma has_key_text:
  assumes "parser_ok S" "tp_field S = hs_of f" "key_text f key = Some v" "f \<noteq> []"
  shows "\<exists>k. TSEMparser_has_key key S = Ret True (S\<lparr>tp_key_value := hs_of k\<rparr>)"
proof (cases rule: key_text_cases [of f key])
  case (found pre suf c start)
  with find_key_found [OF assms(1,2) found(1-3)] assms(2,4) show ?thesis
    by (auto simp: TSEMparser_has_key_def)
qed (use assms in simp_all)

section \<open>Field extraction is brace matching\<close>

definition brace_depth :: "string \<Rightarrow> int" where
  "brace_depth s = foldl brace_step 0 s"

lemma brace_shift: "foldl brace_step (a + b) s = a + foldl brace_step b s"
proof (induction s arbitrary: b)
  case (Cons c s)
  have "brace_step (a + b) c = a + brace_step b c" by (simp add: brace_step_def)
  with Cons [of "brace_step b c"] show ?case by simp
qed simp

lemma brace_depth_append: "brace_depth (s @ t) = brace_depth s + brace_depth t"
  using brace_shift [of "brace_depth s" 0 t] by (simp add: brace_depth_def)

lemma brace_depth_Cons: "brace_depth (c # s) = brace_step 0 c + brace_depth s"
  using brace_depth_append [of "[c]" s] by (simp add: brace_depth_def)

lemma brace_depth_plain:
  "CHR ''{'' \<notin> set s \<Longrightarrow> CHR ''}'' \<notin> set s \<Longrightarrow> brace_depth s = 0"
  by (induction s) (auto simp: brace_depth_Cons brace_step_def brace_depth_def [of "[]"])

lemma brace_scan_closes:
  "brace_scan n s = (inside, rest) \<Longrightarrow> rest \<noteq> [] \<Longrightarrow> brace_depth inside = - int n"
proof (induction n s arbitrary: inside rest rule: brace_scan.induct)
  case (3 n c cs)
  then obtain tl where tl: "inside = c # tl"
    "brace_scan (if c = CHR ''{'' then n + 2 else if c = CHR ''}'' then n else n + 1) cs = (tl, rest)"
    by (auto simp: Let_def split: prod.splits)
  with 3 have "brace_depth tl =
      - int (if c = CHR ''{'' then n + 2 else if c = CHR ''}'' then n else n + 1)"
    by simp
  with tl(1) show ?case by (simp add: brace_depth_Cons brace_step_def)
qed (simp_all add: brace_depth_def)

lemma brace_scan_inside:
  "brace_scan n s = (inside, rest) \<Longrightarrow> k < length inside \<Longrightarrow> - int n < brace_depth (take k inside)"
proof (induction n s arbitrary: inside rest k rule: brace_scan.induct)
  case (3 n c cs)
  then obtain tl where tl: "inside = c # tl"
    "brace_scan (if c = CHR ''{'' then n + 2 else if c = CHR ''}'' then n else n + 1) cs = (tl, rest)"
    by (auto simp: Let_def split: prod.splits)
  show ?case
  proof (cases k)
    case 0
    then show ?thesis by (simp add: brace_depth_def)
  next
    case (Suc j)
    with 3 tl have "- int (if c = CHR ''{'' then n + 2 else if c = CHR ''}'' then n else n + 1)
        < brace_depth (take j tl)"
      by simp
    with tl(1) Suc show ?thesis by (simp add: brace_depth_Cons brace_step_def split: if_splits)
  qed
qed (simp_all add: brace_depth_def)

lemma brace_scan_plain:
  assumes "CHR ''{'' \<notin> set s" "CHR ''}'' \<notin> set s"
  shows "brace_scan 1 (s @ CHR ''}'' # rest) = (s @ ''}'', rest)"
  using assms by (induction s) (auto simp: Let_def)

lemma drop_exact: "length xs = n \<Longrightarrow> drop n (xs @ ys) = ys"
  by auto

lemma extract_text_depth:
  assumes "extract_text ev field = Some t"
  shows "\<exists>pre inside rest. ev = pre @ DQ # field @ DQ # '': '' @ t @ rest \<and> t = CHR ''{'' # inside \<and>
           brace_depth t = 0 \<and> (\<forall>k. 0 < k \<and> k < length t \<longrightarrow> 0 < brace_depth (take k t))"
  using assms
proof (rule extract_textE)
  fix pre suf inside rest
  assume ev: "strstr ev (field_spec field) = Some (pre, suf)"
    and bs: "brace_scan (Suc 0) (drop 1 (drop (length field + 4) suf)) = (inside, rest)"
    and ne: "rest \<noteq> []" "inside \<noteq> []" and t: "t = take 1 (drop (length field + 4) suf) @ inside"
  from strstr_Some [OF ev] obtain u where u: "ev = pre @ suf" "suf = field_spec field @ u"
    by (auto simp: is_prefix_iff)
  then have d: "drop (length field + 4) suf = CHR ''{'' # u"
    using drop_exact [of "DQ # field @ DQ # '': ''" "length field + 4" "CHR ''{'' # u"]
    by (simp add: field_spec_def)
  then have u2: "u = inside @ rest" using brace_scan_length [OF bs] by simp
  have t2: "t = CHR ''{'' # inside" using t d by simp
  have "brace_depth t = 0"
    using brace_scan_closes [OF bs ne(1)] t2 by (simp add: brace_depth_Cons brace_step_def)
  moreover have "0 < brace_depth (take k t)" if "0 < k" "k < length t" for k
  proof (cases k)
    case (Suc j)
    with that t2 brace_scan_inside [OF bs, of j] show ?thesis
      by (simp add: brace_depth_Cons brace_step_def)
  qed (use that in simp)
  ultimately show ?thesis using u u2 t2 by (auto simp: field_spec_def)
qed

section \<open>Flat JSON objects\<close>

text \<open>The text of \<open>{"k1": "v1", ..., "kn": "vn"}\<close> behind the opening brace.\<close>

fun members :: "(string \<times> string) list \<Rightarrow> string" where
  "members [] = ''}''"
| "members [(k, v)] = key_spec k @ DQ # v @ DQ # ''}''"
| "members ((k, v) # kvs) = key_spec k @ DQ # v @ DQ # '', '' @ members kvs"

definition plain :: "string \<Rightarrow> bool" where
  "plain s \<longleftrightarrow> DQ \<notin> set s \<and> CHR ''{'' \<notin> set s \<and> CHR ''}'' \<notin> set s"

definition key_name :: "string \<Rightarrow> bool" where
  "key_name k \<longleftrightarrow> k \<noteq> [] \<and> plain k \<and> hd k \<notin> {CHR '':'', CHR '',''}"

definition flat :: "(string \<times> string) list \<Rightarrow> bool" where
  "flat kvs \<longleftrightarrow> (\<forall>(k, v) \<in> set kvs. key_name k \<and> plain v)"

lemma is_prefix_quoted:
  "c \<notin> set a \<Longrightarrow> c \<notin> set b \<Longrightarrow> is_prefix (a @ c # p) (b @ c # q) \<longleftrightarrow> a = b \<and> is_prefix p q"
proof (induction a arbitrary: b)
  case Nil
  then show ?case by (cases b) auto
next
  case (Cons x a)
  then show ?case by (cases b) auto
qed

lemma strstr_miss:
  "\<not> is_prefix p s \<Longrightarrow> strstr (c # s) (c # p) = map_option (\<lambda>(pre, suf). (c # pre, suf)) (strstr s (c # p))"
  by simp

lemma strstr_member_miss:
  assumes "k \<noteq> k'" "key_name k" "plain k'" "plain v"
    and "\<not> is_prefix '': '' tail" "\<not> is_prefix (k @ DQ # '': '') tail"
  shows "strstr (key_spec k' @ DQ # v @ DQ # tail) (key_spec k) =
           map_option (\<lambda>(pre, suf). (key_spec k' @ DQ # v @ DQ # pre, suf)) (strstr tail (key_spec k))"
proof -
  let ?P = "k @ DQ # '': ''"
  have q: "DQ \<notin> set k" "DQ \<notin> set k'" "DQ \<notin> set v" "k \<noteq> '': ''"
    using assms by (auto simp: key_name_def plain_def)
  have "\<not> is_prefix ?P (k' @ DQ # '': '' @ DQ # v @ DQ # tail)"
    using q assms(1) by (subst is_prefix_quoted) simp_all
  moreover have "\<not> is_prefix ?P ('': '' @ DQ # v @ DQ # tail)"
    using q by (subst is_prefix_quoted) simp_all
  moreover have "\<not> is_prefix ?P (v @ DQ # tail)"
    using q assms(5) by (subst is_prefix_quoted) simp_all
  moreover have "strstr ('': '' @ r) (DQ # ?P) = map_option (\<lambda>(pre, suf). ('': '' @ pre, suf)) (strstr r (DQ # ?P))"
    for r by (rule strstr_skip) simp
  ultimately show ?thesis
    using assms(6) q unfolding key_spec_def
    by (simp only: append_Cons append_assoc append_Nil strstr_miss strstr_skip option.map_comp o_def
        case_prod_beta' fst_conv snd_conv not_False_eq_True)
qed

lemma members_start: "kvs \<noteq> [] \<Longrightarrow> \<exists>r. members kvs = DQ # r"
  by (cases kvs rule: members.cases) (auto simp: key_spec_def)

lemma members_comma:
  assumes "key_name k" "kvs \<noteq> []"
  shows "\<not> is_prefix (k @ DQ # '': '') ('', '' @ members kvs)" "\<not> is_prefix '': '' ('', '' @ members kvs)"
proof -
  obtain r where r: "members kvs = DQ # r" using members_start [OF assms(2)] by blast
  have "k \<noteq> '', ''" "DQ \<notin> set k" using assms(1) by (auto simp: key_name_def plain_def)
  then have "\<not> is_prefix (k @ DQ # '': '') ('', '' @ DQ # r)"
    by (subst is_prefix_quoted) simp_all
  with r show "\<not> is_prefix (k @ DQ # '': '') ('', '' @ members kvs)" by simp
qed simp

lemma members_end: "key_name k \<Longrightarrow> \<not> is_prefix (k @ DQ # '': '') ''}''"
  by (cases k) (auto simp: key_name_def plain_def)

lemma strstr_hit: "pat \<noteq> [] \<Longrightarrow> strstr (pat @ r) pat = Some ([], pat @ r)"
  by (cases pat) simp_all

lemma key_spec_nonempty [simp]: "key_spec k \<noteq> []"
  by (simp add: key_spec_def)

lemma plain_parts [simp]:
  "plain (a @ b) \<longleftrightarrow> plain a \<and> plain b"
  "plain (c # a) \<longleftrightarrow> c \<noteq> DQ \<and> c \<noteq> CHR ''{'' \<and> c \<noteq> CHR ''}'' \<and> plain a" "plain []"
  by (auto simp: plain_def)

definition braceless :: "string \<Rightarrow> bool" where
  "braceless s \<longleftrightarrow> CHR ''{'' \<notin> set s \<and> CHR ''}'' \<notin> set s"

lemma braceless_parts [simp]:
  "braceless (a @ b) \<longleftrightarrow> braceless a \<and> braceless b"
  "braceless (c # a) \<longleftrightarrow> c \<noteq> CHR ''{'' \<and> c \<noteq> CHR ''}'' \<and> braceless a" "braceless []"
  by (auto simp: braceless_def)

lemma plain_braceless: "plain s \<Longrightarrow> braceless s"
  by (simp add: plain_def braceless_def)

lemma key_spec_braceless: "plain k \<Longrightarrow> braceless (key_spec k)"
  by (simp add: key_spec_def plain_braceless)

lemma strstr_members_hit:
  assumes "flat kvs" "key_name k" "map_of kvs k = Some v"
  shows "\<exists>pre tail. strstr (members kvs) (key_spec k) = Some (pre, key_spec k @ DQ # v @ DQ # tail) \<and>
                    braceless pre"
  using assms
proof (induction kvs rule: members.induct)
  case 1
  then show ?case by simp
next
  case (2 k' v')
  then show ?case using strstr_hit [of "key_spec k"] by (auto split: if_splits)
next
  case (3 k' v' kv kvs)
  show ?case
  proof (cases "k = k'")
    case True
    with 3 show ?thesis using strstr_hit [of "key_spec k"] by auto
  next
    case False
    with 3 obtain pre tail where
      IH: "strstr (members (kv # kvs)) (key_spec k) = Some (pre, key_spec k @ DQ # v @ DQ # tail)"
        "braceless pre"
      by (auto simp: flat_def)
    have kn: "plain k'" "plain v'" using 3(2) by (auto simp: flat_def key_name_def)
    have "strstr ('', '' @ members (kv # kvs)) (key_spec k) =
            map_option (\<lambda>(p, s). ('', '' @ p, s)) (strstr (members (kv # kvs)) (key_spec k))"
      unfolding key_spec_def by (rule strstr_skip) simp
    with IH strstr_member_miss [OF False 3(3) kn, of "'', '' @ members (kv # kvs)"]
      members_comma [OF 3(3), of "kv # kvs"] kn
    show ?thesis
      by (simp add: key_spec_braceless plain_braceless)
  qed
qed

lemma strstr_members_miss:
  assumes "flat kvs" "key_name k" "map_of kvs k = None"
  shows "strstr (members kvs) (key_spec k) = None"
  using assms
proof (induction kvs rule: members.induct)
  case 1
  then show ?case by (simp add: key_spec_def)
next
  case (2 k' v')
  then have "k \<noteq> k'" "plain k'" "plain v'" by (auto simp: flat_def key_name_def split: if_splits)
  moreover have "strstr ''}'' (key_spec k) = None" by (simp add: key_spec_def)
  ultimately show ?case
    using strstr_member_miss [of k k' v' "''}''"] members_end [OF 2(2)] 2(2) by simp
next
  case (3 k' v' kv kvs)
  then have kn: "k \<noteq> k'" "plain k'" "plain v'" by (auto simp: flat_def key_name_def split: if_splits)
  have "strstr (members (kv # kvs)) (key_spec k) = None"
    using 3 by (auto simp: flat_def split: if_splits)
  moreover have "strstr ('', '' @ members (kv # kvs)) (key_spec k) =
            map_option (\<lambda>(p, s). ('', '' @ p, s)) (strstr (members (kv # kvs)) (key_spec k))"
    unfolding key_spec_def by (rule strstr_skip) simp
  ultimately show ?case
    using strstr_member_miss [OF kn(1) 3(3) kn(2,3), of "'', '' @ members (kv # kvs)"]
      members_comma [OF 3(3), of "kv # kvs"] by simp
qed

lemma find_level_braceless: "braceless (drop 1 pre) \<Longrightarrow> find_level pre = 0"
  using brace_depth_plain [of "drop 1 pre"] by (simp add: find_level_def brace_depth_def braceless_def)

lemma strchr_value: "DQ \<notin> set v \<Longrightarrow> strchr (v @ DQ # r) DQ = Some (v, DQ # r)"
  by (simp add: strchr_skip)

text \<open>The value of an absent character: the closing quote itself.\<close>

lemma key_text_members:
  assumes "flat kvs" "key_name k"
  shows "key_text (CHR ''{'' # members kvs) k =
           map_option (\<lambda>v. if v = [] then [DQ] else v) (map_of kvs k)"
proof (cases "map_of kvs k")
  case None
  then have "find_key_loop (CHR ''{'' # members kvs) k 0 = None"
    using strstr_members_miss [OF assms] by (simp add: find_key_loop.simps key_spec_def)
  with None show ?thesis by (simp add: key_text_def)
next
  case (Some v)
  then have dq: "DQ \<notin> set v" using assms(1) map_of_SomeD [OF Some] by (auto simp: flat_def plain_def)
  obtain pre tail where
    hit: "strstr (members kvs) (key_spec k) = Some (pre, key_spec k @ DQ # v @ DQ # tail)" "braceless pre"
    using strstr_members_hit [OF assms Some] by blast
  then have "strstr (CHR ''{'' # members kvs) (key_spec k) =
               Some (CHR ''{'' # pre, key_spec k @ DQ # v @ DQ # tail)"
    by (simp add: key_spec_def)
  with hit(2) have "find_key_loop (CHR ''{'' # members kvs) k 0 =
               Some (CHR ''{'' # pre, key_spec k @ DQ # v @ DQ # tail)"
    by (subst find_key_loop.simps) (simp add: find_level_braceless)
  with Some show ?thesis
    using strchr_value [OF dq, of tail] by (simp add: key_text_def drop_exact)
qed

lemma members_close: "flat kvs \<Longrightarrow> \<exists>body. members kvs = body @ ''}'' \<and> braceless body"
proof (induction kvs rule: members.induct)
  case 1
  then show ?case by (intro exI [of _ "[]"]) simp
next
  case (2 k v)
  then show ?case
    by (intro exI [of _ "key_spec k @ DQ # v @ [DQ]"])
      (simp add: flat_def key_name_def key_spec_braceless plain_braceless)
next
  case (3 k v kv kvs)
  then obtain body where "members (kv # kvs) = body @ ''}''" "braceless body"
    by (auto simp: flat_def)
  with 3 show ?case
    by (intro exI [of _ "key_spec k @ DQ # v @ DQ # '', '' @ body"])
      (simp add: flat_def key_name_def key_spec_braceless plain_braceless)
qed

lemma extract_text_plain:
  assumes "strstr ev (field_spec field) = Some (pre, field_spec field @ body @ CHR ''}'' # rest)"
    and "braceless body" "rest \<noteq> []" "ev \<noteq> []" "hd ev = CHR ''{''" "last ev = CHR ''}''"
  shows "extract_text ev field = Some (CHR ''{'' # body @ ''}'')"
proof -
  have "drop (length field + 4) (field_spec field @ body @ CHR ''}'' # rest) =
          CHR ''{'' # body @ CHR ''}'' # rest"
    using drop_exact [of "DQ # field @ DQ # '': ''" "length field + 4" "CHR ''{'' # body @ CHR ''}'' # rest"]
    by (simp add: field_spec_def)
  with assms brace_scan_plain [of body rest] show ?thesis
    by (simp add: extract_text_def add.commute braceless_def)
qed

text \<open>
  An event description that contains a flat object: \<open>field_spec\<close> opens it, something
  follows it.
\<close>

definition describes :: "string \<Rightarrow> string \<Rightarrow> (string \<times> string) list \<Rightarrow> bool" where
  "describes ev field kvs \<longleftrightarrow>
     (\<exists>pre post. ev = pre @ field_spec field @ members kvs @ post \<and> post \<noteq> [] \<and>
        strstr ev (field_spec field) = Some (pre, field_spec field @ members kvs @ post) \<and>
        hd ev = CHR ''{'' \<and> last ev = CHR ''}'')"

lemma extract_text_members:
  assumes "describes ev field kvs" "flat kvs"
  shows "extract_text ev field = Some (CHR ''{'' # members kvs)"
proof -
  obtain body where b: "members kvs = body @ ''}''" "braceless body"
    using members_close [OF assms(2)] by blast
  obtain pre post where "ev = pre @ field_spec field @ members kvs @ post" "post \<noteq> []"
    "strstr ev (field_spec field) = Some (pre, field_spec field @ members kvs @ post)"
    "hd ev = CHR ''{''" "last ev = CHR ''}''"
    using assms(1) by (auto simp: describes_def)
  with b extract_text_plain [of ev field pre body post] show ?thesis by simp
qed

end
