(* ===== verification/COE.thy ===== *)
theory COE
  imports SHA256 TSEMparser
begin

text \<open>
  The context of execution of a security event (\<open>SecurityModel/COE.c\<close>): the credentials
  of a process, parsed from and formatted to JSON, and measured by a digest.
\<close>

section \<open>State\<close>

record coe_characteristics =
  c_uid :: u32
  c_euid :: u32
  c_suid :: u32
  c_gid :: u32
  c_egid :: u32
  c_sgid :: u32
  c_fsuid :: u32
  c_fsgid :: u32
  c_capeff :: u64

record COE_State =
  coe_poisoned :: bool
  coe_character :: coe_characteristics
  coe_measured :: bool
  coe_identity :: Sha256_State

definition zero_character :: coe_characteristics where
  "zero_character = \<lparr>c_uid = 0, c_euid = 0, c_suid = 0, c_gid = 0, c_egid = 0, c_sgid = 0,
                     c_fsuid = 0, c_fsgid = 0, c_capeff = 0\<rparr>"

definition COE_Init :: COE_State where
  "COE_Init = \<lparr>coe_poisoned = False, coe_character = zero_character, coe_measured = False,
               coe_identity = Sha256_Init\<rparr>"

definition COE_set_characteristics ::
  "u32 \<Rightarrow> u32 \<Rightarrow> u32 \<Rightarrow> u32 \<Rightarrow> u32 \<Rightarrow> u32 \<Rightarrow> u32 \<Rightarrow> u32 \<Rightarrow> u64 \<Rightarrow> COE_State \<Rightarrow> COE_State" where
  "COE_set_characteristics uid euid suid gid egid sgid fsuid fsgid capeff S =
     S\<lparr>coe_character := \<lparr>c_uid = uid, c_euid = euid, c_suid = suid, c_gid = gid, c_egid = egid,
         c_sgid = sgid, c_fsuid = fsuid, c_fsgid = fsgid, c_capeff = capeff\<rparr>\<rparr>"

definition coe_poison :: "COE_State \<Rightarrow> COE_State" where
  "coe_poison S = S\<lparr>coe_poisoned := True\<rparr>"

section \<open>Parsing\<close>

definition COE_set :: "(coe_characteristics \<Rightarrow> coe_characteristics) \<Rightarrow> COE_State \<Rightarrow> COE_State" where
  "COE_set f S = S\<lparr>coe_character := f (coe_character S)\<rparr>"

text \<open>\<open>_get_field\<close>: the value, read as unsigned, must fit 32 bits.\<close>

definition COE_get_field ::
  "string \<Rightarrow> (u32 \<Rightarrow> coe_characteristics \<Rightarrow> coe_characteristics) \<Rightarrow> COE_State frame \<Rightarrow>
   (unit, COE_State frame) res" where
  "COE_get_field field put =
     parse_integer field (\<lambda>vl. steps
       [fail_if (\<lambda>_. unat vl > 2 ^ 32 - 1),
        assign (\<lambda>(S, p, e). (COE_set (put (ucast vl)) S, p, e))])"

definition COE_get_caps ::
  "string \<Rightarrow> (u64 \<Rightarrow> coe_characteristics \<Rightarrow> coe_characteristics) \<Rightarrow> COE_State frame \<Rightarrow>
   (unit, COE_State frame) res" where
  "COE_get_caps field put =
     parse_integer field (\<lambda>vl. assign (\<lambda>(S, p, e). (COE_set (put vl) S, p, e)))"

definition COE_parse_steps :: "hstr \<Rightarrow> (COE_State frame \<Rightarrow> (unit, COE_State frame) res) list" where
  "COE_parse_steps entry =
     [fail_if (\<lambda>(S, p, e). coe_poisoned S),
      fail_if (\<lambda>_. h_poisoned entry),
      parse_field entry ''COE'',
      COE_get_field ''uid'' (\<lambda>v. c_uid_update (\<lambda>_. v)),
      COE_get_field ''euid'' (\<lambda>v. c_euid_update (\<lambda>_. v)),
      COE_get_field ''suid'' (\<lambda>v. c_suid_update (\<lambda>_. v)),
      COE_get_field ''gid'' (\<lambda>v. c_gid_update (\<lambda>_. v)),
      COE_get_field ''egid'' (\<lambda>v. c_egid_update (\<lambda>_. v)),
      COE_get_field ''sgid'' (\<lambda>v. c_sgid_update (\<lambda>_. v)),
      COE_get_field ''fsuid'' (\<lambda>v. c_fsuid_update (\<lambda>_. v)),
      COE_get_field ''fsgid'' (\<lambda>v. c_fsgid_update (\<lambda>_. v)),
      COE_get_caps ''capeff'' (\<lambda>v. c_capeff_update (\<lambda>_. v))]"

text \<open>The method on the object and \<open>errno\<close>; the parser is created and destroyed inside.\<close>

definition COE_parse :: "hstr \<Rightarrow> COE_State \<times> int \<Rightarrow> (unit, COE_State \<times> int) res" where
  "COE_parse entry = (\<lambda>(S, e).
     on_fail (\<lambda>(S, e). (coe_poison S, e))
       (zoom (\<lambda>(S, p, e). (S, e)) (steps (COE_parse_steps entry) (S, TSEMparser_Init, e))))"

section \<open>Measurement\<close>

text \<open>The \<open>bufr->add()\<close> calls of \<open>measure\<close>, in their order.\<close>

definition coe_parts :: "coe_characteristics \<Rightarrow> byte list list" where
  "coe_parts c =
     [u32_bytes (c_uid c), u32_bytes (c_euid c), u32_bytes (c_suid c),
      u32_bytes (c_gid c), u32_bytes (c_egid c), u32_bytes (c_sgid c),
      u32_bytes (c_fsuid c), u32_bytes (c_fsuid c), u64_bytes (c_capeff c)]"

definition COE_measure :: "(byte list \<Rightarrow> byte list) \<Rightarrow> COE_State \<Rightarrow> (unit, COE_State) res" where
  "COE_measure sha S =
     on_fail coe_poison
       (steps
          [fail_if coe_poisoned,
           fail_if coe_measured,
           (\<lambda>S. case buf_adds (coe_parts (coe_character S)) buf_empty of
                  Ret _ bufr \<Rightarrow> zoom (\<lambda>i. S\<lparr>coe_identity := i\<rparr>) (Sha256_add bufr (coe_identity S))
                | Fail _ \<Rightarrow> Fail S
                | Undef \<Rightarrow> Undef),
           (\<lambda>S. zoom (\<lambda>i. S\<lparr>coe_identity := i\<rparr>) (Sha256_compute sha (coe_identity S))),
           assign (\<lambda>S. S\<lparr>coe_measured := True\<rparr>)] S)"

text \<open>\<open>add_Buffer\<close> of a NULL pointer would be undefined; it is reached only with a digest.\<close>

definition COE_get_measurement :: "COE_State \<times> buf \<Rightarrow> (unit, COE_State \<times> buf) res" where
  "COE_get_measurement = (\<lambda>(S, bufr).
     on_fail (\<lambda>(S, bufr). (coe_poison S, bufr))
       (steps
          [fail_if (\<lambda>(S, bufr). coe_poisoned S),
           fail_if (\<lambda>(S, bufr). \<not> coe_measured S),
           (\<lambda>(S, bufr).
              case Sha256_get_Buffer (coe_identity S) of
                (None, i) \<Rightarrow> Undef
              | (Some d, i) \<Rightarrow>
                  if b_poisoned d then Fail (S\<lparr>coe_identity := i\<rparr>, bufr)
                  else zoom (\<lambda>b. (S\<lparr>coe_identity := i\<rparr>, b)) (buf_add (b_data d) bufr))] (S, bufr)))"

section \<open>Formatting\<close>

definition coe_text :: "coe_characteristics \<Rightarrow> string" where
  "coe_text c =
     ''\"COE\": {\"uid\": \"'' @ sprint_u (unat (c_uid c)) @
     ''\", \"euid\": \"'' @ sprint_u (unat (c_euid c)) @
     ''\", \"suid\": \"'' @ sprint_u (unat (c_suid c)) @
     ''\", \"gid\": \"'' @ sprint_u (unat (c_gid c)) @
     ''\", \"egid\": \"'' @ sprint_u (unat (c_egid c)) @
     ''\", \"sgid\": \"'' @ sprint_u (unat (c_sgid c)) @
     ''\", \"fsuid\": \"'' @ sprint_u (unat (c_fsuid c)) @
     ''\", \"fsgid\": \"'' @ sprint_u (unat (c_fsgid c)) @
     ''\", \"capeff\": \"0x'' @ sprint_x (unat (c_capeff c)) @ ''\"}''"

definition COE_format :: "COE_State \<times> hstr \<Rightarrow> (unit, COE_State \<times> hstr) res" where
  "COE_format = (\<lambda>(S, event).
     on_fail (\<lambda>(S, event). (coe_poison S, event))
       (steps
          [fail_if (\<lambda>(S, event). coe_poisoned S),
           fail_if (\<lambda>(S, event). h_poisoned event),
           (\<lambda>(S, event). zoom (\<lambda>t. (S, t)) (hs_add (coe_text (coe_character S)) event))] (S, event)))"

definition COE_reset :: "COE_State \<Rightarrow> COE_State" where
  "COE_reset S = S\<lparr>coe_poisoned := False, coe_measured := False, coe_character := zero_character,
                   coe_identity := Sha256_reset (coe_identity S)\<rparr>"

section \<open>Measurement lemmas\<close>

definition coe_message :: "coe_characteristics \<Rightarrow> byte list" where
  "coe_message c = concat (coe_parts c)"

text \<open>An object that has not been measured yet.\<close>

definition coe_ready :: "COE_State \<Rightarrow> bool" where
  "coe_ready S \<longleftrightarrow> \<not> coe_poisoned S \<and> \<not> coe_measured S \<and> sha_fresh (coe_identity S)"

lemma coe_ready_Init [simp]: "coe_ready COE_Init"
  by (simp add: coe_ready_def COE_Init_def)

lemma coe_ready_set [simp]:
  "coe_ready (COE_set_characteristics a b c d e f g h i S) = coe_ready S"
  by (simp add: coe_ready_def COE_set_characteristics_def)

lemma COE_measure_ready:
  assumes "coe_ready S"
  shows "\<exists>i. COE_measure sha S = Ret () (S\<lparr>coe_identity := i, coe_measured := True\<rparr>) \<and>
             sha_holds (sha (coe_message (coe_character S))) i"
proof -
  let ?b = "buf_empty\<lparr>b_data := coe_message (coe_character S)\<rparr>"
  have b: "buf_adds (coe_parts (coe_character S)) buf_empty = Ret () ?b" "\<not> b_poisoned ?b"
    by (simp_all add: buf_adds_ok buf_empty_def coe_message_def)
  obtain i where i: "res_bind (Sha256_add ?b (coe_identity S)) (\<lambda>_. Sha256_compute sha) = Ret () i"
    "sha_holds (sha (coe_message (coe_character S))) i"
    using Sha256_digest [of "coe_identity S" ?b sha] assms b(2) by (auto simp: coe_ready_def)
  then obtain j where "Sha256_add ?b (coe_identity S) = Ret () j" "Sha256_compute sha j = Ret () i"
    by (auto simp: res_simps)
  with b i(2) assms show ?thesis
    by (auto simp: COE_measure_def coe_ready_def intro!: exI [of _ i])
qed

lemma COE_get_measurement_holds:
  assumes "\<not> coe_poisoned S" "coe_measured S" "sha_holds d (coe_identity S)" "\<not> b_poisoned bufr"
  shows "COE_get_measurement (S, bufr) = Ret () (S, bufr\<lparr>b_data := b_data bufr @ d\<rparr>)"
  using assms by (simp add: COE_get_measurement_def Sha256_get_Buffer_holds buf_add_def)

lemma coe_message_eq_iff:
  "coe_message c = coe_message d \<longleftrightarrow> c\<lparr>c_fsgid := 0\<rparr> = d\<lparr>c_fsgid := 0\<rparr>"
  by (cases c; cases d) (auto simp: coe_message_def coe_parts_def append_eq_parts)

section \<open>Parsing lemmas\<close>

definition coe_members :: "coe_characteristics \<Rightarrow> (string \<times> string) list" where
  "coe_members c =
     [(''uid'', sprint_u (unat (c_uid c))), (''euid'', sprint_u (unat (c_euid c))),
      (''suid'', sprint_u (unat (c_suid c))), (''gid'', sprint_u (unat (c_gid c))),
      (''egid'', sprint_u (unat (c_egid c))), (''sgid'', sprint_u (unat (c_sgid c))),
      (''fsuid'', sprint_u (unat (c_fsuid c))), (''fsgid'', sprint_u (unat (c_fsgid c))),
      (''capeff'', ''0x'' @ sprint_x (unat (c_capeff c)))]"

lemma coe_text_members: "coe_text c = field_spec ''COE'' @ members (coe_members c)"
  by (simp add: coe_text_def coe_members_def field_spec_def key_spec_def)

lemma plain_sprint [simp]: "2 \<le> b \<Longrightarrow> b \<le> 16 \<Longrightarrow> plain (sprint_nat b n)"
  using sprint_nat_codes [of b _ n] by (force simp: plain_def)

lemma sprint_nonempty [simp]: "sprint_nat b n \<noteq> []" "[] \<noteq> sprint_nat b n"
  by (simp_all add: sprint_nat_def)

lemma key_name_simps [simp]:
  "key_name (c # cs) \<longleftrightarrow> plain (c # cs) \<and> c \<noteq> CHR '':'' \<and> c \<noteq> CHR '',''" "\<not> key_name []"
  by (auto simp: key_name_def)

lemma flat_coe_members: "flat (coe_members c)"
  by (auto simp: flat_def coe_members_def)

lemma COE_get_field_ok:
  assumes "frame_ok f (S, p, e)" "key_text f key = Some (sprint_u (unat w))"
  shows "\<exists>q. COE_get_field key put (S, p, e) = Ret () (COE_set (put w) S, q, e) \<and>
             frame_ok f (COE_set (put w) S, q, e)"
proof -
  have bound: "unat w < 2 ^ 32" using unsigned_less [of w] by simp
  then have "strtoll (sprint_u (unat w)) = (int (unat w), False)"
    by (intro strtoll_sprint_u) simp
  from parse_integer_ok [OF assms this] obtain q where
    q: "COE_get_field key put (S, p, e) =
          steps [fail_if (\<lambda>_. unat (word_of_int (int (unat w)) :: u64) > 2 ^ 32 - 1),
            assign (\<lambda>(S, p, e). (COE_set (put (ucast (word_of_int (int (unat w)) :: u64))) S, p, e))]
            (S, q, e)"
    and fq: "frame_ok f (S, q, e)"
    unfolding COE_get_field_def by blast
  have w: "(word_of_int (int (unat w)) :: u64) = ucast w"
    by simp
  have "unat (ucast w :: u64) = unat w"
    using bound by (simp add: unsigned_ucast_eq take_bit_nat_eq_self)
  moreover have "(ucast (ucast w :: u64) :: u32) = w"
    using bound by (simp add: word_unat_eq_iff unsigned_ucast_eq unsigned_take_bit_eq take_bit_nat_eq_self)
  ultimately show ?thesis
    using q fq bound unfolding w by (auto simp: frame_ok_def)
qed

lemma COE_get_caps_ok:
  assumes "frame_ok f (S, p, e)" "key_text f key = Some (''0x'' @ sprint_x (unat w))" "unat w < 2 ^ 63"
  shows "\<exists>q. COE_get_caps key put (S, p, e) = Ret () (COE_set (put w) S, q, e) \<and>
             frame_ok f (COE_set (put w) S, q, e)"
proof -
  obtain q where "COE_get_caps key put (S, p, e) =
      assign (\<lambda>(S, p, e). (COE_set (put (word_of_int (int (unat w)))) S, p, e)) (S, q, e)"
    "frame_ok f (S, q, e)"
    using parse_integer_ok [OF assms(1,2) strtoll_sprint_x [OF assms(3)]]
    unfolding COE_get_caps_def by blast
  then show ?thesis by (auto simp: frame_ok_def)
qed

text \<open>The same, for a run of statements that starts with the call.\<close>

lemma steps_get_field:
  assumes "frame_ok f (S, p, e)" "key_text f key = Some (sprint_u (unat w))"
    and "\<And>q. frame_ok f (COE_set (put w) S, q, e) \<Longrightarrow> steps fs (COE_set (put w) S, q, e) \<in> X"
  shows "steps (COE_get_field key put # fs) (S, p, e) \<in> X"
  using COE_get_field_ok [OF assms(1,2), of put] assms(3) by auto

lemma steps_get_caps:
  assumes "frame_ok f (S, p, e)" "key_text f key = Some (''0x'' @ sprint_x (unat w))" "unat w < 2 ^ 63"
    and "\<And>q. frame_ok f (COE_set (put w) S, q, e) \<Longrightarrow> steps fs (COE_set (put w) S, q, e) \<in> X"
  shows "steps (COE_get_caps key put # fs) (S, p, e) \<in> X"
  using COE_get_caps_ok [OF assms(1-3), of put] assms(4) by auto

lemma key_text_coe:
  assumes "(k, v) \<in> set (coe_members c)" 
  shows "key_text (CHR ''{'' # members (coe_members c)) k = Some v"
proof -
  have "distinct (map fst (coe_members c))" by (simp add: coe_members_def)
  with assms have "map_of (coe_members c) k = Some v" by (simp add: map_of_is_SomeI)
  moreover have "key_name k" "v \<noteq> []" using assms by (auto simp: coe_members_def)
  ultimately show ?thesis using key_text_members [OF flat_coe_members] by simp
qed

lemma COE_parse_members:
  assumes "extract_text ev ''COE'' = Some (CHR ''{'' # members (coe_members c))"
    and "unat (c_capeff c) < 2 ^ 63" "\<not> coe_poisoned S" "e \<noteq> ERANGE"
  shows "COE_parse (hs_of ev) (S, e) = Ret () (S\<lparr>coe_character := c\<rparr>, e)"
proof -
  let ?f = "CHR ''{'' # members (coe_members c)"
  have "steps (COE_parse_steps (hs_of ev)) (S, TSEMparser_Init, e) \<in>
          {r. \<exists>q. r = Ret () (S\<lparr>coe_character := c\<rparr>, q, e)}"
    unfolding COE_parse_steps_def
    apply (rule steps_fail_if, simp add: assms, rule steps_fail_if, simp)
    apply (rule steps_parse_field [OF parser_ok_Init assms(1,4)])
    apply ((rule steps_get_field, assumption, rule key_text_coe, simp add: coe_members_def)+)
    apply (rule steps_get_caps, assumption, rule key_text_coe, simp add: coe_members_def, rule assms(2))
    apply (simp add: COE_set_def)
    done
  then show ?thesis by (auto simp: COE_parse_def)
qed

section \<open>The methods latch failure\<close>

interpretation coe_parse_latch: latching COE_parse "\<lambda>(S, e). coe_poisoned S"
  by unfold_locales
    (auto simp: COE_parse_def COE_parse_steps_def coe_poison_def res_simps split: prod.splits)

interpretation coe_measure_latch: latching "\<lambda>(_ :: unit). COE_measure sha" coe_poisoned
  by unfold_locales (auto simp: COE_measure_def coe_poison_def res_simps)

interpretation coe_format_latch: latching "\<lambda>(_ :: unit). COE_format" "\<lambda>(S, event). coe_poisoned S"
  by unfold_locales (auto simp: COE_format_def coe_poison_def res_simps split: prod.splits)

interpretation coe_measure_reset: resettable "\<lambda>(_ :: unit). COE_measure sha" coe_poisoned COE_reset
  by unfold_locales (simp add: COE_reset_def)

lemma COE_measure_twice: "COE_measure sha S = Ret () T \<Longrightarrow> COE_measure sha T = Fail (coe_poison T)"
proof -
  assume "COE_measure sha S = Ret () T"
  then have "coe_measured T" by (auto simp: COE_measure_def res_simps)
  then show ?thesis by (cases "coe_poisoned T") (simp_all add: COE_measure_def)
qed

lemma COE_reset_ready:
  "\<not> sh_poisoned (coe_identity S) \<Longrightarrow> \<not> b_poisoned (sh_buffer (coe_identity S)) \<Longrightarrow> coe_ready (COE_reset S)"
  by (simp add: coe_ready_def COE_reset_def sha_fresh_reset)

end
