(* ===== verification/Cell.thy ===== *)
theory Cell
  imports SHA256 TSEMparser
begin

text \<open>
  The cell of a security event (\<open>SecurityModel/Cell.c\<close>): the parameters of the event that
  the LSM hook was called with.  This theory has the state, the parsers of the event types
  that have structured parameters and the generic one, the measurement and the JSON form.

  An event type is the number the enumeration \<open>tsem_event_type\<close> gives it.  A C array is the
  list of its bytes; the unions of the socket addresses are the 112 bytes they occupy.
  \<open>NAAAIM_Cell_Init\<close> clears only the file parameters, so that the rest of a new
  object is what \<open>malloc\<close> returned: it is the argument \<open>junk\<close> of \<open>Cell_Init\<close>.
\<close>

section \<open>State\<close>

abbreviation TSEM_TASK_KILL :: nat where "TSEM_TASK_KILL \<equiv> 2"
abbreviation TSEM_FILE_OPEN :: nat where "TSEM_FILE_OPEN \<equiv> 14"
abbreviation TSEM_MMAP_FILE :: nat where "TSEM_MMAP_FILE \<equiv> 15"
abbreviation TSEM_SOCKET_CREATE :: nat where "TSEM_SOCKET_CREATE \<equiv> 22"
abbreviation TSEM_SOCKET_CONNECT :: nat where "TSEM_SOCKET_CONNECT \<equiv> 23"
abbreviation TSEM_SOCKET_BIND :: nat where "TSEM_SOCKET_BIND \<equiv> 24"
abbreviation TSEM_SOCKET_ACCEPT :: nat where "TSEM_SOCKET_ACCEPT \<equiv> 25"

abbreviation AF_UNIX :: u32 where "AF_UNIX \<equiv> 1"
abbreviation AF_INET :: u32 where "AF_INET \<equiv> 2"
abbreviation AF_INET6 :: u32 where "AF_INET6 \<equiv> 10"
abbreviation TMPFS_MAGIC :: u32 where "TMPFS_MAGIC \<equiv> 0x01021994"
abbreviation UNIX_SIZE :: nat where "UNIX_SIZE \<equiv> 109"

record inode =
  i_uid :: u32
  i_gid :: u32
  i_mode :: u16
  i_s_magic :: u32
  i_s_id :: "byte list"
  i_s_uuid :: "byte list"

record path =
  p_major :: u32
  p_minor :: u32
  p_pathname :: hstr

record file_parameters =
  f_flags :: u32
  f_digest :: "byte list"
  f_inode :: inode
  f_path :: path

record mmap_file_parameters =
  m_have_file :: bool
  m_prot :: u32
  m_flags :: u32

record sock =
  k_family :: u32
  k_type :: u32
  k_protocol :: u32
  k_owner :: "byte list"

record socket_create_parameters =
  sc_family :: u32
  sc_type :: u32
  sc_protocol :: u32
  sc_kern :: u32

record socket_connect_parameters =
  cn_sock :: sock
  cn_port :: u16
  cn_flow :: u32
  cn_scope :: u32
  cn_u :: "byte list"

record socket_accept_parameters =
  ac_sock :: sock
  ac_port :: u16
  ac_u :: "byte list"

record task_kill_parameters =
  tk_cross_model :: u32
  tk_signal :: u32
  tk_task_id :: "byte list"

record Cell_State =
  ce_poisoned :: bool
  ce_type :: nat
  ce_event :: hstr
  ce_file :: file_parameters
  ce_mmap_file :: mmap_file_parameters
  ce_socket_create :: socket_create_parameters
  ce_socket_connect :: socket_connect_parameters
  ce_socket_accept :: socket_accept_parameters
  ce_task_kill :: task_kill_parameters
  ce_measured :: bool
  ce_identity :: Sha256_State

definition zero_file :: file_parameters where
  "zero_file = \<lparr>f_flags = 0, f_digest = replicate IDSIZE NUL,
     f_inode = \<lparr>i_uid = 0, i_gid = 0, i_mode = 0, i_s_magic = 0,
                i_s_id = replicate 32 NUL, i_s_uuid = replicate 16 NUL\<rparr>,
     f_path = \<lparr>p_major = 0, p_minor = 0, p_pathname = hs_empty\<rparr>\<rparr>"

definition Cell_Init :: "Cell_State \<Rightarrow> Cell_State" where
  "Cell_Init junk =
     junk\<lparr>ce_poisoned := False, ce_file := zero_file, ce_measured := False,
          ce_event := hs_empty, ce_identity := Sha256_Init\<rparr>"

definition cell_poison :: "Cell_State \<Rightarrow> Cell_State" where
  "cell_poison S = S\<lparr>ce_poisoned := True\<rparr>"

section \<open>Parsing\<close>

text \<open>
  The parsers work on the cell and on the event description, which they narrow to the
  field of interest: both are in the frame.
\<close>

type_synonym cell_frame = "(Cell_State \<times> hstr) frame"

definition on_cell :: "(Cell_State \<Rightarrow> Cell_State) \<Rightarrow> cell_frame \<Rightarrow> cell_frame" where
  "on_cell f = frame_map (\<lambda>(S, en). (f S, en))"

definition entry_field :: "string \<Rightarrow> cell_frame \<Rightarrow> (unit, cell_frame) res" where
  "entry_field field = (\<lambda>((S, en), p, e). parse_field en field ((S, en), p, e))"

text \<open>\<open>entry->reset(entry); parser->get_field(parser, entry)\<close>\<close>

definition entry_narrow :: "cell_frame \<Rightarrow> (unit, cell_frame) res" where
  "entry_narrow = (\<lambda>((S, en), p, e).
     zoom (\<lambda>en. ((S, en), p, e)) (TSEMparser_get_field p (hs_reset en)))"

definition Cell_get_u16 ::
  "string \<Rightarrow> (u16 \<Rightarrow> Cell_State \<Rightarrow> Cell_State) \<Rightarrow> cell_frame \<Rightarrow> (unit, cell_frame) res" where
  "Cell_get_u16 field put =
     parse_integer field (\<lambda>vl. steps
       [fail_if (\<lambda>_. unat vl > 2 ^ 16 - 1), assign (on_cell (put (ucast vl)))])"

definition Cell_get_field ::
  "string \<Rightarrow> (u32 \<Rightarrow> Cell_State \<Rightarrow> Cell_State) \<Rightarrow> cell_frame \<Rightarrow> (unit, cell_frame) res" where
  "Cell_get_field field put =
     parse_integer field (\<lambda>vl. steps
       [fail_if (\<lambda>_. unat vl > 2 ^ 32 - 1), assign (on_cell (put (ucast vl)))])"

text \<open>
  \<open>_get_digest\<close> and \<open>_get_text\<close> copy into the memory at \<open>fb\<close>: \<open>upd\<close> applies a change to
  these bytes of the cell.
\<close>

definition Cell_get_digest ::
  "string \<Rightarrow> nat \<Rightarrow> ((byte list \<Rightarrow> byte list) \<Rightarrow> Cell_State \<Rightarrow> Cell_State) \<Rightarrow>
   cell_frame \<Rightarrow> (unit, cell_frame) res" where
  "Cell_get_digest field len upd =
     parse_local_text field (\<lambda>match fr.
       (case buf_add_hexstring (hs_get match) buf_empty of
          Ret _ bufr \<Rightarrow> if buf_size bufr \<noteq> len then Fail fr
                       else Ret () (on_cell (upd (overwrite (b_data bufr))) fr)
        | Fail _ \<Rightarrow> Fail fr
        | Undef \<Rightarrow> Undef))"

definition Cell_get_text ::
  "string \<Rightarrow> nat \<Rightarrow> ((byte list \<Rightarrow> byte list) \<Rightarrow> Cell_State \<Rightarrow> Cell_State) \<Rightarrow>
   cell_frame \<Rightarrow> (unit, cell_frame) res" where
  "Cell_get_text field fblen upd =
     parse_local_text field (\<lambda>match fr.
       (case hs_get match of
          None \<Rightarrow> Undef
        | Some t \<Rightarrow> if hs_size match + 1 > fblen then Fail fr
                   else Ret () (on_cell (upd (overwrite (t @ [NUL]))) fr)))"

subsection \<open>Files\<close>

abbreviation on_file :: "(file_parameters \<Rightarrow> file_parameters) \<Rightarrow> Cell_State \<Rightarrow> Cell_State" where
  "on_file f S \<equiv> S\<lparr>ce_file := f (ce_file S)\<rparr>"

abbreviation on_inode :: "(inode \<Rightarrow> inode) \<Rightarrow> Cell_State \<Rightarrow> Cell_State" where
  "on_inode f \<equiv> on_file (\<lambda>F. F\<lparr>f_inode := f (f_inode F)\<rparr>)"

abbreviation on_path :: "(path \<Rightarrow> path) \<Rightarrow> Cell_State \<Rightarrow> Cell_State" where
  "on_path f \<equiv> on_file (\<lambda>F. F\<lparr>f_path := f (f_path F)\<rparr>)"

definition Cell_parse_file :: "(cell_frame \<Rightarrow> (unit, cell_frame) res) list" where
  "Cell_parse_file =
     [entry_field ''file'',
      entry_narrow,
      Cell_get_field ''flags'' (\<lambda>v. on_file (\<lambda>F. F\<lparr>f_flags := v\<rparr>)),
      Cell_get_digest ''digest'' IDSIZE (\<lambda>u. on_file (f_digest_update u)),
      entry_field ''inode'',
      Cell_get_field ''uid'' (\<lambda>v. on_inode (\<lambda>i. i\<lparr>i_uid := v\<rparr>)),
      Cell_get_field ''gid'' (\<lambda>v. on_inode (\<lambda>i. i\<lparr>i_gid := v\<rparr>)),
      Cell_get_u16 ''mode'' (\<lambda>v. on_inode (\<lambda>i. i\<lparr>i_mode := v\<rparr>)),
      Cell_get_field ''s_magic'' (\<lambda>v. on_inode (\<lambda>i. i\<lparr>i_s_magic := v\<rparr>)),
      Cell_get_text ''s_id'' 32 (\<lambda>u. on_inode (i_s_id_update u)),
      Cell_get_digest ''s_uuid'' 16 (\<lambda>u. on_inode (i_s_uuid_update u)),
      entry_field ''path'',
      parse_text (Some ''pathname'') (\<lambda>(S, en). p_pathname (f_path (ce_file S)))
        (\<lambda>(S, en) t. (on_path (\<lambda>p. p\<lparr>p_pathname := t\<rparr>) S, en)),
      parse_has_key ''dev'' (\<lambda>has.
        if \<not> has then assign (on_cell (on_path (\<lambda>p. p\<lparr>p_major := 0, p_minor := 0\<rparr>)))
        else steps
          [entry_field ''dev'',
           Cell_get_field ''major'' (\<lambda>v. on_path (\<lambda>p. p\<lparr>p_major := v\<rparr>)),
           Cell_get_field ''minor'' (\<lambda>v. on_path (\<lambda>p. p\<lparr>p_minor := v\<rparr>))])]"

definition Cell_parse_file_open ::
  "(Cell_State \<times> hstr) \<times> int \<Rightarrow> (unit, (Cell_State \<times> hstr) \<times> int) res" where
  "Cell_parse_file_open = with_parser (entry_field ''file_open'' # Cell_parse_file)"

abbreviation on_mmap :: "(mmap_file_parameters \<Rightarrow> mmap_file_parameters) \<Rightarrow> Cell_State \<Rightarrow> Cell_State" where
  "on_mmap f S \<equiv> S\<lparr>ce_mmap_file := f (ce_mmap_file S)\<rparr>"

definition Cell_parse_mmap_file ::
  "(Cell_State \<times> hstr) \<times> int \<Rightarrow> (unit, (Cell_State \<times> hstr) \<times> int) res" where
  "Cell_parse_mmap_file = with_parser
     [entry_field ''mmap_file'',
      Cell_get_field ''prot'' (\<lambda>v. on_mmap (\<lambda>m. m\<lparr>m_prot := v\<rparr>)),
      Cell_get_field ''flags'' (\<lambda>v. on_mmap (\<lambda>m. m\<lparr>m_flags := v\<rparr>)),
      parse_has_key ''file'' (\<lambda>has fr.
        let fr1 = on_cell (on_mmap (\<lambda>m. m\<lparr>m_have_file := has\<rparr>)) fr
        in if \<not> has then Ret () fr1 else steps Cell_parse_file fr1)]"

subsection \<open>Sockets\<close>

text \<open>
  \<open>_parse_sock\<close> returns a variable that its error exits leave uninitialised: a failure
  inside it has no defined result.
\<close>

fun uninitialised :: "('a, 's) res \<Rightarrow> ('a, 's) res" where
  "uninitialised (Ret a s) = Ret a s"
| "uninitialised (Fail s) = Undef"
| "uninitialised Undef = Undef"

definition Cell_parse_sock ::
  "((sock \<Rightarrow> sock) \<Rightarrow> Cell_State \<Rightarrow> Cell_State) \<Rightarrow> cell_frame \<Rightarrow> (unit, cell_frame) res" where
  "Cell_parse_sock on_sock fr = uninitialised (steps
     [entry_field ''sock'',
      Cell_get_field ''family'' (\<lambda>v. on_sock (\<lambda>k. k\<lparr>k_family := v\<rparr>)),
      Cell_get_field ''type'' (\<lambda>v. on_sock (\<lambda>k. k\<lparr>k_type := v\<rparr>)),
      Cell_get_field ''protocol'' (\<lambda>v. on_sock (\<lambda>k. k\<lparr>k_protocol := v\<rparr>)),
      Cell_get_digest ''owner'' IDSIZE (\<lambda>u. on_sock (k_owner_update u))] fr)"

abbreviation on_create ::
  "(socket_create_parameters \<Rightarrow> socket_create_parameters) \<Rightarrow> Cell_State \<Rightarrow> Cell_State" where
  "on_create f S \<equiv> S\<lparr>ce_socket_create := f (ce_socket_create S)\<rparr>"

definition Cell_parse_socket_create ::
  "(Cell_State \<times> hstr) \<times> int \<Rightarrow> (unit, (Cell_State \<times> hstr) \<times> int) res" where
  "Cell_parse_socket_create = with_parser
     [entry_field ''socket_create'',
      Cell_get_field ''family'' (\<lambda>v. on_create (\<lambda>c. c\<lparr>sc_family := v\<rparr>)),
      Cell_get_field ''type'' (\<lambda>v. on_create (\<lambda>c. c\<lparr>sc_type := v\<rparr>)),
      Cell_get_field ''protocol'' (\<lambda>v. on_create (\<lambda>c. c\<lparr>sc_protocol := v\<rparr>)),
      Cell_get_field ''kern'' (\<lambda>v. on_create (\<lambda>c. c\<lparr>sc_kern := v\<rparr>))]"

text \<open>The \<open>af_unix\<close> branch of both address parsers.\<close>

definition Cell_get_unix ::
  "((byte list \<Rightarrow> byte list) \<Rightarrow> Cell_State \<Rightarrow> Cell_State) \<Rightarrow> cell_frame \<Rightarrow> (unit, cell_frame) res" where
  "Cell_get_unix upd =
     parse_local_text ''address'' (\<lambda>str fr.
       if hs_size str \<ge> UNIX_SIZE then Fail fr
       else Ret () (on_cell (upd (overwrite (hs_chars str) \<circ> overwrite (replicate UNIX_SIZE NUL))) fr))"

abbreviation on_connect ::
  "(socket_connect_parameters \<Rightarrow> socket_connect_parameters) \<Rightarrow> Cell_State \<Rightarrow> Cell_State" where
  "on_connect f S \<equiv> S\<lparr>ce_socket_connect := f (ce_socket_connect S)\<rparr>"

definition Cell_parse_connect_addr :: "cell_frame \<Rightarrow> (unit, cell_frame) res" where
  "Cell_parse_connect_addr fr =
     (let family = k_family (cn_sock (ce_socket_connect (fst (fst fr))))
      in if family = AF_INET then steps
           [entry_field ''af_inet'',
            Cell_get_u16 ''port'' (\<lambda>v. on_connect (\<lambda>c. c\<lparr>cn_port := v\<rparr>)),
            Cell_get_field ''address'' (\<lambda>v. on_connect (cn_u_update (overwrite (u32_bytes v))))] fr
         else if family = AF_INET6 then steps
           [entry_field ''af_inet6'',
            Cell_get_field ''flow'' (\<lambda>v. on_connect (\<lambda>c. c\<lparr>cn_flow := v\<rparr>)),
            Cell_get_field ''scope'' (\<lambda>v. on_connect (\<lambda>c. c\<lparr>cn_scope := v\<rparr>)),
            Cell_get_digest ''address'' 16 (\<lambda>u. on_connect (cn_u_update u))] fr
         else if family = AF_UNIX then steps
           [entry_field ''af_unix'', Cell_get_unix (\<lambda>u. on_connect (cn_u_update u))] fr
         else steps
           [entry_field ''af_other'',
            Cell_get_digest ''address'' 32 (\<lambda>u. on_connect (cn_u_update u))] fr)"

definition Cell_parse_socket_connect_bind ::
  "(Cell_State \<times> hstr) \<times> int \<Rightarrow> (unit, (Cell_State \<times> hstr) \<times> int) res" where
  "Cell_parse_socket_connect_bind = (\<lambda>((S, en), e).
     if ce_type S \<noteq> TSEM_SOCKET_CONNECT \<and> ce_type S \<noteq> TSEM_SOCKET_BIND then Fail ((S, en), e)
     else with_parser
       [entry_field (if ce_type S = TSEM_SOCKET_CONNECT then ''socket_connect'' else ''socket_bind''),
        entry_narrow,
        Cell_parse_sock (\<lambda>f. on_connect (\<lambda>c. c\<lparr>cn_sock := f (cn_sock c)\<rparr>)),
        entry_field ''addr'',
        Cell_parse_connect_addr] ((S, en), e))"

abbreviation on_accept ::
  "(socket_accept_parameters \<Rightarrow> socket_accept_parameters) \<Rightarrow> Cell_State \<Rightarrow> Cell_State" where
  "on_accept f S \<equiv> S\<lparr>ce_socket_accept := f (ce_socket_accept S)\<rparr>"

definition Cell_parse_accept_addr :: "cell_frame \<Rightarrow> (unit, cell_frame) res" where
  "Cell_parse_accept_addr fr =
     (let family = k_family (ac_sock (ce_socket_accept (fst (fst fr))))
      in if family = AF_INET then steps
           [entry_field ''af_inet'',
            Cell_get_field ''address'' (\<lambda>v. on_accept (ac_u_update (overwrite (u32_bytes v))))] fr
         else if family = AF_INET6 then steps
           [entry_field ''af_inet6'',
            Cell_get_digest ''address'' 16 (\<lambda>u. on_accept (ac_u_update u))] fr
         else if family = AF_UNIX then steps
           [entry_field ''af_unix'', Cell_get_unix (\<lambda>u. on_accept (ac_u_update u))] fr
         else steps
           [entry_field ''af_other'',
            Cell_get_digest ''address'' 32 (\<lambda>u. on_accept (ac_u_update u))] fr)"

definition Cell_parse_socket_accept ::
  "(Cell_State \<times> hstr) \<times> int \<Rightarrow> (unit, (Cell_State \<times> hstr) \<times> int) res" where
  "Cell_parse_socket_accept = with_parser
     [entry_field ''socket_accept'',
      entry_narrow,
      Cell_parse_sock (\<lambda>f. on_accept (\<lambda>c. c\<lparr>ac_sock := f (ac_sock c)\<rparr>)),
      entry_field ''addr'',
      Cell_parse_accept_addr]"

subsection \<open>Signals and the other events\<close>

abbreviation on_kill ::
  "(task_kill_parameters \<Rightarrow> task_kill_parameters) \<Rightarrow> Cell_State \<Rightarrow> Cell_State" where
  "on_kill f S \<equiv> S\<lparr>ce_task_kill := f (ce_task_kill S)\<rparr>"

definition Cell_parse_task_kill ::
  "(Cell_State \<times> hstr) \<times> int \<Rightarrow> (unit, (Cell_State \<times> hstr) \<times> int) res" where
  "Cell_parse_task_kill = with_parser
     [entry_field ''task_kill'',
      Cell_get_field ''cross'' (\<lambda>v. on_kill (\<lambda>t. t\<lparr>tk_cross_model := v\<rparr>)),
      Cell_get_field ''signal'' (\<lambda>v. on_kill (\<lambda>t. t\<lparr>tk_signal := v\<rparr>)),
      Cell_get_digest ''target'' IDSIZE (\<lambda>u. on_kill (tk_task_id_update u))]"

definition Cell_parse_generic_event ::
  "(Cell_State \<times> hstr) \<times> int \<Rightarrow> (unit, (Cell_State \<times> hstr) \<times> int) res" where
  "Cell_parse_generic_event = with_parser
     [entry_field ''event'',
      parse_text (Some ''type'') (\<lambda>(S, en). ce_event S) (\<lambda>(S, en) t. (S\<lparr>ce_event := t\<rparr>, en))]"

definition Cell_parse ::
  "nat \<Rightarrow> (Cell_State \<times> hstr) \<times> int \<Rightarrow> (unit, (Cell_State \<times> hstr) \<times> int) res" where
  "Cell_parse type fr =
     on_fail (\<lambda>((S, en), e). ((cell_poison S, en), e))
       (steps
          [fail_if (\<lambda>((S, en), e). ce_poisoned S),
           fail_if (\<lambda>((S, en), e). h_poisoned en),
           assign (\<lambda>((S, en), e). ((S\<lparr>ce_type := type\<rparr>, en), e)),
           (if type = TSEM_FILE_OPEN then Cell_parse_file_open
            else if type = TSEM_MMAP_FILE then Cell_parse_mmap_file
            else if type = TSEM_SOCKET_CREATE then Cell_parse_socket_create
            else if type = TSEM_SOCKET_CONNECT \<or> type = TSEM_SOCKET_BIND
              then Cell_parse_socket_connect_bind
            else if type = TSEM_SOCKET_ACCEPT then Cell_parse_socket_accept
            else if type = TSEM_TASK_KILL then Cell_parse_task_kill
            else Cell_parse_generic_event)] fr)"

end
