(* ===== verification/CellMeasure.thy ===== *)
theory CellMeasure
  imports Cell
begin

text \<open>
  The measurement of a cell, its pseudonym and its digest (\<open>SecurityModel/Cell.c\<close>):
  the byte strings that are hashed, and what they say about the cell.
\<close>

section \<open>The hashed parts\<close>

text \<open>The digest of the empty message, as the array \<open>zero_message\<close> has it.\<close>

definition zero_message :: "byte list" where
  "zero_message =
     [CHR 0xe3, CHR 0xb0, CHR 0xc4, CHR 0x42, CHR 0x98, CHR 0xfc, CHR 0x1c, CHR 0x14,
      CHR 0x9a, CHR 0xfb, CHR 0xf4, CHR 0xc8, CHR 0x99, CHR 0x6f, CHR 0xb9, CHR 0x24,
      CHR 0x27, CHR 0xae, CHR 0x41, CHR 0xe4, CHR 0x64, CHR 0x9b, CHR 0x93, CHR 0x4c,
      CHR 0xa4, CHR 0x95, CHR 0x99, CHR 0x1b, CHR 0x78, CHR 0x52, CHR 0xb8, CHR 0x55]"

definition null_uuid :: "byte list" where
  "null_uuid = replicate 16 NUL"

definition file_parts :: "file_parameters \<Rightarrow> byte list list" where
  "file_parts F =
     (let i = f_inode F; s = p_pathname (f_path F) in
      [u32_bytes (f_flags F),
       u32_bytes (i_uid i), u32_bytes (i_gid i), u16_bytes (i_mode i),
       u32_bytes (i_s_magic i), i_s_id i,
       (if i_s_magic i = TMPFS_MAGIC then null_uuid else i_s_uuid i),
       u32_bytes (of_nat (hs_size s)), hs_chars s,
       f_digest F])"

definition mmap_parts :: "mmap_file_parameters \<Rightarrow> byte list list" where
  "mmap_parts m = [u32_bytes (m_prot m), u32_bytes (m_flags m)]"

definition sock_parts :: "sock \<Rightarrow> byte list list" where
  "sock_parts k = [u32_bytes (k_family k), u32_bytes (k_type k), u32_bytes (k_protocol k), k_owner k]"

definition socket_create_parts :: "socket_create_parameters \<Rightarrow> byte list list" where
  "socket_create_parts c =
     [u32_bytes (sc_family c), u32_bytes (sc_type c), u32_bytes (sc_protocol c), u32_bytes (sc_kern c)]"

text \<open>
  \<open>strlen\<close> of an address runs to the first NUL; without one in the union it reads beyond
  it, which is undefined.
\<close>

definition unix_name :: "byte list \<Rightarrow> string option" where
  "unix_name u = (if NUL \<in> set u then Some (cstring u) else None)"

text \<open>The default branch hashes \<open>sizeof(p)\<close> bytes, the size of a pointer.\<close>

definition connect_parts :: "socket_connect_parameters \<Rightarrow> byte list list option" where
  "connect_parts c =
     (let family = k_family (cn_sock c); u = cn_u c;
          ports = (if family = AF_INET \<or> family = AF_INET6 then [u16_bytes (cn_port c)] else [])
      in map_option (\<lambda>addr. sock_parts (cn_sock c) @ ports @ addr)
           (if family = AF_INET then Some [take 4 u]
            else if family = AF_INET6
              then Some [take 16 u, u32_bytes (cn_flow c), u32_bytes (cn_scope c)]
            else if family = AF_UNIX then map_option (\<lambda>n. [n]) (unix_name u)
            else Some [take 8 u]))"

definition accept_parts :: "socket_accept_parameters \<Rightarrow> byte list list option" where
  "accept_parts a =
     (let family = k_family (ac_sock a); u = ac_u a
      in map_option (\<lambda>addr. sock_parts (ac_sock a) @ addr)
           (if family = AF_INET then Some [u16_bytes (ac_port a), take 4 u]
            else if family = AF_INET6 then Some [u16_bytes (ac_port a), take 16 u]
            else if family = AF_UNIX then map_option (\<lambda>n. [n]) (unix_name u)
            else Some [take 32 u]))"

definition kill_parts :: "task_kill_parameters \<Rightarrow> byte list list" where
  "kill_parts t = [u32_bytes (tk_cross_model t), u32_bytes (tk_signal t), tk_task_id t]"

definition generic_parts :: "hstr \<Rightarrow> byte list list" where
  "generic_parts event = [hs_chars event, zero_message]"

section \<open>Operations\<close>

text \<open>A buffer is filled with the parts and added to the digest.\<close>

definition measure_parts :: "byte list list option \<Rightarrow> Cell_State \<Rightarrow> (unit, Cell_State) res" where
  "measure_parts parts S =
     (case parts of
        None \<Rightarrow> Undef
      | Some ps \<Rightarrow>
          (case buf_adds ps buf_empty of
             Ret _ bufr \<Rightarrow> zoom (\<lambda>i. S\<lparr>ce_identity := i\<rparr>) (Sha256_add bufr (ce_identity S))
           | Fail _ \<Rightarrow> Fail S
           | Undef \<Rightarrow> Undef))"

definition Cell_measure_file :: "Cell_State \<Rightarrow> (unit, Cell_State) res" where
  "Cell_measure_file S = measure_parts (Some (file_parts (ce_file S))) S"

definition Cell_measure_mmap_file :: "Cell_State \<Rightarrow> (unit, Cell_State) res" where
  "Cell_measure_mmap_file = steps
     [\<lambda>S. if m_have_file (ce_mmap_file S) then Cell_measure_file S else Ret () S,
      \<lambda>S. measure_parts (Some (mmap_parts (ce_mmap_file S))) S]"

definition Cell_measure_event :: "Cell_State \<Rightarrow> (unit, Cell_State) res" where
  "Cell_measure_event S =
     (let type = ce_type S in
      if type = TSEM_FILE_OPEN then Cell_measure_file S
      else if type = TSEM_MMAP_FILE then Cell_measure_mmap_file S
      else if type = TSEM_SOCKET_CREATE
        then measure_parts (Some (socket_create_parts (ce_socket_create S))) S
      else if type = TSEM_SOCKET_CONNECT \<or> type = TSEM_SOCKET_BIND
        then measure_parts (connect_parts (ce_socket_connect S)) S
      else if type = TSEM_SOCKET_ACCEPT then measure_parts (accept_parts (ce_socket_accept S)) S
      else if type = TSEM_TASK_KILL then measure_parts (Some (kill_parts (ce_task_kill S))) S
      else measure_parts (Some (generic_parts (ce_event S))) S)"

text \<open>
  \<open>measure\<close>: \<open>retn = true\<close> stands behind the test of the event's own result, so a failure
  there leaves the cell unmeasured and returns true.
\<close>

definition Cell_measure :: "(byte list \<Rightarrow> byte list) \<Rightarrow> Cell_State \<Rightarrow> (unit, Cell_State) res" where
  "Cell_measure sha S =
     on_fail cell_poison
       (steps
          [fail_if ce_poisoned,
           fail_if ce_measured,
           (\<lambda>S. case Cell_measure_event S of
                  Ret _ S \<Rightarrow> steps
                    [\<lambda>S. zoom (\<lambda>i. S\<lparr>ce_identity := i\<rparr>) (Sha256_compute sha (ce_identity S)),
                     assign (\<lambda>S. S\<lparr>ce_measured := True\<rparr>)] S
                | Fail S \<Rightarrow> Ret () S
                | Undef \<Rightarrow> Undef)] S)"

definition Cell_get_measurement :: "Cell_State \<times> buf \<Rightarrow> (unit, Cell_State \<times> buf) res" where
  "Cell_get_measurement = (\<lambda>(S, bufr).
     on_fail (\<lambda>(S, bufr). (cell_poison S, bufr))
       (steps
          [fail_if (\<lambda>(S, bufr). ce_poisoned S),
           fail_if (\<lambda>(S, bufr). \<not> ce_measured S),
           (\<lambda>(S, bufr).
              case Sha256_get_Buffer (ce_identity S) of
                (None, i) \<Rightarrow> Undef
              | (Some d, i) \<Rightarrow>
                  if b_poisoned d then Fail (S\<lparr>ce_identity := i\<rparr>, bufr)
                  else zoom (\<lambda>b. (S\<lparr>ce_identity := i\<rparr>, b)) (buf_add (b_data d) bufr))] (S, bufr)))"

text \<open>
  \<open>get_pseudonym\<close>: without a path name it returns true at once, and the caller's buffer
  keeps what it held.
\<close>

definition Cell_get_pseudonym ::
  "(byte list \<Rightarrow> byte list) \<Rightarrow> Cell_State \<times> buf \<Rightarrow> (unit, Cell_State \<times> buf) res" where
  "Cell_get_pseudonym sha = (\<lambda>(S, bufr).
     if ce_poisoned S \<or> b_poisoned bufr then Fail (cell_poison S, bufr)
     else
       (case hs_get (p_pathname (f_path (ce_file S))) of
          None \<Rightarrow> Ret () (S, bufr)
        | Some name \<Rightarrow>
            on_fail (\<lambda>(S, bufr). (cell_poison S, bufr))
              (steps
                 [\<lambda>(S, b). zoom (\<lambda>b. (S, b)) (buf_add (u32_bytes (of_nat (length name))) b),
                  \<lambda>(S, b). zoom (\<lambda>b. (S, b)) (buf_add name b),
                  \<lambda>(S, b).
                    (case res_bind (Sha256_add b Sha256_Init) (\<lambda>_. Sha256_compute sha) of
                       Ret _ p \<Rightarrow>
                         (case Sha256_get_Buffer p of
                            (None, _) \<Rightarrow> Undef
                          | (Some d, _) \<Rightarrow>
                              zoom (\<lambda>b. (S, b)) (buf_add (b_data d) (buf_reset b)))
                     | Fail _ \<Rightarrow> Fail (S, b)
                     | Undef \<Rightarrow> Undef)] (S, buf_reset bufr))))"

definition Cell_set_digest :: "buf \<Rightarrow> Cell_State \<Rightarrow> (unit, Cell_State) res" where
  "Cell_set_digest bufr S =
     on_fail cell_poison
       (steps
          [fail_if ce_poisoned,
           fail_if (\<lambda>S. buf_size bufr \<noteq> length (f_digest (ce_file S))),
           assign (on_file (\<lambda>F. F\<lparr>f_digest := b_data bufr\<rparr>))] S)"

definition Cell_reset :: "Cell_State \<Rightarrow> Cell_State" where
  "Cell_reset S =
     (on_path (\<lambda>p. p\<lparr>p_pathname := hs_reset (p_pathname p)\<rparr>) S)
       \<lparr>ce_poisoned := False, ce_measured := False, ce_event := hs_reset (ce_event S),
        ce_identity := Sha256_reset (ce_identity S)\<rparr>"

section \<open>The message of a cell\<close>

definition cell_parts :: "Cell_State \<Rightarrow> byte list list option" where
  "cell_parts S =
     (let type = ce_type S in
      if type = TSEM_FILE_OPEN then Some (file_parts (ce_file S))
      else if type = TSEM_MMAP_FILE
        then Some ((if m_have_file (ce_mmap_file S) then file_parts (ce_file S) else []) @
                   mmap_parts (ce_mmap_file S))
      else if type = TSEM_SOCKET_CREATE then Some (socket_create_parts (ce_socket_create S))
      else if type = TSEM_SOCKET_CONNECT \<or> type = TSEM_SOCKET_BIND
        then connect_parts (ce_socket_connect S)
      else if type = TSEM_SOCKET_ACCEPT then accept_parts (ce_socket_accept S)
      else if type = TSEM_TASK_KILL then Some (kill_parts (ce_task_kill S))
      else Some (generic_parts (ce_event S)))"

definition cell_message :: "Cell_State \<Rightarrow> byte list option" where
  "cell_message S = map_option concat (cell_parts S)"

definition cell_ready :: "Cell_State \<Rightarrow> bool" where
  "cell_ready S \<longleftrightarrow> \<not> ce_poisoned S \<and> \<not> ce_measured S \<and> sha_fresh (ce_identity S)"

lemma cell_ready_Init [simp]: "cell_ready (Cell_Init junk)"
  by (simp add: cell_ready_def Cell_Init_def)

lemma measure_parts_ok:
  assumes "\<not> sh_poisoned (ce_identity S)" "\<not> sh_computed (ce_identity S)"
  shows "measure_parts (Some ps) S = Ret () (S\<lparr>ce_identity := (ce_identity S)
           \<lparr>sh_context := (if sh_initialized (ce_identity S) then sh_context (ce_identity S) else []) @
                          concat ps,
            sh_initialized := True\<rparr>\<rparr>)"
  using assms by (simp add: measure_parts_def buf_adds_ok buf_empty_def Sha256_add_more)

text \<open>Every event type feeds its message, in one or two parts, to the digest.\<close>

lemma Cell_measure_event_message:
  assumes "cell_ready S" "cell_message S = Some m"
  shows "Cell_measure_event S = Ret () (S\<lparr>ce_identity := (ce_identity S)
           \<lparr>sh_context := m, sh_initialized := True\<rparr>\<rparr>)"
proof -
  have fresh: "\<not> sh_poisoned (ce_identity S)" "\<not> sh_computed (ce_identity S)" "\<not> sh_initialized (ce_identity S)"
    using assms(1) by (simp_all add: cell_ready_def sha_fresh_def)
  have one: "measure_parts parts S = Ret () (S\<lparr>ce_identity := (ce_identity S)
           \<lparr>sh_context := concat ps, sh_initialized := True\<rparr>\<rparr>)" if "parts = Some ps" for parts ps
    using fresh that by (simp add: measure_parts_ok)
  show ?thesis
  proof (cases "ce_type S = TSEM_MMAP_FILE")
    case True
    with assms(2) have m: "m = concat (if m_have_file (ce_mmap_file S) then file_parts (ce_file S) else []) @
        concat (mmap_parts (ce_mmap_file S))"
      by (simp add: cell_message_def cell_parts_def)
    show ?thesis
      using fresh True
      by (cases "m_have_file (ce_mmap_file S)")
        (simp_all add: m Cell_measure_event_def Cell_measure_mmap_file_def Cell_measure_file_def measure_parts_ok)
  next
    case False
    then have "Cell_measure_event S = measure_parts (cell_parts S) S"
      by (simp add: Cell_measure_event_def Cell_measure_file_def cell_parts_def Let_def)
    moreover obtain ps where "cell_parts S = Some ps" "m = concat ps"
      using assms(2) by (auto simp: cell_message_def)
    ultimately show ?thesis by (simp add: one)
  qed
qed

lemma Cell_measure_ready:
  assumes "cell_ready S" "cell_message S = Some m"
  shows "\<exists>i. Cell_measure sha S = Ret () (S\<lparr>ce_identity := i, ce_measured := True\<rparr>) \<and> sha_holds (sha m) i"
  using assms Cell_measure_event_message [OF assms]
  by (auto simp: Cell_measure_def cell_ready_def sha_fresh_def sha_holds_def Sha256_compute_def
      Sha256_compute_digest_def sha_buffer_add_def buf_add_def)

lemma Cell_measure_undefined:
  assumes "cell_ready S" "cell_message S = None"
  shows "Cell_measure sha S = Undef"
proof -
  have none: "cell_parts S = None" using assms(2) by (simp add: cell_message_def)
  then have "ce_type S \<noteq> TSEM_MMAP_FILE" by (auto simp: cell_parts_def)
  then have "Cell_measure_event S = measure_parts (cell_parts S) S"
    by (simp add: Cell_measure_event_def Cell_measure_file_def cell_parts_def Let_def)
  then show ?thesis
    using assms(1) none by (simp add: Cell_measure_def cell_ready_def measure_parts_def)
qed

lemma Cell_get_measurement_holds:
  assumes "\<not> ce_poisoned S" "ce_measured S" "sha_holds d (ce_identity S)" "\<not> b_poisoned bufr"
  shows "Cell_get_measurement (S, bufr) = Ret () (S, bufr\<lparr>b_data := b_data bufr @ d\<rparr>)"
  using assms by (simp add: Cell_get_measurement_def Sha256_get_Buffer_holds buf_add_def)

section \<open>Pseudonyms\<close>

definition pseudonym_of :: "(byte list \<Rightarrow> byte list) \<Rightarrow> string \<Rightarrow> byte list" where
  "pseudonym_of sha name = sha (u32_bytes (of_nat (length name)) @ name)"

lemma Cell_get_pseudonym_name:
  assumes "\<not> ce_poisoned S" "\<not> b_poisoned b" "hs_get (p_pathname (f_path (ce_file S))) = Some name"
  shows "Cell_get_pseudonym sha (S, b) = Ret () (S, b\<lparr>b_data := pseudonym_of sha name\<rparr>)"
proof -
  let ?b = "b\<lparr>b_data := u32_bytes (of_nat (length name)) @ name\<rparr>"
  obtain p where p: "res_bind (Sha256_add ?b Sha256_Init) (\<lambda>_. Sha256_compute sha) = Ret () p"
    "sha_holds (pseudonym_of sha name) p"
    using Sha256_digest [of Sha256_Init ?b sha] assms(2) by (auto simp: pseudonym_of_def)
  then show ?thesis
    using assms Sha256_get_Buffer_holds [OF p(2)]
    by (simp add: Cell_get_pseudonym_def buf_add_def buf_reset_def)
qed

lemma Cell_set_digest_ok:
  assumes "\<not> ce_poisoned S" "\<not> b_poisoned b" "length (b_data b) = length (f_digest (ce_file S))"
  shows "Cell_set_digest b S = Ret () (on_file (\<lambda>F. F\<lparr>f_digest := b_data b\<rparr>) S)"
  using assms by (simp add: Cell_set_digest_def buf_size_def)

section \<open>What a measurement determines\<close>

text \<open>The sizes of the C arrays.\<close>

definition file_ok :: "file_parameters \<Rightarrow> bool" where
  "file_ok F \<longleftrightarrow> length (f_digest F) = IDSIZE \<and> length (i_s_id (f_inode F)) = 32 \<and>
                length (i_s_uuid (f_inode F)) = 16 \<and>
                hs_size (p_pathname (f_path F)) < 2 ^ 32"

definition cell_ok :: "Cell_State \<Rightarrow> bool" where
  "cell_ok S \<longleftrightarrow> file_ok (ce_file S) \<and>
     length (k_owner (cn_sock (ce_socket_connect S))) = IDSIZE \<and> length (cn_u (ce_socket_connect S)) = 112 \<and>
     length (k_owner (ac_sock (ce_socket_accept S))) = IDSIZE \<and> length (ac_u (ce_socket_accept S)) = 112 \<and>
     length (tk_task_id (ce_task_kill S)) = IDSIZE"

text \<open>What the measurement of a file says about it.\<close>

definition file_view ::
  "file_parameters \<Rightarrow> u32 \<times> (u32 \<times> u32 \<times> u16 \<times> u32 \<times> byte list \<times> byte list) \<times> string \<times> byte list" where
  "file_view F =
     (f_flags F,
      (let i = f_inode F in
       (i_uid i, i_gid i, i_mode i, i_s_magic i, i_s_id i,
        if i_s_magic i = TMPFS_MAGIC then null_uuid else i_s_uuid i)),
      hs_chars (p_pathname (f_path F)), f_digest F)"

lemma of_nat_u32_eq: "n < 2 ^ 32 \<Longrightarrow> m < 2 ^ 32 \<Longrightarrow> (of_nat n :: u32) = of_nat m \<longleftrightarrow> n = m"
  by (simp add: word_of_nat_eq_iff take_bit_nat_eq_self)

lemma file_parts_eq_iff:
  assumes "file_ok F" "file_ok G"
  shows "concat (file_parts F) @ us = concat (file_parts G) @ vs \<longleftrightarrow> file_view F = file_view G \<and> us = vs"
proof -
  let ?uuid = "\<lambda>F. if i_s_magic (f_inode F) = TMPFS_MAGIC then null_uuid else i_s_uuid (f_inode F)"
  have len: "length (i_s_id (f_inode F)) = length (i_s_id (f_inode G))"
    "length (?uuid F) = length (?uuid G)"
    "length (f_digest F) = length (f_digest G)"
    using assms by (simp_all add: file_ok_def null_uuid_def)
  show ?thesis
  proof (cases "hs_size (p_pathname (f_path F)) = hs_size (p_pathname (f_path G))")
    case True
    then have "length (hs_chars (p_pathname (f_path F))) = length (hs_chars (p_pathname (f_path G)))"
      by (simp add: hs_size_def)
    with len show ?thesis
      by (auto simp: file_parts_def file_view_def Let_def append_eq_parts hs_size_def
          simp del: append_eq_append_conv)
  next
    case False
    then have "hs_chars (p_pathname (f_path F)) \<noteq> hs_chars (p_pathname (f_path G))"
      by (auto simp: hs_size_def)
    with False len assms show ?thesis
      by (auto simp: file_parts_def file_view_def Let_def append_eq_parts of_nat_u32_eq file_ok_def
          simp del: append_eq_append_conv)
  qed
qed

lemma file_parts_length: "file_ok F \<Longrightarrow> length (concat (file_parts F)) = 102 + hs_size (p_pathname (f_path F))"
  by (simp add: file_parts_def file_ok_def Let_def null_uuid_def hs_size_def)

text \<open>The message of a connection: the family decides what follows the socket.\<close>

definition sock_ok :: "sock \<Rightarrow> bool" where
  "sock_ok k \<longleftrightarrow> length (k_owner k) = IDSIZE"

lemma sock_parts_eq_iff:
  assumes "sock_ok k" "sock_ok l"
  shows "concat (sock_parts k) @ us = concat (sock_parts l) @ vs \<longleftrightarrow> k = l \<and> us = vs"
  using assms
  by (cases k; cases l) (auto simp: sock_parts_def sock_ok_def append_eq_parts simp del: append_eq_append_conv)

definition connect_view :: "socket_connect_parameters \<Rightarrow> sock \<times> u16 \<times> byte list \<times> u32 \<times> u32" where
  "connect_view c =
     (let family = k_family (cn_sock c); u = cn_u c in
      if family = AF_INET then (cn_sock c, cn_port c, take 4 u, 0, 0)
      else if family = AF_INET6 then (cn_sock c, cn_port c, take 16 u, cn_flow c, cn_scope c)
      else if family = AF_UNIX then (cn_sock c, 0, cstring u, 0, 0)
      else (cn_sock c, 0, take 8 u, 0, 0))"

lemma connect_parts_eq_iff:
  assumes "sock_ok (cn_sock c)" "sock_ok (cn_sock d)" "length (cn_u c) = 112" "length (cn_u d) = 112"
    and "connect_parts c = Some ps" "connect_parts d = Some qs"
  shows "concat ps = concat qs \<longleftrightarrow> connect_view c = connect_view d"
proof -
  have ports: "length (concat [u16_bytes (cn_port c)]) = length (concat [u16_bytes (cn_port d)])"
    by simp
  obtain xs where xs: "ps = sock_parts (cn_sock c) @ xs"
    using assms(5) by (auto simp: connect_parts_def Let_def)
  obtain ys where ys: "qs = sock_parts (cn_sock d) @ ys"
    using assms(6) by (auto simp: connect_parts_def Let_def)
  have "concat ps = concat qs \<longleftrightarrow> cn_sock c = cn_sock d \<and> concat xs = concat ys"
    using sock_parts_eq_iff [OF assms(1,2), of "concat xs" "concat ys"] xs ys by simp
  also have "\<dots> \<longleftrightarrow> connect_view c = connect_view d"
    using assms(3-6) xs ys
    by (auto simp: connect_parts_def connect_view_def Let_def append_eq_parts unix_name_def
        simp del: append_eq_append_conv split: if_splits)
  finally show ?thesis .
qed

end
