(* ===== verification/CellFormat.thy ===== *)
theory CellFormat
  imports Cell
begin

text \<open>
  The JSON form of a cell (the \<open>_format_\<close> functions of \<open>SecurityModel/Cell.c\<close>).  A
  function appends pieces of text to a \<open>String\<close>; a piece that the C library has no
  defined conversion for (a NULL pointer or a text without its end for \<open>%s\<close>, a pointer
  for \<open>%u\<close>) is \<open>None\<close>.
\<close>

section \<open>Pieces of text\<close>

type_synonym piece = "string option"

fun add_piece :: "piece \<Rightarrow> hstr \<Rightarrow> (unit, hstr) res" where
  "add_piece None str = Undef"
| "add_piece (Some t) str = hs_add t str"

definition add_pieces :: "piece list \<Rightarrow> hstr \<Rightarrow> (unit, hstr) res" where
  "add_pieces ps = steps (map add_piece ps)"

text \<open>\<open>for (lp= 0; lp < size; ++lp) str->add_sprintf(str, "%02x", p[lp])\<close>\<close>

definition hex_pieces :: "byte list \<Rightarrow> piece list" where
  "hex_pieces bs = map (\<lambda>b. Some (sprint_02x b)) bs"

text \<open>\<open>%s\<close> of an array of characters: it must hold a NUL.\<close>

definition array_text :: "byte list \<Rightarrow> piece" where
  "array_text bs = (if NUL \<in> set bs then Some (cstring bs) else None)"

abbreviation dec32 :: "u32 \<Rightarrow> string" where
  "dec32 w \<equiv> sprint_u (unat w)"

section \<open>The event types\<close>

definition format_file :: "file_parameters \<Rightarrow> piece list" where
  "format_file fp =
     (let i = f_inode fp; p = f_path fp in
      [Some ''\"file\": {'',
       Some (''\"flags\": \"'' @ dec32 (f_flags fp) @ ''\", ''),
       map_option (\<lambda>s_id. ''\"inode\": {\"uid\": \"'' @ dec32 (i_uid i) @
         ''\", \"gid\": \"'' @ dec32 (i_gid i) @
         ''\", \"mode\": \"0'' @ sprint_o (unat (i_mode i)) @
         ''\", \"s_magic\": \"0x'' @ sprint_x (unat (i_s_magic i)) @
         ''\", \"s_id\": \"'' @ s_id @ ''\", \"s_uuid\": \"'') (array_text (i_s_id i))] @
      hex_pieces (i_s_uuid i) @
      [map_option (\<lambda>name. ''\"}, \"path\": {\"dev\": {\"major\": \"'' @ dec32 (p_major p) @
         ''\", \"minor\": \"'' @ dec32 (p_minor p) @
         ''\"}, \"pathname\": \"'' @ name @ ''\"}, \"digest\": \"'') (hs_get (p_pathname p))] @
      hex_pieces (f_digest fp) @
      [Some ''\"}''])"

definition format_file_open :: "Cell_State \<Rightarrow> piece list" where
  "format_file_open S =
     [Some ''\"file_open\": {''] @ format_file (ce_file S) @ [Some ''}'']"

definition format_mmap_file :: "Cell_State \<Rightarrow> piece list" where
  "format_mmap_file S =
     [Some ''\"mmap_file\": {''] @
     (if m_have_file (ce_mmap_file S) then format_file (ce_file S) @ [Some '', ''] else []) @
     [Some (''\"prot\": \"'' @ dec32 (m_prot (ce_mmap_file S)) @
        ''\", \"flags\": \"'' @ dec32 (m_flags (ce_mmap_file S)) @ ''\"}'')]"

definition format_sock :: "sock \<Rightarrow> piece list" where
  "format_sock sp =
     [Some (''\"sock\": {\"family\": \"'' @ dec32 (k_family sp) @
        ''\", \"type\": \"'' @ dec32 (k_type sp) @
        ''\", \"protocol\": \"'' @ dec32 (k_protocol sp) @ ''\", ''),
      Some ''\"owner\": \"''] @ hex_pieces (k_owner sp) @ [Some ''\"}'']"

definition format_socket_create :: "Cell_State \<Rightarrow> piece list" where
  "format_socket_create S =
     (let sp = ce_socket_create S in
      [Some (''\"socket_create\": {\"family\": \"'' @ dec32 (sc_family sp) @
         ''\", \"type\": \"'' @ dec32 (sc_type sp) @
         ''\", \"protocol\": \"'' @ dec32 (sc_protocol sp) @
         ''\", \"kern\": \"'' @ dec32 (sc_kern sp) @ ''\"}'')])"

text \<open>
  In the \<open>af_inet6\<close> branches a comma ends the format string early: the first argument that
  \<open>%u\<close> converts is a string constant.  In the default branch the format has no conversion
  at all, and the text behind the comma is not printed.
\<close>

definition format_socket_connect :: "Cell_State \<Rightarrow> piece list" where
  "format_socket_connect S =
     (let c = ce_socket_connect S; family = k_family (cn_sock c); u = cn_u c in
      [Some (''\"'' @ (if ce_type S = TSEM_SOCKET_CONNECT then ''socket_connect'' else ''socket_bind'') @
             ''\": {'')] @
      format_sock (cn_sock c) @
      [Some '', \"addr\": {''] @
      (if family = AF_INET then
         [Some (''\"af_inet\": {\"port\": \"'' @ sprint_u (unat (cn_port c)) @
            ''\", \"address\": \"'' @ sprint_u (le_value (take 4 u)) @ ''\"}'')]
       else if family = AF_INET6 then
         [None] @ hex_pieces (take 16 u) @ [Some ''\"'']
       else if family = AF_UNIX then
         [map_option (\<lambda>n. ''\"af_unix\": {\"address\": \"'' @ n @ ''\"'') (array_text u)]
       else
         [Some ''\"af_other\": {''] @ hex_pieces (take 32 u) @ [Some ''\"'']) @
      [Some ''}}}''])"

definition format_socket_accept :: "Cell_State \<Rightarrow> piece list" where
  "format_socket_accept S =
     (let a = ce_socket_accept S; family = k_family (ac_sock a); u = ac_u a in
      [Some (''\"socket_accept\": {\"family\": \"'' @ dec32 (k_family (ac_sock a)) @
         ''\", \"type\": \"'' @ dec32 (k_type (ac_sock a)) @
         ''\", \"port\": \"'' @ sprint_u (unat (ac_port a)) @ ''\"\"addr\": ''),
       Some ''\"socket_accept\": ''] @
      format_sock (ac_sock a) @
      [Some '', \"addr\": {''] @
      (if family = AF_INET then
         [Some (''\"af_inet\": {\"port\": \"'' @ sprint_u (unat (ac_port a)) @
            ''\", \"address\": \"'' @ sprint_u (le_value (take 4 u)) @ ''\"}''),
          Some (sprint_u (le_value (take 4 u)))]
       else if family = AF_INET6 then
         [None] @ hex_pieces (take 16 u) @ [Some ''\"'']
       else if family = AF_UNIX then
         [map_option (\<lambda>n. ''\"af_unix\": {\"address\": \"'' @ n @ ''\"'') (array_text u)]
       else
         [map_option (\<lambda>n. ''\"af_other\": {\"address\": \"'' @ n @ ''\"'') (array_text u)] @
         hex_pieces (take 32 u)) @
      [Some ''}}}''])"

definition format_task_kill :: "Cell_State \<Rightarrow> piece list" where
  "format_task_kill S =
     (let t = ce_task_kill S in
      [Some (''\"task_kill\": {\"cross\": \"'' @ dec32 (tk_cross_model t) @
         ''\", \"signal\": \"'' @ dec32 (tk_signal t) @ ''\", \"task_id\": '')] @
      hex_pieces (tk_task_id t) @ [Some ''}''])"

definition format_generic :: "Cell_State \<Rightarrow> piece list" where
  "format_generic S =
     [map_option (\<lambda>name. ''\"'' @ name @ ''\": {}'') (hs_get (ce_event S))]"

text \<open>Three of the functions also poison the cell when the text cannot be added.\<close>

definition Cell_format :: "Cell_State \<times> hstr \<Rightarrow> (unit, Cell_State \<times> hstr) res" where
  "Cell_format = (\<lambda>(S, event).
     (let type = ce_type S;
          put = (\<lambda>t. (S, t));
          poisoning = on_fail (\<lambda>(S, t). (cell_poison S, t))
      in if type = TSEM_FILE_OPEN
           then poisoning (zoom put (add_pieces (format_file_open S) event))
         else if type = TSEM_MMAP_FILE
           then poisoning (zoom put (add_pieces (format_mmap_file S) event))
         else if type = TSEM_SOCKET_CREATE
           then zoom put (add_pieces (format_socket_create S) event)
         else if type = TSEM_SOCKET_CONNECT \<or> type = TSEM_SOCKET_BIND
           then zoom put (add_pieces (format_socket_connect S) event)
         else if type = TSEM_SOCKET_ACCEPT
           then zoom put (add_pieces (format_socket_accept S) event)
         else if type = TSEM_TASK_KILL
           then poisoning (zoom put (add_pieces (format_task_kill S) event))
         else zoom put (add_pieces (format_generic S) event)))"

section \<open>The formatted text\<close>

fun join_pieces :: "piece list \<Rightarrow> string option" where
  "join_pieces [] = Some []"
| "join_pieces (p # ps) =
     (case (p, join_pieces ps) of (Some t, Some u) \<Rightarrow> Some (t @ u) | _ \<Rightarrow> None)"

definition cell_pieces :: "Cell_State \<Rightarrow> piece list" where
  "cell_pieces S =
     (let type = ce_type S
      in if type = TSEM_FILE_OPEN then format_file_open S
         else if type = TSEM_MMAP_FILE then format_mmap_file S
         else if type = TSEM_SOCKET_CREATE then format_socket_create S
         else if type = TSEM_SOCKET_CONNECT \<or> type = TSEM_SOCKET_BIND then format_socket_connect S
         else if type = TSEM_SOCKET_ACCEPT then format_socket_accept S
         else if type = TSEM_TASK_KILL then format_task_kill S
         else format_generic S)"

lemma add_pieces_text:
  "\<not> h_poisoned s \<Longrightarrow> ps \<noteq> [] \<Longrightarrow> add_pieces ps s =
     (case join_pieces ps of None \<Rightarrow> Undef | Some t \<Rightarrow> Ret () (hs_of (hs_chars s @ t)))"
proof (induction ps arbitrary: s)
  case (Cons p ps)
  show ?case
  proof (cases p)
    case (Some t)
    then have p: "add_piece p s = Ret () (hs_of (hs_chars s @ t))"
      using Cons.prems(1) by (simp add: hs_add_ok)
    show ?thesis
    proof (cases "ps = []")
      case True
      with p Some show ?thesis by (simp add: add_pieces_def)
    next
      case False
      with p Some Cons.IH [of "hs_of (hs_chars s @ t)"] show ?thesis
        by (simp add: add_pieces_def split: option.splits)
    qed
  qed (simp add: add_pieces_def)
qed simp

lemma cell_pieces_nonempty: "cell_pieces S \<noteq> []"
  by (auto simp: cell_pieces_def format_file_open_def format_mmap_file_def format_socket_create_def
      format_socket_connect_def format_socket_accept_def format_task_kill_def format_generic_def Let_def)

lemma Cell_format_text:
  assumes "\<not> h_poisoned event"
  shows "Cell_format (S, event) =
     (case join_pieces (cell_pieces S) of
        None \<Rightarrow> Undef
      | Some t \<Rightarrow> Ret () (S, hs_of (hs_chars event @ t)))"
proof -
  let ?r = "zoom (Pair S) (add_pieces (cell_pieces S) event)"
  have "Cell_format (S, event) =
          (if ce_type S \<in> {TSEM_FILE_OPEN, TSEM_MMAP_FILE, TSEM_TASK_KILL}
           then on_fail (\<lambda>(S, t). (cell_poison S, t)) ?r else ?r)"
    by (simp add: Cell_format_def cell_pieces_def Let_def)
  moreover have "on_fail (\<lambda>(S, t). (cell_poison S, t)) ?r = ?r"
    using add_pieces_text [OF assms cell_pieces_nonempty [of S]] by (simp split: option.splits)
  ultimately have "Cell_format (S, event) = ?r" by simp
  then show ?thesis
    using add_pieces_text [OF assms cell_pieces_nonempty [of S]] by (simp split: option.splits)
qed

lemma join_pieces_append:
  "join_pieces (ps @ qs) =
     (case (join_pieces ps, join_pieces qs) of (Some t, Some u) \<Rightarrow> Some (t @ u) | _ \<Rightarrow> None)"
  by (induction ps) (auto split: option.splits)

lemma join_hex_pieces [simp]: "join_pieces (hex_pieces bs) = Some (sprint_hex bs)"
  by (induction bs) (simp_all add: hex_pieces_def sprint_hex_def)

end
