(* ===== verification/SecurityEvent.thy ===== *)
theory SecurityEvent
  imports COE CellMeasure CellFormat
begin

text \<open>
  A security event (\<open>SecurityModel/SecurityEvent.c\<close>): the context of execution and the
  cell that an event description is parsed into, and the digest that identifies the
  event.
\<close>

section \<open>State\<close>

definition TSEM_name :: "string list" where
  "TSEM_name =
     [''undefined'', ''bprm_committed_creds'', ''task_kill'', ''task_setpgid'',
      ''task_getpgid'', ''task_getsid'', ''task_setnice'', ''task_setioprio'',
      ''task_getioprio'', ''task_prlimit'', ''task_setrlimit'', ''task_setscheduler'',
      ''task_getscheduler'', ''task_prctl'', ''file_open'', ''mmap_file'', ''file_ioctl'',
      ''file_lock'', ''file_fcntl'', ''file_receive'', ''unix_stream_connect'',
      ''unix_may_send'', ''socket_create'', ''socket_connect'', ''socket_bind'',
      ''socket_accept'', ''socket_listen'', ''socket_socketpair'', ''socket_sendmsg'',
      ''socket_recvmsg'', ''socket_getsockname'', ''socket_getpeername'',
      ''socket_setsockopt'', ''socket_shutdown'', ''ptrace_traceme'',
      ''kernel_module_request'', ''kernel_load_data'', ''kernel_read_file'', ''sb_mount'',
      ''sb_umount'', ''sb_remount'', ''sb_pivotroot'', ''sb_statfs'', ''move_mount'',
      ''shm_associate'', ''shm_shmctl'', ''shm_shmat'', ''sem_associate'', ''sem_semctl'',
      ''sem_semop'', ''syslog'', ''settime'', ''quotactl'', ''quota_on'',
      ''msg_queue_associate'', ''msg_queue_msgctl'', ''msg_queue_msgsnd'',
      ''msg_queue_msgrcv'', ''ipc_permission'', ''key_alloc'', ''key_permission'',
      ''netlink_send'', ''inode_create'', ''inode_link'', ''inode_unlink'', ''inode_symlink'',
      ''inode_mkdir'', ''inode_rmdir'', ''inode_mknod'', ''inode_rename'', ''inode_setattr'',
      ''inode_getattr'', ''inode_setxattr'', ''inode_getxattr'', ''inode_listxattr'',
      ''inode_removexattr'', ''inode_killpriv'', ''tun_dev_create'', ''tun_dev_attach_queue'',
      ''tun_dev_attach'', ''tun_dev_open'', ''bpf'', ''bpf_map'', ''bpf_prog'',
      ''ptrace_access_check'', ''capable'', ''capget'', ''capset'']"

record SecurityEvent_State =
  se_poisoned :: bool
  se_type :: nat
  se_pid :: u32
  se_event :: hstr
  se_task_id :: hstr
  se_coe :: COE_State
  se_cell :: Cell_State
  se_identity :: Sha256_State

definition SecurityEvent_Init :: "Cell_State \<Rightarrow> SecurityEvent_State" where
  "SecurityEvent_Init junk =
     \<lparr>se_poisoned = False, se_type = 0, se_pid = 0, se_event = hs_empty, se_task_id = hs_empty,
      se_coe = COE_Init, se_cell = Cell_Init junk, se_identity = Sha256_Init\<rparr>"

definition event_poison :: "SecurityEvent_State \<Rightarrow> SecurityEvent_State" where
  "event_poison S = S\<lparr>se_poisoned := True\<rparr>"

section \<open>Parsing\<close>

text \<open>The loop over the table: the index of the first entry with the name.\<close>

fun find_type :: "string list \<Rightarrow> nat \<Rightarrow> string \<Rightarrow> nat option" where
  "find_type [] lp str = None"
| "find_type (name # names) lp str = (if name = str then Some lp else find_type names (lp + 1) str)"

type_synonym event_frame = "(SecurityEvent_State \<times> hstr) frame"

definition on_event :: "(SecurityEvent_State \<Rightarrow> SecurityEvent_State) \<Rightarrow> event_frame \<Rightarrow> event_frame" where
  "on_event f = frame_map (\<lambda>(S, en). (f S, en))"

definition SecurityEvent_parse_event :: "(event_frame \<Rightarrow> (unit, event_frame) res) list" where
  "SecurityEvent_parse_event =
     [\<lambda>((S, en), p, e). parse_field en ''event'' ((S, en), p, e),
      \<lambda>((S, en), p, e). zoom (\<lambda>t. ((S\<lparr>se_event := t\<rparr>, en), p, e)) (TSEMparser_get_field p (se_event S)),
      parse_local_text ''type'' (\<lambda>str fr.
        (case hs_get str of
           None \<Rightarrow> Undef
         | Some t \<Rightarrow> Ret () (case find_type TSEM_name 0 t of
                              None \<Rightarrow> fr
                            | Some lp \<Rightarrow> on_event (\<lambda>S. S\<lparr>se_type := lp\<rparr>) fr))),
      fail_if (\<lambda>((S, en), p, e). se_type S = 0),
      parse_text (Some ''task_id'') (\<lambda>(S, en). se_task_id S) (\<lambda>(S, en) t. (S\<lparr>se_task_id := t\<rparr>, en))]"

definition SecurityEvent_parse_pid :: "event_frame \<Rightarrow> (unit, event_frame) res" where
  "SecurityEvent_parse_pid =
     parse_has_key ''pid'' (\<lambda>has.
       if \<not> has then Ret ()
       else parse_integer ''pid'' (\<lambda>vl. steps
         [fail_if (\<lambda>_. unat vl > 2 ^ 32 - 1),
          assign (on_event (\<lambda>S. S\<lparr>se_pid := ucast vl\<rparr>))]))"

definition SecurityEvent_parse ::
  "(SecurityEvent_State \<times> hstr) \<times> int \<Rightarrow> (unit, (SecurityEvent_State \<times> hstr) \<times> int) res" where
  "SecurityEvent_parse fr =
     on_fail (\<lambda>((S, en), e). ((event_poison S, en), e))
       (steps
          [fail_if (\<lambda>((S, en), e). se_poisoned S),
           fail_if (\<lambda>((S, en), e). h_poisoned en),
           with_parser (SecurityEvent_parse_event @ [SecurityEvent_parse_pid]),
           (\<lambda>((S, en), e).
              zoom (\<lambda>(c, e). ((S\<lparr>se_coe := c\<rparr>, en), e)) (COE_parse en (se_coe S, e))),
           (\<lambda>((S, en), e).
              zoom (\<lambda>((c, en), e). ((S\<lparr>se_cell := c\<rparr>, en), e))
                (Cell_parse (se_type S) ((se_cell S, en), e)))] fr)"

section \<open>Measurement\<close>

text \<open>The state of the object and the local buffer.\<close>

definition SecurityEvent_measure ::
  "(byte list \<Rightarrow> byte list) \<Rightarrow> SecurityEvent_State \<Rightarrow> (unit, SecurityEvent_State) res" where
  "SecurityEvent_measure sha S =
     on_fail event_poison
       (zoom fst
          (steps
             [fail_if (\<lambda>(S, b). se_poisoned S),
              (\<lambda>(S, b). zoom (\<lambda>c. (S\<lparr>se_coe := c\<rparr>, b)) (COE_measure sha (se_coe S))),
              (\<lambda>(S, b). zoom (\<lambda>c. (S\<lparr>se_cell := c\<rparr>, b)) (Cell_measure sha (se_cell S))),
              (\<lambda>(S, b). if se_type S < length TSEM_name
                        then zoom (\<lambda>b. (S, b)) (buf_add (TSEM_name ! se_type S) b) else Undef),
              (\<lambda>(S, b). zoom (\<lambda>b. (S, b)) (buf_add_hexstring (hs_get (se_task_id S)) b)),
              (\<lambda>(S, b). zoom (\<lambda>(c, b). (S\<lparr>se_coe := c\<rparr>, b)) (COE_get_measurement (se_coe S, b))),
              (\<lambda>(S, b). zoom (\<lambda>(c, b). (S\<lparr>se_cell := c\<rparr>, b)) (Cell_get_measurement (se_cell S, b))),
              attempt (\<lambda>(S, b). zoom (\<lambda>i. (S\<lparr>se_identity := i\<rparr>, b)) (Sha256_add b (se_identity S))),
              (\<lambda>(S, b). zoom (\<lambda>i. (S\<lparr>se_identity := i\<rparr>, b)) (Sha256_compute sha (se_identity S)))]
             (S, buf_empty)))"

text \<open>
  \<open>ZERO_LENGTH_FILE\<close> is the hexadecimal form of the digest of the empty file.  The result
  of \<open>set_digest\<close> is ignored.  A comparison may poison the pseudonym it is asked of.
\<close>

definition ZERO_LENGTH_FILE :: string where
  "ZERO_LENGTH_FILE = ''e3b0c44298fc1c149afbf4c8996fb92427ae41e4649b934ca495991b7852b855''"

definition SecurityEvent_evaluate_pseudonym ::
  "(byte list \<Rightarrow> byte list) \<Rightarrow> SecurityEvent_State \<times> buf \<Rightarrow> (unit, SecurityEvent_State \<times> buf) res" where
  "SecurityEvent_evaluate_pseudonym sha = (\<lambda>(S, pseudonym).
     on_fail (\<lambda>(S, p). (event_poison S, p))
       (if se_poisoned S then Fail (S, pseudonym)
        else
          (case Cell_get_pseudonym sha (se_cell S, buf_empty) of
             Undef \<Rightarrow> Undef
           | Fail (c, b) \<Rightarrow> Fail (S\<lparr>se_cell := c\<rparr>, pseudonym)
           | Ret _ (c, b) \<Rightarrow>
               let (same, pseudonym1) = buf_equal b pseudonym
               in if \<not> same then Ret () (S\<lparr>se_cell := c\<rparr>, pseudonym1)
                  else
                    (case buf_add_hexstring (Some ZERO_LENGTH_FILE) (buf_reset b) of
                       Undef \<Rightarrow> Undef
                     | Fail _ \<Rightarrow> Fail (S\<lparr>se_cell := c\<rparr>, pseudonym1)
                     | Ret _ b2 \<Rightarrow>
                         zoom (\<lambda>c. (S\<lparr>se_cell := c\<rparr>, pseudonym1)) (attempt (Cell_set_digest b2) c)))))"

section \<open>Accessors\<close>

text \<open>Without a computed digest \<open>get_Buffer\<close> returns NULL, which \<open>add_Buffer\<close> dereferences.\<close>

definition SecurityEvent_get_identity ::
  "SecurityEvent_State \<times> buf \<Rightarrow> (unit, SecurityEvent_State \<times> buf) res" where
  "SecurityEvent_get_identity = (\<lambda>(S, bufr).
     on_fail (\<lambda>(S, bufr). (event_poison S, bufr))
       (if se_poisoned S then Fail (S, bufr)
        else
          (case Sha256_get_Buffer (se_identity S) of
             (None, _) \<Rightarrow> Undef
           | (Some d, i) \<Rightarrow>
               if b_poisoned d then Fail (S\<lparr>se_identity := i\<rparr>, bufr)
               else zoom (\<lambda>b. (S\<lparr>se_identity := i\<rparr>, b)) (buf_add (b_data d) bufr))))"

definition SecurityEvent_get_event ::
  "SecurityEvent_State \<times> hstr \<Rightarrow> (unit, SecurityEvent_State \<times> hstr) res" where
  "SecurityEvent_get_event = (\<lambda>(S, event).
     on_fail (\<lambda>(S, event). (event_poison S, event))
       (if se_poisoned S then Fail (S, event)
        else if h_poisoned (se_event S) then Fail (S, event)
        else if h_poisoned event then Fail (S, event)
        else
          (case hs_get (se_event S) of
             None \<Rightarrow> Undef
           | Some t \<Rightarrow> zoom (\<lambda>t. (S, t)) (hs_add t event))))"

definition SecurityEvent_get_pid :: "SecurityEvent_State \<Rightarrow> u32 option" where
  "SecurityEvent_get_pid S = (if se_poisoned S then None else Some (se_pid S))"

definition SecurityEvent_format ::
  "SecurityEvent_State \<times> hstr \<Rightarrow> (unit, SecurityEvent_State \<times> hstr) res" where
  "SecurityEvent_format = steps
     [fail_if (\<lambda>(S, event). se_poisoned S),
      fail_if (\<lambda>(S, event). h_poisoned event),
      attempt (\<lambda>(S, event). zoom (\<lambda>t. (S, t)) (hs_add ''{\"event\": '' event)),
      (\<lambda>(S, event). case hs_get (se_event S) of
                      None \<Rightarrow> Undef
                    | Some t \<Rightarrow> attempt (\<lambda>(S, event). zoom (\<lambda>t. (S, t)) (hs_add t event)) (S, event)),
      attempt (\<lambda>(S, event). zoom (\<lambda>t. (S, t)) (hs_add '', '' event)),
      attempt (\<lambda>(S, event). zoom (\<lambda>(c, t). (S\<lparr>se_coe := c\<rparr>, t)) (COE_format (se_coe S, event))),
      attempt (\<lambda>(S, event). zoom (\<lambda>t. (S, t)) (hs_add '', '' event)),
      (\<lambda>(S, event). zoom (\<lambda>(c, t). (S\<lparr>se_cell := c\<rparr>, t)) (Cell_format (se_cell S, event))),
      attempt (\<lambda>(S, event). zoom (\<lambda>t. (S, t)) (hs_add ''}'' event))]"

text \<open>\<open>reset\<close> leaves the process id.\<close>

definition SecurityEvent_reset :: "SecurityEvent_State \<Rightarrow> SecurityEvent_State" where
  "SecurityEvent_reset S =
     S\<lparr>se_poisoned := False, se_type := 0, se_event := hs_reset (se_event S),
       se_task_id := hs_reset (se_task_id S), se_coe := COE_reset (se_coe S),
       se_cell := Cell_reset (se_cell S), se_identity := Sha256_reset (se_identity S)\<rparr>"

section \<open>What a measurement is\<close>

text \<open>An event that was parsed and not measured yet.\<close>

definition event_ready :: "SecurityEvent_State \<Rightarrow> bool" where
  "event_ready S \<longleftrightarrow> \<not> se_poisoned S \<and> se_type S < length TSEM_name \<and>
     coe_ready (se_coe S) \<and> cell_ready (se_cell S) \<and> sha_fresh (se_identity S)"

definition event_message ::
  "(byte list \<Rightarrow> byte list) \<Rightarrow> SecurityEvent_State \<Rightarrow> byte list option" where
  "event_message sha S =
     (case (hs_get (se_task_id S), cell_message (se_cell S)) of
        (Some tid, Some m) \<Rightarrow>
          if tid = [] then None
          else map_option (\<lambda>t. TSEM_name ! se_type S @ t @
                             sha (coe_message (coe_character (se_coe S))) @ sha m) (hex_decode tid)
      | _ \<Rightarrow> None)"

lemma hex_string_add:
  "t \<noteq> [] \<Longrightarrow> hex_decode t = Some bs \<Longrightarrow> \<not> b_poisoned b \<Longrightarrow>
   buf_add_hexstring (Some t) b = Ret () (b\<lparr>b_data := b_data b @ bs\<rparr>)"
  by (simp add: buf_add_hexstring_def)

lemma SecurityEvent_measure_ready:
  assumes ready: "event_ready S" and msg: "event_message sha S = Some m"
  shows "\<exists>T. SecurityEvent_measure sha S = Ret () T \<and> sha_holds (sha m) (se_identity T) \<and>
             \<not> se_poisoned T \<and> se_event T = se_event S \<and> se_pid T = se_pid S"
proof -
  obtain tid cm tb where tid: "hs_get (se_task_id S) = Some tid" "tid \<noteq> []" "hex_decode tid = Some tb"
    and cm: "cell_message (se_cell S) = Some cm"
    and m: "m = TSEM_name ! se_type S @ tb @ sha (coe_message (coe_character (se_coe S))) @ sha cm"
    using msg by (auto simp: event_message_def split: option.splits if_splits)
  obtain i where i: "COE_measure sha (se_coe S) = Ret () ((se_coe S)\<lparr>coe_identity := i, coe_measured := True\<rparr>)"
    "sha_holds (sha (coe_message (coe_character (se_coe S)))) i"
    using COE_measure_ready [of "se_coe S" sha] ready by (auto simp: event_ready_def)
  obtain j where j: "Cell_measure sha (se_cell S) = Ret () ((se_cell S)\<lparr>ce_identity := j, ce_measured := True\<rparr>)"
    "sha_holds (sha cm) j"
    using Cell_measure_ready [OF _ cm] ready by (auto simp: event_ready_def)
  define c where "c = (se_coe S)\<lparr>coe_identity := i, coe_measured := True\<rparr>"
  define d where "d = (se_cell S)\<lparr>ce_identity := j, ce_measured := True\<rparr>"
  have c: "\<not> coe_poisoned c" "coe_measured c" "sha_holds (sha (coe_message (coe_character (se_coe S)))) (coe_identity c)"
    using ready i(2) by (simp_all add: c_def event_ready_def coe_ready_def)
  have d: "\<not> ce_poisoned d" "ce_measured d" "sha_holds (sha cm) (ce_identity d)"
    using ready j(2) by (simp_all add: d_def event_ready_def cell_ready_def)
  let ?b = "\<lparr>b_poisoned = False, b_data = m\<rparr>"
  obtain k where k: "res_bind (Sha256_add ?b (se_identity S)) (\<lambda>_. Sha256_compute sha) = Ret () k"
    "sha_holds (sha m) k"
    using Sha256_digest [of "se_identity S" ?b sha] ready by (auto simp: event_ready_def)
  then obtain l where l: "Sha256_add ?b (se_identity S) = Ret () l" "Sha256_compute sha l = Ret () k"
    by (auto simp: res_simps)
  have "SecurityEvent_measure sha S = Ret () (S\<lparr>se_coe := c, se_cell := d, se_identity := k\<rparr>)"
    using ready tid i(1) j(1) c d l m
    by (simp add: SecurityEvent_measure_def event_ready_def c_def [symmetric] d_def [symmetric]
        buf_empty_def buf_add_def hex_string_add COE_get_measurement_holds Cell_get_measurement_holds)
  with k(2) ready show ?thesis by (simp add: event_ready_def)
qed

lemma SecurityEvent_get_identity_holds:
  assumes "\<not> se_poisoned S" "sha_holds d (se_identity S)" "\<not> b_poisoned bufr"
  shows "SecurityEvent_get_identity (S, bufr) = Ret () (S, bufr\<lparr>b_data := b_data bufr @ d\<rparr>)"
  using assms by (simp add: SecurityEvent_get_identity_def Sha256_get_Buffer_holds buf_add_def)

end
