(* ===== verification/HGaggle.thy ===== *)
theory HGaggle
  imports Prelude
begin

text \<open>
  HurdLib's \<open>Gaggle\<close> object (\<open>Gaggle.c\<close>): an array of objects with a read cursor.  The
  C code stores the object pointers in a \<open>Buffer\<close>; the model keeps the objects.  An
  addition fails only when the \<open>Gaggle\<close> is poisoned (or memory is exhausted, which is
  outside of the model).
\<close>

section \<open>State and operations\<close>

record 'a Gaggle_State =
  gg_poisoned :: bool
  gg_size :: nat
  gg_cursor :: nat
  gg_objects :: "'a list"

definition Gaggle_Init :: "'a Gaggle_State" where
  "Gaggle_Init = \<lparr>gg_poisoned = False, gg_size = 0, gg_cursor = 0, gg_objects = []\<rparr>"

definition Gaggle_add :: "'a \<Rightarrow> 'a Gaggle_State \<Rightarrow> (unit, 'a Gaggle_State) res" where
  "Gaggle_add x S =
     (if gg_poisoned S then Fail S
      else Ret () (S\<lparr>gg_objects := gg_objects S @ [x], gg_size := gg_size S + 1\<rparr>))"

text \<open>\<open>get\<close> returns the object under the cursor, or NULL at the end of the pack.\<close>

definition Gaggle_get :: "'a Gaggle_State \<Rightarrow> 'a option \<times> 'a Gaggle_State" where
  "Gaggle_get S =
     (if gg_poisoned S then (None, S)
      else if gg_size S = 0 then (None, S)
      else if gg_cursor S \<ge> gg_size S then (None, S)
      else (Some (gg_objects S ! gg_cursor S), S\<lparr>gg_cursor := gg_cursor S + 1\<rparr>))"

definition Gaggle_size :: "'a Gaggle_State \<Rightarrow> nat" where
  "Gaggle_size S = (if gg_poisoned S then 0 else gg_size S)"

definition Gaggle_rewind_cursor :: "'a Gaggle_State \<Rightarrow> 'a Gaggle_State" where
  "Gaggle_rewind_cursor S = S\<lparr>gg_cursor := 0\<rparr>"

text \<open>
  The objects are shared: a client that got an object mutates it in place.  This is the
  update of the object that the last \<open>get\<close> returned.
\<close>

definition Gaggle_mutate_last :: "'a \<Rightarrow> 'a Gaggle_State \<Rightarrow> 'a Gaggle_State" where
  "Gaggle_mutate_last x S = S\<lparr>gg_objects := (gg_objects S)[gg_cursor S - 1 := x]\<rparr>"

section \<open>Properties\<close>

definition gaggle_ok :: "'a Gaggle_State \<Rightarrow> bool" where
  "gaggle_ok S \<longleftrightarrow> \<not> gg_poisoned S \<and> gg_size S = length (gg_objects S)"

definition gaggle_of :: "'a list \<Rightarrow> nat \<Rightarrow> 'a Gaggle_State" where
  "gaggle_of xs c = \<lparr>gg_poisoned = False, gg_size = length xs, gg_cursor = c, gg_objects = xs\<rparr>"

lemma gaggle_ok_iff: "gaggle_ok S \<longleftrightarrow> (\<exists>xs c. S = gaggle_of xs c)"
  by (cases S) (auto simp: gaggle_ok_def gaggle_of_def)

lemma gaggle_of_simps [simp]:
  "gg_poisoned (gaggle_of xs c) = False" "gg_size (gaggle_of xs c) = length xs"
  "gg_cursor (gaggle_of xs c) = c" "gg_objects (gaggle_of xs c) = xs"
  by (simp_all add: gaggle_of_def)

lemma gaggle_of_eq_iff [simp]: "gaggle_of xs c = gaggle_of ys d \<longleftrightarrow> xs = ys \<and> c = d"
  by (auto simp: gaggle_of_def)

lemma Gaggle_Init_of: "Gaggle_Init = gaggle_of [] 0"
  by (simp add: Gaggle_Init_def gaggle_of_def)

lemma Gaggle_ops_of [simp]:
  "Gaggle_add x (gaggle_of xs c) = Ret () (gaggle_of (xs @ [x]) c)"
  "Gaggle_size (gaggle_of xs c) = length xs"
  "Gaggle_rewind_cursor (gaggle_of xs c) = gaggle_of xs 0"
  "Gaggle_mutate_last x (gaggle_of xs c) = gaggle_of (xs[c - 1 := x]) c"
  by (simp_all add: Gaggle_add_def Gaggle_size_def Gaggle_rewind_cursor_def
      Gaggle_mutate_last_def gaggle_of_def)

lemma Gaggle_get_of:
  "Gaggle_get (gaggle_of xs c) =
     (if c < length xs then (Some (xs ! c), gaggle_of xs (Suc c)) else (None, gaggle_of xs c))"
  by (auto simp: Gaggle_get_def gaggle_of_def)

text \<open>Reading until NULL from a rewound cursor: every object once, in the order of addition.\<close>

fun Gaggle_drain :: "nat \<Rightarrow> 'a Gaggle_State \<Rightarrow> 'a list \<times> 'a Gaggle_State" where
  "Gaggle_drain 0 S = ([], S)"
| "Gaggle_drain (Suc n) S =
     (case Gaggle_get S of
        (None, T) \<Rightarrow> ([], T)
      | (Some x, T) \<Rightarrow> (case Gaggle_drain n T of (xs, U) \<Rightarrow> (x # xs, U)))"

lemma Gaggle_drain_from:
  "length xs - c \<le> n \<Longrightarrow> fst (Gaggle_drain n (gaggle_of xs c)) = drop c xs"
proof (induction n arbitrary: c)
  case 0
  then show ?case by simp
next
  case (Suc n)
  show ?case
  proof (cases "c < length xs")
    case True
    then have "drop c xs = xs ! c # drop (Suc c) xs" by (rule Cons_nth_drop_Suc [symmetric])
    with True Suc show ?thesis by (simp add: Gaggle_get_of case_prod_beta)
  next
    case False
    then show ?thesis by (simp add: Gaggle_get_of)
  qed
qed

section \<open>The interface of an ordered collection\<close>

text \<open>What the models rely on: additions go to the end and a traversal returns them all.\<close>

locale ordered_collection =
  fixes add :: "'a \<Rightarrow> 's \<Rightarrow> (unit, 's) res"
    and rewind :: "'s \<Rightarrow> 's"
    and drain :: "nat \<Rightarrow> 's \<Rightarrow> 'a list \<times> 's"
    and elems :: "'s \<Rightarrow> 'a list"
    and ok :: "'s \<Rightarrow> bool"
  assumes add_end: "ok s \<Longrightarrow> \<exists>t. add x s = Ret () t \<and> ok t \<and> elems t = elems s @ [x]"
    and rewind_keeps: "ok s \<Longrightarrow> ok (rewind s) \<and> elems (rewind s) = elems s"
    and drain_all: "ok s \<Longrightarrow> fst (drain (length (elems s)) (rewind s)) = elems s"
begin

lemma add_many:
  assumes "ok s"
  shows "\<exists>t. steps (map add xs) s = Ret () t \<and> ok t \<and> elems t = elems s @ xs"
  using assms
proof (induction xs arbitrary: s)
  case Nil
  then show ?case by simp
next
  case (Cons x xs)
  from add_end [OF Cons.prems, of x] obtain t where
    "add x s = Ret () t" "ok t" "elems t = elems s @ [x]" by blast
  with Cons.IH [of t] show ?case by auto
qed

lemma traversal_after_adds:
  assumes "ok s" and "steps (map add xs) s = Ret () t"
  shows "fst (drain (length (elems s @ xs)) (rewind t)) = elems s @ xs"
  using add_many [OF assms(1), of xs] assms(2) drain_all [of t] by auto

end

interpretation gaggle:
  ordered_collection Gaggle_add Gaggle_rewind_cursor Gaggle_drain gg_objects gaggle_ok
  by unfold_locales (auto simp: gaggle_ok_iff Gaggle_drain_from)

end
