(* ===== verification/EventModel.thy ===== *)
theory EventModel
  imports SecurityEvent HGaggle
begin

text \<open>
  The event model (\<open>SecurityModel/EventModel.c\<close>): the list of pseudonyms, the digests of the
  path names whose files are measured as if they were empty.  The list is created by the
  first \<open>add_pseudonym\<close>; before that it is a NULL pointer, which \<open>evaluate\<close> does not test.
\<close>

section \<open>State and operations\<close>

record EventModel_State =
  em_poisoned :: bool
  em_pseudonyms :: "buf Gaggle_State option"

definition EventModel_Init :: EventModel_State where
  "EventModel_Init = \<lparr>em_poisoned = False, em_pseudonyms = None\<rparr>"

definition model_poison :: "EventModel_State \<Rightarrow> EventModel_State" where
  "model_poison S = S\<lparr>em_poisoned := True\<rparr>"

definition EventModel_add_pseudonym :: "buf \<Rightarrow> EventModel_State \<Rightarrow> (unit, EventModel_State) res" where
  "EventModel_add_pseudonym pseudonym S =
     on_fail model_poison
       (if em_poisoned S then Fail S
        else if b_poisoned pseudonym then Fail S
        else
          (case buf_add (b_data pseudonym) buf_empty of
             Undef \<Rightarrow> Undef
           | Fail _ \<Rightarrow> Fail S
           | Ret _ bufr \<Rightarrow>
               let g = (case em_pseudonyms S of None \<Rightarrow> Gaggle_Init | Some g \<Rightarrow> g)
               in zoom (\<lambda>g. S\<lparr>em_pseudonyms := Some g\<rparr>) (Gaggle_add bufr g)))"

text \<open>The loop over the pseudonyms; \<open>evaluate_pseudonym\<close> works on the listed object itself.\<close>

fun evaluate_loop ::
  "(byte list \<Rightarrow> byte list) \<Rightarrow> nat \<Rightarrow> buf Gaggle_State \<times> SecurityEvent_State \<Rightarrow>
   (unit, buf Gaggle_State \<times> SecurityEvent_State) res" where
  "evaluate_loop sha 0 (g, event) = Ret () (g, event)"
| "evaluate_loop sha (Suc cnt) (g, event) =
     (case Gaggle_get g of
        (None, _) \<Rightarrow> Undef
      | (Some pseudonym, g1) \<Rightarrow>
          (case SecurityEvent_evaluate_pseudonym sha (event, pseudonym) of
             Ret _ (event1, p) \<Rightarrow> evaluate_loop sha cnt (Gaggle_mutate_last p g1, event1)
           | Fail (event1, p) \<Rightarrow> Fail (Gaggle_mutate_last p g1, event1)
           | Undef \<Rightarrow> Undef))"

definition EventModel_evaluate_pseudonyms ::
  "(byte list \<Rightarrow> byte list) \<Rightarrow> buf Gaggle_State \<times> SecurityEvent_State \<Rightarrow>
   (unit, buf Gaggle_State \<times> SecurityEvent_State) res" where
  "EventModel_evaluate_pseudonyms sha = (\<lambda>(g, event).
     if Gaggle_size g = 0 then Ret () (g, event)
     else evaluate_loop sha (Gaggle_size g) (Gaggle_rewind_cursor g, event))"

definition EventModel_evaluate ::
  "(byte list \<Rightarrow> byte list) \<Rightarrow> EventModel_State \<times> SecurityEvent_State \<Rightarrow>
   (unit, EventModel_State \<times> SecurityEvent_State) res" where
  "EventModel_evaluate sha = (\<lambda>(S, event).
     on_fail (\<lambda>(S, event). (model_poison S, event))
       (if em_poisoned S then Fail (S, event)
        else
          (case em_pseudonyms S of
             None \<Rightarrow> Undef
           | Some g \<Rightarrow> zoom (\<lambda>(g, event). (S\<lparr>em_pseudonyms := Some g\<rparr>, event))
                        (EventModel_evaluate_pseudonyms sha (g, event)))))"

section \<open>The effect of the pseudonyms\<close>

lemma hex_ZERO_LENGTH_FILE: "hex_decode ZERO_LENGTH_FILE = Some zero_message"
  by code_simp

lemma length_zero_message [simp]: "length zero_message = IDSIZE"
  by (simp add: zero_message_def)

definition event_path :: "SecurityEvent_State \<Rightarrow> string option" where
  "event_path S = hs_get (p_pathname (f_path (ce_file (se_cell S))))"

definition with_digest :: "byte list \<Rightarrow> SecurityEvent_State \<Rightarrow> SecurityEvent_State" where
  "with_digest d S = S\<lparr>se_cell := on_file (\<lambda>F. F\<lparr>f_digest := d\<rparr>) (se_cell S)\<rparr>"

definition event_ok :: "SecurityEvent_State \<Rightarrow> bool" where
  "event_ok S \<longleftrightarrow> \<not> se_poisoned S \<and> \<not> ce_poisoned (se_cell S) \<and>
                 length (f_digest (ce_file (se_cell S))) = IDSIZE"

lemma with_digest_simps [simp]:
  "event_path (with_digest d S) = event_path S"
  "length d = IDSIZE \<Longrightarrow> event_ok S \<Longrightarrow> event_ok (with_digest d S)"
  "with_digest d (with_digest e S) = with_digest d S"
  by (simp_all add: event_path_def with_digest_def event_ok_def)

lemma evaluate_pseudonym_ok:
  assumes "event_ok S" "event_path S = Some name" "\<not> b_poisoned p"
  shows "SecurityEvent_evaluate_pseudonym sha (S, p) =
           Ret () (if b_data p = pseudonym_of sha name then with_digest zero_message S else S, p)"
proof -
  let ?d = "\<lparr>b_poisoned = False, b_data = pseudonym_of sha name\<rparr>"
  have get: "Cell_get_pseudonym sha (se_cell S, buf_empty) = Ret () (se_cell S, ?d)"
    using Cell_get_pseudonym_name [of "se_cell S" buf_empty name sha] assms
    by (simp add: event_ok_def event_path_def buf_empty_def)
  have zero: "buf_add_hexstring (Some ZERO_LENGTH_FILE) (buf_reset ?d) =
                Ret () \<lparr>b_poisoned = False, b_data = zero_message\<rparr>"
    using hex_string_add [OF _ hex_ZERO_LENGTH_FILE] by (simp add: buf_reset_def ZERO_LENGTH_FILE_def)
  have "Cell_set_digest \<lparr>b_poisoned = False, b_data = zero_message\<rparr> (se_cell S) =
          Ret () (on_file (\<lambda>F. F\<lparr>f_digest := zero_message\<rparr>) (se_cell S))"
    using assms(1) Cell_set_digest_ok [of "se_cell S" "\<lparr>b_poisoned = False, b_data = zero_message\<rparr>"]
    by (simp add: event_ok_def)
  with assms get zero show ?thesis
    by (simp add: SecurityEvent_evaluate_pseudonym_def event_ok_def buf_equal_def with_digest_def
        del: attempt.simps) (simp)
qed

lemma evaluate_pseudonym_nameless:
  assumes "event_ok S" "event_path S = None" "\<not> b_poisoned p" "b_data p \<noteq> []"
  shows "SecurityEvent_evaluate_pseudonym sha (S, p) = Ret () (S, p)"
  using assms
  by (simp add: SecurityEvent_evaluate_pseudonym_def event_ok_def event_path_def Cell_get_pseudonym_def
      buf_empty_def buf_equal_def)

text \<open>A list of healthy pseudonyms and a cursor in it.\<close>

lemma evaluate_loop_ok:
  assumes "event_ok S" "event_path S = Some name" "\<forall>p \<in> set ps. \<not> b_poisoned p" "n + c = length ps"
  shows "evaluate_loop sha n (gaggle_of ps c, S) =
           Ret () (gaggle_of ps (length ps),
                   if pseudonym_of sha name \<in> b_data ` set (drop c ps) then with_digest zero_message S else S)"
  using assms
proof (induction n arbitrary: c S)
  case 0
  then show ?case by simp
next
  case (Suc n)
  then have c: "c < length ps" by simp
  let ?S = "if b_data (ps ! c) = pseudonym_of sha name then with_digest zero_message S else S"
  have S1: "event_ok ?S" "event_path ?S = Some name" using Suc.prems by simp_all
  have "\<not> b_poisoned (ps ! c)" using Suc.prems(3) c by simp
  then have ev: "SecurityEvent_evaluate_pseudonym sha (S, ps ! c) = Ret () (?S, ps ! c)"
    using evaluate_pseudonym_ok Suc.prems(1,2) by simp
  have "Gaggle_get (gaggle_of ps c) = (Some (ps ! c), gaggle_of ps (c + 1))"
    using c by (simp add: Gaggle_get_of)
  then have "evaluate_loop sha (Suc n) (gaggle_of ps c, S) = evaluate_loop sha n (gaggle_of ps (c + 1), ?S)"
    using ev by (simp del: if_split)
  also have "\<dots> = Ret () (gaggle_of ps (length ps),
      if pseudonym_of sha name \<in> b_data ` set (drop (c + 1) ps) then with_digest zero_message ?S else ?S)"
    using Suc.IH [OF S1 Suc.prems(3)] Suc.prems(4) by simp
  also have "\<dots> = Ret () (gaggle_of ps (length ps),
      if pseudonym_of sha name \<in> b_data ` set (drop c ps) then with_digest zero_message S else S)"
    using c by (simp add: Cons_nth_drop_Suc [symmetric])
  finally show ?case .
qed

lemma EventModel_evaluate_ok:
  assumes "\<not> em_poisoned M" "em_pseudonyms M = Some (gaggle_of ps c)" "\<forall>p \<in> set ps. \<not> b_poisoned p"
    and "event_ok S" "event_path S = Some name"
  shows "\<exists>c'. EventModel_evaluate sha (M, S) =
           Ret () (M\<lparr>em_pseudonyms := Some (gaggle_of ps c')\<rparr>,
                   if pseudonym_of sha name \<in> b_data ` set ps then with_digest zero_message S else S)"
proof (cases "ps = []")
  case True
  with assms show ?thesis
    by (auto simp: EventModel_evaluate_def EventModel_evaluate_pseudonyms_def intro!: exI [of _ c])
next
  case False
  then show ?thesis
    using assms evaluate_loop_ok [OF assms(4,5,3), of "length ps" 0 sha]
    by (auto simp: EventModel_evaluate_def EventModel_evaluate_pseudonyms_def)
qed

lemma add_pseudonym_ok:
  assumes "\<not> em_poisoned M" "\<not> b_poisoned p"
    and "em_pseudonyms M = (if ps = [] then None else Some (gaggle_of ps c))"
  shows "\<exists>c'. EventModel_add_pseudonym p M =
           Ret () (M\<lparr>em_pseudonyms := Some (gaggle_of (ps @ [\<lparr>b_poisoned = False, b_data = b_data p\<rparr>]) c')\<rparr>)"
  using assms
  by (cases "ps = []")
    (auto simp: EventModel_add_pseudonym_def buf_add_def buf_empty_def Gaggle_Init_of)

end
