(* ===== verification/TSEM.thy ===== *)
theory TSEM
  imports SecurityPoint EventModel
begin

text \<open>
  A trusted security event model (\<open>SecurityModel/TSEM.c\<close>): the state of one modelled
  workload.  Events update it; a security map loads it; sealing turns every event that was
  not seen before into a violation.

  The digest function, and what the Base64 and the RSA key object do, are the record \<open>crypto\<close>, an argument
  of the operations that use them, because the programs are linked with different objects of these names;
  \<open>Base64\<close> and \<open>RSAkey\<close> have those for OpenSSL.  Objects that C shares by pointer are stored by value: a
  logged event is the event as it was when it was logged, and nothing changes it later.
\<close>

section \<open>State\<close>

record crypto =
  cr_sha :: "byte list \<Rightarrow> byte list"
  cr_base64 :: "string \<Rightarrow> byte list option"
  cr_rsa_load :: "byte list \<Rightarrow> bool"
  cr_rsa_verify :: "byte list \<Rightarrow> byte list \<Rightarrow> byte list \<Rightarrow> bool option"

record TSEM_State =
  ts_poisoned :: bool
  ts_have_aggregate :: bool
  ts_loading :: bool
  ts_sealed :: bool
  ts_logging :: bool
  ts_discipline_pid :: u32
  ts_base :: "byte list"
  ts_aggregate :: buf
  ts_measurement :: "byte list"
  ts_trajectory :: "SecurityEvent_State Gaggle_State"
  ts_points :: "SecurityPoint_State Gaggle_State"
  ts_forensics :: "SecurityEvent_State Gaggle_State"
  ts_TE_events :: "hstr Gaggle_State"
  ts_model :: "EventModel_State option"
  ts_key :: "buf option"
  ts_sigdata :: "buf option"

definition zero_id :: "byte list" where
  "zero_id = replicate IDSIZE NUL"

definition TSEM_Init :: TSEM_State where
  "TSEM_Init =
     \<lparr>ts_poisoned = False, ts_have_aggregate = False, ts_loading = False, ts_sealed = False,
      ts_logging = True, ts_discipline_pid = 0, ts_base = zero_id, ts_aggregate = buf_empty,
      ts_measurement = zero_id, ts_trajectory = Gaggle_Init, ts_points = Gaggle_Init,
      ts_forensics = Gaggle_Init, ts_TE_events = Gaggle_Init, ts_model = None,
      ts_key = None, ts_sigdata = None\<rparr>"

definition tsem_poison :: "TSEM_State \<Rightarrow> TSEM_State" where
  "tsem_poison S = S\<lparr>ts_poisoned := True\<rparr>"

section \<open>The map of security state points\<close>

text \<open>
  \<open>_is_mapped\<close>: the known point is counted in place, and the new one inherits its
  violation.  \<open>None\<close>: a NULL pointer is dereferenced.
\<close>

fun mapped_loop ::
  "nat \<Rightarrow> SecurityPoint_State Gaggle_State \<Rightarrow> SecurityPoint_State \<Rightarrow>
   (bool \<times> SecurityPoint_State Gaggle_State \<times> SecurityPoint_State) option" where
  "mapped_loop 0 objs point = Some (False, objs, point)"
| "mapped_loop (Suc cnt) objs point =
     (case Gaggle_get objs of
        (None, _) \<Rightarrow> None
      | (Some cp, objs1) \<Rightarrow>
          if SecurityPoint_equal cp point
          then Some (True, Gaggle_mutate_last (SecurityPoint_increment cp) objs1,
                     if \<not> SecurityPoint_is_valid cp then SecurityPoint_set_invalid point else point)
          else mapped_loop cnt objs1 point)"

definition TSEM_is_mapped ::
  "SecurityPoint_State Gaggle_State \<Rightarrow> SecurityPoint_State \<Rightarrow>
   (bool \<times> SecurityPoint_State Gaggle_State \<times> SecurityPoint_State) option" where
  "TSEM_is_mapped objs point = mapped_loop (Gaggle_size objs) (Gaggle_rewind_cursor objs) point"

section \<open>Extending the measurement\<close>

text \<open>
  The local buffer, the digest object and the measurement.  The last copy is from \<open>b\<close>, the
  buffer inside of the digest object, which by then holds the second digest.
\<close>

definition TSEM_extend_measurement ::
  "(byte list \<Rightarrow> byte list) \<Rightarrow> byte list \<Rightarrow> byte list \<Rightarrow> byte list \<Rightarrow> (byte list, byte list) res" where
  "TSEM_extend_measurement sha base update measurement =
     (case read_bytes IDSIZE update of
        None \<Rightarrow> Undef
      | Some upd \<Rightarrow>
          (case steps
             [attempt (\<lambda>(b, h). zoom (\<lambda>b. (b, h)) (buf_add base b)),
              attempt (\<lambda>(b, h). zoom (\<lambda>b. (b, h)) (buf_add upd b)),
              attempt (\<lambda>(b, h). zoom (\<lambda>h. (b, h)) (Sha256_add b h)),
              (\<lambda>(b, h). zoom (\<lambda>h. (b, h)) (Sha256_compute sha h)),
              assign (\<lambda>(b, h). (buf_reset b, h)),
              attempt (\<lambda>(b, h). zoom (\<lambda>b. (b, h)) (buf_add measurement b)),
              attempt (\<lambda>(b, h). case Sha256_get_Buffer h of
                         (None, _) \<Rightarrow> Undef
                       | (Some d, h) \<Rightarrow> zoom (\<lambda>b. (b, h)) (buf_add (b_data d) b)),
              assign (\<lambda>(b, h). (b, Sha256_reset h)),
              attempt (\<lambda>(b, h). zoom (\<lambda>h. (b, h)) (Sha256_add b h)),
              (\<lambda>(b, h). zoom (\<lambda>h. (b, h)) (Sha256_compute sha h))] (buf_empty, Sha256_Init) of
             Ret _ (b, h) \<Rightarrow>
               (case read_bytes IDSIZE (b_data (sh_buffer h)) of
                  None \<Rightarrow> Undef
                | Some m \<Rightarrow> Ret m m)
           | Fail _ \<Rightarrow> Fail measurement
           | Undef \<Rightarrow> Undef))"

text \<open>The measurement of the model itself is extended.\<close>

definition TSEM_extend ::
  "(byte list \<Rightarrow> byte list) \<Rightarrow> byte list \<Rightarrow> TSEM_State \<Rightarrow> (unit, TSEM_State) res" where
  "TSEM_extend sha update S =
     zoom (\<lambda>m. S\<lparr>ts_measurement := m\<rparr>)
       (res_bind (TSEM_extend_measurement sha (ts_base S) update (ts_measurement S)) (\<lambda>_. Ret ()))"

section \<open>Updating the model with an event\<close>

definition DEFAULT_AGGREGATE :: string where
  "DEFAULT_AGGREGATE = ''0000000000000000000000000000000000000000000000000000000000000000''"

definition on_aggregate :: "(buf \<Rightarrow> (unit, buf) res) \<Rightarrow> TSEM_State \<Rightarrow> (unit, TSEM_State) res" where
  "on_aggregate f S = zoom (\<lambda>b. S\<lparr>ts_aggregate := b\<rparr>) (f (ts_aggregate S))"

definition TSEM_default_aggregate ::
  "(byte list \<Rightarrow> byte list) \<Rightarrow> TSEM_State \<Rightarrow> (unit, TSEM_State) res" where
  "TSEM_default_aggregate sha S =
     (if ts_have_aggregate S then Ret () S
      else steps
        [on_aggregate (buf_add_hexstring (Some DEFAULT_AGGREGATE)),
         (\<lambda>S. TSEM_extend sha (b_data (ts_aggregate S)) S),
         assign (\<lambda>S. S\<lparr>ts_aggregate := buf_reset (ts_aggregate S)\<rparr>),
         (\<lambda>S. on_aggregate (buf_add (ts_measurement S)) S),
         assign (\<lambda>S. S\<lparr>ts_have_aggregate := True\<rparr>)] S)"

text \<open>
  What follows the measurement of the event: the values for \<open>*status\<close>, \<open>*discipline\<close> and
  \<open>*sealed\<close>.  The new point is added by pointer and changed afterwards; the model changes
  it first.
\<close>

definition TSEM_register ::
  "(byte list \<Rightarrow> byte list) \<Rightarrow> SecurityPoint_State \<Rightarrow> TSEM_State \<times> SecurityEvent_State \<Rightarrow>
   (bool \<times> bool \<times> bool, TSEM_State \<times> SecurityEvent_State) res" where
  "TSEM_register sha cp = (\<lambda>(S, event).
     (case TSEM_is_mapped (ts_points S) cp of
        None \<Rightarrow> Undef
      | Some (True, points, cp1) \<Rightarrow>
          Ret (False, \<not> SecurityPoint_is_valid cp1, ts_sealed S) (S\<lparr>ts_points := points\<rparr>, event)
      | Some (False, points, cp1) \<Rightarrow>
          res_bind
            (steps
               [\<lambda>(S, event). zoom (\<lambda>S. (S, event)) (TSEM_extend sha (SecurityPoint_get cp1) S),
                \<lambda>(S, event).
                  (let cp2 = SecurityPoint_increment cp1;
                       cp3 = (if ts_sealed S then SecurityPoint_set_invalid cp2 else cp2)
                   in zoom (\<lambda>p. (S\<lparr>ts_points := p\<rparr>, event)) (Gaggle_add cp3 (ts_points S))),
                \<lambda>(S, event).
                  (if ts_sealed S
                   then (case SecurityEvent_get_pid event of
                           None \<Rightarrow> Fail (S, event)
                         | Some pid \<Rightarrow> Ret () (S\<lparr>ts_discipline_pid := pid\<rparr>, event))
                   else Ret () (S, event)),
                \<lambda>(S, event).
                  (if \<not> ts_logging S then Ret () (S, event)
                   else if ts_sealed S
                   then zoom (\<lambda>g. (S\<lparr>ts_forensics := g\<rparr>, event)) (Gaggle_add event (ts_forensics S))
                   else zoom (\<lambda>g. (S\<lparr>ts_trajectory := g\<rparr>, event)) (Gaggle_add event (ts_trajectory S)))]
               (S\<lparr>ts_points := points\<rparr>, event))
            (\<lambda>_ (S, event). Ret (True, ts_sealed S, ts_sealed S) (S, event))))"

definition TSEM_update ::
  "(byte list \<Rightarrow> byte list) \<Rightarrow> TSEM_State \<times> SecurityEvent_State \<Rightarrow>
   (bool \<times> bool \<times> bool, TSEM_State \<times> SecurityEvent_State) res" where
  "TSEM_update sha fr =
     on_fail (\<lambda>(S, event). (tsem_poison S, event))
       (res_bind
          (steps
             [fail_if (\<lambda>(S, event). ts_poisoned S),
              fail_if (\<lambda>(S, event). ts_loading S),
              (\<lambda>(S, event). zoom (\<lambda>S. (S, event)) (TSEM_default_aggregate sha S)),
              (\<lambda>(S, event). case ts_model S of
                              None \<Rightarrow> Ret () (S, event)
                            | Some M \<Rightarrow> zoom (\<lambda>(M, event). (S\<lparr>ts_model := Some M\<rparr>, event))
                                         (EventModel_evaluate sha (M, event))),
              (\<lambda>(S, event). zoom (\<lambda>event. (S, event)) (SecurityEvent_measure sha event))] fr)
          (\<lambda>_ (S, event).
             (case SecurityEvent_get_identity (event, buf_empty) of
                Undef \<Rightarrow> Undef
              | Fail (event, _) \<Rightarrow> Fail (S, event)
              | Ret _ (event, point) \<Rightarrow>
                  (case SecurityEvent_get_pid event of
                     None \<Rightarrow> Fail (S, event)
                   | Some pid \<Rightarrow>
                       TSEM_register sha (SecurityPoint_add point SecurityPoint_Init)
                         (S\<lparr>ts_discipline_pid := pid\<rparr>, event)))))"

section \<open>Loading a security map\<close>

definition TSEM_update_map :: "(byte list \<Rightarrow> byte list) \<Rightarrow> buf \<Rightarrow> TSEM_State \<Rightarrow> (unit, TSEM_State) res" where
  "TSEM_update_map sha bpoint S =
     (if ts_poisoned S then Fail S
      else if b_poisoned bpoint then Fail S
      else if buf_size bpoint \<noteq> IDSIZE then Fail S
      else if ts_sealed S then Fail S
      else
        (let cp = SecurityPoint_add bpoint SecurityPoint_Init
         in (case TSEM_is_mapped (ts_points S) cp of
               None \<Rightarrow> Undef
             | Some (True, points, _) \<Rightarrow> Ret () (S\<lparr>ts_points := points\<rparr>)
             | Some (False, points, cp1) \<Rightarrow>
                 steps
                   [TSEM_extend sha (SecurityPoint_get cp1),
                    \<lambda>S. zoom (\<lambda>p. S\<lparr>ts_points := p\<rparr>) (Gaggle_add cp1 (ts_points S))]
                   (S\<lparr>ts_points := points\<rparr>))))"

definition TSEM_set_aggregate ::
  "(byte list \<Rightarrow> byte list) \<Rightarrow> buf \<Rightarrow> TSEM_State \<Rightarrow> (unit, TSEM_State) res" where
  "TSEM_set_aggregate sha bufr S =
     on_fail tsem_poison
       (if ts_poisoned S then Fail S
        else if ts_sealed S then Ret () S
        else
          (case TSEM_extend_measurement sha (ts_base S) (if b_poisoned bufr then [] else b_data bufr) zero_id of
             Undef \<Rightarrow> Undef
           | Fail _ \<Rightarrow> Fail S
           | Ret measurement _ \<Rightarrow>
               if ts_have_aggregate S \<and> read_bytes IDSIZE (b_data (ts_aggregate S)) = None then Undef
               else if ts_have_aggregate S \<and> take IDSIZE (b_data (ts_aggregate S)) = measurement
               then Ret () S
               else steps
                 [assign (\<lambda>S. if ts_have_aggregate S
                              then S\<lparr>ts_aggregate := buf_reset (ts_aggregate S)\<rparr> else S),
                  assign (\<lambda>S. S\<lparr>ts_measurement := measurement\<rparr>),
                  (\<lambda>S. on_aggregate (buf_add (ts_measurement S)) S),
                  assign (\<lambda>S. S\<lparr>ts_have_aggregate := True\<rparr>)] S))"

definition TSEM_seal :: "TSEM_State \<Rightarrow> TSEM_State" where
  "TSEM_seal S = S\<lparr>ts_sealed := True\<rparr>"

definition TSEM_disable_logging :: "TSEM_State \<Rightarrow> TSEM_State" where
  "TSEM_disable_logging S = S\<lparr>ts_logging := False\<rparr>"

text \<open>A line with its NUL is added to the data that a signature covers.\<close>

definition TSEM_add_entry :: "string \<Rightarrow> TSEM_State \<Rightarrow> (unit, TSEM_State) res" where
  "TSEM_add_entry text S =
     (case ts_sigdata S of
        None \<Rightarrow> Undef
      | Some d \<Rightarrow> zoom (\<lambda>d. S\<lparr>ts_sigdata := Some d\<rparr>) (buf_add (text @ [NUL]) d))"

text \<open>\<open>_verify_model\<close>: the key buffer ends up with the decoded key; the result is \<open>*valid\<close>.\<close>

definition TSEM_verify_model ::
  "crypto \<Rightarrow> string \<Rightarrow> byte list \<Rightarrow> buf \<Rightarrow> (bool, buf) res" where
  "TSEM_verify_model cr sig sigdata key =
     (case cr_base64 cr (cstring (b_data key)) of
        None \<Rightarrow> Fail (buf_reset key)
      | Some k \<Rightarrow>
          res_bind (buf_add k (buf_reset key))
            (\<lambda>_ key1.
               if \<not> cr_rsa_load cr k then Fail key1
               else
                 (case cr_base64 cr sig of
                    None \<Rightarrow> Fail key1
                  | Some signature \<Rightarrow>
                      (case cr_rsa_verify cr k signature sigdata of
                         None \<Rightarrow> Fail key1
                       | Some valid \<Rightarrow> Ret valid key1))))"

datatype load_command =
  Cmd_comment | Cmd_key | Cmd_base | Cmd_aggregate | Cmd_state | Cmd_pseudonym | Cmd_seal |
  Cmd_signature | Cmd_end

definition Security_cmd_list :: "(load_command \<times> string \<times> bool) list" where
  "Security_cmd_list =
     [(Cmd_comment, ''#'', False),
      (Cmd_key, ''key '', True),
      (Cmd_base, ''base '', True),
      (Cmd_aggregate, ''aggregate '', True),
      (Cmd_state, ''state '', True),
      (Cmd_pseudonym, ''pseudonym '', True),
      (Cmd_seal, ''seal'', False),
      (Cmd_signature, ''signature '', True),
      (Cmd_end, ''end'', False)]"

text \<open>The table has no sentinel: a line that matches no entry is compared beyond its end.\<close>

fun find_command :: "(load_command \<times> string \<times> bool) list \<Rightarrow> string \<Rightarrow> (load_command \<times> string \<times> bool) option" where
  "find_command [] entry = None"
| "find_command ((cmd, syntax, has_arg) # dps) entry =
     (if is_prefix syntax entry then Some (cmd, syntax, has_arg) else find_command dps entry)"

definition with_hex :: "string \<Rightarrow> (buf \<Rightarrow> TSEM_State \<Rightarrow> (unit, TSEM_State) res) \<Rightarrow> TSEM_State \<Rightarrow> (unit, TSEM_State) res" where
  "with_hex arg f S =
     (case buf_add_hexstring (Some arg) buf_empty of
        Ret _ b \<Rightarrow> f b S | Fail _ \<Rightarrow> Fail S | Undef \<Rightarrow> Undef)"

definition TSEM_load_command ::
  "crypto \<Rightarrow> load_command \<Rightarrow> string \<Rightarrow> string \<Rightarrow> TSEM_State \<Rightarrow> (unit, TSEM_State) res" where
  "TSEM_load_command cr cmd text arg =
     (case cmd of
        Cmd_comment \<Rightarrow> TSEM_add_entry text
      | Cmd_key \<Rightarrow> steps
          [TSEM_add_entry text,
           fail_if (\<lambda>S. ts_key S \<noteq> None),
           assign (\<lambda>S. S\<lparr>ts_key := Some buf_empty\<rparr>),
           (\<lambda>S. zoom (\<lambda>k. S\<lparr>ts_key := Some k\<rparr>) (buf_add (arg @ [NUL]) (the (ts_key S))))]
      | Cmd_base \<Rightarrow> steps
          [TSEM_add_entry text,
           with_hex arg (\<lambda>b S. case read_bytes IDSIZE (b_data b) of
                                 None \<Rightarrow> Undef | Some base \<Rightarrow> Ret () (S\<lparr>ts_base := base\<rparr>))]
      | Cmd_aggregate \<Rightarrow> steps
          [TSEM_add_entry text, with_hex arg (TSEM_set_aggregate (cr_sha cr))]
      | Cmd_state \<Rightarrow> steps
          [TSEM_add_entry text, with_hex arg (TSEM_update_map (cr_sha cr))]
      | Cmd_pseudonym \<Rightarrow> steps
          [TSEM_add_entry text,
           assign (\<lambda>S. if ts_model S = None then S\<lparr>ts_model := Some EventModel_Init\<rparr> else S),
           with_hex arg (\<lambda>b S. zoom (\<lambda>M. S\<lparr>ts_model := Some M\<rparr>)
                                 (EventModel_add_pseudonym b (the (ts_model S))))]
      | Cmd_seal \<Rightarrow> steps [TSEM_add_entry text, assign TSEM_seal]
      | Cmd_signature \<Rightarrow>
          (\<lambda>S. case (ts_key S, ts_sigdata S) of
             (Some key, Some sigdata) \<Rightarrow>
               (case TSEM_verify_model cr arg (b_data sigdata) key of
                  Ret valid k \<Rightarrow> (if valid then Ret () (S\<lparr>ts_key := Some k\<rparr>)
                                 else Fail (S\<lparr>ts_key := Some k\<rparr>))
                | Fail k \<Rightarrow> Fail (S\<lparr>ts_key := Some k\<rparr>)
                | Undef \<Rightarrow> Undef)
           | _ \<Rightarrow> Fail S)
      | Cmd_end \<Rightarrow> steps [TSEM_add_entry text, assign (\<lambda>S. S\<lparr>ts_loading := False\<rparr>)])"

definition TSEM_load :: "crypto \<Rightarrow> hstr \<Rightarrow> TSEM_State \<Rightarrow> (unit, TSEM_State) res" where
  "TSEM_load cr entry S =
     (if ts_poisoned S then Fail S
      else
        (case hs_get entry of
           None \<Rightarrow> Undef
         | Some text \<Rightarrow>
             (case find_command Security_cmd_list text of
                None \<Rightarrow> Undef
              | Some (cmd, syntax, has_arg) \<Rightarrow>
                  let S1 = (if cmd \<noteq> Cmd_signature \<and> \<not> ts_loading S then S\<lparr>ts_loading := True\<rparr> else S);
                      arg = drop (length syntax) text
                  in if has_arg \<and> arg = [] then Fail S1
                     else
                       let S2 = (if ts_sigdata S1 = None then S1\<lparr>ts_sigdata := Some buf_empty\<rparr> else S1)
                       in TSEM_load_command cr cmd text arg S2)))"

section \<open>Events that are logged as text\<close>

definition TSEM_add_TSEM_event :: "hstr \<Rightarrow> TSEM_State \<Rightarrow> (unit, TSEM_State) res" where
  "TSEM_add_TSEM_event event S =
     (if ts_poisoned S then Fail S
      else if h_poisoned event then Fail S
      else if \<not> ts_logging S then Ret () S
      else
        (case hs_get event of
           None \<Rightarrow> Undef
         | Some t \<Rightarrow>
             (case hs_add t hs_empty of
                Ret _ str \<Rightarrow> zoom (\<lambda>g. S\<lparr>ts_TE_events := g\<rparr>) (Gaggle_add str (ts_TE_events S))
              | Fail _ \<Rightarrow> Fail S
              | Undef \<Rightarrow> Undef)))"

section \<open>Reading the model\<close>

text \<open>The iterators return true on every path; the object they return is NULL at the end.\<close>

definition TSEM_get_TSEM_event :: "TSEM_State \<Rightarrow> hstr option \<times> TSEM_State" where
  "TSEM_get_TSEM_event S =
     (if ts_poisoned S then (None, S)
      else let (p, g) = Gaggle_get (ts_TE_events S) in (p, S\<lparr>ts_TE_events := g\<rparr>))"

definition TSEM_rewind_TSEM_event :: "TSEM_State \<Rightarrow> TSEM_State" where
  "TSEM_rewind_TSEM_event S = S\<lparr>ts_TE_events := Gaggle_rewind_cursor (ts_TE_events S)\<rparr>"

definition TSEM_events_size :: "TSEM_State \<Rightarrow> nat" where
  "TSEM_events_size S = Gaggle_size (ts_TE_events S)"

definition TSEM_get_event :: "TSEM_State \<Rightarrow> SecurityEvent_State option \<times> TSEM_State" where
  "TSEM_get_event S =
     (if ts_poisoned S then (None, S)
      else let (p, g) = Gaggle_get (ts_trajectory S) in (p, S\<lparr>ts_trajectory := g\<rparr>))"

definition TSEM_rewind_event :: "TSEM_State \<Rightarrow> TSEM_State" where
  "TSEM_rewind_event S = S\<lparr>ts_trajectory := Gaggle_rewind_cursor (ts_trajectory S)\<rparr>"

definition TSEM_trajectory_size :: "TSEM_State \<Rightarrow> nat" where
  "TSEM_trajectory_size S = Gaggle_size (ts_trajectory S)"

definition TSEM_get_point :: "TSEM_State \<Rightarrow> SecurityPoint_State option \<times> TSEM_State" where
  "TSEM_get_point S =
     (if ts_poisoned S then (None, S)
      else let (p, g) = Gaggle_get (ts_points S) in (p, S\<lparr>ts_points := g\<rparr>))"

definition TSEM_rewind_points :: "TSEM_State \<Rightarrow> TSEM_State" where
  "TSEM_rewind_points S = S\<lparr>ts_points := Gaggle_rewind_cursor (ts_points S)\<rparr>"

definition TSEM_points_size :: "TSEM_State \<Rightarrow> nat" where
  "TSEM_points_size S = Gaggle_size (ts_points S)"

definition TSEM_get_forensics :: "TSEM_State \<Rightarrow> SecurityEvent_State option \<times> TSEM_State" where
  "TSEM_get_forensics S =
     (if ts_poisoned S then (None, S)
      else let (p, g) = Gaggle_get (ts_forensics S) in (p, S\<lparr>ts_forensics := g\<rparr>))"

definition TSEM_rewind_forensics :: "TSEM_State \<Rightarrow> TSEM_State" where
  "TSEM_rewind_forensics S = S\<lparr>ts_forensics := Gaggle_rewind_cursor (ts_forensics S)\<rparr>"

definition TSEM_forensics_size :: "TSEM_State \<Rightarrow> nat" where
  "TSEM_forensics_size S = Gaggle_size (ts_forensics S)"

definition TSEM_get_measurement :: "TSEM_State \<Rightarrow> buf \<Rightarrow> (unit, buf) res" where
  "TSEM_get_measurement S bufr = buf_add (ts_measurement S) bufr"

definition TSEM_discipline_pid :: "TSEM_State \<Rightarrow> (u32, TSEM_State) res" where
  "TSEM_discipline_pid S =
     (if ts_poisoned S then Fail (tsem_poison S) else Ret (ts_discipline_pid S) S)"

section \<open>The state measurement\<close>

fun state_sort :: "byte list \<Rightarrow> byte list \<Rightarrow> int" where
  "state_sort (p1 # ps1) (p2 # ps2) =
     (if p1 = p2 then state_sort ps1 ps2
      else if (of_char p1 :: nat) < of_char p2 then -1 else 1)"
| "state_sort _ _ = 0"

text \<open>
  \<open>qsort\<close> with that comparison.  It is a total order of the points, so every sorting
  algorithm gives this list.
\<close>

fun insert_point :: "byte list \<Rightarrow> byte list list \<Rightarrow> byte list list" where
  "insert_point p [] = [p]"
| "insert_point p (q # qs) = (if state_sort p q \<le> 0 then p # q # qs else q # insert_point p qs)"

fun sort_points :: "byte list list \<Rightarrow> byte list list" where
  "sort_points [] = []"
| "sort_points (p # ps) = insert_point p (sort_points ps)"

text \<open>The loop that clones the points; \<open>None\<close>: a NULL object.\<close>

fun clone_points ::
  "nat \<Rightarrow> SecurityPoint_State Gaggle_State \<Rightarrow> (byte list list \<times> SecurityPoint_State Gaggle_State) option" where
  "clone_points 0 g = Some ([], g)"
| "clone_points (Suc cnt) g =
     (case Gaggle_get g of
        (None, _) \<Rightarrow> None
      | (Some ep, g1) \<Rightarrow> map_option (\<lambda>(ps, g2). (SecurityPoint_get ep # ps, g2)) (clone_points cnt g1))"

fun extend_all ::
  "(byte list \<Rightarrow> byte list) \<Rightarrow> byte list \<Rightarrow> byte list list \<Rightarrow> byte list \<Rightarrow> (byte list, byte list) res" where
  "extend_all sha base [] state = Ret state state"
| "extend_all sha base (p # ps) state =
     res_bind (TSEM_extend_measurement sha base p state) (\<lambda>s _. extend_all sha base ps s)"

definition TSEM_get_state ::
  "(byte list \<Rightarrow> byte list) \<Rightarrow> TSEM_State \<times> buf \<Rightarrow> (unit, TSEM_State \<times> buf) res" where
  "TSEM_get_state sha = (\<lambda>(S, out).
     (case clone_points (Gaggle_size (ts_points S)) (Gaggle_rewind_cursor (ts_points S)) of
        None \<Rightarrow> Undef
      | Some (points, g) \<Rightarrow>
          let S1 = S\<lparr>ts_points := g\<rparr>
          in (case read_bytes IDSIZE (b_data (ts_aggregate S1)) of
                None \<Rightarrow> Undef
              | Some agg \<Rightarrow>
                  (case extend_all sha (ts_base S1) (sort_points points) agg of
                     Ret state _ \<Rightarrow> zoom (\<lambda>b. (S1, b)) (buf_add state out)
                   | Fail _ \<Rightarrow> Fail (S1, out)
                   | Undef \<Rightarrow> Undef))))"

end
