(* ===== verification/TSEMLemmas.thy ===== *)
theory TSEMLemmas
  imports TSEM "HOL-Library.Multiset"
begin

text \<open>
  What the operations of a model compute: the map of points, the extension of the
  measurement, the registration of an event, and the order-independent state value.
\<close>

section \<open>The digest\<close>

text \<open>SHA-256 gives 32 bytes.\<close>

definition sha_ok :: "(byte list \<Rightarrow> byte list) \<Rightarrow> bool" where
  "sha_ok sha \<longleftrightarrow> (\<forall>m. length (sha m) = IDSIZE)"

lemma sha_ok_length [simp]: "sha_ok sha \<Longrightarrow> length (sha m) = IDSIZE"
  by (simp add: sha_ok_def)

text \<open>The extension of a measurement by a point, in the domain of a base point.\<close>

definition extend_value ::
  "(byte list \<Rightarrow> byte list) \<Rightarrow> byte list \<Rightarrow> byte list \<Rightarrow> byte list \<Rightarrow> byte list" where
  "extend_value sha base m p = sha (m @ sha (base @ p))"

lemma length_extend_value [simp]: "sha_ok sha \<Longrightarrow> length (extend_value sha base m p) = IDSIZE"
  by (simp add: extend_value_def)

lemma TSEM_extend_measurement_value:
  assumes "sha_ok sha" "IDSIZE \<le> length u"
  shows "TSEM_extend_measurement sha base u m =
           Ret (extend_value sha base m (take IDSIZE u)) (extend_value sha base m (take IDSIZE u))"
  using assms
  by (simp add: TSEM_extend_measurement_def read_bytes_def buf_add_def buf_empty_def Sha256_add_def
      Sha256_Init_def Sha256_compute_def Sha256_compute_digest_def sha_buffer_add_def buf_reset_def
      Sha256_get_Buffer_def Sha256_reset_def extend_value_def)

lemma TSEM_extend_value:
  assumes "sha_ok sha" "IDSIZE \<le> length u"
  shows "TSEM_extend sha u S =
           Ret () (S\<lparr>ts_measurement := extend_value sha (ts_base S) (ts_measurement S) (take IDSIZE u)\<rparr>)"
  using TSEM_extend_measurement_value [OF assms] by (simp add: TSEM_extend_def)

section \<open>The map of points\<close>

definition count_point :: "byte list \<Rightarrow> SecurityPoint_State list \<Rightarrow> SecurityPoint_State list" where
  "count_point d ps = map (\<lambda>p. if sp_point p = d then SecurityPoint_increment p else p) ps"

definition known :: "SecurityPoint_State list \<Rightarrow> byte list set" where
  "known ps = sp_point ` set ps"

definition violates :: "byte list \<Rightarrow> SecurityPoint_State list \<Rightarrow> bool" where
  "violates d ps \<longleftrightarrow> (\<exists>p \<in> set ps. sp_point p = d \<and> sp_violation p)"

lemma increment_simps [simp]:
  "sp_point (SecurityPoint_increment p) = sp_point p"
  "sp_violation (SecurityPoint_increment p) = sp_violation p"
  "sp_count (SecurityPoint_increment p) = sp_count p + 1"
  by (simp_all add: SecurityPoint_increment_def)

lemma set_invalid_simps [simp]:
  "sp_point (SecurityPoint_set_invalid p) = sp_point p" "sp_violation (SecurityPoint_set_invalid p)"
  "sp_count (SecurityPoint_set_invalid p) = sp_count p"
  by (simp_all add: SecurityPoint_set_invalid_def)

lemma count_point_points [simp]: "map sp_point (count_point d ps) = map sp_point ps"
  by (induction ps) (simp_all add: count_point_def)

lemma count_point_filter [simp]:
  "map sp_point (filter sp_violation (count_point d ps)) = map sp_point (filter sp_violation ps)"
  "map sp_point (filter (\<lambda>p. \<not> sp_violation p) (count_point d ps)) =
     map sp_point (filter (\<lambda>p. \<not> sp_violation p) ps)"
  by (induction ps) (simp_all add: count_point_def)

lemma length_count_point [simp]: "length (count_point d ps) = length ps"
  by (simp add: count_point_def)

lemma known_count_point [simp]: "known (count_point d ps) = known ps"
  by (simp only: known_def set_map [symmetric] count_point_points)

lemma violates_count_point [simp]: "violates e (count_point d ps) = violates e ps"
  by (induction ps) (auto simp: violates_def count_point_def)

lemma update_is_count:
  assumes "distinct (map sp_point ps)" "i < length ps"
  shows "ps[i := SecurityPoint_increment (ps ! i)] = count_point (sp_point (ps ! i)) ps"
proof (rule nth_equalityI)
  fix j assume "j < length (ps[i := SecurityPoint_increment (ps ! i)])"
  then have j: "j < length ps" by simp
  have "sp_point (ps ! j) = sp_point (ps ! i) \<longleftrightarrow> j = i"
    using assms j nth_eq_iff_index_eq [OF assms(1), of j i] by simp
  then show "ps[i := SecurityPoint_increment (ps ! i)] ! j = count_point (sp_point (ps ! i)) ps ! j"
    using j by (auto simp: count_point_def nth_list_update)
qed simp

lemma violates_nth:
  assumes "distinct (map sp_point ps)" "i < length ps"
  shows "violates (sp_point (ps ! i)) ps = sp_violation (ps ! i)"
proof -
  have "p = ps ! i" if "p \<in> set ps" "sp_point p = sp_point (ps ! i)" for p
    using that assms by (auto simp: distinct_map inj_on_def)
  then show ?thesis using assms(2) by (auto simp: violates_def)
qed

lemma mapped_loop_known:
  assumes "distinct (map sp_point ps)" "n + c = length ps" "sp_point point \<in> sp_point ` set (drop c ps)"
  shows "\<exists>c'. mapped_loop n (gaggle_of ps c) point =
           Some (True, gaggle_of (count_point (sp_point point) ps) c',
                 if violates (sp_point point) ps then SecurityPoint_set_invalid point else point)"
  using assms(2,3)
proof (induction n arbitrary: c)
  case (Suc n)
  then have c: "c < length ps" by simp
  show ?case
  proof (cases "sp_point (ps ! c) = sp_point point")
    case True
    with c assms(1) show ?thesis
      using update_is_count [OF assms(1) c] violates_nth [OF assms(1) c]
      by (auto simp: Gaggle_get_of SecurityPoint_equal_def SecurityPoint_is_valid_def)
  next
    case False
    with Suc.prems c have "sp_point point \<in> sp_point ` set (drop (Suc c) ps)"
      by (auto simp: Cons_nth_drop_Suc [symmetric])
    with Suc.IH [of "Suc c"] Suc.prems(1) c False show ?thesis
      by (simp add: Gaggle_get_of SecurityPoint_equal_def)
  qed
qed simp

lemma mapped_loop_new:
  assumes "n + c = length ps" "sp_point point \<notin> sp_point ` set (drop c ps)"
  shows "mapped_loop n (gaggle_of ps c) point = Some (False, gaggle_of ps (length ps), point)"
  using assms
proof (induction n arbitrary: c)
  case (Suc n)
  then have c: "c < length ps" by simp
  with Suc show ?case
    by (auto simp: Gaggle_get_of SecurityPoint_equal_def Cons_nth_drop_Suc [symmetric])
qed simp

lemma TSEM_is_mapped_known:
  assumes "distinct (map sp_point ps)" "sp_point point \<in> known ps"
  shows "\<exists>c'. TSEM_is_mapped (gaggle_of ps c) point =
           Some (True, gaggle_of (count_point (sp_point point) ps) c',
                 if violates (sp_point point) ps then SecurityPoint_set_invalid point else point)"
  using mapped_loop_known [OF assms(1), of "length ps" 0 point] assms(2)
  by (simp add: TSEM_is_mapped_def known_def)

lemma TSEM_is_mapped_new:
  "sp_point point \<notin> known ps \<Longrightarrow>
   TSEM_is_mapped (gaggle_of ps c) point = Some (False, gaggle_of ps (length ps), point)"
  using mapped_loop_new [of "length ps" 0 ps point] by (simp add: TSEM_is_mapped_def known_def)

section \<open>Well-formed models\<close>

definition points_ok :: "SecurityPoint_State Gaggle_State \<Rightarrow> bool" where
  "points_ok g \<longleftrightarrow> (\<exists>ps c. g = gaggle_of ps c \<and> distinct (map sp_point ps) \<and> (\<forall>p \<in> set ps. point_ok p))"

definition aggregate_ok :: "bool \<Rightarrow> buf \<Rightarrow> bool" where
  "aggregate_ok have b \<longleftrightarrow> \<not> b_poisoned b \<and> b_data b = (if have then b_data b else []) \<and>
                          (have \<longrightarrow> length (b_data b) = IDSIZE)"

definition tsem_ok :: "TSEM_State \<Rightarrow> bool" where
  "tsem_ok S \<longleftrightarrow> length (ts_base S) = IDSIZE \<and> length (ts_measurement S) = IDSIZE \<and>
     points_ok (ts_points S) \<and> gaggle_ok (ts_trajectory S) \<and> gaggle_ok (ts_forensics S) \<and>
     gaggle_ok (ts_TE_events S) \<and> aggregate_ok (ts_have_aggregate S) (ts_aggregate S)"

lemma tsem_ok_Init [simp]: "tsem_ok TSEM_Init"
  by (simp add: tsem_ok_def TSEM_Init_def zero_id_def points_ok_def gaggle_ok_def Gaggle_Init_of
      aggregate_ok_def buf_empty_def)

abbreviation points_of :: "TSEM_State \<Rightarrow> SecurityPoint_State list" where
  "points_of S \<equiv> gg_objects (ts_points S)"

lemma points_okE:
  assumes "points_ok g"
  obtains c where "g = gaggle_of (gg_objects g) c" "distinct (map sp_point (gg_objects g))"
    "\<forall>p \<in> set (gg_objects g). point_ok p"
  using assms by (auto simp: points_ok_def)

section \<open>Registering an event\<close>

lemma TSEM_register_known:
  assumes ok: "tsem_ok S" and k: "sp_point cp \<in> known (points_of S)"
  shows "\<exists>c'. TSEM_register sha cp (S, event) =
           Ret (False, violates (sp_point cp) (points_of S) \<or> sp_violation cp, ts_sealed S)
               (S\<lparr>ts_points := gaggle_of (count_point (sp_point cp) (points_of S)) c'\<rparr>, event)"
proof -
  obtain c where c: "ts_points S = gaggle_of (points_of S) c" "distinct (map sp_point (points_of S))"
    using ok by (auto simp: tsem_ok_def elim: points_okE)
  obtain c' where "TSEM_is_mapped (gaggle_of (points_of S) c) cp =
      Some (True, gaggle_of (count_point (sp_point cp) (points_of S)) c',
            if violates (sp_point cp) (points_of S) then SecurityPoint_set_invalid cp else cp)"
    using TSEM_is_mapped_known [OF c(2) k] by blast
  then have "TSEM_is_mapped (ts_points S) cp =
      Some (True, gaggle_of (count_point (sp_point cp) (points_of S)) c',
            if violates (sp_point cp) (points_of S) then SecurityPoint_set_invalid cp else cp)"
    using c(1) by simp
  then show ?thesis
    by (auto simp: TSEM_register_def SecurityPoint_is_valid_def)
qed

text \<open>The model after a new point was registered.\<close>

definition tsem_learn ::
  "(byte list \<Rightarrow> byte list) \<Rightarrow> SecurityPoint_State \<Rightarrow> SecurityEvent_State \<Rightarrow> u32 \<Rightarrow> TSEM_State \<Rightarrow> TSEM_State" where
  "tsem_learn sha cp event pid S =
     S\<lparr>ts_measurement := extend_value sha (ts_base S) (ts_measurement S) (sp_point cp),
       ts_points := gaggle_of (points_of S @
         [cp\<lparr>sp_count := sp_count cp + 1, sp_violation := sp_violation cp \<or> ts_sealed S\<rparr>]) (length (points_of S)),
       ts_discipline_pid := (if ts_sealed S then pid else ts_discipline_pid S),
       ts_trajectory := (if ts_logging S \<and> \<not> ts_sealed S
         then gaggle_of (gg_objects (ts_trajectory S) @ [event]) (gg_cursor (ts_trajectory S))
         else ts_trajectory S),
       ts_forensics := (if ts_logging S \<and> ts_sealed S
         then gaggle_of (gg_objects (ts_forensics S) @ [event]) (gg_cursor (ts_forensics S))
         else ts_forensics S)\<rparr>"

lemma gaggle_ok_eta: "gaggle_ok g \<Longrightarrow> gaggle_of (gg_objects g) (gg_cursor g) = g"
  by (cases g) (simp add: gaggle_ok_def gaggle_of_def)

lemma Gaggle_add_ok: "gaggle_ok g \<Longrightarrow> Gaggle_add x g = Ret () (gaggle_of (gg_objects g @ [x]) (gg_cursor g))"
  using gaggle_ok_eta [of g] Gaggle_ops_of(1) [of x "gg_objects g" "gg_cursor g"] by simp

lemma TSEM_register_new:
  assumes ok: "tsem_ok S" and sha: "sha_ok sha" and k: "sp_point cp \<notin> known (points_of S)"
    and cp: "point_ok cp" and pid: "SecurityEvent_get_pid event = Some pid"
  shows "TSEM_register sha cp (S, event) =
           Ret (True, ts_sealed S, ts_sealed S) (tsem_learn sha cp event pid S, event)"
proof -
  obtain c where c: "ts_points S = gaggle_of (points_of S) c"
    using ok by (auto simp: tsem_ok_def elim: points_okE)
  have "TSEM_is_mapped (gaggle_of (points_of S) c) cp =
          Some (False, gaggle_of (points_of S) (length (points_of S)), cp)"
    by (rule TSEM_is_mapped_new [OF k])
  then have m: "TSEM_is_mapped (ts_points S) cp =
          Some (False, gaggle_of (points_of S) (length (points_of S)), cp)"
    using c by simp
  have g: "gaggle_ok (ts_trajectory S)" "gaggle_ok (ts_forensics S)"
    using ok by (simp_all add: tsem_ok_def)
  have len: "IDSIZE \<le> length (SecurityPoint_get cp)" "take IDSIZE (SecurityPoint_get cp) = sp_point cp"
    using cp by (simp_all add: SecurityPoint_get_def point_ok_def)
  show ?thesis
    using m pid g len
    by (cases "ts_sealed S"; cases "ts_logging S")
      (simp_all add: TSEM_register_def TSEM_extend_value [OF sha] Gaggle_add_ok tsem_learn_def
        SecurityPoint_set_invalid_def SecurityPoint_increment_def)
qed

lemma point_ok_fields [simp]:
  "point_ok (cp\<lparr>sp_count := n\<rparr>) = point_ok cp" "point_ok (cp\<lparr>sp_violation := v\<rparr>) = point_ok cp"
  by (simp_all add: point_ok_def)

lemma gaggle_of_ok [simp]: "gaggle_ok (gaggle_of xs c)"
  by (simp add: gaggle_ok_def)

lemma tsem_learn_ok:
  assumes "tsem_ok S" "sha_ok sha" "sp_point cp \<notin> known (points_of S)" "point_ok cp"
  shows "tsem_ok (tsem_learn sha cp event pid S)"
  using assms
  by (auto simp: tsem_ok_def tsem_learn_def points_ok_def known_def)

lemma count_point_point_ok: "\<forall>p \<in> set ps. point_ok p \<Longrightarrow> \<forall>p \<in> set (count_point d ps). point_ok p"
  by (auto simp: count_point_def)

lemma tsem_count_ok:
  assumes "tsem_ok S"
  shows "tsem_ok (S\<lparr>ts_points := gaggle_of (count_point d (points_of S)) c\<rparr>)"
proof -
  have "distinct (map sp_point (points_of S))" "\<forall>p \<in> set (points_of S). point_ok p"
    using assms by (auto simp: tsem_ok_def elim: points_okE)
  then have "points_ok (gaggle_of (count_point d (points_of S)) c)"
    using count_point_point_ok by (auto simp: points_ok_def)
  with assms show ?thesis by (simp add: tsem_ok_def)
qed

section \<open>Every operation keeps a model well formed\<close>

lemma keeps_zoom: "keeps P (zoom put m) = keeps (\<lambda>t. P (put t)) m"
  by (cases m) simp_all

lemma keeps_on_fail: "keeps P m \<Longrightarrow> (\<And>s. P s \<Longrightarrow> P (f s)) \<Longrightarrow> keeps P (on_fail f m)"
  by (cases m) simp_all

lemma keeps_mono: "keeps P m \<Longrightarrow> (\<And>s. P s \<Longrightarrow> Q s) \<Longrightarrow> keeps Q m"
  by (cases m) simp_all

lemma keeps_fail_if [simp]: "keeps P (fail_if c s) = P s"
  by (simp add: fail_if_def)

lemma keeps_attempt: "keeps P (f s) \<Longrightarrow> keeps P (attempt f s)"
  by (cases "f s") simp_all

lemma tsem_ok_fields [simp]:
  "tsem_ok (S\<lparr>ts_poisoned := a\<rparr>) = tsem_ok S" "tsem_ok (S\<lparr>ts_loading := b\<rparr>) = tsem_ok S"
  "tsem_ok (S\<lparr>ts_sealed := c\<rparr>) = tsem_ok S" "tsem_ok (S\<lparr>ts_logging := d\<rparr>) = tsem_ok S"
  "tsem_ok (S\<lparr>ts_discipline_pid := e\<rparr>) = tsem_ok S" "tsem_ok (S\<lparr>ts_model := f\<rparr>) = tsem_ok S"
  "tsem_ok (S\<lparr>ts_key := g\<rparr>) = tsem_ok S" "tsem_ok (S\<lparr>ts_sigdata := h\<rparr>) = tsem_ok S"
  "tsem_ok (tsem_poison S) = tsem_ok S"
  by (simp_all add: tsem_ok_def tsem_poison_def)

lemma hex_DEFAULT_AGGREGATE: "hex_decode DEFAULT_AGGREGATE = Some zero_id"
  by code_simp

text \<open>The state after the default aggregate was taken.\<close>

definition tsem_default :: "(byte list \<Rightarrow> byte list) \<Rightarrow> TSEM_State \<Rightarrow> TSEM_State" where
  "tsem_default sha S =
     (if ts_have_aggregate S then S
      else let m = extend_value sha (ts_base S) (ts_measurement S) zero_id
           in S\<lparr>ts_measurement := m, ts_aggregate := \<lparr>b_poisoned = False, b_data = m\<rparr>,
                ts_have_aggregate := True\<rparr>)"

lemma TSEM_default_aggregate_ok:
  assumes "tsem_ok S" "sha_ok sha"
  shows "TSEM_default_aggregate sha S = Ret () (tsem_default sha S)"
proof (cases "ts_have_aggregate S")
  case False
  then have agg: "\<not> b_poisoned (ts_aggregate S)" "b_data (ts_aggregate S) = []"
    using assms(1) by (auto simp: tsem_ok_def aggregate_ok_def)
  have z: "length zero_id = IDSIZE" by (simp add: zero_id_def)
  have b: "buf_add_hexstring (Some DEFAULT_AGGREGATE) (ts_aggregate S) =
             Ret () ((ts_aggregate S)\<lparr>b_data := zero_id\<rparr>)"
    using hex_string_add [OF _ hex_DEFAULT_AGGREGATE agg(1)] agg(2) by (simp add: DEFAULT_AGGREGATE_def)
  show ?thesis
    using False agg z assms(2)
    by (simp add: TSEM_default_aggregate_def on_aggregate_def b TSEM_extend_value buf_reset_def buf_add_def
        tsem_default_def Let_def)
qed (simp add: TSEM_default_aggregate_def tsem_default_def)

lemma tsem_default_ok: "tsem_ok S \<Longrightarrow> sha_ok sha \<Longrightarrow> tsem_ok (tsem_default sha S)"
  by (simp add: tsem_ok_def tsem_default_def Let_def aggregate_ok_def)

lemma tsem_default_same [simp]:
  "ts_points (tsem_default sha S) = ts_points S" "ts_sealed (tsem_default sha S) = ts_sealed S"
  "ts_logging (tsem_default sha S) = ts_logging S" "ts_poisoned (tsem_default sha S) = ts_poisoned S"
  "ts_loading (tsem_default sha S) = ts_loading S" "ts_model (tsem_default sha S) = ts_model S"
  "ts_base (tsem_default sha S) = ts_base S" "ts_have_aggregate (tsem_default sha S)"
  "ts_trajectory (tsem_default sha S) = ts_trajectory S"
  "ts_forensics (tsem_default sha S) = ts_forensics S"
  by (simp_all add: tsem_default_def Let_def)

text \<open>
  The cases of a registration: what the update does with the model, for every event.
\<close>

lemma TSEM_register_cases [consumes 4, case_names known new]:
  assumes ok: "tsem_ok S" and sha: "sha_ok sha" and cp: "point_ok cp"
    and pid: "SecurityEvent_get_pid event = Some pid"
  obtains (known) c where "sp_point cp \<in> known (points_of S)"
      "TSEM_register sha cp (S, event) =
         Ret (False, violates (sp_point cp) (points_of S) \<or> sp_violation cp, ts_sealed S)
             (S\<lparr>ts_points := gaggle_of (count_point (sp_point cp) (points_of S)) c\<rparr>, event)"
  | (new) "sp_point cp \<notin> known (points_of S)"
      "TSEM_register sha cp (S, event) =
         Ret (True, ts_sealed S, ts_sealed S) (tsem_learn sha cp event pid S, event)"
  using TSEM_register_known [OF ok] TSEM_register_new [OF ok sha _ cp pid] by meson

text \<open>
  An update either registers a point, in the state the default aggregate and the
  evaluation of the pseudonyms lead to, or leaves the map alone.
\<close>

definition same_map :: "TSEM_State \<Rightarrow> TSEM_State \<Rightarrow> bool" where
  "same_map S T \<longleftrightarrow> ts_points T = ts_points S \<and> ts_sealed T = ts_sealed S \<and> ts_logging T = ts_logging S \<and>
     ts_trajectory T = ts_trajectory S \<and> ts_forensics T = ts_forensics S \<and> ts_base T = ts_base S \<and>
     ts_TE_events T = ts_TE_events S \<and> (tsem_ok S \<longrightarrow> tsem_ok T)"

lemma same_map_refl [simp]: "same_map S S"
  by (simp add: same_map_def)

lemma same_map_trans: "same_map S T \<Longrightarrow> same_map T U \<Longrightarrow> same_map S U"
  by (simp add: same_map_def)

lemma same_map_simps [simp]:
  "same_map S (T\<lparr>ts_model := M\<rparr>) = same_map S T" "same_map S (tsem_poison T) = same_map S T"
  "same_map S (T\<lparr>ts_discipline_pid := e\<rparr>) = same_map S T"
  by (simp_all add: same_map_def) (simp_all add: tsem_poison_def)

lemma same_map_default: "tsem_ok S \<Longrightarrow> sha_ok sha \<Longrightarrow> same_map S (tsem_default sha S)"
  using tsem_default_ok [of S sha] by (auto simp: same_map_def tsem_default_def Let_def)

text \<open>The point of a measured event; a measurement of the wrong size leaves the zero point.\<close>

definition event_identity :: "SecurityEvent_State \<Rightarrow> byte list" where
  "event_identity event = b_data (sh_buffer (se_identity event))"

definition point_id :: "SecurityEvent_State \<Rightarrow> byte list" where
  "point_id event = (if length (event_identity event) = IDSIZE then event_identity event else zero_id)"

lemma get_identity_point:
  assumes "SecurityEvent_get_identity (ev, buf_empty) = Ret u (ev1, pt)"
  shows "sp_point (SecurityPoint_add pt SecurityPoint_Init) = point_id ev1"
  using assms
  by (auto simp: SecurityEvent_get_identity_def Sha256_get_Buffer_def buf_add_def buf_empty_def
      point_id_def event_identity_def SecurityPoint_add_def SecurityPoint_Init_def buf_size_def zero_id_def
      split: if_splits)

lemma TSEM_update_cases [consumes 2, case_names crashed failed registered]:
  assumes ok: "tsem_ok S" and sha: "sha_ok sha"
  obtains (crashed) "TSEM_update sha (S, event) = Undef"
  | (failed) T ev where "TSEM_update sha (S, event) = Fail (T, ev)" "same_map S T"
  | (registered) T ev cp pid where "same_map S T" "point_ok cp" "\<not> sp_violation cp" "sp_count cp = 0"
      "sp_point cp = point_id ev" "SecurityEvent_get_pid ev = Some pid"
      "ts_have_aggregate T" "ts_measurement T = ts_measurement (tsem_default sha S)"
      "ts_aggregate T = ts_aggregate (tsem_default sha S)"
      "TSEM_update sha (S, event) = on_fail (\<lambda>(S, event). (tsem_poison S, event)) (TSEM_register sha cp (T, ev))"
      "ts_discipline_pid T = pid" "\<not> ts_poisoned T"
proof -
  let ?pre = "steps
     [fail_if (\<lambda>(S, event). ts_poisoned S),
      fail_if (\<lambda>(S, event). ts_loading S),
      (\<lambda>(S, event). zoom (\<lambda>S. (S, event)) (TSEM_default_aggregate sha S)),
      (\<lambda>(S, event). case ts_model S of
                      None \<Rightarrow> Ret () (S, event)
                    | Some M \<Rightarrow> zoom (\<lambda>(M, event). (S\<lparr>ts_model := Some M\<rparr>, event))
                                 (EventModel_evaluate sha (M, event))),
      (\<lambda>(S, event). zoom (\<lambda>event. (S, event)) (SecurityEvent_measure sha event))] (S, event)"
  have pre: "keeps (\<lambda>(T, ev). same_map S T \<and> (?pre = Ret () (T, ev) \<longrightarrow>
      ts_have_aggregate T \<and> ts_measurement T = ts_measurement (tsem_default sha S) \<and>
      ts_aggregate T = ts_aggregate (tsem_default sha S) \<and> \<not> ts_poisoned T)) ?pre"
  proof (cases "ts_poisoned S \<or> ts_loading S")
    case True
    then show ?thesis by (cases "ts_poisoned S") simp_all
  next
    case False
    have d: "TSEM_default_aggregate sha S = Ret () (tsem_default sha S)"
      by (rule TSEM_default_aggregate_ok [OF ok sha])
    show ?thesis
    proof (cases "ts_model S")
      case None
      then show ?thesis
        using False d same_map_default [OF ok sha]
        by (cases "SecurityEvent_measure sha event") simp_all
    next
      case (Some M)
      show ?thesis
      proof (cases "EventModel_evaluate sha (M, event)")
        case (Ret u x)
        obtain M1 ev where x: "x = (M1, ev)" by fastforce
        show ?thesis
          using Some Ret x False d same_map_default [OF ok sha]
          by (cases "SecurityEvent_measure sha ev") simp_all
      next
        case (Fail x)
        obtain M1 ev where x: "x = (M1, ev)" by fastforce
        show ?thesis using Some Fail x False d same_map_default [OF ok sha] by simp
      next
        case Undef
        then show ?thesis using Some False d by simp
      qed
    qed
  qed
  show thesis
  proof (cases ?pre)
    case Undef
    then show ?thesis by (intro crashed) (simp only: TSEM_update_def res_bind.simps on_fail.simps)
  next
    case (Fail x)
    obtain T ev where x: "x = (T, ev)" by fastforce
    have "TSEM_update sha (S, event) = Fail (tsem_poison T, ev)"
      using Fail x by (simp only: TSEM_update_def res_bind.simps on_fail.simps prod.case)
    moreover have "same_map S (tsem_poison T)" using pre Fail x by simp
    ultimately show ?thesis by (rule failed)
  next
    case (Ret u x)
    obtain T ev where x: "x = (T, ev)" by fastforce
    have T: "same_map S T" "ts_have_aggregate T" "ts_measurement T = ts_measurement (tsem_default sha S)"
      "ts_aggregate T = ts_aggregate (tsem_default sha S)" "\<not> ts_poisoned T"
      using pre Ret x by simp_all
    let ?rest = "case SecurityEvent_get_identity (ev, buf_empty) of
                Undef \<Rightarrow> Undef
              | Fail (event, _) \<Rightarrow> Fail (T, event)
              | Ret _ (event, point) \<Rightarrow>
                  (case SecurityEvent_get_pid event of
                     None \<Rightarrow> Fail (T, event)
                   | Some pid \<Rightarrow>
                       TSEM_register sha (SecurityPoint_add point SecurityPoint_Init)
                         (T\<lparr>ts_discipline_pid := pid\<rparr>, event))"
    have up: "TSEM_update sha (S, event) = on_fail (\<lambda>(S, event). (tsem_poison S, event)) ?rest"
      using Ret x by (simp only: TSEM_update_def res_bind.simps prod.case)
    show ?thesis
    proof (cases "SecurityEvent_get_identity (ev, buf_empty)")
      case (Ret v y)
      obtain ev1 pt where y: "y = (ev1, pt)" by fastforce
      show ?thesis
      proof (cases "SecurityEvent_get_pid ev1")
        case None
        then show ?thesis using Ret y up T by (intro failed [of "tsem_poison T" ev1]) simp_all
      next
        case (Some pid)
        let ?cp = "SecurityPoint_add pt SecurityPoint_Init"
        have "point_ok ?cp" "\<not> sp_violation ?cp" "sp_count ?cp = 0"
          by (simp_all add: SecurityPoint_add_def SecurityPoint_Init_def point_ok_def buf_size_def)
        then show ?thesis
          using Some Ret y up T get_identity_point [of ev v ev1 pt]
          by (intro registered [of "T\<lparr>ts_discipline_pid := pid\<rparr>" ?cp ev1 pid]) simp_all
      qed
    next
      case (Fail y)
      obtain ev1 pt where y: "y = (ev1, pt)" by fastforce
      show ?thesis using Fail y up T by (intro failed [of "tsem_poison T" ev1]) simp_all
    next
      case Undef
      then show ?thesis using up by (intro crashed) simp
    qed
  qed
qed

end
