(* ===== verification/TSEMRun.thy ===== *)
theory TSEMRun
  imports TSEMLemmas
begin

text \<open>
  The life of a model: the step relation of its operations, what one step may do to the
  map of points, and the invariants of every reachable model.
\<close>

section \<open>The effect of an operation on the map\<close>

definition valid_points :: "TSEM_State \<Rightarrow> byte list list" where
  "valid_points S = map sp_point (filter (\<lambda>p. \<not> sp_violation p) (points_of S))"

definition violations :: "TSEM_State \<Rightarrow> byte list list" where
  "violations S = map sp_point (filter sp_violation (points_of S))"

text \<open>
  The model stays well formed; a sealed model stays sealed and its valid points are frozen; a
  model without seal has no new violations; points are never lost; and while events are logged, every
  new violation is in the forensics list.
\<close>

definition history :: "TSEM_State \<Rightarrow> TSEM_State \<Rightarrow> bool" where
  "history S T \<longleftrightarrow> tsem_ok T \<and>
     (ts_sealed S \<longrightarrow> ts_sealed T \<and> valid_points T = valid_points S) \<and>
     (\<not> ts_sealed T \<longrightarrow> violations T = violations S) \<and>
     (\<exists>vs. valid_points T = valid_points S @ vs) \<and> (\<exists>ws. violations T = violations S @ ws) \<and>
     (ts_logging T \<longrightarrow> ts_logging S \<and>
        length (gg_objects (ts_forensics T)) + length (violations S) =
        length (gg_objects (ts_forensics S)) + length (violations T))"

text \<open>All operations but \<open>disable_logging\<close> keep the logging flag as well.\<close>

definition effect :: "TSEM_State \<Rightarrow> TSEM_State \<Rightarrow> bool" where
  "effect S T \<longleftrightarrow> history S T \<and> ts_logging T = ts_logging S"

definition effectful :: "(TSEM_State \<Rightarrow> ('a, TSEM_State) res) \<Rightarrow> bool" where
  "effectful f \<longleftrightarrow> (\<forall>S. tsem_ok S \<longrightarrow> keeps (effect S) (f S))"

named_theorems effects \<open>operations that have the effect of a model operation\<close>

lemma effect_refl: "tsem_ok S \<Longrightarrow> effect S S"
  by (simp add: effect_def history_def)

lemma effect_ok: "effect S T \<Longrightarrow> tsem_ok T"
  by (simp add: effect_def history_def)

lemma effect_history: "effect S T \<Longrightarrow> history S T"
  by (simp add: effect_def)

lemma history_trans:
  assumes ST: "history S T" and TU: "history T U"
  shows "history S U"
proof -
  have "\<exists>vs. valid_points U = valid_points S @ vs" "\<exists>ws. violations U = violations S @ ws"
    using ST TU unfolding history_def by fastforce+
  moreover have "ts_logging U \<longrightarrow> ts_logging S \<and>
        length (gg_objects (ts_forensics U)) + length (violations S) =
        length (gg_objects (ts_forensics S)) + length (violations U)"
    using ST TU unfolding history_def by linarith
  moreover have "\<not> ts_sealed U \<longrightarrow> violations U = violations S"
    using ST TU unfolding history_def by metis
  moreover have "ts_sealed S \<longrightarrow> ts_sealed U \<and> valid_points U = valid_points S" "tsem_ok U"
    using ST TU unfolding history_def by metis+
  ultimately show ?thesis unfolding history_def by blast
qed

lemma effect_trans: "effect S T \<Longrightarrow> effect T U \<Longrightarrow> effect S U"
  using history_trans by (auto simp: effect_def)

lemma effectful_Ret [effects]: "effectful (Ret v)"
  by (simp add: effectful_def effect_refl)

lemma effectful_Fail [effects]: "effectful Fail"
  by (simp add: effectful_def effect_refl)

lemma effectful_fail_if [effects]: "effectful (fail_if c)"
  by (simp add: effectful_def effect_refl)

lemma effectful_steps:
  assumes "\<forall>f \<in> set fs. effectful f"
  shows "effectful (steps fs)"
  unfolding effectful_def
proof (intro allI impI)
  fix S assume ok: "tsem_ok S"
  show "keeps (effect S) (steps fs S)"
  proof (rule keeps_steps)
    fix f T assume f: "f \<in> set fs" and T: "effect S T"
    then have "keeps (effect T) (f T)"
      using assms effect_ok [OF T] by (simp add: effectful_def)
    then show "keeps (effect S) (f T)"
      by (rule keeps_mono) (rule effect_trans [OF T])
  qed (rule effect_refl [OF ok])
qed

lemma effectful_on_fail [effects]:
  assumes "effectful f"
  shows "effectful (\<lambda>S. on_fail tsem_poison (f S))"
  unfolding effectful_def
proof (intro allI impI)
  fix S assume ok: "tsem_ok S"
  have "effect S T \<Longrightarrow> effect S (tsem_poison T)" for T
    by (simp add: effect_def history_def valid_points_def violations_def tsem_poison_def)
  then show "keeps (effect S) (on_fail tsem_poison (f S))"
    using assms ok by (auto simp: effectful_def intro: keeps_on_fail)
qed

lemma effectful_if [effects]:
  "effectful f \<Longrightarrow> effectful g \<Longrightarrow> effectful (\<lambda>S. if c S then f S else g S)"
  by (simp add: effectful_def)

lemma effectful_case_option [effects]:
  "effectful f \<Longrightarrow> (\<And>x. effectful (g x)) \<Longrightarrow> effectful (\<lambda>S. case h S of None \<Rightarrow> f S | Some x \<Rightarrow> g x S)"
  by (auto simp: effectful_def split: option.splits)

text \<open>An operation that leaves the map, the lists and the flags.\<close>

lemma same_map_effect: "same_map S T \<Longrightarrow> tsem_ok S \<Longrightarrow> effect S T"
  by (simp add: same_map_def effect_def history_def valid_points_def violations_def)

lemma effectful_same_map:
  assumes "\<And>S. tsem_ok S \<Longrightarrow> keeps (same_map S) (f S)"
  shows "effectful f"
  unfolding effectful_def
  using assms by (auto intro: keeps_mono same_map_effect)

lemma effect_seal: "tsem_ok S \<Longrightarrow> effect S (TSEM_seal S)"
  by (simp add: effect_def history_def valid_points_def violations_def TSEM_seal_def)

section \<open>Updates\<close>

lemma gaggle_of_objects [simp]: "gg_objects (gaggle_of xs c) = xs"
  by simp

lemma effect_count:
  assumes "tsem_ok S"
  shows "effect S (S\<lparr>ts_points := gaggle_of (count_point d (points_of S)) c\<rparr>)"
  using tsem_count_ok [OF assms] by (simp add: effect_def history_def valid_points_def violations_def)

lemma effect_learn:
  assumes "tsem_ok S" "sha_ok sha" "sp_point cp \<notin> known (points_of S)" "point_ok cp" "\<not> sp_violation cp"
  shows "effect S (tsem_learn sha cp event pid S)"
  using tsem_learn_ok [OF assms(1-4)] assms(5)
  by (simp add: effect_def history_def valid_points_def violations_def) (simp add: tsem_learn_def)

lemma TSEM_update_effect:
  assumes ok: "tsem_ok S" and sha: "sha_ok sha"
  shows "keeps (\<lambda>(T, ev). effect S T) (TSEM_update sha (S, event))"
using ok sha
proof (cases rule: TSEM_update_cases [where event = event])
  case crashed
  then show ?thesis by simp
next
  case (failed T ev)
  then show ?thesis by (simp add: same_map_effect [OF _ ok])
next
  case (registered T ev cp pid)
  have T: "tsem_ok T" "effect S T"
    using registered(1) ok same_map_effect by (auto simp: same_map_def)
  show ?thesis
  using T(1) sha registered(2,6)
  proof (cases rule: TSEM_register_cases)
    case (known c)
    then show ?thesis
      using registered effect_trans [OF T(2) effect_count [OF T(1)]] by simp
  next
    case new
    then show ?thesis
      using registered effect_trans [OF T(2) effect_learn [OF T(1) sha]] by simp
  qed
qed

text \<open>What the caller of an update is told.\<close>

lemma violates_violations: "violates d (points_of S) \<longleftrightarrow> d \<in> set (violations S)"
  by (auto simp: violates_def violations_def)

lemma known_points: "known (points_of S) = set (valid_points S) \<union> set (violations S)"
  by (auto simp: known_def valid_points_def violations_def)

lemma valid_not_violation:
  assumes "tsem_ok S" "d \<in> set (valid_points S)"
  shows "d \<notin> set (violations S)"
proof
  assume "d \<in> set (violations S)"
  with assms(2) obtain p q where pq: "p \<in> set (points_of S)" "q \<in> set (points_of S)"
    "sp_point p = sp_point q" "\<not> sp_violation p" "sp_violation q"
    by (auto simp: valid_points_def violations_def)
  have "distinct (map sp_point (points_of S))"
    using assms(1) by (auto simp: tsem_ok_def elim: points_okE)
  with pq have "p = q" by (auto simp: distinct_map inj_on_def)
  with pq show False by simp
qed

definition count_of :: "byte list \<Rightarrow> TSEM_State \<Rightarrow> u64" where
  "count_of d S = (case find (\<lambda>p. sp_point p = d) (points_of S) of None \<Rightarrow> 0 | Some p \<Rightarrow> sp_count p)"

lemma find_count_point:
  "find (\<lambda>p. sp_point p = e) (count_point d ps) =
     map_option (\<lambda>p. if e = d then SecurityPoint_increment p else p) (find (\<lambda>p. sp_point p = e) ps)"
  by (induction ps) (auto simp: count_point_def)

lemma find_append: "find P (xs @ ys) = (case find P xs of None \<Rightarrow> find P ys | Some x \<Rightarrow> Some x)"
  by (induction xs) auto

lemma find_unknown: "d \<notin> known ps \<longleftrightarrow> find (\<lambda>p. sp_point p = d) ps = None"
  by (induction ps) (auto simp: known_def)

lemma tsem_learn_facts:
  "points_of (tsem_learn sha cp ev pid S) = points_of S @
     [cp\<lparr>sp_count := sp_count cp + 1, sp_violation := sp_violation cp \<or> ts_sealed S\<rparr>]"
  "ts_sealed (tsem_learn sha cp ev pid S) = ts_sealed S"
  "ts_base (tsem_learn sha cp ev pid S) = ts_base S"
  "ts_have_aggregate (tsem_learn sha cp ev pid S) = ts_have_aggregate S"
  "ts_aggregate (tsem_learn sha cp ev pid S) = ts_aggregate S"
  "ts_measurement (tsem_learn sha cp ev pid S) =
     extend_value sha (ts_base S) (ts_measurement S) (sp_point cp)"
  "violations (tsem_learn sha cp ev pid S) =
     violations S @ (if sp_violation cp \<or> ts_sealed S then [sp_point cp] else [])"
  by (simp_all add: tsem_learn_def violations_def)

lemma count_of_learn:
  assumes "sp_point cp \<notin> known (points_of S)"
  shows "count_of d (tsem_learn sha cp ev pid S) =
           (if d = sp_point cp then sp_count cp + 1 else count_of d S)"
  using assms by (simp add: count_of_def tsem_learn_facts find_append find_unknown split: option.splits)

lemma count_of_count:
  assumes "e \<in> known (points_of S)"
  shows "count_of d (S\<lparr>ts_points := gaggle_of (count_point e (points_of S)) c\<rparr>) =
           (if d = e then count_of d S + 1 else count_of d S)"
  using assms find_unknown [of e "points_of S"]
  by (auto simp: count_of_def find_count_point split: option.splits)

lemma count_of_unknown: "d \<notin> known (points_of S) \<Longrightarrow> count_of d S = 0"
  by (simp add: count_of_def find_unknown)

lemma TSEM_update_verdict:
  assumes ok: "tsem_ok S" and sha: "sha_ok sha"
    and up: "TSEM_update sha (S, event) = Ret (status, discipline, seal) (T, ev)"
  shows "status \<longleftrightarrow> point_id ev \<notin> known (points_of S)"
    and "discipline \<longleftrightarrow> point_id ev \<in> set (violations T)"
    and "seal = ts_sealed S \<and> ts_sealed T = ts_sealed S"
    and "map sp_point (points_of T) =
           map sp_point (points_of S) @ (if status then [point_id ev] else [])"
    and "ts_measurement T =
           (let m = ts_measurement (tsem_default sha S)
            in if status then extend_value sha (ts_base S) m (point_id ev) else m)"
    and "ts_base T = ts_base S \<and> ts_have_aggregate T \<and> ts_aggregate T = ts_aggregate (tsem_default sha S)"
    and "count_of d T = (if d = point_id ev then count_of d S + 1 else count_of d S)"
proof -
  from ok sha have "(status \<longleftrightarrow> point_id ev \<notin> known (points_of S)) \<and>
      (discipline \<longleftrightarrow> point_id ev \<in> set (violations T)) \<and>
      (seal = ts_sealed S \<and> ts_sealed T = ts_sealed S) \<and>
      map sp_point (points_of T) = map sp_point (points_of S) @ (if status then [point_id ev] else []) \<and>
      ts_measurement T = (let m = ts_measurement (tsem_default sha S)
            in if status then extend_value sha (ts_base S) m (point_id ev) else m) \<and>
      (ts_base T = ts_base S \<and> ts_have_aggregate T \<and> ts_aggregate T = ts_aggregate (tsem_default sha S)) \<and>
      (count_of d T = (if d = point_id ev then count_of d S + 1 else count_of d S))"
  proof (cases rule: TSEM_update_cases [where event = event])
    case (registered U ev' cp pid)
    have U: "tsem_ok U" "points_of U = points_of S" "ts_sealed U = ts_sealed S" "ts_base U = ts_base S"
      "violations U = violations S" "\<And>d. count_of d U = count_of d S"
      using registered(1) ok by (auto simp: same_map_def violations_def count_of_def)
    from U(1) sha registered(2,6) show ?thesis
    proof (cases rule: TSEM_register_cases)
      case (known c)
      then have T: "\<not> status" "discipline \<longleftrightarrow> point_id ev \<in> set (violations S)" "seal = ts_sealed S" "ev = ev'"
        "T = U\<lparr>ts_points := gaggle_of (count_point (point_id ev) (points_of U)) c\<rparr>"
        using up registered U by (auto simp: violates_violations)
      moreover have k: "point_id ev \<in> known (points_of U)" using known(1) registered(5) T(4) by simp
      moreover have "count_of d T = (if d = point_id ev then count_of d S + 1 else count_of d S)"
        unfolding T(5) by (simp only: count_of_count [OF k] U(6))
      moreover have "violations T = violations S" using T(5) U by (simp add: violations_def)
      ultimately show ?thesis using registered U by simp
    next
      case new
      then have T: "status" "discipline \<longleftrightarrow> ts_sealed S" "seal = ts_sealed S" "ev = ev'"
        "T = tsem_learn sha cp ev pid U" "point_id ev = sp_point cp"
        using up registered U by auto
      moreover have "point_id ev \<notin> set (violations S)"
        using new(1) U T(6) known_points [of S] by auto
      ultimately show ?thesis
        using new registered U count_of_unknown [of "sp_point cp" S] count_of_learn
        by (simp add: tsem_learn_facts)
    qed
  qed (use up in simp_all)
  then show "status \<longleftrightarrow> point_id ev \<notin> known (points_of S)"
    and "discipline \<longleftrightarrow> point_id ev \<in> set (violations T)"
    and "seal = ts_sealed S \<and> ts_sealed T = ts_sealed S"
    and "map sp_point (points_of T) =
           map sp_point (points_of S) @ (if status then [point_id ev] else [])"
    and "ts_measurement T =
           (let m = ts_measurement (tsem_default sha S)
            in if status then extend_value sha (ts_base S) m (point_id ev) else m)"
    and "ts_base T = ts_base S \<and> ts_have_aggregate T \<and> ts_aggregate T = ts_aggregate (tsem_default sha S)"
    and "count_of d T = (if d = point_id ev then count_of d S + 1 else count_of d S)"
    by blast+
qed

section \<open>Loading\<close>

lemma effectful_add_entry [effects]: "effectful (TSEM_add_entry text)"
proof (rule effectful_same_map)
  fix S assume ok: "tsem_ok S"
  show "keeps (same_map S) (TSEM_add_entry text S)"
    by (auto simp: TSEM_add_entry_def keeps_zoom buf_add_def same_map_def split: option.splits)
qed

lemma effectful_assign:
  "(\<And>S. same_map S (g S)) \<Longrightarrow> effectful (assign g)"
  by (rule effectful_same_map) simp

lemma effectful_with_hex [effects]:
  assumes "\<And>b. b_poisoned b \<or> effectful (f b)"
  shows "effectful (with_hex arg f)"
  unfolding effectful_def
proof (intro allI impI)
  fix S assume ok: "tsem_ok S"
  show "keeps (effect S) (with_hex arg f S)"
  proof (cases "buf_add_hexstring (Some arg) buf_empty")
    case (Ret u b)
    then have "\<not> b_poisoned b"
      by (auto simp: buf_add_hexstring_def buf_empty_def split: if_splits option.splits)
    then have "effectful (f b)" using assms by blast
    then show ?thesis using Ret ok by (simp add: with_hex_def effectful_def)
  qed (use ok in \<open>simp_all add: with_hex_def effect_refl\<close>)
qed

lemma TSEM_set_aggregate_value:
  assumes ok: "tsem_ok S" and sha: "sha_ok sha" and live: "\<not> ts_poisoned S" "\<not> ts_sealed S"
    and b: "\<not> b_poisoned b" "IDSIZE \<le> length (b_data b)"
    and m: "m = extend_value sha (ts_base S) zero_id (take IDSIZE (b_data b))"
  shows "TSEM_set_aggregate sha b S = Ret ()
           (if ts_have_aggregate S \<and> b_data (ts_aggregate S) = m then S
            else S\<lparr>ts_aggregate := \<lparr>b_poisoned = False, b_data = m\<rparr>, ts_measurement := m,
                   ts_have_aggregate := True\<rparr>)"
proof -
  have agg: "\<not> b_poisoned (ts_aggregate S)"
    "ts_have_aggregate S \<Longrightarrow> length (b_data (ts_aggregate S)) = IDSIZE"
    "\<not> ts_have_aggregate S \<Longrightarrow> b_data (ts_aggregate S) = []"
    using ok by (auto simp: tsem_ok_def aggregate_ok_def)
  have ext: "TSEM_extend_measurement sha (ts_base S) (b_data b) zero_id = Ret m m"
    using TSEM_extend_measurement_value [OF sha b(2)] m by simp
  show ?thesis
  proof (cases "ts_have_aggregate S")
    case True
    with agg have "read_bytes IDSIZE (b_data (ts_aggregate S)) = Some (b_data (ts_aggregate S))"
      by (simp add: read_bytes_def)
    with True agg live b ext show ?thesis
      by (simp add: TSEM_set_aggregate_def on_aggregate_def buf_reset_def buf_add_def)
  next
    case False
    with agg live b ext show ?thesis
      by (simp add: TSEM_set_aggregate_def on_aggregate_def buf_add_def)
  qed
qed

lemma effectful_set_aggregate:
  assumes sha: "sha_ok sha"
  shows "effectful (TSEM_set_aggregate sha b)"
proof (rule effectful_same_map)
  fix S assume ok: "tsem_ok S"
  have p: "same_map S (tsem_poison S)" by simp
  show "keeps (same_map S) (TSEM_set_aggregate sha b S)"
  proof (cases "ts_poisoned S \<or> ts_sealed S")
    case True
    then show ?thesis using p by (cases "ts_poisoned S") (simp_all add: TSEM_set_aggregate_def)
  next
    case live: False
    show ?thesis
    proof (cases "\<not> b_poisoned b \<and> IDSIZE \<le> length (b_data b)")
      case True
      define m where "m = extend_value sha (ts_base S) zero_id (take IDSIZE (b_data b))"
      have "same_map S (S\<lparr>ts_aggregate := \<lparr>b_poisoned = False, b_data = m\<rparr>, ts_measurement := m,
                          ts_have_aggregate := True\<rparr>)"
        using ok sha by (simp add: same_map_def tsem_ok_def aggregate_ok_def m_def)
      then show ?thesis
        using TSEM_set_aggregate_value [OF ok sha _ _ _ _ m_def] live True by simp
    next
      case False
      then have "TSEM_extend_measurement sha (ts_base S) (if b_poisoned b then [] else b_data b) zero_id = Undef"
        by (auto simp: TSEM_extend_measurement_def read_bytes_def)
      then show ?thesis using live by (simp add: TSEM_set_aggregate_def)
    qed
  qed
qed

lemma effect_map:
  assumes ok: "tsem_ok S" and sha: "sha_ok sha" and new: "sp_point cp \<notin> known (points_of S)"
    and cp: "point_ok cp" "\<not> sp_violation cp" and open_model: "\<not> ts_sealed S"
  shows "effect S (S\<lparr>ts_measurement := extend_value sha (ts_base S) (ts_measurement S) (sp_point cp),
                     ts_points := gaggle_of (points_of S @ [cp]) c\<rparr>)"
proof -
  have "points_ok (gaggle_of (points_of S @ [cp]) c)"
    using ok new cp by (auto simp: tsem_ok_def points_ok_def known_def)
  then show ?thesis
    using ok sha cp open_model by (simp add: effect_def history_def valid_points_def violations_def tsem_ok_def)
qed

lemma effectful_update_map:
  assumes sha: "sha_ok sha"
  shows "effectful (TSEM_update_map sha b)"
  unfolding effectful_def
proof (intro allI impI)
  fix S assume ok: "tsem_ok S"
  let ?cp = "SecurityPoint_add b SecurityPoint_Init"
  have cp: "point_ok ?cp" "\<not> sp_violation ?cp"
    by (simp_all add: SecurityPoint_add_def SecurityPoint_Init_def point_ok_def buf_size_def)
  obtain c where c: "ts_points S = gaggle_of (points_of S) c" "distinct (map sp_point (points_of S))"
    using ok by (auto simp: tsem_ok_def elim: points_okE)
  show "keeps (effect S) (TSEM_update_map sha b S)"
  proof (cases "ts_poisoned S \<or> b_poisoned b \<or> buf_size b \<noteq> IDSIZE \<or> ts_sealed S")
    case True
    then show ?thesis using ok by (auto simp: TSEM_update_map_def effect_refl)
  next
    case False
    show ?thesis
    proof (cases "sp_point ?cp \<in> known (points_of S)")
      case True
      obtain c' where "TSEM_is_mapped (gaggle_of (points_of S) c) ?cp =
        Some (True, gaggle_of (count_point (sp_point ?cp) (points_of S)) c',
              if violates (sp_point ?cp) (points_of S) then SecurityPoint_set_invalid ?cp else ?cp)"
        using TSEM_is_mapped_known [OF c(2) True] by blast
      then have "TSEM_is_mapped (ts_points S) ?cp =
        Some (True, gaggle_of (count_point (sp_point ?cp) (points_of S)) c',
              if violates (sp_point ?cp) (points_of S) then SecurityPoint_set_invalid ?cp else ?cp)"
        using c(1) by simp
      then show ?thesis using False effect_count [OF ok] by (simp add: TSEM_update_map_def)
    next
      case new: False
      have "TSEM_is_mapped (ts_points S) ?cp =
              Some (False, gaggle_of (points_of S) (length (points_of S)), ?cp)"
        using TSEM_is_mapped_new [OF new, of c] c(1) by simp
      then show ?thesis
        using False cp effect_map [OF ok sha new cp, of "length (points_of S)"]
        by (simp add: TSEM_update_map_def SecurityPoint_get_def TSEM_extend_value [OF sha] point_ok_def
            del: fun_upd_apply)
    qed
  qed
qed

lemma effectful_load_command:
  assumes sha: "sha_ok (cr_sha cr)"
  shows "effectful (TSEM_load_command cr cmd text arg)"
proof -
  have key: "effectful (\<lambda>S. zoom (\<lambda>k. S\<lparr>ts_key := Some k\<rparr>) (buf_add bs (the (ts_key S))))" for bs
    by (rule effectful_same_map) (auto simp: keeps_zoom buf_add_def same_map_def)
  have base: "effectful (\<lambda>S. case read_bytes IDSIZE bs of None \<Rightarrow> Undef | Some b \<Rightarrow> Ret () (S\<lparr>ts_base := b\<rparr>))" for bs
    by (auto simp: effectful_def effect_def history_def valid_points_def violations_def tsem_ok_def read_bytes_def)
  have model: "effectful (\<lambda>S. zoom (\<lambda>M. S\<lparr>ts_model := Some M\<rparr>) (EventModel_add_pseudonym b (the (ts_model S))))" for b
    by (rule effectful_same_map)
      (simp add: keeps_zoom, simp add: keeps_def same_map_def split: res.splits)
  have seal: "effectful (assign TSEM_seal)"
    by (auto simp: effectful_def effect_def history_def valid_points_def violations_def TSEM_seal_def)
  have sig: "effectful (\<lambda>S. case (ts_key S, ts_sigdata S) of
             (Some key, Some sigdata) \<Rightarrow>
               (case TSEM_verify_model cr arg (b_data sigdata) key of
                  Ret valid k \<Rightarrow> (if valid then Ret () (S\<lparr>ts_key := Some k\<rparr>)
                                 else Fail (S\<lparr>ts_key := Some k\<rparr>))
                | Fail k \<Rightarrow> Fail (S\<lparr>ts_key := Some k\<rparr>)
                | Undef \<Rightarrow> Undef)
           | _ \<Rightarrow> Fail S)"
    by (rule effectful_same_map) (auto simp: same_map_def split: option.splits res.splits)
  have hex: "effectful (with_hex arg (\<lambda>b S. case read_bytes IDSIZE (b_data b) of
        None \<Rightarrow> Undef | Some base \<Rightarrow> Ret () (S\<lparr>ts_base := base\<rparr>)))"
    "effectful (with_hex arg (TSEM_set_aggregate (cr_sha cr)))"
    "effectful (with_hex arg (TSEM_update_map (cr_sha cr)))"
    "effectful (with_hex arg (\<lambda>b S. zoom (\<lambda>M. S\<lparr>ts_model := Some M\<rparr>)
                                (EventModel_add_pseudonym b (the (ts_model S)))))"
    using base model effectful_set_aggregate [OF sha] effectful_update_map [OF sha]
    by (auto intro: effectful_with_hex)
  have asg: "effectful (assign (\<lambda>S. S\<lparr>ts_key := Some buf_empty\<rparr>))"
    "effectful (assign (\<lambda>S. if ts_model S = None then S\<lparr>ts_model := Some EventModel_Init\<rparr> else S))"
    "effectful (assign (\<lambda>S. S\<lparr>ts_loading := False\<rparr>))"
    by (auto intro!: effectful_assign simp: same_map_def)
  show ?thesis
    unfolding TSEM_load_command_def
    by (cases cmd, insert sig)
      (simp_all add: effectful_steps hex asg key seal effectful_add_entry effectful_fail_if
        del: assign_simp steps.simps)
qed

lemma effectful_load:
  assumes sha: "sha_ok (cr_sha cr)"
  shows "effectful (TSEM_load cr entry)"
  unfolding effectful_def
proof (intro allI impI)
  fix S assume ok: "tsem_ok S"
  have upd: "effect S (S\<lparr>ts_loading := True\<rparr>)" "effect S S"
    "effect S (S\<lparr>ts_loading := True, ts_sigdata := d\<rparr>)" "effect S (S\<lparr>ts_sigdata := d\<rparr>)" for d
    using ok by (simp_all add: effect_def history_def valid_points_def violations_def)
  have cmd: "keeps (effect S) (TSEM_load_command cr c t arg T)" if "effect S T" for c t arg T
    using effectful_load_command [OF sha, of c t arg] effect_ok [OF that] effect_trans [OF that]
    by (auto simp: effectful_def intro: keeps_mono)
  show "keeps (effect S) (TSEM_load cr entry S)"
    using upd by (auto simp: TSEM_load_def Let_def cmd split: option.splits prod.splits)
qed

section \<open>Reachable models\<close>

text \<open>The state a method leaves, whether it returned true or false.\<close>

fun res_state :: "('a, 's) res \<Rightarrow> 's option" where
  "res_state (Ret a s) = Some s"
| "res_state (Fail s) = Some s"
| "res_state Undef = None"

lemma keeps_res_state: "keeps P r \<Longrightarrow> res_state r = Some s \<Longrightarrow> P s"
  by (cases r) simp_all

inductive tsem_step :: "crypto \<Rightarrow> TSEM_State \<Rightarrow> TSEM_State \<Rightarrow> bool" for cr where
  step_update: "res_state (TSEM_update (cr_sha cr) (S, event)) = Some (T, ev) \<Longrightarrow> tsem_step cr S T"
| step_load: "res_state (TSEM_load cr entry S) = Some T \<Longrightarrow> tsem_step cr S T"
| step_set_aggregate: "res_state (TSEM_set_aggregate (cr_sha cr) b S) = Some T \<Longrightarrow> tsem_step cr S T"
| step_add_TSEM_event: "res_state (TSEM_add_TSEM_event t S) = Some T \<Longrightarrow> tsem_step cr S T"
| step_get_state: "res_state (TSEM_get_state (cr_sha cr) (S, out)) = Some (T, out') \<Longrightarrow> tsem_step cr S T"
| step_discipline_pid: "res_state (TSEM_discipline_pid S) = Some T \<Longrightarrow> tsem_step cr S T"
| step_seal: "tsem_step cr S (TSEM_seal S)"
| step_disable_logging: "tsem_step cr S (TSEM_disable_logging S)"
| step_get_event: "tsem_step cr S (snd (TSEM_get_event S))"
| step_rewind_event: "tsem_step cr S (TSEM_rewind_event S)"
| step_get_point: "tsem_step cr S (snd (TSEM_get_point S))"
| step_rewind_points: "tsem_step cr S (TSEM_rewind_points S)"
| step_get_forensics: "tsem_step cr S (snd (TSEM_get_forensics S))"
| step_rewind_forensics: "tsem_step cr S (TSEM_rewind_forensics S)"
| step_get_TSEM_event: "tsem_step cr S (snd (TSEM_get_TSEM_event S))"
| step_rewind_TSEM_event: "tsem_step cr S (TSEM_rewind_TSEM_event S)"

inductive tsem_steps :: "crypto \<Rightarrow> TSEM_State \<Rightarrow> TSEM_State \<Rightarrow> bool" for cr where
  steps_refl: "tsem_steps cr S S"
| steps_step: "tsem_steps cr S T \<Longrightarrow> tsem_step cr T U \<Longrightarrow> tsem_steps cr S U"

text \<open>A cursor moves in a pack.\<close>

lemma Gaggle_get_objects [simp]:
  "gg_objects (snd (Gaggle_get g)) = gg_objects g" "gaggle_ok (snd (Gaggle_get g)) = gaggle_ok g"
  "gg_objects (Gaggle_rewind_cursor g) = gg_objects g" "gaggle_ok (Gaggle_rewind_cursor g) = gaggle_ok g"
  by (simp_all add: Gaggle_get_def Gaggle_rewind_cursor_def gaggle_ok_def)

lemma points_ok_iff:
  "points_ok g \<longleftrightarrow> gaggle_ok g \<and> distinct (map sp_point (gg_objects g)) \<and> (\<forall>p \<in> set (gg_objects g). point_ok p)"
  by (auto simp: points_ok_def gaggle_ok_iff)

lemma effect_cursor:
  assumes "tsem_ok S" "gaggle_ok g" "gg_objects g = points_of S"
    "gaggle_ok t" "gaggle_ok f" "gg_objects f = gg_objects (ts_forensics S)" "gaggle_ok e"
  shows "effect S (S\<lparr>ts_points := g, ts_trajectory := t, ts_forensics := f, ts_TE_events := e\<rparr>)"
  using assms by (simp add: effect_def history_def tsem_ok_def points_ok_iff valid_points_def violations_def)

lemma tsem_gaggles:
  "tsem_ok S \<Longrightarrow> gaggle_ok (ts_points S) \<and> gaggle_ok (ts_trajectory S) \<and> gaggle_ok (ts_forensics S) \<and>
     gaggle_ok (ts_TE_events S)"
  by (simp add: tsem_ok_def points_ok_iff)

lemma effect_iterators:
  assumes ok: "tsem_ok S"
  shows "effect S (snd (TSEM_get_event S))" "effect S (TSEM_rewind_event S)"
    "effect S (snd (TSEM_get_point S))" "effect S (TSEM_rewind_points S)"
    "effect S (snd (TSEM_get_forensics S))" "effect S (TSEM_rewind_forensics S)"
    "effect S (snd (TSEM_get_TSEM_event S))" "effect S (TSEM_rewind_TSEM_event S)"
  using effect_cursor [OF ok] tsem_gaggles [OF ok] effect_refl [OF ok]
    effect_cursor [OF ok, of "ts_points S" "snd (Gaggle_get (ts_trajectory S))" "ts_forensics S" "ts_TE_events S"]
    effect_cursor [OF ok, of "ts_points S" "Gaggle_rewind_cursor (ts_trajectory S)" "ts_forensics S" "ts_TE_events S"]
    effect_cursor [OF ok, of "snd (Gaggle_get (ts_points S))" "ts_trajectory S" "ts_forensics S" "ts_TE_events S"]
    effect_cursor [OF ok, of "Gaggle_rewind_cursor (ts_points S)" "ts_trajectory S" "ts_forensics S" "ts_TE_events S"]
    effect_cursor [OF ok, of "ts_points S" "ts_trajectory S" "snd (Gaggle_get (ts_forensics S))" "ts_TE_events S"]
    effect_cursor [OF ok, of "ts_points S" "ts_trajectory S" "Gaggle_rewind_cursor (ts_forensics S)" "ts_TE_events S"]
    effect_cursor [OF ok, of "ts_points S" "ts_trajectory S" "ts_forensics S" "snd (Gaggle_get (ts_TE_events S))"]
    effect_cursor [OF ok, of "ts_points S" "ts_trajectory S" "ts_forensics S" "Gaggle_rewind_cursor (ts_TE_events S)"]
  by (simp_all add: TSEM_get_event_def TSEM_rewind_event_def TSEM_get_point_def TSEM_rewind_points_def
      TSEM_get_forensics_def TSEM_rewind_forensics_def TSEM_get_TSEM_event_def
      TSEM_rewind_TSEM_event_def case_prod_beta)

lemma clone_points_gaggle:
  "clone_points n (gaggle_of ps c) = Some (ds, g) \<Longrightarrow> \<exists>c'. g = gaggle_of ps c'"
  by (induction n arbitrary: c ds) (auto simp: Gaggle_get_of split: if_splits)

lemma effect_get_state:
  assumes ok: "tsem_ok S"
  shows "keeps (\<lambda>(T, out). effect S T) (TSEM_get_state sha (S, out))"
proof -
  obtain c where c: "ts_points S = gaggle_of (points_of S) c"
    using ok by (auto simp: tsem_ok_def elim: points_okE)
  have "effect S (S\<lparr>ts_points := g\<rparr>)"
    if "clone_points n (Gaggle_rewind_cursor (ts_points S)) = Some (ds, g)" for n ds g
  proof -
    have "clone_points n (gaggle_of (points_of S) 0) = Some (ds, g)"
      using that arg_cong [OF c, of Gaggle_rewind_cursor] by simp
    then obtain c' where "g = gaggle_of (points_of S) c'"
      using clone_points_gaggle by blast
    then show ?thesis
      using effect_cursor [OF ok, of g "ts_trajectory S" "ts_forensics S" "ts_TE_events S"]
        tsem_gaggles [OF ok] by simp
  qed
  then show ?thesis
    by (auto simp: TSEM_get_state_def Let_def keeps_def zoom_Ret_iff zoom_Fail_iff
        split: option.splits res.splits)
qed

lemma effect_add_TSEM_event:
  assumes ok: "tsem_ok S"
  shows "keeps (effect S) (TSEM_add_TSEM_event t S)"
proof -
  have "effect S (S\<lparr>ts_TE_events := gaggle_of xs c\<rparr>)" for xs c
    using ok by (simp add: effect_def history_def tsem_ok_def valid_points_def violations_def)
  then show ?thesis
    using effect_refl [OF ok] tsem_gaggles [OF ok]
    by (auto simp: TSEM_add_TSEM_event_def Gaggle_add_ok split: option.splits)
qed

lemma tsem_step_effect:
  assumes "tsem_step cr S T" "tsem_ok S" "sha_ok (cr_sha cr)"
  shows "effect S T \<or> T = TSEM_disable_logging S"
  using assms
proof (induction rule: tsem_step.induct)
  case (step_update S event T ev)
  then have "effect S T" using keeps_res_state [OF TSEM_update_effect] by fastforce
  then show ?case ..
next
  case (step_load entry S T)
  then have "keeps (effect S) (TSEM_load cr entry S)"
    using effectful_load [of cr entry] by (simp add: effectful_def)
  from keeps_res_state [OF this step_load(1)] show ?case ..
next
  case (step_set_aggregate b S T)
  then have "keeps (effect S) (TSEM_set_aggregate (cr_sha cr) b S)"
    using effectful_set_aggregate [of "cr_sha cr" b] by (simp add: effectful_def)
  from keeps_res_state [OF this step_set_aggregate(1)] show ?case ..
next
  case (step_add_TSEM_event t S T)
  from keeps_res_state [OF effect_add_TSEM_event [OF step_add_TSEM_event(2)] step_add_TSEM_event(1)]
  show ?case ..
next
  case (step_get_state S out T out')
  then have "effect S T" using keeps_res_state [OF effect_get_state] by fastforce
  then show ?case ..
next
  case (step_discipline_pid S T)
  then show ?case
    using same_map_effect [of S "tsem_poison S"]
    by (auto simp: TSEM_discipline_pid_def effect_refl split: if_splits)
next
  case (step_seal S)
  then show ?case by (simp add: effect_seal)
qed (simp_all add: effect_iterators)

lemma history_disable: "tsem_ok S \<Longrightarrow> history S (TSEM_disable_logging S)"
  by (simp add: history_def valid_points_def violations_def TSEM_disable_logging_def)

lemma tsem_steps_history:
  assumes "tsem_steps cr S T" "tsem_ok S" "sha_ok (cr_sha cr)"
  shows "history S T"
  using assms
proof (induction rule: tsem_steps.induct)
  case (steps_refl S)
  then show ?case using effect_history effect_refl by blast
next
  case (steps_step S T U)
  then have ST: "history S T" by blast
  then have "tsem_ok T" by (simp add: history_def)
  with tsem_step_effect [OF steps_step(2)] steps_step(5) have "history T U"
    using effect_history history_disable by blast
  with ST show ?case by (rule history_trans)
qed

text \<open>The invariants of a model that was made by its constructor.\<close>

lemma history_Init:
  assumes "history TSEM_Init S"
  shows "tsem_ok S" "\<not> ts_sealed S \<Longrightarrow> violations S = []"
    "ts_logging S \<Longrightarrow> length (gg_objects (ts_forensics S)) = length (violations S)"
proof -
  have i: "violations TSEM_Init = []" "gg_objects (ts_forensics TSEM_Init) = []"
    by (simp_all add: violations_def TSEM_Init_def Gaggle_Init_def)
  show "tsem_ok S" using assms by (simp add: history_def)
  show "\<not> ts_sealed S \<Longrightarrow> violations S = []"
    using assms i by (simp add: history_def)
  show "ts_logging S \<Longrightarrow> length (gg_objects (ts_forensics S)) = length (violations S)"
    using assms i by (simp add: history_def)
qed

lemma reachable_model:
  assumes "tsem_steps cr TSEM_Init S" "sha_ok (cr_sha cr)"
  shows "tsem_ok S" "\<not> ts_sealed S \<Longrightarrow> violations S = []"
    "ts_logging S \<Longrightarrow> length (gg_objects (ts_forensics S)) = length (violations S)"
  using history_Init [OF tsem_steps_history [OF assms(1) tsem_ok_Init assms(2)]] by blast+

section \<open>A run of updates\<close>

text \<open>The answers and the final model of a run in which every update returns true.\<close>

fun TSEM_run ::
  "(byte list \<Rightarrow> byte list) \<Rightarrow> SecurityEvent_State list \<Rightarrow> TSEM_State \<Rightarrow>
   ((SecurityEvent_State \<times> bool \<times> bool) list \<times> TSEM_State) option" where
  "TSEM_run sha [] S = Some ([], S)"
| "TSEM_run sha (event # events) S =
     (case TSEM_update sha (S, event) of
        Ret (status, discipline, seal) (T, ev) \<Rightarrow>
          map_option (\<lambda>(rs, U). ((ev, status, discipline) # rs, U)) (TSEM_run sha events T)
      | _ \<Rightarrow> None)"

definition new_points :: "(SecurityEvent_State \<times> bool \<times> bool) list \<Rightarrow> byte list list" where
  "new_points rs = [point_id ev. (ev, status, discipline) \<leftarrow> rs, status]"

lemma new_points_simps [simp]:
  "new_points [] = []"
  "new_points ((ev, status, discipline) # rs) = (if status then [point_id ev] else []) @ new_points rs"
  by (simp_all add: new_points_def)

lemma tsem_default_done: "ts_have_aggregate S \<Longrightarrow> tsem_default sha S = S"
  by (simp add: tsem_default_def)

lemma update_ok: 
  assumes "tsem_ok S" "sha_ok sha" "TSEM_update sha (S, event) = Ret r (T, ev)"
  shows "tsem_ok T"
  using TSEM_update_effect [OF assms(1,2), of event] assms(3) effect_ok by simp

lemma TSEM_run_measurement:
  assumes "TSEM_run sha events S = Some (rs, T)" "tsem_ok S" "sha_ok sha" "events \<noteq> []"
  shows "map sp_point (points_of T) = map sp_point (points_of S) @ new_points rs"
    and "ts_measurement T =
           foldl (extend_value sha (ts_base S)) (ts_measurement (tsem_default sha S)) (new_points rs)"
    and "ts_base T = ts_base S \<and> ts_aggregate T = ts_aggregate (tsem_default sha S) \<and> ts_have_aggregate T"
    and "tsem_ok T"
proof -
  from assms have "map sp_point (points_of T) = map sp_point (points_of S) @ new_points rs \<and>
    ts_measurement T =
      foldl (extend_value sha (ts_base S)) (ts_measurement (tsem_default sha S)) (new_points rs) \<and>
    (ts_base T = ts_base S \<and> ts_aggregate T = ts_aggregate (tsem_default sha S) \<and> ts_have_aggregate T) \<and>
    tsem_ok T"
  proof (induction events arbitrary: S rs)
    case (Cons event events)
    then obtain status discipline seal U ev rs' where
      up: "TSEM_update sha (S, event) = Ret (status, discipline, seal) (U, ev)"
      and run: "TSEM_run sha events U = Some (rs', T)" and rs: "rs = (ev, status, discipline) # rs'"
      by (auto split: res.splits prod.splits)
    note v = TSEM_update_verdict [OF Cons.prems(2,3) up]
    have U: "tsem_ok U" using update_ok [OF Cons.prems(2,3) up] .
    show ?case
    proof (cases "events = []")
      case True
      then show ?thesis using run rs v U by (auto simp: Let_def)
    next
      case False
      from Cons.IH [OF run U Cons.prems(3) False] show ?thesis
        using rs v tsem_default_done [of U sha] by (auto simp: Let_def)
    qed
  qed simp
  then show "map sp_point (points_of T) = map sp_point (points_of S) @ new_points rs"
    and "ts_measurement T =
           foldl (extend_value sha (ts_base S)) (ts_measurement (tsem_default sha S)) (new_points rs)"
    and "ts_base T = ts_base S \<and> ts_aggregate T = ts_aggregate (tsem_default sha S) \<and> ts_have_aggregate T"
    and "tsem_ok T"
    by blast+
qed

lemma TSEM_run_counts:
  assumes "TSEM_run sha events S = Some (rs, T)" "tsem_ok S" "sha_ok sha"
  shows "count_of d T = count_of d S + of_nat (length (filter (\<lambda>(ev, _). point_id ev = d) rs))"
  using assms
proof (induction events arbitrary: S rs)
  case (Cons event events)
  then obtain status discipline seal U ev rs' where
    up: "TSEM_update sha (S, event) = Ret (status, discipline, seal) (U, ev)"
    and run: "TSEM_run sha events U = Some (rs', T)" and rs: "rs = (ev, status, discipline) # rs'"
    by (auto split: res.splits prod.splits)
  have "count_of d T = count_of d U + of_nat (length (filter (\<lambda>(ev, _). point_id ev = d) rs'))"
    using Cons.IH [OF run update_ok [OF Cons.prems(2,3) up] Cons.prems(3)] .
  with rs TSEM_update_verdict(7) [OF Cons.prems(2,3) up, of d] show ?case by simp
qed simp

end
