(* ===== verification/TSEMSpec.thy ===== *)
theory TSEMSpec
  imports TSEMRun
begin

text \<open>
  The contract of a security event model, as its users rely on it: a monitor that learns the
  identities of events until it is sealed and then flags every identity it has not
  learned.  \<open>TSEM.c\<close> implements it.  The second half is the state value, which does not
  depend on the order of the events.
\<close>

section \<open>The contract\<close>

locale event_monitor =
  fixes learn :: "'e \<Rightarrow> 's \<Rightarrow> (bool \<times> bool, 's) res"
    and ident :: "'e \<Rightarrow> 'd"
    and good :: "'e \<Rightarrow> bool"
    and ok :: "'s \<Rightarrow> bool"
    and valid :: "'s \<Rightarrow> 'd set"
    and bad :: "'s \<Rightarrow> 'd set"
    and is_sealed :: "'s \<Rightarrow> bool"
  assumes learns: "ok s \<Longrightarrow> good e \<Longrightarrow>
      \<exists>t. learn e s = Ret (ident e \<notin> valid s \<union> bad s, ident e \<notin> valid t) t \<and> ok t \<and>
          is_sealed t = is_sealed s \<and>
          valid t = (if ident e \<in> valid s \<union> bad s \<or> is_sealed s then valid s
                     else insert (ident e) (valid s)) \<and>
          bad t = (if ident e \<in> valid s \<union> bad s \<or> \<not> is_sealed s then bad s
                   else insert (ident e) (bad s))"
begin

fun run :: "'e list \<Rightarrow> 's \<Rightarrow> ((bool \<times> bool) list \<times> 's) option" where
  "run [] s = Some ([], s)"
| "run (e # es) s =
     (case learn e s of
        Ret r t \<Rightarrow> map_option (\<lambda>(rs, u). (r # rs, u)) (run es t)
      | _ \<Rightarrow> None)"

text \<open>A sealed monitor flags exactly the identities it has not learned.\<close>

lemma sealed_run:
  assumes "ok s" "is_sealed s" "\<forall>e \<in> set es. good e"
  shows "\<exists>rs t. run es s = Some (rs, t) \<and> ok t \<and> is_sealed t \<and> valid t = valid s \<and>
                map snd rs = map (\<lambda>e. ident e \<notin> valid s) es"
  using assms
proof (induction es arbitrary: s)
  case (Cons e es)
  then obtain t where t: "learn e s = Ret (ident e \<notin> valid s \<union> bad s, ident e \<notin> valid t) t" "ok t"
    "is_sealed t" "valid t = valid s"
    using learns [of s e] by auto
  with Cons.IH [OF t(2,3)] Cons.prems(3) show ?case by auto
qed simp

text \<open>A monitor that was never sealed learns everything and flags nothing.\<close>

lemma training_run:
  assumes "ok s" "\<not> is_sealed s" "bad s = {}" "\<forall>e \<in> set es. good e"
  shows "\<exists>rs t. run es s = Some (rs, t) \<and> ok t \<and> \<not> is_sealed t \<and> bad t = {} \<and>
                valid t = valid s \<union> ident ` set es \<and> (\<forall>r \<in> set rs. \<not> snd r)"
  using assms
proof (induction es arbitrary: s)
  case (Cons e es)
  from Cons.prems learns [of s e] obtain t where
    l: "learn e s = Ret (ident e \<notin> valid s \<union> bad s, ident e \<notin> valid t) t" "ok t" "is_sealed t = is_sealed s"
    and v: "valid t = (if ident e \<in> valid s \<union> bad s \<or> is_sealed s then valid s else insert (ident e) (valid s))"
    and b: "bad t = (if ident e \<in> valid s \<union> bad s \<or> \<not> is_sealed s then bad s else insert (ident e) (bad s))"
    by auto
  have t: "learn e s = Ret (ident e \<notin> valid s \<union> bad s, ident e \<notin> valid t) t" "ok t"
    "\<not> is_sealed t" "valid t = insert (ident e) (valid s)" "bad t = {}"
    using l v b Cons.prems by (auto simp: insert_absorb)
  with Cons.IH [OF t(2,3,5)] Cons.prems(4) show ?case by fastforce
qed simp

end

locale sealable_monitor = event_monitor +
  fixes seal :: "'b \<Rightarrow> 'b"
  assumes seal: "ok s \<Longrightarrow> ok (seal s) \<and> is_sealed (seal s) \<and> valid (seal s) = valid s"
begin

lemma train_seal_enforce:
  assumes "ok s" "\<not> is_sealed s" "bad s = {}" "\<forall>e \<in> set es. good e" "\<forall>e \<in> set fs. good e"
  shows "\<exists>rs t rs' u. run es s = Some (rs, t) \<and> run fs (seal t) = Some (rs', u) \<and>
           (\<forall>r \<in> set rs. \<not> snd r) \<and>
           map snd rs' = map (\<lambda>e. ident e \<notin> valid s \<union> ident ` set es) fs"
proof -
  obtain rs t where t: "run es s = Some (rs, t)" "ok t" "valid t = valid s \<union> ident ` set es"
    "\<forall>r \<in> set rs. \<not> snd r"
    using training_run [OF assms(1-4)] by blast
  obtain rs' u where "run fs (seal t) = Some (rs', u)"
    "map snd rs' = map (\<lambda>e. ident e \<notin> valid (seal t)) fs"
    using sealed_run [of "seal t" fs] seal [OF t(2)] assms(5) by blast
  with t seal [OF t(2)] show ?thesis by auto
qed

end

section \<open>Events that can be measured\<close>

text \<open>The event after the pseudonyms were applied.\<close>

definition event_pseudo ::
  "(byte list \<Rightarrow> byte list) \<Rightarrow> byte list set \<Rightarrow> SecurityEvent_State \<Rightarrow> SecurityEvent_State" where
  "event_pseudo sha P event =
     (case event_path event of
        Some name \<Rightarrow> if pseudonym_of sha name \<in> P then with_digest zero_message event else event
      | None \<Rightarrow> event)"

definition good_event ::
  "(byte list \<Rightarrow> byte list) \<Rightarrow> byte list set \<Rightarrow> SecurityEvent_State \<Rightarrow> bool" where
  "good_event sha P event \<longleftrightarrow> event_ready event \<and> event_ok event \<and>
     event_message sha (event_pseudo sha P event) \<noteq> None"

text \<open>The identity of an event in a model with the pseudonyms \<open>P\<close>.\<close>

definition model_identity ::
  "(byte list \<Rightarrow> byte list) \<Rightarrow> byte list set \<Rightarrow> SecurityEvent_State \<Rightarrow> byte list" where
  "model_identity sha P event = sha (the (event_message sha (event_pseudo sha P event)))"

text \<open>A model that holds the pseudonyms \<open>P\<close>.\<close>

definition has_pseudonyms :: "TSEM_State \<Rightarrow> byte list set \<Rightarrow> bool" where
  "has_pseudonyms S P \<longleftrightarrow>
     (case ts_model S of
        None \<Rightarrow> P = {}
      | Some M \<Rightarrow> \<not> em_poisoned M \<and>
          (\<exists>ps c. em_pseudonyms M = Some (gaggle_of ps c) \<and> P = b_data ` set ps \<and>
                  (\<forall>p \<in> set ps. \<not> b_poisoned p \<and> b_data p \<noteq> [])))"

definition model_ok ::
  "(byte list \<Rightarrow> byte list) \<Rightarrow> byte list set \<Rightarrow> TSEM_State \<Rightarrow> bool" where
  "model_ok sha P S \<longleftrightarrow> sha_ok sha \<and> tsem_ok S \<and> \<not> ts_poisoned S \<and> \<not> ts_loading S \<and> has_pseudonyms S P \<and>
     (violations S \<noteq> [] \<longrightarrow> ts_sealed S)"

lemma event_ready_digest [simp]: "event_ready (with_digest d event) = event_ready event"
  by (simp add: event_ready_def with_digest_def cell_ready_def)

lemma event_pseudo_ready: "event_ready (event_pseudo sha P event) = event_ready event"
  by (simp add: event_pseudo_def split: option.splits)

lemma nameless_loop:
  assumes "event_ok S" "event_path S = None" "\<forall>p \<in> set ps. \<not> b_poisoned p \<and> b_data p \<noteq> []" "n + c = length ps"
  shows "evaluate_loop sha n (gaggle_of ps c, S) = Ret () (gaggle_of ps (length ps), S)"
  using assms(4)
proof (induction n arbitrary: c)
  case (Suc n)
  then have c: "c < length ps" by simp
  then have "SecurityEvent_evaluate_pseudonym sha (S, ps ! c) = Ret () (S, ps ! c)"
    using evaluate_pseudonym_nameless [OF assms(1,2)] assms(3) by simp
  with Suc c show ?case by (simp add: Gaggle_get_of)
qed simp

lemma evaluate_pseudo:
  assumes "has_pseudonyms S P" "ts_model S = Some M" "event_ok event"
  shows "\<exists>N. EventModel_evaluate sha (M, event) = Ret () (N, event_pseudo sha P event) \<and>
             has_pseudonyms (S\<lparr>ts_model := Some N\<rparr>) P"
proof -
  obtain ps c where M: "\<not> em_poisoned M" "em_pseudonyms M = Some (gaggle_of ps c)" "P = b_data ` set ps"
    "\<forall>p \<in> set ps. \<not> b_poisoned p \<and> b_data p \<noteq> []"
    using assms(1,2) by (auto simp: has_pseudonyms_def)
  have keep: "has_pseudonyms (S\<lparr>ts_model := Some (M\<lparr>em_pseudonyms := Some (gaggle_of ps c')\<rparr>)\<rparr>) P" for c'
    using M by (auto simp: has_pseudonyms_def)
  show ?thesis
  proof (cases "event_path event")
    case (Some name)
    from EventModel_evaluate_ok [OF M(1,2) _ assms(3) Some] M(3,4) keep show ?thesis
      by (fastforce simp: event_pseudo_def Some)
  next
    case None
    have "EventModel_evaluate sha (M, event) =
            Ret () (M\<lparr>em_pseudonyms := Some (gaggle_of ps (if ps = [] then c else length ps))\<rparr>, event)"
      using M(1,2) nameless_loop [OF assms(3) None M(4), of "length ps" 0 sha]
      by (simp add: EventModel_evaluate_def EventModel_evaluate_pseudonyms_def)
    then show ?thesis using keep by (auto simp: event_pseudo_def None)
  qed
qed

text \<open>A good event is registered.\<close>

lemma TSEM_update_registers:
  assumes ok: "model_ok sha P S" and good: "good_event sha P event"
  shows "\<exists>U ev cp pid. same_map S U \<and> point_ok cp \<and> \<not> sp_violation cp \<and> sp_count cp = 0 \<and>
           sp_point cp = model_identity sha P event \<and> SecurityEvent_get_pid ev = Some pid \<and>
           model_ok sha P U \<and>
           TSEM_update sha (S, event) = on_fail (\<lambda>(S, event). (tsem_poison S, event)) (TSEM_register sha cp (U, ev))"
proof -
  have S: "sha_ok sha" "tsem_ok S" "\<not> ts_poisoned S" "\<not> ts_loading S" "has_pseudonyms S P"
    using ok by (simp_all add: model_ok_def)
  let ?D = "tsem_default sha S"
  let ?e = "event_pseudo sha P event"
  have D: "TSEM_default_aggregate sha S = Ret () ?D" "same_map S ?D" "has_pseudonyms ?D P"
    using TSEM_default_aggregate_ok [OF S(2,1)] same_map_default [OF S(2,1)] S(5)
    by (simp_all add: has_pseudonyms_def)
  have "\<exists>V. (case ts_model ?D of None \<Rightarrow> Ret () (?D, event)
               | Some M \<Rightarrow> zoom (\<lambda>(M, ev). (?D\<lparr>ts_model := Some M\<rparr>, ev)) (EventModel_evaluate sha (M, event)))
             = Ret () (V, ?e) \<and> same_map S V \<and> has_pseudonyms V P \<and> ts_poisoned V = ts_poisoned S \<and>
               ts_loading V = ts_loading S"
  proof (cases "ts_model ?D")
    case None
    then have "P = {}" using D(3) by (simp add: has_pseudonyms_def)
    then have "?e = event" by (simp add: event_pseudo_def split: option.splits)
    with None D show ?thesis by simp
  next
    case (Some M)
    obtain N where "EventModel_evaluate sha (M, event) = Ret () (N, ?e)"
      "has_pseudonyms (?D\<lparr>ts_model := Some N\<rparr>) P"
      using evaluate_pseudo [OF D(3) Some] good by (auto simp: good_event_def)
    with Some D(2) show ?thesis by (intro exI [of _ "?D\<lparr>ts_model := Some N\<rparr>"]) simp
  qed
  then obtain V where V: "(case ts_model ?D of None \<Rightarrow> Ret () (?D, event)
               | Some M \<Rightarrow> zoom (\<lambda>(M, ev). (?D\<lparr>ts_model := Some M\<rparr>, ev)) (EventModel_evaluate sha (M, event)))
             = Ret () (V, ?e)" "same_map S V" "has_pseudonyms V P" "\<not> ts_poisoned V" "\<not> ts_loading V"
    using S(3,4) by auto
  obtain m where m: "event_message sha ?e = Some m" using good by (auto simp: good_event_def)
  have ready: "event_ready ?e" using good by (simp add: good_event_def event_pseudo_ready)
  obtain ev where ev: "SecurityEvent_measure sha ?e = Ret () ev" "sha_holds (sha m) (se_identity ev)"
    "\<not> se_poisoned ev"
    using SecurityEvent_measure_ready [OF ready m] by blast
  have id: "SecurityEvent_get_identity (ev, buf_empty) = Ret () (ev, \<lparr>b_poisoned = False, b_data = sha m\<rparr>)"
    using SecurityEvent_get_identity_holds [OF ev(3,2)] by (simp add: buf_empty_def)
  have pid: "SecurityEvent_get_pid ev = Some (se_pid ev)" using ev(3) by (simp add: SecurityEvent_get_pid_def)
  let ?cp = "SecurityPoint_add \<lparr>b_poisoned = False, b_data = sha m\<rparr> SecurityPoint_Init"
  let ?U = "V\<lparr>ts_discipline_pid := se_pid ev\<rparr>"
  have cp: "point_ok ?cp" "\<not> sp_violation ?cp" "sp_count ?cp = 0" "sp_point ?cp = model_identity sha P event"
    using S(1) m
    by (simp_all add: SecurityPoint_add_def SecurityPoint_Init_def point_ok_def buf_size_def model_identity_def)
  have U: "same_map S ?U" using V(2) by simp
  have "has_pseudonyms ?U P" using V(3) by (simp add: has_pseudonyms_def)
  moreover have "violations ?U = violations S" "ts_sealed ?U = ts_sealed S" "tsem_ok ?U"
    using V(2) S(2) by (simp_all add: same_map_def violations_def)
  ultimately have "model_ok sha P ?U" using ok V(4,5) by (simp add: model_ok_def)
  moreover have "TSEM_update sha (S, event) =
      on_fail (\<lambda>(S, event). (tsem_poison S, event)) (TSEM_register sha ?cp (?U, ev))"
    using S(3,4) D(1) V(1) ev(1) id pid by (simp add: TSEM_update_def)
  ultimately show ?thesis using U cp pid by blast
qed

section \<open>The implementation of the contract\<close>

definition model_learn ::
  "(byte list \<Rightarrow> byte list) \<Rightarrow> SecurityEvent_State \<Rightarrow> TSEM_State \<Rightarrow> (bool \<times> bool, TSEM_State) res" where
  "model_learn sha event S =
     (case TSEM_update sha (S, event) of
        Ret (status, discipline, _) (T, _) \<Rightarrow> Ret (status, discipline) T
      | Fail (T, _) \<Rightarrow> Fail T
      | Undef \<Rightarrow> Undef)"

lemma model_learns:
  assumes ok: "model_ok sha P S" and good: "good_event sha P event"
  shows "\<exists>T. model_learn sha event S =
           Ret (model_identity sha P event \<notin> set (valid_points S) \<union> set (violations S),
                model_identity sha P event \<notin> set (valid_points T)) T \<and>
         model_ok sha P T \<and> ts_sealed T = ts_sealed S \<and>
         set (valid_points T) =
           (if model_identity sha P event \<in> set (valid_points S) \<union> set (violations S) \<or> ts_sealed S
            then set (valid_points S) else insert (model_identity sha P event) (set (valid_points S))) \<and>
         set (violations T) =
           (if model_identity sha P event \<in> set (valid_points S) \<union> set (violations S) \<or> \<not> ts_sealed S
            then set (violations S) else insert (model_identity sha P event) (set (violations S)))"
proof -
  let ?d = "model_identity sha P event"
  obtain U ev cp pid where U: "same_map S U" "point_ok cp" "\<not> sp_violation cp" "sp_point cp = ?d"
    "SecurityEvent_get_pid ev = Some pid" "model_ok sha P U"
    "TSEM_update sha (S, event) = on_fail (\<lambda>(S, event). (tsem_poison S, event)) (TSEM_register sha cp (U, ev))"
    using TSEM_update_registers [OF ok good] by blast
  have same: "points_of U = points_of S" "ts_sealed U = ts_sealed S" "valid_points U = valid_points S"
    "violations U = violations S"
    using U(1) by (simp_all add: same_map_def valid_points_def violations_def)
  have Uok: "tsem_ok U" "sha_ok sha" using U(6) by (simp_all add: model_ok_def)
  have known: "known (points_of S) = set (valid_points S) \<union> set (violations S)"
    by (rule known_points)
  from Uok U(2,5) show ?thesis
  proof (cases rule: TSEM_register_cases)
    case (known c)
    let ?T = "U\<lparr>ts_points := gaggle_of (count_point (sp_point cp) (points_of U)) c\<rparr>"
    have "model_ok sha P ?T"
      using U(6) tsem_count_ok [OF Uok(1)] by (simp add: model_ok_def has_pseudonyms_def violations_def)
    moreover have "valid_points ?T = valid_points S" "violations ?T = violations S" "ts_sealed ?T = ts_sealed S"
      using same by (simp_all add: valid_points_def violations_def)
    moreover have "?d \<notin> set (valid_points S) \<longleftrightarrow> ?d \<in> set (violations S)"
      using known(1) same U(4) known_points [of S] valid_not_violation [OF Uok(1)] by auto
    ultimately show ?thesis
      using known U(3,4,7) same known_points [of S]
      by (intro exI [of _ ?T]) (simp add: model_learn_def violates_violations)
  next
    case new
    let ?T = "tsem_learn sha cp ev pid U"
    have fresh: "?d \<notin> set (valid_points S)" "?d \<notin> set (violations S)"
      using new(1) same U(4) known_points [of S] by auto
    have v: "violations ?T = violations S @ (if ts_sealed S then [?d] else [])"
      "valid_points ?T = valid_points S @ (if ts_sealed S then [] else [?d])"
      using U(3,4) same by (simp_all add: tsem_learn_facts valid_points_def)
    have "violations ?T \<noteq> [] \<longrightarrow> ts_sealed ?T"
      using v(1) same ok by (auto simp: model_ok_def tsem_learn_facts)
    moreover have "ts_poisoned ?T = ts_poisoned U" "ts_loading ?T = ts_loading U" "ts_model ?T = ts_model U"
      by (simp_all add: tsem_learn_def)
    ultimately have "model_ok sha P ?T"
      using U(6) tsem_learn_ok [OF Uok new(1) U(2)] by (simp add: model_ok_def has_pseudonyms_def)
    then show ?thesis
      using new U(7) fresh v same by (intro exI [of _ ?T]) (simp add: model_learn_def tsem_learn_facts)
  qed
qed

interpretation model: sealable_monitor "model_learn sha" "model_identity sha P" "good_event sha P"
  "model_ok sha P" "\<lambda>S. set (valid_points S)" "\<lambda>S. set (violations S)" ts_sealed TSEM_seal
proof unfold_locales
  fix S event
  assume "model_ok sha P S" "good_event sha P event"
  then show "\<exists>T. model_learn sha event S =
           Ret (model_identity sha P event \<notin> set (valid_points S) \<union> set (violations S),
                model_identity sha P event \<notin> set (valid_points T)) T \<and>
         model_ok sha P T \<and> ts_sealed T = ts_sealed S \<and>
         set (valid_points T) =
           (if model_identity sha P event \<in> set (valid_points S) \<union> set (violations S) \<or> ts_sealed S
            then set (valid_points S) else insert (model_identity sha P event) (set (valid_points S))) \<and>
         set (violations T) =
           (if model_identity sha P event \<in> set (valid_points S) \<union> set (violations S) \<or> \<not> ts_sealed S
            then set (violations S) else insert (model_identity sha P event) (set (violations S)))"
    by (rule model_learns)
next
  fix S assume "model_ok sha P S"
  then show "model_ok sha P (TSEM_seal S) \<and> ts_sealed (TSEM_seal S) \<and>
      set (valid_points (TSEM_seal S)) = set (valid_points S)"
    by (simp add: model_ok_def TSEM_seal_def has_pseudonyms_def valid_points_def violations_def)
qed

section \<open>The state value\<close>

definition state_value ::
  "(byte list \<Rightarrow> byte list) \<Rightarrow> byte list \<Rightarrow> byte list \<Rightarrow> byte list list \<Rightarrow> byte list" where
  "state_value sha base agg points = foldl (extend_value sha base) agg (sort_points points)"

lemma mset_sort_points [simp]: "mset (sort_points ps) = mset ps"
proof -
  have "mset (insert_point p qs) = add_mset p (mset qs)" for p qs
    by (induction qs) simp_all
  then show ?thesis by (induction ps) simp_all
qed

lemma set_insert_point [simp]: "set (insert_point p qs) = insert p (set qs)"
  by (induction qs) auto

lemma set_sort_points [simp]: "set (sort_points ps) = set ps"
  by (induction ps) simp_all

lemma state_sort_total:
  "length p = length q \<Longrightarrow> state_sort p q \<le> 0 \<or> state_sort q p \<le> 0"
  by (induction p q rule: list_induct2) auto

lemma state_sort_antisym:
  "length p = length q \<Longrightarrow> state_sort p q \<le> 0 \<Longrightarrow> state_sort q p \<le> 0 \<Longrightarrow> p = q"
  by (induction p q rule: list_induct2) (auto split: if_splits)

lemma state_sort_trans:
  "length p = length q \<Longrightarrow> length q = length r \<Longrightarrow>
   state_sort p q \<le> 0 \<Longrightarrow> state_sort q r \<le> 0 \<Longrightarrow> state_sort p r \<le> 0"
  by (induction p q r rule: list_induct3) (auto split: if_splits)

abbreviation points_sorted :: "byte list list \<Rightarrow> bool" where
  "points_sorted \<equiv> sorted_wrt (\<lambda>p q. state_sort p q \<le> 0)"

lemma insert_point_sorted:
  assumes "points_sorted qs" "\<forall>q \<in> set qs. length q = length p"
  shows "points_sorted (insert_point p qs)"
  using assms
proof (induction qs)
  case (Cons q qs)
  show ?case
  proof (cases "state_sort p q \<le> 0")
    case True
    then show ?thesis using Cons.prems state_sort_trans [of p q] by fastforce
  next
    case False
    then have "state_sort q p \<le> 0" using state_sort_total [of p q] Cons.prems(2) by auto
    with False Cons show ?thesis by auto
  qed
qed simp

lemma sort_points_sorted: "\<forall>p \<in> set ps. length p = n \<Longrightarrow> points_sorted (sort_points ps)"
  by (induction ps) (auto intro!: insert_point_sorted)

lemma points_sorted_unique:
  assumes "points_sorted ps" "points_sorted qs" "mset ps = mset qs" "\<forall>p \<in> set ps. length p = n"
  shows "ps = qs"
  using assms
proof (induction ps arbitrary: qs)
  case (Cons p ps)
  then obtain q qs' where qs: "qs = q # qs'" by (cases qs) auto
  have sets: "set (p # ps) = set (q # qs')"
    using Cons.prems(3) qs by (metis set_mset_mset)
  have "p = q"
  proof (rule ccontr)
    assume ne: "p \<noteq> q"
    then have "q \<in> set ps" "p \<in> set qs'" using sets by auto
    then have "state_sort p q \<le> 0" "state_sort q p \<le> 0" using Cons.prems(1,2) qs by auto
    moreover have "length p = length q" using Cons.prems(4) \<open>q \<in> set ps\<close> by auto
    ultimately show False using state_sort_antisym ne by blast
  qed
  with Cons qs show ?case by auto
qed simp

lemma sort_points_unique:
  assumes "mset ps = mset qs" "\<forall>p \<in> set ps. length p = n"
  shows "sort_points ps = sort_points qs"
proof -
  have "set ps = set qs" using assms(1) by (metis set_mset_mset)
  with assms have "points_sorted (sort_points ps)" "points_sorted (sort_points qs)"
    using sort_points_sorted [of ps n] sort_points_sorted [of qs n] by simp_all
  then show ?thesis using points_sorted_unique [of "sort_points ps" "sort_points qs" n] assms by simp
qed

lemma clone_points_all:
  "n + c = length ps \<Longrightarrow>
   clone_points n (gaggle_of ps c) = Some (map sp_point (drop c ps), gaggle_of ps (length ps))"
proof (induction n arbitrary: c)
  case (Suc n)
  then have "c < length ps" by simp
  with Suc show ?case by (simp add: Gaggle_get_of SecurityPoint_get_def Cons_nth_drop_Suc [symmetric])
qed simp

lemma extend_all_value:
  "sha_ok sha \<Longrightarrow> \<forall>p \<in> set ps. length p = IDSIZE \<Longrightarrow>
   extend_all sha base ps m = Ret (foldl (extend_value sha base) m ps) (foldl (extend_value sha base) m ps)"
  by (induction ps arbitrary: m) (simp_all add: TSEM_extend_measurement_value)

lemma TSEM_get_state_value:
  assumes ok: "tsem_ok S" and sha: "sha_ok sha" and agg: "ts_have_aggregate S" and out: "\<not> b_poisoned out"
  shows "\<exists>c. TSEM_get_state sha (S, out) =
           Ret () (S\<lparr>ts_points := gaggle_of (points_of S) c\<rparr>,
             out\<lparr>b_data := b_data out @
               state_value sha (ts_base S) (b_data (ts_aggregate S)) (map sp_point (points_of S))\<rparr>)"
proof -
  obtain c where c: "ts_points S = gaggle_of (points_of S) c" and pts: "\<forall>p \<in> set (points_of S). point_ok p"
    using ok by (auto simp: tsem_ok_def elim: points_okE)
  have size: "Gaggle_size (ts_points S) = length (points_of S)"
    "Gaggle_rewind_cursor (ts_points S) = gaggle_of (points_of S) 0"
    using arg_cong [OF c, of Gaggle_size] arg_cong [OF c, of Gaggle_rewind_cursor] by simp_all
  have len: "length (b_data (ts_aggregate S)) = IDSIZE"
    using ok agg by (simp add: tsem_ok_def aggregate_ok_def)
  have "\<forall>p \<in> set (sort_points (map sp_point (points_of S))). length p = IDSIZE"
    using pts by (auto simp: point_ok_def)
  from extend_all_value [OF sha this] show ?thesis
    using size len out clone_points_all [of "length (points_of S)" 0 "points_of S"]
    by (auto simp: TSEM_get_state_def read_bytes_def buf_add_def state_value_def)
qed

text \<open>Before the first aggregate was set the copy is from a NULL pointer.\<close>

lemma TSEM_get_state_unset:
  assumes "tsem_ok S" "\<not> ts_have_aggregate S"
  shows "TSEM_get_state sha (S, out) = Undef"
proof -
  have "read_bytes IDSIZE (b_data (ts_aggregate S)) = None"
    using assms by (simp add: tsem_ok_def aggregate_ok_def read_bytes_def)
  then show ?thesis by (auto simp: TSEM_get_state_def Let_def split: option.splits)
qed

end
