(* ===== verification/EventText.thy ===== *)
theory EventText
  imports SecurityEvent
begin

text \<open>
  The text of an event and back: the description that \<open>SecurityEvent_format\<close> prints for an event
  of a type without parameters is read by \<open>SecurityEvent_parse\<close> to the same event.
\<close>

section \<open>Finding fields behind other objects\<close>

text \<open>
  A field descriptor holds an opening brace and no closing one: it is not found inside of a flat
  object.
\<close>

lemma is_prefix_cross:
  assumes "c \<notin> set a" "d \<notin> set a" "c \<in> set p" "d \<notin> set p"
  shows "\<not> is_prefix p (a @ d # r)"
  using assms
proof (induction a arbitrary: p)
  case Nil
  then show ?case by (cases p) auto
next
  case (Cons x a)
  then show ?case by (cases p) auto
qed

lemma strstr_cross:
  assumes "c \<notin> set a" "d \<notin> set a" "c \<in> set p" "d \<notin> set p"
  shows "strstr (a @ d # r) p = map_option (\<lambda>(pre, suf). (a @ d # pre, suf)) (strstr r p)"
  using assms(1,2)
proof (induction a)
  case Nil
  have "\<not> is_prefix p (d # r)" using is_prefix_cross [of c "[]" d p r] assms(3,4) by simp
  then show ?case by simp
next
  case (Cons x a)
  have "\<not> is_prefix p ((x # a) @ d # r)"
    using is_prefix_cross [of c "x # a" d p r] Cons.prems assms(3,4) by simp
  with Cons show ?case by (cases "strstr r p") auto
qed

lemma strstr_members_field:
  assumes "flat kvs" "braceless field"
  shows "strstr (members kvs @ r) (field_spec field) =
           map_option (\<lambda>(pre, suf). (members kvs @ pre, suf)) (strstr r (field_spec field))"
proof -
  obtain body where b: "members kvs = body @ ''}''" "braceless body"
    using members_close [OF assms(1)] by blast
  have "strstr (body @ CHR ''}'' # r) (field_spec field) =
          map_option (\<lambda>(pre, suf). (body @ CHR ''}'' # pre, suf)) (strstr r (field_spec field))"
    using b(2) assms(2) by (intro strstr_cross [of "CHR ''{''"]) (auto simp: field_spec_def braceless_def)
  with b(1) show ?thesis by simp
qed

lemma strstr_first_brace:
  assumes "c \<notin> set a" "c \<notin> set q"
  shows "strstr (a @ q @ c # r) (q @ [c]) = Some (a, q @ c # r)"
  using assms(1)
proof (induction a)
  case Nil
  have "is_prefix (q @ [c]) (q @ c # r)" by (simp add: is_prefix_iff)
  then show ?case by (cases q) auto
next
  case (Cons x a)
  have "\<not> is_prefix (q @ c # []) ((x # a @ q) @ c # r)"
    using assms(2) Cons.prems by (subst is_prefix_quoted) (auto dest: arg_cong [of _ _ length])
  with Cons show ?case by simp
qed

section \<open>The text of an event\<close>

definition event_text :: "(string \<times> string) list \<Rightarrow> coe_characteristics \<Rightarrow> string \<Rightarrow> string" where
  "event_text em c name =
     CHR ''{'' # field_spec ''event'' @ members em @ '', '' @ coe_text c @ '', '' @ DQ # name @ DQ # '': {}}''"

definition generic_type :: "nat \<Rightarrow> bool" where
  "generic_type type \<longleftrightarrow> type \<notin> {TSEM_FILE_OPEN, TSEM_MMAP_FILE, TSEM_SOCKET_CREATE, TSEM_SOCKET_CONNECT,
     TSEM_SOCKET_BIND, TSEM_SOCKET_ACCEPT, TSEM_TASK_KILL}"

lemma last_event_text: "last (event_text em c name) = CHR ''}''"
  by (simp add: event_text_def field_spec_def)

lemma strstr_head: "strstr (CHR ''{'' # field_spec ''event'' @ r) (field_spec ''event'') =
    Some (''{'', field_spec ''event'' @ r)"
  by (simp add: field_spec_def)

lemma describes_event: "describes (event_text em c name) ''event'' em"
  unfolding describes_def
  by (rule exI [of _ "''{''"],
      rule exI [of _ "'', '' @ coe_text c @ '', '' @ DQ # name @ DQ # '': {}}''"])
    (use strstr_head last_event_text [of em c name] in \<open>simp add: event_text_def\<close>)

lemma describes_COE:
  assumes "flat em"
  shows "describes (event_text em c name) ''COE'' (coe_members c)"
proof -
  let ?post = "'', '' @ DQ # name @ DQ # '': {}}''"
  let ?rest = "field_spec ''COE'' @ members (coe_members c) @ ?post"
  have "strstr (members em @ '', '' @ ?rest) (field_spec ''COE'') = Some (members em @ '', '', ?rest)"
    using strstr_members_field [OF assms, of "''COE''" "'', '' @ ?rest"]
    by (simp add: field_spec_def)
  then have "strstr (CHR ''{'' # field_spec ''event'' @ members em @ '', '' @ ?rest) (field_spec ''COE'') =
      Some (CHR ''{'' # field_spec ''event'' @ members em @ '', '', ?rest)"
    by (simp add: field_spec_def)
  then show ?thesis
    unfolding describes_def
    by (intro exI [of _ "CHR ''{'' # field_spec ''event'' @ members em @ '', ''"] exI [of _ ?post])
      (use last_event_text [of em c name] in \<open>simp add: event_text_def coe_text_members\<close>)
qed

lemma SecurityEvent_format_text:
  assumes "\<not> se_poisoned S" "\<not> h_poisoned s" "se_event S = hs_of (CHR ''{'' # members em)"
    and "\<not> coe_poisoned (se_coe S)" "generic_type (ce_type (se_cell S))" "ce_event (se_cell S) = hs_of name"
  shows "SecurityEvent_format (S, s) =
           Ret () (S, hs_of (hs_chars s @ event_text em (coe_character (se_coe S)) name))"
proof -
  have "cell_pieces (se_cell S) = format_generic (se_cell S)"
    using assms(5) by (simp add: cell_pieces_def generic_type_def)
  then have cell: "Cell_format (se_cell S, t) =
      Ret () (se_cell S, hs_of (hs_chars t @ DQ # name @ DQ # '': {}''))" if "\<not> h_poisoned t" for t
    using Cell_format_text [OF that, of "se_cell S"] assms(6) by (simp add: format_generic_def)
  have coe: "COE_format (se_coe S, t) = Ret () (se_coe S, hs_of (hs_chars t @ coe_text (coe_character (se_coe S))))"
    if "\<not> h_poisoned t" for t
    using assms(4) that by (simp add: COE_format_def hs_add_ok)
  show ?thesis
    using assms by (simp add: SecurityEvent_format_def hs_add_ok cell coe event_text_def field_spec_def)
qed

section \<open>Reading it\<close>

lemma steps_parse_text:
  assumes "frame_ok f (S, p, e)" "key_text f key = Some v" "\<not> h_poisoned (get S)"
    and "\<And>q. frame_ok f (put S (hs_of (hs_chars (get S) @ v)), q, e) \<Longrightarrow>
           steps fs (put S (hs_of (hs_chars (get S) @ v)), q, e) \<in> X"
  shows "steps (parse_text (Some key) get put # fs) (S, p, e) \<in> X"
  using assms get_text_ok [of p f key v "get S"]
  by (auto simp: parse_text_def frame_ok_def)

lemma steps_parse_local_text:
  assumes "frame_ok f (S, p, e)" "key_text f key = Some v"
    and "\<And>q. frame_ok f (S, q, e) \<Longrightarrow> res_bind (g (hs_of v) (S, q, e)) (\<lambda>_. steps fs) \<in> X"
  shows "steps (parse_local_text key g # fs) (S, p, e) \<in> X"
  using assms get_text_ok [of p f key v hs_empty]
  by (auto simp: parse_local_text_def frame_ok_def)

lemma has_key_absent:
  assumes "frame_ok f (S, p, e)" "find_key_loop f key 0 = None" "f \<noteq> []"
  shows "\<exists>q. parse_has_key key g (S, p, e) = g False (S, q, e) \<and> frame_ok f (S, q, e)"
  using assms find_key_none [of p f key]
  by (auto simp: parse_has_key_def frame_ok_def TSEMparser_has_key_def)

lemma has_key_present:
  assumes "frame_ok f (S, p, e)" "key_text f key = Some v" "f \<noteq> []"
  shows "\<exists>q. parse_has_key key g (S, p, e) = g True (S, q, e) \<and> frame_ok f (S, q, e)"
  using assms has_key_text [of p f key v]
  by (auto simp: parse_has_key_def frame_ok_def)

lemma find_key_members_none:
  assumes "flat kvs" "key_name k" "map_of kvs k = None"
  shows "find_key_loop (CHR ''{'' # members kvs) k 0 = None"
  using strstr_members_miss [OF assms] by (simp add: find_key_loop.simps key_spec_def)

lemma key_text_flat:
  assumes "flat kvs" "key_name k" "map_of kvs k = Some v" "v \<noteq> []"
  shows "key_text (CHR ''{'' # members kvs) k = Some v"
  using key_text_members [OF assms(1,2)] assms(3,4) by simp

text \<open>What the text must say: a known type without parameters, a task, and a process or none.\<close>

definition generic_members :: "(string \<times> string) list \<Rightarrow> string \<Rightarrow> nat \<Rightarrow> string \<Rightarrow> bool" where
  "generic_members em name type tid \<longleftrightarrow> flat em \<and> map_of em ''type'' = Some name \<and>
     find_type TSEM_name 0 name = Some type \<and> 0 < type \<and> generic_type type \<and>
     map_of em ''task_id'' = Some tid \<and> tid \<noteq> []"

definition names_process :: "(string \<times> string) list \<Rightarrow> u32 \<Rightarrow> u32 \<Rightarrow> bool" where
  "names_process em old pid \<longleftrightarrow>
     (case map_of em ''pid'' of None \<Rightarrow> pid = old | Some t \<Rightarrow> t = sprint_u (unat pid))"

definition parsed_event :: "Cell_State \<Rightarrow> (string \<times> string) list \<Rightarrow> string \<Rightarrow> nat \<Rightarrow> string \<Rightarrow> u32 \<Rightarrow>
  coe_characteristics \<Rightarrow> SecurityEvent_State" where
  "parsed_event junk em name type tid pid c =
     (SecurityEvent_Init junk)\<lparr>se_event := hs_of (CHR ''{'' # members em), se_type := type,
       se_task_id := hs_of tid, se_pid := pid, se_coe := COE_Init\<lparr>coe_character := c\<rparr>,
       se_cell := (Cell_Init junk)\<lparr>ce_type := type, ce_event := hs_of name\<rparr>\<rparr>"

lemma parse_pid_ok:
  assumes f: "frame_ok (CHR ''{'' # members em) ((S, en), p, e)"
    and em: "flat em" "names_process em (se_pid S) pid"
  shows "\<exists>q. SecurityEvent_parse_pid ((S, en), p, e) = Ret () ((S\<lparr>se_pid := pid\<rparr>, en), q, e)"
proof (cases "map_of em ''pid''")
  case None
  then have pid: "se_pid S = pid" using em(2) by (simp add: names_process_def)
  obtain q where "SecurityEvent_parse_pid ((S, en), p, e) = Ret () ((S, en), q, e)"
    using has_key_absent [OF f find_key_members_none [OF em(1) _ None],
        of "\<lambda>has. if \<not> has then Ret () else parse_integer ''pid'' (\<lambda>vl. steps
         [fail_if (\<lambda>_. unat vl > 2 ^ 32 - 1),
          assign (on_event (\<lambda>S. S\<lparr>se_pid := ucast vl\<rparr>))])"]
    unfolding SecurityEvent_parse_pid_def by (auto simp del: steps.simps)
  then show ?thesis using pid by (cases S) auto
next
  case (Some t)
  then have t: "t = sprint_u (unat pid)" using em(2) by (simp add: names_process_def)
  have kt: "key_text (CHR ''{'' # members em) ''pid'' = Some t"
    using key_text_flat [OF em(1) _ Some] t by simp
  have bound: "unat pid < 2 ^ 32" using unsigned_less [of pid] by simp
  have num: "strtoll t = (int (unat pid), False)"
    unfolding t using bound by (intro strtoll_sprint_u) simp
  define vl :: u64 where "vl = word_of_int (int (unat pid))"
  have w: "unat vl = unat pid"
    unfolding vl_def using bound by (simp add: unsigned_ucast_eq take_bit_nat_eq_self)
  have w2: "(ucast vl :: u32) = pid"
    using bound w unfolding vl_def by (simp add: word_unat_eq_iff unsigned_ucast_eq unsigned_take_bit_eq take_bit_nat_eq_self)
  define g where "g = (\<lambda>vl :: u64. steps [fail_if (\<lambda>_. unat vl > 2 ^ 32 - 1),
      assign (on_event (\<lambda>S. S\<lparr>se_pid := ucast vl\<rparr>))])"
  obtain q where q: "SecurityEvent_parse_pid ((S, en), p, e) = parse_integer ''pid'' g ((S, en), q, e)"
    "frame_ok (CHR ''{'' # members em) ((S, en), q, e)"
    using has_key_present [OF f kt, of "\<lambda>has. if \<not> has then Ret () else parse_integer ''pid'' g"]
    unfolding SecurityEvent_parse_pid_def g_def by auto
  obtain q' where "parse_integer ''pid'' g ((S, en), q, e) = g vl ((S, en), q', e)"
    using parse_integer_ok [OF q(2) kt num, of g] unfolding vl_def by auto
  moreover have "g vl ((S, en), q', e) = Ret () ((S\<lparr>se_pid := pid\<rparr>, en), q', e)"
    using bound w w2 by (simp add: g_def on_event_def frame_map_def)
  ultimately show ?thesis using q(1) by simp
qed

lemma find_type_member: "find_type names lp str = Some type \<Longrightarrow> str \<in> set names"
  by (induction names arbitrary: lp) (auto split: if_splits)

lemma TSEM_name_nonempty: "find_type TSEM_name lp str = Some type \<Longrightarrow> str \<noteq> []"
  using find_type_member [of TSEM_name lp str type] by (auto simp: TSEM_name_def)

lemma get_field_ok:
  assumes "parser_ok p" "tp_field p = hs_of f"
  shows "TSEMparser_get_field p hs_empty = Ret () (hs_of f)"
  using assms by (simp add: TSEMparser_get_field_def parser_ok_def)

lemma parse_event_ok:
  assumes em: "generic_members em name type tid" "names_process em 0 pid"
    and ev: "describes ev ''event'' em" and e: "e \<noteq> ERANGE"
  shows "with_parser (SecurityEvent_parse_event @ [SecurityEvent_parse_pid])
           ((SecurityEvent_Init junk, hs_of ev), e) =
         Ret () (((SecurityEvent_Init junk)\<lparr>se_event := hs_of (CHR ''{'' # members em), se_type := type,
                     se_task_id := hs_of tid, se_pid := pid\<rparr>, hs_of ev), e)"
proof -
  let ?f = "CHR ''{'' # members em"
  have flat: "flat em" using em(1) by (simp add: generic_members_def)
  have name: "name \<noteq> []" using em(1) TSEM_name_nonempty by (auto simp: generic_members_def)
  have kt: "key_text ?f ''type'' = Some name" "key_text ?f ''task_id'' = Some tid"
    using key_text_flat [OF flat] name em(1) by (simp_all add: generic_members_def)
  note ex = extract_text_members [OF ev flat]
  have "steps (SecurityEvent_parse_event @ [SecurityEvent_parse_pid])
          ((SecurityEvent_Init junk, hs_of ev), TSEMparser_Init, e) \<in>
        {r. \<exists>q. r = Ret () (((SecurityEvent_Init junk)\<lparr>se_event := hs_of ?f, se_type := type,
                     se_task_id := hs_of tid, se_pid := pid\<rparr>, hs_of ev), q, e)}" (is "_ \<in> ?X")
  proof -
    let ?S1 = "(SecurityEvent_Init junk)\<lparr>se_event := hs_of ?f\<rparr>"
    let ?S2 = "?S1\<lparr>se_type := type\<rparr>"
    let ?S3 = "?S2\<lparr>se_task_id := hs_of tid\<rparr>"
    have init: "se_event (SecurityEvent_Init junk) = hs_empty" "se_task_id ?S2 = hs_empty" "se_pid ?S3 = 0"
      by (simp_all add: SecurityEvent_Init_def)
    have pid: "steps [SecurityEvent_parse_pid] ((?S3, hs_of ev), q, e) \<in> ?X"
      if "frame_ok ?f ((?S3, hs_of ev), q, e)" for q
      using parse_pid_ok [OF that flat, of pid] em(2) by (auto simp: init(3))
    have task: "steps [parse_text (Some ''task_id'') (\<lambda>(S, en). se_task_id S) (\<lambda>(S, en) t. (S\<lparr>se_task_id := t\<rparr>, en)),
        SecurityEvent_parse_pid] ((?S2, hs_of ev), q, e) \<in> ?X"
      if "frame_ok ?f ((?S2, hs_of ev), q, e)" for q
      using pid by (intro steps_parse_text [OF that kt(2)]) (simp_all only: prod.case init hs_chars_simps append_Nil hs_poisoned_simps not_False_eq_True)
    have type: "find_type TSEM_name 0 name = Some type" "type \<noteq> 0"
      using em(1) by (simp_all add: generic_members_def)
    have store: "(case hs_get (hs_of name) of
           None \<Rightarrow> Undef
         | Some t \<Rightarrow> Ret () (case find_type TSEM_name 0 t of
                              None \<Rightarrow> fr
                            | Some lp \<Rightarrow> on_event (\<lambda>S. S\<lparr>se_type := lp\<rparr>) fr)) =
         Ret () (on_event (\<lambda>S. S\<lparr>se_type := type\<rparr>) fr)" for fr :: event_frame
      by (simp add: type(1))
    have named: "steps [parse_local_text ''type'' (\<lambda>str fr.
        (case hs_get str of
           None \<Rightarrow> Undef
         | Some t \<Rightarrow> Ret () (case find_type TSEM_name 0 t of
                              None \<Rightarrow> fr
                            | Some lp \<Rightarrow> on_event (\<lambda>S. S\<lparr>se_type := lp\<rparr>) fr))),
        fail_if (\<lambda>((S, en), p, e). se_type S = 0),
        parse_text (Some ''task_id'') (\<lambda>(S, en). se_task_id S) (\<lambda>(S, en) t. (S\<lparr>se_task_id := t\<rparr>, en)),
        SecurityEvent_parse_pid] ((?S1, hs_of ev), q, e) \<in> ?X"
      if f: "frame_ok ?f ((?S1, hs_of ev), q, e)" for q
    proof (rule steps_parse_local_text [OF f kt(1)])
      fix q assume "frame_ok ?f ((?S1, hs_of ev), q, e)"
      then have "frame_ok ?f ((?S2, hs_of ev), q, e)" by (simp add: frame_ok_def)
      from task [OF this] show "res_bind ((case hs_get (hs_of name) of
           None \<Rightarrow> Undef
         | Some t \<Rightarrow> Ret () (case find_type TSEM_name 0 t of
                              None \<Rightarrow> ((?S1, hs_of ev), q, e)
                            | Some lp \<Rightarrow> on_event (\<lambda>S. S\<lparr>se_type := lp\<rparr>) ((?S1, hs_of ev), q, e))))
         (\<lambda>_. steps [fail_if (\<lambda>((S, en), p, e). se_type S = 0),
        parse_text (Some ''task_id'') (\<lambda>(S, en). se_task_id S) (\<lambda>(S, en) t. (S\<lparr>se_task_id := t\<rparr>, en)),
        SecurityEvent_parse_pid]) \<in> ?X"
        unfolding store using type(2)
        by (simp add: on_event_def frame_map_def del: steps.simps) (simp add: steps_fail_if)
    qed
    obtain q where q: "parse_field (hs_of ev) ''event'' ((SecurityEvent_Init junk, hs_of ev), TSEMparser_Init, e) =
        Ret () ((SecurityEvent_Init junk, hs_of ev), q, e)" "frame_ok ?f ((SecurityEvent_Init junk, hs_of ev), q, e)"
      using parse_field_frame [OF parser_ok_Init ex e, of "(SecurityEvent_Init junk, hs_of ev)"]
      by (elim exE conjE) (rule that)
    then have get: "TSEMparser_get_field q (se_event (SecurityEvent_Init junk)) = Ret () (hs_of ?f)"
      and f1: "frame_ok ?f ((?S1, hs_of ev), q, e)"
      by (simp_all add: get_field_ok frame_ok_def init(1))
    have first: "(\<lambda>((S, en), p, e). parse_field en ''event'' ((S, en), p, e))
        ((SecurityEvent_Init junk, hs_of ev), TSEMparser_Init, e) = Ret () ((SecurityEvent_Init junk, hs_of ev), q, e)"
      by (simp only: prod.case q(1))
    have second: "(\<lambda>((S, en), p, e). zoom (\<lambda>t. ((S\<lparr>se_event := t\<rparr>, en), p, e)) (TSEMparser_get_field p (se_event S)))
        ((SecurityEvent_Init junk, hs_of ev), q, e) = Ret () ((?S1, hs_of ev), q, e)"
      by (simp only: prod.case get zoom.simps)
    show ?thesis
      unfolding SecurityEvent_parse_event_def append.simps
      by (rule steps_Ret, rule first, rule steps_Ret, rule second, rule named [OF f1])
  qed
  then show ?thesis by (auto simp: with_parser_def)
qed

lemma parse_generic_ok:
  assumes em: "generic_members em name type tid"
    and ev: "describes ev ''event'' em" and e: "e \<noteq> ERANGE"
  shows "Cell_parse type ((Cell_Init junk, hs_of ev), e) =
           Ret () (((Cell_Init junk)\<lparr>ce_type := type, ce_event := hs_of name\<rparr>, hs_of ev), e)"
proof -
  let ?f = "CHR ''{'' # members em" and ?S = "(Cell_Init junk)\<lparr>ce_type := type\<rparr>"
  have flat: "flat em" and name: "name \<noteq> []"
    using em TSEM_name_nonempty by (auto simp: generic_members_def)
  have kt: "key_text ?f ''type'' = Some name"
    using key_text_flat [OF flat] name em by (simp add: generic_members_def)
  note ex = extract_text_members [OF ev flat]
  have init: "ce_event ?S = hs_empty" "\<not> ce_poisoned (Cell_Init junk)" by (simp_all add: Cell_Init_def)
  have "steps [entry_field ''event'', parse_text (Some ''type'') (\<lambda>(S, en). ce_event S) (\<lambda>(S, en) t. (S\<lparr>ce_event := t\<rparr>, en))]
      ((?S, hs_of ev), TSEMparser_Init, e) \<in> {r. \<exists>q. r = Ret () ((?S\<lparr>ce_event := hs_of name\<rparr>, hs_of ev), q, e)}"
    (is "_ \<in> ?X")
  proof -
    obtain q where q: "parse_field (hs_of ev) ''event'' ((?S, hs_of ev), TSEMparser_Init, e) =
        Ret () ((?S, hs_of ev), q, e)" "frame_ok ?f ((?S, hs_of ev), q, e)"
      using parse_field_frame [OF parser_ok_Init ex e, of "(?S, hs_of ev)"] by (elim exE conjE) (rule that)
    have first: "entry_field ''event'' ((?S, hs_of ev), TSEMparser_Init, e) = Ret () ((?S, hs_of ev), q, e)"
      unfolding entry_field_def by (simp only: prod.case q(1))
    show ?thesis
      by (rule steps_Ret, rule first, rule steps_parse_text [OF q(2) kt])
        (simp_all add: init)
  qed
  then have "Cell_parse_generic_event ((?S, hs_of ev), e) = Ret () ((?S\<lparr>ce_event := hs_of name\<rparr>, hs_of ev), e)"
    by (auto simp: Cell_parse_generic_event_def with_parser_def)
  then show ?thesis
    using em init(2) by (simp add: Cell_parse_def generic_members_def generic_type_def)
qed

text \<open>
  A text that describes an event without parameters is parsed to that event, whatever else the text has; in
  particular what formatting the event writes.
\<close>

lemma SecurityEvent_parse_described:
  assumes ev: "describes ev ''event'' em" "describes ev ''COE'' (coe_members c)"
    and em: "generic_members em name type tid" "names_process em 0 pid"
    and c: "unat (c_capeff c) < 2 ^ 63" and e: "e \<noteq> ERANGE"
  shows "SecurityEvent_parse ((SecurityEvent_Init junk, hs_of ev), e) =
           Ret () ((parsed_event junk em name type tid pid c, hs_of ev), e)"
proof -
  have coe: "COE_parse (hs_of ev) (COE_Init, e) = Ret () (COE_Init\<lparr>coe_character := c\<rparr>, e)"
    by (rule COE_parse_members [OF extract_text_members [OF ev(2) flat_coe_members] c _ e])
      (simp add: COE_Init_def)
  have init: "\<not> se_poisoned (SecurityEvent_Init junk)" "se_coe (SecurityEvent_Init junk) = COE_Init"
    "se_cell (SecurityEvent_Init junk) = Cell_Init junk"
    by (simp_all add: SecurityEvent_Init_def)
  show ?thesis
    by (simp add: SecurityEvent_parse_def parsed_event_def parse_event_ok [OF em ev(1) e] init coe
        parse_generic_ok [OF em(1) ev(1) e])
qed

lemma SecurityEvent_parse_text:
  assumes em: "generic_members em name type tid" "names_process em 0 pid"
    and c: "unat (c_capeff c) < 2 ^ 63" and e: "e \<noteq> ERANGE"
  shows "SecurityEvent_parse ((SecurityEvent_Init junk, hs_of (event_text em c name)), e) =
           Ret () ((parsed_event junk em name type tid pid c, hs_of (event_text em c name)), e)"
proof -
  have "flat em" using em(1) by (simp add: generic_members_def)
  from SecurityEvent_parse_described [OF describes_event describes_COE [OF this] assms] show ?thesis .
qed

end
