(* ===== verification/Examples.thy ===== *)
theory Examples
  imports TSEMSpec EventText
begin

text \<open>
  Small concrete objects on which the properties are instantiated: a digest function
  with 32 byte results, events of two types, and a model.
\<close>

definition demo_sha :: "byte list \<Rightarrow> byte list" where
  "demo_sha m = take IDSIZE (m @ zero_id)"

lemma demo_sha_ok [simp]: "sha_ok demo_sha"
  by (auto simp: sha_ok_def demo_sha_def zero_id_def min_def)

definition demo_cell :: Cell_State where
  "demo_cell = Cell_Init
     \<lparr>ce_poisoned = False, ce_type = 0, ce_event = hs_empty, ce_file = zero_file,
      ce_mmap_file = \<lparr>m_have_file = False, m_prot = 0, m_flags = 0\<rparr>,
      ce_socket_create = \<lparr>sc_family = 0, sc_type = 0, sc_protocol = 0, sc_kern = 0\<rparr>,
      ce_socket_connect = \<lparr>cn_sock = \<lparr>k_family = 0, k_type = 0, k_protocol = 0, k_owner = zero_id\<rparr>,
         cn_port = 0, cn_flow = 0, cn_scope = 0, cn_u = replicate 112 NUL\<rparr>,
      ce_socket_accept = \<lparr>ac_sock = \<lparr>k_family = 0, k_type = 0, k_protocol = 0, k_owner = zero_id\<rparr>,
         ac_port = 0, ac_u = replicate 112 NUL\<rparr>,
      ce_task_kill = \<lparr>tk_cross_model = 0, tk_signal = 0, tk_task_id = zero_id\<rparr>,
      ce_measured = False, ce_identity = Sha256_Init\<rparr>"

text \<open>An event of a type without parameters, as parsing leaves it.\<close>

definition demo_event :: "nat \<Rightarrow> SecurityEvent_State" where
  "demo_event type = (SecurityEvent_Init demo_cell)
     \<lparr>se_type := type, se_task_id := hs_of ''00'',
      se_cell := demo_cell\<lparr>ce_type := type, ce_event := hs_of (TSEM_name ! type)\<rparr>\<rparr>"

abbreviation demo_ioctl :: SecurityEvent_State where "demo_ioctl \<equiv> demo_event 16"
abbreviation demo_lock :: SecurityEvent_State where "demo_lock \<equiv> demo_event 17"

lemma demo_message:
  "event_message sha demo_ioctl = Some (''file_ioctl'' @ [NUL] @
     sha (coe_message zero_character) @ sha (''file_ioctl'' @ zero_message))"
  "event_message sha demo_lock = Some (''file_lock'' @ [NUL] @
     sha (coe_message zero_character) @ sha (''file_lock'' @ zero_message))"
proof -
  have hex: "hex_decode ''00'' = Some [NUL]" by code_simp
  have names: "TSEM_name ! 16 = ''file_ioctl''" "TSEM_name ! 17 = ''file_lock''"
    by (simp_all add: TSEM_name_def)
  show "event_message sha demo_ioctl = Some (''file_ioctl'' @ [NUL] @
     sha (coe_message zero_character) @ sha (''file_ioctl'' @ zero_message))"
    "event_message sha demo_lock = Some (''file_lock'' @ [NUL] @
     sha (coe_message zero_character) @ sha (''file_lock'' @ zero_message))"
    by (simp_all add: event_message_def demo_event_def hex names SecurityEvent_Init_def COE_Init_def
        cell_message_def cell_parts_def generic_parts_def del: hex_decode.simps)
qed

lemma demo_ready: "type < length TSEM_name \<Longrightarrow> event_ready (demo_event type)"
  by (simp add: event_ready_def demo_event_def SecurityEvent_Init_def demo_cell_def Cell_Init_def
      cell_ready_def)

lemma demo_ok: "event_ok (demo_event type)"
  by (simp add: event_ok_def demo_event_def SecurityEvent_Init_def demo_cell_def Cell_Init_def zero_file_def)

lemma demo_pseudo: "event_pseudo sha P (demo_event type) = demo_event type"
  by (simp add: event_pseudo_def event_path_def demo_event_def SecurityEvent_Init_def demo_cell_def
      Cell_Init_def zero_file_def hs_get_def hs_empty_def)

lemma length_TSEM_name [simp]: "length TSEM_name = 88"
  by (simp add: TSEM_name_def)

lemma demo_good: "good_event sha P demo_ioctl" "good_event sha P demo_lock"
  by (simp_all add: good_event_def demo_ready demo_ok demo_pseudo demo_message)

lemma demo_identities: "model_identity demo_sha P demo_ioctl \<noteq> model_identity demo_sha P demo_lock"
  by (simp add: model_identity_def demo_pseudo demo_message demo_sha_def)

lemma model_ok_Init: "sha_ok sha \<Longrightarrow> model_ok sha {} TSEM_Init"
  by (simp add: model_ok_def) (simp add: TSEM_Init_def has_pseudonyms_def violations_def Gaggle_Init_def)

text \<open>Updating an initial model with an event returns true.\<close>

lemma demo_update:
  "\<exists>status discipline seal T ev. TSEM_update demo_sha (TSEM_Init, demo_ioctl) =
     Ret (status, discipline, seal) (T, ev)"
  using model_learns [OF model_ok_Init [OF demo_sha_ok] demo_good(1)]
  by (auto simp: model_learn_def split: res.splits prod.splits)

lemma demo_run:
  "\<exists>rs T. TSEM_run demo_sha [demo_ioctl] TSEM_Init = Some (rs, T)"
  using demo_update by auto

section \<open>An event description\<close>

definition demo_members :: "(string \<times> string) list" where
  "demo_members = [(''pid'', ''7''), (''process'', ''cat''), (''type'', ''file_ioctl''), (''task_id'', ''00'')]"

definition demo_text :: string where
  "demo_text = event_text demo_members zero_character ''file_ioctl''"

definition demo_parsed :: SecurityEvent_State where
  "demo_parsed = parsed_event demo_cell demo_members ''file_ioctl'' 16 ''00'' 7 zero_character"

lemma demo_generic: "generic_members demo_members ''file_ioctl'' 16 ''00''"
  by (simp add: generic_members_def demo_members_def flat_def TSEM_name_def generic_type_def)

lemma demo_process: "names_process demo_members 0 7"
proof -
  have "sprint_u 7 = ''7''" by code_simp
  then show ?thesis by (simp add: names_process_def demo_members_def)
qed

lemma demo_parse:
  "SecurityEvent_parse ((SecurityEvent_Init demo_cell, hs_of demo_text), 0) =
     Ret () ((demo_parsed, hs_of demo_text), 0)"
  unfolding demo_text_def demo_parsed_def
  by (rule SecurityEvent_parse_text [OF demo_generic demo_process]) (simp_all add: zero_character_def ERANGE_def)

lemma demo_parsed_good: "good_event sha P demo_parsed"
proof -
  have hex: "hex_decode ''00'' = Some [NUL]" by code_simp
  have "event_ready demo_parsed" "event_ok demo_parsed"
    by (simp_all add: event_ready_def event_ok_def demo_parsed_def parsed_event_def SecurityEvent_Init_def
        demo_cell_def Cell_Init_def cell_ready_def coe_ready_def COE_Init_def zero_file_def)
  moreover have "event_pseudo sha P demo_parsed = demo_parsed"
    by (simp add: event_pseudo_def event_path_def demo_parsed_def parsed_event_def SecurityEvent_Init_def
        demo_cell_def Cell_Init_def zero_file_def hs_get_def hs_empty_def)
  moreover have "\<exists>m. event_message sha demo_parsed = Some m"
    by (simp add: event_message_def demo_parsed_def parsed_event_def hex SecurityEvent_Init_def COE_Init_def
        cell_message_def cell_parts_def generic_parts_def del: hex_decode.simps)
  ultimately show ?thesis by (simp add: good_event_def)
qed

lemma demo_parsed_update:
  "\<exists>status discipline seal T ev. TSEM_update demo_sha (TSEM_Init, demo_parsed) =
     Ret (status, discipline, seal) (T, ev)"
  using model_learns [OF model_ok_Init [OF demo_sha_ok] demo_parsed_good]
  by (auto simp: model_learn_def split: res.splits prod.splits)

end

