(* ===== verification/Sancho.thy ===== *)
theory Sancho
  imports TSEMSpec
begin

text \<open>
  The command interpreter of a trusted modeling agent
  (\<open>Sancho/Xen/Sancho/sancho-interpreter.c\<close> with the command table of
  \<open>Quixote/sancho-cmd.h\<close>).  It receives a message, dispatches on its start, works on one
  model, and answers on the same duct.

  The duct is I/O: received messages are the input of the interpreter, the messages it sends are
  recorded in \<open>sx_sent\<close>, and \<open>up sent\<close> tells whether the duct takes one more.  Memory that
  the code reads before it writes it is a parameter: \<open>junk\<close>, the cell of a new event, and
  \<open>stack\<close>, the 21 bytes of the local array of \<open>send_trajectory_counts\<close>.
\<close>

section \<open>State\<close>

record Sancho_State =
  sx_model :: TSEM_State
  sx_bufr :: buf
  sx_sent :: "byte list list"
  sx_errno :: int

datatype sancho_command =
  export_event | aggregate_event | seal_event | log_event | sancho_load | show_measurement |
  show_state | show_trajectory | show_counts | show_coefficients | show_forensics_counts |
  show_forensics_coefficients | show_forensics | show_events | show_map | enable_cell |
  sancho_reset

definition Sancho_cmd_list :: "(sancho_command \<times> string) list" where
  "Sancho_cmd_list =
     [(export_event, ''export ''),
      (aggregate_event, ''aggregate ''),
      (seal_event, ''seal''),
      (log_event, ''log''),
      (sancho_load, ''load ''),
      (show_measurement, ''show measurement''),
      (show_state, ''show state''),
      (show_trajectory, ''show trajectory''),
      (show_counts, ''show counts''),
      (show_coefficients, ''show coefficients''),
      (show_forensics_counts, ''show forensics_counts''),
      (show_forensics_coefficients, ''show forensics_coefficients''),
      (show_forensics, ''show forensics''),
      (show_events, ''show events''),
      (show_map, ''show map''),
      (enable_cell, ''enable cellular''),
      (sancho_reset, ''reset'')]"

definition Sancho_Init :: "int \<Rightarrow> Sancho_State" where
  "Sancho_Init errno = \<lparr>sx_model = TSEM_Init, sx_bufr = buf_empty, sx_sent = [], sx_errno = errno\<rparr>"

section \<open>Reading a message\<close>

text \<open>
  C string functions on the bytes of a message.  \<open>None\<close> outside: the function reads beyond the
  last byte.
\<close>

fun prefix_bytes :: "string \<Rightarrow> byte list \<Rightarrow> bool option" where
  "prefix_bytes [] bs = Some True"
| "prefix_bytes (x # xs) [] = None"
| "prefix_bytes (x # xs) (b # bs) = (if x = b then prefix_bytes xs bs else Some False)"

text \<open>\<open>p = index(p, ' '); ++p\<close>: the C string behind the first blank.\<close>

fun behind_blank :: "byte list \<Rightarrow> byte list option option" where
  "behind_blank [] = None"
| "behind_blank (b # bs) =
     (if b = CHR '' '' then Some (Some bs) else if b = NUL then Some None else behind_blank bs)"

definition c_string :: "byte list \<Rightarrow> string option" where
  "c_string bs = (if NUL \<in> set bs then Some (cstring bs) else None)"

text \<open>The command number is 0 at the sentinel: no command.\<close>

fun find_sancho :: "(sancho_command \<times> string) list \<Rightarrow> byte list \<Rightarrow> sancho_command option option" where
  "find_sancho [] bs = Some None"
| "find_sancho ((command, syntax) # cps) bs =
     (case prefix_bytes syntax bs of
        None \<Rightarrow> None
      | Some True \<Rightarrow> Some (Some command)
      | Some False \<Rightarrow> find_sancho cps bs)"

definition get_command :: "buf \<Rightarrow> sancho_command option option" where
  "get_command bufr = (if b_poisoned bufr then None else find_sancho Sancho_cmd_list (b_data bufr))"

text \<open>
  The argument of a command: \<open>f\<close> is given the string behind the blank, and \<open>none\<close> is the
  exit of the handler without one.
\<close>

definition with_argument ::
  "(Sancho_State \<Rightarrow> (unit, Sancho_State) res) \<Rightarrow> (string \<Rightarrow> Sancho_State \<Rightarrow> (unit, Sancho_State) res) \<Rightarrow>
   Sancho_State \<Rightarrow> (unit, Sancho_State) res" where
  "with_argument none f st =
     (if b_poisoned (sx_bufr st) then Undef
      else
        (case behind_blank (b_data (sx_bufr st)) of
           None \<Rightarrow> Undef
         | Some None \<Rightarrow> none st
         | Some (Some p) \<Rightarrow> (case c_string p of None \<Rightarrow> Undef | Some arg \<Rightarrow> f arg st)))"

section \<open>Sending a message\<close>

definition on_model :: "(TSEM_State \<Rightarrow> TSEM_State) \<Rightarrow> Sancho_State \<Rightarrow> Sancho_State" where
  "on_model f st = st\<lparr>sx_model := f (sx_model st)\<rparr>"

text \<open>\<open>bufr->reset(bufr); bufr->add(bufr, bs)\<close> with the result ignored.\<close>

definition fill :: "byte list \<Rightarrow> Sancho_State \<Rightarrow> Sancho_State" where
  "fill bs st = st\<lparr>sx_bufr := (case buf_add bs (buf_reset (sx_bufr st)) of
                                 Ret _ b \<Rightarrow> b | Fail b \<Rightarrow> b | Undef \<Rightarrow> sx_bufr st)\<rparr>"

definition send_Buffer :: "(byte list list \<Rightarrow> bool) \<Rightarrow> Sancho_State \<Rightarrow> (unit, Sancho_State) res" where
  "send_Buffer up st =
     (if \<not> b_poisoned (sx_bufr st) \<and> up (sx_sent st)
      then Ret () (st\<lparr>sx_sent := sx_sent st @ [b_data (sx_bufr st)]\<rparr>) else Fail st)"

definition reset_bufr :: "Sancho_State \<Rightarrow> Sancho_State" where
  "reset_bufr st = st\<lparr>sx_bufr := buf_reset (sx_bufr st)\<rparr>"

text \<open>Most handlers return nothing: their errors end them.\<close>

fun handler :: "(unit, Sancho_State) res \<Rightarrow> Sancho_State option" where
  "handler (Ret _ st) = Some st"
| "handler (Fail st) = Some st"
| "handler Undef = None"

definition send_ok :: "(byte list list \<Rightarrow> bool) \<Rightarrow> Sancho_State \<Rightarrow> Sancho_State" where
  "send_ok up st =
     (let st1 = fill (''OK'' @ [NUL]) st
      in if b_poisoned (sx_bufr st1) then st1
         else reset_bufr (case send_Buffer up st1 of Ret _ s \<Rightarrow> s | Fail s \<Rightarrow> s | Undef \<Rightarrow> st1))"

section \<open>Handlers that change the model\<close>

text \<open>
  The event is freed or leaked by the value of \<open>updated\<close>, which is uninitialised when the
  event was not parsed or the update failed; the model has no heap for it.
\<close>

definition add_event ::
  "crypto \<Rightarrow> Cell_State \<Rightarrow> (byte list list \<Rightarrow> bool) \<Rightarrow> Sancho_State \<Rightarrow> (unit, Sancho_State) res" where
  "add_event cr junk up =
     with_argument Fail (\<lambda>p st.
       (case SecurityEvent_parse ((SecurityEvent_Init junk, hs_of p), sx_errno st) of
          Undef \<Rightarrow> Undef
        | Fail (_, errno) \<Rightarrow> Fail (st\<lparr>sx_errno := errno\<rparr>)
        | Ret _ ((event, _), errno) \<Rightarrow>
            (case TSEM_update (cr_sha cr) (sx_model st, event) of
               Undef \<Rightarrow> Undef
             | Fail (model, _) \<Rightarrow> Fail (st\<lparr>sx_errno := errno, sx_model := model\<rparr>)
             | Ret (updated, discipline, _) (model, event1) \<Rightarrow>
                 let st1 = st\<lparr>sx_errno := errno, sx_model := model\<rparr>
                 in if discipline
                    then (case TSEM_discipline_pid model of
                            Ret pid model1 \<Rightarrow>
                              attempt (send_Buffer up)
                                (fill (''DISCIPLINE '' @ sprint_d pid @ [NUL]) (st1\<lparr>sx_model := model1\<rparr>))
                          | _ \<Rightarrow> Undef)
                    else (case SecurityEvent_get_pid event1 of
                            Some pid \<Rightarrow>
                              attempt (send_Buffer up)
                                (fill (''RELEASE '' @ sprint_d pid @ [NUL]) st1)
                          | None \<Rightarrow> Undef))))"

definition add_aggregate ::
  "crypto \<Rightarrow> (byte list list \<Rightarrow> bool) \<Rightarrow> Sancho_State \<Rightarrow> (unit, Sancho_State) res" where
  "add_aggregate cr up =
     with_argument Fail (\<lambda>p st.
       if length p \<noteq> 64 then Fail st
       else
         (case buf_add_hexstring (Some p) buf_empty of
            Undef \<Rightarrow> Undef
          | Fail _ \<Rightarrow> Fail st
          | Ret _ aggregate \<Rightarrow>
              (case TSEM_set_aggregate (cr_sha cr) aggregate (sx_model st) of
                 Undef \<Rightarrow> Undef
               | Fail model \<Rightarrow> Ret () (st\<lparr>sx_model := model\<rparr>)
               | Ret _ model \<Rightarrow> Ret () (send_ok up (st\<lparr>sx_model := model\<rparr>)))))"

definition add_security ::
  "(byte list list \<Rightarrow> bool) \<Rightarrow> Sancho_State \<Rightarrow> (unit, Sancho_State) res" where
  "add_security up =
     with_argument Fail (\<lambda>p st.
       (case TSEM_add_TSEM_event (hs_of p) (sx_model st) of
          Undef \<Rightarrow> Undef
        | Fail model \<Rightarrow> Ret () (st\<lparr>sx_model := model\<rparr>)
        | Ret _ model \<Rightarrow> Ret () (send_ok up (st\<lparr>sx_model := model\<rparr>))))"

definition load_error :: "(byte list list \<Rightarrow> bool) \<Rightarrow> Sancho_State \<Rightarrow> (unit, Sancho_State) res" where
  "load_error up st =
     (let st1 = fill (''ERROR'' @ [NUL]) st
      in if b_poisoned (sx_bufr st1) then Ret () st1 else attempt (send_Buffer up) st1)"

definition do_load ::
  "crypto \<Rightarrow> (byte list list \<Rightarrow> bool) \<Rightarrow> Sancho_State \<Rightarrow> (unit, Sancho_State) res" where
  "do_load cr up =
     with_argument (load_error up) (\<lambda>p st.
       (case TSEM_load cr (hs_of p) (sx_model st) of
          Undef \<Rightarrow> Undef
        | Fail model \<Rightarrow> load_error up (st\<lparr>sx_model := model\<rparr>)
        | Ret _ model \<Rightarrow> Ret () (send_ok up (st\<lparr>sx_model := model\<rparr>))))"

section \<open>Handlers that show the model\<close>

definition size_bytes :: "nat \<Rightarrow> byte list" where
  "size_bytes n = u64_bytes (of_nat n)"

definition send_count ::
  "(byte list list \<Rightarrow> bool) \<Rightarrow> u64 \<Rightarrow> Sancho_State \<Rightarrow> (unit, Sancho_State) res" where
  "send_count up cnt st = send_Buffer up (fill (u64_bytes cnt) st)"

text \<open>
  The loops over events; \<open>es\<close> is the text object that is reused.  A formatted event is
  written back to the pack, because \<open>format\<close> may poison a part of it.
\<close>

fun trajectory_loop ::
  "(byte list list \<Rightarrow> bool) \<Rightarrow> nat \<Rightarrow> hstr \<Rightarrow> Sancho_State \<Rightarrow> (unit, Sancho_State) res" where
  "trajectory_loop up 0 es st = Ret () st"
| "trajectory_loop up (Suc n) es st =
     (case TSEM_get_event (sx_model st) of
        (None, model) \<Rightarrow> trajectory_loop up n es (st\<lparr>sx_model := model\<rparr>)
      | (Some event, model) \<Rightarrow>
          (case SecurityEvent_format (event, es) of
             Undef \<Rightarrow> Undef
           | Fail (event1, es1) \<Rightarrow>
               Fail (st\<lparr>sx_model := model\<lparr>ts_trajectory := Gaggle_mutate_last event1 (ts_trajectory model)\<rparr>\<rparr>)
           | Ret _ (event1, es1) \<Rightarrow>
               (let st1 = st\<lparr>sx_model := model\<lparr>ts_trajectory := Gaggle_mutate_last event1 (ts_trajectory model)\<rparr>\<rparr>
                in res_bind (send_Buffer up (fill (hs_chars es1 @ [NUL]) st1))
                     (\<lambda>_. trajectory_loop up n (hs_reset es1)))))"

definition send_trajectory :: "(byte list list \<Rightarrow> bool) \<Rightarrow> Sancho_State \<Rightarrow> (unit, Sancho_State) res" where
  "send_trajectory up st =
     (let cnt = TSEM_trajectory_size (sx_model st) in
      steps [send_count up (of_nat cnt), assign (on_model TSEM_rewind_event), trajectory_loop up cnt hs_empty] st)"

fun forensics_loop ::
  "(byte list list \<Rightarrow> bool) \<Rightarrow> nat \<Rightarrow> hstr \<Rightarrow> Sancho_State \<Rightarrow> (unit, Sancho_State) res" where
  "forensics_loop up 0 es st = Ret () st"
| "forensics_loop up (Suc n) es st =
     (case TSEM_get_forensics (sx_model st) of
        (None, model) \<Rightarrow> forensics_loop up n es (st\<lparr>sx_model := model\<rparr>)
      | (Some event, model) \<Rightarrow>
          (case SecurityEvent_format (event, es) of
             Undef \<Rightarrow> Undef
           | Fail (event1, es1) \<Rightarrow>
               Fail (st\<lparr>sx_model := model\<lparr>ts_forensics := Gaggle_mutate_last event1 (ts_forensics model)\<rparr>\<rparr>)
           | Ret _ (event1, es1) \<Rightarrow>
               (let st1 = st\<lparr>sx_model := model\<lparr>ts_forensics := Gaggle_mutate_last event1 (ts_forensics model)\<rparr>\<rparr>
                in res_bind (send_Buffer up (fill (hs_chars es1 @ [NUL]) st1))
                     (\<lambda>_. forensics_loop up n (hs_reset es1)))))"

definition send_forensics :: "(byte list list \<Rightarrow> bool) \<Rightarrow> Sancho_State \<Rightarrow> (unit, Sancho_State) res" where
  "send_forensics up st =
     (let cnt = TSEM_forensics_size (sx_model st) in
      steps [send_count up (of_nat cnt), assign (on_model TSEM_rewind_forensics), forensics_loop up cnt hs_empty] st)"

text \<open>The number of points of one kind, as \<open>size_t\<close> arithmetic.\<close>

definition point_count :: "bool \<Rightarrow> TSEM_State \<Rightarrow> u64" where
  "point_count type model =
     (if type then of_nat (TSEM_points_size model) - of_nat (TSEM_forensics_size model)
      else of_nat (TSEM_forensics_size model))"

fun coefficients_loop ::
  "(byte list list \<Rightarrow> bool) \<Rightarrow> bool \<Rightarrow> nat \<Rightarrow> Sancho_State \<Rightarrow> (unit, Sancho_State) res" where
  "coefficients_loop up type 0 st = Ret () st"
| "coefficients_loop up type (Suc n) st =
     (case TSEM_get_point (sx_model st) of
        (None, model) \<Rightarrow> coefficients_loop up type n (st\<lparr>sx_model := model\<rparr>)
      | (Some cp, model) \<Rightarrow>
          (let st1 = st\<lparr>sx_model := model\<rparr>
           in if SecurityPoint_is_valid cp \<noteq> type then coefficients_loop up type n st1
              else res_bind (send_Buffer up (fill (sprint_hex (SecurityPoint_get cp) @ [NUL]) st1))
                     (\<lambda>_. coefficients_loop up type n)))"

definition send_trajectory_coefficients ::
  "(byte list list \<Rightarrow> bool) \<Rightarrow> bool \<Rightarrow> Sancho_State \<Rightarrow> (unit, Sancho_State) res" where
  "send_trajectory_coefficients up type st =
     steps
       [send_count up (point_count type (sx_model st)),
        assign (on_model TSEM_rewind_points),
        coefficients_loop up type (TSEM_points_size (sx_model st))] st"

text \<open>The whole array is sent: behind the digits and their NUL it holds what was there before.\<close>

fun counts_loop ::
  "(byte list list \<Rightarrow> bool) \<Rightarrow> bool \<Rightarrow> nat \<Rightarrow> byte list \<Rightarrow> Sancho_State \<Rightarrow> (unit, Sancho_State) res" where
  "counts_loop up type 0 stack st = Ret () st"
| "counts_loop up type (Suc n) stack st =
     (case TSEM_get_point (sx_model st) of
        (None, model) \<Rightarrow> counts_loop up type n stack (st\<lparr>sx_model := model\<rparr>)
      | (Some cp, model) \<Rightarrow>
          (let st1 = st\<lparr>sx_model := model\<rparr>
           in if SecurityPoint_is_valid cp \<noteq> type then counts_loop up type n stack st1
              else
                let stack1 = overwrite (sprint_u (unat (SecurityPoint_get_count cp)) @ [NUL]) stack
                in res_bind (send_Buffer up (fill stack1 st1))
                     (\<lambda>_. counts_loop up type n stack1)))"

definition send_trajectory_counts ::
  "(byte list list \<Rightarrow> bool) \<Rightarrow> byte list \<Rightarrow> bool \<Rightarrow> Sancho_State \<Rightarrow> (unit, Sancho_State) res" where
  "send_trajectory_counts up stack type st =
     steps
       [send_count up (point_count type (sx_model st)),
        assign (on_model TSEM_rewind_points),
        counts_loop up type (TSEM_points_size (sx_model st)) stack] st"

text \<open>The logged texts are sent without their NUL.\<close>

fun events_loop :: "(byte list list \<Rightarrow> bool) \<Rightarrow> nat \<Rightarrow> Sancho_State \<Rightarrow> (unit, Sancho_State) res" where
  "events_loop up 0 st = Ret () st"
| "events_loop up (Suc n) st =
     (case TSEM_get_TSEM_event (sx_model st) of
        (None, model) \<Rightarrow> events_loop up n (st\<lparr>sx_model := model\<rparr>)
      | (Some event, model) \<Rightarrow>
          res_bind (send_Buffer up (fill (hs_chars event) (st\<lparr>sx_model := model\<rparr>)))
            (\<lambda>_. events_loop up n))"

definition send_events :: "(byte list list \<Rightarrow> bool) \<Rightarrow> Sancho_State \<Rightarrow> (unit, Sancho_State) res" where
  "send_events up st =
     (let cnt = TSEM_events_size (sx_model st) in
      steps [send_count up (of_nat cnt), assign (on_model TSEM_rewind_TSEM_event), events_loop up cnt] st)"

definition send_measurement :: "(byte list list \<Rightarrow> bool) \<Rightarrow> Sancho_State \<Rightarrow> (unit, Sancho_State) res" where
  "send_measurement up st = send_Buffer up (fill (ts_measurement (sx_model st)) st)"

definition send_state :: "crypto \<Rightarrow> (byte list list \<Rightarrow> bool) \<Rightarrow> Sancho_State \<Rightarrow> (unit, Sancho_State) res" where
  "send_state cr up st =
     (case TSEM_get_state (cr_sha cr) (sx_model st, buf_reset (sx_bufr st)) of
        Undef \<Rightarrow> Undef
      | Ret _ (model, bufr) \<Rightarrow> attempt (send_Buffer up) (st\<lparr>sx_model := model, sx_bufr := bufr\<rparr>)
      | Fail (model, bufr) \<Rightarrow> attempt (send_Buffer up) (st\<lparr>sx_model := model, sx_bufr := bufr\<rparr>))"

section \<open>The interpreter\<close>

text \<open>One pass of the loop: whether the connection stays, and the state.\<close>

definition sancho_dispatch ::
  "crypto \<Rightarrow> Cell_State \<Rightarrow> byte list \<Rightarrow> (byte list list \<Rightarrow> bool) \<Rightarrow> sancho_command \<Rightarrow>
   Sancho_State \<Rightarrow> (unit, Sancho_State) res" where
  "sancho_dispatch cr junk stack up cmd =
     (case cmd of
        export_event \<Rightarrow> add_event cr junk up
      | aggregate_event \<Rightarrow> add_aggregate cr up
      | seal_event \<Rightarrow> (\<lambda>st. Ret () (send_ok up (on_model TSEM_seal st)))
      | log_event \<Rightarrow> add_security up
      | sancho_load \<Rightarrow> do_load cr up
      | show_measurement \<Rightarrow> send_measurement up
      | show_state \<Rightarrow> send_state cr up
      | show_trajectory \<Rightarrow> send_trajectory up
      | show_coefficients \<Rightarrow> send_trajectory_coefficients up True
      | show_counts \<Rightarrow> send_trajectory_counts up stack True
      | show_forensics \<Rightarrow> send_forensics up
      | show_forensics_coefficients \<Rightarrow> send_trajectory_coefficients up False
      | show_forensics_counts \<Rightarrow> send_trajectory_counts up stack False
      | show_events \<Rightarrow> send_events up
      | show_map \<Rightarrow> Ret ()
      | enable_cell \<Rightarrow> (\<lambda>st. Ret () (send_ok up st))
      | sancho_reset \<Rightarrow> Ret ())"

definition sancho_step ::
  "crypto \<Rightarrow> Cell_State \<Rightarrow> byte list \<Rightarrow> (byte list list \<Rightarrow> bool) \<Rightarrow> byte list \<Rightarrow>
   Sancho_State \<Rightarrow> (bool \<times> Sancho_State) option" where
  "sancho_step cr junk stack up msg st =
     (let st1 = st\<lparr>sx_bufr := (case buf_add msg (sx_bufr st) of
                                 Ret _ b \<Rightarrow> b | Fail b \<Rightarrow> b | Undef \<Rightarrow> sx_bufr st)\<rparr>
      in (case get_command (sx_bufr st1) of
            None \<Rightarrow> None
          | Some None \<Rightarrow> Some (True, reset_bufr st1)
          | Some (Some cmd) \<Rightarrow>
              map_option (\<lambda>st2. (cmd \<noteq> sancho_reset, reset_bufr st2))
                (handler (sancho_dispatch cr junk stack up cmd st1))))"

text \<open>
  The interpreter on the messages that arrive before the duct reports its end; \<open>None\<close>: the
  program has no defined behaviour.
\<close>

fun sancho_interpreter ::
  "crypto \<Rightarrow> Cell_State \<Rightarrow> byte list \<Rightarrow> (byte list list \<Rightarrow> bool) \<Rightarrow> byte list list \<Rightarrow>
   Sancho_State \<Rightarrow> Sancho_State option" where
  "sancho_interpreter cr junk stack up [] st = Some st"
| "sancho_interpreter cr junk stack up (msg # msgs) st =
     (case sancho_step cr junk stack up msg st of
        None \<Rightarrow> None
      | Some (connected, st1) \<Rightarrow>
          if connected then sancho_interpreter cr junk stack up msgs st1 else Some st1)"

end
