(* ===== verification/SanchoLemmas.thy ===== *)
theory SanchoLemmas
  imports Sancho
begin

text \<open>
  What the command interpreter does to its model and what it sends: no command breaks the
  invariants of the model, no message of the table hides another, and the announced counts are
  the numbers of the messages that follow.
\<close>

section \<open>Commands and the model\<close>

text \<open>The effect of a handler: that of operations of the model, on a buffer that stays usable.\<close>

definition sx_effect :: "Sancho_State \<Rightarrow> Sancho_State \<Rightarrow> bool" where
  "sx_effect st st' \<longleftrightarrow> effect (sx_model st) (sx_model st') \<and>
     b_poisoned (sx_bufr st') = b_poisoned (sx_bufr st)"

definition sx_ok :: "Sancho_State \<Rightarrow> bool" where
  "sx_ok st \<longleftrightarrow> tsem_ok (sx_model st) \<and> \<not> b_poisoned (sx_bufr st)"

definition sx_handler :: "(Sancho_State \<Rightarrow> (unit, Sancho_State) res) \<Rightarrow> bool" where
  "sx_handler f \<longleftrightarrow> (\<forall>st. sx_ok st \<longrightarrow> keeps (sx_effect st) (f st))"

named_theorems handlers \<open>handlers that have the effect of operations of the model\<close>

lemma sx_effect_ok: "sx_ok st \<Longrightarrow> sx_effect st st' \<Longrightarrow> sx_ok st'"
  by (auto simp: sx_ok_def sx_effect_def dest: effect_ok)

lemma sx_effect_refl: "sx_ok st \<Longrightarrow> sx_effect st st"
  by (simp add: sx_ok_def sx_effect_def effect_refl)

lemma sx_effect_trans: "sx_effect st st' \<Longrightarrow> sx_effect st' st'' \<Longrightarrow> sx_effect st st''"
  by (auto simp: sx_effect_def dest: effect_trans)

lemma sx_effect_same:
  "sx_ok st \<Longrightarrow> sx_model st' = sx_model st \<Longrightarrow> b_poisoned (sx_bufr st') = b_poisoned (sx_bufr st) \<Longrightarrow>
   sx_effect st st'"
  by (simp add: sx_ok_def sx_effect_def effect_refl)

lemma sx_handlerD: "sx_handler f \<Longrightarrow> sx_ok st \<Longrightarrow> keeps (sx_effect st) (f st)"
  by (simp add: sx_handler_def)

lemma sx_handler_after:
  assumes "sx_handler f" "sx_ok st" "sx_effect st st'"
  shows "keeps (sx_effect st) (f st')"
  using sx_handlerD [OF assms(1) sx_effect_ok [OF assms(2,3)]] sx_effect_trans [OF assms(3)]
  by (rule keeps_mono)

lemma sx_handler_steps:
  assumes "\<And>f. f \<in> set fs \<Longrightarrow> sx_handler f"
  shows "sx_handler (steps fs)"
  unfolding sx_handler_def
proof (intro allI impI)
  fix st assume ok: "sx_ok st"
  show "keeps (sx_effect st) (steps fs st)"
    by (rule keeps_steps) (use assms ok in \<open>auto intro: sx_handler_after sx_effect_refl\<close>)
qed

lemma buf_add_poisoned [simp]:
  "b_poisoned (case buf_add bs b of Ret _ c \<Rightarrow> c | Fail c \<Rightarrow> c | Undef \<Rightarrow> d) = b_poisoned b"
  by (simp add: buf_add_def)

lemma buf_reset_poisoned [simp]: "b_poisoned (buf_reset b) = b_poisoned b"
  by (simp add: buf_reset_def)

lemma fill_simps [simp]:
  "sx_model (fill bs st) = sx_model st" "sx_sent (fill bs st) = sx_sent st"
  "b_poisoned (sx_bufr (fill bs st)) = b_poisoned (sx_bufr st)" "sx_errno (fill bs st) = sx_errno st"
  by (simp_all add: fill_def)

lemma fill_data: "\<not> b_poisoned (sx_bufr st) \<Longrightarrow> b_data (sx_bufr (fill bs st)) = bs"
  by (simp add: fill_def buf_add_def buf_reset_def)

lemma reset_bufr_simps [simp]:
  "sx_model (reset_bufr st) = sx_model st" "sx_sent (reset_bufr st) = sx_sent st"
  "b_poisoned (sx_bufr (reset_bufr st)) = b_poisoned (sx_bufr st)"
  by (simp_all add: reset_bufr_def)

lemma on_model_simps [simp]:
  "sx_model (on_model f st) = f (sx_model st)" "sx_sent (on_model f st) = sx_sent st"
  "sx_bufr (on_model f st) = sx_bufr st"
  by (simp_all add: on_model_def)

lemma handler_send_Buffer [handlers]: "sx_handler (send_Buffer up)"
  by (simp add: sx_handler_def send_Buffer_def sx_effect_same)

lemma handler_send_fill [handlers]: "sx_handler (\<lambda>st. send_Buffer up (fill bs st))"
  by (simp add: sx_handler_def send_Buffer_def sx_effect_same)

lemma handler_Ret [handlers]: "sx_handler (Ret ())"
  by (simp add: sx_handler_def sx_effect_refl)

lemma handler_Fail [handlers]: "sx_handler Fail"
  by (simp add: sx_handler_def sx_effect_refl)

lemma send_ok_effect: "sx_ok st \<Longrightarrow> sx_effect st (send_ok up st)"
  by (auto simp: send_ok_def Let_def send_Buffer_def intro!: sx_effect_same)

lemma handler_send_ok [handlers]: "sx_handler (\<lambda>st. Ret () (send_ok up st))"
  by (simp add: sx_handler_def send_ok_effect)

text \<open>The three uses of a part of the state that the effect does not see.\<close>

lemma sx_effect_model:
  "sx_ok st \<Longrightarrow> effect (sx_model st) model \<Longrightarrow> sx_effect st (st\<lparr>sx_model := model\<rparr>)"
  "sx_ok st \<Longrightarrow> effect (sx_model st) model \<Longrightarrow> sx_effect st (st\<lparr>sx_errno := e, sx_model := model\<rparr>)"
  by (simp_all add: sx_effect_def)

lemma handler_with_argument [handlers]:
  assumes "sx_handler none" "\<And>p. sx_handler (f p)"
  shows "sx_handler (with_argument none f)"
  using assms by (auto simp: sx_handler_def with_argument_def split: option.splits)

lemma keeps_attempt_handler:
  "sx_handler f \<Longrightarrow> sx_ok st \<Longrightarrow> sx_effect st st' \<Longrightarrow> keeps (sx_effect st) (attempt f st')"
  by (rule keeps_attempt) (rule sx_handler_after)

lemma handler_add_event [handlers]:
  assumes sha: "sha_ok (cr_sha cr)"
  shows "sx_handler (add_event cr junk up)"
  unfolding add_event_def
proof (rule handler_with_argument)
  fix p
  show "sx_handler (\<lambda>st. case SecurityEvent_parse ((SecurityEvent_Init junk, hs_of p), sx_errno st) of
          Undef \<Rightarrow> Undef
        | Fail (_, errno) \<Rightarrow> Fail (st\<lparr>sx_errno := errno\<rparr>)
        | Ret _ ((event, _), errno) \<Rightarrow>
            (case TSEM_update (cr_sha cr) (sx_model st, event) of
               Undef \<Rightarrow> Undef
             | Fail (model, _) \<Rightarrow> Fail (st\<lparr>sx_errno := errno, sx_model := model\<rparr>)
             | Ret (updated, discipline, _) (model, event1) \<Rightarrow>
                 let st1 = st\<lparr>sx_errno := errno, sx_model := model\<rparr>
                 in if discipline
                    then (case TSEM_discipline_pid model of
                            Ret pid model1 \<Rightarrow>
                              attempt (send_Buffer up)
                                (fill (''DISCIPLINE '' @ sprint_d pid @ [NUL]) (st1\<lparr>sx_model := model1\<rparr>))
                          | _ \<Rightarrow> Undef)
                    else (case SecurityEvent_get_pid event1 of
                            Some pid \<Rightarrow>
                              attempt (send_Buffer up)
                                (fill (''RELEASE '' @ sprint_d pid @ [NUL]) st1)
                          | None \<Rightarrow> Undef)))" (is "sx_handler ?h")
    unfolding sx_handler_def
  proof (intro allI impI)
    fix st assume ok: "sx_ok st"
    then have "tsem_ok (sx_model st)" by (simp add: sx_ok_def)
    note upd = TSEM_update_effect [OF this sha]
    have fill: "sx_effect st (fill bs st')" if "sx_effect st st'" for bs st'
      using that by (simp add: sx_effect_def)
    have errno: "sx_effect st (st\<lparr>sx_errno := e\<rparr>)" for e
      using ok by (simp add: sx_effect_same)
    have model: "sx_effect st (st\<lparr>sx_errno := e, sx_model := m\<rparr>)"
      if "effect (sx_model st) m" for e m
      using ok that by (rule sx_effect_model)
    have sent: "keeps (sx_effect st) (attempt (send_Buffer up) (fill bs (st\<lparr>sx_errno := e, sx_model := m\<rparr>)))"
      if "effect (sx_model st) m" for bs e m
      using keeps_attempt_handler [OF handler_send_Buffer ok fill [OF model [OF that]]] .
    show "keeps (sx_effect st) (?h st)"
    proof (cases "SecurityEvent_parse ((SecurityEvent_Init junk, hs_of p), sx_errno st)")
      case (Ret u s)
      then obtain event x e where s: "s = ((event, x), e)" by (metis surj_pair)
      show ?thesis
      proof (cases "TSEM_update (cr_sha cr) (sx_model st, event)")
        case up: (Ret a t)
        obtain updated discipline seal m ev where at: "a = (updated, discipline, seal)" "t = (m, ev)"
          by (metis surj_pair)
        have "effect (sx_model st) m" using upd [of event] up at by simp
        then show ?thesis using Ret s up at sent
          by (simp add: TSEM_discipline_pid_def Let_def del: attempt.simps split: option.splits)
      next
        case (Fail t)
        then show ?thesis using Ret s upd [of event] model by (auto split: prod.splits)
      qed (use Ret s in simp)
    qed (use errno in \<open>auto split: prod.splits\<close>)
  qed
qed (rule handler_Fail)

lemma sx_ok_model: "sx_ok st \<Longrightarrow> tsem_ok (sx_model st)"
  by (simp add: sx_ok_def)

text \<open>An operation of the model that is answered with OK when it returns true.\<close>

lemma keeps_answer:
  assumes ok: "sx_ok st" and r: "keeps (effect (sx_model st)) r"
  shows "keeps (sx_effect st) (case r of
           Undef \<Rightarrow> Undef
         | Fail model \<Rightarrow> Ret () (st\<lparr>sx_model := model\<rparr>)
         | Ret (u :: unit) model \<Rightarrow> Ret () (send_ok up (st\<lparr>sx_model := model\<rparr>)))"
proof (cases r)
  case (Ret u m)
  with ok r have "sx_effect st (st\<lparr>sx_model := m\<rparr>)" by (simp add: sx_effect_model)
  with Ret ok show ?thesis by (auto intro: sx_effect_trans send_ok_effect sx_effect_ok)
next
  case (Fail m)
  with ok r show ?thesis by (simp add: sx_effect_model)
qed simp

lemma handler_add_aggregate [handlers]:
  assumes sha: "sha_ok (cr_sha cr)"
  shows "sx_handler (add_aggregate cr up)"
proof -
  have r: "keeps (effect (sx_model st)) (TSEM_set_aggregate (cr_sha cr) b (sx_model st))" if "sx_ok st" for b st
    using effectful_set_aggregate [OF sha, of b] sx_ok_model [OF that] by (simp add: effectful_def)
  show ?thesis
    unfolding add_aggregate_def
  proof (intro handler_with_argument handler_Fail)
    fix p
    show "sx_handler (\<lambda>st. if length p \<noteq> 64 then Fail st
       else
         (case buf_add_hexstring (Some p) buf_empty of
            Undef \<Rightarrow> Undef
          | Fail _ \<Rightarrow> Fail st
          | Ret _ aggregate \<Rightarrow>
              (case TSEM_set_aggregate (cr_sha cr) aggregate (sx_model st) of
                 Undef \<Rightarrow> Undef
               | Fail model \<Rightarrow> Ret () (st\<lparr>sx_model := model\<rparr>)
               | Ret _ model \<Rightarrow> Ret () (send_ok up (st\<lparr>sx_model := model\<rparr>)))))"
      unfolding sx_handler_def
      by (cases "buf_add_hexstring (Some p) buf_empty")
        (auto simp: sx_effect_refl intro!: keeps_answer r)
  qed
qed

lemma handler_add_security [handlers]: "sx_handler (add_security up)"
  unfolding add_security_def
proof (intro handler_with_argument handler_Fail)
  fix p
  show "sx_handler (\<lambda>st. case TSEM_add_TSEM_event (hs_of p) (sx_model st) of
          Undef \<Rightarrow> Undef
        | Fail model \<Rightarrow> Ret () (st\<lparr>sx_model := model\<rparr>)
        | Ret _ model \<Rightarrow> Ret () (send_ok up (st\<lparr>sx_model := model\<rparr>)))"
    unfolding sx_handler_def
    by (intro allI impI keeps_answer effect_add_TSEM_event sx_ok_model)
qed

lemma handler_load_error [handlers]: "sx_handler (load_error up)"
proof -
  have "keeps (sx_effect st) (attempt (send_Buffer up) (fill bs st))" if "sx_ok st" for bs st
    by (rule keeps_attempt_handler [OF handler_send_Buffer that]) (simp add: sx_effect_same that)
  then show ?thesis
    by (simp add: sx_handler_def load_error_def Let_def sx_effect_same del: attempt.simps)
qed

lemma handler_do_load [handlers]:
  assumes sha: "sha_ok (cr_sha cr)"
  shows "sx_handler (do_load cr up)"
proof -
  have l: "keeps (effect (sx_model st)) (TSEM_load cr e (sx_model st))" if "sx_ok st" for e st
    using effectful_load [OF sha, of e] sx_ok_model [OF that] by (simp add: effectful_def)
  have "sx_handler (\<lambda>st. case TSEM_load cr (hs_of p) (sx_model st) of
          Undef \<Rightarrow> Undef
        | Fail model \<Rightarrow> load_error up (st\<lparr>sx_model := model\<rparr>)
        | Ret _ model \<Rightarrow> Ret () (send_ok up (st\<lparr>sx_model := model\<rparr>)))" (is "sx_handler ?h") for p
    unfolding sx_handler_def
  proof (intro allI impI)
    fix st assume ok: "sx_ok st"
    show "keeps (sx_effect st) (?h st)"
    proof (cases "TSEM_load cr (hs_of p) (sx_model st)")
      case (Ret u m)
      with l [OF ok, of "hs_of p"] have "sx_effect st (st\<lparr>sx_model := m\<rparr>)"
        using ok by (simp add: sx_effect_model)
      with Ret ok show ?thesis by (auto intro: sx_effect_trans send_ok_effect sx_effect_ok)
    next
      case (Fail m)
      with l [OF ok, of "hs_of p"] have "sx_effect st (st\<lparr>sx_model := m\<rparr>)"
        using ok by (simp add: sx_effect_model)
      with Fail ok show ?thesis by (auto intro: sx_handler_after handler_load_error)
    qed simp
  qed
  then show ?thesis
    unfolding do_load_def by (intro handler_with_argument handler_load_error)
qed

text \<open>Formatting an event that is in a pack writes the event back.\<close>

lemma effect_mutate:
  assumes "tsem_ok S"
  shows "effect S (S\<lparr>ts_trajectory := Gaggle_mutate_last e (ts_trajectory S)\<rparr>)"
    "effect S (S\<lparr>ts_forensics := Gaggle_mutate_last e (ts_forensics S)\<rparr>)"
  using assms
  by (simp_all add: effect_def history_def tsem_ok_def points_ok_iff valid_points_def violations_def
      Gaggle_mutate_last_def gaggle_ok_def)

lemma sx_handler_bind:
  assumes "sx_handler f" "sx_handler g" "sx_ok st" "sx_effect st st'"
  shows "keeps (sx_effect st) (res_bind (f st') (\<lambda>_. g))"
  using sx_handler_after [OF assms(1,3,4)] sx_handler_after [OF assms(2,3)] by blast

lemma sx_effect_mutate:
  assumes "sx_ok st" "effect (sx_model st) m"
  shows "sx_effect st (st\<lparr>sx_model := m\<lparr>ts_trajectory := Gaggle_mutate_last e (ts_trajectory m)\<rparr>\<rparr>)"
    "sx_effect st (st\<lparr>sx_model := m\<lparr>ts_forensics := Gaggle_mutate_last e (ts_forensics m)\<rparr>\<rparr>)"
  using sx_effect_model(1) [OF assms(1) effect_trans [OF assms(2) effect_mutate(1) [OF effect_ok [OF assms(2)]]]]
    sx_effect_model(1) [OF assms(1) effect_trans [OF assms(2) effect_mutate(2) [OF effect_ok [OF assms(2)]]]]
  by simp_all

lemma handler_trajectory_loop [handlers]: "sx_handler (trajectory_loop up n es)"
proof (induction n arbitrary: es)
  case (Suc n)
  show ?case
    unfolding sx_handler_def
  proof (intro allI impI)
    fix st assume ok: "sx_ok st"
    obtain x m where x: "TSEM_get_event (sx_model st) = (x, m)" by (metis surj_pair)
    then have m: "effect (sx_model st) m"
      using effect_iterators(1) [OF sx_ok_model [OF ok]] by simp
    note mut = sx_effect_mutate(1) [OF ok m]
    have "keeps (sx_effect st) (res_bind (send_Buffer up (fill bs
        (st\<lparr>sx_model := m\<lparr>ts_trajectory := Gaggle_mutate_last e (ts_trajectory m)\<rparr>\<rparr>))) (\<lambda>_. trajectory_loop up n t))"
      for bs e t
      by (rule sx_handler_bind [OF handler_send_fill Suc.IH ok mut])
    then show "keeps (sx_effect st) (trajectory_loop up (Suc n) es st)"
      using x mut sx_handler_after [OF Suc.IH ok sx_effect_model(1) [OF ok m]]
      by (auto simp: Let_def split: option.splits res.splits prod.splits)
  qed
qed (simp add: sx_handler_def sx_effect_refl)

lemma handler_forensics_loop [handlers]: "sx_handler (forensics_loop up n es)"
proof (induction n arbitrary: es)
  case (Suc n)
  show ?case
    unfolding sx_handler_def
  proof (intro allI impI)
    fix st assume ok: "sx_ok st"
    obtain x m where x: "TSEM_get_forensics (sx_model st) = (x, m)" by (metis surj_pair)
    then have m: "effect (sx_model st) m"
      using effect_iterators(5) [OF sx_ok_model [OF ok]] by simp
    note mut = sx_effect_mutate(2) [OF ok m]
    have "keeps (sx_effect st) (res_bind (send_Buffer up (fill bs
        (st\<lparr>sx_model := m\<lparr>ts_forensics := Gaggle_mutate_last e (ts_forensics m)\<rparr>\<rparr>))) (\<lambda>_. forensics_loop up n t))"
      for bs e t
      by (rule sx_handler_bind [OF handler_send_fill Suc.IH ok mut])
    then show "keeps (sx_effect st) (forensics_loop up (Suc n) es st)"
      using x mut sx_handler_after [OF Suc.IH ok sx_effect_model(1) [OF ok m]]
      by (auto simp: Let_def split: option.splits res.splits prod.splits)
  qed
qed (simp add: sx_handler_def sx_effect_refl)

lemma handler_point_loops [handlers]:
  "sx_handler (coefficients_loop up type n)" "sx_handler (counts_loop up type n stack)"
proof -
  show "sx_handler (coefficients_loop up type n)"
  proof (induction n)
    case (Suc n)
    have m: "sx_effect st (st\<lparr>sx_model := snd (TSEM_get_point (sx_model st))\<rparr>)" if "sx_ok st" for st
      using sx_effect_model(1) [OF that effect_iterators(3) [OF sx_ok_model [OF that]]] .
    show ?case
      unfolding sx_handler_def
      using sx_handler_after [OF Suc.IH _ m] sx_handler_bind [OF handler_send_fill Suc.IH _ m]
      by (auto simp: Let_def case_prod_beta split: option.splits)
  qed (simp add: sx_handler_def sx_effect_refl)
  show "sx_handler (counts_loop up type n stack)"
  proof (induction n arbitrary: stack)
    case (Suc n)
    have m: "sx_effect st (st\<lparr>sx_model := snd (TSEM_get_point (sx_model st))\<rparr>)" if "sx_ok st" for st
      using sx_effect_model(1) [OF that effect_iterators(3) [OF sx_ok_model [OF that]]] .
    show ?case
      unfolding sx_handler_def
      using sx_handler_after [OF Suc.IH _ m] sx_handler_bind [OF handler_send_fill Suc.IH _ m]
      by (auto simp: Let_def case_prod_beta split: option.splits)
  qed (simp add: sx_handler_def sx_effect_refl)
qed

lemma handler_events_loop [handlers]: "sx_handler (events_loop up n)"
proof (induction n)
  case (Suc n)
  have m: "sx_effect st (st\<lparr>sx_model := snd (TSEM_get_TSEM_event (sx_model st))\<rparr>)" if "sx_ok st" for st
    using sx_effect_model(1) [OF that effect_iterators(7) [OF sx_ok_model [OF that]]] .
  show ?case
    unfolding sx_handler_def
    using sx_handler_after [OF Suc.IH _ m] sx_handler_bind [OF handler_send_fill Suc.IH _ m]
    by (auto simp: case_prod_beta split: option.splits)
qed (simp add: sx_handler_def sx_effect_refl)

lemma handler_show [handlers]:
  "sx_handler (send_trajectory up)" "sx_handler (send_forensics up)"
  "sx_handler (send_trajectory_coefficients up type)" "sx_handler (send_trajectory_counts up stack type)"
  "sx_handler (send_events up)"
proof -
  have count: "sx_handler (send_count up cnt)" for cnt
    using handler_send_fill by (simp add: send_count_def sx_handler_def)
  have rewind: "sx_handler (assign (on_model f))" if "\<And>S. tsem_ok S \<Longrightarrow> effect S (f S)" for f
    using that by (simp add: sx_handler_def sx_effect_def sx_ok_model)
  have run: "sx_handler (\<lambda>st. steps [send_count up (c st), assign (on_model f), g st] st)"
    if "\<And>S. tsem_ok S \<Longrightarrow> effect S (f S)" "\<And>st. sx_handler (g st)" for c f g
  proof -
    have "sx_handler (steps [send_count up (c st), assign (on_model f), g st])" for st
      by (rule sx_handler_steps) (use count rewind that in auto)
    then show ?thesis unfolding sx_handler_def by blast
  qed
  show "sx_handler (send_trajectory up)" "sx_handler (send_forensics up)"
    "sx_handler (send_trajectory_coefficients up type)" "sx_handler (send_trajectory_counts up stack type)"
    "sx_handler (send_events up)"
    unfolding send_trajectory_def send_forensics_def send_trajectory_coefficients_def
      send_trajectory_counts_def send_events_def Let_def
    by (rule run; simp only: effect_iterators handlers)+
qed

lemma handler_send_measurement [handlers]: "sx_handler (send_measurement up)"
  by (simp add: sx_handler_def send_measurement_def send_Buffer_def sx_effect_same)

lemma get_state_poisoned:
  "TSEM_get_state sha (S, b) = Ret u (T, c) \<Longrightarrow> b_poisoned c = b_poisoned b"
  "TSEM_get_state sha (S, b) = Fail (T, c) \<Longrightarrow> b_poisoned c = b_poisoned b"
  by (auto simp: TSEM_get_state_def Let_def zoom_Ret_iff zoom_Fail_iff buf_add_def
      split: option.splits res.splits if_splits)

lemma get_state_effect:
  assumes ok: "sx_ok st"
  shows "keeps (\<lambda>p. effect (sx_model st) (fst p) \<and> b_poisoned (snd p) = b_poisoned (sx_bufr st))
          (TSEM_get_state sha (sx_model st, buf_reset (sx_bufr st)))" (is "keeps ?P ?r")
proof (cases ?r)
  case (Ret u p)
  then show ?thesis
    using effect_get_state [OF sx_ok_model [OF ok], of sha "buf_reset (sx_bufr st)"]
      get_state_poisoned(1) [of sha "sx_model st" "buf_reset (sx_bufr st)" u "fst p" "snd p"]
    by (simp add: case_prod_beta)
next
  case (Fail p)
  then show ?thesis
    using effect_get_state [OF sx_ok_model [OF ok], of sha "buf_reset (sx_bufr st)"]
      get_state_poisoned(2) [of sha "sx_model st" "buf_reset (sx_bufr st)" "fst p" "snd p"]
    by (simp add: case_prod_beta)
qed simp

lemma sx_effect_state:
  assumes "sx_ok st" "effect (sx_model st) m" "b_poisoned b = b_poisoned (sx_bufr st)"
  shows "sx_effect st (st\<lparr>sx_model := m, sx_bufr := b\<rparr>)"
  using assms by (simp add: sx_effect_def)

lemma handler_send_state [handlers]: "sx_handler (send_state cr up)"
  unfolding sx_handler_def
proof (intro allI impI)
  fix st assume ok: "sx_ok st"
  have sent: "keeps (sx_effect st) (attempt (send_Buffer up) (st\<lparr>sx_model := m, sx_bufr := b\<rparr>))"
    if "effect (sx_model st) m" "b_poisoned b = b_poisoned (sx_bufr st)" for m b
    by (rule keeps_attempt_handler [OF handler_send_Buffer ok sx_effect_state [OF ok that]])
  show "keeps (sx_effect st) (send_state cr up st)"
    using sent get_state_effect [OF ok, of "cr_sha cr"]
    by (cases "TSEM_get_state (cr_sha cr) (sx_model st, buf_reset (sx_bufr st))")
      (simp_all add: send_state_def case_prod_beta del: attempt.simps)
qed

lemma handler_dispatch:
  assumes "sha_ok (cr_sha cr)"
  shows "sx_handler (sancho_dispatch cr junk stack up cmd)"
proof -
  have "sx_handler (\<lambda>st. Ret () (send_ok up (on_model TSEM_seal st)))"
  proof -
    have "sx_effect st (on_model TSEM_seal st)" if "sx_ok st" for st
      using that by (simp add: sx_effect_def effect_seal sx_ok_model)
    then have "sx_effect st (send_ok up (on_model TSEM_seal st))" if "sx_ok st" for st
      using sx_effect_trans [OF _ send_ok_effect [OF sx_effect_ok]] that by blast
    then show ?thesis by (simp add: sx_handler_def)
  qed
  with assms show ?thesis
    by (cases cmd) (simp_all add: sancho_dispatch_def handlers)
qed

section \<open>The life of an interpreter\<close>

lemma sancho_step_effect:
  assumes sha: "sha_ok (cr_sha cr)" and ok: "sx_ok st"
    and step: "sancho_step cr junk stack up msg st = Some (connected, st')"
  shows "sx_effect st st'"
proof -
  define st1 where "st1 = st\<lparr>sx_bufr := (case buf_add msg (sx_bufr st) of
                                 Ret _ b \<Rightarrow> b | Fail b \<Rightarrow> b | Undef \<Rightarrow> sx_bufr st)\<rparr>"
  have st1: "sx_effect st st1" using ok by (simp add: st1_def sx_effect_same)
  have reset: "sx_effect st (reset_bufr u)" if "sx_effect st u" for u
    using that by (simp add: sx_effect_def)
  from step consider "get_command (sx_bufr st1) = Some None" "st' = reset_bufr st1"
    | cmd u where "handler (sancho_dispatch cr junk stack up cmd st1) = Some u" "st' = reset_bufr u"
    by (auto simp: sancho_step_def Let_def st1_def split: option.splits)
  then show ?thesis
  proof cases
    case 1
    with st1 reset show ?thesis by simp
  next
    case 2
    have "keeps (sx_effect st) (sancho_dispatch cr junk stack up cmd st1)"
      using sx_handler_after [OF handler_dispatch [OF sha] ok st1] .
    with 2 reset show ?thesis
      by (cases "sancho_dispatch cr junk stack up cmd st1") auto
  qed
qed

lemma sancho_interpreter_effect:
  assumes "sancho_interpreter cr junk stack up msgs st = Some st'" "sha_ok (cr_sha cr)" "sx_ok st"
  shows "sx_effect st st'"
  using assms
proof (induction msgs arbitrary: st)
  case Nil
  then show ?case by (simp add: sx_effect_refl)
next
  case (Cons msg msgs)
  then obtain c st1 where step: "sancho_step cr junk stack up msg st = Some (c, st1)"
    and rest: "c \<and> sancho_interpreter cr junk stack up msgs st1 = Some st' \<or> \<not> c \<and> st' = st1"
    by (auto split: option.splits if_splits)
  have e: "sx_effect st st1" using sancho_step_effect [OF Cons.prems(2,3) step] .
  with Cons.prems(3) have "sx_ok st1" using sx_effect_ok by blast
  with rest Cons.IH [of st1] Cons.prems(2) e show ?case by (auto intro: sx_effect_trans)
qed

lemma sx_ok_Init [simp]: "sx_ok (Sancho_Init errno)"
  by (simp add: sx_ok_def Sancho_Init_def buf_empty_def)

lemma sancho_reachable:
  assumes "sancho_interpreter cr junk stack up msgs (Sancho_Init errno) = Some st" "sha_ok (cr_sha cr)"
  shows "sx_ok st" "history TSEM_Init (sx_model st)" "ts_logging (sx_model st)"
proof -
  have e: "sx_effect (Sancho_Init errno) st"
    using sancho_interpreter_effect [OF assms] by simp
  then have "effect TSEM_Init (sx_model st)" by (simp add: sx_effect_def Sancho_Init_def)
  then show "history TSEM_Init (sx_model st)" "ts_logging (sx_model st)"
    by (simp_all add: effect_def TSEM_Init_def)
  show "sx_ok st" using sx_effect_ok [OF sx_ok_Init e] .
qed

section \<open>Dispatching\<close>

text \<open>
  Only \<open>show forensics\<close> is the start of other commands; they come first in the table.
\<close>

lemma get_command_table:
  assumes "(cmd, syntax) \<in> set Sancho_cmd_list" "cmd \<noteq> show_forensics \<or> rest = NUL # tail"
    and "\<not> b_poisoned b" "b_data b = syntax @ rest"
  shows "get_command b = Some (Some cmd)"
proof -
  have "find_sancho Sancho_cmd_list (syntax @ rest) = Some (Some cmd)"
    using assms(1,2) unfolding Sancho_cmd_list_def by (auto simp: )
  then show ?thesis using assms(3,4) by (simp add: get_command_def)
qed

section \<open>What is announced and what is sent\<close>

lemma send_fill:
  assumes "\<forall>s. up s" "\<not> b_poisoned (sx_bufr st)"
  obtains st' where "send_Buffer up (fill bs st) = Ret () st'" "sx_sent st' = sx_sent st @ [bs]"
    "sx_model st' = sx_model st" "\<not> b_poisoned (sx_bufr st')"
  using assms by (auto simp: send_Buffer_def fill_data)

lemma TSEM_get_point_of:
  "ts_points S = gaggle_of ps c \<Longrightarrow> \<not> ts_poisoned S \<Longrightarrow>
   TSEM_get_point S = (if c < length ps then Some (ps ! c) else None,
                       S\<lparr>ts_points := gaggle_of ps (if c < length ps then Suc c else c)\<rparr>)"
  by (simp add: TSEM_get_point_def Gaggle_get_of)

text \<open>The points of one kind: valid ones, or violations.\<close>

definition points_of_kind :: "bool \<Rightarrow> TSEM_State \<Rightarrow> SecurityPoint_State list" where
  "points_of_kind type S = filter (\<lambda>p. SecurityPoint_is_valid p = type) (points_of S)"

lemma coefficients_loop_sends:
  assumes "\<forall>s. up s" "\<not> b_poisoned (sx_bufr st)" "ts_points (sx_model st) = gaggle_of ps c"
    and "\<not> ts_poisoned (sx_model st)"
  shows "\<exists>st'. coefficients_loop up type n st = Ret () st' \<and>
           sx_sent st' = sx_sent st @ map (\<lambda>p. sprint_hex (sp_point p) @ [NUL])
             (filter (\<lambda>p. SecurityPoint_is_valid p = type) (take n (drop c ps)))"
  using assms(2-4)
proof (induction n arbitrary: st c)
  case (Suc n)
  note get = TSEM_get_point_of [OF Suc.prems(2,3)]
  show ?case
  proof (cases "c < length ps")
    case more: True
    let ?st = "st\<lparr>sx_model := (sx_model st)\<lparr>ts_points := gaggle_of ps (Suc c)\<rparr>\<rparr>"
    have here: "drop c ps = ps ! c # drop (Suc c) ps" using more by (rule Cons_nth_drop_Suc [symmetric])
    show ?thesis
    proof (cases "SecurityPoint_is_valid (ps ! c) = type")
      case True
      obtain st1 where st1: "send_Buffer up (fill (sprint_hex (SecurityPoint_get (ps ! c)) @ [NUL]) ?st) = Ret () st1"
        "sx_sent st1 = sx_sent ?st @ [sprint_hex (SecurityPoint_get (ps ! c)) @ [NUL]]"
        "sx_model st1 = sx_model ?st" "\<not> b_poisoned (sx_bufr st1)"
        by (rule send_fill [OF assms(1), of ?st]) (simp add: Suc.prems(1))
      have "ts_points (sx_model st1) = gaggle_of ps (Suc c)" "\<not> ts_poisoned (sx_model st1)"
        using st1(3) Suc.prems(3) by simp_all
      from Suc.IH [OF st1(4) this] show ?thesis
        using get more True here st1 by (auto simp: SecurityPoint_get_def)
    next
      case False
      from Suc.IH [of ?st "Suc c"] Suc.prems(1,3) show ?thesis
        using get more False here by auto
    qed
  next
    case False
    from Suc.IH [of "st\<lparr>sx_model := (sx_model st)\<lparr>ts_points := gaggle_of ps c\<rparr>\<rparr>" c] Suc.prems(1,3) show ?thesis
      using get False by auto
  qed
qed simp

text \<open>The array of \<open>send_trajectory_counts\<close>, message by message.\<close>

fun count_messages :: "byte list \<Rightarrow> SecurityPoint_State list \<Rightarrow> byte list list" where
  "count_messages stack [] = []"
| "count_messages stack (p # ps) =
     (let stack1 = overwrite (sprint_u (unat (sp_count p)) @ [NUL]) stack
      in stack1 # count_messages stack1 ps)"

lemma counts_loop_sends:
  assumes "\<forall>s. up s" "\<not> b_poisoned (sx_bufr st)" "ts_points (sx_model st) = gaggle_of ps c"
    and "\<not> ts_poisoned (sx_model st)"
  shows "\<exists>st'. counts_loop up type n stack st = Ret () st' \<and>
           sx_sent st' = sx_sent st @ count_messages stack
             (filter (\<lambda>p. SecurityPoint_is_valid p = type) (take n (drop c ps)))"
  using assms(2-4)
proof (induction n arbitrary: st c stack)
  case (Suc n)
  note get = TSEM_get_point_of [OF Suc.prems(2,3)]
  show ?case
  proof (cases "c < length ps")
    case more: True
    let ?st = "st\<lparr>sx_model := (sx_model st)\<lparr>ts_points := gaggle_of ps (Suc c)\<rparr>\<rparr>"
    let ?stack = "overwrite (sprint_u (unat (sp_count (ps ! c))) @ [NUL]) stack"
    have here: "drop c ps = ps ! c # drop (Suc c) ps" using more by (rule Cons_nth_drop_Suc [symmetric])
    show ?thesis
    proof (cases "SecurityPoint_is_valid (ps ! c) = type")
      case True
      obtain st1 where st1: "send_Buffer up (fill ?stack ?st) = Ret () st1"
        "sx_sent st1 = sx_sent ?st @ [?stack]"
        "sx_model st1 = sx_model ?st" "\<not> b_poisoned (sx_bufr st1)"
        by (rule send_fill [OF assms(1), of ?st]) (simp add: Suc.prems(1))
      have "ts_points (sx_model st1) = gaggle_of ps (Suc c)" "\<not> ts_poisoned (sx_model st1)"
        using st1(3) Suc.prems(3) by simp_all
      from Suc.IH [OF st1(4) this, of ?stack] show ?thesis
        using get more True here st1 by (auto simp: SecurityPoint_get_count_def Let_def)
    next
      case False
      from Suc.IH [of ?st "Suc c" stack] Suc.prems(1,3) show ?thesis
        using get more False here by auto
    qed
  next
    case False
    from Suc.IH [of "st\<lparr>sx_model := (sx_model st)\<lparr>ts_points := gaggle_of ps c\<rparr>\<rparr>" c stack] Suc.prems(1,3) show ?thesis
      using get False by auto
  qed
qed simp

text \<open>The announced number, when every violation is in the forensics list.\<close>

lemma point_count_kind:
  assumes "tsem_ok S" "length (gg_objects (ts_forensics S)) = length (violations S)"
  shows "point_count type S = of_nat (length (points_of_kind type S))"
proof -
  have g: "gaggle_ok (ts_points S)" "gaggle_ok (ts_forensics S)"
    using tsem_gaggles [OF assms(1)] by simp_all
  then have l: "TSEM_points_size S = length (points_of S)"
    "TSEM_forensics_size S = length (filter sp_violation (points_of S))"
    using assms(2) by (simp_all add: TSEM_points_size_def TSEM_forensics_size_def Gaggle_size_def
        gaggle_ok_def violations_def)
  have "length (points_of S) = length (filter sp_violation (points_of S)) +
      length (filter (\<lambda>p. \<not> sp_violation p) (points_of S))"
    by (rule sum_length_filter_compl [symmetric])
  then have "(of_nat (length (points_of S)) :: u64) = of_nat (length (filter sp_violation (points_of S))) +
      of_nat (length (filter (\<lambda>p. \<not> sp_violation p) (points_of S)))"
    by (simp only: of_nat_add)
  with l show ?thesis
    by (cases type) (simp_all add: point_count_def points_of_kind_def SecurityPoint_is_valid_def)
qed

lemma send_points:
  assumes up: "\<forall>s. up s" and ok: "sx_ok st" and live: "\<not> ts_poisoned (sx_model st)"
    and fo: "length (gg_objects (ts_forensics (sx_model st))) = length (violations (sx_model st))"
  shows "\<exists>st'. send_trajectory_coefficients up type st = Ret () st' \<and>
           sx_sent st' = sx_sent st @ [size_bytes (length (points_of_kind type (sx_model st)))] @
             map (\<lambda>p. sprint_hex (sp_point p) @ [NUL]) (points_of_kind type (sx_model st))"
    and "\<exists>st'. send_trajectory_counts up stack type st = Ret () st' \<and>
           sx_sent st' = sx_sent st @ [size_bytes (length (points_of_kind type (sx_model st)))] @
             count_messages stack (points_of_kind type (sx_model st))"
proof -
  let ?S = "sx_model st"
  have S: "tsem_ok ?S" "\<not> b_poisoned (sx_bufr st)" using ok by (simp_all add: sx_ok_def)
  obtain c where c: "ts_points ?S = gaggle_of (points_of ?S) c"
    using S(1) by (auto simp: tsem_ok_def elim: points_okE)
  have size: "TSEM_points_size ?S = length (points_of ?S)"
    using tsem_gaggles [OF S(1)] by (simp add: TSEM_points_size_def Gaggle_size_def gaggle_ok_def)
  obtain st1 where st1: "send_count up (point_count type ?S) st = Ret () st1"
    "sx_sent st1 = sx_sent st @ [size_bytes (length (points_of_kind type ?S))]"
    "sx_model st1 = ?S" "\<not> b_poisoned (sx_bufr st1)"
    by (rule send_fill [OF up S(2), where bs = "u64_bytes (point_count type ?S)"])
      (simp add: send_count_def size_bytes_def point_count_kind [OF S(1) fo])
  let ?st2 = "on_model TSEM_rewind_points st1"
  have st2: "ts_points (sx_model ?st2) = gaggle_of (points_of ?S) 0"
    using st1(3) arg_cong [OF c, of Gaggle_rewind_cursor] by (simp add: TSEM_rewind_points_def)
  have st2b: "\<not> b_poisoned (sx_bufr ?st2)" "\<not> ts_poisoned (sx_model ?st2)"
    using st1(3,4) live by (simp_all add: TSEM_rewind_points_def)
  show "\<exists>st'. send_trajectory_coefficients up type st = Ret () st' \<and>
           sx_sent st' = sx_sent st @ [size_bytes (length (points_of_kind type ?S))] @
             map (\<lambda>p. sprint_hex (sp_point p) @ [NUL]) (points_of_kind type ?S)"
    using coefficients_loop_sends [OF up st2b(1) st2 st2b(2), where type = type and n = "length (points_of ?S)"] st1(1,2) size
    by (auto simp: send_trajectory_coefficients_def points_of_kind_def)
  show "\<exists>st'. send_trajectory_counts up stack type st = Ret () st' \<and>
           sx_sent st' = sx_sent st @ [size_bytes (length (points_of_kind type ?S))] @
             count_messages stack (points_of_kind type ?S)"
    using counts_loop_sends [OF up st2b(1) st2 st2b(2), where type = type and n = "length (points_of ?S)" and stack = stack] st1(1,2) size
    by (auto simp: send_trajectory_counts_def points_of_kind_def)
qed

section \<open>The verdict on an event\<close>

lemma TSEM_update_pid:
  assumes ok: "tsem_ok S" and sha: "sha_ok sha"
    and up: "TSEM_update sha (S, event) = Ret r (T, ev)"
  shows "SecurityEvent_get_pid ev = Some (ts_discipline_pid T) \<and> \<not> ts_poisoned T"
  using ok sha
proof (cases rule: TSEM_update_cases [where event = event])
  case (registered U ev' cp pid)
  from registered(1) ok have U: "tsem_ok U" by (simp add: same_map_def)
  from U sha registered(2,6) show ?thesis
  proof (cases rule: TSEM_register_cases)
    case (known c)
    then show ?thesis using up registered by auto
  next
    case new
    then show ?thesis using up registered by (auto simp: tsem_learn_def)
  qed
qed (use up in simp_all)

lemma add_event_reply:
  assumes sha: "sha_ok (cr_sha cr)" and ok: "sx_ok st" and up: "\<forall>s. up s"
    and msg: "b_data (sx_bufr st) = ''export '' @ text @ [NUL]" "NUL \<notin> set text"
    and parse: "SecurityEvent_parse ((SecurityEvent_Init junk, hs_of text), sx_errno st) = Ret u ((event, x), errno)"
    and update: "TSEM_update (cr_sha cr) (sx_model st, event) = Ret (status, discipline, seal) (T, ev)"
  shows "\<exists>st'. add_event cr junk up st = Ret () st' \<and> sx_model st' = T \<and> sx_errno st' = errno \<and>
     sx_sent st' = sx_sent st @
       [(if point_id ev \<in> set (violations T) then ''DISCIPLINE '' else ''RELEASE '') @
        sprint_d (se_pid ev) @ [NUL]]"
proof -
  have S: "tsem_ok (sx_model st)" "\<not> b_poisoned (sx_bufr st)" using ok by (simp_all add: sx_ok_def)
  note pid = TSEM_update_pid [OF S(1) sha update]
  then have sepid: "ts_discipline_pid T = se_pid ev" by (simp add: SecurityEvent_get_pid_def split: if_splits)
  have verdict: "discipline \<longleftrightarrow> point_id ev \<in> set (violations T)"
    using TSEM_update_verdict(2) [OF S(1) sha update] .
  have arg: "behind_blank (b_data (sx_bufr st)) = Some (Some (text @ [NUL]))"
    using msg(1) by simp
  have c: "c_string (text @ [NUL]) = Some text"
    using msg(2) by (simp add: c_string_def cstring_append)
  let ?st = "st\<lparr>sx_errno := errno, sx_model := T\<rparr>"
  have same: "st\<lparr>sx_errno := errno, sx_model := T, sx_model := T\<rparr> = ?st" by simp
  show ?thesis
    using S(2) arg c parse update pid sepid verdict up
    by (simp add: add_event_def with_argument_def Let_def TSEM_discipline_pid_def send_Buffer_def fill_data)
qed

section \<open>Messages\<close>

lemma sancho_step_empties:
  assumes "sancho_step cr junk stack up msg st = Some (c, st')" "\<not> b_poisoned (sx_bufr st')"
  shows "b_data (sx_bufr st') = []"
proof -
  from assms(1) obtain u where "st' = reset_bufr u"
    by (auto simp: sancho_step_def Let_def split: option.splits)
  with assms(2) show ?thesis by (simp add: reset_bufr_def buf_reset_def split: if_splits)
qed

lemma sancho_reachable_empty:
  assumes "sancho_interpreter cr junk stack up msgs st = Some st'" "sha_ok (cr_sha cr)" "sx_ok st"
    and "b_data (sx_bufr st) = []"
  shows "b_data (sx_bufr st') = []"
  using assms
proof (induction msgs arbitrary: st)
  case (Cons msg msgs)
  then obtain c st1 where step: "sancho_step cr junk stack up msg st = Some (c, st1)"
    and rest: "c \<and> sancho_interpreter cr junk stack up msgs st1 = Some st' \<or> \<not> c \<and> st' = st1"
    by (auto split: option.splits if_splits)
  have ok: "sx_ok st1"
    using sx_effect_ok [OF Cons.prems(3) sancho_step_effect [OF Cons.prems(2,3) step]] .
  then have "b_data (sx_bufr st1) = []"
    using sancho_step_empties [OF step] by (simp add: sx_ok_def)
  with rest Cons.IH [of st1] Cons.prems(2) ok show ?case by auto
qed simp

text \<open>An idle interpreter: between two messages, with every object usable.\<close>

definition sancho_idle :: "Sancho_State \<Rightarrow> bool" where
  "sancho_idle st \<longleftrightarrow> sx_ok st \<and> b_data (sx_bufr st) = [] \<and> history TSEM_Init (sx_model st) \<and>
     ts_logging (sx_model st)"

lemma sancho_idle_reachable:
  assumes "sancho_interpreter cr junk stack up msgs (Sancho_Init errno) = Some st" "sha_ok (cr_sha cr)"
  shows "sancho_idle st"
  using sancho_reachable [OF assms] sancho_reachable_empty [OF assms sx_ok_Init]
  by (simp add: sancho_idle_def Sancho_Init_def buf_empty_def)

definition received :: "byte list \<Rightarrow> Sancho_State \<Rightarrow> Sancho_State" where
  "received msg st = st\<lparr>sx_bufr := \<lparr>b_poisoned = False, b_data = msg\<rparr>\<rparr>"

lemma received_simps [simp]:
  "sx_model (received msg st) = sx_model st" "sx_sent (received msg st) = sx_sent st"
  "sx_errno (received msg st) = sx_errno st" "b_data (sx_bufr (received msg st)) = msg"
  "sx_ok (received msg st) = tsem_ok (sx_model st)"
  by (simp_all add: received_def sx_ok_def)

lemma sancho_step_idle:
  assumes "sancho_idle st"
  shows "sancho_step cr junk stack up msg st =
     (case find_sancho Sancho_cmd_list msg of
        None \<Rightarrow> None
      | Some None \<Rightarrow> Some (True, reset_bufr (received msg st))
      | Some (Some cmd) \<Rightarrow>
          map_option (\<lambda>st2. (cmd \<noteq> sancho_reset, reset_bufr st2))
            (handler (sancho_dispatch cr junk stack up cmd (received msg st))))"
proof -
  have b: "\<not> b_poisoned (sx_bufr st)" "b_data (sx_bufr st) = []"
    using assms(1) by (simp_all add: sancho_idle_def sx_ok_def)
  then have r: "st\<lparr>sx_bufr := (case buf_add msg (sx_bufr st) of
                 Ret _ b \<Rightarrow> b | Fail b \<Rightarrow> b | Undef \<Rightarrow> sx_bufr st)\<rparr> = received msg st"
    by (cases "sx_bufr st") (simp add: received_def buf_add_def)
  have "get_command (sx_bufr (received msg st)) = find_sancho Sancho_cmd_list msg"
    by (simp add: get_command_def received_def)
  then show ?thesis by (simp only: sancho_step_def r Let_def)
qed

lemma sancho_step_message:
  assumes "sancho_idle st" "(cmd, syntax) \<in> set Sancho_cmd_list"
    and "cmd \<noteq> show_forensics \<or> rest = NUL # tail"
    and "sancho_dispatch cr junk stack up cmd (received (syntax @ rest) st) = Ret () st'"
  shows "sancho_step cr junk stack up (syntax @ rest) st = Some (cmd \<noteq> sancho_reset, reset_bufr st')"
proof -
  have "get_command \<lparr>b_poisoned = False, b_data = syntax @ rest\<rparr> = Some (Some cmd)"
    by (rule get_command_table [OF assms(2,3)]) simp_all
  then have "find_sancho Sancho_cmd_list (syntax @ rest) = Some (Some cmd)" by (simp add: get_command_def)
  with assms(4) show ?thesis by (simp add: sancho_step_idle [OF assms(1)])
qed

lemma idle_forensics:
  assumes "sancho_idle st"
  shows "length (gg_objects (ts_forensics (sx_model st))) = length (violations (sx_model st))"
    "tsem_ok (sx_model st)"
  using assms history_Init [of "sx_model st"] by (simp_all add: sancho_idle_def)

lemma sprint_no_NUL [simp]: "2 \<le> b \<Longrightarrow> b \<le> 16 \<Longrightarrow> NUL \<notin> set (sprint_nat b n)"
  using sprint_nat_codes [of b NUL n] by fastforce

lemma length_digits_in: "2 \<le> b \<Longrightarrow> n < b ^ Suc k \<Longrightarrow> length (digits_in b n) \<le> Suc k"
proof (induction k arbitrary: n)
  case 0
  then show ?case by (simp add: digits_in.simps)
next
  case (Suc k)
  show ?case
  proof (cases "n < b")
    case True
    then show ?thesis by (simp add: digits_in.simps [of b n])
  next
    case False
    have "n div b < b ^ Suc k"
      using Suc.prems by (simp add: less_mult_imp_div_less mult.commute)
    then show ?thesis using Suc False by (simp add: digits_in.simps [of b n])
  qed
qed

lemma length_sprint_u64: "length (sprint_u (unat (w :: u64))) \<le> 20"
proof -
  have "unat w < 10 ^ Suc 19" using unsigned_less [of w, where 'a = nat] by simp
  from length_digits_in [OF _ this] show ?thesis by (simp add: sprint_nat_def)
qed

lemma count_messages_text:
  "length stack = 21 \<Longrightarrow>
   map cstring (count_messages stack ps) = map (\<lambda>p. sprint_u (unat (sp_count p))) ps \<and>
   (\<forall>m \<in> set (count_messages stack ps). length m = 21)"
proof (induction ps arbitrary: stack)
  case (Cons p ps)
  define t where "t = sprint_u (unat (sp_count p))"
  define stack1 where "stack1 = overwrite (t @ [NUL]) stack"
  have "length (t @ [NUL]) \<le> length stack"
    using length_sprint_u64 [of "sp_count p"] Cons.prems by (simp add: t_def)
  then have l: "length stack1 = 21" using Cons.prems by (simp only: stack1_def length_overwrite)
  have "cstring stack1 = t"
    by (simp add: stack1_def overwrite_def t_def cstring_append)
  moreover have "count_messages stack (p # ps) = stack1 # count_messages stack1 ps"
    by (simp add: stack1_def t_def Let_def)
  ultimately show ?case using Cons.IH [OF l] l by (simp add: t_def)
qed simp

text \<open>Looking up the count of a point.\<close>

lemma find_distinct:
  "distinct (map sp_point ps) \<Longrightarrow> p \<in> set ps \<Longrightarrow> find (\<lambda>q. sp_point q = sp_point p) ps = Some p"
  by (induction ps) (auto simp: rev_image_eqI)

end
