(* ===== verification/SanchoProps.thy ===== *)
theory SanchoProps
  imports SanchoLemmas Examples
begin

text \<open>
  The properties of the command interpreter, over whole conversations.
\<close>

section \<open>A conversation to instantiate them\<close>

definition demo_crypto :: crypto where
  "demo_crypto = \<lparr>cr_sha = demo_sha, cr_base64 = \<lambda>_. None, cr_rsa_load = \<lambda>_. False,
     cr_rsa_verify = \<lambda>_ _ _. None\<rparr>"

lemma demo_crypto_ok [simp]: "sha_ok (cr_sha demo_crypto)" "cr_sha demo_crypto = demo_sha"
  by (simp_all add: demo_crypto_def)

definition demo_stack :: "byte list" where
  "demo_stack = replicate 21 (CHR ''x'')"

lemma idle_Init: "sancho_idle (Sancho_Init errno)"
  using sancho_idle_reachable [of demo_crypto demo_cell demo_stack "\<lambda>_. True" "[]" errno] by simp

text \<open>The reset of an idle interpreter keeps it as it is.\<close>

definition sealed_sancho :: Sancho_State where
  "sealed_sancho = reset_bufr (send_ok (\<lambda>_. True)
     (on_model TSEM_seal (received (''seal'' @ [NUL]) (Sancho_Init 0))))"

lemma demo_seal:
  "sancho_interpreter demo_crypto demo_cell demo_stack (\<lambda>_. True) [''seal'' @ [NUL]] (Sancho_Init 0) =
     Some sealed_sancho"
proof -
  have "sancho_step demo_crypto demo_cell demo_stack (\<lambda>_. True) (''seal'' @ [NUL]) (Sancho_Init 0) =
          Some (seal_event \<noteq> sancho_reset, sealed_sancho)"
    unfolding sealed_sancho_def
    by (rule sancho_step_message [OF idle_Init, where tail = "[]"])
      (simp_all add: Sancho_cmd_list_def sancho_dispatch_def)
  then show ?thesis by simp
qed

lemma sealed_sancho_model [simp]: "sx_model sealed_sancho = TSEM_seal TSEM_Init"
  by (simp add: sealed_sancho_def send_ok_def Let_def send_Buffer_def Sancho_Init_def)

section \<open>Properties\<close>

text \<open>
  C17: Whatever messages a client sends, an interpreter whose model is sealed keeps it sealed:
  the valid points are frozen, and violations are only added.
\<close>

theorem sancho_seals_for_good:
  assumes "sha_ok (cr_sha cr)"
    and "sancho_interpreter cr junk stack up msgs (Sancho_Init errno) = Some st"
    and "ts_sealed (sx_model st)"
    and "sancho_interpreter cr junk stack up later st = Some st'"
  shows "ts_sealed (sx_model st') \<and> valid_points (sx_model st') = valid_points (sx_model st) \<and>
     (\<exists>vs. violations (sx_model st') = violations (sx_model st) @ vs)"
proof -
  have "sx_effect st st'"
    using sancho_interpreter_effect [OF assms(4,1)] sancho_reachable(1) [OF assms(2,1)] .
  then show ?thesis using assms(3) by (simp add: sx_effect_def effect_def history_def)
qed

theorem sancho_seals_for_good_witness:
  "ts_sealed (sx_model sealed_sancho) \<and> valid_points (sx_model sealed_sancho) = valid_points TSEM_Init"
proof -
  have "ts_sealed (sx_model sealed_sancho)" by (simp add: TSEM_seal_def)
  moreover have "sancho_interpreter demo_crypto demo_cell demo_stack (\<lambda>_. True) [] sealed_sancho = Some sealed_sancho"
    by simp
  ultimately show ?thesis
    using sancho_seals_for_good [OF demo_crypto_ok(1) demo_seal]
    by (simp add: valid_points_def TSEM_seal_def)
qed

text \<open>
  C18: When an exported event is parsed and the update of the model returns true, the interpreter
  answers with exactly one message: it names the process of the event, and it asks for its discipline exactly when
  the point of the event is a violation in the updated model.
\<close>

theorem sancho_verdict:
  assumes "sha_ok (cr_sha cr)" "\<forall>s. up s"
    and "sancho_interpreter cr junk stack up msgs (Sancho_Init errno) = Some st"
    and "NUL \<notin> set description"
    and "SecurityEvent_parse ((SecurityEvent_Init junk, hs_of description), sx_errno st) = Ret u ((event, x), e)"
    and "TSEM_update (cr_sha cr) (sx_model st, event) = Ret (status, discipline, seal) (T, ev)"
  shows "\<exists>st'. sancho_step cr junk stack up (''export '' @ description @ [NUL]) st = Some (True, st') \<and>
     sx_model st' = T \<and>
     sx_sent st' = sx_sent st @
       [(if point_id ev \<in> set (violations T) then ''DISCIPLINE '' else ''RELEASE '') @
        sprint_d (se_pid ev) @ [NUL]]"
proof -
  have idle: "sancho_idle st" using sancho_idle_reachable [OF assms(3,1)] .
  let ?r = "received (''export '' @ description @ [NUL]) st"
  have "sx_ok ?r" using idle_forensics [OF idle] by simp
  from add_event_reply [OF assms(1) this assms(2) _ assms(4), of junk u event x e status discipline seal T ev]
    assms(5,6)
  obtain st' where st': "add_event cr junk up ?r = Ret () st'" "sx_model st' = T"
    "sx_sent st' = sx_sent st @ [(if point_id ev \<in> set (violations T) then ''DISCIPLINE '' else ''RELEASE '') @
        sprint_d (se_pid ev) @ [NUL]]" by auto
  have "sancho_step cr junk stack up (''export '' @ description @ [NUL]) st =
          Some (export_event \<noteq> sancho_reset, reset_bufr st')"
    by (rule sancho_step_message [OF idle, where tail = "[]"])
      (use st'(1) in \<open>simp_all add: Sancho_cmd_list_def sancho_dispatch_def\<close>)
  then show ?thesis using st'(2,3) by simp
qed

theorem sancho_verdict_witness:
  "\<exists>st'. sancho_step demo_crypto demo_cell demo_stack (\<lambda>_. True) (''export '' @ demo_text @ [NUL]) (Sancho_Init 0) =
     Some (True, st') \<and> length (sx_sent st') = 1"
proof -
  obtain status discipline seal T ev where
    up: "TSEM_update demo_sha (TSEM_Init, demo_parsed) = Ret (status, discipline, seal) (T, ev)"
    using demo_parsed_update by blast
  have start: "sancho_interpreter demo_crypto demo_cell demo_stack (\<lambda>_. True) [] (Sancho_Init 0) = Some (Sancho_Init 0)"
    by simp
  have plain: "NUL \<notin> set demo_text" unfolding demo_text_def by code_simp
  have model: "sx_model (Sancho_Init 0) = TSEM_Init" "sx_errno (Sancho_Init 0) = 0" "sx_sent (Sancho_Init 0) = []"
    by (simp_all add: Sancho_Init_def)
  from sancho_verdict [OF demo_crypto_ok(1) _ start plain, unfolded model demo_crypto_ok(2), OF _ demo_parse up]
  obtain st' where "sancho_step demo_crypto demo_cell demo_stack (\<lambda>_. True) (''export '' @ demo_text @ [NUL])
      (Sancho_Init 0) = Some (True, st')" "length (sx_sent st') = 1" by auto
  then show ?thesis by blast
qed

text \<open>
  In a conversation that did not poison the model, the coefficients that are sent are
  exactly the valid points, or the violations, of the model in the order of their discovery, each in hexadecimal
  with its NUL, and the number announced before them is their number.
\<close>

theorem sancho_reports_points:
  assumes "sha_ok (cr_sha cr)" "\<forall>s. up s"
    and "sancho_interpreter cr junk stack up msgs (Sancho_Init errno) = Some st"
    and "\<not> ts_poisoned (sx_model st)"
  shows "(\<exists>st'. sancho_step cr junk stack up (''show coefficients'' @ [NUL]) st = Some (True, st') \<and>
            sx_sent st' = sx_sent st @ size_bytes (length (valid_points (sx_model st))) #
              map (\<lambda>d. sprint_hex d @ [NUL]) (valid_points (sx_model st))) \<and>
         (\<exists>st'. sancho_step cr junk stack up (''show forensics_coefficients'' @ [NUL]) st = Some (True, st') \<and>
            sx_sent st' = sx_sent st @ size_bytes (length (violations (sx_model st))) #
              map (\<lambda>d. sprint_hex d @ [NUL]) (violations (sx_model st)))"
proof -
  have idle: "sancho_idle st" using sancho_idle_reachable [OF assms(3,1)] .
  have step: "\<exists>st'. sancho_step cr junk stack up (syn @ [NUL]) st = Some (True, st') \<and>
      sx_sent st' = sx_sent st @ size_bytes (length (points_of_kind type (sx_model st))) #
        map (\<lambda>p. sprint_hex (sp_point p) @ [NUL]) (points_of_kind type (sx_model st))"
    if "(cmd, syn) \<in> set Sancho_cmd_list" "cmd \<noteq> sancho_reset"
      "sancho_dispatch cr junk stack up cmd = send_trajectory_coefficients up type" for cmd syn type
  proof -
    let ?r = "received (syn @ [NUL]) st"
    have "sx_ok ?r" "\<not> ts_poisoned (sx_model ?r)"
      "length (gg_objects (ts_forensics (sx_model ?r))) = length (violations (sx_model ?r))"
      using idle_forensics [OF idle] assms(4) by simp_all
    from send_points(1) [OF assms(2) this, of type] obtain st' where
      st': "send_trajectory_coefficients up type ?r = Ret () st'"
        "sx_sent st' = sx_sent st @ [size_bytes (length (points_of_kind type (sx_model st)))] @
           map (\<lambda>p. sprint_hex (sp_point p) @ [NUL]) (points_of_kind type (sx_model st))" by auto
    have "sancho_step cr junk stack up (syn @ [NUL]) st = Some (cmd \<noteq> sancho_reset, reset_bufr st')"
      by (rule sancho_step_message [OF idle that(1), where tail = "[]"]) (use st' that(3) in simp_all)
    then show ?thesis using st' that(2) by simp
  qed
  have kinds: "map sp_point (points_of_kind True S) = valid_points S"
    "map sp_point (points_of_kind False S) = violations S"
    "length (points_of_kind True S) = length (valid_points S)"
    "length (points_of_kind False S) = length (violations S)" for S
    by (simp_all add: points_of_kind_def valid_points_def violations_def SecurityPoint_is_valid_def)
  have maps: "map (\<lambda>p. sprint_hex (sp_point p) @ [NUL]) ps = map (\<lambda>d. sprint_hex d @ [NUL]) (map sp_point ps)" for ps
    by simp
  show ?thesis
    using step [of show_coefficients "''show coefficients''" True]
      step [of show_forensics_coefficients "''show forensics_coefficients''" False]
    unfolding maps kinds by (simp add: Sancho_cmd_list_def sancho_dispatch_def)
qed

theorem sancho_reports_points_witness:
  "\<exists>st'. sancho_step demo_crypto demo_cell demo_stack (\<lambda>_. True) (''show coefficients'' @ [NUL]) sealed_sancho =
       Some (True, st') \<and> sx_sent st' = sx_sent sealed_sancho @ [size_bytes 0]"
proof -
  have "\<not> ts_poisoned (sx_model sealed_sancho)" "valid_points (sx_model sealed_sancho) = []"
    by (simp_all add: valid_points_def) (simp_all add: TSEM_seal_def TSEM_Init_def Gaggle_Init_def)
  with sancho_reports_points [OF demo_crypto_ok(1) _ demo_seal] show ?thesis by simp
qed

text \<open>
  The counts of the valid points are sent as 21 bytes each, a decimal number with its
  NUL; what follows in the message is what the array held before.  The numbers are the counters of the model, in
  the order of the points.
\<close>

theorem sancho_reports_counts:
  assumes "sha_ok (cr_sha cr)" "\<forall>s. up s" "length stack = 21"
    and "sancho_interpreter cr junk stack up msgs (Sancho_Init errno) = Some st"
    and "\<not> ts_poisoned (sx_model st)"
  shows "\<exists>st' replies. sancho_step cr junk stack up (''show counts'' @ [NUL]) st = Some (True, st') \<and>
     sx_sent st' = sx_sent st @ size_bytes (length (valid_points (sx_model st))) # replies \<and>
     map cstring replies =
       map (\<lambda>d. sprint_u (unat (count_of d (sx_model st)))) (valid_points (sx_model st)) \<and>
     (\<forall>m \<in> set replies. length m = 21) \<and>
     (\<forall>m p. replies = [m] \<and> points_of_kind True (sx_model st) = [p] \<longrightarrow>
        m = overwrite (sprint_u (unat (sp_count p)) @ [NUL]) stack)"
proof -
  have idle: "sancho_idle st" using sancho_idle_reachable [OF assms(4,1)] .
  let ?r = "received (''show counts'' @ [NUL]) st" and ?ps = "points_of_kind True (sx_model st)"
  have "sx_ok ?r" "\<not> ts_poisoned (sx_model ?r)"
    "length (gg_objects (ts_forensics (sx_model ?r))) = length (violations (sx_model ?r))"
    using idle_forensics [OF idle] assms(5) by simp_all
  from send_points(2) [OF assms(2) this, of stack True] obtain st' where
    st': "send_trajectory_counts up stack True ?r = Ret () st'"
      "sx_sent st' = sx_sent st @ [size_bytes (length ?ps)] @ count_messages stack ?ps" by auto
  have step: "sancho_step cr junk stack up (''show counts'' @ [NUL]) st = Some (show_counts \<noteq> sancho_reset, reset_bufr st')"
    by (rule sancho_step_message [OF idle, where tail = "[]"])
      (use st'(1) in \<open>simp_all add: Sancho_cmd_list_def sancho_dispatch_def\<close>)
  have kinds: "map sp_point ?ps = valid_points (sx_model st)"
    by (simp add: points_of_kind_def valid_points_def SecurityPoint_is_valid_def)
  have "distinct (map sp_point (points_of (sx_model st)))"
    using idle_forensics(2) [OF idle] by (simp add: tsem_ok_def points_ok_iff)
  then have "count_of (sp_point p) (sx_model st) = sp_count p" if "p \<in> set ?ps" for p
    using that find_distinct [of "points_of (sx_model st)" p] by (simp add: points_of_kind_def count_of_def)
  then have counts: "map (\<lambda>p. sprint_u (unat (sp_count p))) ?ps =
      map (\<lambda>d. sprint_u (unat (count_of d (sx_model st)))) (valid_points (sx_model st))"
    unfolding kinds [symmetric] by simp
  have number: "length ?ps = length (valid_points (sx_model st))"
    using arg_cong [OF kinds, of length] by simp
  have single: "\<forall>m p. count_messages stack ?ps = [m] \<and> ?ps = [p] \<longrightarrow>
        m = overwrite (sprint_u (unat (sp_count p)) @ [NUL]) stack"
    by (auto simp: Let_def)
  have sent: "sx_sent (reset_bufr st') = sx_sent st @
      size_bytes (length (valid_points (sx_model st))) # count_messages stack ?ps"
    using st'(2) number by simp
  have "map cstring (count_messages stack ?ps) =
      map (\<lambda>d. sprint_u (unat (count_of d (sx_model st)))) (valid_points (sx_model st))"
    "\<forall>m \<in> set (count_messages stack ?ps). length m = 21"
    using count_messages_text [OF assms(3), of ?ps] counts by simp_all
  with step sent single show ?thesis
    by (intro exI [of _ "reset_bufr st'"] exI [of _ "count_messages stack ?ps"] conjI;
        (assumption | simp only: sancho_command.distinct not_False_eq_True))
qed

theorem sancho_reports_counts_witness:
  "\<exists>st'. sancho_step demo_crypto demo_cell demo_stack (\<lambda>_. True) (''show counts'' @ [NUL]) sealed_sancho =
       Some (True, st') \<and> sx_sent st' = sx_sent sealed_sancho @ [size_bytes 0]"
proof -
  have "\<not> ts_poisoned (sx_model sealed_sancho)" "valid_points (sx_model sealed_sancho) = []" "length demo_stack = 21"
    by (simp_all add: valid_points_def) (simp_all add: TSEM_seal_def TSEM_Init_def Gaggle_Init_def demo_stack_def)
  with sancho_reports_counts [OF demo_crypto_ok(1) _ _ demo_seal] show ?thesis by auto
qed

end
