(* ===== verification/EventProps.thy ===== *)
theory EventProps
  imports Examples
begin

text \<open>
  The properties of event descriptions: what is read from them, what is printed, what is measured.
\<close>

section \<open>Descriptions\<close>

text \<open>
  C19: The description that is printed for an event of a type without parameters is read back to
  the same event, up to what was computed from it: its measurement is over the same bytes, and it is printed the
  same way again.
\<close>

theorem event_roundtrip:
  assumes "\<not> se_poisoned S" "se_event S = hs_of (CHR ''{'' # members em)" "se_type S = type"
    and "se_task_id S = hs_of tid" "\<not> coe_poisoned (se_coe S)" "ce_type (se_cell S) = type"
    and "ce_event (se_cell S) = hs_of name" "generic_members em name type tid"
    and "names_process em 0 (se_pid S)" "unat (c_capeff (coe_character (se_coe S))) < 2 ^ 63" "e \<noteq> ERANGE"
  shows "\<exists>desc U. SecurityEvent_format (S, hs_empty) = Ret () (S, hs_of desc) \<and>
     SecurityEvent_parse ((SecurityEvent_Init junk, hs_of desc), e) = Ret () ((U, hs_of desc), e) \<and>
     event_message sha U = event_message sha S \<and> se_pid U = se_pid S \<and>
     SecurityEvent_format (U, hs_empty) = Ret () (U, hs_of desc)"
proof -
  let ?c = "coe_character (se_coe S)"
  let ?U = "parsed_event junk em name type tid (se_pid S) ?c"
  have g: "generic_type type" using assms(8) by (simp add: generic_members_def)
  have f: "SecurityEvent_format (S, hs_empty) = Ret () (S, hs_of (event_text em ?c name))"
    using SecurityEvent_format_text [OF assms(1) _ assms(2,5) _ assms(7), of hs_empty] g assms(6) by simp
  have p: "SecurityEvent_parse ((SecurityEvent_Init junk, hs_of (event_text em ?c name)), e) =
      Ret () ((?U, hs_of (event_text em ?c name)), e)"
    by (rule SecurityEvent_parse_text [OF assms(8-11)])
  have fields: "\<not> se_poisoned ?U" "se_event ?U = hs_of (CHR ''{'' # members em)" "\<not> coe_poisoned (se_coe ?U)"
    "ce_type (se_cell ?U) = type" "ce_event (se_cell ?U) = hs_of name" "coe_character (se_coe ?U) = ?c"
    by (simp_all add: parsed_event_def SecurityEvent_Init_def COE_Init_def)
  have "SecurityEvent_format (?U, hs_empty) = Ret () (?U, hs_of (event_text em ?c name))"
    using SecurityEvent_format_text [OF fields(1) _ fields(2,3) _ fields(5), of hs_empty] g
    by (simp add: fields(4,6))
  moreover have "cell_message (se_cell ?U) = cell_message (se_cell S)"
    using g assms(6,7) by (simp add: cell_message_def cell_parts_def generic_type_def generic_parts_def parsed_event_def)
  then have "event_message sha ?U = event_message sha S"
    using assms(3,4) fields(6) by (simp add: event_message_def parsed_event_def split: option.splits)
  moreover have "se_pid ?U = se_pid S" by (simp add: parsed_event_def)
  ultimately show ?thesis using f p by blast
qed

theorem event_roundtrip_witness:
  "\<exists>desc U. SecurityEvent_format (demo_parsed, hs_empty) = Ret () (demo_parsed, hs_of desc) \<and>
     SecurityEvent_parse ((SecurityEvent_Init demo_cell, hs_of desc), 0) = Ret () ((U, hs_of desc), 0) \<and>
     event_message demo_sha U = event_message demo_sha demo_parsed"
proof -
  have "names_process demo_members 0 (se_pid demo_parsed)"
    using demo_process by (simp add: demo_parsed_def parsed_event_def)
  from event_roundtrip [of demo_parsed demo_members 16 "''00''" "''file_ioctl''" 0 demo_cell demo_sha,
      OF _ _ _ _ _ _ _ demo_generic this]
  show ?thesis
    by (fastforce simp: demo_parsed_def parsed_event_def SecurityEvent_Init_def COE_Init_def zero_character_def
        ERANGE_def)
qed

text \<open>
  A context of execution that is printed into any description behind its first occurrence is
  read back exactly, as long as its capability mask is below \<open>2^63\<close>.
\<close>

theorem COE_roundtrip:
  assumes "\<not> coe_poisoned S" "\<not> coe_poisoned T" "unat (c_capeff (coe_character S)) < 2 ^ 63" "e \<noteq> ERANGE"
    and "COE_format (S, hs_empty) = Ret () (S, hs_of body)"
    and "braceless before" "after \<noteq> []" "last after = CHR ''}''"
  shows "COE_parse (hs_of (CHR ''{'' # before @ body @ after)) (T, e) =
           Ret () (T\<lparr>coe_character := coe_character S\<rparr>, e)"
proof -
  have "hs_of body = hs_of (coe_text (coe_character S))"
    using assms(1,5) by (simp add: COE_format_def)
  then have body: "body = coe_text (coe_character S)"
    by (simp add: hs_of_def)
  let ?kvs = "coe_members (coe_character S)"
  let ?start = "DQ # ''COE'' @ DQ # '': ''"
  have spec: "field_spec ''COE'' = ?start @ [CHR ''{'']" by (simp add: field_spec_def)
  have "strstr ((CHR ''{'' # before) @ field_spec ''COE'' @ members ?kvs @ after) (field_spec ''COE'') =
      Some (CHR ''{'' # before, field_spec ''COE'' @ members ?kvs @ after)"
    using strstr_first_brace [of "CHR ''{''" before ?start "members ?kvs @ after"] assms(6)
    unfolding spec by (simp add: braceless_def)
  then have "describes (CHR ''{'' # before @ body @ after) ''COE'' ?kvs"
    unfolding describes_def body coe_text_members
    by (intro exI [of _ "CHR ''{'' # before"] exI [of _ after]) (use assms(7,8) in simp)
  then show ?thesis
    by (intro COE_parse_members extract_text_members flat_coe_members assms)
qed

theorem COE_roundtrip_witness:
  "COE_parse (hs_of (''{'' @ coe_text zero_character @ ''}'')) (COE_Init, 0) = Ret () (COE_Init, 0)"
  using COE_roundtrip [of COE_Init COE_Init 0 "coe_text zero_character" "[]" "''}''"]
  by (simp add: COE_Init_def zero_character_def COE_format_def ERANGE_def)

section \<open>Lookups in a description\<close>

text \<open>
  C20: A field that is extracted is a balanced object that stands in the description
  behind its name: it starts with a brace, its braces match, and no proper start of it is balanced.
\<close>

theorem extracted_field_is_balanced:
  assumes "parser_ok S" "TSEMparser_extract_field (hs_of desc) field S = Ret u T"
  shows "\<exists>before inside after. desc = before @ DQ # field @ DQ # '': '' @ hs_chars (tp_field T) @ after \<and>
     hs_chars (tp_field T) = CHR ''{'' # inside \<and> brace_depth (hs_chars (tp_field T)) = 0 \<and>
     (\<forall>k. 0 < k \<and> k < length (hs_chars (tp_field T)) \<longrightarrow> 0 < brace_depth (take k (hs_chars (tp_field T))))"
proof (cases "extract_text desc field")
  case None
  with extract_field_none [OF assms(1) None] assms(2) show ?thesis by auto
next
  case (Some t)
  then have "T = S\<lparr>tp_field := hs_of t\<rparr>"
    using extract_field_ok [OF assms(1) Some] assms(2) by simp
  with extract_text_depth [OF Some] show ?thesis by auto
qed

theorem extracted_field_is_balanced_witness:
  "\<exists>T. TSEMparser_extract_field (hs_of demo_text) ''event'' TSEMparser_Init = Ret () T \<and>
       brace_depth (hs_chars (tp_field T)) = 0"
proof -
  have "flat demo_members" using demo_generic by (simp add: generic_members_def)
  then have "TSEMparser_extract_field (hs_of demo_text) ''event'' TSEMparser_Init =
      Ret () (TSEMparser_Init\<lparr>tp_field := hs_of (CHR ''{'' # members demo_members)\<rparr>)"
    unfolding demo_text_def
    by (intro extract_field_ok [OF parser_ok_Init] extract_text_members describes_event)
  with extracted_field_is_balanced [OF parser_ok_Init this] show ?thesis by blast
qed

text \<open>
  In a flat object, a key is found exactly when it is a member, and the first member of that name
  is returned; but an empty value is returned as its closing quote.
\<close>

theorem flat_lookup:
  assumes "parser_ok S" "tp_field S = hs_of (CHR ''{'' # members kvs)" "flat kvs" "key_name k"
    and "\<not> h_poisoned out"
  shows "case map_of kvs k of
     Some v \<Rightarrow> \<exists>T. TSEMparser_get_text (Some k) (S, out) =
                Ret () (T, hs_of (hs_chars out @ (if v = [] then [DQ] else v))) \<and> parser_ok T
   | None \<Rightarrow> \<exists>T. TSEMparser_get_text (Some k) (S, out) = Fail (T, out)"
proof (cases "map_of kvs k")
  case None
  then have "key_text (CHR ''{'' # members kvs) k = None" using key_text_members [OF assms(3,4)] by simp
  from get_text_none [OF assms(1,2) this] None show ?thesis by auto
next
  case (Some v)
  then have "key_text (CHR ''{'' # members kvs) k = Some (if v = [] then [DQ] else v)"
    using key_text_members [OF assms(3,4)] by simp
  from get_text_ok [OF assms(1,2) this assms(5)] Some assms(1) show ?thesis by auto
qed

theorem flat_lookup_witness:
  "(\<exists>T. TSEMparser_get_text (Some ''process'') (TSEMparser_Init\<lparr>tp_field :=
       hs_of (CHR ''{'' # members [(''process'', [])])\<rparr>, hs_empty) = Ret () (T, hs_of [DQ]) \<and> parser_ok T) \<and>
     (\<exists>U. TSEMparser_get_text (Some ''type'') (TSEMparser_Init\<lparr>tp_field :=
       hs_of (CHR ''{'' # members [(''process'', [])])\<rparr>, hs_empty) = Fail (U, hs_empty))"
  using flat_lookup [of "TSEMparser_Init\<lparr>tp_field := hs_of (CHR ''{'' # members [(''process'', [])])\<rparr>"
      "[(''process'', [])]" "''process''" hs_empty]
    flat_lookup [of "TSEMparser_Init\<lparr>tp_field := hs_of (CHR ''{'' # members [(''process'', [])])\<rparr>"
      "[(''process'', [])]" "''type''" hs_empty]
  by (simp add: flat_def)

text \<open>
  The number that \<open>get_integer\<close> reads from a decimal or hexadecimal print of a number below
  \<open>2^63\<close> is that number, and \<open>errno\<close> stays clear; a larger decimal number fails and leaves \<open>ERANGE\<close> in
  \<open>errno\<close>.
\<close>

theorem integers_roundtrip:
  assumes "parser_ok S" "errno \<noteq> ERANGE" "key_name k"
  shows "(\<exists>T. TSEMparser_get_integer (Some k)
            (S\<lparr>tp_field := hs_of (CHR ''{'' # members [(k, sprint_u n)])\<rparr>, errno) =
              (if n < 2 ^ 63 then Ret (of_nat n) (T, errno) else Fail (T, ERANGE))) \<and>
         (\<exists>T. TSEMparser_get_integer (Some k)
            (S\<lparr>tp_field := hs_of (CHR ''{'' # members [(k, ''0x'' @ sprint_x (n mod 2 ^ 63))])\<rparr>, errno) =
              Ret (of_nat (n mod 2 ^ 63)) (T, errno))"
proof
  have kt: "key_text (CHR ''{'' # members [(k, v)]) k = Some v" if "plain v" "v \<noteq> []" for v
    using key_text_flat [of "[(k, v)]" k v] that assms(3) by (simp add: flat_def)
  let ?S = "\<lambda>v. S\<lparr>tp_field := hs_of (CHR ''{'' # members [(k, v)])\<rparr>"
  have ok: "parser_ok (?S v)" "tp_field (?S v) = hs_of (CHR ''{'' # members [(k, v)])" for v
    using assms(1) by simp_all
  show "\<exists>T. TSEMparser_get_integer (Some k) (?S (sprint_u n), errno) =
              (if n < 2 ^ 63 then Ret (of_nat n) (T, errno) else Fail (T, ERANGE))"
  proof (cases "n < 2 ^ 63")
    case True
    from get_integer_ok [OF ok kt [of "sprint_u n"] strtoll_sprint_u [OF True] assms(2)] True
    show ?thesis by auto
  next
    case False
    then have "strtoll (sprint_u n) = (2 ^ 63 - 1, True)" by (simp add: strtoll_sprint_u_large)
    moreover have "TSEMparser_get_key k (?S (sprint_u n)) = Ret () ((?S (sprint_u n))\<lparr>tp_key_value := hs_of (sprint_u n)\<rparr>)"
      by (rule get_key_ok [OF ok kt]) simp_all
    ultimately show ?thesis using False by (simp add: TSEMparser_get_integer_def)
  qed
  have hex: "plain (''0x'' @ sprint_x m)" for m by simp
  have "n mod 2 ^ 63 < 2 ^ 63" by simp
  from get_integer_ok [OF ok kt [OF hex] strtoll_sprint_x [OF this] assms(2)]
  show "\<exists>T. TSEMparser_get_integer (Some k) (?S (''0x'' @ sprint_x (n mod 2 ^ 63)), errno) =
              Ret (of_nat (n mod 2 ^ 63)) (T, errno)" by auto
qed

theorem integers_roundtrip_witness:
  "\<exists>T. TSEMparser_get_integer (Some ''uid'')
     (TSEMparser_Init\<lparr>tp_field := hs_of (CHR ''{'' # members [(''uid'', sprint_u 1000)])\<rparr>, 0) = Ret 1000 (T, 0)"
  using integers_roundtrip [of TSEMparser_Init 0 "''uid''" 1000] by (simp add: ERANGE_def)

abbreviation errno_set :: "'s frame \<Rightarrow> bool" where
  "errno_set \<equiv> \<lambda>(s, p, e). e = ERANGE"

lemma errno_set_field: "errno_set fr \<Longrightarrow> keeps errno_set (parse_field en field fr)"
  by (auto simp: parse_field_def keeps_zoom) (auto simp: keeps_def split: res.splits)

lemma errno_set_text: "errno_set fr \<Longrightarrow> keeps errno_set (parse_text key get put fr)"
  by (auto simp: parse_text_def keeps_zoom) (auto simp: keeps_def split: res.splits)

lemma errno_set_integer: "errno_set fr \<Longrightarrow> keeps errno_set (parse_integer key f fr) \<and> (\<forall>u t. parse_integer key f fr \<noteq> Ret u t)"
proof -
  assume "errno_set fr"
  then obtain s p where fr: "fr = (s, p, ERANGE)" by (cases fr) auto
  show ?thesis
  proof (cases "TSEMparser_get_integer (Some key) (p, ERANGE)")
    case (Ret v t)
    then show ?thesis using get_integer_errno(1) [of "Some key" p] by auto
  next
    case (Fail t)
    then show ?thesis using get_integer_errno(2) [of "Some key" p] fr
      by (cases t) (auto simp: parse_integer_def)
  qed (simp add: fr parse_integer_def)
qed

lemma parse_event_errno:
  assumes "with_parser (SecurityEvent_parse_event @ [SecurityEvent_parse_pid]) ((S, en), ERANGE) = Ret u (T, e)"
  shows "e = ERANGE"
proof -
  have "keeps errno_set (steps (SecurityEvent_parse_event @ [SecurityEvent_parse_pid]) ((S, en), TSEMparser_Init, ERANGE))"
  proof (rule keeps_steps)
    fix f and fr :: event_frame
    assume f: "f \<in> set (SecurityEvent_parse_event @ [SecurityEvent_parse_pid])" and fr: "errno_set fr"
    obtain S en p where fr': "fr = ((S, en), p, ERANGE)" using fr by (cases fr) auto
    have typed: "keeps errno_set (parse_local_text ''type'' (\<lambda>str fr.
        (case hs_get str of
           None \<Rightarrow> Undef
         | Some t \<Rightarrow> Ret () (case find_type TSEM_name 0 t of
                              None \<Rightarrow> fr
                            | Some lp \<Rightarrow> on_event (\<lambda>S. S\<lparr>se_type := lp\<rparr>) fr))) fr)"
      by (auto simp: fr' parse_local_text_def on_event_def frame_map_def split: res.splits option.splits)
    have pid: "keeps errno_set (SecurityEvent_parse_pid fr)"
      unfolding SecurityEvent_parse_pid_def parse_has_key_def fr' prod.case
    proof (rule keeps_bind)
      show "keeps errno_set (zoom (\<lambda>p. ((S, en), p, ERANGE)) (TSEMparser_has_key ''pid'' p))"
        by (simp add: keeps_zoom) (simp add: keeps_def split: res.splits)
      fix has and fr :: event_frame
      assume "errno_set fr"
      with errno_set_integer [OF this] show "keeps errno_set ((if \<not> has then Ret ()
          else parse_integer ''pid'' (\<lambda>vl. steps [fail_if (\<lambda>_. unat vl > 2 ^ 32 - 1),
            assign (on_event (\<lambda>S. S\<lparr>se_pid := ucast vl\<rparr>))])) fr)"
        by (cases has) (simp_all only: if_True if_False not_True_eq_False not_False_eq_True keeps_simps)
    qed
    have get: "keeps errno_set ((\<lambda>((S, en), p, e). zoom (\<lambda>t. ((S\<lparr>se_event := t\<rparr>, en), p, e))
        (TSEMparser_get_field p (se_event S))) fr)"
      by (simp add: fr' keeps_zoom) (simp add: keeps_def split: res.splits)
    have zero: "keeps errno_set (fail_if (\<lambda>((S, en), p, e). se_type S = 0) fr)" using fr by simp
    show "keeps errno_set (f fr)"
      using f errno_set_field [OF fr, of en "''event''"] errno_set_text [OF fr] typed pid get zero
      unfolding SecurityEvent_parse_event_def append.simps set_simps
      by (elim insertE emptyE) (simp_all only: fr' prod.case)
  qed simp
  with assms show ?thesis by (auto simp: with_parser_def zoom_Ret_iff)
qed

lemma COE_parse_errno: "COE_parse en (S, ERANGE) \<noteq> Ret v w"
proof
  assume "COE_parse en (S, ERANGE) = Ret v w"
  then obtain fr where "steps (COE_parse_steps en) (S, TSEMparser_Init, ERANGE) = Ret () fr"
    by (auto simp: COE_parse_def res_simps)
  then obtain fr where fr: "parse_field en ''COE'' (S, TSEMparser_Init, ERANGE) = Ret () fr"
    and more: "\<exists>t. COE_get_field ''uid'' (\<lambda>v. c_uid_update (\<lambda>_. v)) fr = Ret () t"
    by (auto simp: COE_parse_steps_def res_simps)
  have "errno_set fr" using errno_set_field [of "(S, TSEMparser_Init, ERANGE)" en "''COE''"] fr by simp
  with errno_set_integer more show False unfolding COE_get_field_def by blast
qed

text \<open>
  The parser tests \<open>errno\<close> without ever clearing it: once a number was out of range, no event is
  parsed successfully any more.
\<close>

theorem errno_stays: "SecurityEvent_parse ((S, en), ERANGE) \<noteq> Ret u T"
proof
  assume "SecurityEvent_parse ((S, en), ERANGE) = Ret u T"
  then obtain S1 en1 e1 where first: "with_parser (SecurityEvent_parse_event @ [SecurityEvent_parse_pid]) ((S, en), ERANGE) =
      Ret () ((S1, en1), e1)" and coe: "\<exists>v w. COE_parse en1 (se_coe S1, e1) = Ret v w"
    by (fastforce simp: SecurityEvent_parse_def res_simps split: prod.splits)
  have "e1 = ERANGE" using parse_event_errno [OF first] .
  with coe COE_parse_errno show False by blast
qed

section \<open>Measurements\<close>

lemma cell_measured:
  assumes "cell_ready U" "cell_message U = Some m"
  shows "\<exists>U'. Cell_measure sha U = Ret () U' \<and>
      Cell_get_measurement (U', buf_empty) = Ret () (U', \<lparr>b_poisoned = False, b_data = sha m\<rparr>)"
proof -
  obtain i where i: "Cell_measure sha U = Ret () (U\<lparr>ce_identity := i, ce_measured := True\<rparr>)" "sha_holds (sha m) i"
    using Cell_measure_ready [OF assms] by blast
  with Cell_get_measurement_holds [of "U\<lparr>ce_identity := i, ce_measured := True\<rparr>" _ buf_empty] assms(1) show ?thesis
    by (auto simp: cell_ready_def buf_empty_def)
qed

text \<open>
  C21: The identity of an event that was parsed is the digest of the name of its type, the decoded
  task identifier, the digest of its context of execution and the digest of its parameters, in this order.
\<close>

theorem event_identity:
  assumes "event_ready S" "hs_get (se_task_id S) = Some tid" "tid \<noteq> []" "hex_decode tid = Some task"
    and "cell_message (se_cell S) = Some params" "\<not> b_poisoned out"
  shows "\<exists>T. SecurityEvent_measure sha S = Ret () T \<and>
     SecurityEvent_get_identity (T, out) =
       Ret () (T, out\<lparr>b_data := b_data out @ sha (TSEM_name ! se_type S @ task @
         sha (concat (coe_parts (coe_character (se_coe S)))) @ sha params)\<rparr>)"
proof -
  have "event_message sha S = Some (TSEM_name ! se_type S @ task @
      sha (coe_message (coe_character (se_coe S))) @ sha params)"
    using assms(2-5) by (simp add: event_message_def)
  from SecurityEvent_measure_ready [OF assms(1) this] SecurityEvent_get_identity_holds [OF _ _ assms(6)]
  show ?thesis by (fastforce simp: coe_message_def)
qed

theorem event_identity_witness:
  "\<exists>T. SecurityEvent_measure demo_sha demo_ioctl = Ret () T \<and>
     SecurityEvent_get_identity (T, buf_empty) = Ret () (T, \<lparr>b_poisoned = False, b_data =
       demo_sha (''file_ioctl'' @ [NUL] @ demo_sha (concat (coe_parts zero_character)) @
                 demo_sha (''file_ioctl'' @ zero_message))\<rparr>)"
proof -
  have hex: "hex_decode ''00'' = Some [NUL]" by code_simp
  have ready: "event_ready demo_ioctl" by (rule demo_ready) simp
  have facts: "hs_get (se_task_id demo_ioctl) = Some ''00''" "TSEM_name ! se_type demo_ioctl = ''file_ioctl''"
    "cell_message (se_cell demo_ioctl) = Some (''file_ioctl'' @ zero_message)"
    "coe_character (se_coe demo_ioctl) = zero_character"
    by (simp_all add: demo_event_def TSEM_name_def cell_message_def cell_parts_def generic_parts_def
        SecurityEvent_Init_def COE_Init_def)
  show ?thesis
    using event_identity [OF ready facts(1) _ hex facts(3), of buf_empty demo_sha]
    by (simp add: facts buf_empty_def)
qed

text \<open>
  Two contexts of execution are measured over the same bytes exactly when they agree in
  every field but the \<open>fsgid\<close>, which is not measured.
\<close>

theorem COE_measured_fields:
  assumes "coe_ready S" "coe_ready T"
  shows "\<exists>S' T' m n.
     COE_measure sha S = Ret () S' \<and> COE_get_measurement (S', buf_empty) = Ret () (S', \<lparr>b_poisoned = False, b_data = sha m\<rparr>) \<and>
     COE_measure sha T = Ret () T' \<and> COE_get_measurement (T', buf_empty) = Ret () (T', \<lparr>b_poisoned = False, b_data = sha n\<rparr>) \<and>
     (m = n \<longleftrightarrow> (coe_character S)\<lparr>c_fsgid := 0\<rparr> = (coe_character T)\<lparr>c_fsgid := 0\<rparr>)"
proof -
  have measured: "\<exists>U'. COE_measure sha U = Ret () U' \<and>
      COE_get_measurement (U', buf_empty) = Ret () (U', \<lparr>b_poisoned = False, b_data = sha (coe_message (coe_character U))\<rparr>)"
    if r: "coe_ready U" for U
  proof -
    obtain i where i: "COE_measure sha U = Ret () (U\<lparr>coe_identity := i, coe_measured := True\<rparr>)"
      "sha_holds (sha (coe_message (coe_character U))) i"
      using COE_measure_ready [OF r] by blast
    with COE_get_measurement_holds [of "U\<lparr>coe_identity := i, coe_measured := True\<rparr>" _ buf_empty] r show ?thesis
      by (auto simp: coe_ready_def buf_empty_def)
  qed
  from measured [OF assms(1)] measured [OF assms(2)] coe_message_eq_iff show ?thesis by blast
qed

theorem COE_measured_fields_witness:
  "\<exists>S' T' m. COE_measure demo_sha COE_Init = Ret () S' \<and>
     COE_measure demo_sha (COE_set_characteristics 0 0 0 0 0 0 0 1 0 COE_Init) = Ret () T' \<and>
     COE_get_measurement (S', buf_empty) = Ret () (S', \<lparr>b_poisoned = False, b_data = demo_sha m\<rparr>) \<and>
     COE_get_measurement (T', buf_empty) = Ret () (T', \<lparr>b_poisoned = False, b_data = demo_sha m\<rparr>)"
proof -
  have "coe_ready (COE_set_characteristics 0 0 0 0 0 0 0 1 0 COE_Init)" by simp
  from COE_measured_fields [OF coe_ready_Init this, of demo_sha] show ?thesis
    by (auto simp: COE_set_characteristics_def COE_Init_def zero_character_def)
qed

text \<open>
  The opening of a file is measured over its flags, the inode (without the uuid on a
  temporary file system), the path name and the digest, and over nothing else: two such events have the same bytes
  measured exactly when they agree in these.  The device of the path is not measured.
\<close>

theorem file_measured_fields:
  assumes "cell_ready S" "ce_type S = TSEM_FILE_OPEN" "file_ok (ce_file S)"
    and "cell_ready T" "ce_type T = TSEM_FILE_OPEN" "file_ok (ce_file T)"
  shows "\<exists>S' T' m n.
     Cell_measure sha S = Ret () S' \<and> Cell_get_measurement (S', buf_empty) = Ret () (S', \<lparr>b_poisoned = False, b_data = sha m\<rparr>) \<and>
     Cell_measure sha T = Ret () T' \<and> Cell_get_measurement (T', buf_empty) = Ret () (T', \<lparr>b_poisoned = False, b_data = sha n\<rparr>) \<and>
     (m = n \<longleftrightarrow> file_view (ce_file S) = file_view (ce_file T))"
proof -
  have measured: "\<exists>U'. Cell_measure sha U = Ret () U' \<and>
      Cell_get_measurement (U', buf_empty) = Ret () (U', \<lparr>b_poisoned = False, b_data = sha (concat (file_parts (ce_file U)))\<rparr>)"
    if u: "cell_ready U" "ce_type U = TSEM_FILE_OPEN" for U
    using cell_measured [OF u(1), of "concat (file_parts (ce_file U))" sha] u(2)
    by (simp add: cell_message_def cell_parts_def)
  have "concat (file_parts (ce_file S)) = concat (file_parts (ce_file T)) \<longleftrightarrow>
      file_view (ce_file S) = file_view (ce_file T)"
    using file_parts_eq_iff [OF assms(3,6), of "[]" "[]"] by simp
  with measured [OF assms(1,2)] measured [OF assms(4,5)] show ?thesis by blast
qed

definition demo_file :: "u32 \<Rightarrow> Cell_State" where
  "demo_file major = demo_cell\<lparr>ce_type := TSEM_FILE_OPEN, ce_file := zero_file\<lparr>f_path :=
     (f_path zero_file)\<lparr>p_major := major\<rparr>\<rparr>\<rparr>"

theorem file_measured_fields_witness:
  "\<exists>S' T' m. Cell_measure demo_sha (demo_file 8) = Ret () S' \<and> Cell_measure demo_sha (demo_file 9) = Ret () T' \<and>
     Cell_get_measurement (S', buf_empty) = Ret () (S', \<lparr>b_poisoned = False, b_data = demo_sha m\<rparr>) \<and>
     Cell_get_measurement (T', buf_empty) = Ret () (T', \<lparr>b_poisoned = False, b_data = demo_sha m\<rparr>)"
proof -
  have ready: "cell_ready (demo_file a)" "ce_type (demo_file a) = TSEM_FILE_OPEN" "file_ok (ce_file (demo_file a))" for a
    by (simp_all add: demo_file_def cell_ready_def demo_cell_def Cell_Init_def file_ok_def zero_file_def
        hs_size_def hs_empty_def hs_chars_def hs_get_def)
  have "file_view (ce_file (demo_file 8)) = file_view (ce_file (demo_file 9))"
    by (simp add: demo_file_def file_view_def)
  with file_measured_fields [OF ready [of 8] ready [of 9], of demo_sha] show ?thesis by auto
qed

text \<open>
  A connection or binding is measured over its socket and, by its family: port and
  IPv4 address; port, IPv6 address, flow and scope; the name of a local socket; and for any other family only the
  first 8 bytes of the address.
\<close>

theorem connect_measured_fields:
  assumes "cell_ready S" "ce_type S \<in> {TSEM_SOCKET_CONNECT, TSEM_SOCKET_BIND}" "cell_ok S"
    and "cell_ready T" "ce_type T = ce_type S" "cell_ok T"
    and "Cell_measure sha S \<noteq> Undef" "Cell_measure sha T \<noteq> Undef"
  shows "\<exists>S' T' m n.
     Cell_measure sha S = Ret () S' \<and> Cell_get_measurement (S', buf_empty) = Ret () (S', \<lparr>b_poisoned = False, b_data = sha m\<rparr>) \<and>
     Cell_measure sha T = Ret () T' \<and> Cell_get_measurement (T', buf_empty) = Ret () (T', \<lparr>b_poisoned = False, b_data = sha n\<rparr>) \<and>
     (m = n \<longleftrightarrow> connect_view (ce_socket_connect S) = connect_view (ce_socket_connect T))"
proof -
  obtain ps qs where ps: "connect_parts (ce_socket_connect S) = Some ps" "cell_message S = Some (concat ps)"
    and qs: "connect_parts (ce_socket_connect T) = Some qs" "cell_message T = Some (concat qs)"
    using Cell_measure_undefined [OF assms(1)] Cell_measure_undefined [OF assms(4)] assms(2,5,7,8)
    by (cases "connect_parts (ce_socket_connect S)"; cases "connect_parts (ce_socket_connect T)")
      (auto simp: cell_message_def cell_parts_def)
  have "concat ps = concat qs \<longleftrightarrow> connect_view (ce_socket_connect S) = connect_view (ce_socket_connect T)"
    using assms(3,6) ps(1) qs(1) by (intro connect_parts_eq_iff) (simp_all add: cell_ok_def sock_ok_def)
  with cell_measured [OF assms(1) ps(2), of sha] cell_measured [OF assms(4) qs(2), of sha] show ?thesis by blast
qed

definition demo_connect :: "byte list \<Rightarrow> Cell_State" where
  "demo_connect address = demo_cell\<lparr>ce_type := TSEM_SOCKET_CONNECT,
     ce_socket_connect := (ce_socket_connect demo_cell)\<lparr>cn_u := address\<rparr>\<rparr>"

theorem connect_measured_fields_witness:
  "\<exists>S' T' m. Cell_measure demo_sha (demo_connect (replicate 112 NUL)) = Ret () S' \<and>
     Cell_measure demo_sha (demo_connect (replicate 8 NUL @ replicate 104 (CHR ''x''))) = Ret () T' \<and>
     Cell_get_measurement (S', buf_empty) = Ret () (S', \<lparr>b_poisoned = False, b_data = demo_sha m\<rparr>) \<and>
     Cell_get_measurement (T', buf_empty) = Ret () (T', \<lparr>b_poisoned = False, b_data = demo_sha m\<rparr>)"
proof -
  let ?a = "replicate 112 NUL" and ?b = "replicate 8 NUL @ replicate 104 (CHR ''x'')"
  have family: "k_family (cn_sock (ce_socket_connect (demo_connect a))) = 0"
    "cn_u (ce_socket_connect (demo_connect a)) = a" for a
    by (simp_all add: demo_connect_def demo_cell_def Cell_Init_def)
  have ready: "cell_ready (demo_connect a)" "ce_type (demo_connect a) = TSEM_SOCKET_CONNECT" for a
    by (simp_all add: demo_connect_def cell_ready_def demo_cell_def Cell_Init_def)
  have ok: "cell_ok (demo_connect a)" if "length a = 112" for a
    using that by (simp add: demo_connect_def cell_ok_def demo_cell_def Cell_Init_def file_ok_def zero_file_def
        hs_size_def hs_empty_def hs_chars_def hs_get_def zero_id_def)
  have "cell_message (demo_connect a) \<noteq> None" for a
    by (simp add: cell_message_def cell_parts_def ready connect_parts_def family Let_def)
  then have run: "Cell_measure demo_sha (demo_connect a) \<noteq> Undef" for a
    using Cell_measure_ready [OF ready(1), of a _ demo_sha] by fastforce
  have "connect_view (ce_socket_connect (demo_connect ?a)) = connect_view (ce_socket_connect (demo_connect ?b))"
    by (simp add: connect_view_def family Let_def) (simp add: demo_connect_def)
  with connect_measured_fields [OF ready(1) _ ok ready(1) _ ok run run, of ?a ?b] ready(2)
  show ?thesis by auto
qed

end
