(* ===== verification/JsonText.thy ===== *)
theory JsonText
  imports EventText
begin

text \<open>
  Texts as the segments between their quotation marks.  Field and key descriptors start with a quoted name: whether
  and where they occur in a text is decided by its segments, so that lookups in nested objects are evaluated by
  simplification.
\<close>

section \<open>Segments\<close>

fun quoted :: "string list \<Rightarrow> string" where
  "quoted [] = []"
| "quoted (s # ss) = DQ # s @ quoted ss"

definition quote_free :: "string list \<Rightarrow> bool" where
  "quote_free segs \<longleftrightarrow> (\<forall>s \<in> set segs. DQ \<notin> set s)"

lemma quote_free_simps [simp]:
  "quote_free []" "quote_free (s # ss) \<longleftrightarrow> DQ \<notin> set s \<and> quote_free ss"
  "quote_free (ss @ ts) \<longleftrightarrow> quote_free ss \<and> quote_free ts"
  by (auto simp: quote_free_def)

lemma quoted_append [simp]: "quoted (ss @ ts) = quoted ss @ quoted ts"
  by (induction ss) simp_all

text \<open>The segments before and from the first one that is \<open>k\<close> with \<open>p\<close> behind it.\<close>

fun qfind :: "string \<Rightarrow> string \<Rightarrow> string list \<Rightarrow> (string list \<times> string list) option" where
  "qfind k p [] = None"
| "qfind k p [s] = None"
| "qfind k p (s # t # ss) =
     (if s = k \<and> is_prefix p t then Some ([], s # t # ss)
      else map_option (\<lambda>(before, after). (s # before, after)) (qfind k p (t # ss)))"

lemma is_prefix_segment:
  assumes "c \<notin> set p"
  shows "is_prefix p (t @ c # r) \<longleftrightarrow> is_prefix p t"
  using assms
proof (induction p arbitrary: t)
  case (Cons x p)
  then show ?case by (cases t) auto
qed simp

lemma is_prefix_quoted_end:
  assumes "DQ \<notin> set p"
  shows "is_prefix p (t @ quoted ss) \<longleftrightarrow> is_prefix p t"
  using is_prefix_segment [OF assms] by (cases ss) simp_all

lemma strstr_quoted:
  assumes "DQ \<notin> set k" "DQ \<notin> set p" "quote_free segs"
  shows "strstr (quoted segs) (DQ # k @ DQ # p) =
           map_option (\<lambda>(before, after). (quoted before, quoted after)) (qfind k p segs)"
  using assms(3)
proof (induction segs rule: induct_list012)
  case 1
  then show ?case by simp
next
  case (2 s)
  have "\<not> is_prefix (DQ # k @ DQ # p) (DQ # s)"
  proof
    assume "is_prefix (DQ # k @ DQ # p) (DQ # s)"
    then have "DQ \<in> set s" by (auto simp: is_prefix_iff)
    with 2 show False by simp
  qed
  then have "\<not> is_prefix (k @ DQ # p) s" by simp
  moreover have "strstr s (DQ # k @ DQ # p) = None"
    using strstr_skip [of DQ s "[]" "k @ DQ # p"] 2 by simp
  ultimately show ?case by simp
next
  case (3 s t ss)
  have pre: "is_prefix (k @ DQ # p) (s @ DQ # t @ quoted ss) \<longleftrightarrow> k = s \<and> is_prefix p t"
    using 3(3) assms by (simp add: is_prefix_quoted is_prefix_quoted_end)
  have "strstr (s @ DQ # t @ quoted ss) (DQ # k @ DQ # p) =
      map_option (\<lambda>(a, b). (s @ a, b)) (strstr (quoted (t # ss)) (DQ # k @ DQ # p))"
    using strstr_skip [of DQ s "DQ # t @ quoted ss" "k @ DQ # p"] 3(3) by simp
  then show ?case
    using 3(2,3) pre by (cases "s = k \<and> is_prefix p t") (auto simp: option.map_comp o_def split_def)
qed

lemma qfind_append: "qfind k p segs = Some (before, after) \<Longrightarrow> segs = before @ after"
  by (induction k p segs arbitrary: before rule: qfind.induct) (auto split: if_splits)

section \<open>Keys\<close>

lemma quote_free_key [simp]: "key_name k \<Longrightarrow> DQ \<notin> set k"
  by (simp add: key_name_def plain_def)

lemma find_key_quoted:
  assumes "DQ \<notin> set k" "quote_free segs" "qfind k '': '' segs = Some (before, after)" "brace_depth (quoted before) = 0"
  shows "find_key_loop (CHR ''{'' # quoted segs) k 0 = Some (CHR ''{'' # quoted before, quoted after)"
proof -
  have "strstr (CHR ''{'' # quoted segs) (key_spec k) = Some (CHR ''{'' # quoted before, quoted after)"
    using strstr_quoted [OF assms(1) _ assms(2), of "'': ''"] assms(3) by (simp add: key_spec_def)
  then show ?thesis
    using assms(4) by (subst find_key_loop.simps) (simp add: find_level_def brace_depth_def)
qed

lemma key_text_quoted:
  assumes "DQ \<notin> set k" "quote_free segs" "brace_depth (quoted before) = 0"
    and "qfind k '': '' segs = Some (before, k # '': '' # v # after)" "v \<noteq> []" "after \<noteq> []"
  shows "key_text (CHR ''{'' # quoted segs) k = Some v"
proof -
  have "DQ \<notin> set v" using qfind_append [OF assms(4)] assms(2) by simp
  moreover obtain t ts where "after = t # ts" using assms(6) by (cases after) auto
  moreover have "drop (length k + 4) (DQ # k @ DQ # CHR '':'' # CHR '' '' # r) = r" for r
    using drop_exact [of "DQ # k @ DQ # '': ''" "length k + 4" r] by simp
  ultimately show ?thesis
    using find_key_quoted [OF assms(1,2,4,3)] assms(5) strchr_value [of v]
    by (simp add: key_text_def)
qed

lemma find_key_quoted_none:
  assumes "DQ \<notin> set k" "quote_free segs" "qfind k '': '' segs = None"
  shows "find_key_loop (CHR ''{'' # quoted segs) k 0 = None"
proof -
  have "strstr (CHR ''{'' # quoted segs) (key_spec k) = None"
    using strstr_quoted [OF assms(1) _ assms(2), of "'': ''"] assms(3) by (simp add: key_spec_def)
  then show ?thesis by (simp add: find_key_loop.simps)
qed

section \<open>Fields\<close>

lemma brace_scan_step:
  "0 < n \<Longrightarrow> brace_scan n (c # cs) =
     (let (inside, rest) = brace_scan (if c = CHR ''{'' then n + 1 else if c = CHR ''}'' then n - 1 else n) cs
      in (c # inside, rest))"
  by (cases n) auto

lemma brace_scan_skip:
  "0 < n \<Longrightarrow> braceless a \<Longrightarrow> brace_scan n (a @ s) = (let (inside, rest) = brace_scan n s in (a @ inside, rest))"
  by (induction a) (auto simp: brace_scan_step split: prod.splits)

lemma brace_scan_done [simp]: "brace_scan 0 s = ([], s)"
  by simp

lemma brace_scan_add:
  "brace_scan m t = (a, b) \<Longrightarrow> b \<noteq> [] \<Longrightarrow>
   brace_scan (m + n) t = (let (inside, rest) = brace_scan n b in (a @ inside, rest))"
proof (induction m t arbitrary: a rule: brace_scan.induct)
  case (3 m c cs)
  let ?cnt = "if c = CHR ''{'' then m + 2 else if c = CHR ''}'' then m else m + 1"
  obtain a' where a': "brace_scan ?cnt cs = (a', b)" "a = c # a'"
    using 3(2) by (auto simp: Let_def split: prod.splits)
  from 3(1) [OF refl a'(1) 3(3)] a'(2) show ?case
    by (auto simp: Let_def split: prod.splits if_splits)
qed simp_all

lemma extract_text_quoted:
  assumes "DQ \<notin> set field" "quote_free segs"
    and "qfind field '': {'' segs = Some (before, field # (CHR '':'' # CHR '' '' # CHR ''{'' # tail) # after)"
    and "brace_scan 1 (tail @ quoted after) = (inside, rest)" "rest \<noteq> []"
    and "last (CHR ''{'' # quoted segs) = CHR ''}''"
  shows "extract_text (CHR ''{'' # quoted segs) field = Some (CHR ''{'' # inside)"
proof -
  let ?tail = "CHR ''{'' # tail @ quoted after"
  have suf: "quoted (field # (CHR '':'' # CHR '' '' # CHR ''{'' # tail) # after) =
      DQ # field @ DQ # CHR '':'' # CHR '' '' # ?tail" by simp
  have "strstr (CHR ''{'' # quoted segs) (field_spec field) =
      Some (CHR ''{'' # quoted before, DQ # field @ DQ # CHR '':'' # CHR '' '' # ?tail)"
    using strstr_quoted [OF assms(1) _ assms(2), of "'': {''"] assms(3) unfolding suf [symmetric]
    by (simp add: field_spec_def)
  moreover have "drop (length field + 4) (DQ # field @ DQ # CHR '':'' # CHR '' '' # r) = r" for r
    using drop_exact [of "DQ # field @ DQ # '': ''" "length field + 4" r] by simp
  moreover have "drop (length field + 5) (DQ # field @ DQ # CHR '':'' # CHR '' '' # CHR ''{'' # r) = r" for r
    using drop_exact [of "DQ # field @ DQ # '': {''" "length field + 5" r] by simp
  ultimately show ?thesis
    using assms(4-6) by (simp add: extract_text_def add.commute split: prod.splits del: strstr.simps)
qed

text \<open>Behind other segments.\<close>

lemma qfind_skip:
  "qfind k p (pre @ [s]) = None \<Longrightarrow>
   qfind k p (pre @ s # ss) = map_option (\<lambda>(before, after). (pre @ before, after)) (qfind k p (s # ss))"
proof (induction pre rule: induct_list012)
  case 1
  then show ?case by (cases "qfind k p (s # ss)") auto
next
  case (2 x)
  then show ?case by (cases "qfind k p (s # ss)") (auto split: if_splits)
next
  case (3 x y zs)
  then have "qfind k p ((y # zs) @ [s]) = None" "\<not> (x = k \<and> is_prefix p y)" by (auto split: if_splits)
  with 3(2) show ?case by (cases "qfind k p (s # ss)") auto
qed

lemma brace_scan_segment:
  "0 < n \<Longrightarrow> braceless s \<Longrightarrow> brace_scan n (DQ # s @ r) =
     (let (inside, rest) = brace_scan n r in (DQ # s @ inside, rest))"
  by (simp add: brace_scan_step brace_scan_skip split_def Let_def)

lemma brace_depth_simps [simp]:
  "brace_depth [] = 0"
  "brace_depth (c # s) = (if c = CHR ''{'' then 1 else if c = CHR ''}'' then -1 else 0) + brace_depth s"
  "brace_depth (s @ t) = brace_depth s + brace_depth t"
  by (simp_all add: brace_depth_Cons brace_depth_append brace_step_def) (simp add: brace_depth_def)

lemma brace_depth_braceless: "braceless s \<Longrightarrow> brace_depth s = 0"
  by (simp add: braceless_def brace_depth_plain)

lemma sprint_hex_codes:
  assumes "c \<in> set (sprint_hex bs)"
  shows "(48 \<le> (of_char c :: nat) \<and> (of_char c :: nat) \<le> 57) \<or> (97 \<le> (of_char c :: nat) \<and> (of_char c :: nat) \<le> 102)"
proof -
  obtain b where b: "c \<in> set (sprint_02x b)" using assms by (auto simp: sprint_hex_def)
  have "(of_char b :: nat) div 16 < 16" using nat_of_char_less_256 [of b] by (simp add: less_mult_imp_div_less)
  moreover have "(of_char b :: nat) mod 16 < 16" by simp
  moreover have "c = digit_char (of_char b div 16) \<or> c = digit_char (of_char b mod 16)"
    using b by (auto simp: sprint_02x_def)
  ultimately have "\<exists>d < 16. c = digit_char d" by blast
  then obtain d where "d < 16" "c = digit_char d" by blast
  then show ?thesis by (cases "d < 10") (simp_all add: digit_char_code)
qed

lemma plain_sprint_hex [simp]: "plain (sprint_hex bs)"
  using sprint_hex_codes [of _ bs] by (force simp: plain_def)

lemma sprint_hex_Nil [simp]: "sprint_hex bs = [] \<longleftrightarrow> bs = []"
  by (cases bs) (simp_all add: sprint_hex_def sprint_02x_def)

lemma plainD: "plain s \<Longrightarrow> DQ \<notin> set s" "plain s \<Longrightarrow> braceless s" "plain s \<Longrightarrow> brace_depth s = 0"
  by (simp_all add: plain_def plain_braceless brace_depth_braceless)

lemma sprint_simps [simp]:
  "2 \<le> b \<Longrightarrow> b \<le> 16 \<Longrightarrow> DQ \<notin> set (sprint_nat b n)" "2 \<le> b \<Longrightarrow> b \<le> 16 \<Longrightarrow> braceless (sprint_nat b n)"
  "2 \<le> b \<Longrightarrow> b \<le> 16 \<Longrightarrow> brace_depth (sprint_nat b n) = 0"
  "DQ \<notin> set (sprint_hex bs)" "braceless (sprint_hex bs)" "brace_depth (sprint_hex bs) = 0"
  by (simp_all add: plainD)

section \<open>Evaluation\<close>

definition seg_text :: "string \<Rightarrow> string list \<Rightarrow> string option" where
  "seg_text k segs =
     (case qfind k '': '' segs of
        Some (before, _ # t # v # _ # _) \<Rightarrow>
          if t = '': '' \<and> v \<noteq> [] \<and> brace_depth (quoted before) = 0 then Some v else None
      | _ \<Rightarrow> None)"

lemma qfind_head: "qfind k p segs = Some (before, s # after) \<Longrightarrow> s = k"
  by (induction k p segs arbitrary: before rule: qfind.induct) (auto split: if_splits)

lemma key_text_seg:
  assumes "seg_text k segs = Some v" "quote_free segs" "DQ \<notin> set k"
  shows "key_text (CHR ''{'' # quoted segs) k = Some v"
proof -
  obtain before s t w after1 after2 where q: "qfind k '': '' segs = Some (before, s # t # w # after1 # after2)"
    and v: "t = '': ''" "w = v" "v \<noteq> []" "brace_depth (quoted before) = 0"
    using assms(1) by (auto simp: seg_text_def split: option.splits list.splits if_splits)
  show ?thesis
    using key_text_quoted [OF assms(3,2) v(4), of v "after1 # after2"] q v qfind_head [OF q] by simp
qed

definition seg_object :: "string \<Rightarrow> string list \<Rightarrow> string option" where
  "seg_object field segs =
     (case qfind field '': {'' segs of
        Some (before, _ # t # after) \<Rightarrow>
          (let (inside, rest) = brace_scan 1 (drop 3 t @ quoted after)
           in if rest = [] then None else Some inside)
      | _ \<Rightarrow> None)"

lemma qfind_second: "qfind k p segs = Some (before, s # t # after) \<Longrightarrow> is_prefix p t"
  by (induction k p segs arbitrary: before rule: qfind.induct) (auto split: if_splits)

lemma extract_text_seg:
  assumes "seg_object field segs = Some inside" "quote_free segs" "DQ \<notin> set field"
    and "last (CHR ''{'' # quoted segs) = CHR ''}''"
  shows "extract_text (CHR ''{'' # quoted segs) field = Some (CHR ''{'' # inside)"
proof -
  obtain before s t after rest where q: "qfind field '': {'' segs = Some (before, s # t # after)"
    and scan: "brace_scan 1 (drop 3 t @ quoted after) = (inside, rest)" "rest \<noteq> []"
    using assms(1) by (auto simp: seg_object_def split: option.splits list.splits prod.splits if_splits)
  obtain tail where t: "t = CHR '':'' # CHR '' '' # CHR ''{'' # tail"
    using qfind_second [OF q] by (auto simp: is_prefix_iff)
  show ?thesis
    by (rule extract_text_quoted [OF assms(3,2) _ _ scan(2) assms(4)])
      (use q scan t qfind_head [OF q] in simp_all)
qed

definition seg_has :: "string \<Rightarrow> string list \<Rightarrow> bool" where
  "seg_has k segs =
     (case qfind k '': '' segs of Some (before, _ # t # _ # _) \<Rightarrow> (t = '': '' \<or> t = '': {'') \<and> brace_depth (quoted before) = 0 | _ \<Rightarrow> False)"

lemma find_key_seg:
  assumes "seg_has k segs" "quote_free segs" "DQ \<notin> set k"
  shows "\<exists>pre suf c r. find_key_loop (CHR ''{'' # quoted segs) k 0 = Some (pre, suf) \<and>
     drop (length k + 4) suf = c # r \<and> (c = DQ \<or> c = CHR ''{'')"
proof -
  obtain before s t u after where q: "qfind k '': '' segs = Some (before, s # t # u # after)"
    and v: "t = '': '' \<or> t = '': {''" "brace_depth (quoted before) = 0"
    using assms(1) unfolding seg_has_def
    by (cases "qfind k '': '' segs") (auto split: list.splits)
  have "drop (length k + 4) (DQ # k @ DQ # CHR '':'' # CHR '' '' # r) = r" for r
    using drop_exact [of "DQ # k @ DQ # '': ''" "length k + 4" r] by simp
  then show ?thesis
    using find_key_quoted [OF assms(3,2) q v(2)] v(1) qfind_head [OF q] by auto
qed

end
