(* ===== verification/CellText.thy ===== *)
theory CellText
  imports JsonText Examples
begin

text \<open>
  The parameters of events, printed and read back: what \<open>Cell_format\<close> writes is parsed by \<open>Cell_parse\<close> to the
  same parameters.
\<close>

section \<open>Reading one member\<close>

lemma steps_entry_field:
  assumes "parser_ok p" "extract_text ev field = Some f" "e \<noteq> ERANGE"
    and "\<And>q. frame_ok f ((S, hs_of ev), q, e) \<Longrightarrow> steps fs ((S, hs_of ev), q, e) \<in> X"
  shows "steps (entry_field field # fs) ((S, hs_of ev), p, e) \<in> X"
proof -
  obtain q where q: "parse_field (hs_of ev) field ((S, hs_of ev), p, e) = Ret () ((S, hs_of ev), q, e)"
    "frame_ok f ((S, hs_of ev), q, e)"
    using parse_field_frame [OF assms(1-3), of "(S, hs_of ev)"] by (elim exE conjE) (rule that)
  then have "entry_field field ((S, hs_of ev), p, e) = Ret () ((S, hs_of ev), q, e)"
    by (simp add: entry_field_def)
  with assms(4) [OF q(2)] show ?thesis by simp
qed

text \<open>The same behind another lookup, whose parser is in the frame.\<close>

lemma steps_entry_field':
  assumes "frame_ok g ((T, en), p, e)" "extract_text ev field = Some f"
    and "\<And>q. frame_ok f ((S, hs_of ev), q, e) \<Longrightarrow> steps fs ((S, hs_of ev), q, e) \<in> X"
  shows "steps (entry_field field # fs) ((S, hs_of ev), p, e) \<in> X"
  using assms(1) by (intro steps_entry_field [OF _ assms(2) _ assms(3)]) (simp_all add: frame_ok_def)

lemma steps_entry_narrow:
  assumes "frame_ok f ((S, en), p, e)" "\<not> h_poisoned en"
    and "frame_ok f ((S, hs_of f), p, e) \<Longrightarrow> steps fs ((S, hs_of f), p, e) \<in> X"
  shows "steps (entry_narrow # fs) ((S, en), p, e) \<in> X"
proof -
  have "entry_narrow ((S, en), p, e) = Ret () ((S, hs_of f), p, e)"
    using assms(1,2) by (simp add: entry_narrow_def frame_ok_def TSEMparser_get_field_def parser_ok_def hs_add_reset)
  moreover have "frame_ok f ((S, hs_of f), p, e)" using assms(1) by (simp add: frame_ok_def)
  ultimately show ?thesis using assms(3) by simp
qed

lemma on_cell_frame [simp]: "on_cell g ((S, en), p, e) = ((g S, en), p, e)"
  by (simp add: on_cell_def frame_map_def)


lemma steps_Cell_get_field:
  assumes "frame_ok f ((S, en), p, e)" "key_text f key = Some t" "strtoll t = (int (unat w), False)"
    and "\<And>q. frame_ok f ((put w S, en), q, e) \<Longrightarrow> steps fs ((put w S, en), q, e) \<in> X"
  shows "steps (Cell_get_field key put # fs) ((S, en), p, e) \<in> X"
proof -
  have bound: "unat w < 2 ^ 32" using unsigned_less [of w] by simp
  define vl :: u64 where "vl = word_of_int (int (unat w))"
  have vl: "unat vl = unat w" "(ucast vl :: u32) = w"
    using bound unfolding vl_def
    by (simp_all add: unsigned_ucast_eq take_bit_nat_eq_self word_unat_eq_iff unsigned_take_bit_eq)
  let ?g = "\<lambda>vl :: u64. steps [fail_if (\<lambda>_ :: cell_frame. unat vl > 2 ^ 32 - 1), assign (on_cell (put (ucast vl)))]"
  have "\<exists>q. Cell_get_field key put ((S, en), p, e) = ?g vl ((S, en), q, e) \<and> frame_ok f ((S, en), q, e)"
    unfolding Cell_get_field_def vl_def by (rule parse_integer_ok [OF assms(1-3)])
  then obtain q where q: "Cell_get_field key put ((S, en), p, e) = ?g vl ((S, en), q, e)" "frame_ok f ((S, en), q, e)"
    by (elim exE conjE) (rule that)
  have "Cell_get_field key put ((S, en), p, e) = Ret () ((put w S, en), q, e)"
    unfolding q(1) using bound vl by simp
  moreover have "frame_ok f ((put w S, en), q, e)" using q(2) by (simp add: frame_ok_def)
  ultimately show ?thesis using assms(4) [of q] by simp
qed

lemma steps_Cell_get_u16:
  assumes "frame_ok f ((S, en), p, e)" "key_text f key = Some t" "strtoll t = (int (unat w), False)"
    and "\<And>q. frame_ok f ((put w S, en), q, e) \<Longrightarrow> steps fs ((put w S, en), q, e) \<in> X"
  shows "steps (Cell_get_u16 key put # fs) ((S, en), p, e) \<in> X"
proof -
  have bound: "unat w < 2 ^ 16" using unsigned_less [of w] by simp
  define vl :: u64 where "vl = word_of_int (int (unat w))"
  have vl: "unat vl = unat w" "(ucast vl :: u16) = w"
    using bound unfolding vl_def
    by (simp_all add: unsigned_ucast_eq take_bit_nat_eq_self word_unat_eq_iff unsigned_take_bit_eq)
  let ?g = "\<lambda>vl :: u64. steps [fail_if (\<lambda>_ :: cell_frame. unat vl > 2 ^ 16 - 1), assign (on_cell (put (ucast vl)))]"
  have "\<exists>q. Cell_get_u16 key put ((S, en), p, e) = ?g vl ((S, en), q, e) \<and> frame_ok f ((S, en), q, e)"
    unfolding Cell_get_u16_def vl_def by (rule parse_integer_ok [OF assms(1-3)])
  then obtain q where q: "Cell_get_u16 key put ((S, en), p, e) = ?g vl ((S, en), q, e)" "frame_ok f ((S, en), q, e)"
    by (elim exE conjE) (rule that)
  have "Cell_get_u16 key put ((S, en), p, e) = Ret () ((put w S, en), q, e)"
    unfolding q(1) using bound vl by simp
  moreover have "frame_ok f ((put w S, en), q, e)" using q(2) by (simp add: frame_ok_def)
  ultimately show ?thesis using assms(4) [of q] by simp
qed

lemma steps_Cell_get_digest:
  assumes "frame_ok f ((S, en), p, e)" "key_text f key = Some (sprint_hex bs)" "bs \<noteq> []" "length bs = len"
    and "\<And>q. frame_ok f ((upd (overwrite bs) S, en), q, e) \<Longrightarrow> steps fs ((upd (overwrite bs) S, en), q, e) \<in> X"
  shows "steps (Cell_get_digest key len upd # fs) ((S, en), p, e) \<in> X"
  unfolding Cell_get_digest_def
proof (rule steps_parse_local_text [OF assms(1,2)])
  fix q assume f: "frame_ok f ((S, en), q, e)"
  have "sprint_hex bs \<noteq> []" using assms(3) length_sprint_hex [of bs] by (cases bs) (auto simp: sprint_hex_def sprint_02x_def)
  then have hex: "buf_add_hexstring (hs_get (hs_of (sprint_hex bs))) buf_empty = Ret () \<lparr>b_poisoned = False, b_data = bs\<rparr>"
    using hex_string_add [OF _ hex_decode_sprint_hex, of bs buf_empty] by (simp add: buf_empty_def)
  have "frame_ok f ((upd (overwrite bs) S, en), q, e)" using f by (simp add: frame_ok_def)
  from assms(5) [OF this] show "res_bind (case buf_add_hexstring (hs_get (hs_of (sprint_hex bs))) buf_empty of
          Ret _ bufr \<Rightarrow> if buf_size bufr \<noteq> len then Fail ((S, en), q, e)
                       else Ret () (on_cell (upd (overwrite (b_data bufr))) ((S, en), q, e))
        | Fail _ \<Rightarrow> Fail ((S, en), q, e)
        | Undef \<Rightarrow> Undef) (\<lambda>_. steps fs) \<in> X"
    unfolding hex using assms(4) by (simp add: buf_size_def)
qed

lemma steps_Cell_get_text:
  assumes "frame_ok f ((S, en), p, e)" "key_text f key = Some t" "length t + 1 \<le> fblen"
    and "\<And>q. frame_ok f ((upd (overwrite (t @ [NUL])) S, en), q, e) \<Longrightarrow>
           steps fs ((upd (overwrite (t @ [NUL])) S, en), q, e) \<in> X"
  shows "steps (Cell_get_text key fblen upd # fs) ((S, en), p, e) \<in> X"
  unfolding Cell_get_text_def
proof (rule steps_parse_local_text [OF assms(1,2)])
  fix q assume "frame_ok f ((S, en), q, e)"
  then have "frame_ok f ((upd (overwrite (t @ [NUL])) S, en), q, e)" by (simp add: frame_ok_def)
  from assms(4) [OF this] show "res_bind (case hs_get (hs_of t) of
          None \<Rightarrow> Undef
        | Some t' \<Rightarrow> if hs_size (hs_of t) + 1 > fblen then Fail ((S, en), q, e)
                   else Ret () (on_cell (upd (overwrite (t' @ [NUL]))) ((S, en), q, e))) (\<lambda>_. steps fs) \<in> X"
    using assms(3) by simp
qed

lemma steps_has_key:
  assumes "frame_ok f ((S, en), p, e)" "find_key_loop f key 0 = Some (pre, suf)" "f \<noteq> []"
    and "drop (length key + 4) suf = c # r" "c = DQ \<or> c = CHR ''{''"
    and "\<And>q. frame_ok f ((S, en), q, e) \<Longrightarrow> res_bind (g True ((S, en), q, e)) (\<lambda>_. steps fs) \<in> X"
  shows "steps (parse_has_key key g # fs) ((S, en), p, e) \<in> X"
proof -
  have "TSEMparser_has_key key p = Ret True (p\<lparr>tp_key_value := hs_of (key_spec key @ [c])\<rparr>)"
    using assms(1-5) find_key_found [of p f key pre suf c r]
    by (simp add: frame_ok_def TSEMparser_has_key_def)
  moreover have "frame_ok f ((S, en), p\<lparr>tp_key_value := hs_of (key_spec key @ [c])\<rparr>, e)"
    using assms(1) by (simp add: frame_ok_def)
  ultimately show ?thesis using assms(6) by (simp add: parse_has_key_def)
qed

lemma steps_has_no_key:
  assumes "frame_ok f ((S, en), p, e)" "find_key_loop f key 0 = None" "f \<noteq> []"
    and "\<And>q. frame_ok f ((S, en), q, e) \<Longrightarrow> res_bind (g False ((S, en), q, e)) (\<lambda>_. steps fs) \<in> X"
  shows "steps (parse_has_key key g # fs) ((S, en), p, e) \<in> X"
  using has_key_absent [OF assms(1-3), of g] assms(4) by auto

section \<open>Files\<close>

text \<open>The segments between the quotation marks of a printed file.\<close>

definition inode_segments :: "inode \<Rightarrow> string \<Rightarrow> string list" where
  "inode_segments i s_id =
     [''uid'', '': '', dec32 (i_uid i), '', '', ''gid'', '': '', dec32 (i_gid i), '', '',
      ''mode'', '': '', ''0'' @ sprint_o (unat (i_mode i)), '', '',
      ''s_magic'', '': '', ''0x'' @ sprint_x (unat (i_s_magic i)), '', '',
      ''s_id'', '': '', s_id, '', '', ''s_uuid'', '': '', sprint_hex (i_s_uuid i)]"

definition path_segments :: "path \<Rightarrow> string \<Rightarrow> string list" where
  "path_segments p name =
     [''dev'', '': {'', ''major'', '': '', dec32 (p_major p), '', '', ''minor'', '': '', dec32 (p_minor p),
      ''}, '', ''pathname'', '': '', name]"

definition file_segments :: "file_parameters \<Rightarrow> string \<Rightarrow> string \<Rightarrow> string list" where
  "file_segments F s_id name =
     [''flags'', '': '', dec32 (f_flags F), '', '', ''inode'', '': {''] @ inode_segments (f_inode F) s_id @
     [''}, '', ''path'', '': {''] @ path_segments (f_path F) name @
     [''}, '', ''digest'', '': '', sprint_hex (f_digest F)]"

lemma format_file_segments:
  assumes "array_text (i_s_id (f_inode F)) = Some s_id" "hs_get (p_pathname (f_path F)) = Some name"
  shows "join_pieces (format_file F) =
           Some (quoted ([''file'', '': {''] @ file_segments F s_id name @ [''}'']))"
  using assms
  by (simp add: format_file_def Let_def file_segments_def inode_segments_def path_segments_def
      join_pieces_append)

lemma plain_segs [simp]: "plain s \<Longrightarrow> DQ \<notin> set s" "plain s \<Longrightarrow> braceless s" "plain s \<Longrightarrow> brace_depth s = 0"
  by (rule plainD, assumption)+

lemma file_segments_objects:
  assumes "plain s_id" "plain name"
  shows "seg_object ''inode'' (file_segments F s_id name @ [''}'']) =
           Some (quoted (inode_segments (f_inode F) s_id @ [''}'']))"
    and "seg_object ''path'' (file_segments F s_id name @ [''}'']) =
           Some (quoted (path_segments (f_path F) name @ [''}'']))"
    and "seg_object ''dev'' (file_segments F s_id name @ [''}'']) =
           Some (quoted [''major'', '': '', dec32 (p_major (f_path F)), '', '',
                         ''minor'', '': '', dec32 (p_minor (f_path F)), ''}''])"
    and "brace_scan 1 (quoted (file_segments F s_id name @ [''}'' @ post])) =
           (quoted (file_segments F s_id name @ [''}'']), post)"
  using assms
  by (simp_all add: seg_object_def file_segments_def inode_segments_def path_segments_def
      brace_scan_skip)

definition file_text :: "file_parameters \<Rightarrow> string \<Rightarrow> string \<Rightarrow> string" where
  "file_text F s_id name = CHR ''{'' # quoted (file_segments F s_id name @ [''}''])"

definition inode_text :: "file_parameters \<Rightarrow> string \<Rightarrow> string" where
  "inode_text F s_id = CHR ''{'' # quoted (inode_segments (f_inode F) s_id @ [''}''])"

definition path_text :: "file_parameters \<Rightarrow> string \<Rightarrow> string" where
  "path_text F name = CHR ''{'' # quoted (path_segments (f_path F) name @ [''}''])"

definition device_text :: "file_parameters \<Rightarrow> string" where
  "device_text F = CHR ''{'' # quoted [''major'', '': '', dec32 (p_major (f_path F)), '', '',
                         ''minor'', '': '', dec32 (p_minor (f_path F)), ''}'']"

lemmas file_segment_defs = file_segments_def inode_segments_def path_segments_def

lemma file_segments_free:
  assumes "plain s_id" "plain name"
  shows "quote_free (file_segments F s_id name @ [''}''])" "quote_free (inode_segments (f_inode F) s_id @ [''}''])"
    "quote_free (path_segments (f_path F) name @ [''}''])"
  using assms by (simp_all add: file_segment_defs)

lemma file_text_objects:
  assumes "plain s_id" "plain name"
  shows "extract_text (file_text F s_id name) ''inode'' = Some (inode_text F s_id)"
    "extract_text (file_text F s_id name) ''path'' = Some (path_text F name)"
    "extract_text (file_text F s_id name) ''dev'' = Some (device_text F)"
  unfolding file_text_def inode_text_def path_text_def device_text_def
  by (rule extract_text_seg [OF file_segments_objects(1) [OF assms] file_segments_free(1) [OF assms]]
      extract_text_seg [OF file_segments_objects(2) [OF assms] file_segments_free(1) [OF assms]]
      extract_text_seg [OF file_segments_objects(3) [OF assms] file_segments_free(1) [OF assms]]; simp)+

lemma file_texts:
  assumes "plain s_id" "plain name" "s_id \<noteq> []" "name \<noteq> []" "f_digest F \<noteq> []" "i_s_uuid (f_inode F) \<noteq> []"
  shows "key_text (file_text F s_id name) ''flags'' = Some (dec32 (f_flags F))"
    "key_text (file_text F s_id name) ''digest'' = Some (sprint_hex (f_digest F))"
    "key_text (inode_text F s_id) ''uid'' = Some (dec32 (i_uid (f_inode F)))"
    "key_text (inode_text F s_id) ''gid'' = Some (dec32 (i_gid (f_inode F)))"
    "key_text (inode_text F s_id) ''mode'' = Some (CHR ''0'' # sprint_o (unat (i_mode (f_inode F))))"
    "key_text (inode_text F s_id) ''s_magic'' = Some (''0x'' @ sprint_x (unat (i_s_magic (f_inode F))))"
    "key_text (inode_text F s_id) ''s_id'' = Some s_id"
    "key_text (inode_text F s_id) ''s_uuid'' = Some (sprint_hex (i_s_uuid (f_inode F)))"
    "key_text (path_text F name) ''pathname'' = Some name"
    "key_text (device_text F) ''major'' = Some (dec32 (p_major (f_path F)))"
    "key_text (device_text F) ''minor'' = Some (dec32 (p_minor (f_path F)))"
  unfolding file_text_def inode_text_def path_text_def device_text_def
  by (rule key_text_seg, simp add: assms seg_text_def file_segment_defs, simp add: assms file_segment_defs, simp)+

lemma strtoll_words:
  "strtoll (dec32 v) = (int (unat v), False)"
  "strtoll (CHR ''0'' # sprint_o (unat m)) = (int (unat m), False)"
  "strtoll (''0x'' @ sprint_x (unat v)) = (int (unat v), False)"
  for v :: u32 and m :: u16
proof -
  have "unat v < 2 ^ 32" using unsigned_less [of v] by simp
  moreover have "unat m < 2 ^ 16" using unsigned_less [of m] by simp
  ultimately have "unat v < 2 ^ 63" "unat m < 2 ^ 63" by simp_all
  then show "strtoll (dec32 v) = (int (unat v), False)"
    "strtoll (CHR ''0'' # sprint_o (unat m)) = (int (unat m), False)"
    "strtoll (''0x'' @ sprint_x (unat v)) = (int (unat v), False)"
    by (simp_all only: strtoll_sprint_u strtoll_sprint_o strtoll_sprint_x)
qed

text \<open>The rules with the state after the step as a variable that its simplified form instantiates.\<close>

lemma steps_field_to:
  assumes "frame_ok f ((S, en), p, e)" "key_text f key = Some (dec32 w)" "put w S = T"
    and "\<And>q. frame_ok f ((T, en), q, e) \<Longrightarrow> steps fs ((T, en), q, e) \<in> X"
  shows "steps (Cell_get_field key put # fs) ((S, en), p, e) \<in> X"
  using assms(4) by (intro steps_Cell_get_field [OF assms(1,2) strtoll_words(1)]) (simp only: assms(3))

lemma steps_hex_to:
  assumes "frame_ok f ((S, en), p, e)" "key_text f key = Some (''0x'' @ sprint_x (unat w))" "put w S = T"
    and "\<And>q. frame_ok f ((T, en), q, e) \<Longrightarrow> steps fs ((T, en), q, e) \<in> X"
  shows "steps (Cell_get_field key put # fs) ((S, en), p, e) \<in> X"
  using assms(4) by (intro steps_Cell_get_field [OF assms(1,2) strtoll_words(3)]) (simp only: assms(3))

lemma steps_octal_to:
  assumes "frame_ok f ((S, en), p, e)" "key_text f key = Some (CHR ''0'' # sprint_o (unat w))" "put w S = T"
    and "\<And>q. frame_ok f ((T, en), q, e) \<Longrightarrow> steps fs ((T, en), q, e) \<in> X"
  shows "steps (Cell_get_u16 key put # fs) ((S, en), p, e) \<in> X"
  using assms(4) by (intro steps_Cell_get_u16 [OF assms(1,2) strtoll_words(2)]) (simp only: assms(3))

lemma steps_digest_to:
  assumes "frame_ok f ((S, en), p, e)" "key_text f key = Some (sprint_hex bs)" "bs \<noteq> []" "length bs = len"
    and "upd (overwrite bs) S = T"
    and "\<And>q. frame_ok f ((T, en), q, e) \<Longrightarrow> steps fs ((T, en), q, e) \<in> X"
  shows "steps (Cell_get_digest key len upd # fs) ((S, en), p, e) \<in> X"
  using assms(6) by (intro steps_Cell_get_digest [OF assms(1-4)]) (simp only: assms(5))

lemma steps_text_to:
  assumes "frame_ok f ((S, en), p, e)" "key_text f key = Some t" "length t + 1 \<le> fblen"
    and "upd (overwrite (t @ [NUL])) S = T"
    and "\<And>q. frame_ok f ((T, en), q, e) \<Longrightarrow> steps fs ((T, en), q, e) \<in> X"
  shows "steps (Cell_get_text key fblen upd # fs) ((S, en), p, e) \<in> X"
  using assms(5) by (intro steps_Cell_get_text [OF assms(1-3)]) (simp only: assms(4))

lemma steps_name_to:
  assumes "frame_ok f ((S, en), p, e)" "key_text f key = Some t" "get (S, en) = hs_empty"
    and "put (S, en) (hs_of t) = (T, en)"
    and "\<And>q. frame_ok f ((T, en), q, e) \<Longrightarrow> steps fs ((T, en), q, e) \<in> X"
  shows "steps (parse_text (Some key) get put # fs) ((S, en), p, e) \<in> X"
  by (rule steps_parse_text [OF assms(1,2)]) (use assms(3-5) in simp_all)

text \<open>A file that can be printed and read, and what is read for it.\<close>

definition file_printable :: "file_parameters \<Rightarrow> string \<Rightarrow> string \<Rightarrow> bool" where
  "file_printable F s_id name \<longleftrightarrow>
     length (f_digest F) = IDSIZE \<and> length (i_s_uuid (f_inode F)) = 16 \<and>
     length (i_s_id (f_inode F)) = 32 \<and> array_text (i_s_id (f_inode F)) = Some s_id \<and>
     p_pathname (f_path F) = hs_of name \<and> plain s_id \<and> s_id \<noteq> [] \<and> plain name \<and> name \<noteq> []"

definition padded :: "file_parameters \<Rightarrow> string \<Rightarrow> file_parameters" where
  "padded F s_id =
     F\<lparr>f_inode := (f_inode F)\<lparr>i_s_id := s_id @ replicate (32 - length s_id) NUL\<rparr>\<rparr>"

lemma length_cstring_less: "NUL \<in> set bs \<Longrightarrow> length (cstring bs) < length bs"
  by (induction bs) (auto simp: cstring_def)

lemma file_printableD:
  assumes "file_printable F s_id name"
  shows "plain s_id" "plain name" "s_id \<noteq> []" "name \<noteq> []" "f_digest F \<noteq> []" "i_s_uuid (f_inode F) \<noteq> []"
    "length (f_digest F) = IDSIZE" "length (i_s_uuid (f_inode F)) = 16" "length s_id + 1 \<le> 32"
    "p_pathname (f_path F) = hs_of name"
proof -
  have "NUL \<in> set (i_s_id (f_inode F))" "s_id = cstring (i_s_id (f_inode F))" "length (i_s_id (f_inode F)) = 32"
    using assms by (auto simp: file_printable_def array_text_def split: if_splits)
  then show "length s_id + 1 \<le> 32"
    using length_cstring_less [of "i_s_id (f_inode F)"] by simp
qed (use assms in \<open>auto simp: file_printable_def\<close>)

lemma parse_file_steps:
  assumes ok: "file_printable F s_id name" and p: "parser_ok p" "e \<noteq> ERANGE"
    and ev: "extract_text ev ''file'' = Some (file_text F s_id name)"
    and tail: "\<And>g q. frame_ok g ((S\<lparr>ce_file := padded F s_id\<rparr>, hs_of (file_text F s_id name)), q, e) \<Longrightarrow>
          steps fs ((S\<lparr>ce_file := padded F s_id\<rparr>, hs_of (file_text F s_id name)), q, e) \<in> X"
  shows "steps (Cell_parse_file @ fs) ((S\<lparr>ce_file := zero_file\<rparr>, hs_of ev), p, e) \<in> X"
proof -
  note okD = file_printableD [OF ok]
  note objects = file_text_objects [OF okD(1,2)]
  note texts = file_texts [OF okD(1-6)]
  have dev: "seg_has ''dev'' (path_segments (f_path F) name @ [''}''])"
    by (simp add: seg_has_def path_segments_def)
  obtain pre suf c r where has: "find_key_loop (path_text F name) ''dev'' 0 = Some (pre, suf)"
    "drop (length ''dev'' + 4) suf = c # r" "c = DQ \<or> c = CHR ''{''"
    using find_key_seg [OF dev file_segments_free(3) [OF okD(1,2)]] unfolding path_text_def
    by auto
  have file_state: "S\<lparr>ce_file := \<lparr>f_flags = f_flags F, f_digest = f_digest F,
      f_inode = \<lparr>i_uid = i_uid (f_inode F), i_gid = i_gid (f_inode F), i_mode = i_mode (f_inode F),
        i_s_magic = i_s_magic (f_inode F), i_s_id = s_id @ NUL # replicate (31 - length s_id) NUL,
        i_s_uuid = i_s_uuid (f_inode F)\<rparr>,
      f_path = \<lparr>p_major = p_major (f_path F), p_minor = p_minor (f_path F), p_pathname = hs_of name\<rparr>\<rparr>\<rparr> =
      S\<lparr>ce_file := padded F s_id\<rparr>"
  proof -
    have "NUL # replicate (31 - length s_id) NUL = replicate (32 - length s_id) NUL"
      using okD(9) by (simp add: replicate_Suc [symmetric] Suc_diff_le del: replicate_Suc)
    then show ?thesis using okD(10) unfolding padded_def
      by (cases F; cases "f_inode F"; cases "f_path F") simp
  qed
  show ?thesis
    unfolding Cell_parse_file_def append.simps zero_file_def
    apply (rule steps_entry_field [OF p(1) ev p(2)])
    apply (rule steps_entry_narrow, assumption, simp)
    apply (rule steps_field_to, assumption, rule texts, simp)
    apply (rule steps_digest_to, assumption, rule texts, rule okD, rule okD, simp add: okD)
    apply (rule steps_entry_field', assumption, rule objects)
    apply (rule steps_field_to, assumption, rule texts, simp)+
    apply (rule steps_octal_to, assumption, rule texts, simp)
    apply (rule steps_hex_to, assumption, rule texts, simp)
    apply (rule steps_text_to, assumption, rule texts, rule okD, simp add: overwrite_def)
    apply (rule steps_digest_to, assumption, rule texts, rule okD, rule okD, simp add: okD)
    apply (rule steps_entry_field', assumption, rule objects)
    apply (rule steps_name_to, assumption, rule texts, simp, simp)
    apply (rule steps_has_key, assumption, rule has(1), simp add: path_text_def, rule has(2), rule has(3))
    apply (simp only: not_True_eq_False if_False steps_append [symmetric] append.simps)
    apply (rule steps_entry_field', assumption, rule objects)
    apply (rule steps_field_to, assumption, rule texts, simp)
    apply (rule steps_field_to, assumption, rule texts, simp)
    apply (simp only: file_state)
    apply (rule tail, assumption)
    done
qed

section \<open>A printed file in an event\<close>

text \<open>No quoted \<open>field\<close> with an object behind it among the segments, nor at their end.\<close>

definition no_object :: "string \<Rightarrow> string list \<Rightarrow> bool" where
  "no_object field segs \<longleftrightarrow> qfind field '': {'' (segs @ [field]) = None"

definition file_open_segments :: "file_parameters \<Rightarrow> string \<Rightarrow> string \<Rightarrow> string list" where
  "file_open_segments F s_id name =
     [''file_open'', '': {'', ''file'', '': {''] @ file_segments F s_id name @ [''}}'']"

lemma qfind_end: "qfind k p (pre @ [s]) = None \<Longrightarrow> qfind k p (pre @ [t]) = None" if "\<not> is_prefix p t"
  using that by (induction k p pre rule: qfind.induct) (auto split: if_splits)

lemma no_object_skip:
  assumes "no_object field pre"
  shows "qfind field '': {'' (pre @ field # (CHR '':'' # CHR '' '' # CHR ''{'' # t) # ss) =
           Some (pre, field # (CHR '':'' # CHR '' '' # CHR ''{'' # t) # ss)"
  using qfind_skip [of field "'': {''" pre field] assms by (simp add: no_object_def)

lemma quoted_last: "last (c # quoted (ss @ [s @ [d]])) = d"
  by simp

lemma file_open_objects:
  assumes ok: "file_printable F s_id name" and free: "quote_free pre"
    and none: "no_object ''file_open'' pre" "no_object ''file'' (pre @ [''file_open'', '': {''])"
  defines "ev \<equiv> CHR ''{'' # quoted (pre @ file_open_segments F s_id name) @ ''}''"
  shows "\<exists>f. extract_text ev ''file_open'' = Some f"
    and "extract_text ev ''file'' = Some (file_text F s_id name)"
proof -
  note okD = file_printableD [OF ok]
  let ?segs = "pre @ [''file_open'', '': {'', ''file'', '': {''] @ file_segments F s_id name @ [''}}}'']"
  have ev: "ev = CHR ''{'' # quoted ?segs" by (simp add: ev_def file_open_segments_def)
  have segs: "quote_free ?segs" "last (CHR ''{'' # quoted ?segs) = CHR ''}''"
    using free okD(1,2) by (simp_all add: file_segment_defs)
  have scan: "brace_scan 1 (quoted (file_segments F s_id name @ [''}'' @ post])) =
      (quoted (file_segments F s_id name @ [''}'']), post)" for post
    by (rule file_segments_objects(4) [OF okD(1,2)])
  from scan [of "''}}''"] have "seg_object ''file'' ?segs = Some (quoted (file_segments F s_id name @ [''}'']))"
    using no_object_skip [OF none(2), of "[]" "file_segments F s_id name @ [''}}}'']"]
    by (simp add: seg_object_def)
  from extract_text_seg [OF this segs(1) _ segs(2)] show "extract_text ev ''file'' = Some (file_text F s_id name)"
    by (simp add: ev file_text_def)
  have "brace_scan (1 + 1) (quoted (file_segments F s_id name @ [''}'' @ ''}}''])) =
      (quoted (file_segments F s_id name @ [''}'']) @ ''}'', ''}'')"
    by (subst brace_scan_add [OF scan]) simp_all
  then have "\<exists>inside. seg_object ''file_open'' ?segs = Some inside"
    using no_object_skip [OF none(1), of "[]" "[''file'', '': {''] @ file_segments F s_id name @ [''}}}'']"]
    by (simp add: seg_object_def brace_scan_skip)
  then show "\<exists>f. extract_text ev ''file_open'' = Some f"
    using extract_text_seg [OF _ segs(1) _ segs(2), of "''file_open''"] by (auto simp: ev)
qed

lemma parse_file_open_ok:
  assumes "file_printable F s_id name" "quote_free pre" "e \<noteq> ERANGE"
    and "no_object ''file_open'' pre" "no_object ''file'' (pre @ [''file_open'', '': {''])"
  defines "ev \<equiv> CHR ''{'' # quoted (pre @ file_open_segments F s_id name) @ ''}''"
  shows "Cell_parse TSEM_FILE_OPEN ((Cell_Init junk, hs_of ev), e) =
           Ret () (((Cell_Init junk)\<lparr>ce_type := TSEM_FILE_OPEN, ce_file := padded F s_id\<rparr>,
                    hs_of (file_text F s_id name)), e)"
proof -
  let ?S = "(Cell_Init junk)\<lparr>ce_type := TSEM_FILE_OPEN\<rparr>"
  note objects = file_open_objects [OF assms(1,2,4,5), folded ev_def]
  obtain f where f: "extract_text ev ''file_open'' = Some f" using objects(1) by blast
  have S: "?S = ?S\<lparr>ce_file := zero_file\<rparr>" by (simp add: Cell_Init_def)
  have "steps (entry_field ''file_open'' # Cell_parse_file @ []) ((?S\<lparr>ce_file := zero_file\<rparr>, hs_of ev), TSEMparser_Init, e) \<in>
      {r. \<exists>q. r = Ret () ((?S\<lparr>ce_file := padded F s_id\<rparr>, hs_of (file_text F s_id name)), q, e)}"
    by (rule steps_entry_field [OF parser_ok_Init f assms(3)],
        rule parse_file_steps [OF assms(1) _ assms(3) objects(2)]) (auto simp: frame_ok_def)
  then have "Cell_parse_file_open ((?S, hs_of ev), e) =
      Ret () ((?S\<lparr>ce_file := padded F s_id\<rparr>, hs_of (file_text F s_id name)), e)"
    unfolding S [symmetric] by (auto simp: Cell_parse_file_open_def with_parser_def)
  then show ?thesis by (simp add: Cell_parse_def) (simp add: Cell_Init_def)
qed

lemma format_file_open_text:
  assumes "file_printable F s_id name" "ce_type T = TSEM_FILE_OPEN" "ce_file T = F"
  shows "Cell_format (T, hs_of (CHR ''{'' # quoted pre)) =
           Ret () (T, hs_of (CHR ''{'' # quoted (pre @ file_open_segments F s_id name)))"
proof -
  have "join_pieces (format_file F) = Some (quoted ([''file'', '': {''] @ file_segments F s_id name @ [''}'']))"
    by (rule format_file_segments) (use assms(1) in \<open>simp_all add: file_printable_def\<close>)
  then have "join_pieces (cell_pieces T) = Some (quoted (file_open_segments F s_id name))"
    using assms(2,3) by (simp add: cell_pieces_def format_file_open_def join_pieces_append file_open_segments_def)
  then show ?thesis by (simp add: Cell_format_text)
qed

section \<open>The round trip of a file_open event\<close>

text \<open>
  The parameters of a \<open>file_open\<close> event that \<open>Cell_format\<close> appends to an event
  description are read back by \<open>Cell_parse\<close> into a new cell: every number, digest and the path name are those of the
  formatted cell, and the file system identifier is the same up to its terminating NUL, behind which the new cell keeps
  zeros.  The name and the identifier are non-empty and free of quotation marks and braces, and no earlier member of the
  description is an object called \<open>file_open\<close> or \<open>file\<close>.
\<close>
theorem file_open_roundtrip:
  assumes "file_printable (ce_file T) s_id name" "ce_type T = TSEM_FILE_OPEN" "quote_free pre" "e \<noteq> ERANGE"
    and "no_object ''file_open'' pre" "no_object ''file'' (pre @ [''file_open'', '': {''])"
  shows "\<exists>t. Cell_format (T, hs_of (CHR ''{'' # quoted pre)) = Ret () (T, hs_of t) \<and>
     Cell_parse TSEM_FILE_OPEN ((Cell_Init junk, hs_of (t @ ''}'')), e) =
       Ret () (((Cell_Init junk)\<lparr>ce_type := TSEM_FILE_OPEN,
                  ce_file := (ce_file T)\<lparr>f_inode := (f_inode (ce_file T))
                    \<lparr>i_s_id := s_id @ replicate (32 - length s_id) NUL\<rparr>\<rparr>\<rparr>,
                hs_of (file_text (ce_file T) s_id name)), e)"
  by (intro exI conjI, rule format_file_open_text [OF assms(1,2) refl])
    (use parse_file_open_ok [OF assms(1,3,4,5,6)] in \<open>simp add: padded_def\<close>)

definition demo_file :: file_parameters where
  "demo_file = \<lparr>f_flags = 0x8000, f_digest = replicate IDSIZE (CHR 0xA5),
     f_inode = \<lparr>i_uid = 1000, i_gid = 100, i_mode = 33188, i_s_magic = 0xEF53,
                i_s_id = ''vda1'' @ replicate 28 NUL, i_s_uuid = replicate 16 (CHR 0x3C)\<rparr>,
     f_path = \<lparr>p_major = 253, p_minor = 1, p_pathname = hs_of ''/etc/passwd''\<rparr>\<rparr>"

definition demo_file_cell :: "Cell_State \<Rightarrow> Cell_State" where
  "demo_file_cell junk = (Cell_Init junk)\<lparr>ce_type := TSEM_FILE_OPEN, ce_file := demo_file\<rparr>"

lemma demo_file_ok: "file_printable demo_file ''vda1'' ''/etc/passwd''"
  by (simp add: file_printable_def demo_file_def array_text_def plain_def cstring_def)

lemma file_open_roundtrip_witness:
  "\<exists>t. Cell_format (demo_file_cell demo_cell, hs_of (CHR ''{'' # quoted [''event'', '': {}, ''])) =
          Ret () (demo_file_cell demo_cell, hs_of t) \<and>
     Cell_parse TSEM_FILE_OPEN ((Cell_Init demo_cell, hs_of (t @ ''}'')), 0) =
       Ret () ((demo_file_cell demo_cell,
                hs_of (file_text demo_file ''vda1'' ''/etc/passwd'')), 0)"
proof -
  have "file_printable (ce_file (demo_file_cell demo_cell)) ''vda1'' ''/etc/passwd''"
    "ce_type (demo_file_cell demo_cell) = TSEM_FILE_OPEN"
    by (simp_all add: demo_file_cell_def demo_file_ok)
  from file_open_roundtrip [OF this, of "[''event'', '': {}, '']" 0 demo_cell] show ?thesis
    by (simp add: no_object_def ERANGE_def demo_file_cell_def demo_file_def numeral_eq_Suc)
qed

end
