(* ===== verification/HurdProps.thy ===== *)
theory HurdProps
  imports HString HGaggle
begin

text \<open>
  The properties of the base objects, over their C states: the Fibonacci sequence that sizes memory, the byte buffer
  with its exact limit, and the string.
\<close>

section \<open>The Fibonacci sequence\<close>

text \<open>The loop of \<open>getAbove\<close> stops at the first number that is large enough; behind the last one it gives up.\<close>

lemma getAbove_first:
  assumes "k \<le> fib_last"
  shows "Fibsequence_getAbove to (fib_state k) =
     (if unat to \<le> fib_max
      then (let l = (LEAST l. k \<le> l \<and> unat to \<le> fib_cap l) in Some (of_nat (fib_cap l), fib_state l))
      else Some (- 1, \<lparr>fs_previous = 0, fs_current = - 1\<rparr>))"
  using assms
proof (induction "fib_last - k" arbitrary: k)
  case 0
  then have k: "k = fib_last" by simp
  have get: "Fibsequence_get (fib_state fib_last) = of_nat fib_max"
    unfolding fib_cap_last [symmetric] by (simp add: Fibsequence_get_def fib_state_def fib_cap_def)
  have le: "to \<le> of_nat fib_max \<longleftrightarrow> unat to \<le> fib_max"
    by (simp add: word_le_nat_alt fib_max_def)
  have least: "(LEAST l. fib_last \<le> l \<and> unat to \<le> fib_cap l) = fib_last" if "unat to \<le> fib_max"
    using that by (intro Least_equality) (simp_all add: fib_cap_last)
  show ?case
    using get_wraps le least unfolding k
    by (subst Fibsequence_getAbove.simps) (simp add: Let_def next_fib_state get fib_cap_last)
next
  case (Suc n)
  then have k: "k \<le> fib_last" "Suc k \<le> fib_last" "n = fib_last - Suc k" by simp_all
  have get: "Fibsequence_get (fib_state i) = of_nat (fib_cap i)" for i
    by (simp add: Fibsequence_get_def fib_state_def fib_cap_def)
  have le: "to \<le> Fibsequence_get (fib_state k) \<longleftrightarrow> unat to \<le> fib_cap k"
    by (simp add: word_le_nat_alt get_fib_state [OF k(1)])
  have mono: "\<not> Fibsequence_get (fib_state (Suc k)) < Fibsequence_get (fib_state k)"
    by (simp add: word_less_nat_alt get_fib_state [OF k(1)] get_fib_state [OF k(2)] not_less fib_cap_Suc)
  show ?case
  proof (cases "unat to \<le> fib_cap k")
    case True
    then have "(LEAST l. k \<le> l \<and> unat to \<le> fib_cap l) = k" by (intro Least_equality) simp_all
    moreover have "unat to \<le> fib_max" using True fib_cap_le_max [OF k(1)] by simp
    ultimately show ?thesis
      using True le by (subst Fibsequence_getAbove.simps) (simp add: Let_def get)
  next
    case False
    then have same: "(k \<le> l \<and> unat to \<le> fib_cap l) = (Suc k \<le> l \<and> unat to \<le> fib_cap l)" for l
      by (metis Suc_leD Suc_leI le_neq_implies_less)
    from False le mono have "Fibsequence_getAbove to (fib_state k) = Fibsequence_getAbove to (fib_state (Suc k))"
      by (subst Fibsequence_getAbove.simps) (simp add: Let_def next_fib_state)
    also note Suc.hyps(1) [OF k(3,2)]
    finally show ?thesis unfolding same .
  qed
qed

text \<open>
  C24: The endless loop of \<open>getAbove\<close> ends from every state the sequence is in before it wraps:
  it moves to the first Fibonacci number that is not below the argument, and it returns the largest
  32 bit number when there is none.  The comment in front of the method promises a number that is larger than the
  argument; a Fibonacci number at or behind the state is returned itself.
\<close>

theorem getAbove_terminates:
  assumes "k \<le> fib_last"
  shows "Fibsequence_getAbove to (fib_state k) =
     (if unat to \<le> fib_max
      then (let l = (LEAST l. k \<le> l \<and> unat to \<le> fib_cap l) in Some (of_nat (fib_cap l), fib_state l))
      else Some (- 1, \<lparr>fs_previous = 0, fs_current = - 1\<rparr>))"
  by (rule getAbove_first [OF assms])

theorem getAbove_terminates_witness:
  "Fibsequence_getAbove 4000000000 Fibsequence_init_state = Some (- 1, \<lparr>fs_previous = 0, fs_current = - 1\<rparr>)"
  using getAbove_terminates [of 0 4000000000] by (simp add: init_is_fib_state fib_max_def)

section \<open>The limit of a buffer\<close>

lemma get_fib_46: "unat (Fibsequence_get (fib_state 46)) = 512559680"
  by (simp add: Fibsequence_get_def fib_state_def fib_pair_46)

text \<open>Behind the last Fibonacci number below \<open>2^32\<close> the difference wraps, and the growth loop ends.\<close>

lemma Buffer_grow_beyond:
  assumes "k \<le> fib_last" "used \<le> fib_cap k" "fib_max < used + cnt" "512559680 < used" "cnt < 2 ^ 63" "used < 2 ^ 63"
  shows "Buffer_grow cnt used (fib_state k) = Some (fib_state 46)"
  using assms(1,2)
proof (induction "fib_last - k" arbitrary: k)
  case 0
  then have k: "Suc k = 46" by (simp add: fib_last_def)
  have "(512559680 - int used) mod 2 ^ 64 = 512559680 - int used + 2 ^ 64"
  proof -
    have "(512559680 - int used) mod 2 ^ 64 = (512559680 - int used + 2 ^ 64) mod 2 ^ 64"
      by (rule mod_add_self2 [symmetric])
    also have "\<dots> = 512559680 - int used + 2 ^ 64"
      by (rule mod_pos_pos_trivial) (use assms(4,6) in simp_all)
    finally show ?thesis .
  qed
  then have "int cnt \<le> (512559680 - int used) mod 2 ^ 64" using assms(5,6) by simp
  then have "\<not> Buffer_free used (fib_state 46) < cnt"
    by (simp add: Buffer_free_def get_fib_46)
  then show ?case
    by (subst Buffer_grow.simps) (simp add: Let_def next_fib_state k)
next
  case (Suc n)
  then have k: "Suc k \<le> fib_last" "n = fib_last - Suc k" by simp_all
  have used: "used \<le> fib_cap (Suc k)" using Suc.prems(2) fib_cap_Suc le_trans by blast
  have "Buffer_free used (fib_state (Suc k)) < cnt"
    using Buffer_free_fib [OF k(1) used] fib_cap_le_max [OF k(1)] used assms(3) by simp
  with Suc.hyps(1) [OF k(2,1) used] show ?case
    by (subst Buffer_grow.simps) (simp add: Let_def next_fib_state)
qed

lemma Buffer_add_beyond:
  assumes ok: "buffer_ok S" and room: "fib_max < bf_used S + length src"
    and used: "512559680 < bf_used S" "length src < 2 ^ 63"
  shows "if mem 512559680 then Buffer_add mem src S = Undef
     else \<exists>T. Buffer_add mem src S = Fail T \<and> bf_poisoned T"
proof -
  obtain k m where k: "k \<le> fib_last" "bf_seqn S = fib_state k" "bf_used S \<le> fib_cap k" "\<not> bf_poisoned S"
    "bf_mem S = Some m" "bf_used S \<le> length m"
    using ok used by (auto simp: buffer_ok_def split: option.splits)
  have bound: "bf_used S \<le> fib_max" using k(3) fib_cap_le_max [OF k(1)] by simp
  have "Buffer_free (bf_used S) (fib_state k) < length src"
    using Buffer_free_fib [OF k(1,3)] fib_cap_le_max [OF k(1)] room k(3) by simp
  moreover have "Buffer_grow (length src) (bf_used S) (fib_state k) = Some (fib_state 46)"
    by (rule Buffer_grow_beyond [OF k(1,3) room used]) (use bound in \<open>simp add: fib_max_def\<close>)
  ultimately show ?thesis
    using k used(1) by (simp add: Buffer_add_def Buffer_do_alloc_def Buffer_store_def get_fib_46)
qed

text \<open>
  With not more than 512559680 bytes in use the difference does not wrap there, and the next number of the wrapped
  sequence, 3483774753, leaves more room than the largest Fibonacci number.
\<close>

lemma get_fib_47: "unat (Fibsequence_get (fib_state 47)) = 3483774753"
  using fib_pair.simps(2) [of 46]
  by (simp add: Fibsequence_get_def fib_state_def fib_pair_46 del: fib_pair.simps)

lemma Buffer_free_state:
  assumes "used \<le> unat (Fibsequence_get s)"
  shows "Buffer_free used s = unat (Fibsequence_get s) - used"
proof -
  define n where "n = unat (Fibsequence_get s)"
  have "n < 2 ^ LENGTH(32)" unfolding n_def by (rule unsigned_less)
  then have n: "n < 2 ^ 32" by simp
  then have "(int n - int used) mod 2 ^ 64 = int n - int used"
    using assms unfolding n_def [symmetric] by (intro mod_pos_pos_trivial) simp_all
  with assms show ?thesis unfolding Buffer_free_def n_def [symmetric] by (simp add: nat_diff_distrib)
qed

lemma Buffer_grow_over:
  assumes "k \<le> fib_last" "used \<le> fib_cap k" "fib_max < used + cnt" "used \<le> 512559680" "used + cnt \<le> 3483774753"
  shows "Buffer_grow cnt used (fib_state k) = Some (fib_state 47)"
  using assms(1,2)
proof (induction "fib_last - k" arbitrary: k)
  case 0
  then have k: "Suc k = 46" by (simp add: fib_last_def)
  have "Buffer_free used (fib_state 46) < cnt" "\<not> Buffer_free used (fib_state 47) < cnt"
    using assms(3-5) Buffer_free_state [of used "fib_state 46"] Buffer_free_state [of used "fib_state 47"]
    by (simp_all add: get_fib_46 get_fib_47 fib_max_def)
  moreover have "snd (Fibsequence_next (fib_state 46)) = fib_state 47" using next_fib_state [of 46] by simp
  ultimately show ?case
    by (subst Buffer_grow.simps, simp add: Let_def next_fib_state k, subst Buffer_grow.simps) (simp add: Let_def)
next
  case (Suc n)
  then have k: "Suc k \<le> fib_last" "n = fib_last - Suc k" by simp_all
  have used: "used \<le> fib_cap (Suc k)" using Suc.prems(2) fib_cap_Suc le_trans by blast
  have "Buffer_free used (fib_state (Suc k)) < cnt"
    using Buffer_free_fib [OF k(1) used] fib_cap_le_max [OF k(1)] used assms(3) by simp
  with Suc.hyps(1) [OF k(2,1) used] show ?case
    by (subst Buffer_grow.simps) (simp add: Let_def next_fib_state)
qed

text \<open>An append for which the sequence stops at a state with room: it succeeds if the memory is provided.\<close>

lemma Buffer_add_at:
  assumes "\<not> bf_poisoned S" "bf_used S \<le> length (case bf_mem S of None \<Rightarrow> [] | Some m \<Rightarrow> m)"
    and "(if length src > Buffer_free (bf_used S) (bf_seqn S)
          then Buffer_grow (length src) (bf_used S) (bf_seqn S) else Some (bf_seqn S)) = Some s"
    and "bf_used S + length src \<le> unat (Fibsequence_get s)"
  shows "if mem (unat (Fibsequence_get s))
     then \<exists>T. Buffer_add mem src S = Ret () T \<and> \<not> bf_poisoned T \<and> Buffer_size T = Buffer_size S + length src \<and>
            b_data (buf_of T) = b_data (buf_of S) @ src
     else \<exists>T. Buffer_add mem src S = Fail T \<and> bf_poisoned T"
  using assms
  by (auto simp: Buffer_add_def Buffer_do_alloc_def Buffer_store_def Buffer_size_def buf_of_def min_def
      split: option.splits)

lemma Buffer_add_over:
  assumes ok: "buffer_ok S" and room: "fib_max < bf_used S + length src"
    and small: "bf_used S \<le> 512559680" "bf_used S + length src \<le> 3483774753"
  shows "if mem 3483774753
     then \<exists>T. Buffer_add mem src S = Ret () T \<and> \<not> bf_poisoned T \<and> Buffer_size T = Buffer_size S + length src \<and>
            b_data (buf_of T) = b_data (buf_of S) @ src
     else \<exists>T. Buffer_add mem src S = Fail T \<and> bf_poisoned T"
proof -
  obtain k where k: "k \<le> fib_last" "bf_seqn S = fib_state k" "bf_used S \<le> fib_cap k" "\<not> bf_poisoned S"
    "bf_used S \<le> length (case bf_mem S of None \<Rightarrow> [] | Some m \<Rightarrow> m)"
    using ok by (auto simp: buffer_ok_def split: option.splits)
  have "Buffer_free (bf_used S) (fib_state k) < length src"
    using Buffer_free_fib [OF k(1,3)] fib_cap_le_max [OF k(1)] room k(3) by simp
  moreover have "Buffer_grow (length src) (bf_used S) (fib_state k) = Some (fib_state 47)"
    by (rule Buffer_grow_over [OF k(1,3) room small])
  ultimately show ?thesis
    using Buffer_add_at [OF k(4,5), of src "fib_state 47" mem] small(2) k(2) by (simp add: get_fib_47)
qed

text \<open>Within the limit the memory that is asked for is not above it.\<close>

lemma Buffer_add_within:
  assumes ok: "buffer_ok S" and room: "bf_used S + length src \<le> fib_max"
  shows "\<exists>n. bf_used S + length src \<le> n \<and> n \<le> fib_max \<and>
     (if mem n
      then \<exists>T. Buffer_add mem src S = Ret () T \<and> buffer_ok T \<and> Buffer_size T = Buffer_size S + length src \<and>
             b_data (buf_of T) = b_data (buf_of S) @ src
      else \<exists>T. Buffer_add mem src S = Fail T \<and> bf_poisoned T)"
proof -
  obtain k where k: "k \<le> fib_last" "bf_seqn S = fib_state k" "bf_used S \<le> fib_cap k" "\<not> bf_poisoned S"
    "bf_used S \<le> length (case bf_mem S of None \<Rightarrow> [] | Some m \<Rightarrow> m)"
    using ok by (auto simp: buffer_ok_def split: option.splits)
  obtain l where l: "l \<le> fib_last" "bf_used S + length src \<le> fib_cap l"
    "(if length src > Buffer_free (bf_used S) (fib_state k)
      then Buffer_grow (length src) (bf_used S) (fib_state k) else Some (fib_state k)) = Some (fib_state l)"
  proof (cases "length src > Buffer_free (bf_used S) (fib_state k)")
    case True
    then have "fib_cap k < bf_used S + length src" using Buffer_free_fib [OF k(1,3)] by simp
    with Buffer_grow_fib [OF k(1,3) _ room] True that show ?thesis by metis
  next
    case False
    then have "bf_used S + length src \<le> fib_cap k" using k(3) Buffer_free_fib [OF k(1,3)] by simp
    with False k(1) that [of k] show ?thesis by simp
  qed
  note at = Buffer_add_at [OF k(4,5), of src "fib_state l" mem, unfolded k(2) get_fib_state [OF l(1)], OF l(3,2)]
  from Buffer_add_refines [OF ok room] obtain T where
    T: "Buffer_add plenty src S = Ret () T" "buffer_ok T" by auto
  have "Buffer_add mem src S = Buffer_add plenty src S" if "mem (fib_cap l)"
    unfolding Buffer_add_def k(2) l(3) using that
    by (simp add: Buffer_do_alloc_def get_fib_state [OF l(1)])
  with at T show ?thesis
    by (intro exI [of _ "fib_cap l"]) (use l fib_cap_le_max [OF l(1)] in \<open>auto split: if_splits\<close>)
qed

text \<open>
  C22: An append to a buffer in order, by what is in use and what is appended.  Up to 2971215073 bytes
  in all, the largest Fibonacci number of 32 bits, it keeps the stored bytes, adds the new ones behind them and
  keeps the buffer in order.  Beyond that the size of the memory wraps: with more than 512559680 bytes
  in use the memory is reallocated to 512559680 bytes and the append writes outside of it; with fewer
  bytes in use, and up to 3483774753 bytes in all, the append still succeeds.  In every case a failed allocation makes the
  append fail, and the buffer is poisoned.
\<close>

theorem buffer_limit:
  assumes "buffer_ok S" "length src < 2 ^ 63"
  shows "if bf_used S + length src \<le> 2971215073
     then \<exists>n. bf_used S + length src \<le> n \<and> n \<le> 2971215073 \<and>
        (if mem n
         then \<exists>T. Buffer_add mem src S = Ret () T \<and> buffer_ok T \<and> Buffer_size T = Buffer_size S + length src \<and>
                b_data (buf_of T) = b_data (buf_of S) @ src
         else \<exists>T. Buffer_add mem src S = Fail T \<and> bf_poisoned T)
     else if 512559680 < bf_used S
     then (if mem 512559680 then Buffer_add mem src S = Undef
           else \<exists>T. Buffer_add mem src S = Fail T \<and> bf_poisoned T)
     else bf_used S + length src \<le> 3483774753 \<longrightarrow>
       (if mem 3483774753
        then \<exists>T. Buffer_add mem src S = Ret () T \<and> \<not> bf_poisoned T \<and> Buffer_size T = Buffer_size S + length src \<and>
               b_data (buf_of T) = b_data (buf_of S) @ src
        else \<exists>T. Buffer_add mem src S = Fail T \<and> bf_poisoned T)"
proof (cases "bf_used S + length src \<le> fib_max")
  case True
  with Buffer_add_within [OF assms(1) True, of mem] show ?thesis by (simp add: fib_max_def)
next
  case False
  with Buffer_add_beyond [OF assms(1) _ _ assms(2), of mem] Buffer_add_over [OF assms(1), of src mem]
  show ?thesis by (simp add: fib_max_def)
qed

definition full_buffer :: Buffer_State where
  "full_buffer = \<lparr>bf_poisoned = False, bf_used = 2971215073, bf_mem = Some (replicate 2971215073 NUL), bf_seqn = fib_state 45\<rparr>"

lemma full_buffer_ok: "buffer_ok full_buffer"
  using fib_cap_last unfolding buffer_ok_def
  by (auto simp: full_buffer_def fib_last_def fib_max_def intro!: exI [of _ 45])

theorem buffer_limit_witness:
  "(\<exists>T. Buffer_add plenty ''abc'' Buffer_Init = Ret () T \<and> buffer_ok T \<and> b_data (buf_of T) = ''abc'') \<and>
   Buffer_add plenty ''a'' full_buffer = Undef \<and>
   (\<exists>T. Buffer_add plenty (replicate 3000000000 NUL) Buffer_Init = Ret () T \<and> Buffer_size T = 3000000000) \<and>
   (\<exists>T. Buffer_add (\<lambda>_. False) ''abc'' Buffer_Init = Fail T \<and> bf_poisoned T)"
proof -
  have init: "bf_used Buffer_Init = 0" "b_data (buf_of Buffer_Init) = []" "Buffer_size Buffer_Init = 0"
    by (simp_all add: Buffer_Init_def buf_of_def Buffer_size_def)
  have full: "bf_used full_buffer = 2971215073" by (simp add: full_buffer_def)
  note limit = buffer_limit [OF buffer_ok_Init]
  from limit [of "''abc''" plenty] init
  have "\<exists>T. Buffer_add plenty ''abc'' Buffer_Init = Ret () T \<and> buffer_ok T \<and> b_data (buf_of T) = ''abc''" by auto
  moreover from buffer_limit [OF full_buffer_ok, of "''a''" plenty] full
  have "Buffer_add plenty ''a'' full_buffer = Undef" by simp
  moreover from limit [of "replicate 3000000000 NUL" plenty] init
  have "\<exists>T. Buffer_add plenty (replicate 3000000000 NUL) Buffer_Init = Ret () T \<and> Buffer_size T = 3000000000" by auto
  moreover from limit [of "''abc''" "\<lambda>_. False"] init
  have "\<exists>T. Buffer_add (\<lambda>_. False) ''abc'' Buffer_Init = Fail T \<and> bf_poisoned T" by auto
  ultimately show ?thesis by blast
qed

section \<open>Strings\<close>

text \<open>
  C23: On a string object in order, and up to the limit of its buffer, \<open>add\<close>,
  \<open>add_sprintf\<close> and \<open>reset\<close> keep it in order and do to the text what the abstract string does; \<open>get\<close> and
  \<open>size\<close> show the text and its length.  This holds of \<open>add_sprintf\<close> for texts below 2147483647 bytes: a longer
  one fails and marks the object, and for this length itself the \<open>int\<close> that counts the bytes overflows.
\<close>

theorem string_refinement:
  assumes "string_ok S" "NUL \<notin> set t" "bf_used (str_buffer S) + length t + 1 \<le> 2971215073"
  shows "(\<exists>T. String_add plenty t S = Ret () T \<and> string_ok T \<and> hs_add t (hstr_of S) = Ret () (hstr_of T)) \<and>
     (if length t < 2147483647
      then \<exists>T. String_add_sprintf plenty t S = Ret () T \<and> string_ok T \<and> hs_add t (hstr_of S) = Ret () (hstr_of T)
      else String_add_sprintf plenty t S = (if length t = 2147483647 then Undef else Fail (S\<lparr>str_poisoned := True\<rparr>))) \<and>
     string_ok (String_reset S) \<and> hstr_of (String_reset S) = hs_reset (hstr_of S) \<and>
     String_get S = hs_get (hstr_of S) \<and> String_size S = hs_size (hstr_of S)"
proof -
  have "\<not> h_poisoned (hstr_of S)"
    using assms(1) by (simp add: hstr_of_def string_ok_def buffer_ok_def)
  then have get: "String_get S = hs_get (hstr_of S)" by (simp add: hs_get_def hstr_of_def)
  have "String_add_sprintf plenty t S = (if length t = 2147483647 then Undef else Fail (S\<lparr>str_poisoned := True\<rparr>))"
    if "\<not> length t < 2147483647" using that by (simp add: String_add_sprintf_def INT_MAX_def)
  with get String_add_refines [OF assms(1,2)] String_add_sprintf_refines [OF assms(1,2)] assms(3)
    String_reset_refines [OF assms(1)] String_size_refines [OF assms(1)]
  show ?thesis by (simp add: fib_max_def INT_MAX_def)
qed

theorem string_refinement_witness:
  "(\<exists>T. String_add plenty ''seal'' String_Init = Ret () T \<and> string_ok T \<and> hs_add ''seal'' (hstr_of String_Init) = Ret () (hstr_of T)) \<and>
   String_add_sprintf plenty (replicate 2200000000 CHR ''a'') String_Init = Fail (String_Init\<lparr>str_poisoned := True\<rparr>)"
  using string_refinement [OF string_ok_Init, of "''seal''"]
    string_refinement [OF string_ok_Init, of "replicate 2200000000 CHR ''a''"]
  by (simp add: String_Init_def Buffer_Init_def)

end
