(* ===== verification/EventParser.thy ===== *)
theory EventParser
  imports TSEMparser
begin

text \<open>
  The parser of encoded event descriptions (\<open>SecurityModel/EventParser.c\<close>): fields are written
  \<open>name{key=value, ...}\<close>.  Its objects have the shape of those of the JSON parser, and the same library calls.
\<close>

section \<open>State\<close>

record EventParser_State =
  ep_poisoned :: bool
  ep_field :: hstr
  ep_key_value :: hstr

definition EventParser_Init :: EventParser_State where
  "EventParser_Init = \<lparr>ep_poisoned = False, ep_field = hs_empty, ep_key_value = hs_empty\<rparr>"

section \<open>Extracting a field\<close>

text \<open>
  The search for the name of a field: at the start of the text or behind a blank, with a brace behind it.  Without a
  match the search goes on behind the occurrence; for an empty name it never ends.
\<close>

function field_loop :: "string \<Rightarrow> string \<Rightarrow> nat \<Rightarrow> (string \<times> string, unit) res" where
  "field_loop ev field fp =
     (case strstr (drop fp ev) field of
        None \<Rightarrow> Fail ()
      | Some (pre, suf) \<Rightarrow>
          let before = take fp ev @ pre
          in if (before = [] \<or> last before = CHR '' '') \<and> take 1 (drop (length field) suf) = ''{''
             then Ret (before, suf) ()
             else if field = [] then Undef
             else field_loop ev field (length before + length field))"
  by pat_completeness auto
termination
proof (relation "measure (\<lambda>(ev, field, fp). length ev - fp)", goal_cases)
  case (2 ev field fp x pre suf before)
  have len: "length pre + length field \<le> length ev - fp"
    using 2 strstr_length [of "drop fp ev" field pre suf] by auto
  moreover have field: "0 < length field" using 2 by simp
  ultimately have "fp < length ev" by linarith
  moreover have "before = take fp ev @ pre" using 2 by simp
  ultimately have "length before = fp + length pre" "fp + length pre + length field \<le> length ev" using len by simp_all
  with field show ?case by (simp only: in_measure prod.case)
qed simp

declare field_loop.simps [simp del]

text \<open>The copy loop runs at least once: an empty value gives the character that ends it.\<close>

definition copied :: "string \<Rightarrow> string \<Rightarrow> string" where
  "copied val start = (if val = [] then take 1 start else val)"

definition EventParser_extract_field ::
  "hstr \<Rightarrow> string \<Rightarrow> EventParser_State \<Rightarrow> (unit, EventParser_State) res" where
  "EventParser_extract_field event field S =
     (if ep_poisoned S then Fail S
      else if h_poisoned event then Fail S
      else
        (case hs_get event of
           None \<Rightarrow> Undef
         | Some ev \<Rightarrow>
             (case field_loop ev field 0 of
                Undef \<Rightarrow> Undef
              | Fail _ \<Rightarrow> Fail S
              | Ret (_, suf) _ \<Rightarrow>
                  let start = drop (length field + 1) suf
                  in (case strchr start (CHR ''}'') of
                        None \<Rightarrow> Fail S
                      | Some (val, _) \<Rightarrow>
                          let S1 = S\<lparr>ep_field := copy_chars (copied val start) (ep_field S)\<rparr>
                          in if h_poisoned (ep_field S1) then Fail S1 else Ret () S1))))"

definition EventParser_get_field :: "EventParser_State \<Rightarrow> hstr \<Rightarrow> (unit, hstr) res" where
  "EventParser_get_field S str =
     (if ep_poisoned S then Fail str
      else if h_poisoned str then Fail str
      else case hs_get (ep_field S) of None \<Rightarrow> Undef | Some t \<Rightarrow> hs_add t str)"

section \<open>Looking up a key\<close>

text \<open>
  The search for a key: at the start of the field or behind a blank, with an equality sign behind it.  Without a match
  it goes on behind the next comma and blank.
\<close>

function entry_loop :: "string \<Rightarrow> string \<Rightarrow> nat \<Rightarrow> (string \<times> string) option" where
  "entry_loop field key fp =
     (case strstr (drop fp field) key of
        None \<Rightarrow> None
      | Some (pre, suf) \<Rightarrow>
          let before = take fp field @ pre
          in if (before = [] \<or> last before = CHR '' '') \<and> take 1 (drop (length key) suf) = ''=''
             then Some (before, suf)
             else (case strstr suf '', '' of
                     None \<Rightarrow> None
                   | Some (skipped, _) \<Rightarrow> entry_loop field key (length before + length skipped + 2)))"
  by pat_completeness auto
termination
proof (relation "measure (\<lambda>(field, key, fp). length field - fp)", goal_cases)
  case (2 field key fp x pre suf before y skipped rest)
  have "length (drop fp field) = length pre + length suf"
    using 2 strstr_Some [of "drop fp field" key pre suf] by auto
  moreover have "length skipped + 2 \<le> length suf"
    using 2 strstr_length [of suf "'', ''" skipped rest] by auto
  moreover have "before = take fp field @ pre" using 2 by simp
  ultimately have "length before = fp + length pre" "fp + length pre + length skipped + 2 \<le> length field" by simp_all
  then show ?case by simp
qed simp

declare entry_loop.simps [simp del]

definition EventParser_get_key :: "string \<Rightarrow> EventParser_State \<Rightarrow> (unit, EventParser_State) res" where
  "EventParser_get_key key S =
     (let S0 = S\<lparr>ep_key_value := hs_reset (ep_key_value S)\<rparr>
      in (case hs_get (ep_field S) of
            None \<Rightarrow> Undef
          | Some field \<Rightarrow>
              (case entry_loop field key 0 of
                 None \<Rightarrow> Fail S0
               | Some (_, suf) \<Rightarrow>
                   let start = drop (length key + 1) suf
                   in (case strchr start (CHR '','') of
                         None \<Rightarrow> zoom (\<lambda>v. S0\<lparr>ep_key_value := v\<rparr>) (hs_add start (ep_key_value S0))
                       | Some (val, _) \<Rightarrow>
                           let S1 = S0\<lparr>ep_key_value := copy_chars (copied val start) (ep_key_value S0)\<rparr>
                           in if h_poisoned (ep_key_value S1) then Fail S1 else Ret () S1))))"

text \<open>A \<open>None\<close> key is the NULL pointer, which selects the field itself.\<close>

definition ep_value :: "string option \<Rightarrow> EventParser_State \<Rightarrow> (hstr, EventParser_State) res" where
  "ep_value key S =
     (case key of
        Some k \<Rightarrow> res_bind (EventParser_get_key k S) (\<lambda>_ S1. Ret (ep_key_value S1) S1)
      | None \<Rightarrow> Ret (ep_field S) S)"

definition EventParser_get_integer ::
  "string option \<Rightarrow> EventParser_State \<times> int \<Rightarrow> (u64, EventParser_State \<times> int) res" where
  "EventParser_get_integer key = (\<lambda>(S, errno).
     (case ep_value key S of
        Undef \<Rightarrow> Undef
      | Fail S1 \<Rightarrow> Fail (S1, errno)
      | Ret v S1 \<Rightarrow>
          (case hs_get v of
             None \<Rightarrow> Undef
           | Some t \<Rightarrow>
               let (value, range) = strtoll t;
                   errno1 = (if range then ERANGE else errno)
               in if errno1 = ERANGE then Fail (S1, errno1)
                  else Ret (word_of_int value) (S1, errno1))))"

definition EventParser_get_text ::
  "string option \<Rightarrow> EventParser_State \<times> hstr \<Rightarrow> (unit, EventParser_State \<times> hstr) res" where
  "EventParser_get_text key = (\<lambda>(S, text).
     (case ep_value key S of
        Undef \<Rightarrow> Undef
      | Fail S1 \<Rightarrow> Fail (S1, text)
      | Ret v S1 \<Rightarrow>
          (case hs_get v of
             None \<Rightarrow> Undef
           | Some t \<Rightarrow> zoom (\<lambda>x. (S1, x)) (hs_add t text))))"

definition EventParser_reset :: "EventParser_State \<Rightarrow> EventParser_State" where
  "EventParser_reset S = S\<lparr>ep_field := hs_reset (ep_field S)\<rparr>"

end
