(* ===== verification/TSEMevent.thy ===== *)
theory TSEMevent
  imports EventParser
begin

text \<open>
  The object that reads the events that a modeling domain exports (\<open>lib/TSEMevent.c\<close>): it frames the lines of
  the export stream, extracts fields of the current line, and encodes events in the notation of \<open>EventParser.c\<close>.

  What \<open>ioctl(FIONREAD)\<close> and \<open>read\<close> return is an argument of \<open>read_event\<close>.  \<open>fetch_event\<close> moves
  the bytes behind a line to the front with \<open>memcpy\<close>, which is undefined when the two regions overlap, that is, when
  more bytes are left than the line and its newline have.
\<close>

section \<open>State\<close>

datatype TSEM_export_type =
  TSEM_EVENT_AGGREGATE | TSEM_EVENT_EVENT | TSEM_EVENT_ASYNC_EVENT | TSEM_EVENT_LOG | TSEM_EVENT_UNKNOWN

definition TSEM_events :: "(TSEM_export_type \<times> string) list" where
  "TSEM_events =
     [(TSEM_EVENT_AGGREGATE, ''aggregate''),
      (TSEM_EVENT_EVENT, ''event''),
      (TSEM_EVENT_ASYNC_EVENT, ''async_event''),
      (TSEM_EVENT_LOG, ''log'')]"

record TSEMevent_State =
  te_poisoned :: bool
  te_type :: TSEM_export_type
  te_bufr :: buf
  te_size :: u64
  te_event :: hstr
  te_field :: hstr
  te_parser :: TSEMparser_State

definition TSEMevent_Init :: TSEMevent_State where
  "TSEMevent_Init =
     \<lparr>te_poisoned = False, te_type = TSEM_EVENT_UNKNOWN, te_bufr = buf_empty, te_size = 0,
      te_event = hs_empty, te_field = hs_empty, te_parser = TSEMparser_Init\<rparr>"

section \<open>The stream of lines\<close>

definition TSEMevent_set_event :: "hstr \<Rightarrow> TSEMevent_State \<Rightarrow> (unit, TSEMevent_State) res" where
  "TSEMevent_set_event event S =
     (case hs_get event of
        None \<Rightarrow> Undef
      | Some t \<Rightarrow> zoom (\<lambda>e. S\<lparr>te_event := e\<rparr>) (hs_add t (hs_reset (te_event S))))"

text \<open>
  The loop that adds bytes until the buffer has the size; it never ends when a byte is not added.
\<close>

fun grow_loop :: "nat \<Rightarrow> buf \<Rightarrow> (unit, buf) res" where
  "grow_loop 0 b = Ret () b"
| "grow_loop (Suc n) b =
     (case buf_add [NUL] b of Ret _ b1 \<Rightarrow> grow_loop n b1 | _ \<Rightarrow> Undef)"

text \<open>
  \<open>available\<close> is the answer of \<open>ioctl\<close>, if it succeeds, and \<open>input\<close> what \<open>read\<close> stores, if it
  succeeds; the size grows by what was announced.
\<close>

definition TSEMevent_read_event ::
  "nat option \<Rightarrow> byte list option \<Rightarrow> TSEMevent_State \<Rightarrow> (unit, TSEMevent_State) res" where
  "TSEMevent_read_event available input S =
     (case available of
        None \<Rightarrow> Fail S
      | Some n \<Rightarrow>
          let size = unat (of_nat n + te_size S);
              used = unat (te_size S)
          in (case grow_loop (size - buf_size (te_bufr S)) (te_bufr S) of
                Ret _ b \<Rightarrow>
                  (if buf_size b < used then Undef
                   else
                     let S1 = S\<lparr>te_bufr := b\<lparr>b_data := take used (b_data b) @ replicate (buf_size b - used) NUL\<rparr>\<rparr>
                     in (case input of
                           None \<Rightarrow> Fail S1
                         | Some bs \<Rightarrow>
                             if n < length bs then Undef
                             else Ret () (S1\<lparr>te_bufr := b\<lparr>b_data := take used (b_data b) @
                                               overwrite bs (replicate (buf_size b - used) NUL)\<rparr>,
                                             te_size := te_size S + of_nat n\<rparr>)))
              | _ \<Rightarrow> Undef))"

text \<open>
  \<open>strchr\<close> in the bytes of the buffer: undefined when neither the character nor NUL is among them.
\<close>

fun strchr_bytes :: "byte list \<Rightarrow> char \<Rightarrow> nat option option" where
  "strchr_bytes [] c = None"
| "strchr_bytes (b # bs) c =
     (if b = c then Some (Some 0)
      else if b = NUL then Some None
      else map_option (map_option Suc) (strchr_bytes bs c))"

definition newline :: char where
  "newline = CHR 0x0A"

text \<open>The method with the variable that \<open>more\<close> points to.\<close>

definition TSEMevent_fetch_event ::
  "TSEMevent_State \<times> bool \<Rightarrow> (unit, TSEMevent_State \<times> bool) res" where
  "TSEMevent_fetch_event = (\<lambda>(S, more).
     (case strchr_bytes (b_data (te_bufr S)) newline of
        None \<Rightarrow> Undef
      | Some None \<Rightarrow> Fail (S, more)
      | Some (Some p) \<Rightarrow>
          let bs = b_data (te_bufr S)
          in (case hs_add (take p bs) (hs_reset (te_event S)) of
                Undef \<Rightarrow> Undef
              | Fail e \<Rightarrow> Fail (S\<lparr>te_event := e\<rparr>, more)
              | Ret _ e \<Rightarrow>
                  let amt = hs_size e + 1;
                      left = te_size S - of_nat amt;
                      S1 = S\<lparr>te_event := e, te_size := left, te_bufr := (te_bufr S)\<lparr>b_data := bs[p := NUL]\<rparr>\<rparr>
                  in if left = 0 then Ret () (S1, False)
                     else if length bs < amt + unat left then Undef
                     else if amt < unat left then Undef
                     else
                       let bs1 = take (unat left) (drop amt bs) @ replicate (length bs - unat left) NUL
                       in (case strchr_bytes bs1 newline of
                             None \<Rightarrow> Undef
                           | Some found \<Rightarrow> Ret () (S1\<lparr>te_bufr := (te_bufr S)\<lparr>b_data := bs1\<rparr>\<rparr>, more \<or> found \<noteq> None)))))"

definition TSEMevent_get_event :: "TSEMevent_State \<Rightarrow> string option" where
  "TSEMevent_get_event S = hs_get (te_event S)"

section \<open>Fields of the event\<close>

definition on_parser ::
  "(TSEMparser_State \<Rightarrow> ('a, TSEMparser_State) res) \<Rightarrow> TSEMevent_State \<Rightarrow> ('a, TSEMevent_State) res" where
  "on_parser f S = zoom (\<lambda>p. S\<lparr>te_parser := p\<rparr>) (f (te_parser S))"

definition reset_parser :: "TSEMevent_State \<Rightarrow> TSEMevent_State" where
  "reset_parser S = S\<lparr>te_parser := TSEMparser_reset (te_parser S)\<rparr>"

definition event_extract :: "string \<Rightarrow> TSEMevent_State \<Rightarrow> (unit, TSEMevent_State) res" where
  "event_extract field S = on_parser (TSEMparser_extract_field (te_event S) field) S"

fun find_export :: "(TSEM_export_type \<times> string) list \<Rightarrow> string \<Rightarrow> TSEM_export_type option" where
  "find_export [] s = None"
| "find_export ((command, name) # cps) s = (if name = s then Some command else find_export cps s)"

text \<open>The method returns the type; a step that fails before the type was found leaves \<open>UNKNOWN\<close>.\<close>

definition TSEMevent_extract_export :: "TSEMevent_State \<Rightarrow> (TSEM_export_type, TSEMevent_State) res" where
  "TSEMevent_extract_export S =
     (case steps
        [event_extract ''export'',
         (\<lambda>S. zoom (\<lambda>(p, t). S\<lparr>te_parser := p, te_field := t\<rparr>)
                (TSEMparser_get_text (Some ''type'') (te_parser S, te_field S)))] (reset_parser S) of
        Undef \<Rightarrow> Undef
      | Fail S1 \<Rightarrow> Ret TSEM_EVENT_UNKNOWN S1
      | Ret _ S1 \<Rightarrow>
          (case hs_get (te_field S1) of
             None \<Rightarrow> Undef
           | Some name \<Rightarrow>
               (case find_export TSEM_events name of
                  None \<Rightarrow> Ret TSEM_EVENT_UNKNOWN S1
                | Some type \<Rightarrow>
                    (case steps
                       [(\<lambda>S. if type = TSEM_EVENT_ASYNC_EVENT
                             then zoom (\<lambda>t. S\<lparr>te_field := t\<rparr>) (hs_add ''event'' (hs_reset (te_field S)))
                             else Ret () S),
                        assign reset_parser,
                        (\<lambda>S. case hs_get (te_field S) of
                               None \<Rightarrow> Undef
                             | Some field \<Rightarrow> event_extract field S)] (S1\<lparr>te_type := type\<rparr>) of
                       Undef \<Rightarrow> Undef
                     | Fail S2 \<Rightarrow> Ret type S2
                     | Ret _ S2 \<Rightarrow> Ret type S2))))"

text \<open>\<open>retn\<close> is true from the start: the method also returns true when it fails.\<close>

definition TSEMevent_extract_event :: "TSEMevent_State \<Rightarrow> (unit, TSEMevent_State) res" where
  "TSEMevent_extract_event S =
     (case event_extract ''event'' (reset_parser S) of
        Ret _ S1 \<Rightarrow> Ret () (S1\<lparr>te_type := TSEM_EVENT_EVENT\<rparr>)
      | Fail S1 \<Rightarrow> Ret () S1
      | Undef \<Rightarrow> Undef)"

definition TSEMevent_extract_field :: "string \<Rightarrow> TSEMevent_State \<Rightarrow> (unit, TSEMevent_State) res" where
  "TSEMevent_extract_field field S =
     (if te_type S = TSEM_EVENT_UNKNOWN then Fail S else event_extract field (reset_parser S))"

definition TSEMevent_get_text ::
  "string \<Rightarrow> TSEMevent_State \<times> hstr \<Rightarrow> (unit, TSEMevent_State \<times> hstr) res" where
  "TSEMevent_get_text key = (\<lambda>(S, t).
     if te_type S = TSEM_EVENT_UNKNOWN then Fail (S, t)
     else zoom (\<lambda>(p, t). (S\<lparr>te_parser := p\<rparr>, t)) (TSEMparser_get_text (Some key) (te_parser S, t)))"

definition TSEMevent_get_integer ::
  "string \<Rightarrow> TSEMevent_State \<times> int \<Rightarrow> (u64, TSEMevent_State \<times> int) res" where
  "TSEMevent_get_integer key = (\<lambda>(S, errno).
     if te_type S = TSEM_EVENT_UNKNOWN then Fail (S, errno)
     else zoom (\<lambda>(p, e). (S\<lparr>te_parser := p\<rparr>, e)) (TSEMparser_get_integer (Some key) (te_parser S, errno)))"

definition TSEMevent_reset :: "TSEMevent_State \<Rightarrow> TSEMevent_State" where
  "TSEMevent_reset S = reset_parser (S\<lparr>te_type := TSEM_EVENT_UNKNOWN, te_field := hs_reset (te_field S)\<rparr>)"

section \<open>Encoding\<close>

text \<open>The encoders work on the object, a local text and the output.\<close>

type_synonym encoder = "TSEMevent_State \<times> hstr \<times> hstr"

definition put_output :: "string \<Rightarrow> encoder \<Rightarrow> (unit, encoder) res" where
  "put_output t = (\<lambda>(S, str, out). zoom (\<lambda>out. (S, str, out)) (hs_add t out))"

definition reset_text :: "encoder \<Rightarrow> (unit, encoder) res" where
  "reset_text = assign (\<lambda>(S, str, out). (S, hs_reset str, out))"

definition read_text :: "string \<Rightarrow> encoder \<Rightarrow> (unit, encoder) res" where
  "read_text key = (\<lambda>(S, str, out).
     zoom (\<lambda>(p, t). (S\<lparr>te_parser := p\<rparr>, t, out)) (TSEMparser_get_text (Some key) (te_parser S, str)))"

definition read_field :: "encoder \<Rightarrow> (unit, encoder) res" where
  "read_field = (\<lambda>(S, str, out). zoom (\<lambda>t. (S, t, out)) (TSEMparser_get_field (te_parser S) str))"

definition select_field :: "string \<Rightarrow> encoder \<Rightarrow> (unit, encoder) res" where
  "select_field field = (\<lambda>(S, str, out). zoom (\<lambda>S. (S, str, out)) (event_extract field S))"

text \<open>\<open>%s\<close> of the local text.\<close>

definition with_text :: "(string \<Rightarrow> encoder \<Rightarrow> (unit, encoder) res) \<Rightarrow> encoder \<Rightarrow> (unit, encoder) res" where
  "with_text f = (\<lambda>(S, str, out). case hs_get str of None \<Rightarrow> Undef | Some t \<Rightarrow> f t (S, str, out))"

definition add_key :: "string \<Rightarrow> string \<Rightarrow> encoder \<Rightarrow> (unit, encoder) res" where
  "add_key term key =
     steps [reset_text, read_text key, with_text (\<lambda>t. put_output (key @ ''='' @ t @ term))]"

text \<open>
  \<open>prev\<close> is the character before the pointer, if that is still in the text.  Behind a colon the loop looks two
  characters ahead; a text that ends in a colon is read beyond its end.
\<close>

fun copy_loop :: "char option \<Rightarrow> string \<Rightarrow> hstr \<Rightarrow> (unit, hstr) res" where
  "copy_loop prev [] out = Ret () out"
| "copy_loop prev (c # cs) out =
     (if c = DQ then copy_loop (Some c) cs out
      else if c = CHR '' '' \<and> prev = None then Undef
      else if c = CHR '' '' \<and> prev = Some (CHR '':'') then copy_loop (Some c) cs out
      else if c = CHR '':'' then
        (case cs of
           [] \<Rightarrow> Undef
         | _ # ds \<Rightarrow>
             if take 1 ds = ''{'' then Ret () out
             else res_bind (hs_add ''='' out) (\<lambda>_. copy_loop (Some c) cs))
      else res_bind (hs_add [c] out) (\<lambda>_. copy_loop (Some c) cs))"

definition copy_field :: "string \<Rightarrow> encoder \<Rightarrow> (unit, encoder) res" where
  "copy_field t = (\<lambda>(S, str, out). zoom (\<lambda>out. (S, str, out)) (copy_loop None t out))"

definition convert_field :: "string \<Rightarrow> encoder \<Rightarrow> (unit, encoder) res" where
  "convert_field field =
     steps
       [select_field field,
        reset_text,
        read_field,
        put_output (if field = ''file_open'' then ''file'' else field),
        with_text copy_field]"

text \<open>The JSON object of the file of a mapping, and what is in front of it.\<close>

definition encode_mmap_file :: "string \<Rightarrow> encoder \<Rightarrow> (unit, encoder) res" where
  "encode_mmap_file type =
     steps
       [select_field ''mmap_file'',
        reset_text,
        (\<lambda>(S, str, out).
           (case TSEMparser_has_key ''file'' (te_parser S) of
              Undef \<Rightarrow> Undef
            | Fail p \<Rightarrow> Fail (S\<lparr>te_parser := p\<rparr>, str, out)
            | Ret has p \<Rightarrow>
                (if \<not> has then convert_field type
                 else steps
                   [read_field,
                    with_text (\<lambda>t fr. case strstr t ('', '' @ DQ # ''file'' @ [DQ]) of
                        None \<Rightarrow> Fail fr
                      | Some (t1, _) \<Rightarrow> steps [put_output ''mmap_file'', copy_field t1] fr),
                    reset_text,
                    read_field,
                    assign (\<lambda>(S, str, out). (reset_parser S, str, out)),
                    (\<lambda>(S, str, out). zoom (\<lambda>S. (S, str, out)) (on_parser (TSEMparser_extract_field str ''file'') S)),
                    reset_text,
                    read_field,
                    put_output ''} file'',
                    with_text copy_field]) (S\<lparr>te_parser := p\<rparr>, str, out)))]"

text \<open>
  \<open>type\<close> is stashed in an array of 64 characters.  The local text is whacked at the end.
\<close>

definition encode_type :: "string \<Rightarrow> encoder \<Rightarrow> (unit, encoder) res" where
  "encode_type type =
     (if type = ''mmap_file'' then encode_mmap_file type
      else if type = ''inode_getattr''
        then steps [select_field ''file'', reset_text, read_field, put_output ''file'', with_text copy_field]
      else convert_field type)"

definition encode_pid :: "encoder \<Rightarrow> (unit, encoder) res" where
  "encode_pid = (\<lambda>(S, str, out).
     (case TSEMparser_has_key ''pid'' (te_parser S) of
        Undef \<Rightarrow> Undef
      | Fail p \<Rightarrow> Fail (S\<lparr>te_parser := p\<rparr>, str, out)
      | Ret has p \<Rightarrow>
          (if \<not> has then Ret ()
           else steps [reset_text, read_text ''pid'', with_text (\<lambda>t. put_output (''pid{'' @ t @ ''} ''))])
            (S\<lparr>te_parser := p\<rparr>, str, out)))"

definition TSEMevent_encode_event ::
  "TSEMevent_State \<times> hstr \<Rightarrow> (unit, TSEMevent_State \<times> hstr) res" where
  "TSEMevent_encode_event = (\<lambda>(S, output).
     zoom (\<lambda>(S, str, out). (S, out))
       (steps
          [fail_if (\<lambda>(S, str, out). te_type S \<noteq> TSEM_EVENT_EVENT \<and> te_type S \<noteq> TSEM_EVENT_ASYNC_EVENT),
           read_text ''type'',
           with_text (\<lambda>type. steps
             [fail_if (\<lambda>_. length type + 1 > 64),
              encode_pid,
              put_output ''event{'',
              add_key '', '' ''process'',
              add_key '', '' ''type'',
              add_key '', '' ''ttd'',
              add_key '', '' ''p_ttd'',
              add_key '', '' ''task_id'',
              add_key '', '' ''p_task_id'',
              add_key ''} '' ''ts'',
              convert_field ''COE'',
              reset_text,
              put_output '' '',
              encode_type type])] (S, hs_empty, output)))"

definition TSEMevent_encode_log ::
  "TSEMevent_State \<times> hstr \<Rightarrow> (unit, TSEMevent_State \<times> hstr) res" where
  "TSEMevent_encode_log = (\<lambda>(S, output).
     zoom (\<lambda>(S, str, out). (S, out))
       (steps
          [fail_if (\<lambda>(S, str, out). te_type S \<noteq> TSEM_EVENT_LOG),
           assign (\<lambda>(S, str, out). (S, str, hs_reset out)),
           put_output ''log{'',
           add_key '', '' ''process'',
           add_key '', '' ''event'',
           add_key ''}'' ''action''] (S, hs_empty, output)))"

end
