(* ===== verification/TSEMcontrol.thy ===== *)
theory TSEMcontrol
  imports HString
begin

text \<open>
  The object that controls a modeling domain of the kernel (\<open>lib/TSEMcontrol.c\<close>): it composes a command line
  and writes it to the control file.  The file object belongs to the HurdLib submodule: the buffers that were written are
  recorded in \<open>tc_written\<close>, and \<open>up written\<close> tells whether the file takes one more.  The identifier is read
  from another file and the key is generated from a random buffer, both of which are arguments.
\<close>

section \<open>State\<close>

record TSEMcontrol_State =
  tc_poisoned :: bool
  tc_bufr :: buf
  tc_cmdstr :: hstr
  tc_key :: "hstr option"
  tc_written :: "byte list list"

definition TSEMcontrol_Init :: TSEMcontrol_State where
  "TSEMcontrol_Init =
     \<lparr>tc_poisoned = False, tc_bufr = buf_empty, tc_cmdstr = hs_empty, tc_key = None, tc_written = []\<rparr>"

datatype ns_config =
  TSEMcontrol_TYPE_INTERNAL | TSEMcontrol_TYPE_EXTERNAL | TSEMcontrol_TYPE_EXPORT | TSEMcontrol_INIT_NS |
  TSEMcontrol_CURRENT_NS

section \<open>Writing a command\<close>

definition TSEMcontrol_write_cmd ::
  "(byte list list \<Rightarrow> bool) \<Rightarrow> TSEMcontrol_State \<Rightarrow> (unit, TSEMcontrol_State) res" where
  "TSEMcontrol_write_cmd up =
     steps
       [(\<lambda>S. case hs_get (tc_cmdstr S) of
           None \<Rightarrow> Undef
         | Some t \<Rightarrow> zoom (\<lambda>b. S\<lparr>tc_bufr := b\<rparr>) (buf_add t (tc_bufr S))),
        fail_if (\<lambda>S. b_poisoned (tc_bufr S) \<or> \<not> up (tc_written S)),
        assign (\<lambda>S. S\<lparr>tc_written := tc_written S @ [b_data (tc_bufr S)]\<rparr>),
        assign (\<lambda>S. S\<lparr>tc_bufr := buf_reset (tc_bufr S), tc_cmdstr := hs_reset (tc_cmdstr S)\<rparr>)]"

definition add_cmd :: "string \<Rightarrow> TSEMcontrol_State \<Rightarrow> (unit, TSEMcontrol_State) res" where
  "add_cmd t S = zoom (\<lambda>s. S\<lparr>tc_cmdstr := s\<rparr>) (hs_add t (tc_cmdstr S))"

definition TSEMcontrol_enforce ::
  "(byte list list \<Rightarrow> bool) \<Rightarrow> TSEMcontrol_State \<Rightarrow> (unit, TSEMcontrol_State) res" where
  "TSEMcontrol_enforce up = steps [add_cmd (''enforce'' @ [CHR 0x0A]), TSEMcontrol_write_cmd up]"

definition TSEMcontrol_seal ::
  "(byte list list \<Rightarrow> bool) \<Rightarrow> TSEMcontrol_State \<Rightarrow> (unit, TSEMcontrol_State) res" where
  "TSEMcontrol_seal up = steps [add_cmd (''seal'' @ [CHR 0x0A]), TSEMcontrol_write_cmd up]"

text \<open>\<open>%s\<close> of the key, which must not be NULL.\<close>

definition with_key ::
  "(string \<Rightarrow> TSEMcontrol_State \<Rightarrow> (unit, TSEMcontrol_State) res) \<Rightarrow>
   TSEMcontrol_State \<Rightarrow> (unit, TSEMcontrol_State) res" where
  "with_key f S =
     (case tc_key S of
        None \<Rightarrow> Fail S
      | Some k \<Rightarrow> (case hs_get k of None \<Rightarrow> Undef | Some t \<Rightarrow> f t S))"

text \<open>
  A namespace of type \<open>type\<close>; the reference \<open>ns_ref\<close> may be 0, and so may the pointers to the model and the
  digest.  Most results are ignored.
\<close>

definition TSEMcontrol_create_ns ::
  "(byte list list \<Rightarrow> bool) \<Rightarrow> ns_config \<Rightarrow> string option \<Rightarrow> string option \<Rightarrow> ns_config option \<Rightarrow> u32 \<Rightarrow>
   TSEMcontrol_State \<Rightarrow> (unit, TSEMcontrol_State) res" where
  "TSEMcontrol_create_ns up type model digest ns_ref cache_size =
     (let external = (type = TSEMcontrol_TYPE_EXTERNAL) in
      steps
        [fail_if (\<lambda>S. external \<and> tc_key S = None),
         (if external then attempt (add_cmd ''external'')
          else if type = TSEMcontrol_TYPE_INTERNAL then attempt (add_cmd ''internal'')
          else if type = TSEMcontrol_TYPE_EXPORT then attempt (add_cmd ''export'')
          else Fail),
         (case ns_ref of
            None \<Rightarrow> Ret ()
          | Some r \<Rightarrow> steps
              [attempt (add_cmd '' nsref=''),
               (if r = TSEMcontrol_INIT_NS then attempt (add_cmd ''initial'')
                else if r = TSEMcontrol_CURRENT_NS then attempt (add_cmd ''current'')
                else Fail)]),
         (case model of None \<Rightarrow> Ret () | Some m \<Rightarrow> attempt (add_cmd ('' model='' @ m))),
         (case digest of None \<Rightarrow> Ret () | Some d \<Rightarrow> attempt (add_cmd ('' digest='' @ d))),
         (if cache_size \<noteq> 0 then attempt (add_cmd ('' cache='' @ sprint_u (unat cache_size))) else Ret ()),
         (if external then with_key (\<lambda>k. attempt (add_cmd ('' key='' @ k))) else Ret ()),
         add_cmd [CHR 0x0A],
         TSEMcontrol_write_cmd up])"

definition TSEMcontrol_discipline ::
  "(byte list list \<Rightarrow> bool) \<Rightarrow> u32 \<Rightarrow> TSEMcontrol_State \<Rightarrow> (unit, TSEMcontrol_State) res" where
  "TSEMcontrol_discipline up pid =
     steps
       [with_key (\<lambda>k. add_cmd (''untrusted pid='' @ sprint_d pid @ '' key='' @ k @ [CHR 0x0A])),
        TSEMcontrol_write_cmd up]"

definition TSEMcontrol_release ::
  "(byte list list \<Rightarrow> bool) \<Rightarrow> u32 \<Rightarrow> TSEMcontrol_State \<Rightarrow> (unit, TSEMcontrol_State) res" where
  "TSEMcontrol_release up pid =
     steps
       [with_key (\<lambda>k. add_cmd (''trusted pid='' @ sprint_d pid @ '' key='' @ k @ [CHR 0x0A])),
        TSEMcontrol_write_cmd up]"

text \<open>
  The bytes of a buffer as a string: undefined when it holds no NUL.
\<close>

definition with_state ::
  "string \<Rightarrow> buf \<Rightarrow> (byte list list \<Rightarrow> bool) \<Rightarrow> TSEMcontrol_State \<Rightarrow> (unit, TSEMcontrol_State) res" where
  "with_state name state up =
     steps
       [(\<lambda>S. if b_poisoned state \<or> NUL \<notin> set (b_data state) then Undef
             else add_cmd (name @ '' value='' @ cstring (b_data state) @ [CHR 0x0A]) S),
        TSEMcontrol_write_cmd up]"

definition TSEMcontrol_set_base ::
  "(byte list list \<Rightarrow> bool) \<Rightarrow> buf \<Rightarrow> TSEMcontrol_State \<Rightarrow> (unit, TSEMcontrol_State) res" where
  "TSEMcontrol_set_base up state = with_state ''base'' state up"

definition TSEMcontrol_add_state ::
  "(byte list list \<Rightarrow> bool) \<Rightarrow> buf \<Rightarrow> TSEMcontrol_State \<Rightarrow> (unit, TSEMcontrol_State) res" where
  "TSEMcontrol_add_state up state = with_state ''state'' state up"

definition TSEMcontrol_pseudonym ::
  "(byte list list \<Rightarrow> bool) \<Rightarrow> buf \<Rightarrow> TSEMcontrol_State \<Rightarrow> (unit, TSEMcontrol_State) res" where
  "TSEMcontrol_pseudonym up state = with_state ''pseudonym'' state up"

text \<open>
  \<open>random\<close>: the bytes that the generator returned, if it did.  A second key replaces the first.
\<close>

fun key_loop :: "byte list \<Rightarrow> hstr \<Rightarrow> hstr" where
  "key_loop [] k = k"
| "key_loop (b # bs) k = key_loop bs (case hs_add (sprint_02x b) k of Ret _ k1 \<Rightarrow> k1 | Fail k1 \<Rightarrow> k1 | Undef \<Rightarrow> k)"

definition TSEMcontrol_generate_key ::
  "byte list option \<Rightarrow> TSEMcontrol_State \<Rightarrow> (unit, TSEMcontrol_State) res" where
  "TSEMcontrol_generate_key random S =
     (case random of
        None \<Rightarrow> Fail S
      | Some bs \<Rightarrow>
          (let k = key_loop bs hs_empty
           in if h_poisoned k then Fail (S\<lparr>tc_key := Some k\<rparr>) else Ret () (S\<lparr>tc_key := Some k\<rparr>)))"

text \<open>\<open>input\<close>: the line of the identifier file, if it could be read.\<close>

definition TSEMcontrol_id ::
  "string option \<Rightarrow> TSEMcontrol_State \<times> int \<Rightarrow> (u64, TSEMcontrol_State \<times> int) res" where
  "TSEMcontrol_id input = (\<lambda>(S, errno).
     (let S0 = S\<lparr>tc_cmdstr := hs_reset (tc_cmdstr S)\<rparr> in
      (case input of
         None \<Rightarrow> Fail (S0, errno)
       | Some t \<Rightarrow>
           (case hs_add t (tc_cmdstr S0) of
              Ret _ s \<Rightarrow>
                (case hs_get s of
                   None \<Rightarrow> Undef
                 | Some line \<Rightarrow>
                     (let (value, range) = strtoll10 line;
                          errno1 = (if range then ERANGE else errno);
                          S1 = S0\<lparr>tc_cmdstr := hs_reset s\<rparr>
                      in if errno1 = ERANGE then Fail (S1, errno1) else Ret (word_of_int value) (S1, errno1)))
            | Fail s \<Rightarrow> Fail (S0\<lparr>tc_cmdstr := hs_reset s\<rparr>, errno)
            | Undef \<Rightarrow> Undef))))"

end
