(* ===== verification/Quixote.thy ===== *)
theory Quixote
  imports Sancho TSEMevent TSEMcontrol
begin

text \<open>
  The orchestrator of a workload that is modeled in user space (\<open>Quixote/quixote-us.c\<close>).  It reads the events
  that the kernel exports for the workload, models them, tells the kernel to release or to discipline the process,
  serves management commands, and loads and saves models.

  The global variables of the program are the state.  Processes, signals, sockets and files are I/O: \<open>qx_kills\<close>
  records the calls of \<open>kill_cartridge\<close>, \<open>qx_sent\<close> the messages to the management client, and the lines of
  a saved model are the buffers that were written.  Where a call can fail, a function in the environment tells for
  what was written before whether it takes one more.
\<close>

section \<open>State\<close>

record Quixote_State =
  qx_model :: TSEM_State
  qx_control :: TSEMcontrol_State
  qx_event :: TSEMevent_State
  qx_aggregate :: "buf option"
  qx_model_error :: bool
  qx_sealed :: bool
  qx_enforce :: bool
  qx_kills :: "bool list"
  qx_cmdbufr :: buf
  qx_connected :: bool
  qx_sent :: "byte list list"
  qx_errno :: int

record environment =
  env_crypto :: crypto
  env_cell :: Cell_State
  env_stack :: "byte list"
  env_control :: "byte list list \<Rightarrow> bool"
  env_mgmt :: "byte list list \<Rightarrow> bool"
  env_file :: "byte list list \<Rightarrow> bool"

definition Quixote_Init :: "bool \<Rightarrow> int \<Rightarrow> Quixote_State" where
  "Quixote_Init enforce errno =
     \<lparr>qx_model = TSEM_Init, qx_control = TSEMcontrol_Init, qx_event = TSEMevent_Init, qx_aggregate = None,
      qx_model_error = False, qx_sealed = False, qx_enforce = enforce, qx_kills = [], qx_cmdbufr = buf_empty,
      qx_connected = False, qx_sent = [], qx_errno = errno\<rparr>"

definition kill_cartridge :: "bool \<Rightarrow> Quixote_State \<Rightarrow> Quixote_State" where
  "kill_cartridge wait st = st\<lparr>qx_kills := qx_kills st @ [wait]\<rparr>"

definition on_control ::
  "(TSEMcontrol_State \<Rightarrow> (unit, TSEMcontrol_State) res) \<Rightarrow> Quixote_State \<Rightarrow> (unit, Quixote_State) res" where
  "on_control f st = zoom (\<lambda>c. st\<lparr>qx_control := c\<rparr>) (f (qx_control st))"

section \<open>Events of the workload\<close>

text \<open>An event is parsed, in a new object, from the description.\<close>

definition parse_update ::
  "environment \<Rightarrow> hstr \<Rightarrow> (SecurityEvent_State \<Rightarrow> Quixote_State \<Rightarrow> (unit, Quixote_State) res) \<Rightarrow>
   Quixote_State \<Rightarrow> (unit, Quixote_State) res" where
  "parse_update env update f st =
     (case SecurityEvent_parse ((SecurityEvent_Init (env_cell env), update), qx_errno st) of
        Undef \<Rightarrow> Undef
      | Fail (_, errno) \<Rightarrow> Fail (st\<lparr>qx_errno := errno\<rparr>)
      | Ret _ ((event, _), errno) \<Rightarrow> f event (st\<lparr>qx_errno := errno\<rparr>))"

text \<open>The update of the model, and the process that is named in its verdict.\<close>

definition update_model ::
  "environment \<Rightarrow> SecurityEvent_State \<Rightarrow> (bool \<Rightarrow> bool \<Rightarrow> u32 \<Rightarrow> Quixote_State \<Rightarrow> (unit, Quixote_State) res) \<Rightarrow>
   Quixote_State \<Rightarrow> (unit, Quixote_State) res" where
  "update_model env event f st =
     (case TSEM_update (cr_sha (env_crypto env)) (qx_model st, event) of
        Undef \<Rightarrow> Undef
      | Fail (model, _) \<Rightarrow> Fail (st\<lparr>qx_model := model\<rparr>)
      | Ret (status, discipline, sealed) (model, _) \<Rightarrow>
          (case TSEM_discipline_pid model of
             Ret pid model1 \<Rightarrow> f discipline sealed pid (st\<lparr>qx_model := model1\<rparr>)
           | _ \<Rightarrow> Undef))"

definition Quixote_add_event :: "environment \<Rightarrow> hstr \<Rightarrow> Quixote_State \<Rightarrow> (unit, Quixote_State) res" where
  "Quixote_add_event env update =
     parse_update env update (\<lambda>event st.
       if qx_model_error st
       then (case SecurityEvent_get_pid event of
               None \<Rightarrow> Fail st
             | Some pid \<Rightarrow> on_control (TSEMcontrol_release (env_control env) pid) st)
       else update_model env event (\<lambda>discipline sealed pid.
         if \<not> sealed then attempt (on_control (TSEMcontrol_release (env_control env) pid))
         else if discipline then on_control (TSEMcontrol_discipline (env_control env) pid)
         else on_control (TSEMcontrol_release (env_control env) pid)) st)"

definition Quixote_add_async_event :: "environment \<Rightarrow> hstr \<Rightarrow> Quixote_State \<Rightarrow> (unit, Quixote_State) res" where
  "Quixote_add_async_event env update =
     parse_update env update (\<lambda>event st.
       if qx_model_error st then Fail st
       else update_model env event (\<lambda>violation sealed pid st.
         Ret () (if sealed \<and> violation \<and> qx_enforce st then kill_cartridge True st else st)) st)"

text \<open>The text \<open>str\<close> is that of the event; only the first aggregate is converted.\<close>

definition Quixote_add_aggregate :: "environment \<Rightarrow> hstr \<Rightarrow> Quixote_State \<Rightarrow> (unit, Quixote_State) res" where
  "Quixote_add_aggregate env str st =
     (case TSEMevent_get_text ''value'' (qx_event st, hs_reset str) of
        Undef \<Rightarrow> Undef
      | Fail (ev, _) \<Rightarrow> Fail (st\<lparr>qx_event := ev\<rparr>)
      | Ret _ (ev, value) \<Rightarrow>
          steps
            [(\<lambda>st. case qx_aggregate st of
                 Some _ \<Rightarrow> Ret () st
               | None \<Rightarrow> zoom (\<lambda>b. st\<lparr>qx_aggregate := Some b\<rparr>) (buf_add_hexstring (hs_get value) buf_empty)),
             (\<lambda>st. zoom (\<lambda>m. st\<lparr>qx_model := m\<rparr>)
                     (TSEM_set_aggregate (cr_sha (env_crypto env)) (the (qx_aggregate st)) (qx_model st)))]
            (st\<lparr>qx_event := ev\<rparr>))"

definition Quixote_add_log :: "hstr \<Rightarrow> Quixote_State \<Rightarrow> (unit, Quixote_State) res" where
  "Quixote_add_log event st = zoom (\<lambda>m. st\<lparr>qx_model := m\<rparr>) (TSEM_add_TSEM_event event (qx_model st))"

definition process_event :: "environment \<Rightarrow> Quixote_State \<Rightarrow> (unit, Quixote_State) res" where
  "process_event env st =
     (case TSEMevent_extract_export (TSEMevent_reset (qx_event st)) of
        Undef \<Rightarrow> Undef
      | Fail ev \<Rightarrow> Fail (st\<lparr>qx_event := ev\<rparr>)
      | Ret type ev \<Rightarrow>
          (let st1 = st\<lparr>qx_event := ev\<rparr>
           in if type = TSEM_EVENT_UNKNOWN then Fail st1
              else
                (case TSEMevent_get_event ev of
                   None \<Rightarrow> Undef
                 | Some t \<Rightarrow>
                     (case type of
                        TSEM_EVENT_AGGREGATE \<Rightarrow> Quixote_add_aggregate env (hs_of t) st1
                      | TSEM_EVENT_EVENT \<Rightarrow> Quixote_add_event env (hs_of t) st1
                      | TSEM_EVENT_ASYNC_EVENT \<Rightarrow> Quixote_add_async_event env (hs_of t) st1
                      | TSEM_EVENT_LOG \<Rightarrow> Quixote_add_log (hs_of t) st1
                      | TSEM_EVENT_UNKNOWN \<Rightarrow> Fail st1))))"

section \<open>Management commands\<close>

text \<open>
  Three of the functions that show the model are, statement by statement, those of the interpreter of
  \<open>Sancho\<close>; what the interpreter ignores is the result here.  \<open>as_sancho\<close> is the part of the state that they
  work on.
\<close>

definition as_sancho :: "Quixote_State \<Rightarrow> Sancho_State" where
  "as_sancho st =
     \<lparr>sx_model = qx_model st, sx_bufr = qx_cmdbufr st, sx_sent = qx_sent st, sx_errno = qx_errno st\<rparr>"

definition on_sancho ::
  "(Sancho_State \<Rightarrow> (unit, Sancho_State) res) \<Rightarrow> Quixote_State \<Rightarrow> (unit, Quixote_State) res" where
  "on_sancho f st =
     zoom (\<lambda>s. st\<lparr>qx_model := sx_model s, qx_cmdbufr := sx_bufr s, qx_sent := sx_sent s, qx_errno := sx_errno s\<rparr>)
       (f (as_sancho st))"

definition Quixote_send_trajectory :: "environment \<Rightarrow> Quixote_State \<Rightarrow> (unit, Quixote_State) res" where
  "Quixote_send_trajectory env = on_sancho (send_trajectory (env_mgmt env))"

definition Quixote_send_trajectory_counts ::
  "environment \<Rightarrow> bool \<Rightarrow> Quixote_State \<Rightarrow> (unit, Quixote_State) res" where
  "Quixote_send_trajectory_counts env type =
     on_sancho (send_trajectory_counts (env_mgmt env) (env_stack env) type)"

definition Quixote_send_trajectory_coefficients ::
  "environment \<Rightarrow> bool \<Rightarrow> Quixote_State \<Rightarrow> (unit, Quixote_State) res" where
  "Quixote_send_trajectory_coefficients env type =
     on_sancho (send_trajectory_coefficients (env_mgmt env) type)"

text \<open>An event that formats to nothing is replaced by a remark.\<close>

fun Quixote_forensics_loop ::
  "(byte list list \<Rightarrow> bool) \<Rightarrow> nat \<Rightarrow> hstr \<Rightarrow> Sancho_State \<Rightarrow> (unit, Sancho_State) res" where
  "Quixote_forensics_loop up 0 es st = Ret () st"
| "Quixote_forensics_loop up (Suc n) es st =
     (case TSEM_get_forensics (sx_model st) of
        (None, model) \<Rightarrow> Quixote_forensics_loop up n es (st\<lparr>sx_model := model\<rparr>)
      | (Some event, model) \<Rightarrow>
          (case SecurityEvent_format (event, es) of
             Undef \<Rightarrow> Undef
           | Fail (event1, es1) \<Rightarrow>
               Fail (st\<lparr>sx_model := model\<lparr>ts_forensics := Gaggle_mutate_last event1 (ts_forensics model)\<rparr>\<rparr>)
           | Ret _ (event1, es1) \<Rightarrow>
               (let st1 = st\<lparr>sx_model := model\<lparr>ts_forensics := Gaggle_mutate_last event1 (ts_forensics model)\<rparr>\<rparr>
                in (case (if hs_size es1 = 0 then hs_add ''Unknown event.'' es1 else Ret () es1) of
                      Undef \<Rightarrow> Undef
                    | Fail es2 \<Rightarrow> Fail st1
                    | Ret _ es2 \<Rightarrow>
                        res_bind (send_Buffer up (fill (hs_chars es2 @ [NUL]) st1))
                          (\<lambda>_. Quixote_forensics_loop up n (hs_reset es2))))))"

definition Quixote_send_forensics :: "environment \<Rightarrow> Quixote_State \<Rightarrow> (unit, Quixote_State) res" where
  "Quixote_send_forensics env =
     on_sancho (\<lambda>st.
       let cnt = TSEM_forensics_size (sx_model st) in
       steps
         [send_count (env_mgmt env) (of_nat cnt),
          assign (on_model TSEM_rewind_forensics),
          Quixote_forensics_loop (env_mgmt env) cnt hs_empty] st)"

text \<open>Here the texts are sent with their NUL.\<close>

fun Quixote_events_loop ::
  "(byte list list \<Rightarrow> bool) \<Rightarrow> nat \<Rightarrow> Sancho_State \<Rightarrow> (unit, Sancho_State) res" where
  "Quixote_events_loop up 0 st = Ret () st"
| "Quixote_events_loop up (Suc n) st =
     (case TSEM_get_TSEM_event (sx_model st) of
        (None, model) \<Rightarrow> Quixote_events_loop up n (st\<lparr>sx_model := model\<rparr>)
      | (Some event, model) \<Rightarrow>
          res_bind (send_Buffer up (fill (hs_chars event @ [NUL]) (st\<lparr>sx_model := model\<rparr>)))
            (\<lambda>_. Quixote_events_loop up n))"

definition Quixote_send_events :: "environment \<Rightarrow> Quixote_State \<Rightarrow> (unit, Quixote_State) res" where
  "Quixote_send_events env =
     on_sancho (\<lambda>st.
       let cnt = TSEM_events_size (sx_model st) in
       steps
         [send_count (env_mgmt env) (of_nat cnt),
          assign (on_model TSEM_rewind_TSEM_event),
          Quixote_events_loop (env_mgmt env) cnt] st)"

text \<open>The aggregate must exist; its bytes are added to the empty buffer.\<close>

definition Quixote_send_map :: "environment \<Rightarrow> Quixote_State \<Rightarrow> (unit, Quixote_State) res" where
  "Quixote_send_map env st =
     (case qx_aggregate st of
        None \<Rightarrow> Undef
      | Some aggregate \<Rightarrow> steps
          [on_sancho (\<lambda>s. send_Buffer (env_mgmt env) (fill (if b_poisoned aggregate then [] else b_data aggregate) s)),
           Quixote_send_trajectory_coefficients env True] st)"

text \<open>
  A command is an \<open>int\<close> in the byte order of the machine, one of the numbers of \<open>sancho_commands\<close>.
\<close>

definition command_number :: "(int \<times> sancho_command) list" where
  "command_number =
     [(1, export_event), (2, aggregate_event), (3, seal_event), (4, log_event), (5, sancho_load),
      (6, show_measurement), (7, show_state), (8, show_trajectory), (9, show_counts), (10, show_coefficients),
      (11, show_forensics_counts), (12, show_forensics_coefficients), (13, show_forensics), (14, show_events),
      (15, show_map), (16, enable_cell), (17, sancho_reset)]"

definition command_of :: "byte list \<Rightarrow> sancho_command option" where
  "command_of bs = map_of command_number (int (le_value bs))"

definition process_command :: "environment \<Rightarrow> Quixote_State \<Rightarrow> (unit, Quixote_State) res" where
  "process_command env st =
     (if buf_size (qx_cmdbufr st) \<noteq> 4 then Fail st
      else
        (case command_of (b_data (qx_cmdbufr st)) of
           Some show_measurement \<Rightarrow>
             on_sancho (\<lambda>s. res_bind
               (zoom (\<lambda>b. s\<lparr>sx_bufr := b\<rparr>) (TSEM_get_measurement (sx_model s) (buf_reset (sx_bufr s))))
               (\<lambda>_. send_Buffer (env_mgmt env))) st
         | Some show_state \<Rightarrow>
             on_sancho (\<lambda>s. res_bind
               (zoom (\<lambda>(m, b). s\<lparr>sx_model := m, sx_bufr := b\<rparr>)
                 (TSEM_get_state (cr_sha (env_crypto env)) (sx_model s, buf_reset (sx_bufr s))))
               (\<lambda>_. send_Buffer (env_mgmt env))) st
         | Some show_trajectory \<Rightarrow> Quixote_send_trajectory env st
         | Some show_coefficients \<Rightarrow> Quixote_send_trajectory_coefficients env True st
         | Some show_counts \<Rightarrow> Quixote_send_trajectory_counts env True st
         | Some show_forensics \<Rightarrow> Quixote_send_forensics env st
         | Some show_forensics_coefficients \<Rightarrow> Quixote_send_trajectory_coefficients env False st
         | Some show_forensics_counts \<Rightarrow> Quixote_send_trajectory_counts env False st
         | Some show_events \<Rightarrow> Quixote_send_events env st
         | Some show_map \<Rightarrow> Quixote_send_map env st
         | Some seal_event \<Rightarrow>
             on_sancho (\<lambda>s.
               let s1 = fill (''OK'' @ [NUL]) (on_model TSEM_seal s)
               in if b_poisoned (sx_bufr s1) then Fail s1 else send_Buffer (env_mgmt env) s1) st
         | _ \<Rightarrow> Fail st))"

section \<open>Loading and saving models\<close>

text \<open>\<open>entries\<close>: what the file object reads into the empty text, line by line, until it fails.\<close>

fun load_entries :: "crypto \<Rightarrow> string list \<Rightarrow> Quixote_State \<Rightarrow> (unit, Quixote_State) res" where
  "load_entries cr [] st = Ret () st"
| "load_entries cr (entry # entries) st =
     (let st1 = (if entry = ''seal'' then st\<lparr>qx_sealed := True\<rparr> else st)
      in res_bind (zoom (\<lambda>m. st1\<lparr>qx_model := m\<rparr>) (TSEM_load cr (hs_of entry) (qx_model st1)))
           (\<lambda>_. load_entries cr entries))"

text \<open>The file may not open.\<close>

definition load_model :: "environment \<Rightarrow> string list option \<Rightarrow> Quixote_State \<Rightarrow> (unit, Quixote_State) res" where
  "load_model env file st =
     (case file of None \<Rightarrow> Fail st | Some entries \<Rightarrow> load_entries (env_crypto env) entries st)"

text \<open>\<open>_encode_buffer\<close>, which ignores the results.\<close>

fun encode_buffer :: "byte list \<Rightarrow> hstr \<Rightarrow> hstr" where
  "encode_buffer [] str = str"
| "encode_buffer (b # bs) str =
     encode_buffer bs (case hs_add (sprint_02x b) str of Ret _ t \<Rightarrow> t | Fail t \<Rightarrow> t | Undef \<Rightarrow> str)"

text \<open>The writers work on the state, a text, a buffer and the file; the first three are reset by themselves.\<close>

type_synonym 's writer = "'s \<times> hstr \<times> buf \<times> byte list list"

definition new_text :: "string \<Rightarrow> 's writer \<Rightarrow> (unit, 's writer) res" where
  "new_text t = (\<lambda>(st, str, bufr, file). zoom (\<lambda>s. (st, s, bufr, file)) (hs_add t (hs_reset str)))"

text \<open>The text, and \<open>tail\<close>, are added to the buffer with the results ignored; then it is written.\<close>

definition write_text :: "(byte list list \<Rightarrow> bool) \<Rightarrow> string \<Rightarrow> 's writer \<Rightarrow> (unit, 's writer) res" where
  "write_text up tail =
     steps
       [assign (\<lambda>(st, str, bufr, file). (st, str, buf_reset bufr, file)),
        attempt (\<lambda>(st, str, bufr, file). case hs_get str of
            None \<Rightarrow> Undef | Some t \<Rightarrow> zoom (\<lambda>b. (st, str, b, file)) (buf_add t bufr)),
        attempt (\<lambda>(st, str, bufr, file). zoom (\<lambda>b. (st, str, b, file)) (buf_add tail bufr)),
        (\<lambda>(st, str, bufr, file).
           if b_poisoned bufr \<or> \<not> up file then Fail (st, str, bufr, file)
           else Ret () (st, str, bufr, file @ [b_data bufr]))]"

abbreviation end_line :: string where
  "end_line \<equiv> [CHR 0x0A]"

fun write_points :: "(byte list list \<Rightarrow> bool) \<Rightarrow> nat \<Rightarrow> Quixote_State writer \<Rightarrow> (unit, Quixote_State writer) res" where
  "write_points up 0 w = Ret () w"
| "write_points up (Suc n) w =
     (case w of (st, str, bufr, file) \<Rightarrow>
        (case TSEM_get_point (qx_model st) of
           (None, model) \<Rightarrow> write_points up n (st\<lparr>qx_model := model\<rparr>, str, bufr, file)
         | (Some cp, model) \<Rightarrow>
             res_bind
               (steps
                  [new_text ''state '',
                   assign (\<lambda>(st, str, bufr, file). (st, encode_buffer (SecurityPoint_get cp) str, bufr, file)),
                   write_text up end_line] (st\<lparr>qx_model := model\<rparr>, str, bufr, file))
               (\<lambda>_. write_points up n)))"

text \<open>
  The file must open; the aggregate must exist.  What was written is in the last component.
\<close>

definition output_model ::
  "environment \<Rightarrow> bool \<Rightarrow> Quixote_State \<Rightarrow> (unit, Quixote_State \<times> byte list list) res" where
  "output_model env opened st =
     (if \<not> opened then Fail (st, [])
      else zoom (\<lambda>(st, str, bufr, file). (st, file))
        (steps
           [new_text ''aggregate '',
            (\<lambda>(st, str, bufr, file). case qx_aggregate st of
               None \<Rightarrow> Undef
             | Some a \<Rightarrow> Ret () (st, encode_buffer (if b_poisoned a then [] else b_data a) str, bufr, file)),
            write_text (env_file env) end_line,
            assign (\<lambda>(st, w). (st\<lparr>qx_model := TSEM_rewind_points (qx_model st)\<rparr>, w)),
            (\<lambda>(st, w). write_points (env_file env) (TSEM_points_size (qx_model st)) (st, w)),
            new_text (''seal'' @ end_line),
            write_text (env_file env) [],
            new_text (''end'' @ end_line),
            write_text (env_file env) []] (st, hs_empty, buf_empty, [])))"

text \<open>The events of the trajectory, one on a line.  A formatted event is written back, as its parts may be poisoned.\<close>

fun write_events :: "(byte list list \<Rightarrow> bool) \<Rightarrow> nat \<Rightarrow> Quixote_State writer \<Rightarrow> (unit, Quixote_State writer) res" where
  "write_events up 0 w = Ret () w"
| "write_events up (Suc n) w =
     (case w of (st, str, bufr, file) \<Rightarrow>
        (case TSEM_get_event (qx_model st) of
           (None, model) \<Rightarrow> write_events up n (st\<lparr>qx_model := model\<rparr>, str, bufr, file)
         | (Some event, model) \<Rightarrow>
             (case SecurityEvent_format (event, str) of
                Undef \<Rightarrow> Undef
              | Fail (event1, str1) \<Rightarrow>
                  Fail (st\<lparr>qx_model := model\<lparr>ts_trajectory := Gaggle_mutate_last event1 (ts_trajectory model)\<rparr>\<rparr>,
                        str1, bufr, file)
              | Ret _ (event1, str1) \<Rightarrow>
                  res_bind
                    (steps
                       [write_text up end_line,
                        assign (\<lambda>(st, str, bufr, file). (st, hs_reset str, bufr, file))]
                       (st\<lparr>qx_model := model\<lparr>ts_trajectory := Gaggle_mutate_last event1 (ts_trajectory model)\<rparr>\<rparr>,
                        str1, bufr, file))
                    (\<lambda>_. write_events up n))))"

definition output_trajectory ::
  "environment \<Rightarrow> bool \<Rightarrow> Quixote_State \<Rightarrow> (unit, Quixote_State \<times> byte list list) res" where
  "output_trajectory env opened st =
     (if \<not> opened then Fail (st, [])
      else
        (let st1 = st\<lparr>qx_model := TSEM_rewind_event (qx_model st)\<rparr> in
         zoom (\<lambda>(st, str, bufr, file). (st, file))
           (write_events (env_file env) (TSEM_trajectory_size (qx_model st1)) (st1, hs_empty, buf_empty, []))))"

section \<open>The monitor\<close>

text \<open>
  The loop over the lines that were read.  It goes on as long as \<open>fetch_event\<close> leaves its variable true, which it
  is at the start of each pass.  A line that cannot be fetched ends the loop and kills the workload, an event that
  cannot be processed sets \<open>Model_Error\<close>.
\<close>

partial_function (option) drain_events ::
  "environment \<Rightarrow> Quixote_State \<Rightarrow> (unit, Quixote_State) res option" where
  "drain_events env st =
     (case TSEMevent_fetch_event (qx_event st, True) of
        Undef \<Rightarrow> Some Undef
      | Fail (ev, _) \<Rightarrow> Some (Ret () (kill_cartridge False (st\<lparr>qx_event := ev\<rparr>)))
      | Ret _ (ev, event) \<Rightarrow>
          (case process_event env (st\<lparr>qx_event := ev\<rparr>) of
             Undef \<Rightarrow> Some Undef
           | Fail st1 \<Rightarrow> Some (Ret () (st1\<lparr>qx_model_error := True\<rparr>))
           | Ret _ st1 \<Rightarrow> if event then drain_events env st1 else Some (Ret () st1)))"

text \<open>
  What \<open>poll\<close> reports in one pass: an error or a hang-up, with the signals that were received (to stop, or of a child) and whether the
  child has exited; events that can be read, with what the system calls return; or something from the management
  client, which is a connection if there is none.  Of the latter, \<open>accepted\<close> tells whether the connection could
  be set up, \<open>msg\<close> is what was received, if it could be, and \<open>eof\<close> whether the client has gone; then
  \<open>socket\<close> tells whether the next connection can be awaited.  When several are reported, they are handled in this
  order.  A message that cannot be received does not keep the buffer from being interpreted.
\<close>

datatype monitor_input =
  Poll_error bool bool bool
| Hangup bool bool bool
| Event_input "nat option" "byte list option"
| Command_input bool "byte list option" bool bool

text \<open>A pass goes on or ends the monitor with a result.\<close>

datatype monitor_answer = Goes_on | Ends bool

definition command_error :: "Quixote_State \<Rightarrow> Quixote_State" where
  "command_error st = kill_cartridge False (st\<lparr>qx_model_error := True\<rparr>)"

definition receive_command :: "byte list option \<Rightarrow> Quixote_State \<Rightarrow> Quixote_State" where
  "receive_command msg st =
     (case msg of
        None \<Rightarrow> command_error st
      | Some bs \<Rightarrow>
          (case buf_add bs (qx_cmdbufr st) of
             Ret _ b \<Rightarrow> st\<lparr>qx_cmdbufr := b\<rparr>
           | Fail b \<Rightarrow> command_error (st\<lparr>qx_cmdbufr := b\<rparr>)
           | Undef \<Rightarrow> st))"

definition manage ::
  "environment \<Rightarrow> bool \<Rightarrow> byte list option \<Rightarrow> bool \<Rightarrow> bool \<Rightarrow> Quixote_State \<Rightarrow>
   (monitor_answer, Quixote_State) res" where
  "manage env accepted msg eof socket st =
     (if \<not> qx_connected st then
        (if accepted then Ret Goes_on (st\<lparr>qx_connected := True\<rparr>) else Ret (Ends False) st)
      else
        (let st1 = receive_command msg st
         in if eof then
              (if socket then Ret Goes_on (st1\<lparr>qx_connected := False\<rparr>) else Ret (Ends False) st1)
            else
              (case process_command env st1 of
                 Undef \<Rightarrow> Undef
               | Fail st2 \<Rightarrow> Ret Goes_on ((command_error st2)\<lparr>qx_cmdbufr := buf_reset (qx_cmdbufr st2)\<rparr>)
               | Ret _ st2 \<Rightarrow> Ret Goes_on (st2\<lparr>qx_cmdbufr := buf_reset (qx_cmdbufr st2)\<rparr>))))"

definition monitor_step ::
  "environment \<Rightarrow> monitor_input \<Rightarrow> Quixote_State \<Rightarrow> (monitor_answer, Quixote_State) res option" where
  "monitor_step env inp st =
     (case inp of
        Poll_error stop child exited \<Rightarrow>
          Some (if stop then Ret (Ends True) (kill_cartridge True st)
                else if child then Ret (if exited then Ends True else Goes_on) st
                else Ret (Ends True) (kill_cartridge True st))
      | Hangup stop child exited \<Rightarrow>
          Some (if stop then Ret (Ends True) st
                else if child then Ret (if exited then Ends True else Goes_on) st
                else Ret Goes_on st)
      | Event_input available bs \<Rightarrow>
          (case TSEMevent_read_event available bs (qx_event st) of
             Undef \<Rightarrow> Some Undef
           | Fail ev \<Rightarrow> Some (Ret (Ends False) (kill_cartridge False (st\<lparr>qx_event := ev\<rparr>)))
           | Ret _ ev \<Rightarrow>
               map_option
                 (\<lambda>r. res_bind r (\<lambda>_ st1.
                    if qx_model_error st1 then Ret (Ends False) (kill_cartridge False st1) else Ret Goes_on st1))
                 (drain_events env (st\<lparr>qx_event := ev\<rparr>)))
      | Command_input accepted msg eof socket \<Rightarrow> Some (manage env accepted msg eof socket st))"

text \<open>The monitor on its inputs; the list of inputs may end before the monitor does.\<close>

fun child_monitor ::
  "environment \<Rightarrow> monitor_input list \<Rightarrow> Quixote_State \<Rightarrow> (unit, Quixote_State) res option" where
  "child_monitor env [] st = Some (Ret () st)"
| "child_monitor env (inp # inputs) st =
     (case monitor_step env inp st of
        None \<Rightarrow> None
      | Some Undef \<Rightarrow> Some Undef
      | Some (Fail st1) \<Rightarrow> Some (Fail st1)
      | Some (Ret answer st1) \<Rightarrow>
          (case answer of
             Goes_on \<Rightarrow> child_monitor env inputs st1
           | Ends retn \<Rightarrow> Some (if retn then Ret () st1 else Fail st1)))"

section \<open>Starting a workload and its end\<close>

text \<open>
  The namespace of the workload is set up after a \<open>fork\<close>, on a copy of the state: \<open>current\<close>,
  \<open>model\<close>, \<open>digest\<close> and \<open>magazine\<close> are the options of the command line, \<open>line\<close> is
  what can be read from the identifier file, and \<open>opened\<close> tells whether the export file opens, whose name is the
  result.  \<open>magazine\<close> is an \<open>unsigned long\<close>, the parameter of \<open>create_ns\<close> an \<open>unsigned int\<close>.
\<close>

definition update_file :: "u64 \<Rightarrow> string" where
  "update_file ident = ''/sys/kernel/security/tsem/external_tma/'' @ sprint_u (unat ident)"

definition setup_namespace ::
  "environment \<Rightarrow> bool \<Rightarrow> string option \<Rightarrow> string option \<Rightarrow> u64 \<Rightarrow> bool \<Rightarrow> string option \<Rightarrow> bool \<Rightarrow>
   Quixote_State \<Rightarrow> (string, Quixote_State) res" where
  "setup_namespace env current model digest magazine enforce line opened st =
     res_bind
       (on_control (TSEMcontrol_create_ns (env_control env) TSEMcontrol_TYPE_EXTERNAL model digest
          (if current then Some TSEMcontrol_CURRENT_NS else None) (ucast magazine)) st)
       (\<lambda>_ st.
          res_bind
            (zoom (\<lambda>(c, e). st\<lparr>qx_control := c, qx_errno := e\<rparr>) (TSEMcontrol_id line (qx_control st, qx_errno st)))
            (\<lambda>ident.
               (\<lambda>st. res_bind
                  (steps
                    [(\<lambda>st. if enforce then on_control (TSEMcontrol_enforce (env_control env)) st else Ret () st),
                     (\<lambda>st. if qx_sealed st then on_control (TSEMcontrol_seal (env_control env)) st else Ret () st),
                     fail_if (\<lambda>_. length (update_file ident) \<ge> 4096 \<or> \<not> opened)] st)
                  (\<lambda>_. Ret (update_file ident)))))"

text \<open>
  The part of \<open>main\<close> in front of the \<open>fork\<close>: the objects, the key, and the model file if one is named.
\<close>

definition start_model ::
  "environment \<Rightarrow> byte list option \<Rightarrow> string list option option \<Rightarrow> Quixote_State \<Rightarrow> (unit, Quixote_State) res" where
  "start_model env random file =
     steps
       [on_control (TSEMcontrol_generate_key random),
        (case file of None \<Rightarrow> Ret () | Some entries \<Rightarrow> load_model env entries)]"

text \<open>The parent runs the monitor and then writes the trajectory or the model, if an output file is named.\<close>

definition run_monitor ::
  "environment \<Rightarrow> bool \<Rightarrow> bool option \<Rightarrow> monitor_input list \<Rightarrow> Quixote_State \<Rightarrow>
   (unit, Quixote_State \<times> byte list list) res option" where
  "run_monitor env trajectory outfile inputs st =
     map_option
       (\<lambda>r. case r of
          Undef \<Rightarrow> Undef
        | Fail st1 \<Rightarrow> Fail (st1, [])
        | Ret _ st1 \<Rightarrow>
            (case outfile of
               None \<Rightarrow> Ret () (st1, [])
             | Some opened \<Rightarrow>
                 if trajectory then output_trajectory env opened st1 else output_model env opened st1))
       (child_monitor env inputs st)"

end
