(* ===== verification/QuixoteXen.thy ===== *)
theory QuixoteXen
  imports Quixote
begin

text \<open>
  The orchestrator of a workload that is modeled in another Xen domain (\<open>Quixote/quixote-xen.c\<close>).  It has no model:
  it forwards what the kernel exports as commands to an agent that it reaches over a duct, waits for the answers, and
  tells the kernel the verdict that the agent gave.  Management commands and model files go the same way.

  The agent and the duct are the state \<open>xq_duct\<close> of any type, on which \<open>xe_send\<close> is a message to the
  agent and \<open>xe_receive\<close> waits for one: \<open>None\<close> if none ever comes, which is \<open>Undef\<close> for the
  orchestrator.
\<close>

section \<open>State\<close>

record 'd Xen_State =
  xq_control :: TSEMcontrol_State
  xq_event :: TSEMevent_State
  xq_aggregate :: "buf option"
  xq_model_error :: bool
  xq_enforce :: bool
  xq_kills :: "bool list"
  xq_cmdbufr :: buf
  xq_connected :: bool
  xq_sent :: "byte list list"
  xq_errno :: int
  xq_duct :: 'd

record 'd xen_environment =
  xe_send :: "byte list \<Rightarrow> 'd \<Rightarrow> bool \<times> 'd"
  xe_receive :: "'d \<Rightarrow> (byte list option \<times> 'd) option"
  xe_cell :: Cell_State
  xe_control :: "byte list list \<Rightarrow> bool"
  xe_mgmt :: "byte list list \<Rightarrow> bool"
  xe_file :: "byte list list \<Rightarrow> bool"

definition Xen_Init :: "bool \<Rightarrow> int \<Rightarrow> 'd \<Rightarrow> 'd Xen_State" where
  "Xen_Init enforce errno d =
     \<lparr>xq_control = TSEMcontrol_Init, xq_event = TSEMevent_Init, xq_aggregate = None, xq_model_error = False,
      xq_enforce = enforce, xq_kills = [], xq_cmdbufr = buf_empty, xq_connected = False, xq_sent = [],
      xq_errno = errno, xq_duct = d\<rparr>"

definition Xen_kill_cartridge :: "bool \<Rightarrow> 'd Xen_State \<Rightarrow> 'd Xen_State" where
  "Xen_kill_cartridge wait st = st\<lparr>xq_kills := xq_kills st @ [wait]\<rparr>"

definition on_Xen_control ::
  "(TSEMcontrol_State \<Rightarrow> (unit, TSEMcontrol_State) res) \<Rightarrow> 'd Xen_State \<Rightarrow> (unit, 'd Xen_State) res" where
  "on_Xen_control f st = zoom (\<lambda>c. st\<lparr>xq_control := c\<rparr>) (f (xq_control st))"

section \<open>Messages to the agent\<close>

definition duct_send :: "'d xen_environment \<Rightarrow> byte list \<Rightarrow> 'd Xen_State \<Rightarrow> (unit, 'd Xen_State) res" where
  "duct_send env msg st =
     (case xe_send env msg (xq_duct st) of
        (sent, d) \<Rightarrow> if sent then Ret () (st\<lparr>xq_duct := d\<rparr>) else Fail (st\<lparr>xq_duct := d\<rparr>))"

definition duct_receive :: "'d xen_environment \<Rightarrow> 'd Xen_State \<Rightarrow> (byte list, 'd Xen_State) res" where
  "duct_receive env st =
     (case xe_receive env (xq_duct st) of
        None \<Rightarrow> Undef
      | Some (None, d) \<Rightarrow> Fail (st\<lparr>xq_duct := d\<rparr>)
      | Some (Some msg, d) \<Rightarrow> Ret msg (st\<lparr>xq_duct := d\<rparr>))"

text \<open>A message and its answer, which is received into the buffer that held the message and was reset.\<close>

definition transact :: "'d xen_environment \<Rightarrow> byte list \<Rightarrow> 'd Xen_State \<Rightarrow> (byte list, 'd Xen_State) res" where
  "transact env msg st = res_bind (duct_send env msg st) (\<lambda>_. duct_receive env)"

section \<open>Events of the workload\<close>

text \<open>Only the first aggregate is sent; any answer to it will do.  The aggregate is stored before it is converted.\<close>

definition Xen_add_aggregate :: "'d xen_environment \<Rightarrow> 'd Xen_State \<Rightarrow> (unit, 'd Xen_State) res" where
  "Xen_add_aggregate env st =
     (case xq_aggregate st of
        Some _ \<Rightarrow> Ret () st
      | None \<Rightarrow>
          (case TSEMevent_get_text ''value'' (xq_event st, hs_empty) of
             Undef \<Rightarrow> Undef
           | Fail (ev, _) \<Rightarrow> Fail (st\<lparr>xq_event := ev\<rparr>)
           | Ret _ (ev, value) \<Rightarrow>
               (case hs_get value of
                  None \<Rightarrow> Undef
                | Some t \<Rightarrow>
                    res_bind
                      (zoom (\<lambda>b. st\<lparr>xq_event := ev, xq_aggregate := Some b\<rparr>) (buf_add_hexstring (Some t) buf_empty))
                      (\<lambda>_ st. res_bind (transact env (''aggregate '' @ t @ [NUL]) st) (\<lambda>_. Ret ())))))"

text \<open>
  The memory behind the answer holds 0, as far as it belongs to the buffer: the comparisons stop there.  The number
  behind the blank is read by \<open>strtoll\<close>, for which the answer must hold a NUL.
\<close>

definition reply_pid :: "byte list \<Rightarrow> 'd Xen_State \<Rightarrow> (u32, 'd Xen_State) res" where
  "reply_pid reply st =
     (case behind_blank reply of
        None \<Rightarrow> Undef
      | Some None \<Rightarrow> Fail st
      | Some (Some p) \<Rightarrow>
          (case c_string p of
             None \<Rightarrow> Undef
           | Some t \<Rightarrow>
               (let st1 = (if snd (strtoll10 t) then st\<lparr>xq_errno := ERANGE\<rparr> else st)
                in if xq_errno st1 = ERANGE then Fail st1 else Ret (word_of_int (fst (strtoll10 t))) st1)))"

text \<open>After a model error every process is released; \<open>update\<close> is the command that was sent.\<close>

definition release_actor :: "'d xen_environment \<Rightarrow> string \<Rightarrow> 'd Xen_State \<Rightarrow> (unit, 'd Xen_State) res" where
  "release_actor env update st =
     (case SecurityEvent_parse ((SecurityEvent_Init (xe_cell env), hs_of update), xq_errno st) of
        Undef \<Rightarrow> Undef
      | Fail (_, errno) \<Rightarrow> Fail (st\<lparr>xq_errno := errno\<rparr>)
      | Ret _ ((exchange, _), errno) \<Rightarrow>
          (case SecurityEvent_get_pid exchange of
             None \<Rightarrow> Fail (st\<lparr>xq_errno := errno\<rparr>)
           | Some pid \<Rightarrow>
               on_Xen_control (TSEMcontrol_release (xe_control env) pid) (st\<lparr>xq_errno := errno\<rparr>)))"

text \<open>What is done with the answer to the command \<open>update\<close>, for an event of the type.\<close>

definition follow_verdict ::
  "'d xen_environment \<Rightarrow> TSEM_export_type \<Rightarrow> string \<Rightarrow> byte list \<Rightarrow> 'd Xen_State \<Rightarrow> (unit, 'd Xen_State) res" where
  "follow_verdict env type update reply st =
     (if type \<noteq> TSEM_EVENT_EVENT \<and> type \<noteq> TSEM_EVENT_ASYNC_EVENT then
        (if is_prefix ''OK'' reply then Ret () st else Fail st)
      else if xq_model_error st then release_actor env update st
      else if \<not> is_prefix ''RELEASE '' reply \<and> \<not> is_prefix ''DISCIPLINE '' reply then Fail st
      else
        (let trusted = is_prefix ''RELEASE '' reply
         in if type = TSEM_EVENT_ASYNC_EVENT then
              Ret () (if \<not> trusted \<and> xq_enforce st then Xen_kill_cartridge True st else st)
            else res_bind (reply_pid reply st) (\<lambda>pid.
              if trusted then attempt (on_Xen_control (TSEMcontrol_release (xe_control env) pid))
              else attempt (on_Xen_control (TSEMcontrol_discipline (xe_control env) pid)))))"

definition Xen_process_event :: "'d xen_environment \<Rightarrow> 'd Xen_State \<Rightarrow> (unit, 'd Xen_State) res" where
  "Xen_process_event env st =
     (case TSEMevent_extract_export (TSEMevent_reset (xq_event st)) of
        Undef \<Rightarrow> Undef
      | Fail ev \<Rightarrow> Fail (st\<lparr>xq_event := ev\<rparr>)
      | Ret type ev \<Rightarrow>
          (let st1 = st\<lparr>xq_event := ev\<rparr>
           in if type = TSEM_EVENT_UNKNOWN then Fail st1
              else if type = TSEM_EVENT_AGGREGATE then Xen_add_aggregate env st1
              else
                (case TSEMevent_get_event ev of
                   None \<Rightarrow> Undef
                 | Some t \<Rightarrow>
                     (let update = (if type = TSEM_EVENT_LOG then ''log '' else ''export '') @ t
                      in res_bind (transact env (update @ [NUL]) st1) (follow_verdict env type update)))))"

section \<open>Management commands\<close>

text \<open>The buffer of the command holds what is sent and received.\<close>

definition Xen_fill :: "byte list \<Rightarrow> 'd Xen_State \<Rightarrow> 'd Xen_State" where
  "Xen_fill bs st = st\<lparr>xq_cmdbufr := (case buf_add bs (buf_reset (xq_cmdbufr st)) of
                                       Ret _ b \<Rightarrow> b | Fail b \<Rightarrow> b | Undef \<Rightarrow> xq_cmdbufr st)\<rparr>"

definition mgmt_send :: "'d xen_environment \<Rightarrow> 'd Xen_State \<Rightarrow> (unit, 'd Xen_State) res" where
  "mgmt_send env st =
     (if \<not> b_poisoned (xq_cmdbufr st) \<and> xe_mgmt env (xq_sent st)
      then Ret () (st\<lparr>xq_sent := xq_sent st @ [b_data (xq_cmdbufr st)]\<rparr>) else Fail st)"

text \<open>One message of the agent is passed on.\<close>

definition relay :: "'d xen_environment \<Rightarrow> 'd Xen_State \<Rightarrow> (unit, 'd Xen_State) res" where
  "relay env st = res_bind (duct_receive env st) (\<lambda>msg st. mgmt_send env (Xen_fill msg st))"

text \<open>A command of the agent with one answer.\<close>

definition relay_command :: "'d xen_environment \<Rightarrow> string \<Rightarrow> 'd Xen_State \<Rightarrow> (unit, 'd Xen_State) res" where
  "relay_command env cmd st = res_bind (duct_send env (cmd @ [NUL]) (Xen_fill (cmd @ [NUL]) st)) (\<lambda>_. relay env)"

fun relay_list :: "'d xen_environment \<Rightarrow> nat \<Rightarrow> 'd Xen_State \<Rightarrow> (unit, 'd Xen_State) res" where
  "relay_list env 0 st = Ret () st"
| "relay_list env (Suc cnt) st = res_bind (relay env st) (\<lambda>_. relay_list env cnt)"

text \<open>
  A command with a list for its answer, which starts with the number of its messages.  The command is sent without
  its NUL.  The number is an \<open>unsigned int\<close> at the start of the buffer, which holds 0 behind a short message.
\<close>

definition Xen_send_list :: "'d xen_environment \<Rightarrow> string \<Rightarrow> 'd Xen_State \<Rightarrow> (unit, 'd Xen_State) res" where
  "Xen_send_list env cmd st =
     res_bind (transact env cmd (Xen_fill cmd st)) (\<lambda>msg st.
       res_bind (mgmt_send env (Xen_fill msg st)) (\<lambda>_. relay_list env (le_value (take 4 msg))))"

text \<open>The aggregate must exist.  The interpreter has no command \<open>show points\<close>.\<close>

definition Xen_send_map :: "'d xen_environment \<Rightarrow> 'd Xen_State \<Rightarrow> (unit, 'd Xen_State) res" where
  "Xen_send_map env st =
     (case xq_aggregate st of
        None \<Rightarrow> Undef
      | Some aggregate \<Rightarrow>
          if b_poisoned aggregate \<or> \<not> xe_mgmt env (xq_sent st) then Fail st
          else Xen_send_list env ''show points'' (st\<lparr>xq_sent := xq_sent st @ [b_data aggregate]\<rparr>))"

definition Xen_process_command :: "'d xen_environment \<Rightarrow> 'd Xen_State \<Rightarrow> (unit, 'd Xen_State) res" where
  "Xen_process_command env st =
     (if buf_size (xq_cmdbufr st) \<noteq> 4 then Fail st
      else
        (case command_of (b_data (xq_cmdbufr st)) of
           Some seal_event \<Rightarrow> relay_command env ''seal'' st
         | Some show_measurement \<Rightarrow> relay_command env ''show measurement'' st
         | Some show_state \<Rightarrow> relay_command env ''show state'' st
         | Some show_trajectory \<Rightarrow> Xen_send_list env ''show trajectory'' st
         | Some show_coefficients \<Rightarrow> Xen_send_list env ''show coefficients'' st
         | Some show_counts \<Rightarrow> Xen_send_list env ''show counts'' st
         | Some show_forensics \<Rightarrow> Xen_send_list env ''show forensics'' st
         | Some show_forensics_coefficients \<Rightarrow> Xen_send_list env ''show forensics_coefficients'' st
         | Some show_forensics_counts \<Rightarrow> Xen_send_list env ''show forensics_counts'' st
         | Some show_events \<Rightarrow> Xen_send_list env ''show events'' st
         | Some show_map \<Rightarrow> Xen_send_map env st
         | Some enable_cell \<Rightarrow> relay_command env ''enable cellular'' st
         | Some sancho_reset \<Rightarrow> relay_command env ''reset'' st
         | _ \<Rightarrow> Fail st))"

section \<open>Loading and saving models\<close>

fun Xen_load_entries :: "'d xen_environment \<Rightarrow> string list \<Rightarrow> 'd Xen_State \<Rightarrow> (unit, 'd Xen_State) res" where
  "Xen_load_entries env [] st = Ret () st"
| "Xen_load_entries env (entry # entries) st =
     res_bind (transact env (''load '' @ entry @ [NUL]) st) (\<lambda>msg st.
       if is_prefix ''OK'' msg then Xen_load_entries env entries st else Fail st)"

definition Xen_load_model :: "'d xen_environment \<Rightarrow> string list option \<Rightarrow> 'd Xen_State \<Rightarrow> (unit, 'd Xen_State) res" where
  "Xen_load_model env file st =
     (case file of None \<Rightarrow> Fail st | Some entries \<Rightarrow> Xen_load_entries env entries st)"

text \<open>The NUL of each event is replaced by the end of the line.  The file is what was written.\<close>

fun Xen_write_events ::
  "'d xen_environment \<Rightarrow> nat \<Rightarrow> 'd Xen_State \<times> byte list list \<Rightarrow> (unit, 'd Xen_State \<times> byte list list) res" where
  "Xen_write_events env 0 w = Ret () w"
| "Xen_write_events env (Suc cnt) w =
     (case w of (st, file) \<Rightarrow>
        res_bind (zoom (\<lambda>st. (st, file)) (duct_receive env st)) (\<lambda>msg (st, file).
          if xe_file env file then Xen_write_events env cnt (st, file @ [butlast msg @ end_line])
          else Fail (st, file)))"

definition Xen_output_trajectory ::
  "'d xen_environment \<Rightarrow> bool \<Rightarrow> 'd Xen_State \<Rightarrow> (unit, 'd Xen_State \<times> byte list list) res" where
  "Xen_output_trajectory env opened st =
     (if \<not> opened then Fail (st, [])
      else res_bind (zoom (\<lambda>st. (st, [])) (transact env ''show trajectory'' st)) (\<lambda>msg.
        Xen_write_events env (le_value (take 4 msg))))"

text \<open>Each coefficient is a text with its NUL.\<close>

fun Xen_write_points ::
  "'d xen_environment \<Rightarrow> nat \<Rightarrow> 'd Xen_State writer \<Rightarrow> (unit, 'd Xen_State writer) res" where
  "Xen_write_points env 0 w = Ret () w"
| "Xen_write_points env (Suc cnt) w =
     (case w of (st, rest) \<Rightarrow>
        res_bind (zoom (\<lambda>st. (st, rest)) (duct_receive env st)) (\<lambda>msg w.
          (case c_string msg of
             None \<Rightarrow> Undef
           | Some t \<Rightarrow>
               res_bind (steps [new_text (''state '' @ t), write_text (xe_file env) end_line] w)
                 (\<lambda>_. Xen_write_points env cnt))))"

definition Xen_output_model ::
  "'d xen_environment \<Rightarrow> bool \<Rightarrow> 'd Xen_State \<Rightarrow> (unit, 'd Xen_State \<times> byte list list) res" where
  "Xen_output_model env opened st =
     (if \<not> opened then Fail (st, [])
      else zoom (\<lambda>(st, str, bufr, file). (st, file))
        (steps
           [new_text ''aggregate '',
            (\<lambda>(st, str, bufr, file). case xq_aggregate st of
               None \<Rightarrow> Undef
             | Some a \<Rightarrow> Ret () (st, encode_buffer (if b_poisoned a then [] else b_data a) str, bufr, file)),
            write_text (xe_file env) end_line,
            (\<lambda>(st, rest). res_bind (zoom (\<lambda>st. (st, rest)) (transact env (''show coefficients'' @ end_line) st))
               (\<lambda>msg. Xen_write_points env (le_value (take 4 msg)))),
            new_text (''seal'' @ end_line),
            write_text (xe_file env) [],
            new_text (''end'' @ end_line),
            write_text (xe_file env) []] (st, hs_empty, buf_empty, [])))"

section \<open>The monitor\<close>

partial_function (option) Xen_drain_events ::
  "'d xen_environment \<Rightarrow> 'd Xen_State \<Rightarrow> (unit, 'd Xen_State) res option" where
  "Xen_drain_events env st =
     (case TSEMevent_fetch_event (xq_event st, True) of
        Undef \<Rightarrow> Some Undef
      | Fail (ev, _) \<Rightarrow> Some (Ret () (Xen_kill_cartridge False (st\<lparr>xq_event := ev\<rparr>)))
      | Ret _ (ev, event) \<Rightarrow>
          (case Xen_process_event env (st\<lparr>xq_event := ev\<rparr>) of
             Undef \<Rightarrow> Some Undef
           | Fail st1 \<Rightarrow> Some (Ret () (st1\<lparr>xq_model_error := True\<rparr>))
           | Ret _ st1 \<Rightarrow> if event then Xen_drain_events env st1 else Some (Ret () st1)))"

text \<open>A message that cannot be received is skipped here; a command that fails kills the workload.\<close>

definition Xen_manage ::
  "'d xen_environment \<Rightarrow> bool \<Rightarrow> byte list option \<Rightarrow> bool \<Rightarrow> bool \<Rightarrow> 'd Xen_State \<Rightarrow>
   (monitor_answer, 'd Xen_State) res" where
  "Xen_manage env accepted msg eof socket st =
     (if \<not> xq_connected st then
        (if accepted then Ret Goes_on (st\<lparr>xq_connected := True\<rparr>) else Ret (Ends False) st)
      else
        (case msg of
           None \<Rightarrow> Ret Goes_on st
         | Some bs \<Rightarrow>
             (case buf_add bs (xq_cmdbufr st) of
                Undef \<Rightarrow> Undef
              | Fail b \<Rightarrow> Ret Goes_on (st\<lparr>xq_cmdbufr := b\<rparr>)
              | Ret _ b \<Rightarrow>
                  (let st1 = st\<lparr>xq_cmdbufr := b\<rparr>
                   in if eof then
                        (if socket then Ret Goes_on (st1\<lparr>xq_connected := False\<rparr>) else Ret (Ends False) st1)
                      else
                        (case Xen_process_command env st1 of
                           Undef \<Rightarrow> Undef
                         | Fail st2 \<Rightarrow>
                             Ret Goes_on (Xen_kill_cartridge False
                               (st2\<lparr>xq_model_error := True, xq_cmdbufr := buf_reset (xq_cmdbufr st2)\<rparr>))
                         | Ret _ st2 \<Rightarrow> Ret Goes_on (st2\<lparr>xq_cmdbufr := buf_reset (xq_cmdbufr st2)\<rparr>))))))"

definition Xen_monitor_step ::
  "'d xen_environment \<Rightarrow> monitor_input \<Rightarrow> 'd Xen_State \<Rightarrow> (monitor_answer, 'd Xen_State) res option" where
  "Xen_monitor_step env inp st =
     (case inp of
        Poll_error stop child exited \<Rightarrow>
          Some (if stop then Ret (Ends True) (Xen_kill_cartridge True st)
                else if child then Ret (if exited then Ends True else Goes_on) st
                else Ret (Ends True) (Xen_kill_cartridge True st))
      | Hangup stop child exited \<Rightarrow>
          Some (if stop then Ret (Ends True) st
                else if child then Ret (if exited then Ends True else Goes_on) st
                else Ret Goes_on st)
      | Event_input available bs \<Rightarrow>
          (case TSEMevent_read_event available bs (xq_event st) of
             Undef \<Rightarrow> Some Undef
           | Fail ev \<Rightarrow> Some (Ret (Ends False) (Xen_kill_cartridge False (st\<lparr>xq_event := ev\<rparr>)))
           | Ret _ ev \<Rightarrow>
               map_option
                 (\<lambda>r. res_bind r (\<lambda>_ st1.
                    if xq_model_error st1 then Ret (Ends False) (Xen_kill_cartridge False st1) else Ret Goes_on st1))
                 (Xen_drain_events env (st\<lparr>xq_event := ev\<rparr>)))
      | Command_input accepted msg eof socket \<Rightarrow> Some (Xen_manage env accepted msg eof socket st))"

fun Xen_child_monitor ::
  "'d xen_environment \<Rightarrow> monitor_input list \<Rightarrow> 'd Xen_State \<Rightarrow> (unit, 'd Xen_State) res option" where
  "Xen_child_monitor env [] st = Some (Ret () st)"
| "Xen_child_monitor env (inp # inputs) st =
     (case Xen_monitor_step env inp st of
        None \<Rightarrow> None
      | Some Undef \<Rightarrow> Some Undef
      | Some (Fail st1) \<Rightarrow> Some (Fail st1)
      | Some (Ret answer st1) \<Rightarrow>
          (case answer of
             Goes_on \<Rightarrow> Xen_child_monitor env inputs st1
           | Ends retn \<Rightarrow> Some (if retn then Ret () st1 else Fail st1)))"

end
