(* ===== verification/TSEMeventLemmas.thy ===== *)
theory TSEMeventLemmas
  imports TSEMevent
begin

text \<open>
  The framing of the export stream: what is buffered, what a read adds and what a fetch removes.
\<close>

section \<open>The buffered bytes\<close>

text \<open>
  \<open>pending\<close> are the bytes that were read and not fetched; behind them the buffer is cleared.  When everything
  was fetched the buffer still holds the last line.
\<close>

definition holds :: "byte list \<Rightarrow> TSEMevent_State \<Rightarrow> bool" where
  "holds pending S \<longleftrightarrow>
     \<not> b_poisoned (te_bufr S) \<and> \<not> h_poisoned (te_event S) \<and> te_size S = of_nat (length pending) \<and>
     length pending < 2 ^ 63 \<and> NUL \<notin> set pending \<and>
     (pending \<noteq> [] \<longrightarrow> (\<exists>k. b_data (te_bufr S) = pending @ replicate k NUL))"

lemma holds_Init: "holds [] TSEMevent_Init"
  by (simp add: holds_def TSEMevent_Init_def buf_empty_def)

lemma unat_small: "n < 2 ^ 63 \<Longrightarrow> unat (of_nat n :: u64) = n"
  by (simp add: unsigned_of_nat take_bit_nat_eq_self)

lemma grow_loop_ok: "\<not> b_poisoned b \<Longrightarrow> grow_loop n b = Ret () (b\<lparr>b_data := b_data b @ replicate n NUL\<rparr>)"
proof (induction n arbitrary: b)
  case (Suc n)
  then show ?case by (simp add: buf_add_def replicate_append_same)
qed simp

lemma read_event_holds:
  assumes "holds pending S" "NUL \<notin> set bs" "length pending + length bs < 2 ^ 63"
  shows "\<exists>T. TSEMevent_read_event (Some (length bs)) (Some bs) S = Ret () T \<and> holds (pending @ bs) T \<and>
     T = S\<lparr>te_bufr := te_bufr T, te_size := te_size T\<rparr> \<and>
     length (b_data (te_bufr S)) \<le> length (b_data (te_bufr T))"
proof -
  let ?u = "length pending" and ?n = "length bs" and ?d = "b_data (te_bufr S)"
  have p: "\<not> b_poisoned (te_bufr S)" "te_size S = of_nat ?u" using assms(1) by (simp_all add: holds_def)
  have sz: "unat (of_nat ?n + te_size S) = ?n + ?u" "unat (te_size S) = ?u"
    using assms(3) unat_small [of "?n + ?u"] unat_small [of ?u] by (simp_all add: p)
  define k where "k = ?n + ?u - length ?d"
  define d where "d = ?d @ replicate k NUL"
  have len: "?n + ?u \<le> length d" "length d = length ?d + k" by (simp_all add: d_def k_def)
  have take: "take ?u d = pending"
    using assms(1) by (cases "pending = []") (auto simp: holds_def d_def)
  define b where "b = pending @ overwrite bs (replicate (length d - ?u) NUL)"
  have b: "b = (pending @ bs) @ replicate (length d - ?u - ?n) NUL"
    by (simp add: b_def overwrite_def)
  let ?T = "S\<lparr>te_bufr := (te_bufr S)\<lparr>b_data := b\<rparr>, te_size := te_size S + of_nat ?n\<rparr>"
  have "TSEMevent_read_event (Some ?n) (Some bs) S = Ret () ?T"
    using p len take sz unfolding TSEMevent_read_event_def
    by (simp add: grow_loop_ok buf_size_def Let_def k_def [symmetric] d_def [symmetric] b_def)
  moreover have "holds (pending @ bs) ?T"
    using assms b by (auto simp: holds_def)
  moreover have "length ?d \<le> length b" using len by (simp add: b)
  ultimately show ?thesis by (intro exI [of _ ?T]) simp
qed

section \<open>Fetching a line\<close>

definition line_ok :: "string \<Rightarrow> bool" where
  "line_ok l \<longleftrightarrow> NUL \<notin> set l \<and> newline \<notin> set l"

lemma strchr_bytes_line: "line_ok l \<Longrightarrow> strchr_bytes (l @ newline # r) newline = Some (Some (length l))"
  by (induction l) (auto simp: line_ok_def newline_def)

lemma strchr_bytes_cleared:
  assumes "NUL \<notin> set r"
  shows "strchr_bytes (r @ replicate (Suc k) NUL) newline =
    Some (if newline \<in> set r then Some (length (takeWhile (\<lambda>c. c \<noteq> newline) r)) else None)"
  using assms by (induction r) (auto simp: newline_def)

lemma strchr_bytes_full: "NUL \<notin> set r \<Longrightarrow> newline \<notin> set r \<Longrightarrow> strchr_bytes r newline = None"
  by (induction r) auto

lemma fetch_event_holds:
  assumes "holds (l @ newline # rest) S" "line_ok l" "length rest \<le> length l + 1"
  shows "\<exists>T. TSEMevent_fetch_event (S, m) =
       Ret () (T, rest \<noteq> [] \<and> (m \<or> newline \<in> set rest)) \<and> holds rest T \<and>
     T = S\<lparr>te_event := hs_of l, te_bufr := te_bufr T, te_size := te_size T\<rparr> \<and>
     length (b_data (te_bufr T)) = length (b_data (te_bufr S)) \<and>
     length rest < length (b_data (te_bufr T))"
proof -
  obtain k where d: "b_data (te_bufr S) = l @ newline # rest @ replicate k NUL"
    using assms(1) by (auto simp: holds_def)
  have S: "\<not> h_poisoned (te_event S)" "te_size S = of_nat (length l + 1 + length rest)" "\<not> b_poisoned (te_bufr S)"
    "NUL \<notin> set rest" "length l + 1 + length rest < 2 ^ 63"
    using assms(1) by (auto simp: holds_def add.commute add.left_commute)
  have found: "strchr_bytes (b_data (te_bufr S)) newline = Some (Some (length l))"
    unfolding d by (rule strchr_bytes_line [OF assms(2)])
  have e: "hs_add l (hs_reset (te_event S)) = Ret () (hs_of l)" by (rule hs_add_reset [OF S(1)])
  have left: "te_size S - of_nat (length l + 1) = of_nat (length rest)" by (simp add: S)
  have ul: "unat (of_nat (length rest) :: u64) = length rest" using S(5) by (intro unat_small) simp
  have zero: "(of_nat (length rest) :: u64) = 0 \<longleftrightarrow> rest = []"
  proof
    assume "(of_nat (length rest) :: u64) = 0"
    with ul have "unat (0 :: u64) = length rest" by (simp only:)
    then show "rest = []" by simp
  qed simp
  define S1 where "S1 = S\<lparr>te_event := hs_of l, te_size := of_nat (length rest),
      te_bufr := (te_bufr S)\<lparr>b_data := (b_data (te_bufr S))[length l := NUL]\<rparr>\<rparr>"
  show ?thesis
  proof (cases "rest = []")
    case True
    have "TSEMevent_fetch_event (S, m) = Ret () (S1, False)"
      using found e left True by (simp add: TSEMevent_fetch_event_def d Let_def S1_def)
    moreover have "holds rest S1" using True S by (simp add: holds_def S1_def)
    ultimately show ?thesis using True by (intro exI [of _ S1]) (simp add: S1_def d)
  next
    case False
    define bs1 where "bs1 = rest @ replicate (Suc (length l + k)) NUL"
    define T where "T = S1\<lparr>te_bufr := (te_bufr S)\<lparr>b_data := bs1\<rparr>\<rparr>"
    have moved: "take (length rest) (drop (Suc (length l)) (b_data (te_bufr S))) @
        replicate (length (b_data (te_bufr S)) - length rest) NUL = bs1"
      by (simp add: d bs1_def)
    have chr: "strchr_bytes bs1 newline \<noteq> None" "(\<exists>x. strchr_bytes bs1 newline = Some (Some x)) \<longleftrightarrow> newline \<in> set rest"
      unfolding bs1_def using strchr_bytes_cleared [OF S(4), of "length l + k"] by (simp_all split: if_splits)
    then obtain r where r: "strchr_bytes bs1 newline = Some r" "r \<noteq> None \<longleftrightarrow> newline \<in> set rest" by auto
    have nz: "te_size S \<noteq> 1 + of_nat (length l)" using left zero False by auto
    have order: "\<not> Suc (length l) < length rest" using assms(3) by simp
    have size: "\<not> length (b_data (te_bufr S)) < Suc (length l) + length rest" by (simp add: d)
    have "TSEMevent_fetch_event (S, m) = Ret () (T, m \<or> newline \<in> set rest)"
      unfolding TSEMevent_fetch_event_def prod.case found option.case
      using e left nz ul order moved r size
      by (simp add: Let_def d T_def S1_def)
    moreover have "\<exists>j. bs1 = rest @ replicate j NUL" unfolding bs1_def by blast
    then have "holds rest T" using S by (simp add: holds_def T_def S1_def)
    ultimately show ?thesis using False by (intro exI [of _ T]) (simp add: T_def S1_def d bs1_def)
  qed
qed

text \<open>More bytes than the line and its newline behind it are copied over themselves.\<close>

lemma fetch_event_overlap:
  assumes "holds (l @ newline # rest) S" "line_ok l" "length l + 1 < length rest"
  shows "TSEMevent_fetch_event (S, m) = Undef"
proof -
  obtain k where d: "b_data (te_bufr S) = l @ newline # rest @ replicate k NUL"
    using assms(1) by (auto simp: holds_def)
  have S: "\<not> h_poisoned (te_event S)" "te_size S = of_nat (length l + 1 + length rest)" "length l + 1 + length rest < 2 ^ 63"
    using assms(1) by (auto simp: holds_def add.commute add.left_commute)
  have found: "strchr_bytes (b_data (te_bufr S)) newline = Some (Some (length l))"
    unfolding d by (rule strchr_bytes_line [OF assms(2)])
  have e: "hs_add l (hs_reset (te_event S)) = Ret () (hs_of l)" by (rule hs_add_reset [OF S(1)])
  have left: "te_size S - of_nat (length l + 1) = of_nat (length rest)" by (simp add: S)
  have ul: "unat (of_nat (length rest) :: u64) = length rest" using S(3) by (intro unat_small) simp
  then have "(of_nat (length rest) :: u64) \<noteq> 0" using assms(3) by (metis not_less_zero unat_0)
  then show ?thesis
    unfolding TSEMevent_fetch_event_def prod.case found option.case
    using e left ul assms(3) by (simp add: Let_def d) (use left in auto)
qed

lemma fetch_event_partial:
  assumes "holds rest S" "newline \<notin> set rest" "length rest < length (b_data (te_bufr S))" "rest \<noteq> []"
  shows "TSEMevent_fetch_event (S, m) = Fail (S, m)"
proof -
  obtain k where d: "b_data (te_bufr S) = rest @ replicate k NUL" "NUL \<notin> set rest"
    using assms(1,4) by (auto simp: holds_def)
  with assms(3) obtain j where "k = Suc j" by (cases k) auto
  with strchr_bytes_cleared [OF d(2), of j] d(1) assms(2) show ?thesis
    by (simp add: TSEMevent_fetch_event_def)
qed

text \<open>Without a byte behind the pending ones the search leaves the buffer.\<close>

lemma fetch_event_overrun:
  assumes "holds rest S" "newline \<notin> set rest" "b_data (te_bufr S) = rest"
  shows "TSEMevent_fetch_event (S, m) = Undef"
  using assms strchr_bytes_full [of rest] by (simp add: TSEMevent_fetch_event_def holds_def)

end
