(* ===== verification/QuixoteLemmas.thy ===== *)
theory QuixoteLemmas
  imports Quixote TSEMeventLemmas SanchoLemmas
begin

text \<open>
  What the operations of the orchestrator leave alone, the loop over the lines that were read, and the model files.
\<close>

section \<open>Operations that leave a part of the state alone\<close>

text \<open>
  \<open>framed U v f\<close>: the updates in \<open>U\<close> commute with \<open>f\<close>, which keeps the view \<open>v\<close>.  It does not look at
  what the updates change, nor change what the view shows.
\<close>

definition framed :: "('s \<Rightarrow> 's) set \<Rightarrow> ('s \<Rightarrow> 'v) \<Rightarrow> ('s \<Rightarrow> ('a, 's) res) \<Rightarrow> bool" where
  "framed U v f \<longleftrightarrow>
     (\<forall>u \<in> U. \<forall>S. f (u S) = zoom u (f S)) \<and> (\<forall>a S T. f S = Ret a T \<or> f S = Fail T \<longrightarrow> v T = v S)"

lemma zoom_zoom [simp]: "zoom f (zoom g r) = zoom (\<lambda>x. f (g x)) r"
  by (cases r) auto

lemma framed_zoom:
  assumes "\<And>u S. u \<in> U \<Longrightarrow> g (u S) = g S" "\<And>u S x. u \<in> U \<Longrightarrow> put (u S) x = u (put S x)" "\<And>S x. v (put S x) = v S"
  shows "framed U v (\<lambda>S. zoom (put S) (g S))"
  unfolding framed_def
proof (intro conjI allI impI ballI)
  fix u S
  assume "u \<in> U"
  then show "zoom (put (u S)) (g (u S)) = zoom u (zoom (put S) (g S))"
    by (cases "g S") (simp_all add: assms(1,2))
next
  fix a S T
  assume "zoom (put S) (g S) = Ret a T \<or> zoom (put S) (g S) = Fail T"
  then obtain x where "T = put S x" by (cases "g S") auto
  then show "v T = v S" by (simp add: assms(3))
qed

lemma framed_case:
  assumes "framed U v f" "framed U v g" "\<And>a. framed U v (h a)"
  shows "framed U v (\<lambda>S. case f S of Undef \<Rightarrow> Undef | Fail S1 \<Rightarrow> g S1 | Ret a S1 \<Rightarrow> h a S1)"
  unfolding framed_def
proof (intro conjI allI impI ballI)
  fix u S
  assume "u \<in> U"
  then show "(case f (u S) of Undef \<Rightarrow> Undef | Fail S1 \<Rightarrow> g S1 | Ret a S1 \<Rightarrow> h a S1) =
      zoom u (case f S of Undef \<Rightarrow> Undef | Fail S1 \<Rightarrow> g S1 | Ret a S1 \<Rightarrow> h a S1)"
    using assms by (cases "f S") (simp_all add: framed_def)
next
  fix a S T
  assume r: "(case f S of Undef \<Rightarrow> Undef | Fail S1 \<Rightarrow> g S1 | Ret a S1 \<Rightarrow> h a S1) = Ret a T \<or>
    (case f S of Undef \<Rightarrow> Undef | Fail S1 \<Rightarrow> g S1 | Ret a S1 \<Rightarrow> h a S1) = Fail T"
  show "v T = v S"
  proof (cases "f S")
    case (Ret c S1)
    with r have "h c S1 = Ret a T \<or> h c S1 = Fail T" by simp
    then have "v T = v S1" using assms(3) unfolding framed_def by blast
    moreover have "v S1 = v S" using assms(1) Ret unfolding framed_def by blast
    ultimately show ?thesis by simp
  next
    case (Fail S1)
    with r have "g S1 = Ret a T \<or> g S1 = Fail T" by simp
    then have "v T = v S1" using assms(2) unfolding framed_def by blast
    moreover have "v S1 = v S" using assms(1) Fail unfolding framed_def by blast
    ultimately show ?thesis by simp
  qed (use r in simp)
qed

lemma framed_Ret [intro]: "framed U v (Ret a)" and framed_Fail [intro]: "framed U v Fail"
  and framed_Undef [intro]: "framed U v (\<lambda>_. Undef)"
  by (simp_all add: framed_def)

lemma framed_bind:
  assumes "framed U v f" "\<And>a. framed U v (g a)"
  shows "framed U v (\<lambda>S. res_bind (f S) g)"
proof -
  have "res_bind (f S) g = (case f S of Undef \<Rightarrow> Undef | Fail S1 \<Rightarrow> Fail S1 | Ret a S1 \<Rightarrow> g a S1)" for S
    by (cases "f S") simp_all
  then show ?thesis using framed_case [OF assms(1) framed_Fail assms(2)] by simp
qed

lemma framed_steps: "(\<And>f. f \<in> set fs \<Longrightarrow> framed U v f) \<Longrightarrow> framed U v (steps fs)"
proof (induction fs)
  case Nil
  show ?case by (simp add: framed_def)
next
  case (Cons f fs)
  then have "framed U v (\<lambda>S. res_bind (f S) (\<lambda>_. steps fs))" by (intro framed_bind) auto
  then show ?case by (simp add: framed_def)
qed

text \<open>A part that is read, and a change in front.\<close>

lemma framed_read:
  assumes "\<And>u S. u \<in> U \<Longrightarrow> p (u S) = p S" "\<And>x. framed U v (f x)"
  shows "framed U v (\<lambda>S. f (p S) S)"
  using assms unfolding framed_def by simp

lemma framed_modify:
  assumes "\<And>u S. u \<in> U \<Longrightarrow> m (u S) = u (m S)" "\<And>S. v (m S) = v S" "framed U v f"
  shows "framed U v (\<lambda>S. f (m S))"
  using assms unfolding framed_def by simp

lemma framed_option:
  "framed U v n \<Longrightarrow> (\<And>y. framed U v (f y)) \<Longrightarrow> framed U v (\<lambda>S. case x of None \<Rightarrow> n S | Some y \<Rightarrow> f y S)"
  by (cases x) simp_all

lemma framed_read_option:
  assumes "\<And>u S. u \<in> U \<Longrightarrow> p (u S) = p S" "framed U v n" "\<And>y. framed U v (f y)"
  shows "framed U v (\<lambda>S. case p S of None \<Rightarrow> n S | Some y \<Rightarrow> f y S)"
  by (rule framed_read [where f = "\<lambda>x S. case x of None \<Rightarrow> n S | Some y \<Rightarrow> f y S" and p = p])
    (simp_all add: assms framed_option)

lemma framed_read_res:
  assumes "\<And>u S. u \<in> U \<Longrightarrow> p (u S) = p S" "\<And>s. framed U v (g s)" "\<And>a s. framed U v (h a s)"
  shows "framed U v (\<lambda>S. case p S of Undef \<Rightarrow> Undef | Fail s \<Rightarrow> g s S | Ret a s \<Rightarrow> h a s S)"
proof (rule framed_read [where f = "\<lambda>x S. case x of Undef \<Rightarrow> Undef | Fail s \<Rightarrow> g s S | Ret a s \<Rightarrow> h a s S" and p = p])
  show "framed U v (\<lambda>S. case x of Undef \<Rightarrow> Undef | Fail s \<Rightarrow> g s S | Ret a s \<Rightarrow> h a s S)" for x
    by (cases x) (simp_all add: assms framed_Undef)
qed (rule assms)

lemma framed_if: "framed U v f \<Longrightarrow> framed U v g \<Longrightarrow> framed U v (\<lambda>S. if c then f S else g S)"
  by (cases c) simp_all

lemma framed_read_if:
  assumes "\<And>u S. u \<in> U \<Longrightarrow> p (u S) = p S" "framed U v f" "framed U v g"
  shows "framed U v (\<lambda>S. if p S then f S else g S)"
  by (rule framed_read [where f = "\<lambda>x S. if x then f S else g S" and p = p]) (simp_all add: assms framed_if)

lemma framed_attempt: "framed U v f \<Longrightarrow> framed U v (attempt f)"
  unfolding framed_def attempt.simps
  by (intro conjI allI impI ballI) (auto split: res.splits)

lemma framedD:
  "framed U v f \<Longrightarrow> u \<in> U \<Longrightarrow> f (u S) = zoom u (f S)" "framed U v f \<Longrightarrow> f S = Ret a T \<Longrightarrow> v T = v S"
  "framed U v f \<Longrightarrow> f S = Fail T \<Longrightarrow> v T = v S"
  by (auto simp: framed_def)

section \<open>The buffered bytes and the current line\<close>

definition rebuffer :: "buf \<Rightarrow> u64 \<Rightarrow> TSEMevent_State \<Rightarrow> TSEMevent_State" where
  "rebuffer b n S = S\<lparr>te_bufr := b, te_size := n\<rparr>"

definition rebuffers :: "(TSEMevent_State \<Rightarrow> TSEMevent_State) set" where
  "rebuffers = {rebuffer b n | b n. True}"

definition stream_view :: "TSEMevent_State \<Rightarrow> buf \<times> u64 \<times> hstr" where
  "stream_view S = (te_bufr S, te_size S, te_event S)"

lemma rebuffer_parts [simp]:
  assumes "u \<in> rebuffers"
  shows "te_type (u S) = te_type S" "te_event (u S) = te_event S" "te_field (u S) = te_field S"
    "te_parser (u S) = te_parser S"
  using assms by (auto simp: rebuffers_def rebuffer_def)

lemma rebuffer_updates [simp]:
  assumes "u \<in> rebuffers"
  shows "te_parser_update f (u S) = u (te_parser_update f S)" "te_type_update g (u S) = u (te_type_update g S)"
    "te_field_update h (u S) = u (te_field_update h S)"
  using assms by (auto simp: rebuffers_def rebuffer_def)

lemma stream_view_updates [simp]:
  "stream_view (te_parser_update f S) = stream_view S" "stream_view (te_type_update g S) = stream_view S"
  "stream_view (te_field_update h S) = stream_view S"
  by (simp_all add: stream_view_def)

abbreviation unbuffered :: "(TSEMevent_State \<Rightarrow> ('a, TSEMevent_State) res) \<Rightarrow> bool" where
  "unbuffered \<equiv> framed rebuffers stream_view"

lemma unbuffered_event_extract: "unbuffered (event_extract field)"
  unfolding event_extract_def on_parser_def by (rule framed_zoom) simp_all

lemma reset_parser_view [simp]:
  "u \<in> rebuffers \<Longrightarrow> reset_parser (u S) = u (reset_parser S)" "stream_view (reset_parser S) = stream_view S"
  by (simp_all add: reset_parser_def)

lemma unbuffered_extract_export: "unbuffered TSEMevent_extract_export"
proof -
  have type: "unbuffered (\<lambda>S. zoom (\<lambda>(p, t). S\<lparr>te_parser := p, te_field := t\<rparr>)
                (TSEMparser_get_text (Some ''type'') (te_parser S, te_field S)))"
    by (rule framed_zoom) (auto simp: stream_view_def)
  have selected: "unbuffered (\<lambda>S. steps
       [(\<lambda>S. if type = TSEM_EVENT_ASYNC_EVENT
             then zoom (\<lambda>t. S\<lparr>te_field := t\<rparr>) (hs_add ''event'' (hs_reset (te_field S))) else Ret () S),
        assign reset_parser,
        (\<lambda>S. case hs_get (te_field S) of None \<Rightarrow> Undef | Some field \<Rightarrow> event_extract field S)] (S\<lparr>te_type := type\<rparr>))"
    for type
  proof (rule framed_modify [where f = "steps _"])
    show "unbuffered (steps
       [(\<lambda>S. if type = TSEM_EVENT_ASYNC_EVENT
             then zoom (\<lambda>t. S\<lparr>te_field := t\<rparr>) (hs_add ''event'' (hs_reset (te_field S))) else Ret () S),
        assign reset_parser,
        (\<lambda>S. case hs_get (te_field S) of None \<Rightarrow> Undef | Some field \<Rightarrow> event_extract field S)])"
    proof (rule framed_steps, simp only: list.set insert_iff empty_iff, elim disjE FalseE)
      fix f :: "TSEMevent_State \<Rightarrow> (unit, TSEMevent_State) res"
      assume f: "f = (\<lambda>S. if type = TSEM_EVENT_ASYNC_EVENT
             then zoom (\<lambda>t. S\<lparr>te_field := t\<rparr>) (hs_add ''event'' (hs_reset (te_field S))) else Ret () S)"
      have "unbuffered (\<lambda>S. zoom (\<lambda>t. S\<lparr>te_field := t\<rparr>) (hs_add ''event'' (hs_reset (te_field S))))"
        by (rule framed_zoom) simp_all
      then show "unbuffered f" unfolding f by (cases "type = TSEM_EVENT_ASYNC_EVENT") auto
    next
      fix f :: "TSEMevent_State \<Rightarrow> (unit, TSEMevent_State) res"
      assume "f = assign reset_parser"
      then show "unbuffered f" by (simp add: framed_def)
    next
      fix f :: "TSEMevent_State \<Rightarrow> (unit, TSEMevent_State) res"
      assume f: "f = (\<lambda>S. case hs_get (te_field S) of None \<Rightarrow> Undef | Some field \<Rightarrow> event_extract field S)"
      show "unbuffered f"
        unfolding f by (rule framed_read_option) (auto intro: unbuffered_event_extract)
    qed
  qed simp_all
  have found: "unbuffered (\<lambda>S1. case hs_get (te_field S1) of
        None \<Rightarrow> Undef
      | Some name \<Rightarrow> (case find_export TSEM_events name of
            None \<Rightarrow> Ret TSEM_EVENT_UNKNOWN S1
          | Some type \<Rightarrow> (case steps
               [(\<lambda>S. if type = TSEM_EVENT_ASYNC_EVENT
                     then zoom (\<lambda>t. S\<lparr>te_field := t\<rparr>) (hs_add ''event'' (hs_reset (te_field S))) else Ret () S),
                assign reset_parser,
                (\<lambda>S. case hs_get (te_field S) of None \<Rightarrow> Undef | Some field \<Rightarrow> event_extract field S)]
                (S1\<lparr>te_type := type\<rparr>) of
               Undef \<Rightarrow> Undef | Fail S2 \<Rightarrow> Ret type S2 | Ret _ S2 \<Rightarrow> Ret type S2)))"
    by (rule framed_read_option) (simp, auto intro!: framed_option framed_case selected)
  show ?thesis
    unfolding TSEMevent_extract_export_def
    by (rule framed_case, rule framed_modify [where f = "steps _"])
      (auto intro!: framed_steps type unbuffered_event_extract found)
qed

section \<open>The orchestrator leaves the stream alone\<close>

definition restreams :: "(Quixote_State \<Rightarrow> Quixote_State) set" where
  "restreams = {\<lambda>st. st\<lparr>qx_event := u (qx_event st)\<rparr> | u. u \<in> rebuffers}"

definition loop_view :: "Quixote_State \<Rightarrow> (buf \<times> u64 \<times> hstr) \<times> bool \<times> bool list" where
  "loop_view st = (stream_view (qx_event st), qx_model_error st, [])"

lemma restream_parts [simp]:
  assumes "u \<in> restreams"
  shows "qx_model (u st) = qx_model st" "qx_control (u st) = qx_control st" "qx_aggregate (u st) = qx_aggregate st"
    "qx_model_error (u st) = qx_model_error st" "qx_enforce (u st) = qx_enforce st" "qx_kills (u st) = qx_kills st"
    "qx_errno (u st) = qx_errno st" "te_event (qx_event (u st)) = te_event (qx_event st)"
  using assms by (auto simp: restreams_def)

lemma restream_updates [simp]:
  assumes "u \<in> restreams"
  shows "qx_model_update a (u st) = u (qx_model_update a st)" "qx_control_update b (u st) = u (qx_control_update b st)"
    "qx_aggregate_update c (u st) = u (qx_aggregate_update c st)"
    "qx_errno_update d (u st) = u (qx_errno_update d st)" "qx_kills_update e (u st) = u (qx_kills_update e st)"
  using assms by (auto simp: restreams_def)

lemma loop_view_updates [simp]:
  "loop_view (qx_model_update a st) = loop_view st" "loop_view (qx_control_update b st) = loop_view st"
  "loop_view (qx_aggregate_update c st) = loop_view st" "loop_view (qx_errno_update d st) = loop_view st"
  "loop_view (qx_kills_update e st) = loop_view st"
  by (simp_all add: loop_view_def)

abbreviation streamless :: "(Quixote_State \<Rightarrow> ('a, Quixote_State) res) \<Rightarrow> bool" where
  "streamless \<equiv> framed restreams loop_view"

lemma streamless_event:
  assumes "unbuffered f"
  shows "streamless (\<lambda>st. zoom (\<lambda>e. st\<lparr>qx_event := e\<rparr>) (f (qx_event st)))"
  unfolding framed_def
proof (intro conjI allI impI ballI)
  fix u and st :: Quixote_State
  assume "u \<in> restreams"
  then obtain w where w: "w \<in> rebuffers" "u = (\<lambda>st. st\<lparr>qx_event := w (qx_event st)\<rparr>)" by (auto simp: restreams_def)
  have "f (w (qx_event st)) = zoom w (f (qx_event st))" by (rule framedD(1) [OF assms w(1)])
  then show "zoom (\<lambda>e. u st\<lparr>qx_event := e\<rparr>) (f (qx_event (u st))) = zoom u (zoom (\<lambda>e. st\<lparr>qx_event := e\<rparr>) (f (qx_event st)))"
    using w(2) by (cases "f (qx_event st)") simp_all
next
  fix a and st t :: Quixote_State
  assume r: "zoom (\<lambda>e. st\<lparr>qx_event := e\<rparr>) (f (qx_event st)) = Ret a t \<or> zoom (\<lambda>e. st\<lparr>qx_event := e\<rparr>) (f (qx_event st)) = Fail t"
  then obtain e where e: "f (qx_event st) = Ret a e \<or> f (qx_event st) = Fail e" "t = st\<lparr>qx_event := e\<rparr>"
    by (cases "f (qx_event st)") auto
  then have "stream_view e = stream_view (qx_event st)" using framedD(2,3) [OF assms] by blast
  then show "loop_view t = loop_view st" using e(2) by (simp add: loop_view_def)
qed

lemma streamless_control: "streamless (on_control f)"
  unfolding on_control_def by (rule framed_zoom) simp_all

lemma streamless_parse_update:
  assumes "\<And>event. streamless (f event)"
  shows "streamless (parse_update env update f)"
proof -
  have "streamless (\<lambda>st. case SecurityEvent_parse ((SecurityEvent_Init (env_cell env), update), qx_errno st) of
        Undef \<Rightarrow> Undef
      | Fail s \<Rightarrow> Fail (st\<lparr>qx_errno := snd s\<rparr>)
      | Ret u s \<Rightarrow> f (fst (fst s)) (st\<lparr>qx_errno := snd s\<rparr>))"
    by (rule framed_read_res) (simp, rule framed_modify [where f = Fail], auto intro!: framed_modify [where f = "f _"] assms)
  then show ?thesis unfolding parse_update_def [abs_def] split_def .
qed

lemma streamless_update_model:
  assumes "\<And>d s pid. streamless (f d s pid)"
  shows "streamless (update_model env event f)"
proof -
  have "streamless (\<lambda>st. case TSEM_update (cr_sha (env_crypto env)) (qx_model st, event) of
        Undef \<Rightarrow> Undef
      | Fail s \<Rightarrow> Fail (st\<lparr>qx_model := fst s\<rparr>)
      | Ret r s \<Rightarrow> (case TSEM_discipline_pid (fst s) of
            Ret pid model1 \<Rightarrow> f (fst (snd r)) (snd (snd r)) pid (st\<lparr>qx_model := model1\<rparr>)
          | Fail _ \<Rightarrow> Undef | Undef \<Rightarrow> Undef))"
  proof (rule framed_read_res, simp)
    show "streamless (\<lambda>st. Fail (st\<lparr>qx_model := fst s\<rparr>))" for s :: "TSEM_State \<times> SecurityEvent_State"
      by (rule framed_modify [where f = Fail]) auto
    show "streamless (\<lambda>st. case TSEM_discipline_pid (fst s) of
            Ret pid model1 \<Rightarrow> f (fst (snd r)) (snd (snd r)) pid (st\<lparr>qx_model := model1\<rparr>)
          | Fail _ \<Rightarrow> Undef | Undef \<Rightarrow> Undef)" for r :: "bool \<times> bool \<times> bool" and s :: "TSEM_State \<times> SecurityEvent_State"
      by (cases "TSEM_discipline_pid (fst s)") (auto intro!: framed_modify [where f = "f _ _ _"] assms)
  qed
  then show ?thesis unfolding update_model_def [abs_def] split_def .
qed

definition get_value :: "string \<Rightarrow> hstr \<Rightarrow> TSEMevent_State \<Rightarrow> (hstr, TSEMevent_State) res" where
  "get_value key str S =
     (case TSEMevent_get_text key (S, str) of
        Undef \<Rightarrow> Undef | Fail (ev, _) \<Rightarrow> Fail ev | Ret _ (ev, v) \<Rightarrow> Ret v ev)"

lemma unbuffered_get_value: "unbuffered (get_value key str)"
proof -
  have "unbuffered (\<lambda>S. if te_type S = TSEM_EVENT_UNKNOWN then Fail S
      else (case TSEMparser_get_text (Some key) (te_parser S, str) of
              Undef \<Rightarrow> Undef
            | Fail s \<Rightarrow> Fail (S\<lparr>te_parser := fst s\<rparr>)
            | Ret u s \<Rightarrow> Ret (snd s) (S\<lparr>te_parser := fst s\<rparr>)))"
  proof (rule framed_read_if [OF _ framed_Fail])
    show "unbuffered (\<lambda>S. case TSEMparser_get_text (Some key) (te_parser S, str) of
              Undef \<Rightarrow> Undef
            | Fail s \<Rightarrow> Fail (S\<lparr>te_parser := fst s\<rparr>)
            | Ret u s \<Rightarrow> Ret (snd s) (S\<lparr>te_parser := fst s\<rparr>))"
      by (rule framed_read_res, simp, rule framed_modify [where f = Fail])
        (simp_all add: framed_Fail framed_modify [where f = "Ret _", OF _ _ framed_Ret])
  qed simp
  moreover have "get_value key str = (\<lambda>S. if te_type S = TSEM_EVENT_UNKNOWN then Fail S
      else (case TSEMparser_get_text (Some key) (te_parser S, str) of
              Undef \<Rightarrow> Undef
            | Fail s \<Rightarrow> Fail (S\<lparr>te_parser := fst s\<rparr>)
            | Ret u s \<Rightarrow> Ret (snd s) (S\<lparr>te_parser := fst s\<rparr>)))" (is "_ = ?f")
  proof
    show "get_value key str S = ?f S" for S
    by (cases "TSEMparser_get_text (Some key) (te_parser S, str)")
      (auto simp: get_value_def TSEMevent_get_text_def split: prod.split)
  qed
  ultimately show ?thesis by simp
qed

lemma Quixote_add_aggregate_alt:
  "Quixote_add_aggregate env str st =
     res_bind (zoom (\<lambda>e. st\<lparr>qx_event := e\<rparr>) (get_value ''value'' (hs_reset str) (qx_event st)))
       (\<lambda>value. steps
            [(\<lambda>st. case qx_aggregate st of
                 Some _ \<Rightarrow> Ret () st
               | None \<Rightarrow> zoom (\<lambda>b. st\<lparr>qx_aggregate := Some b\<rparr>) (buf_add_hexstring (hs_get value) buf_empty)),
             (\<lambda>st. zoom (\<lambda>m. st\<lparr>qx_model := m\<rparr>)
                     (TSEM_set_aggregate (cr_sha (env_crypto env)) (the (qx_aggregate st)) (qx_model st)))])"
  by (cases "TSEMevent_get_text ''value'' (qx_event st, hs_reset str)")
    (auto simp: Quixote_add_aggregate_def get_value_def split: prod.split)

lemma streamless_add_aggregate: "streamless (Quixote_add_aggregate env str)"
proof -
  have "streamless (\<lambda>st. case qx_aggregate st of
      None \<Rightarrow> zoom (\<lambda>b. st\<lparr>qx_aggregate := Some b\<rparr>) (buf_add_hexstring (hs_get vl) buf_empty) | Some x \<Rightarrow> Ret () st)"
    for vl
    by (rule framed_read_option) (auto intro!: framed_zoom)
  moreover have "streamless (\<lambda>st. zoom (\<lambda>m. st\<lparr>qx_model := m\<rparr>)
      (TSEM_set_aggregate (cr_sha (env_crypto env)) (the (qx_aggregate st)) (qx_model st)))"
    by (rule framed_zoom) simp_all
  ultimately show ?thesis
    unfolding Quixote_add_aggregate_alt [abs_def]
    by (intro framed_bind streamless_event unbuffered_get_value framed_steps) auto
qed

lemma streamless_add_event: "streamless (Quixote_add_event env update)"
proof -
  have decide: "streamless (\<lambda>st. if qx_model_error st
       then (case SecurityEvent_get_pid event of
               None \<Rightarrow> Fail st
             | Some pid \<Rightarrow> on_control (TSEMcontrol_release (env_control env) pid) st)
       else update_model env event (\<lambda>discipline sealed pid.
         if \<not> sealed then attempt (on_control (TSEMcontrol_release (env_control env) pid))
         else if discipline then on_control (TSEMcontrol_discipline (env_control env) pid)
         else on_control (TSEMcontrol_release (env_control env) pid)) st)" for event
    by (rule framed_read_if)
      (auto intro!: framed_option streamless_control streamless_update_model framed_attempt)
  then show ?thesis unfolding Quixote_add_event_def by (intro streamless_parse_update)
qed

lemma streamless_add_async_event: "streamless (Quixote_add_async_event env update)"
proof -
  have final: "streamless (\<lambda>st. Ret () (if sealed \<and> violation \<and> qx_enforce st then kill_cartridge True st else st))"
    for sealed violation
    by (rule framed_modify [where f = "Ret ()"]) (auto simp: kill_cartridge_def)
  have "streamless (\<lambda>st. if qx_model_error st then Fail st
       else update_model env event (\<lambda>violation sealed pid st.
         Ret () (if sealed \<and> violation \<and> qx_enforce st then kill_cartridge True st else st)) st)" for event
    by (rule framed_read_if) (auto intro!: streamless_update_model final)
  then show ?thesis unfolding Quixote_add_async_event_def by (intro streamless_parse_update)
qed

lemma streamless_add_log: "streamless (Quixote_add_log event)"
  unfolding Quixote_add_log_def [abs_def] by (rule framed_zoom) simp_all

lemma process_event_alt:
  "process_event env st =
     res_bind (zoom (\<lambda>e. st\<lparr>qx_event := e\<rparr>) (TSEMevent_extract_export (TSEMevent_reset (qx_event st))))
       (\<lambda>type st1. if type = TSEM_EVENT_UNKNOWN then Fail st1
          else (case TSEMevent_get_event (qx_event st1) of
              None \<Rightarrow> Undef
            | Some t \<Rightarrow>
                (case type of
                   TSEM_EVENT_AGGREGATE \<Rightarrow> Quixote_add_aggregate env (hs_of t)
                 | TSEM_EVENT_EVENT \<Rightarrow> Quixote_add_event env (hs_of t)
                 | TSEM_EVENT_ASYNC_EVENT \<Rightarrow> Quixote_add_async_event env (hs_of t)
                 | TSEM_EVENT_LOG \<Rightarrow> Quixote_add_log (hs_of t)
                 | TSEM_EVENT_UNKNOWN \<Rightarrow> Fail) st1))"
  by (cases "TSEMevent_extract_export (TSEMevent_reset (qx_event st))")
    (auto simp: process_event_def Let_def split: option.split TSEM_export_type.split)

lemma streamless_process_event: "streamless (process_event env)"
proof -
  have reset: "unbuffered (\<lambda>e. TSEMevent_extract_export (TSEMevent_reset e))"
    by (rule framed_modify [OF _ _ unbuffered_extract_export]) (simp_all add: TSEMevent_reset_def)
  have dispatch: "streamless (case type of
                   TSEM_EVENT_AGGREGATE \<Rightarrow> Quixote_add_aggregate env (hs_of t)
                 | TSEM_EVENT_EVENT \<Rightarrow> Quixote_add_event env (hs_of t)
                 | TSEM_EVENT_ASYNC_EVENT \<Rightarrow> Quixote_add_async_event env (hs_of t)
                 | TSEM_EVENT_LOG \<Rightarrow> Quixote_add_log (hs_of t)
                 | TSEM_EVENT_UNKNOWN \<Rightarrow> Fail)" for type t
    by (cases type)
      (simp_all add: streamless_add_aggregate streamless_add_event streamless_add_async_event streamless_add_log framed_Fail)
  show ?thesis
    unfolding process_event_alt [abs_def]
  proof (intro framed_bind streamless_event reset framed_if framed_Fail)
    show "streamless (\<lambda>st1. case TSEMevent_get_event (qx_event st1) of None \<Rightarrow> Undef | Some t \<Rightarrow>
        (case type of
                   TSEM_EVENT_AGGREGATE \<Rightarrow> Quixote_add_aggregate env (hs_of t)
                 | TSEM_EVENT_EVENT \<Rightarrow> Quixote_add_event env (hs_of t)
                 | TSEM_EVENT_ASYNC_EVENT \<Rightarrow> Quixote_add_async_event env (hs_of t)
                 | TSEM_EVENT_LOG \<Rightarrow> Quixote_add_log (hs_of t)
                 | TSEM_EVENT_UNKNOWN \<Rightarrow> Fail) st1)" for type
      by (rule framed_read_option) (auto simp: TSEMevent_get_event_def intro: dispatch)
  qed
qed

section \<open>The lines of a read\<close>

definition with_line :: "string \<Rightarrow> Quixote_State \<Rightarrow> Quixote_State" where
  "with_line l st = st\<lparr>qx_event := (qx_event st)\<lparr>te_event := hs_of l\<rparr>\<rparr>"

text \<open>What the orchestrator does, as a program over lines.\<close>

fun process_lines :: "environment \<Rightarrow> string list \<Rightarrow> Quixote_State \<Rightarrow> (unit, Quixote_State) res" where
  "process_lines env [] st = Ret () st"
| "process_lines env (l # ls) st = res_bind (process_event env (with_line l st)) (\<lambda>_. process_lines env ls)"

definition lines :: "string list \<Rightarrow> byte list" where
  "lines ls = concat (map (\<lambda>l. l @ [newline]) ls)"

lemma lines_simps [simp]: "lines [] = []" "lines (l # ls) = l @ newline # lines ls"
  by (simp_all add: lines_def)

lemma lines_Nil_iff [simp]: "lines ls = [] \<longleftrightarrow> ls = []"
  by (cases ls) simp_all

text \<open>
  The same on a read that holds these lines and the bytes \<open>p\<close> behind them: before a line is processed the rest is
  moved to the front with \<open>memcpy\<close>, which is undefined when the rest is longer than the line with its newline.
\<close>

fun process_read :: "environment \<Rightarrow> byte list \<Rightarrow> string list \<Rightarrow> Quixote_State \<Rightarrow> (unit, Quixote_State) res" where
  "process_read env p [] st = Ret () st"
| "process_read env p (l # ls) st =
     (if length l + 1 < length (lines ls @ p) then Undef
      else res_bind (process_event env (with_line l st)) (\<lambda>_. process_read env p ls))"

fun process_reads :: "environment \<Rightarrow> string list list \<Rightarrow> Quixote_State \<Rightarrow> (unit, Quixote_State) res" where
  "process_reads env [] st = Ret () st"
| "process_reads env (ls # groups) st = res_bind (process_read env [] ls st) (\<lambda>_. process_reads env groups)"

text \<open>Nothing is moved over itself: behind each line there is not more than the line and its newline.\<close>

fun apart :: "byte list \<Rightarrow> string list \<Rightarrow> bool" where
  "apart p [] = True"
| "apart p (l # ls) = (length (lines ls @ p) \<le> length l + 1 \<and> apart p ls)"

lemma process_lines_append:
  "process_lines env (ls @ ms) st = res_bind (process_lines env ls st) (\<lambda>_. process_lines env ms)"
proof (induction ls arbitrary: st)
  case (Cons l ls)
  then show ?case by (cases "process_event env (with_line l st)") simp_all
qed simp

lemma process_read_apart: "apart p ls \<Longrightarrow> process_read env p ls st = process_lines env ls st"
proof (induction ls arbitrary: st)
  case (Cons l ls)
  then show ?case by (cases "process_event env (with_line l st)") simp_all
qed simp

lemma process_reads_apart:
  "\<forall>ls \<in> set groups. apart [] ls \<Longrightarrow> process_reads env groups st = process_lines env (concat groups) st"
proof (induction groups arbitrary: st)
  case (Cons ls groups)
  then show ?case
    by (cases "process_lines env ls st") (simp_all add: process_read_apart process_lines_append)
qed simp

lemma newline_in_lines: "ls \<noteq> [] \<Longrightarrow> newline \<in> set (lines ls)"
  by (cases ls) simp_all

lemma lines_no_NUL: "\<forall>l \<in> set ls. line_ok l \<Longrightarrow> NUL \<notin> set (lines ls)"
  by (induction ls) (auto simp: line_ok_def newline_def)

lemma lines_append: "lines (ls @ ms) = lines ls @ lines ms"
  by (simp add: lines_def)

definition restream :: "buf \<Rightarrow> u64 \<Rightarrow> Quixote_State \<Rightarrow> Quixote_State" where
  "restream b n st = st\<lparr>qx_event := rebuffer b n (qx_event st)\<rparr>"

lemma restream_in [simp]: "restream b n \<in> restreams"
  unfolding restreams_def rebuffers_def restream_def [abs_def] by blast

lemma restream_restream [simp]: "restream b n (restream c m st) = restream b n st"
  by (simp add: restream_def rebuffer_def)

lemma restream_error [simp]:
  "qx_model_error (restream b n st) = qx_model_error st"
  "qx_model_error (kill_cartridge w st) = qx_model_error st"
  by (simp_all add: restream_def kill_cartridge_def)

lemma restream_with_line: "with_line l (restream b n st) = restream b n (with_line l st)"
  by (simp add: with_line_def restream_def rebuffer_def)

lemma process_event_restream:
  "process_event env (restream b n st) = zoom (restream b n) (process_event env st)"
  by (rule framedD(1) [OF streamless_process_event]) simp

lemma process_lines_restream:
  "process_lines env ls (restream b n st) = zoom (restream b n) (process_lines env ls st)"
proof (induction ls arbitrary: st)
  case (Cons l ls)
  show ?case
    by (cases "process_event env (with_line l st)") (simp_all add: restream_with_line process_event_restream Cons.IH)
qed simp

lemma process_read_restream:
  "process_read env p ls (restream b n st) = zoom (restream b n) (process_read env p ls st)"
proof (induction ls arbitrary: st)
  case (Cons l ls)
  show ?case
    by (cases "process_event env (with_line l st)") (simp_all add: restream_with_line process_event_restream Cons.IH)
qed simp

lemma process_reads_restream:
  "process_reads env groups (restream b n st) = zoom (restream b n) (process_reads env groups st)"
proof (induction groups arbitrary: st)
  case (Cons ls groups)
  show ?case
    by (cases "process_read env [] ls st") (simp_all add: process_read_restream Cons.IH)
qed simp

lemma process_event_view:
  "process_event env st = Ret u t \<Longrightarrow> loop_view t = loop_view st" "process_event env st = Fail t \<Longrightarrow> loop_view t = loop_view st"
  using framedD(2,3) [OF streamless_process_event] by blast+

lemma process_read_error:
  "process_read env p ls st = Ret u t \<Longrightarrow> qx_model_error t = qx_model_error st"
proof (induction ls arbitrary: st)
  case (Cons l ls)
  then obtain v st1 where r: "process_event env (with_line l st) = Ret v st1" "process_read env p ls st1 = Ret u t"
    by (cases "process_event env (with_line l st)") (auto split: if_splits)
  have "loop_view st1 = loop_view (with_line l st)" by (rule process_event_view(1) [OF r(1)])
  then have "qx_model_error st1 = qx_model_error st" by (simp add: loop_view_def with_line_def)
  with Cons.IH [OF r(2)] show ?case by simp
qed simp

lemma holds_view: "holds p S \<Longrightarrow> stream_view T = stream_view S \<Longrightarrow> holds p T"
  by (simp add: holds_def stream_view_def)

text \<open>
  The lines are processed in their order.  An incomplete line behind them is found by one more call of
  \<open>fetch_event\<close>, which fails: the workload is killed, and the line stays in the buffer.
\<close>

lemma drain_events_partial:
  assumes "holds p (qx_event st)" "line_ok p" "p \<noteq> []" "length p < length (b_data (te_bufr (qx_event st)))"
  shows "drain_events env st = Some (Ret () (kill_cartridge False st))"
  using fetch_event_partial [OF assms(1) _ assms(4,3), of True] assms(2)
  by (subst drain_events.simps) (simp add: line_ok_def)

lemma drain_events_lines:
  assumes "holds (lines ls @ p) (qx_event st)" "ls \<noteq> []" "\<forall>l \<in> set ls. line_ok l" "line_ok p"
  shows "case process_read env p ls st of
     Ret _ t \<Rightarrow> \<exists>b n. drain_events env st =
         Some (Ret () (if p = [] then restream b n t else kill_cartridge False (restream b n t))) \<and>
       holds p (qx_event (restream b n t))
   | Fail t \<Rightarrow> \<exists>b n. drain_events env st = Some (Ret () ((restream b n t)\<lparr>qx_model_error := True\<rparr>))
   | Undef \<Rightarrow> drain_events env st = Some Undef"
  using assms(1-3)
proof (induction ls arbitrary: st)
  case (Cons l ls)
  let ?rest = "lines ls @ p"
  have any: "?rest \<noteq> [] \<longleftrightarrow> ls \<noteq> [] \<or> p \<noteq> []" by simp
  have held: "holds (l @ newline # ?rest) (qx_event st)" and l: "line_ok l" using Cons.prems by simp_all
  show ?case
  proof (cases "length l + 1 < length ?rest")
    case True
    from fetch_event_overlap [OF held l True] have "drain_events env st = Some Undef"
      by (subst drain_events.simps) simp
    with True show ?thesis by simp
  next
    case fits: False
    obtain T where T: "TSEMevent_fetch_event (qx_event st, True) = Ret () (T, ?rest \<noteq> [])"
      "holds ?rest T" "T = (qx_event st)\<lparr>te_event := hs_of l, te_bufr := te_bufr T, te_size := te_size T\<rparr>"
      "length ?rest < length (b_data (te_bufr T))"
      using fetch_event_holds [OF held l, of True] fits Cons.prems by auto
    define b n where "b = te_bufr T" and "n = te_size T"
    have st: "st\<lparr>qx_event := T\<rparr> = restream b n (with_line l st)"
      by (subst T(3)) (simp add: restream_def with_line_def rebuffer_def b_def n_def)
    have drain: "drain_events env st = (case process_event env (with_line l st) of
         Undef \<Rightarrow> Some Undef
       | Fail st1 \<Rightarrow> Some (Ret () ((restream b n st1)\<lparr>qx_model_error := True\<rparr>))
       | Ret _ st1 \<Rightarrow> if ?rest \<noteq> [] then drain_events env (restream b n st1) else Some (Ret () (restream b n st1)))"
      by (subst drain_events.simps, cases "process_event env (with_line l st)")
        (simp_all add: T(1) st process_event_restream)
    show ?thesis
    proof (cases "process_event env (with_line l st)")
      case (Ret u st1)
      have "loop_view (restream b n st1) = loop_view (restream b n (with_line l st))"
        using process_event_restream [of env b n "with_line l st"] Ret
        by (intro process_event_view(1) [of env _ u]) simp
      then have view: "stream_view (qx_event (restream b n st1)) = stream_view T"
        by (simp add: loop_view_def st [symmetric])
      then have held: "holds ?rest (qx_event (restream b n st1))" by (rule holds_view [OF T(2)])
      have room: "length ?rest < length (b_data (te_bufr (qx_event (restream b n st1))))"
        using T(4) view by (simp add: stream_view_def)
      show ?thesis
      proof (cases "ls = []")
        case ls: True
        show ?thesis
        proof (cases "p = []")
          case True
          with ls Ret drain held fits show ?thesis by (auto intro!: exI [of _ b] exI [of _ n])
        next
          case False
          have "drain_events env (restream b n st1) = Some (Ret () (kill_cartridge False (restream b n st1)))"
            by (rule drain_events_partial) (use held ls False assms(4) room in simp_all)
          with False ls Ret drain held fits show ?thesis by (auto intro!: exI [of _ b] exI [of _ n])
        qed
      next
        case False
        have ok: "\<forall>l \<in> set ls. line_ok l" using Cons.prems by simp
        note IH = Cons.IH [OF held False ok, unfolded process_read_restream]
        have same: "process_read env p (l # ls) st = process_read env p ls st1"
          "drain_events env st = drain_events env (restream b n st1)"
          using Ret drain False fits by simp_all
        show ?thesis
        proof (cases "process_read env p ls st1")
          case (Ret v t)
          with IH show ?thesis unfolding same by (simp cong: if_cong)
        next
          case (Fail t)
          with IH show ?thesis unfolding same by auto
        next
          case Undef
          with IH show ?thesis unfolding same by simp
        qed
      qed
    next
      case (Fail st1)
      with drain fits show ?thesis by auto
    next
      case Undef
      with drain fits show ?thesis by simp
    qed
  qed
qed simp

definition read_of :: "byte list \<Rightarrow> monitor_input" where
  "read_of bs = Event_input (Some (length bs)) (Some bs)"

lemma monitor_step_lines:
  assumes "holds [] (qx_event st)" "ls \<noteq> []" "\<forall>l \<in> set ls. line_ok l" "line_ok p"
    and "\<not> qx_model_error st" "length (lines ls @ p) < 2 ^ 63"
  shows "case process_read env p ls st of
     Ret _ t \<Rightarrow> \<exists>b n. monitor_step env (read_of (lines ls @ p)) st =
         Some (Ret Goes_on (if p = [] then restream b n t else kill_cartridge False (restream b n t))) \<and>
       holds p (qx_event (restream b n t))
   | Fail t \<Rightarrow> \<exists>b n. monitor_step env (read_of (lines ls @ p)) st =
         Some (Ret (Ends False) (kill_cartridge False ((restream b n t)\<lparr>qx_model_error := True\<rparr>)))
   | Undef \<Rightarrow> monitor_step env (read_of (lines ls @ p)) st = Some Undef"
proof -
  let ?bs = "lines ls @ p"
  have "NUL \<notin> set ?bs" using lines_no_NUL [OF assms(3)] assms(4) by (simp add: line_ok_def)
  then obtain T where T: "TSEMevent_read_event (Some (length ?bs)) (Some ?bs) (qx_event st) = Ret () T" "holds ?bs T"
    "T = (qx_event st)\<lparr>te_bufr := te_bufr T, te_size := te_size T\<rparr>"
    using read_event_holds [OF assms(1), of ?bs] assms(6) by auto
  define b n where "b = te_bufr T" and "n = te_size T"
  have st: "st\<lparr>qx_event := T\<rparr> = restream b n st"
    by (subst T(3)) (simp add: restream_def rebuffer_def b_def n_def)
  have "qx_event (restream b n st) = T" by (simp add: st [symmetric])
  with T(2) have held: "holds ?bs (qx_event (restream b n st))" by simp
  have step: "monitor_step env (read_of ?bs) st =
      map_option (\<lambda>r. res_bind r (\<lambda>_ st1.
                    if qx_model_error st1 then Ret (Ends False) (kill_cartridge False st1) else Ret Goes_on st1))
                 (drain_events env (restream b n st))"
    using T(1) by (simp add: monitor_step_def read_of_def st)
  have error: "\<not> qx_model_error t" if "process_read env p ls st = Ret u t" for u t
    using process_read_error [OF that] assms(5) by simp
  note drain = drain_events_lines [where env = env, OF held assms(2-4)]
  show ?thesis
  proof (cases "process_read env p ls st")
    case (Ret u t)
    with drain obtain c m where "drain_events env (restream b n st) =
        Some (Ret () (if p = [] then restream c m t else kill_cartridge False (restream c m t)))"
      "holds p (qx_event (restream c m t))"
      by (auto simp: process_read_restream cong: if_cong)
    with Ret error [OF Ret] show ?thesis by (auto simp: step intro!: exI [of _ c] exI [of _ m])
  next
    case (Fail t)
    with drain obtain c m where
      "drain_events env (restream b n st) = Some (Ret () ((restream c m t)\<lparr>qx_model_error := True\<rparr>))"
      by (auto simp: process_read_restream)
    with Fail show ?thesis by (auto simp: step intro!: exI [of _ c] exI [of _ m])
  next
    case Undef
    with drain show ?thesis by (simp add: step process_read_restream)
  qed
qed

text \<open>The monitor on reads that end with complete lines.\<close>

lemma process_reads_error:
  "process_reads env groups st = Ret u t \<Longrightarrow> qx_model_error t = qx_model_error st"
proof (induction groups arbitrary: st)
  case (Cons ls groups)
  then obtain v st1 where "process_read env [] ls st = Ret v st1" "process_reads env groups st1 = Ret u t"
    by (cases "process_read env [] ls st") auto
  with Cons.IH process_read_error show ?case by metis
qed simp

lemma child_monitor_lines:
  assumes "holds [] (qx_event st)" "\<forall>ls \<in> set groups. ls \<noteq> [] \<and> (\<forall>l \<in> set ls. line_ok l) \<and> length (lines ls) < 2 ^ 63"
    and "\<not> qx_model_error st"
  shows "case process_reads env groups st of
     Ret _ t \<Rightarrow> \<exists>b n. child_monitor env (map (\<lambda>ls. read_of (lines ls)) groups) st = Some (Ret () (restream b n t))
   | Fail t \<Rightarrow> \<exists>b n. child_monitor env (map (\<lambda>ls. read_of (lines ls)) groups) st =
         Some (Fail (kill_cartridge False ((restream b n t)\<lparr>qx_model_error := True\<rparr>)))
   | Undef \<Rightarrow> child_monitor env (map (\<lambda>ls. read_of (lines ls)) groups) st = Some Undef"
  using assms
proof (induction groups arbitrary: st)
  case Nil
  have "st = restream (te_bufr (qx_event st)) (te_size (qx_event st)) st" by (simp add: restream_def rebuffer_def)
  then show ?case by auto
next
  case (Cons ls groups)
  have ok: "ls \<noteq> []" "\<forall>l \<in> set ls. line_ok l" "length (lines ls @ []) < 2 ^ 63" "line_ok []"
    using Cons.prems by (simp_all add: line_ok_def)
  note step = monitor_step_lines [where env = env, OF Cons.prems(1) ok(1,2,4) Cons.prems(3) ok(3)]
  show ?case
  proof (cases "process_read env [] ls st")
    case (Ret u t)
    with step obtain b n where s: "monitor_step env (read_of (lines ls)) st = Some (Ret Goes_on (restream b n t))"
      "holds [] (qx_event (restream b n t))" by auto
    have error: "\<not> qx_model_error (restream b n t)"
      using process_read_error [OF Ret] Cons.prems(3) by simp
    have rest: "\<forall>ls \<in> set groups. ls \<noteq> [] \<and> (\<forall>l \<in> set ls. line_ok l) \<and> length (lines ls) < 2 ^ 63"
      using Cons.prems(2) by simp
    from Cons.IH [OF s(2) rest error] s(1) Ret show ?thesis
      by (cases "process_reads env groups t") (auto simp: process_reads_restream)
  next
    case (Fail t)
    with step obtain b n where "monitor_step env (read_of (lines ls)) st =
        Some (Ret (Ends False) (kill_cartridge False ((restream b n t)\<lparr>qx_model_error := True\<rparr>)))" by auto
    with Fail show ?thesis by (auto intro!: exI [of _ b] exI [of _ n])
  next
    case Undef
    with step show ?thesis by (simp)
  qed
qed

end
