(* ===== verification/QuixoteEffects.thy ===== *)
theory QuixoteEffects
  imports QuixoteLemmas
begin

text \<open>
  What the orchestrator does to its model: no event and no command has an effect that operations of the model do not
  have, so that the invariants of the model hold in every state of the monitor.
\<close>

section \<open>Handlers\<close>

definition qx_effect :: "Quixote_State \<Rightarrow> Quixote_State \<Rightarrow> bool" where
  "qx_effect st st' \<longleftrightarrow> sx_effect (as_sancho st) (as_sancho st')"

definition qx_ok :: "Quixote_State \<Rightarrow> bool" where
  "qx_ok st \<longleftrightarrow> sx_ok (as_sancho st)"

definition qx_handler :: "(Quixote_State \<Rightarrow> ('a, Quixote_State) res) \<Rightarrow> bool" where
  "qx_handler f \<longleftrightarrow> (\<forall>st. qx_ok st \<longrightarrow> keeps (qx_effect st) (f st))"

lemma as_sancho_simps [simp]:
  "sx_model (as_sancho st) = qx_model st" "sx_bufr (as_sancho st) = qx_cmdbufr st"
  "sx_sent (as_sancho st) = qx_sent st" "sx_errno (as_sancho st) = qx_errno st"
  by (simp_all add: as_sancho_def)

lemma qx_ok_iff: "qx_ok st \<longleftrightarrow> tsem_ok (qx_model st) \<and> \<not> b_poisoned (qx_cmdbufr st)"
  by (simp add: qx_ok_def sx_ok_def)

lemma qx_effect_iff:
  "qx_effect st st' \<longleftrightarrow> effect (qx_model st) (qx_model st') \<and> b_poisoned (qx_cmdbufr st') = b_poisoned (qx_cmdbufr st)"
  by (simp add: qx_effect_def sx_effect_def)

lemma qx_effect_ok: "qx_ok st \<Longrightarrow> qx_effect st st' \<Longrightarrow> qx_ok st'"
  unfolding qx_ok_def qx_effect_def by (rule sx_effect_ok)

lemma qx_effect_trans: "qx_effect st st' \<Longrightarrow> qx_effect st' st'' \<Longrightarrow> qx_effect st st''"
  unfolding qx_effect_def by (rule sx_effect_trans)

lemma qx_effect_refl: "qx_ok st \<Longrightarrow> qx_effect st st"
  unfolding qx_effect_def qx_ok_def by (rule sx_effect_refl)

lemma qx_handlerD: "qx_handler f \<Longrightarrow> qx_ok st \<Longrightarrow> keeps (qx_effect st) (f st)"
  by (simp add: qx_handler_def)

lemma qx_handler_after:
  assumes "qx_handler f" "qx_ok st" "qx_effect st st'"
  shows "keeps (qx_effect st) (f st')"
  using qx_handlerD [OF assms(1) qx_effect_ok [OF assms(2,3)]] qx_effect_trans [OF assms(3)]
  by (rule keeps_mono)

lemma qx_handler_steps:
  assumes "\<And>f. f \<in> set fs \<Longrightarrow> qx_handler f"
  shows "qx_handler (steps fs)"
  unfolding qx_handler_def
proof (intro allI impI)
  fix st assume ok: "qx_ok st"
  show "keeps (qx_effect st) (steps fs st)"
    by (rule keeps_steps) (use assms ok in \<open>auto intro: qx_handler_after qx_effect_refl\<close>)
qed

lemma qx_handler_Ret: "qx_handler (Ret a)" and qx_handler_Fail: "qx_handler Fail"
  by (simp_all add: qx_handler_def qx_effect_refl)

lemma qx_handler_control: "qx_handler (on_control f)"
  unfolding qx_handler_def
proof (intro allI impI)
  fix st assume "qx_ok st"
  then show "keeps (qx_effect st) (on_control f st)"
    by (cases "f (qx_control st)") (simp_all add: on_control_def qx_effect_iff qx_ok_iff effect_refl)
qed

lemma qx_handler_attempt:
  assumes "qx_handler f"
  shows "qx_handler (attempt f)"
  using assms by (auto simp: qx_handler_def keeps_def split: res.splits)

lemma qx_handler_sancho:
  assumes "sx_handler f"
  shows "qx_handler (on_sancho f)"
  unfolding qx_handler_def
proof (intro allI impI)
  fix st assume "qx_ok st"
  then have "keeps (sx_effect (as_sancho st)) (f (as_sancho st))"
    using assms by (simp add: qx_ok_def sx_handler_def)
  then show "keeps (qx_effect st) (on_sancho f st)"
    by (cases "f (as_sancho st)") (simp_all add: on_sancho_def qx_effect_iff sx_effect_def)
qed

text \<open>An operation of the model.\<close>

lemma qx_handler_model:
  assumes "\<And>S. tsem_ok S \<Longrightarrow> keeps (effect S) (f S)"
  shows "qx_handler (\<lambda>st. zoom (\<lambda>m. st\<lparr>qx_model := m\<rparr>) (f (qx_model st)))"
  unfolding qx_handler_def
proof (intro allI impI)
  fix st assume "qx_ok st"
  then have "keeps (effect (qx_model st)) (f (qx_model st))" using assms by (simp add: qx_ok_iff)
  then show "keeps (qx_effect st) (zoom (\<lambda>m. st\<lparr>qx_model := m\<rparr>) (f (qx_model st)))"
    by (cases "f (qx_model st)") (simp_all add: qx_effect_iff)
qed

section \<open>Events\<close>

lemma qx_handler_parse_update:
  assumes "\<And>event. qx_handler (f event)"
  shows "qx_handler (parse_update env update f)"
  unfolding qx_handler_def
proof (intro allI impI)
  fix st assume ok: "qx_ok st"
  have errno: "qx_effect st (st\<lparr>qx_errno := e\<rparr>)" for e
    using ok by (simp add: qx_effect_iff qx_ok_iff effect_refl)
  show "keeps (qx_effect st) (parse_update env update f st)"
    using errno qx_handler_after [OF assms ok errno]
    by (auto simp: parse_update_def split: res.splits prod.splits)
qed

lemma qx_handler_update_model:
  assumes sha: "sha_ok (cr_sha (env_crypto env))" and f: "\<And>d s pid. qx_handler (f d s pid)"
  shows "qx_handler (update_model env event f)"
  unfolding qx_handler_def
proof (intro allI impI)
  fix st assume ok: "qx_ok st"
  then have "tsem_ok (qx_model st)" by (simp add: qx_ok_iff)
  note upd = TSEM_update_effect [OF this sha, of event]
  have model: "qx_effect st (st\<lparr>qx_model := m\<rparr>)" if "effect (qx_model st) m" for m
    using that by (simp add: qx_effect_iff)
  show "keeps (qx_effect st) (update_model env event f st)"
  proof (cases "TSEM_update (cr_sha (env_crypto env)) (qx_model st, event)")
    case (Ret r s)
    then have "effect (qx_model st) (fst s)" using upd by (cases s) auto
    then have "keeps (qx_effect st) (f d sl pid (st\<lparr>qx_model := fst s\<rparr>))" for d sl pid
      by (rule qx_handler_after [OF f ok model])
    with Ret show ?thesis
      by (cases r; cases s) (simp add: update_model_def TSEM_discipline_pid_def)
  next
    case (Fail s)
    then have "effect (qx_model st) (fst s)" using upd by (cases s) auto
    with Fail model show ?thesis by (cases s) (simp add: update_model_def)
  qed (simp add: update_model_def)
qed

lemma qx_handler_add_event:
  assumes "sha_ok (cr_sha (env_crypto env))"
  shows "qx_handler (Quixote_add_event env update)"
proof -
  note control = qx_handler_control
  have model: "qx_handler (update_model env event (\<lambda>discipline sealed pid.
         if \<not> sealed then attempt (on_control (TSEMcontrol_release (env_control env) pid))
         else if discipline then on_control (TSEMcontrol_discipline (env_control env) pid)
         else on_control (TSEMcontrol_release (env_control env) pid)))" for event
    by (rule qx_handler_update_model [OF assms]) (simp add: control qx_handler_attempt)
  show ?thesis
    unfolding Quixote_add_event_def
    by (rule qx_handler_parse_update)
      (use control model qx_handler_Fail in \<open>auto simp: qx_handler_def split: option.split\<close>)
qed

lemma qx_handler_add_async_event:
  assumes "sha_ok (cr_sha (env_crypto env))"
  shows "qx_handler (Quixote_add_async_event env update)"
proof -
  have final: "qx_handler (\<lambda>st. Ret () (if sealed \<and> violation \<and> qx_enforce st then kill_cartridge True st else st))"
    for sealed violation
    by (auto simp: qx_handler_def qx_effect_iff qx_ok_iff effect_refl kill_cartridge_def)
  have model: "qx_handler (update_model env event (\<lambda>violation sealed pid st.
         Ret () (if sealed \<and> violation \<and> qx_enforce st then kill_cartridge True st else st)))" for event
    by (rule qx_handler_update_model [OF assms]) (rule final)
  show ?thesis
    unfolding Quixote_add_async_event_def
    by (rule qx_handler_parse_update) (use model qx_handler_Fail in \<open>auto simp: qx_handler_def\<close>)
qed

lemma qx_handler_add_log: "qx_handler (Quixote_add_log event)"
  unfolding Quixote_add_log_def [abs_def] by (rule qx_handler_model) (rule effect_add_TSEM_event)

text \<open>Changes of the other components.\<close>

lemma qx_effect_other [simp]:
  "qx_effect st (qx_event_update e st') = qx_effect st st'"
  "qx_effect st (qx_aggregate_update a st') = qx_effect st st'"
  "qx_effect st (qx_model_error_update b st') = qx_effect st st'"
  "qx_effect st (qx_sealed_update c st') = qx_effect st st'"
  "qx_effect st (kill_cartridge w st') = qx_effect st st'"
  "qx_effect st (qx_cmdbufr_update buf_reset st') = qx_effect st st'"
  by (simp_all add: qx_effect_iff kill_cartridge_def)

lemma qx_ok_other [simp]: "qx_ok (qx_event_update e st) = qx_ok st"
  by (simp add: qx_ok_iff)

lemma qx_handler_add_aggregate:
  assumes "sha_ok (cr_sha (env_crypto env))"
  shows "qx_handler (Quixote_add_aggregate env str)"
proof -
  have set: "qx_handler (\<lambda>st. zoom (\<lambda>m. st\<lparr>qx_model := m\<rparr>)
      (TSEM_set_aggregate (cr_sha (env_crypto env)) (the (qx_aggregate st)) (qx_model st)))"
    unfolding qx_handler_def
  proof (intro allI impI)
    fix st assume "qx_ok st"
    then have "keeps (effect (qx_model st))
        (TSEM_set_aggregate (cr_sha (env_crypto env)) (the (qx_aggregate st)) (qx_model st))"
      using effectful_set_aggregate [OF assms] by (simp add: effectful_def qx_ok_iff)
    then show "keeps (qx_effect st) (zoom (\<lambda>m. st\<lparr>qx_model := m\<rparr>)
      (TSEM_set_aggregate (cr_sha (env_crypto env)) (the (qx_aggregate st)) (qx_model st)))"
      by (cases "TSEM_set_aggregate (cr_sha (env_crypto env)) (the (qx_aggregate st)) (qx_model st)")
        (simp_all add: qx_effect_iff)
  qed
  have convert: "qx_handler (\<lambda>st. case qx_aggregate st of
      None \<Rightarrow> zoom (\<lambda>b. st\<lparr>qx_aggregate := Some b\<rparr>) (buf_add_hexstring v buf_empty) | Some x \<Rightarrow> Ret () st)" for v
    unfolding qx_handler_def
    by (cases "buf_add_hexstring v buf_empty") (auto simp: qx_effect_refl split: option.split)
  have both: "qx_handler (steps
      [(\<lambda>st. case qx_aggregate st of
           Some _ \<Rightarrow> Ret () st
         | None \<Rightarrow> zoom (\<lambda>b. st\<lparr>qx_aggregate := Some b\<rparr>) (buf_add_hexstring v buf_empty)),
       (\<lambda>st. zoom (\<lambda>m. st\<lparr>qx_model := m\<rparr>)
               (TSEM_set_aggregate (cr_sha (env_crypto env)) (the (qx_aggregate st)) (qx_model st)))])" for v
    by (rule qx_handler_steps) (use set convert in auto)
  show ?thesis
    unfolding qx_handler_def
  proof (intro allI impI)
    fix st assume ok: "qx_ok st"
    have event: "qx_effect st (st\<lparr>qx_event := e\<rparr>)" for e using ok by (simp add: qx_effect_refl)
    show "keeps (qx_effect st) (Quixote_add_aggregate env str st)"
      using event qx_handler_after [OF both ok event]
      by (auto simp: Quixote_add_aggregate_def simp del: steps.simps split: res.split prod.split)
  qed
qed

lemma qx_handler_process_event:
  assumes sha: "sha_ok (cr_sha (env_crypto env))"
  shows "qx_handler (process_event env)"
  unfolding qx_handler_def
proof (intro allI impI)
  fix st assume ok: "qx_ok st"
  have event: "qx_effect st (st\<lparr>qx_event := e\<rparr>)" for e using ok by (simp add: qx_effect_refl)
  have dispatch: "keeps (qx_effect st) (f (st\<lparr>qx_event := e\<rparr>))" if "qx_handler f" for f e
    by (rule qx_handler_after [OF that ok event])
  show "keeps (qx_effect st) (process_event env st)"
    using event dispatch [OF qx_handler_add_aggregate [OF sha]] dispatch [OF qx_handler_add_event [OF sha]]
      dispatch [OF qx_handler_add_async_event [OF sha]] dispatch [OF qx_handler_add_log]
    by (auto simp: process_event_def Let_def split: res.split option.split TSEM_export_type.split)
qed

section \<open>Commands\<close>

lemma handler_forensics_loop' [handlers]: "sx_handler (Quixote_forensics_loop up n es)"
proof (induction n arbitrary: es)
  case (Suc n)
  show ?case
    unfolding sx_handler_def
  proof (intro allI impI)
    fix st assume ok: "sx_ok st"
    obtain x m where x: "TSEM_get_forensics (sx_model st) = (x, m)" by (metis surj_pair)
    then have m: "effect (sx_model st) m"
      using effect_iterators(5) [OF sx_ok_model [OF ok]] by simp
    note mut = sx_effect_mutate(2) [OF ok m]
    have "keeps (sx_effect st) (res_bind (send_Buffer up (fill bs
        (st\<lparr>sx_model := m\<lparr>ts_forensics := Gaggle_mutate_last e (ts_forensics m)\<rparr>\<rparr>))) (\<lambda>_. Quixote_forensics_loop up n t))"
      for bs e t
      by (rule sx_handler_bind [OF handler_send_fill Suc.IH ok mut])
    then show "keeps (sx_effect st) (Quixote_forensics_loop up (Suc n) es st)"
      using x mut sx_handler_after [OF Suc.IH ok sx_effect_model(1) [OF ok m]]
      by (auto simp: Let_def hs_add_def split: option.splits res.splits prod.splits)
  qed
qed (simp add: sx_handler_def sx_effect_refl)

lemma handler_events_loop' [handlers]: "sx_handler (Quixote_events_loop up n)"
proof (induction n)
  case (Suc n)
  have m: "sx_effect st (st\<lparr>sx_model := snd (TSEM_get_TSEM_event (sx_model st))\<rparr>)" if "sx_ok st" for st
    using sx_effect_model(1) [OF that effect_iterators(7) [OF sx_ok_model [OF that]]] .
  show ?case
    unfolding sx_handler_def
    using sx_handler_after [OF Suc.IH _ m] sx_handler_bind [OF handler_send_fill Suc.IH _ m]
    by (auto simp: case_prod_beta split: option.splits)
qed (simp add: sx_handler_def sx_effect_refl)

lemma qx_handler_shows:
  "qx_handler (Quixote_send_trajectory env)" "qx_handler (Quixote_send_trajectory_counts env type)"
  "qx_handler (Quixote_send_trajectory_coefficients env type)" "qx_handler (Quixote_send_forensics env)"
  "qx_handler (Quixote_send_events env)" "qx_handler (Quixote_send_map env)"
proof -
  show "qx_handler (Quixote_send_trajectory env)" "qx_handler (Quixote_send_trajectory_counts env type)"
    and coefficients: "qx_handler (Quixote_send_trajectory_coefficients env type)" for type
    unfolding Quixote_send_trajectory_def Quixote_send_trajectory_counts_def Quixote_send_trajectory_coefficients_def
    by (rule qx_handler_sancho, rule handlers)+
  have run: "sx_handler (\<lambda>st. steps [send_count up (c st), assign (on_model f), g st] st)"
    if "\<And>S. tsem_ok S \<Longrightarrow> effect S (f S)" "\<And>st. sx_handler (g st)" for c f g up
  proof -
    have "sx_handler (send_count up cnt)" for cnt
      using handler_send_fill by (simp add: send_count_def sx_handler_def)
    moreover have "sx_handler (assign (on_model f))"
      using that(1) by (simp add: sx_handler_def sx_effect_def sx_ok_model)
    ultimately have "sx_handler (steps [send_count up (c st), assign (on_model f), g st])" for st
      by (intro sx_handler_steps) (use that(2) in auto)
    then show ?thesis unfolding sx_handler_def by blast
  qed
  show "qx_handler (Quixote_send_forensics env)" "qx_handler (Quixote_send_events env)"
    unfolding Quixote_send_forensics_def Quixote_send_events_def Let_def
    by (rule qx_handler_sancho, rule run; simp only: effect_iterators handlers)+
  have aggregate: "qx_handler (on_sancho (\<lambda>s. send_Buffer (env_mgmt env) (fill bs s)))" for bs
    by (rule qx_handler_sancho) (rule handlers)
  have map: "qx_handler (steps [on_sancho (\<lambda>s. send_Buffer (env_mgmt env) (fill bs s)),
      Quixote_send_trajectory_coefficients env True])" for bs
    by (rule qx_handler_steps) (use aggregate coefficients in auto)
  then show "qx_handler (Quixote_send_map env)"
    unfolding qx_handler_def Quixote_send_map_def by (simp split: option.split del: steps.simps)
qed

lemma qx_handler_process_command: "qx_handler (process_command env)"
proof -
  have measurement: "sx_handler (\<lambda>s. res_bind
      (zoom (\<lambda>b. s\<lparr>sx_bufr := b\<rparr>) (TSEM_get_measurement (sx_model s) (buf_reset (sx_bufr s))))
      (\<lambda>_. send_Buffer (env_mgmt env)))"
    by (simp add: sx_handler_def TSEM_get_measurement_def buf_add_def send_Buffer_def sx_effect_same)
  have state: "sx_handler (\<lambda>s. res_bind
      (zoom (\<lambda>(m, b). s\<lparr>sx_model := m, sx_bufr := b\<rparr>)
        (TSEM_get_state (cr_sha (env_crypto env)) (sx_model s, buf_reset (sx_bufr s))))
      (\<lambda>_. send_Buffer (env_mgmt env)))"
    unfolding sx_handler_def
  proof (intro allI impI)
    fix s assume ok: "sx_ok s"
    let ?r = "TSEM_get_state (cr_sha (env_crypto env)) (sx_model s, buf_reset (sx_bufr s))"
    note shown = get_state_effect [OF ok, of "cr_sha (env_crypto env)"]
    show "keeps (sx_effect s) (res_bind (zoom (\<lambda>(m, b). s\<lparr>sx_model := m, sx_bufr := b\<rparr>) ?r) (\<lambda>_. send_Buffer (env_mgmt env)))"
    proof (cases ?r)
      case (Ret u p)
      with shown have "sx_effect s (s\<lparr>sx_model := fst p, sx_bufr := snd p\<rparr>)"
        by (intro sx_effect_state [OF ok]) simp_all
      from sx_handler_after [OF handler_send_Buffer ok this] Ret show ?thesis by (simp add: case_prod_beta)
    next
      case (Fail p)
      with shown have "sx_effect s (s\<lparr>sx_model := fst p, sx_bufr := snd p\<rparr>)"
        by (intro sx_effect_state [OF ok]) simp_all
      with Fail show ?thesis by (simp add: case_prod_beta)
    qed simp
  qed
  have seal: "sx_handler (\<lambda>s. let s1 = fill (''OK'' @ [NUL]) (on_model TSEM_seal s)
               in if b_poisoned (sx_bufr s1) then Fail s1 else send_Buffer (env_mgmt env) s1)"
    by (auto simp: sx_handler_def Let_def send_Buffer_def sx_effect_def effect_seal sx_ok_model)
  note commands = qx_handler_shows qx_handler_sancho [OF measurement] qx_handler_sancho [OF state]
    qx_handler_sancho [OF seal] qx_handler_Fail
  show ?thesis
    unfolding qx_handler_def
  proof (intro allI impI)
    fix st assume ok: "qx_ok st"
    note cs = commands [THEN qx_handlerD, OF ok]
    show "keeps (qx_effect st) (process_command env st)"
      unfolding process_command_def
      using cs by (simp split: option.split sancho_command.split)
  qed
qed

section \<open>The monitor\<close>

lemma drain_events_effect:
  assumes "drain_events env st = Some r"
  shows "sha_ok (cr_sha (env_crypto env)) \<longrightarrow> qx_ok st \<longrightarrow> keeps (qx_effect st) r"
proof (rule drain_events.raw_induct [OF _ assms,
    where P = "\<lambda>env st r. sha_ok (cr_sha (env_crypto env)) \<longrightarrow> qx_ok st \<longrightarrow> keeps (qx_effect st) r"], goal_cases)
  case (1 drain env st r)
  show ?case
  proof (intro impI)
    assume sha: "sha_ok (cr_sha (env_crypto env))" and ok: "qx_ok st"
    have event: "qx_effect st (st\<lparr>qx_event := e\<rparr>)" for e using ok by (simp add: qx_effect_refl)
    show "keeps (qx_effect st) r"
    proof (cases "TSEMevent_fetch_event (qx_event st, True)")
      case (Ret u s)
      obtain ev goes where s: "s = (ev, goes)" by (cases s)
      let ?st = "st\<lparr>qx_event := ev\<rparr>"
      have processed: "keeps (qx_effect st) (process_event env ?st)"
        by (rule qx_handler_after [OF qx_handler_process_event [OF sha] ok event])
      show ?thesis
      proof (cases "process_event env ?st")
        case ret: (Ret v st1)
        with processed have st1: "qx_effect st st1" by simp
        from 1(2) Ret s ret have "r = Ret () st1 \<or> goes \<and> drain env st1 = Some r"
          by (auto split: if_splits)
        moreover have "keeps (qx_effect st) r" if "drain env st1 = Some r"
        proof -
          have "keeps (qx_effect st1) r" using 1(1) [OF that] sha qx_effect_ok [OF ok st1] by blast
          then show ?thesis by (rule keeps_mono) (rule qx_effect_trans [OF st1])
        qed
        ultimately show ?thesis using st1 by auto
      qed (use 1(2) Ret s processed in auto)
    next
      case (Fail s)
      then show ?thesis using 1(2) event by (cases s) auto
    next
      case Undef
      then show ?thesis using 1(2) by auto
    qed
  qed
qed

lemma receive_command_effect: "qx_ok st \<Longrightarrow> qx_effect st (receive_command msg st)"
  by (auto simp: receive_command_def command_error_def qx_effect_iff qx_ok_iff effect_refl kill_cartridge_def
      buf_add_def split: option.split)

lemma manage_effect:
  assumes ok: "qx_ok st"
  shows "keeps (qx_effect st) (manage env accepted msg eof socket st)"
proof -
  note received = receive_command_effect [OF ok, of msg]
  have "keeps (qx_effect st) (process_command env (receive_command msg st))"
    by (rule qx_handler_after [OF qx_handler_process_command ok received])
  then have "keeps (qx_effect st)
     (case process_command env (receive_command msg st) of
        Undef \<Rightarrow> Undef
      | Fail st2 \<Rightarrow> Ret Goes_on ((command_error st2)\<lparr>qx_cmdbufr := buf_reset (qx_cmdbufr st2)\<rparr>)
      | Ret _ st2 \<Rightarrow> Ret Goes_on (st2\<lparr>qx_cmdbufr := buf_reset (qx_cmdbufr st2)\<rparr>))"
    by (cases "process_command env (receive_command msg st)")
      (auto simp: command_error_def qx_effect_iff kill_cartridge_def)
  moreover have "qx_effect st (st\<lparr>qx_connected := c\<rparr>)" for c
    using ok by (simp add: qx_effect_iff qx_ok_iff effect_refl)
  moreover have "qx_effect st ((receive_command msg st)\<lparr>qx_connected := c\<rparr>)" for c
    using received by (simp add: qx_effect_iff)
  ultimately show ?thesis using received by (simp add: manage_def Let_def qx_effect_refl [OF ok])
qed

lemma monitor_step_effect:
  assumes sha: "sha_ok (cr_sha (env_crypto env))" and ok: "qx_ok st" and step: "monitor_step env inp st = Some r"
  shows "keeps (qx_effect st) r"
proof (cases inp)
  case (Event_input available bs)
  have event: "qx_effect st (st\<lparr>qx_event := e\<rparr>)" for e using ok by (simp add: qx_effect_refl)
  show ?thesis
  proof (cases "TSEMevent_read_event available bs (qx_event st)")
    case (Ret u ev)
    with step Event_input obtain q where q: "drain_events env (st\<lparr>qx_event := ev\<rparr>) = Some q"
      "r = res_bind q (\<lambda>_ st1.
         if qx_model_error st1 then Ret (Ends False) (kill_cartridge False st1) else Ret Goes_on st1)"
      by (auto simp: monitor_step_def)
    have "keeps (qx_effect (st\<lparr>qx_event := ev\<rparr>)) q"
      using drain_events_effect [OF q(1)] sha ok by simp
    then have "keeps (qx_effect st) q" by (rule keeps_mono) (rule qx_effect_trans [OF event])
    then show ?thesis unfolding q(2) by (auto simp: keeps_def split: res.splits)
  qed (use step Event_input event in \<open>auto simp: monitor_step_def\<close>)
next
  case (Command_input accepted msg eof socket)
  then show ?thesis using step manage_effect [OF ok, of env accepted msg eof socket] by (auto simp: monitor_step_def)
qed (use step qx_effect_refl [OF ok] in \<open>auto simp: monitor_step_def split: if_splits\<close>)

lemma child_monitor_effect:
  assumes "sha_ok (cr_sha (env_crypto env))" "child_monitor env inputs st = Some r" "qx_ok st"
  shows "keeps (qx_effect st) r"
  using assms(2,3)
proof (induction inputs arbitrary: st)
  case Nil
  then show ?case by (auto simp: qx_effect_refl)
next
  case (Cons inp inputs)
  obtain q where q: "monitor_step env inp st = Some q" using Cons.prems(1) by (cases "monitor_step env inp st") auto
  note effect = monitor_step_effect [OF assms(1) Cons.prems(2) q]
  show ?case
  proof (cases q)
    case (Ret answer st1)
    with effect have st1: "qx_effect st st1" by simp
    show ?thesis
    proof (cases answer)
      case Goes_on
      with Cons.prems q Ret have "keeps (qx_effect st1) r"
        using Cons.IH [of st1] qx_effect_ok [OF Cons.prems(2) st1] by simp
      then show ?thesis by (rule keeps_mono) (rule qx_effect_trans [OF st1])
    qed (use Cons.prems q Ret st1 in \<open>auto split: if_splits\<close>)
  qed (use Cons.prems q effect in auto)
qed

lemma load_entries_effect:
  assumes "sha_ok (cr_sha cr)" "qx_ok st"
  shows "keeps (qx_effect st) (load_entries cr entries st)"
  using assms(2)
proof (induction entries arbitrary: st)
  case (Cons entry entries)
  let ?st = "if entry = ''seal'' then st\<lparr>qx_sealed := True\<rparr> else st"
  let ?r = "TSEM_load cr (hs_of entry) (qx_model ?st)"
  have "keeps (effect (qx_model st)) ?r"
    using effectful_load [OF assms(1)] Cons.prems by (simp add: effectful_def qx_ok_iff)
  then have loaded: "keeps (qx_effect st) (zoom (\<lambda>m. ?st\<lparr>qx_model := m\<rparr>) ?r)"
    by (cases ?r) (simp_all add: qx_effect_iff)
  have "keeps (qx_effect st) (load_entries cr entries st1)" if "qx_effect st st1" for st1
    using Cons.IH [OF qx_effect_ok [OF Cons.prems that]] by (rule keeps_mono) (rule qx_effect_trans [OF that])
  with loaded show ?case by (auto simp: Let_def intro!: keeps_bind simp del: zoom.simps)
qed (simp add: qx_effect_refl)

text \<open>A state of the monitor: the key is generated and a model may be loaded first.\<close>

definition quixote_reachable :: "environment \<Rightarrow> Quixote_State \<Rightarrow> bool" where
  "quixote_reachable env st \<longleftrightarrow>
     (\<exists>enforce errno random saved inputs st0.
        start_model env random saved (Quixote_Init enforce errno) = Ret () st0 \<and>
        (child_monitor env inputs st0 = Some (Ret () st) \<or> child_monitor env inputs st0 = Some (Fail st)))"

lemma start_model_effect:
  assumes "sha_ok (cr_sha (env_crypto env))"
  shows "qx_handler (start_model env random saved)"
proof -
  have "qx_handler (load_model env entries)" for entries
    unfolding qx_handler_def load_model_def
    using load_entries_effect [OF assms] by (auto simp: qx_effect_refl split: option.split)
  moreover have "qx_handler (on_control f)" for f by (rule qx_handler_control)
  moreover have "qx_handler (Ret ())" by (simp add: qx_handler_def qx_effect_refl)
  ultimately show ?thesis
    unfolding start_model_def by (intro qx_handler_steps) (auto split: option.split)
qed

lemma quixote_reachable_ok:
  assumes "quixote_reachable env st" "sha_ok (cr_sha (env_crypto env))"
  shows "qx_ok st" "history TSEM_Init (qx_model st)" "ts_logging (qx_model st)"
proof -
  obtain enforce errno random saved inputs st0 where
    start: "start_model env random saved (Quixote_Init enforce errno) = Ret () st0" and
    run: "child_monitor env inputs st0 = Some (Ret () st) \<or> child_monitor env inputs st0 = Some (Fail st)"
    using assms(1) unfolding quixote_reachable_def by (elim exE conjE) (rule that)
  have ok: "qx_ok (Quixote_Init enforce errno)" by (simp add: qx_ok_iff Quixote_Init_def buf_empty_def)
  have st0: "qx_effect (Quixote_Init enforce errno) st0"
    using qx_handlerD [OF start_model_effect [OF assms(2)] ok, of random saved] start by simp
  have "qx_effect st0 st"
    using run child_monitor_effect [OF assms(2) _ qx_effect_ok [OF ok st0]] keeps_simps(1,2) by metis
  then have e: "qx_effect (Quixote_Init enforce errno) st" by (rule qx_effect_trans [OF st0])
  then show "qx_ok st" by (rule qx_effect_ok [OF ok])
  from e have "effect TSEM_Init (qx_model st)" by (simp add: qx_effect_iff Quixote_Init_def)
  then show "history TSEM_Init (qx_model st)" "ts_logging (qx_model st)"
    by (simp_all add: effect_def TSEM_Init_def)
qed

end
