(* ===== verification/QuixoteProps.thy ===== *)
theory QuixoteProps
  imports QuixoteEffects SanchoProps
begin

text \<open>
  The properties of the orchestrator: what it makes of the export stream, what it tells the kernel, and what it does to
  the model.
\<close>

section \<open>The control object\<close>

text \<open>Nothing is left over of an earlier command.\<close>

definition control_ready :: "string \<Rightarrow> TSEMcontrol_State \<Rightarrow> bool" where
  "control_ready key c \<longleftrightarrow>
     tc_key c = Some (hs_of key) \<and> \<not> b_poisoned (tc_bufr c) \<and> b_data (tc_bufr c) = [] \<and>
     \<not> h_poisoned (tc_cmdstr c) \<and> hs_chars (tc_cmdstr c) = []"

definition verdict_command :: "bool \<Rightarrow> u32 \<Rightarrow> string \<Rightarrow> string" where
  "verdict_command trusted pid key =
     (if trusted then ''trusted'' else ''untrusted'') @ '' pid='' @ sprint_d pid @ '' key='' @ key @ [newline]"

definition TSEMcontrol_verdict ::
  "bool \<Rightarrow> (byte list list \<Rightarrow> bool) \<Rightarrow> u32 \<Rightarrow> TSEMcontrol_State \<Rightarrow> (unit, TSEMcontrol_State) res" where
  "TSEMcontrol_verdict trusted = (if trusted then TSEMcontrol_release else TSEMcontrol_discipline)"

lemma verdict_steps:
  "TSEMcontrol_verdict trusted up pid c =
     steps [with_key (\<lambda>k. add_cmd (verdict_command trusted pid k)), TSEMcontrol_write_cmd up] c"
  by (simp add: TSEMcontrol_verdict_def TSEMcontrol_release_def TSEMcontrol_discipline_def verdict_command_def
      newline_def)

text \<open>The text and the buffer that an operation leaves, when the file takes one more buffer and when it does not.\<close>

lemma control_verdict:
  assumes "tc_key c = Some (hs_of key)" "\<not> b_poisoned (tc_bufr c)" "\<not> h_poisoned (tc_cmdstr c)"
  shows "up (tc_written c) \<Longrightarrow> \<exists>d. TSEMcontrol_verdict trusted up pid c = Ret () d \<and> control_ready key d \<and>
           tc_written d =
             tc_written c @ [b_data (tc_bufr c) @ hs_chars (tc_cmdstr c) @ verdict_command trusted pid key]"
    and "\<not> up (tc_written c) \<Longrightarrow> \<exists>d. TSEMcontrol_verdict trusted up pid c = Fail d \<and>
           tc_key d = Some (hs_of key) \<and> \<not> b_poisoned (tc_bufr d) \<and> \<not> h_poisoned (tc_cmdstr d) \<and>
           tc_written d = tc_written c \<and>
           hs_chars (tc_cmdstr d) = hs_chars (tc_cmdstr c) @ verdict_command trusted pid key \<and>
           b_data (tc_bufr d) = b_data (tc_bufr c) @ hs_chars (tc_cmdstr d)"
  using assms
  by (auto simp: verdict_steps with_key_def add_cmd_def hs_add_ok TSEMcontrol_write_cmd_def buf_add_def
      fail_if_def control_ready_def buf_reset_def)

text \<open>
  When the control file refuses a command, its text stays in the object: the next command
  that is accepted writes the refused text twice in front of its own.
\<close>

theorem failed_command_is_repeated:
  assumes "control_ready key c" "\<not> up (tc_written c)" "up' (tc_written c)"
  shows "\<exists>d e. TSEMcontrol_discipline up pid c = Fail d \<and> tc_written d = tc_written c \<and>
     TSEMcontrol_release up' pid' d = Ret () e \<and>
     tc_written e = tc_written c @
       [verdict_command False pid key @ verdict_command False pid key @ verdict_command True pid' key]"
proof -
  obtain d where d: "TSEMcontrol_discipline up pid c = Fail d" "tc_key d = Some (hs_of key)"
    "\<not> b_poisoned (tc_bufr d)" "\<not> h_poisoned (tc_cmdstr d)" "tc_written d = tc_written c"
    "hs_chars (tc_cmdstr d) = verdict_command False pid key"
    "b_data (tc_bufr d) = verdict_command False pid key"
    using control_verdict(2) [of c key up False pid] assms(1,2)
    by (auto simp: control_ready_def TSEMcontrol_verdict_def)
  from control_verdict(1) [of d key up' True pid'] d assms(3) obtain e where
    "TSEMcontrol_release up' pid' d = Ret () e" "tc_written e = tc_written c @
       [verdict_command False pid key @ verdict_command False pid key @ verdict_command True pid' key]"
    by (auto simp: TSEMcontrol_verdict_def)
  with d(1,5) show ?thesis by blast
qed

definition demo_control :: TSEMcontrol_State where
  "demo_control = TSEMcontrol_Init\<lparr>tc_key := Some (hs_of ''00'')\<rparr>"

lemma demo_control_ready [simp]: "control_ready ''00'' demo_control" "tc_written demo_control = []"
  by (simp_all add: control_ready_def demo_control_def TSEMcontrol_Init_def buf_empty_def)

theorem failed_command_is_repeated_witness:
  "\<exists>d e. TSEMcontrol_discipline (\<lambda>_. False) 7 demo_control = Fail d \<and>
     TSEMcontrol_release (\<lambda>_. True) 8 d = Ret () e \<and>
     tc_written e = [verdict_command False 7 ''00'' @ verdict_command False 7 ''00'' @ verdict_command True 8 ''00'']"
  using failed_command_is_repeated [OF demo_control_ready(1), of "\<lambda>_. False" "\<lambda>_. True" 7 8] by auto

section \<open>The verdict on an event\<close>

lemma add_event_verdict:
  assumes ok: "qx_ok st" and sha: "sha_ok (cr_sha (env_crypto env))" and up: "\<forall>w. env_control env w"
    and ready: "control_ready key (qx_control st)" and error: "\<not> qx_model_error st"
    and parse: "SecurityEvent_parse ((SecurityEvent_Init (env_cell env), update), qx_errno st) = Ret u ((event, x), e)"
    and model: "TSEM_update (cr_sha (env_crypto env)) (qx_model st, event) = Ret (status, discipline, seal) (T, ev)"
  shows "\<exists>st'. Quixote_add_event env update st = Ret () st' \<and> qx_model st' = T \<and> qx_event st' = qx_event st \<and>
     qx_model_error st' = qx_model_error st \<and> control_ready key (qx_control st') \<and>
     tc_written (qx_control st') = tc_written (qx_control st) @
       [verdict_command (\<not> (ts_sealed T \<and> point_id ev \<in> set (violations T))) (se_pid ev) key]"
proof -
  have S: "tsem_ok (qx_model st)" using ok by (simp add: qx_ok_iff)
  note pid = TSEM_update_pid [OF S sha model]
  then have se: "ts_discipline_pid T = se_pid ev" by (simp add: SecurityEvent_get_pid_def split: if_splits)
  note verdict = TSEM_update_verdict(2,3) [OF S sha model]
  let ?trusted = "\<not> (seal \<and> discipline)"
  let ?st = "st\<lparr>qx_errno := e, qx_model := T\<rparr>"
  obtain d where d: "TSEMcontrol_verdict ?trusted (env_control env) (se_pid ev) (qx_control st) = Ret () d"
    "control_ready key d" "tc_written d = tc_written (qx_control st) @ [verdict_command ?trusted (se_pid ev) key]"
    using control_verdict(1) [of "qx_control st" key "env_control env" ?trusted "se_pid ev"] ready up
    by (auto simp: control_ready_def)
  have "Quixote_add_event env update st = Ret () (?st\<lparr>qx_control := d\<rparr>)"
  proof (cases "seal \<and> discipline")
    case True
    with d(1) have "TSEMcontrol_discipline (env_control env) (se_pid ev) (qx_control st) = Ret () d"
      by (simp add: TSEMcontrol_verdict_def)
    with True parse model pid se error show ?thesis
      by (simp add: Quixote_add_event_def parse_update_def update_model_def TSEM_discipline_pid_def on_control_def)
  next
    case False
    with d(1) have "TSEMcontrol_release (env_control env) (se_pid ev) (qx_control st) = Ret () d"
      by (simp add: TSEMcontrol_verdict_def)
    with False parse model pid se error show ?thesis
      by (auto simp: Quixote_add_event_def parse_update_def update_model_def TSEM_discipline_pid_def on_control_def)
  qed
  with d(2,3) verdict show ?thesis by auto
qed

section \<open>A line to instantiate the properties\<close>

definition demo_line :: string where
  "demo_line = CHR ''{'' # field_spec ''export'' @ DQ # ''type'' @ DQ # '': '' @ DQ # ''event'' @ DQ # ''}, '' @ tl demo_text"

lemma demo_extract:
  "case TSEMevent_extract_export (TSEMevent_reset (TSEMevent_Init\<lparr>te_event := hs_of demo_line\<rparr>)) of
     Ret type ev \<Rightarrow> type = TSEM_EVENT_EVENT \<and> te_event ev = hs_of demo_line
   | _ \<Rightarrow> False"
  by code_simp

lemma demo_line_plain: "line_ok demo_line"
  by code_simp

lemma demo_line_describes:
  "describes demo_line ''event'' demo_members" "describes demo_line ''COE'' (coe_members zero_character)"
proof -
  let ?event = "CHR ''{'' # field_spec ''export'' @ DQ # ''type'' @ DQ # '': '' @ DQ # ''event'' @ DQ # ''}, ''"
  let ?coe = "?event @ field_spec ''event'' @ members demo_members @ '', ''"
  let ?post = "'', '' @ DQ # ''file_ioctl'' @ DQ # '': {}}''"
  let ?COE = "'', '' @ field_spec ''COE'' @ members (coe_members zero_character) @ ?post"
  have "demo_line = ?event @ field_spec ''event'' @ members demo_members @ ?COE"
    "strstr demo_line (field_spec ''event'') = Some (?event, field_spec ''event'' @ members demo_members @ ?COE)"
    "hd demo_line = CHR ''{'' \<and> last demo_line = CHR ''}''"
    by code_simp+
  then show "describes demo_line ''event'' demo_members"
    unfolding describes_def by (intro exI [of _ ?event] exI [of _ ?COE]) simp
  have "demo_line = ?coe @ field_spec ''COE'' @ members (coe_members zero_character) @ ?post"
    "strstr demo_line (field_spec ''COE'') = Some (?coe, field_spec ''COE'' @ members (coe_members zero_character) @ ?post)"
    "hd demo_line = CHR ''{'' \<and> last demo_line = CHR ''}''"
    by code_simp+
  then show "describes demo_line ''COE'' (coe_members zero_character)"
    unfolding describes_def by (intro exI [of _ ?coe] exI [of _ ?post]) simp
qed

lemma demo_line_parse:
  "SecurityEvent_parse ((SecurityEvent_Init demo_cell, hs_of demo_line), 0) = Ret () ((demo_parsed, hs_of demo_line), 0)"
  unfolding demo_parsed_def
  by (rule SecurityEvent_parse_described [OF demo_line_describes demo_generic demo_process])
    (simp_all add: zero_character_def ERANGE_def)

definition demo_env :: environment where
  "demo_env = \<lparr>env_crypto = demo_crypto, env_cell = demo_cell, env_stack = demo_stack, env_control = \<lambda>_. True,
     env_mgmt = \<lambda>_. True, env_file = \<lambda>_. True\<rparr>"

lemma demo_env_simps [simp]:
  "env_crypto demo_env = demo_crypto" "env_cell demo_env = demo_cell" "env_control demo_env w"
  by (simp_all add: demo_env_def)

definition demo_start :: Quixote_State where
  "demo_start = (Quixote_Init True 0)\<lparr>qx_control := demo_control\<rparr>"

lemma demo_start_model: "start_model demo_env (Some [NUL]) None (Quixote_Init True 0) = Ret () demo_start"
proof -
  have "sprint_02x NUL = ''00''" by code_simp
  then show ?thesis
    by (simp add: start_model_def demo_start_def demo_control_def on_control_def Quixote_Init_def
        TSEMcontrol_generate_key_def)
qed

lemma demo_start_reachable: "quixote_reachable demo_env demo_start"
  unfolding quixote_reachable_def
  by (intro exI conjI, rule demo_start_model, rule disjI1) (rule child_monitor.simps(1))

lemma demo_start_simps [simp]:
  "qx_model demo_start = TSEM_Init" "qx_control demo_start = demo_control" "\<not> qx_model_error demo_start"
  "qx_errno demo_start = 0" "qx_event demo_start = TSEMevent_Init" "\<not> qx_connected demo_start"
  by (simp_all add: demo_start_def Quixote_Init_def)

lemma with_line_simps [simp]:
  "qx_model (with_line l st) = qx_model st" "qx_control (with_line l st) = qx_control st"
  "qx_model_error (with_line l st) = qx_model_error st" "qx_errno (with_line l st) = qx_errno st"
  "qx_event (with_line l st) = (qx_event st)\<lparr>te_event := hs_of l\<rparr>" "qx_cmdbufr (with_line l st) = qx_cmdbufr st"
  by (simp_all add: with_line_def)

section \<open>Properties\<close>

text \<open>An export line of a synchronous event, in a state of the monitor.\<close>

lemma process_event_verdict:
  assumes ok: "qx_ok st" and hist: "history TSEM_Init (qx_model st)"
    and sha: "sha_ok (cr_sha (env_crypto env))" and up: "\<forall>w. env_control env w"
    and ready: "control_ready key (qx_control st)" and error: "\<not> qx_model_error st"
    and exported: "TSEMevent_extract_export (TSEMevent_reset (qx_event (with_line line st))) = Ret TSEM_EVENT_EVENT e"
    and parse: "SecurityEvent_parse ((SecurityEvent_Init (env_cell env), hs_of line), qx_errno st) = Ret u ((event, x), n)"
    and model: "TSEM_update (cr_sha (env_crypto env)) (qx_model st, event) = Ret (status, discipline, seal) (T, ev)"
  shows "\<exists>st'. process_event env (with_line line st) = Ret () st' \<and> qx_model st' = T \<and>
     qx_model_error st' = qx_model_error st \<and> control_ready key (qx_control st') \<and>
     tc_written (qx_control st') = tc_written (qx_control st) @
       [verdict_command (point_id ev \<notin> set (violations T)) (se_pid ev) key]"
proof -
  let ?st = "(with_line line st)\<lparr>qx_event := e\<rparr>"
  have "stream_view e = stream_view (TSEMevent_reset (qx_event (with_line line st)))"
    by (rule framedD(2) [OF unbuffered_extract_export exported])
  then have "te_event e = hs_of line" by (simp add: stream_view_def TSEMevent_reset_def reset_parser_def)
  then have shown: "TSEMevent_get_event e = Some line" by (simp add: TSEMevent_get_event_def)
  have okl: "qx_ok ?st" using ok by (simp add: qx_ok_iff)
  have at: "control_ready key (qx_control ?st)" "\<not> qx_model_error ?st"
    "SecurityEvent_parse ((SecurityEvent_Init (env_cell env), hs_of line), qx_errno ?st) = Ret u ((event, x), n)"
    "TSEM_update (cr_sha (env_crypto env)) (qx_model ?st, event) = Ret (status, discipline, seal) (T, ev)"
    using ready error parse model by simp_all
  obtain st' where st': "Quixote_add_event env (hs_of line) ?st = Ret () st'" "qx_model st' = T"
    "qx_model_error st' = qx_model_error st" "control_ready key (qx_control st')"
    "tc_written (qx_control st') = tc_written (qx_control st) @
       [verdict_command (\<not> (ts_sealed T \<and> point_id ev \<in> set (violations T))) (se_pid ev) key]"
    using add_event_verdict [OF okl sha up at] by auto
  have "qx_effect ?st st'"
    using qx_handlerD [OF qx_handler_add_event [OF sha] okl, of "hs_of line"] st'(1) by simp
  then have "history TSEM_Init T" using st'(2) history_trans [OF hist] by (simp add: qx_effect_iff effect_def)
  moreover have "violations TSEM_Init = []" by (simp add: violations_def TSEM_Init_def Gaggle_Init_def)
  ultimately have "ts_sealed T \<or> violations T = []"
    unfolding history_def by metis
  then have "(\<not> (ts_sealed T \<and> point_id ev \<in> set (violations T))) = (point_id ev \<notin> set (violations T))" by auto
  moreover have "process_event env (with_line line st) = Ret () st'"
    using exported shown st'(1) by (simp add: process_event_def Let_def)
  ultimately show ?thesis using st' by auto
qed

text \<open>
  C5: For a line of the export stream that describes an event that can be modeled, a monitor that was
  not in error, in any state it can reach, writes exactly one command to the control file: it names the process of the
  event and the key, and says that the process is not to be trusted exactly when the point of the event is a violation
  in the updated model.  The control object is ready for the next verdict.
\<close>

theorem quixote_verdict:
  assumes "quixote_reachable env st" "sha_ok (cr_sha (env_crypto env))" "\<forall>w. env_control env w"
    and "control_ready key (qx_control st)" "\<not> qx_model_error st"
    and "TSEMevent_extract_export (TSEMevent_reset (qx_event (with_line line st))) = Ret TSEM_EVENT_EVENT e"
    and "SecurityEvent_parse ((SecurityEvent_Init (env_cell env), hs_of line), qx_errno st) = Ret u ((event, x), n)"
    and "TSEM_update (cr_sha (env_crypto env)) (qx_model st, event) = Ret (status, discipline, seal) (T, ev)"
  shows "\<exists>st'. process_event env (with_line line st) = Ret () st' \<and> qx_model st' = T \<and>
     qx_model_error st' = qx_model_error st \<and> control_ready key (qx_control st') \<and>
     tc_written (qx_control st') = tc_written (qx_control st) @
       [verdict_command (point_id ev \<notin> set (violations T)) (se_pid ev) key]"
  by (rule process_event_verdict [OF quixote_reachable_ok(1,2) [OF assms(1,2)] assms(2-8)])

lemma demo_verdict:
  "\<exists>e. TSEMevent_extract_export (TSEMevent_reset (qx_event (with_line demo_line demo_start))) = Ret TSEM_EVENT_EVENT e"
  "\<exists>status discipline seal T ev. TSEM_update (cr_sha (env_crypto demo_env)) (qx_model demo_start, demo_parsed) =
     Ret (status, discipline, seal) (T, ev)"
  "SecurityEvent_parse ((SecurityEvent_Init (env_cell demo_env), hs_of demo_line), qx_errno demo_start) =
     Ret () ((demo_parsed, hs_of demo_line), 0)"
  "\<forall>w. env_control demo_env w" "sha_ok (cr_sha (env_crypto demo_env))" "control_ready ''00'' (qx_control demo_start)"
  using demo_extract demo_parsed_update demo_line_parse by (auto split: res.splits)

theorem quixote_verdict_witness:
  "\<exists>st'. process_event demo_env (with_line demo_line demo_start) = Ret () st' \<and>
     control_ready ''00'' (qx_control st') \<and> length (tc_written (qx_control st')) = 1"
proof -
  obtain e status discipline seal T ev where
    "TSEMevent_extract_export (TSEMevent_reset (qx_event (with_line demo_line demo_start))) = Ret TSEM_EVENT_EVENT e"
    "TSEM_update (cr_sha (env_crypto demo_env)) (qx_model demo_start, demo_parsed) = Ret (status, discipline, seal) (T, ev)"
    using demo_verdict(1,2) by blast
  from quixote_verdict [OF demo_start_reachable demo_verdict(5,4,6) _ this(1) demo_verdict(3) this(2)]
  obtain st' where "process_event demo_env (with_line demo_line demo_start) = Ret () st'"
    "control_ready ''00'' (qx_control st')" "length (tc_written (qx_control st')) = 1" by auto
  then show ?thesis by blast
qed

section \<open>The export stream\<close>

lemma demo_start_ok: "qx_ok demo_start" "history TSEM_Init (qx_model demo_start)"
  using quixote_reachable_ok [OF demo_start_reachable] by simp_all

lemma demo_line_processed:
  "\<exists>t. process_lines demo_env [demo_line] demo_start = Ret () t \<and> length (tc_written (qx_control t)) = 1"
proof -
  obtain e status discipline seal T ev where
    "TSEMevent_extract_export (TSEMevent_reset (qx_event (with_line demo_line demo_start))) = Ret TSEM_EVENT_EVENT e"
    "TSEM_update (cr_sha (env_crypto demo_env)) (qx_model demo_start, demo_parsed) = Ret (status, discipline, seal) (T, ev)"
    using demo_verdict(1,2) by blast
  from process_event_verdict [OF demo_start_ok demo_verdict(5,4,6) _ this(1) demo_verdict(3) this(2)]
  show ?thesis by auto
qed

lemma demo_line_short: "length demo_line < 1000"
  by code_simp

lemma demo_start_holds: "holds [] (qx_event demo_start)"
  using holds_Init by simp

text \<open>
  C6: The monitor, on reads of complete lines, does what processing the lines of each read one
  after the other does, up to the bytes in its read buffer; when a line cannot be processed, it marks the model, kills
  the workload and ends.  The loop over the lines of a read always ends.  Behind each line the rest of the read is moved
  to the front with \<open>memcpy\<close>, which is undefined when the rest is longer than the line with its newline: then so is
  the run.  When no read has such a line, how the lines are spread over the reads does not matter.
\<close>

theorem monitor_refines_lines:
  assumes "holds [] (qx_event st)" "\<forall>ls \<in> set groups. ls \<noteq> [] \<and> (\<forall>l \<in> set ls. line_ok l) \<and> length (lines ls) < 2 ^ 31"
    and "\<not> qx_model_error st"
  shows "(case process_reads env groups st of
     Ret _ t \<Rightarrow> \<exists>b n. child_monitor env (map (\<lambda>ls. read_of (lines ls)) groups) st = Some (Ret () (restream b n t))
   | Fail t \<Rightarrow> \<exists>b n. child_monitor env (map (\<lambda>ls. read_of (lines ls)) groups) st =
         Some (Fail (kill_cartridge False ((restream b n t)\<lparr>qx_model_error := True\<rparr>)))
   | Undef \<Rightarrow> child_monitor env (map (\<lambda>ls. read_of (lines ls)) groups) st = Some Undef) \<and>
   ((\<forall>ls \<in> set groups. apart [] ls) \<longrightarrow> process_reads env groups st = process_lines env (concat groups) st)"
proof -
  have "\<forall>ls \<in> set groups. ls \<noteq> [] \<and> (\<forall>l \<in> set ls. line_ok l) \<and> length (lines ls) < 2 ^ 63" using assms(2) by auto
  from child_monitor_lines [OF assms(1) this assms(3), of env] process_reads_apart show ?thesis by blast
qed

lemma demo_line_long: "1 < length demo_line"
  by code_simp

theorem monitor_refines_lines_witness:
  "(\<exists>t. child_monitor demo_env [read_of (lines [demo_line])] demo_start = Some (Ret () t) \<and>
      length (tc_written (qx_control t)) = 1) \<and>
   child_monitor demo_env [read_of (lines [[], demo_line])] demo_start = Some Undef"
proof -
  obtain t where t: "process_lines demo_env [demo_line] demo_start = Ret () t" "length (tc_written (qx_control t)) = 1"
    using demo_line_processed by blast
  have one: "\<forall>ls \<in> set [[demo_line]]. ls \<noteq> [] \<and> (\<forall>l \<in> set ls. line_ok l) \<and> length (lines ls) < 2 ^ 31"
    and two: "\<forall>ls \<in> set [[[], demo_line]]. ls \<noteq> [] \<and> (\<forall>l \<in> set ls. line_ok l) \<and> length (lines ls) < 2 ^ 31"
    using demo_line_short demo_line_plain by (simp_all add: line_ok_def)
  note run = monitor_refines_lines [OF demo_start_holds _ demo_start_simps(3), where env = demo_env]
  have "process_reads demo_env [[demo_line]] demo_start = Ret () t"
    using run [OF one] t(1) by (simp del: process_lines.simps)
  with run [OF one] obtain b n where
    "child_monitor demo_env [read_of (lines [demo_line])] demo_start = Some (Ret () (restream b n t))"
    by (auto simp del: child_monitor.simps process_reads.simps)
  moreover have "qx_control (restream b n t) = qx_control t" by (simp add: restream_def)
  moreover have "process_reads demo_env [[[], demo_line]] demo_start = Undef"
    using demo_line_long by (auto simp: less_Suc_eq_0_disj)
  with run [OF two] have "child_monitor demo_env [read_of (lines [[], demo_line])] demo_start = Some Undef"
    by (simp del: child_monitor.simps process_reads.simps)
  ultimately show ?thesis using t(2) by auto
qed

text \<open>
  When a read ends in the middle of a line, the workload is killed, although all complete lines
  were processed and nothing is wrong with the model: the rest of the line may still be to come, and the monitor goes
  on to wait for it.
\<close>

theorem partial_line_kills:
  assumes "holds [] (qx_event st)" "ls \<noteq> []" "\<forall>l \<in> set ls. line_ok l" "line_ok p" "p \<noteq> []" "apart p ls"
    and "\<not> qx_model_error st" "length (lines ls @ p) < 2 ^ 63" "process_lines env ls st = Ret u t"
  shows "\<exists>b n. monitor_step env (read_of (lines ls @ p)) st =
       Some (Ret Goes_on (kill_cartridge False (restream b n t))) \<and>
     holds p (qx_event (restream b n t)) \<and> \<not> qx_model_error t"
proof -
  have "process_read env p ls st = Ret u t" using process_read_apart [OF assms(6)] assms(9) by simp
  with monitor_step_lines [where env = env, OF assms(1-4,7,8)] assms(5,7) process_read_error show ?thesis by auto
qed

theorem partial_line_kills_witness:
  "\<exists>t. monitor_step demo_env (read_of (lines [demo_line] @ ''{'')) demo_start = Some (Ret Goes_on t) \<and>
     qx_kills t \<noteq> []"
proof -
  obtain t where t: "process_lines demo_env [demo_line] demo_start = Ret () t" using demo_line_processed by blast
  have "line_ok ''{''" "length (lines [demo_line] @ ''{'') < 2 ^ 63" "apart ''{'' [demo_line]"
    using demo_line_short by (simp_all add: line_ok_def newline_def)
  with partial_line_kills [OF demo_start_holds _ _ _ _ _ _ _ t, of "''{''"] demo_line_plain
  obtain b n where "monitor_step demo_env (read_of (lines [demo_line] @ ''{'')) demo_start =
      Some (Ret Goes_on (kill_cartridge False (restream b n t)))" by auto
  then show ?thesis by (simp add: kill_cartridge_def)
qed

text \<open>
  A read without a newline that fills the buffer, such as the first read of all, makes the
  search for the newline leave the allocated memory.
\<close>

theorem unterminated_read_overruns:
  assumes "holds [] (qx_event st)" "line_ok p" "length p < 2 ^ 63" "length (b_data (te_bufr (qx_event st))) \<le> length p"
  shows "monitor_step env (read_of p) st = Some Undef"
proof -
  let ?S = "qx_event st"
  have "\<not> b_poisoned (te_bufr ?S)" "te_size ?S = 0" using assms(1) by (simp_all add: holds_def)
  moreover have "unat (of_nat (length p) :: u64) = length p" by (rule unat_small [OF assms(3)])
  ultimately obtain T where T: "TSEMevent_read_event (Some (length p)) (Some p) ?S = Ret () T" "b_data (te_bufr T) = p"
    using assms(4) by (simp add: TSEMevent_read_event_def grow_loop_ok buf_size_def overwrite_def)
  have "strchr_bytes p newline = None" using assms(2) by (intro strchr_bytes_full) (simp_all add: line_ok_def)
  then have "drain_events env (st\<lparr>qx_event := T\<rparr>) = Some Undef"
    using T(2) by (subst drain_events.simps) (simp add: TSEMevent_fetch_event_def)
  then show ?thesis using T(1) by (simp add: monitor_step_def read_of_def)
qed

theorem unterminated_read_overruns_witness:
  "monitor_step demo_env (read_of ''{'') demo_start = Some Undef"
  by (rule unterminated_read_overruns [OF demo_start_holds])
    (simp_all add: line_ok_def newline_def TSEMevent_Init_def buf_empty_def)

section \<open>The model behind the monitor\<close>

text \<open>
  C7: Whatever the kernel and the management client send, in whatever order, a monitor whose model is
  sealed keeps it sealed: the valid points are frozen, and violations are only added.
\<close>

theorem quixote_seals_for_good:
  assumes "quixote_reachable env st" "sha_ok (cr_sha (env_crypto env))" "ts_sealed (qx_model st)"
    and "child_monitor env inputs st = Some r" "r = Ret () st' \<or> r = Fail st'"
  shows "ts_sealed (qx_model st') \<and> valid_points (qx_model st') = valid_points (qx_model st) \<and>
     (\<exists>vs. violations (qx_model st') = violations (qx_model st) @ vs)"
proof -
  have "qx_effect st st'"
    using child_monitor_effect [OF assms(2,4) quixote_reachable_ok(1) [OF assms(1,2)]] assms(5) by auto
  then show ?thesis using assms(3) by (simp add: qx_effect_iff effect_def history_def)
qed

text \<open>A model is sealed by the management client.\<close>

definition seal_number :: "byte list" where
  "seal_number = [CHR 0x03, NUL, NUL, NUL]"

definition sealed_start :: Quixote_State where
  "sealed_start = demo_start\<lparr>qx_model := TSEM_seal TSEM_Init, qx_connected := True,
     qx_sent := [''OK'' @ [NUL]]\<rparr>"

lemma demo_start_seal:
  "child_monitor demo_env [Command_input True None False True, Command_input True (Some seal_number) False True]
     demo_start = Some (Ret () sealed_start)"
proof -
  have "command_of seal_number = Some seal_event" by code_simp
  then show ?thesis
    by (simp add: monitor_step_def manage_def Let_def receive_command_def process_command_def buf_add_def demo_start_def
        Quixote_Init_def buf_empty_def seal_number_def buf_size_def on_sancho_def as_sancho_def fill_def on_model_def
        send_Buffer_def buf_reset_def sealed_start_def demo_env_def)
qed

lemma sealed_start_reachable: "quixote_reachable demo_env sealed_start"
  unfolding quixote_reachable_def
  by (intro exI conjI, rule demo_start_model, rule disjI1) (rule demo_start_seal)

theorem quixote_seals_for_good_witness:
  "\<exists>st'. child_monitor demo_env [Command_input True (Some seal_number) False True] sealed_start = Some (Ret () st') \<and>
     ts_sealed (qx_model st')"
proof -
  have "command_of seal_number = Some seal_event" by code_simp
  then obtain st' where
    run: "child_monitor demo_env [Command_input True (Some seal_number) False True] sealed_start = Some (Ret () st')"
    by (simp add: monitor_step_def manage_def Let_def receive_command_def process_command_def buf_add_def demo_start_def
        Quixote_Init_def buf_empty_def seal_number_def buf_size_def on_sancho_def as_sancho_def fill_def on_model_def
        send_Buffer_def buf_reset_def sealed_start_def demo_env_def)
  have "ts_sealed (qx_model sealed_start)" by (simp add: sealed_start_def TSEM_seal_def)
  with quixote_seals_for_good [OF sealed_start_reachable _ _ run] run show ?thesis by auto
qed

end
