(* ===== verification/LocalDuct.thy ===== *)
theory LocalDuct
  imports HString
begin

text \<open>
  The connection between an orchestrator and its management client (\<open>lib/LocalDuct.c\<close>): messages over a stream
  socket, each with its size in front.

  The sockets are I/O: the state has the bytes that are on their way to the object and those it wrote.  What the
  system calls do with them is the record \<open>socket_io\<close>: how many bytes a \<open>read\<close> of a size takes, whether a
  \<open>writev\<close> writes everything, whether the path can be bound or connected to, and what they leave in \<open>errno\<close>.
\<close>

section \<open>State\<close>

datatype duct_type = not_defined | server | client

record LocalDuct_State =
  ld_poisoned :: bool
  ld_eof :: bool
  ld_error :: int
  ld_type :: duct_type
  ld_sockt :: bool
  ld_fd :: bool
  ld_path :: "string option"
  ld_in :: "byte list"
  ld_out :: "byte list"

record socket_io =
  io_read :: "byte list \<Rightarrow> nat \<Rightarrow> nat"
  io_write :: "byte list \<Rightarrow> byte list \<Rightarrow> bool"
  io_open :: "string \<Rightarrow> bool"
  io_errno :: int

definition LocalDuct_Init :: LocalDuct_State where
  "LocalDuct_Init =
     \<lparr>ld_poisoned = False, ld_eof = False, ld_error = 0, ld_type = not_defined, ld_sockt = False, ld_fd = False,
      ld_path = None, ld_in = [], ld_out = []\<rparr>"

definition duct_poison :: "LocalDuct_State \<Rightarrow> LocalDuct_State" where
  "duct_poison S = S\<lparr>ld_poisoned := True\<rparr>"

section \<open>Connections\<close>

definition LocalDuct_init_server :: "LocalDuct_State \<Rightarrow> (unit, LocalDuct_State) res" where
  "LocalDuct_init_server S = Ret () (S\<lparr>ld_type := server, ld_poisoned := False\<rparr>)"

definition LocalDuct_init_client :: "LocalDuct_State \<Rightarrow> (unit, LocalDuct_State) res" where
  "LocalDuct_init_client S = Ret () (S\<lparr>ld_type := client, ld_poisoned := False\<rparr>)"

text \<open>The path of a socket has room for 107 characters.\<close>

definition LocalDuct_init_server_port :: "socket_io \<Rightarrow> string \<Rightarrow> LocalDuct_State \<Rightarrow> (unit, LocalDuct_State) res" where
  "LocalDuct_init_server_port io path S =
     (if length path > 107 then Fail (duct_poison S)
      else if io_open io path then Ret () (S\<lparr>ld_sockt := True\<rparr>)
      else Fail (duct_poison S))"

definition LocalDuct_init_client_port :: "socket_io \<Rightarrow> string \<Rightarrow> LocalDuct_State \<Rightarrow> (unit, LocalDuct_State) res" where
  "LocalDuct_init_client_port io path S =
     (if length path > 107 then Fail (duct_poison S)
      else if io_open io path then Ret () (S\<lparr>ld_sockt := True, ld_fd := True\<rparr>)
      else Fail (duct_poison S))"

definition LocalDuct_init_port :: "socket_io \<Rightarrow> string \<Rightarrow> LocalDuct_State \<Rightarrow> (unit, LocalDuct_State) res" where
  "LocalDuct_init_port io path S =
     (if ld_poisoned S then Fail (duct_poison S)
      else
        (let S1 = S\<lparr>ld_path := Some path\<rparr>
         in on_fail duct_poison
              (if ld_type S = server then LocalDuct_init_server_port io path S1
               else LocalDuct_init_client_port io path S1)))"

text \<open>\<open>bytes\<close>: what the client of the next connection sends; \<open>None\<close> if there is no connection.\<close>

definition LocalDuct_accept_connection :: "byte list option \<Rightarrow> LocalDuct_State \<Rightarrow> (unit, LocalDuct_State) res" where
  "LocalDuct_accept_connection bytes S =
     (if ld_poisoned S \<or> \<not> ld_sockt S then Fail (duct_poison S)
      else (case bytes of
              None \<Rightarrow> Fail (duct_poison (S\<lparr>ld_fd := False\<rparr>))
            | Some bs \<Rightarrow> Ret () (S\<lparr>ld_fd := True, ld_in := bs, ld_out := []\<rparr>)))"

definition LocalDuct_eof :: "LocalDuct_State \<Rightarrow> bool" where
  "LocalDuct_eof S = ld_eof S"

text \<open>The descriptors are numbers in the code; here they are whether there is one.\<close>

definition LocalDuct_get_socket :: "LocalDuct_State \<Rightarrow> bool option" where
  "LocalDuct_get_socket S = (if ld_poisoned S then None else Some (ld_sockt S))"

definition LocalDuct_get_fd :: "LocalDuct_State \<Rightarrow> bool option" where
  "LocalDuct_get_fd S = (if ld_poisoned S then None else Some (ld_fd S))"

text \<open>Only the connection is reset: the object stays poisoned.\<close>

definition LocalDuct_reset :: "LocalDuct_State \<Rightarrow> LocalDuct_State" where
  "LocalDuct_reset S =
     (let S1 = S\<lparr>ld_eof := False\<rparr>
      in if ld_type S1 = server \<and> ld_fd S1 then S1\<lparr>ld_fd := False\<rparr> else S1)"

section \<open>Messages\<close>

text \<open>\<open>htonl\<close> and \<open>ntohl\<close>: the bytes of a 32 bit number in network order, most significant first.\<close>

definition net_bytes :: "u32 \<Rightarrow> byte list" where
  "net_bytes w = rev (u32_bytes w)"

definition net_value :: "byte list \<Rightarrow> nat" where
  "net_value bs = le_value (rev bs)"

lemma length_net_bytes [simp]: "length (net_bytes w) = 4"
  by (simp add: net_bytes_def)

lemma net_value_bytes [simp]: "net_value (net_bytes w) = unat w"
  using unsigned_less [of w, where 'a = nat]
  by (simp add: net_value_def net_bytes_def u32_bytes_def le_value_le_bytes)

text \<open>A client ends the conversation with a size of 0 when its object is destroyed.\<close>

definition LocalDuct_whack :: "LocalDuct_State \<Rightarrow> byte list" where
  "LocalDuct_whack S = ld_out S @ (if ld_type S = client \<and> ld_fd S then net_bytes 0 else [])"

definition MAX_RECEIVE_SIZE :: nat where
  "MAX_RECEIVE_SIZE = 262144"

text \<open>The size is taken before the pointer is checked.  It has 32 bits; everything is written.\<close>

definition LocalDuct_send_Buffer :: "socket_io \<Rightarrow> buf option \<Rightarrow> LocalDuct_State \<Rightarrow> (unit, LocalDuct_State) res" where
  "LocalDuct_send_Buffer io bf S =
     (case bf of
        None \<Rightarrow> Undef
      | Some b \<Rightarrow>
          if ld_poisoned S \<or> \<not> ld_fd S \<or> b_poisoned b then Fail (duct_poison S)
          else
            (let packet = net_bytes (of_nat (buf_size b)) @ b_data b
             in if io_write io (ld_out S) packet then Ret () (S\<lparr>ld_out := ld_out S @ packet\<rparr>)
                else Fail (duct_poison (S\<lparr>ld_error := io_errno io\<rparr>))))"

text \<open>
  \<open>read\<close> of \<open>n\<close> bytes into an array: fewer bytes than that are an error, after which they are lost.
\<close>

definition read_exactly ::
  "socket_io \<Rightarrow> nat \<Rightarrow> LocalDuct_State \<times> buf \<Rightarrow> (byte list, LocalDuct_State \<times> buf) res" where
  "read_exactly io n = (\<lambda>(S, bf).
     let k = min (io_read io (ld_in S) n) (min n (length (ld_in S)));
         bs = take k (ld_in S);
         S1 = S\<lparr>ld_in := drop k (ld_in S)\<rparr>
     in if \<not> ld_fd S then Fail (S\<lparr>ld_error := io_errno io\<rparr>, bf)
        else if k \<noteq> n then Fail (S1\<lparr>ld_error := io_errno io\<rparr>, bf)
        else Ret bs (S1, bf))"

definition receive_part :: "socket_io \<Rightarrow> nat \<Rightarrow> LocalDuct_State \<times> buf \<Rightarrow> (unit, LocalDuct_State \<times> buf) res" where
  "receive_part io n x =
     res_bind (read_exactly io n x)
       (\<lambda>bs (S, bf). on_fail (\<lambda>(S, bf). (S\<lparr>ld_error := -2\<rparr>, bf)) (zoom (\<lambda>b. (S, b)) (buf_add bs bf)))"

text \<open>The message is read in blocks of the size of the array, and the rest.\<close>

fun receive_blocks :: "socket_io \<Rightarrow> nat \<Rightarrow> LocalDuct_State \<times> buf \<Rightarrow> (unit, LocalDuct_State \<times> buf) res" where
  "receive_blocks io 0 x = Ret () x"
| "receive_blocks io (Suc blocks) x = res_bind (receive_part io 1024 x) (\<lambda>_. receive_blocks io blocks)"

definition LocalDuct_receive_Buffer ::
  "socket_io \<Rightarrow> LocalDuct_State \<times> buf \<Rightarrow> (unit, LocalDuct_State \<times> buf) res" where
  "LocalDuct_receive_Buffer io = (\<lambda>(S, bf).
     on_fail (\<lambda>(S, bf). (duct_poison S, bf))
       (if ld_poisoned S \<or> b_poisoned bf then Fail (S, bf)
        else
          res_bind (read_exactly io 4 (S, bf)) (\<lambda>size (S, bf).
            let rsize = net_value size
            in if rsize = 0 then Ret () (S\<lparr>ld_eof := True\<rparr>, bf)
               else if rsize > MAX_RECEIVE_SIZE then Fail (S\<lparr>ld_error := -1\<rparr>, bf)
               else res_bind (receive_blocks io (rsize div 1024) (S, bf))
                      (\<lambda>_. receive_part io (rsize mod 1024)))))"

section \<open>What is sent is received\<close>

text \<open>A stream on which everything has arrived.\<close>

definition io_complete :: "socket_io \<Rightarrow> bool" where
  "io_complete io \<longleftrightarrow> (\<forall>bs n. io_read io bs n = min n (length bs))"

definition packet :: "byte list \<Rightarrow> byte list" where
  "packet msg = net_bytes (of_nat (length msg)) @ msg"

lemma read_exactly_ok:
  assumes "io_complete io" "ld_fd S" "ld_in S = bs @ rest" "length bs = n"
  shows "read_exactly io n (S, bf) = Ret bs (S\<lparr>ld_in := rest\<rparr>, bf)"
  using assms by (simp add: read_exactly_def io_complete_def Let_def)

lemma receive_part_ok:
  assumes "io_complete io" "ld_fd S" "ld_in S = bs @ rest" "length bs = n" "\<not> b_poisoned bf"
  shows "receive_part io n (S, bf) = Ret () (S\<lparr>ld_in := rest\<rparr>, bf\<lparr>b_data := b_data bf @ bs\<rparr>)"
  using read_exactly_ok [OF assms(1-4)] assms(5) by (simp add: receive_part_def buf_add_def)

lemma receive_blocks_ok:
  assumes "io_complete io" "ld_fd S" "ld_in S = bs @ rest" "length bs = k * 1024" "\<not> b_poisoned bf"
  shows "receive_blocks io k (S, bf) = Ret () (S\<lparr>ld_in := rest\<rparr>, bf\<lparr>b_data := b_data bf @ bs\<rparr>)"
  using assms
proof (induction k arbitrary: S bs bf)
  case (Suc k)
  let ?S = "S\<lparr>ld_in := drop 1024 bs @ rest\<rparr>" and ?bf = "bf\<lparr>b_data := b_data bf @ take 1024 bs\<rparr>"
  have part: "receive_part io 1024 (S, bf) = Ret () (?S, ?bf)"
    by (rule receive_part_ok) (use Suc.prems in simp_all)
  have "receive_blocks io k (?S, ?bf) =
      Ret () (?S\<lparr>ld_in := rest\<rparr>, ?bf\<lparr>b_data := b_data ?bf @ drop 1024 bs\<rparr>)"
    by (rule Suc.IH) (use Suc.prems in simp_all)
  with part show ?case by simp
qed simp

lemma receive_packet:
  assumes "io_complete io" "ld_fd S" "\<not> ld_poisoned S" "\<not> b_poisoned bf"
    and "ld_in S = packet msg @ rest" "msg \<noteq> []" "length msg \<le> MAX_RECEIVE_SIZE"
  shows "LocalDuct_receive_Buffer io (S, bf) = Ret () (S\<lparr>ld_in := rest\<rparr>, bf\<lparr>b_data := b_data bf @ msg\<rparr>)"
proof -
  let ?n = "length msg"
  have "unat (of_nat ?n :: u32) = ?n"
    using assms(7) by (simp add: MAX_RECEIVE_SIZE_def unat_of_nat take_bit_nat_eq_self)
  then have n: "net_value (net_bytes (of_nat ?n)) = ?n" by simp
  let ?a = "take (?n div 1024 * 1024) msg" and ?b = "drop (?n div 1024 * 1024) msg"
  let ?S = "S\<lparr>ld_in := msg @ rest\<rparr>" and ?bf = "bf\<lparr>b_data := b_data bf @ ?a\<rparr>"
  have size: "read_exactly io 4 (S, bf) = Ret (net_bytes (of_nat ?n)) (?S, bf)"
    by (rule read_exactly_ok) (use assms in \<open>simp_all add: packet_def\<close>)
  have "msg @ rest = ?a @ ?b @ rest" by simp
  then have blocks: "receive_blocks io (?n div 1024) (?S, bf) = Ret () (?S\<lparr>ld_in := ?b @ rest\<rparr>, ?bf)"
    by (intro receive_blocks_ok) (use assms in simp_all)
  have "?n - ?n div 1024 * 1024 = ?n mod 1024" by (simp add: minus_div_mult_eq_mod)
  then have part: "receive_part io (?n mod 1024) (?S\<lparr>ld_in := ?b @ rest\<rparr>, ?bf) =
      Ret () (?S\<lparr>ld_in := ?b @ rest\<rparr>\<lparr>ld_in := rest\<rparr>, ?bf\<lparr>b_data := b_data ?bf @ ?b\<rparr>)"
    by (intro receive_part_ok) (use assms in simp_all)
  have "b_data ?bf @ ?b = b_data bf @ msg" by simp
  with size blocks part n assms(3,4,6,7) show ?thesis
    by (simp add: LocalDuct_receive_Buffer_def Let_def)
qed

end
