(* ===== verification/XenDuct.thy ===== *)
theory XenDuct
  imports LocalDuct
begin

text \<open>
  The duct between an orchestrator and the interpreter in another Xen domain: the end of the orchestrator
  (\<open>lib/XENduct.c\<close>) and that of the interpreter (\<open>Sancho/Xen/Sancho/XENduct.c\<close>).  Messages pass through one
  page that both map: four bytes with the size, one byte with the status, and the message.  The ends notify each
  other over an event channel and wait for the status byte in loops.

  The two ends run at the same time.  The model is a step relation: each access of the code to the page, each
  notification and each passing of a loop is one step of its end, and the steps of the ends interleave in any order.
  Memory is sequentially consistent, which is what the barriers of the code are for.  Of Xen it uses that an event for
  the orchestrator stays pending until it is taken, and that the handler of the interpreter's end runs at some time
  after a notification.
\<close>

section \<open>The shared page\<close>

definition XEN_MAX_RECEIVE :: nat where
  "XEN_MAX_RECEIVE = 4092"

definition page_bytes :: nat where
  "page_bytes = 4096"

text \<open>\<open>memcpy\<close> into the page, which must not leave it.\<close>

definition page_write :: "nat \<Rightarrow> byte list \<Rightarrow> byte list \<Rightarrow> byte list option" where
  "page_write off bs page =
     (if off + length bs \<le> length page then Some (take off page @ bs @ drop (off + length bs) page) else None)"

definition load_message :: "byte list \<Rightarrow> byte list \<Rightarrow> byte list option" where
  "load_message msg page = page_write 5 msg page"

definition set_size :: "u32 \<Rightarrow> byte list \<Rightarrow> byte list" where
  "set_size w page = net_bytes w @ drop 4 page"

definition set_status :: "bool \<Rightarrow> byte list \<Rightarrow> byte list" where
  "set_status v page = page[4 := (if v then CHR 0x01 else NUL)]"

definition status_of :: "byte list \<Rightarrow> bool" where
  "status_of page \<longleftrightarrow> page ! 4 \<noteq> NUL"

definition size_of :: "byte list \<Rightarrow> nat" where
  "size_of page = net_value (take 4 page)"

definition read_message :: "nat \<Rightarrow> byte list \<Rightarrow> byte list option" where
  "read_message n page = (if 5 + n \<le> length page then Some (take n (drop 5 page)) else None)"

definition clear_page :: "byte list" where
  "clear_page = replicate page_bytes NUL"

section \<open>The two ends\<close>

text \<open>
  Where an end is in its code.  The orchestrator sends a command, receives its answers, and says goodbye at last; the
  interpreter listens for a command and sends the answers.
\<close>

datatype host_pc =
  Host_send | Host_size | Host_status | Host_notify | Host_wait | Host_confirm
| Host_pending | Host_read | Host_take | Host_clear | Host_taken | Host_release
| Host_bye | Host_bye_notify | Host_bye_wait | Host_closed | Host_failed | Host_undefined

datatype stub_pc =
  Stub_listen | Stub_reset | Stub_event | Stub_read | Stub_take | Stub_clear | Stub_taken | Stub_release
| Stub_send | Stub_size | Stub_status | Stub_notify | Stub_wait | Stub_confirm
| Stub_closed | Stub_failed | Stub_undefined

text \<open>
  The orchestrator has the commands that it will send, each with the number of answers that it receives, the command
  that it sends, the answers that are still to come and those that came.  The interpreter has the message that it
  received, the answers that it will send and its own state.
\<close>

record 'd xen_link =
  xl_page :: "byte list"
  xl_event :: bool
  xl_irq :: bool
  xl_have_event :: bool
  xl_hpc :: host_pc
  xl_todo :: "(byte list \<times> nat) list"
  xl_cmd :: "byte list"
  xl_left :: nat
  xl_hsize :: nat
  xl_got :: "byte list list"
  xl_spc :: stub_pc
  xl_ssize :: nat
  xl_msg :: "byte list"
  xl_queue :: "byte list list"
  xl_agent :: 'd

type_synonym 'd link_step = "'d xen_link \<Rightarrow> 'd xen_link option"

definition on_page :: "(byte list \<Rightarrow> byte list) \<Rightarrow> 'd xen_link \<Rightarrow> 'd xen_link" where
  "on_page f s = s\<lparr>xl_page := f (xl_page s)\<rparr>"

definition host_next :: "'d xen_link \<Rightarrow> host_pc" where
  "host_next s = (if xl_left s = 0 then Host_send else Host_pending)"

text \<open>\<open>send_Buffer\<close> of the orchestrator.  A duct that failed is poisoned: it is not used any more.\<close>

definition host_send_step :: "'d link_step" where
  "host_send_step s =
     (case xl_hpc s of
        Host_send \<Rightarrow>
          (case xl_todo s of
             [] \<Rightarrow> Some (s\<lparr>xl_hpc := Host_bye\<rparr>)
           | (msg, n) # todo \<Rightarrow>
               if XEN_MAX_RECEIVE < length msg then Some (s\<lparr>xl_hpc := Host_failed\<rparr>)
               else (case load_message msg (xl_page s) of
                       None \<Rightarrow> Some (s\<lparr>xl_hpc := Host_undefined\<rparr>)
                     | Some page \<Rightarrow>
                         Some (s\<lparr>xl_page := page, xl_todo := todo, xl_cmd := msg, xl_left := n, xl_hpc := Host_size\<rparr>)))
      | Host_size \<Rightarrow> Some ((on_page (set_size (of_nat (length (xl_cmd s)))) s)\<lparr>xl_hpc := Host_status\<rparr>)
      | Host_status \<Rightarrow> Some ((on_page (set_status False) s)\<lparr>xl_hpc := Host_notify\<rparr>)
      | Host_notify \<Rightarrow> Some (s\<lparr>xl_irq := True, xl_hpc := Host_wait\<rparr>)
      | Host_wait \<Rightarrow> if status_of (xl_page s) then Some (s\<lparr>xl_hpc := Host_confirm\<rparr>) else None
      | Host_confirm \<Rightarrow> Some ((on_page (set_status False) s)\<lparr>xl_hpc := host_next s\<rparr>)
      | _ \<Rightarrow> None)"

text \<open>\<open>receive_Buffer\<close> of the orchestrator: an empty message is the end of the transmission.\<close>

definition host_receive_step :: "'d link_step" where
  "host_receive_step s =
     (case xl_hpc s of
        Host_pending \<Rightarrow> if xl_event s then Some (s\<lparr>xl_event := False, xl_hpc := Host_read\<rparr>) else None
      | Host_read \<Rightarrow>
          (let n = size_of (xl_page s)
           in if n = 0 then
                (let t = s\<lparr>xl_got := xl_got s @ [[]], xl_left := xl_left s - 1\<rparr> in Some (t\<lparr>xl_hpc := host_next t\<rparr>))
              else if XEN_MAX_RECEIVE < n then Some (s\<lparr>xl_hpc := Host_failed\<rparr>)
              else Some (s\<lparr>xl_hsize := n, xl_hpc := Host_take\<rparr>))
      | Host_take \<Rightarrow>
          (case read_message (xl_hsize s) (xl_page s) of
             None \<Rightarrow> Some (s\<lparr>xl_hpc := Host_undefined\<rparr>)
           | Some msg \<Rightarrow> Some (s\<lparr>xl_got := xl_got s @ [msg], xl_left := xl_left s - 1, xl_hpc := Host_clear\<rparr>))
      | Host_clear \<Rightarrow> Some (s\<lparr>xl_page := clear_page, xl_hpc := Host_taken\<rparr>)
      | Host_taken \<Rightarrow> Some ((on_page (set_status True) s)\<lparr>xl_hpc := Host_release\<rparr>)
      | Host_release \<Rightarrow> if status_of (xl_page s) then None else Some (s\<lparr>xl_hpc := host_next s\<rparr>)
      | _ \<Rightarrow> None)"

text \<open>\<open>whack\<close> of the orchestrator: the size of all ones is the goodbye.\<close>

definition host_whack_step :: "'d link_step" where
  "host_whack_step s =
     (case xl_hpc s of
        Host_bye \<Rightarrow> Some ((on_page (set_size (- 1)) s)\<lparr>xl_hpc := Host_bye_notify\<rparr>)
      | Host_bye_notify \<Rightarrow> Some (s\<lparr>xl_irq := True, xl_hpc := Host_bye_wait\<rparr>)
      | Host_bye_wait \<Rightarrow> if xl_event s then Some (s\<lparr>xl_event := False, xl_hpc := Host_closed\<rparr>) else None
      | _ \<Rightarrow> None)"

definition stub_next :: "'d xen_link \<Rightarrow> stub_pc" where
  "stub_next s = (if xl_queue s = [] then Stub_listen else Stub_send)"

text \<open>
  \<open>receive_Buffer\<close> of the interpreter, and then what it does with the command: \<open>serve\<close> is the answers and the
  new state.  \<open>Have_event\<close> is cleared before the loop that waits for it.
\<close>

definition stub_receive_step :: "(byte list \<Rightarrow> 'd \<Rightarrow> byte list list \<times> 'd) \<Rightarrow> 'd link_step" where
  "stub_receive_step serve s =
     (case xl_spc s of
        Stub_listen \<Rightarrow> Some (s\<lparr>xl_have_event := False, xl_spc := Stub_reset\<rparr>)
      | Stub_reset \<Rightarrow> Some ((on_page (set_status False) s)\<lparr>xl_spc := Stub_event\<rparr>)
      | Stub_event \<Rightarrow> if xl_have_event s then Some (s\<lparr>xl_spc := Stub_read\<rparr>) else None
      | Stub_read \<Rightarrow>
          (let n = size_of (xl_page s)
           in if n = 2 ^ 32 - 1 then Some (s\<lparr>xl_event := True, xl_spc := Stub_closed\<rparr>)
              else if XEN_MAX_RECEIVE < n then Some (s\<lparr>xl_spc := Stub_failed\<rparr>)
              else Some (s\<lparr>xl_ssize := n, xl_spc := Stub_take\<rparr>))
      | Stub_take \<Rightarrow>
          (case read_message (xl_ssize s) (xl_page s) of
             None \<Rightarrow> Some (s\<lparr>xl_spc := Stub_undefined\<rparr>)
           | Some msg \<Rightarrow> Some (s\<lparr>xl_msg := msg, xl_spc := Stub_clear\<rparr>))
      | Stub_clear \<Rightarrow> Some (s\<lparr>xl_page := clear_page, xl_spc := Stub_taken\<rparr>)
      | Stub_taken \<Rightarrow> Some ((on_page (set_status True) s)\<lparr>xl_spc := Stub_release\<rparr>)
      | Stub_release \<Rightarrow>
          if status_of (xl_page s) then None
          else (case serve (xl_msg s) (xl_agent s) of
                  (answers, agent) \<Rightarrow>
                    (let t = s\<lparr>xl_queue := answers, xl_agent := agent\<rparr> in Some (t\<lparr>xl_spc := stub_next t\<rparr>)))
      | _ \<Rightarrow> None)"

text \<open>\<open>send_Buffer\<close> of the interpreter.\<close>

definition stub_send_step :: "'d link_step" where
  "stub_send_step s =
     (case xl_spc s of
        Stub_send \<Rightarrow>
          (case xl_queue s of
             [] \<Rightarrow> None
           | msg # queue \<Rightarrow>
               if XEN_MAX_RECEIVE < length msg then Some (s\<lparr>xl_spc := Stub_failed\<rparr>)
               else (case load_message msg (xl_page s) of
                       None \<Rightarrow> Some (s\<lparr>xl_spc := Stub_undefined\<rparr>)
                     | Some page \<Rightarrow> Some (s\<lparr>xl_page := page, xl_spc := Stub_size\<rparr>)))
      | Stub_size \<Rightarrow> Some ((on_page (set_size (of_nat (length (hd (xl_queue s))))) s)\<lparr>xl_spc := Stub_status\<rparr>)
      | Stub_status \<Rightarrow> Some ((on_page (set_status False) s)\<lparr>xl_spc := Stub_notify\<rparr>)
      | Stub_notify \<Rightarrow> Some (s\<lparr>xl_event := True, xl_spc := Stub_wait\<rparr>)
      | Stub_wait \<Rightarrow> if status_of (xl_page s) then Some (s\<lparr>xl_spc := Stub_confirm\<rparr>) else None
      | Stub_confirm \<Rightarrow>
          (let t = (on_page (set_status False) s)\<lparr>xl_queue := tl (xl_queue s)\<rparr> in Some (t\<lparr>xl_spc := stub_next t\<rparr>))
      | _ \<Rightarrow> None)"

text \<open>\<open>_event_handler\<close>, which runs at some time after the notification.\<close>

definition event_handler_step :: "'d link_step" where
  "event_handler_step s = (if xl_irq s then Some (s\<lparr>xl_irq := False, xl_have_event := True\<rparr>) else None)"

text \<open>At most one of the definitions of an end has a step.\<close>

inductive link_step :: "(byte list \<Rightarrow> 'd \<Rightarrow> byte list list \<times> 'd) \<Rightarrow> 'd xen_link \<Rightarrow> 'd xen_link \<Rightarrow> bool" for serve where
  host_sends: "host_send_step s = Some t \<Longrightarrow> link_step serve s t"
| host_receives: "host_receive_step s = Some t \<Longrightarrow> link_step serve s t"
| host_whacks: "host_whack_step s = Some t \<Longrightarrow> link_step serve s t"
| stub_receives: "stub_receive_step serve s = Some t \<Longrightarrow> link_step serve s t"
| stub_sends: "stub_send_step s = Some t \<Longrightarrow> link_step serve s t"
| handler: "event_handler_step s = Some t \<Longrightarrow> link_step serve s t"

text \<open>
  Both ends are connected, and the interpreter is about to listen.  The end of the orchestrator has cleared the page and then
  set the status.
\<close>

definition link_init :: "(byte list \<times> nat) list \<Rightarrow> 'd \<Rightarrow> 'd xen_link" where
  "link_init todo agent =
     \<lparr>xl_page = set_status True clear_page, xl_event = False, xl_irq = False, xl_have_event = True, xl_hpc = Host_send,
      xl_todo = todo, xl_cmd = [], xl_left = 0, xl_hsize = 0, xl_got = [], xl_spc = Stub_listen, xl_ssize = 0,
      xl_msg = [], xl_queue = [], xl_agent = agent\<rparr>"

end
