(* ===== verification/QuixoteXenProps.thy ===== *)
theory QuixoteXenProps
  imports QuixoteXen QuixoteProps XenDuct
begin

text \<open>
  The orchestrator for Xen together with the interpreter that it talks to.  \<open>agent\<close> is the interpreter of
  \<open>Sancho\<close>: the model of \<open>QuixoteXen\<close> with a concrete agent.  It is behind the duct of \<open>XenDuct\<close> with its page for
  the messages, or, where this does not matter, behind a duct that delivers messages of every size.
  The pair is compared with the orchestrator that has the model in its own process.
\<close>

section \<open>The agent\<close>

record agent =
  ag_sancho :: Sancho_State
  ag_running :: bool
  ag_read :: nat

definition agent_send :: "environment \<Rightarrow> byte list \<Rightarrow> agent \<Rightarrow> bool \<times> agent" where
  "agent_send env msg a =
     (if \<not> ag_running a then (False, a)
      else
        (case sancho_step (env_crypto env) (env_cell env) (env_stack env) (\<lambda>_. True) msg (ag_sancho a) of
           None \<Rightarrow> (True, a\<lparr>ag_running := False\<rparr>)
         | Some (connected, s) \<Rightarrow> (True, a\<lparr>ag_sancho := s, ag_running := connected\<rparr>)))"

text \<open>A message that was not read yet; without one the duct waits.\<close>

definition agent_receive :: "agent \<Rightarrow> (byte list option \<times> agent) option" where
  "agent_receive a =
     (if ag_read a < length (sx_sent (ag_sancho a))
      then Some (Some (sx_sent (ag_sancho a) ! ag_read a), a\<lparr>ag_read := ag_read a + 1\<rparr>) else None)"

definition agent_environment :: "environment \<Rightarrow> agent xen_environment" where
  "agent_environment env =
     \<lparr>xe_send = agent_send env, xe_receive = agent_receive, xe_cell = env_cell env, xe_control = env_control env,
      xe_mgmt = env_mgmt env, xe_file = env_file env\<rparr>"

lemma agent_environment_simps [simp]:
  "xe_send (agent_environment env) = agent_send env" "xe_receive (agent_environment env) = agent_receive"
  "xe_cell (agent_environment env) = env_cell env" "xe_control (agent_environment env) = env_control env"
  "xe_mgmt (agent_environment env) = env_mgmt env"
  by (simp_all add: agent_environment_def)

text \<open>
  The page of the duct: a message above \<open>XEN_MAX_RECEIVE\<close> is refused, and in the other direction it ends the agent.
  A message of just this size leaves the page, which is undefined: there is no answer to it.  All others are delivered.
\<close>

definition page_send :: "environment \<Rightarrow> byte list \<Rightarrow> agent \<Rightarrow> bool \<times> agent" where
  "page_send env msg a =
     (if XEN_MAX_RECEIVE < length msg then (False, a)
      else if length msg = XEN_MAX_RECEIVE then (True, a\<lparr>ag_running := False\<rparr>)
      else agent_send env msg a)"

definition page_receive :: "agent \<Rightarrow> (byte list option \<times> agent) option" where
  "page_receive a =
     (case agent_receive a of
        Some (Some msg, b) \<Rightarrow> if length msg < XEN_MAX_RECEIVE then Some (Some msg, b) else None
      | _ \<Rightarrow> None)"

definition page_environment :: "environment \<Rightarrow> agent xen_environment" where
  "page_environment env = (agent_environment env)\<lparr>xe_send := page_send env, xe_receive := page_receive\<rparr>"

lemma page_environment_simps [simp]:
  "xe_send (page_environment env) = page_send env" "xe_receive (page_environment env) = page_receive"
  "xe_cell (page_environment env) = env_cell env" "xe_control (page_environment env) = env_control env"
  by (simp_all add: page_environment_def agent_environment_def)

text \<open>An agent that waits for a message, with the model and the \<open>errno\<close> of the other orchestrator.\<close>

definition agent_ok :: "TSEM_State \<Rightarrow> int \<Rightarrow> agent \<Rightarrow> bool" where
  "agent_ok model errno a \<longleftrightarrow>
     ag_running a \<and> sancho_idle (ag_sancho a) \<and> ag_read a = length (sx_sent (ag_sancho a)) \<and>
     sx_model (ag_sancho a) = model \<and> sx_errno (ag_sancho a) = errno"

lemma sancho_idle_step:
  assumes "sancho_idle s" "sha_ok (cr_sha cr)" "sancho_step cr junk stack up msg s = Some (connected, t)"
  shows "sancho_idle t"
proof -
  have ok: "sx_ok s" using assms(1) by (simp add: sancho_idle_def)
  have e: "sx_effect s t" using sancho_step_effect [OF assms(2) ok assms(3)] .
  then have t: "sx_ok t" using sx_effect_ok [OF ok] by blast
  have "effect (sx_model s) (sx_model t)" using e by (simp add: sx_effect_def)
  moreover have "b_data (sx_bufr t) = []"
    using sancho_step_empties [OF assms(3)] t by (simp add: sx_ok_def)
  ultimately show ?thesis
    using t assms(1) history_trans [of TSEM_Init "sx_model s" "sx_model t"]
    by (simp add: sancho_idle_def effect_def)
qed

lemma transact_answered:
  assumes "agent_ok m n (xq_duct st)" "sha_ok (cr_sha (env_crypto env))"
    and "sancho_step (env_crypto env) (env_cell env) (env_stack env) (\<lambda>_. True) msg (ag_sancho (xq_duct st)) = Some (True, s)"
    and "sx_sent s = sx_sent (ag_sancho (xq_duct st)) @ [reply]"
    and "length msg < XEN_MAX_RECEIVE" "length reply < XEN_MAX_RECEIVE"
  shows "\<exists>a. transact (page_environment env) msg st = Ret reply (st\<lparr>xq_duct := a\<rparr>) \<and>
     agent_ok (sx_model s) (sx_errno s) a"
proof -
  let ?a = "xq_duct st"
  have a: "ag_running ?a" "sancho_idle (ag_sancho ?a)" "ag_read ?a = length (sx_sent (ag_sancho ?a))"
    using assms(1) by (simp_all add: agent_ok_def)
  have "sancho_idle s" using sancho_idle_step [OF a(2) assms(2,3)] .
  then have "agent_ok (sx_model s) (sx_errno s)
      (?a\<lparr>ag_sancho := s, ag_running := True, ag_read := ag_read ?a + 1\<rparr>)"
    using a(3) assms(4) by (simp add: agent_ok_def)
  moreover have "transact (page_environment env) msg st =
      Ret reply (st\<lparr>xq_duct := ?a\<lparr>ag_sancho := s, ag_running := True, ag_read := ag_read ?a + 1\<rparr>\<rparr>)"
    using a assms(3-6)
    by (simp add: transact_def duct_send_def duct_receive_def page_send_def page_receive_def
        agent_send_def agent_receive_def)
  ultimately show ?thesis by blast
qed

lemma transact_unanswered:
  assumes "agent_ok m n (xq_duct st)"
    and "sancho_step (env_crypto env) (env_cell env) (env_stack env) (\<lambda>_. True) msg (ag_sancho (xq_duct st)) = Some (c, s)"
    and "sx_sent s = sx_sent (ag_sancho (xq_duct st))"
  shows "transact (agent_environment env) msg st = Undef"
  using assms
  by (simp add: agent_ok_def transact_def duct_send_def duct_receive_def agent_send_def agent_receive_def)

section \<open>The number in an answer\<close>

lemma sprint_u_start: "\<exists>c cs. sprint_u n = c # cs \<and> c \<noteq> CHR ''-'' \<and> c \<noteq> CHR ''+'' \<and> \<not> isspace c"
proof -
  obtain c cs where c: "sprint_u n = c # cs" by (cases "sprint_u n") (auto simp: sprint_nat_def)
  then have "(48 \<le> (of_char c :: nat) \<and> (of_char c :: nat) \<le> 57) \<or> (97 \<le> (of_char c :: nat) \<and> (of_char c :: nat) \<le> 102)"
    using sprint_nat_codes [of 10 c n] by simp
  then have "c \<noteq> CHR ''-''" "c \<noteq> CHR ''+''" "\<not> isspace c" by (auto simp: isspace_def)
  with c show ?thesis by blast
qed

lemma strtoll10_sprint_d: "strtoll10 (sprint_d pid) = (sint pid, False)"
proof -
  have bound: "- (2 ^ 31) \<le> sint pid" "sint pid < 2 ^ 31"
    using sint_ge [of pid] sint_lt [of pid] by simp_all
  have digits: "scan_digits 10 0 (sprint_u n) = n" for n by (rule scan_digits_sprint) simp_all
  show ?thesis
  proof (cases "sint pid < 0")
    case True
    then show ?thesis
      using bound by (simp add: strtoll10_def sprint_d_def isspace_def digits)
  next
    case False
    obtain c cs where c: "sprint_u (nat (sint pid)) = c # cs" "c \<noteq> CHR ''-''" "c \<noteq> CHR ''+''" "\<not> isspace c"
      using sprint_u_start by blast
    with digits [of "nat (sint pid)"] False bound show ?thesis
      by (simp add: strtoll10_def sprint_d_def Let_def)
  qed
qed

lemma sprint_d_no_NUL: "NUL \<notin> set (sprint_d pid)"
  by (simp add: sprint_d_def)

definition verdict_reply :: "bool \<Rightarrow> u32 \<Rightarrow> byte list" where
  "verdict_reply violation pid = (if violation then ''DISCIPLINE '' else ''RELEASE '') @ sprint_d pid @ [NUL]"

lemma verdict_reply_simps [simp]:
  "is_prefix ''RELEASE '' (verdict_reply violation pid) = (\<not> violation)"
  "is_prefix ''DISCIPLINE '' (verdict_reply violation pid) = violation"
  by (simp_all add: verdict_reply_def)

lemma length_sprint_d: "length (sprint_d pid) \<le> 11"
proof -
  have "- (2 ^ 31) \<le> sint pid" "sint pid < 2 ^ 31"
    using sint_ge [of pid] sint_lt [of pid] by simp_all
  then have "nat (- sint pid) < 10 ^ Suc 9" "nat (sint pid) < 10 ^ Suc 9" by simp_all
  then have "length (digits_in 10 (nat (- sint pid))) \<le> 10" "length (digits_in 10 (nat (sint pid))) \<le> 10"
    using length_digits_in [of 10 "nat (- sint pid)" 9] length_digits_in [of 10 "nat (sint pid)" 9] by simp_all
  then show ?thesis by (simp add: sprint_d_def sprint_nat_def)
qed

lemma verdict_reply_short: "length (verdict_reply violation pid) < XEN_MAX_RECEIVE"
  using length_sprint_d [of pid] by (simp add: verdict_reply_def XEN_MAX_RECEIVE_def)

lemma reply_pid_verdict:
  assumes "xq_errno st \<noteq> ERANGE"
  shows "reply_pid (verdict_reply violation pid) st = Ret pid st"
proof -
  have "behind_blank (verdict_reply violation pid) = Some (Some (sprint_d pid @ [NUL]))"
    by (simp add: verdict_reply_def)
  moreover have "c_string (sprint_d pid @ [NUL]) = Some (sprint_d pid)"
    using sprint_d_no_NUL by (simp add: c_string_def cstring_append)
  ultimately show ?thesis using assms by (simp add: reply_pid_def strtoll10_sprint_d)
qed

section \<open>The two orchestrators\<close>

text \<open>
  The states correspond: the same objects, and the model of one is the model of the agent of the other.  Both are in
  order.
\<close>

definition agrees :: "agent Xen_State \<Rightarrow> Quixote_State \<Rightarrow> bool" where
  "agrees st q \<longleftrightarrow>
     xq_control st = qx_control q \<and> xq_event st = qx_event q \<and> xq_enforce st = qx_enforce q \<and>
     xq_kills st = qx_kills q \<and> \<not> xq_model_error st \<and> \<not> qx_model_error q \<and> xq_errno st \<noteq> ERANGE \<and>
     agent_ok (qx_model q) (qx_errno q) (xq_duct st)"

lemma unsealed_no_violations:
  assumes "history TSEM_Init T"
  shows "ts_sealed T \<or> violations T = []"
proof -
  have "violations TSEM_Init = []" by (simp add: violations_def TSEM_Init_def Gaggle_Init_def)
  then show ?thesis using assms unfolding history_def by metis
qed

lemma export_answered:
  assumes agrees: "agent_ok m n (xq_duct st)" and sha: "sha_ok (cr_sha (env_crypto env))" and t: "NUL \<notin> set t"
    and short: "length t + 8 < XEN_MAX_RECEIVE"
    and parse: "SecurityEvent_parse ((SecurityEvent_Init (env_cell env), hs_of t), n) = Ret u ((event, x), k)"
    and model: "TSEM_update (cr_sha (env_crypto env)) (m, event) = Ret (status, discipline, seal) (T, ev)"
  shows "\<exists>a. transact (page_environment env) (''export '' @ t @ [NUL]) st =
       Ret (verdict_reply (discipline \<and> seal) (ts_discipline_pid T)) (st\<lparr>xq_duct := a\<rparr>) \<and> agent_ok T k a"
    and "(discipline \<and> seal) = discipline" "\<not> ts_poisoned T"
proof -
  let ?s = "ag_sancho (xq_duct st)"
  let ?r = "received (''export '' @ t @ [NUL]) ?s"
  have idle: "sancho_idle ?s" and s: "sx_model ?s = m" "sx_errno ?s = n" using agrees by (simp_all add: agent_ok_def)
  have ok: "tsem_ok m" using idle_forensics [OF idle] s by simp
  then have "sx_ok ?r" using s by simp
  from add_event_reply [OF sha this _ _ t, of "\<lambda>_. True" "env_cell env" u event x k status discipline seal T ev]
    parse model s
  obtain s1 where s1: "add_event (env_crypto env) (env_cell env) (\<lambda>_. True) ?r = Ret () s1" "sx_model s1 = T"
    "sx_errno s1 = k"
    "sx_sent s1 = sx_sent ?s @ [(if point_id ev \<in> set (violations T) then ''DISCIPLINE '' else ''RELEASE '') @
        sprint_d (se_pid ev) @ [NUL]]" by auto
  have step: "sancho_step (env_crypto env) (env_cell env) (env_stack env) (\<lambda>_. True) (''export '' @ t @ [NUL]) ?s =
      Some (export_event \<noteq> sancho_reset, reset_bufr s1)"
    by (rule sancho_step_message [OF idle, where tail = "[]"])
      (use s1(1) in \<open>simp_all add: Sancho_cmd_list_def sancho_dispatch_def\<close>)
  note pid = TSEM_update_pid [OF ok sha model]
  then have se: "se_pid ev = ts_discipline_pid T" by (simp add: SecurityEvent_get_pid_def split: if_splits)
  show "\<not> ts_poisoned T" using pid by simp
  have verdict: "discipline \<longleftrightarrow> point_id ev \<in> set (violations T)" "ts_sealed T = seal"
    using TSEM_update_verdict(2,3) [OF ok sha model] by simp_all
  have "sancho_idle (reset_bufr s1)" using sancho_idle_step [OF idle sha step] .
  then have "history TSEM_Init T" using s1(2) by (simp add: sancho_idle_def)
  from unsealed_no_violations [OF this] verdict show both: "(discipline \<and> seal) = discipline" by auto
  have "sx_sent (reset_bufr s1) = sx_sent ?s @ [verdict_reply (discipline \<and> seal) (ts_discipline_pid T)]"
    using s1(4) verdict se both by (simp add: verdict_reply_def)
  from transact_answered [OF agrees sha _ this _ verdict_reply_short] step s1(2,3) short
  show "\<exists>a. transact (page_environment env) (''export '' @ t @ [NUL]) st =
       Ret (verdict_reply (discipline \<and> seal) (ts_discipline_pid T)) (st\<lparr>xq_duct := a\<rparr>) \<and> agent_ok T k a"
    by (auto simp: reset_bufr_def)
qed

text \<open>What an update of the orchestrator in user space consists of.\<close>

lemma update_model_cases:
  assumes "parse_update env update (\<lambda>event st. if qx_model_error st then g event st else update_model env event f st) q = Ret a q'"
    and "\<not> qx_model_error q"
  obtains u event x k status discipline seal T ev pid where
    "SecurityEvent_parse ((SecurityEvent_Init (env_cell env), update), qx_errno q) = Ret u ((event, x), k)"
    "TSEM_update (cr_sha (env_crypto env)) (qx_model q, event) = Ret (status, discipline, seal) (T, ev)"
    "f discipline seal (ts_discipline_pid T) (q\<lparr>qx_errno := k, qx_model := T\<rparr>) = Ret a q'"
proof -
  from assms obtain u event x k where
    p: "SecurityEvent_parse ((SecurityEvent_Init (env_cell env), update), qx_errno q) = Ret u ((event, x), k)"
    "update_model env event f (q\<lparr>qx_errno := k\<rparr>) = Ret a q'"
    by (auto simp: parse_update_def split: res.splits prod.splits)
  from p(2) obtain status discipline seal T ev pid T1 where
    m: "TSEM_update (cr_sha (env_crypto env)) (qx_model q, event) = Ret (status, discipline, seal) (T, ev)"
    "TSEM_discipline_pid T = Ret pid T1"
    "f discipline seal pid (q\<lparr>qx_errno := k, qx_model := T1\<rparr>) = Ret a q'"
    by (auto simp: update_model_def split: res.splits prod.splits)
  from m(2) have "pid = ts_discipline_pid T" "T1 = T" by (auto simp: TSEM_discipline_pid_def split: if_splits)
  with p(1) m(1,3) that show thesis by blast
qed

lemma add_event_agrees:
  assumes agrees: "agrees st q" and sha: "sha_ok (cr_sha (env_crypto env))" and t: "NUL \<notin> set t"
    and short: "length t + 8 < XEN_MAX_RECEIVE"
    and user: "Quixote_add_event env (hs_of t) q = Ret a q'"
  shows "\<exists>st'. res_bind (transact (page_environment env) (''export '' @ t @ [NUL]) st)
       (follow_verdict (page_environment env) TSEM_EVENT_EVENT (''export '' @ t)) = Ret () st' \<and> agrees st' q'"
proof -
  have q: "\<not> qx_model_error q" "agent_ok (qx_model q) (qx_errno q) (xq_duct st)" "xq_control st = qx_control q"
    using agrees by (simp_all add: agrees_def)
  obtain u event x k status discipline seal T ev where
    m: "SecurityEvent_parse ((SecurityEvent_Init (env_cell env), hs_of t), qx_errno q) = Ret u ((event, x), k)"
    "TSEM_update (cr_sha (env_crypto env)) (qx_model q, event) = Ret (status, discipline, seal) (T, ev)"
    "(if \<not> seal then attempt (on_control (TSEMcontrol_release (env_control env) (ts_discipline_pid T)))
      else if discipline then on_control (TSEMcontrol_discipline (env_control env) (ts_discipline_pid T))
      else on_control (TSEMcontrol_release (env_control env) (ts_discipline_pid T)))
       (q\<lparr>qx_errno := k, qx_model := T\<rparr>) = Ret a q'"
    using user [unfolded Quixote_add_event_def] q(1) by (rule update_model_cases)
  note answer = export_answered [OF q(2) sha t short m(1,2)]
  from answer(1,2) obtain b where b: "transact (page_environment env) (''export '' @ t @ [NUL]) st =
       Ret (verdict_reply discipline (ts_discipline_pid T)) (st\<lparr>xq_duct := b\<rparr>)" "agent_ok T k b"
    by auto
  let ?c = "TSEMcontrol_verdict (\<not> discipline) (env_control env) (ts_discipline_pid T) (qx_control q)"
  obtain d where d: "?c = Ret () d \<or> ?c = Fail d" "q' = q\<lparr>qx_errno := k, qx_model := T, qx_control := d\<rparr>"
    using m(3) answer(2)
    by (cases seal; cases discipline)
      (auto simp: TSEMcontrol_verdict_def on_control_def res_simps split: res.splits if_splits)
  have "xq_errno st \<noteq> ERANGE" "\<not> xq_model_error st" using agrees by (simp_all add: agrees_def)
  then have "follow_verdict (page_environment env) TSEM_EVENT_EVENT (''export '' @ t)
      (verdict_reply discipline (ts_discipline_pid T)) (st\<lparr>xq_duct := b\<rparr>) = Ret () (st\<lparr>xq_duct := b, xq_control := d\<rparr>)"
    using d(1) q(3)
    by (cases discipline)
      (auto simp: follow_verdict_def Let_def reply_pid_verdict on_Xen_control_def TSEMcontrol_verdict_def)
  moreover have "agrees (st\<lparr>xq_duct := b, xq_control := d\<rparr>) q'"
    using agrees b(2) d(2) by (simp add: agrees_def)
  ultimately show ?thesis using b(1) by auto
qed

lemma add_async_event_agrees:
  assumes agrees: "agrees st q" and sha: "sha_ok (cr_sha (env_crypto env))" and t: "NUL \<notin> set t"
    and short: "length t + 8 < XEN_MAX_RECEIVE"
    and user: "Quixote_add_async_event env (hs_of t) q = Ret a q'"
  shows "\<exists>st'. res_bind (transact (page_environment env) (''export '' @ t @ [NUL]) st)
       (follow_verdict (page_environment env) TSEM_EVENT_ASYNC_EVENT (''export '' @ t)) = Ret () st' \<and> agrees st' q'"
proof -
  have q: "\<not> qx_model_error q" "agent_ok (qx_model q) (qx_errno q) (xq_duct st)"
    using agrees by (simp_all add: agrees_def)
  obtain u event x k status discipline seal T ev where
    m: "SecurityEvent_parse ((SecurityEvent_Init (env_cell env), hs_of t), qx_errno q) = Ret u ((event, x), k)"
    "TSEM_update (cr_sha (env_crypto env)) (qx_model q, event) = Ret (status, discipline, seal) (T, ev)"
    "(\<lambda>st. Ret () (if seal \<and> discipline \<and> qx_enforce st then kill_cartridge True st else st))
       (q\<lparr>qx_errno := k, qx_model := T\<rparr>) = Ret a q'"
    using user [unfolded Quixote_add_async_event_def] q(1) by (rule update_model_cases)
  note answer = export_answered [OF q(2) sha t short m(1,2)]
  from answer(1,2) obtain b where b: "transact (page_environment env) (''export '' @ t @ [NUL]) st =
       Ret (verdict_reply discipline (ts_discipline_pid T)) (st\<lparr>xq_duct := b\<rparr>)" "agent_ok T k b"
    by auto
  have "\<exists>st'. follow_verdict (page_environment env) TSEM_EVENT_ASYNC_EVENT (''export '' @ t)
      (verdict_reply discipline (ts_discipline_pid T)) (st\<lparr>xq_duct := b\<rparr>) = Ret () st' \<and> agrees st' q'"
    using agrees b(2) m(3) answer(2)
    by (cases discipline)
      (auto simp: follow_verdict_def agrees_def kill_cartridge_def Xen_kill_cartridge_def)
  with b(1) show ?thesis by simp
qed

lemma add_log_agrees:
  assumes agrees: "agrees st q" and sha: "sha_ok (cr_sha (env_crypto env))" and t: "NUL \<notin> set t"
    and short: "length t + 8 < XEN_MAX_RECEIVE"
    and user: "Quixote_add_log (hs_of t) q = Ret a q'"
  shows "\<exists>st'. res_bind (transact (page_environment env) (''log '' @ t @ [NUL]) st)
       (follow_verdict (page_environment env) TSEM_EVENT_LOG (''log '' @ t)) = Ret () st' \<and> agrees st' q'"
proof -
  let ?s = "ag_sancho (xq_duct st)"
  let ?r = "received (''log '' @ t @ [NUL]) ?s"
  have q: "agent_ok (qx_model q) (qx_errno q) (xq_duct st)" using agrees by (simp add: agrees_def)
  then have idle: "sancho_idle ?s" and s: "sx_model ?s = qx_model q" "sx_errno ?s = qx_errno q"
    by (simp_all add: agent_ok_def)
  obtain T where T: "TSEM_add_TSEM_event (hs_of t) (qx_model q) = Ret () T" "q' = q\<lparr>qx_model := T\<rparr>"
    using user by (auto simp: Quixote_add_log_def res_simps)
  let ?u = "send_ok (\<lambda>_. True) (?r\<lparr>sx_model := T\<rparr>)"
  have "c_string (t @ [NUL]) = Some t" using t by (simp add: c_string_def cstring_append)
  then have "add_security (\<lambda>_. True) ?r = Ret () ?u"
    using T(1) s by (simp add: add_security_def with_argument_def received_def)
  then have step: "sancho_step (env_crypto env) (env_cell env) (env_stack env) (\<lambda>_. True) (''log'' @ '' '' @ t @ [NUL]) ?s =
      Some (log_event \<noteq> sancho_reset, reset_bufr ?u)"
    by (intro sancho_step_message [OF idle, where tail = "[]"])
      (simp_all add: Sancho_cmd_list_def sancho_dispatch_def)
  have "sx_sent ?u = sx_sent ?s @ [''OK'' @ [NUL]]" "sx_model ?u = T" "sx_errno ?u = qx_errno q"
    using s by (simp_all add: send_ok_def Let_def send_Buffer_def fill_data received_def reset_bufr_def)
  with transact_answered [OF q sha, of "''log'' @ '' '' @ t @ [NUL]" "reset_bufr ?u" "''OK'' @ [NUL]"] step short
  obtain b where b: "transact (page_environment env) (''log '' @ t @ [NUL]) st = Ret (''OK'' @ [NUL]) (st\<lparr>xq_duct := b\<rparr>)"
    "agent_ok T (qx_errno q) b" by (auto simp: reset_bufr_def XEN_MAX_RECEIVE_def)
  have "follow_verdict (page_environment env) TSEM_EVENT_LOG (''log '' @ t) (''OK'' @ [NUL]) (st\<lparr>xq_duct := b\<rparr>) =
      Ret () (st\<lparr>xq_duct := b\<rparr>)" by (simp add: follow_verdict_def)
  moreover have "agrees (st\<lparr>xq_duct := b\<rparr>) q'" using agrees b(2) T(2) by (simp add: agrees_def)
  ultimately show ?thesis using b(1) by auto
qed

section \<open>Lines of the export stream\<close>

definition Xen_with_line :: "string \<Rightarrow> 'd Xen_State \<Rightarrow> 'd Xen_State" where
  "Xen_with_line l st = st\<lparr>xq_event := (xq_event st)\<lparr>te_event := hs_of l\<rparr>\<rparr>"

lemma Xen_with_line_simps [simp]:
  "xq_event (Xen_with_line l st) = (xq_event st)\<lparr>te_event := hs_of l\<rparr>"
  "xq_model_error (Xen_with_line l st) = xq_model_error st" "xq_control (Xen_with_line l st) = xq_control st"
  "xq_duct (Xen_with_line l st) = xq_duct st" "xq_errno (Xen_with_line l st) = xq_errno st"
  by (simp_all add: Xen_with_line_def)

fun Xen_process_lines :: "'d xen_environment \<Rightarrow> string list \<Rightarrow> 'd Xen_State \<Rightarrow> (unit, 'd Xen_State) res" where
  "Xen_process_lines env [] st = Ret () st"
| "Xen_process_lines env (l # ls) st = res_bind (Xen_process_event env (Xen_with_line l st)) (\<lambda>_. Xen_process_lines env ls)"

definition exported_type :: "TSEMevent_State \<Rightarrow> TSEM_export_type" where
  "exported_type ev = (case TSEMevent_extract_export (TSEMevent_reset ev) of Ret type _ \<Rightarrow> type | _ \<Rightarrow> TSEM_EVENT_UNKNOWN)"

text \<open>No line of the run in user space is an aggregate, which the agent checks more strictly.\<close>

fun forwarded :: "environment \<Rightarrow> string list \<Rightarrow> Quixote_State \<Rightarrow> bool" where
  "forwarded env [] q = True"
| "forwarded env (l # ls) q =
     (exported_type (qx_event (with_line l q)) \<noteq> TSEM_EVENT_AGGREGATE \<and>
      (case process_event env (with_line l q) of Ret _ q1 \<Rightarrow> forwarded env ls q1 | _ \<Rightarrow> True))"

lemma agrees_line:
  "agrees st q \<Longrightarrow> agrees ((Xen_with_line l st)\<lparr>xq_event := e\<rparr>) ((with_line l q)\<lparr>qx_event := e\<rparr>)"
  by (simp add: agrees_def Xen_with_line_def with_line_def)

lemma exported_line:
  assumes "TSEMevent_extract_export (TSEMevent_reset (S\<lparr>te_event := hs_of l\<rparr>)) = Ret type e"
  shows "TSEMevent_get_event e = Some l"
proof -
  have "stream_view e = stream_view (TSEMevent_reset (S\<lparr>te_event := hs_of l\<rparr>))"
    by (rule framedD(2) [OF unbuffered_extract_export assms])
  then have "te_event e = hs_of l" by (simp add: stream_view_def TSEMevent_reset_def reset_parser_def)
  then show ?thesis by (simp add: TSEMevent_get_event_def)
qed

lemma process_event_agrees:
  assumes agrees: "agrees st q" and sha: "sha_ok (cr_sha (env_crypto env))" and l: "NUL \<notin> set l" "length l + 8 < XEN_MAX_RECEIVE"
    and type: "exported_type (qx_event (with_line l q)) \<noteq> TSEM_EVENT_AGGREGATE"
    and user: "process_event env (with_line l q) = Ret a q'"
  shows "\<exists>st'. Xen_process_event (page_environment env) (Xen_with_line l st) = Ret () st' \<and> agrees st' q'"
proof -
  have same: "xq_event st = qx_event q" using agrees by (simp add: agrees_def)
  obtain type e where e: "TSEMevent_extract_export (TSEMevent_reset ((qx_event q)\<lparr>te_event := hs_of l\<rparr>)) = Ret type e"
    using user by (auto simp: process_event_def split: res.splits)
  note shown = exported_line [OF e]
  let ?st = "(Xen_with_line l st)\<lparr>xq_event := e\<rparr>" and ?q = "(with_line l q)\<lparr>qx_event := e\<rparr>"
  note ok = agrees_line [OF agrees, where l = l and e = e]
  consider "type = TSEM_EVENT_EVENT" "Quixote_add_event env (hs_of l) ?q = Ret a q'"
    | "type = TSEM_EVENT_ASYNC_EVENT" "Quixote_add_async_event env (hs_of l) ?q = Ret a q'"
    | "type = TSEM_EVENT_LOG" "Quixote_add_log (hs_of l) ?q = Ret a q'"
    using user e shown type
    by (cases type) (simp_all add: process_event_def Let_def exported_type_def)
  then show ?thesis
  proof cases
    case 1
    from add_event_agrees [OF ok sha l(1,2) 1(2)] show ?thesis
      using e shown 1(1) same by (simp add: Xen_process_event_def Let_def)
  next
    case 2
    from add_async_event_agrees [OF ok sha l(1,2) 2(2)] show ?thesis
      using e shown 2(1) same by (simp add: Xen_process_event_def Let_def)
  next
    case 3
    from add_log_agrees [OF ok sha l(1,2) 3(2)] show ?thesis
      using e shown 3(1) same by (simp add: Xen_process_event_def Let_def)
  qed
qed


definition demo_agent :: agent where
  "demo_agent = \<lparr>ag_sancho = Sancho_Init 0, ag_running = True, ag_read = 0\<rparr>"

definition demo_xen :: "agent Xen_State" where
  "demo_xen = (Xen_Init True 0 demo_agent)\<lparr>xq_control := demo_control\<rparr>"

lemma demo_xen_agrees: "agrees demo_xen demo_start"
  using idle_Init [of 0]
  by (simp add: agrees_def agent_ok_def demo_xen_def demo_agent_def Xen_Init_def demo_start_def Quixote_Init_def
      Sancho_Init_def ERANGE_def)

lemma demo_line_exported: "exported_type ((qx_event demo_start)\<lparr>te_event := hs_of demo_line\<rparr>) = TSEM_EVENT_EVENT"
  using demo_extract by (auto simp: exported_type_def split: res.splits)


section \<open>Where the agent does not answer\<close>

lemma parse_without_event:
  assumes "l = [] \<or> hd l \<noteq> CHR ''{'' \<or> strstr l (field_spec ''event'') = None"
  shows "\<exists>z. SecurityEvent_parse ((SecurityEvent_Init c, hs_of l), n) = Fail ((z, hs_of l), n)"
proof -
  have "hs_add t (hs_reset hs_empty) = Ret () (hs_of t)" for t
    by (simp add: hs_add_def hs_of_def hs_empty_def hs_chars_def hs_get_def hs_reset_def)
  then have "\<exists>p. TSEMparser_extract_field (hs_of l) ''event'' TSEMparser_Init = Fail p"
    using assms by (auto simp: TSEMparser_extract_field_def TSEMparser_Init_def)
  then show ?thesis
    by (auto simp: SecurityEvent_parse_def SecurityEvent_parse_event_def with_parser_def parse_field_def
        SecurityEvent_Init_def)
qed


definition demo_bare :: string where
  "demo_bare = CHR ''{'' # field_spec ''export'' @ DQ # ''type'' @ DQ # '': '' @ DQ # ''event'' @ DQ # ''}}''"

lemma demo_bare_facts:
  "exported_type (TSEMevent_Init\<lparr>te_event := hs_of demo_bare\<rparr>) = TSEM_EVENT_EVENT"
  "strstr demo_bare (field_spec ''event'') = None"
  "NUL \<notin> set demo_bare"
  by code_simp+


text \<open>
  The code means to release every process once there is a model error.  Whatever the
  agent does, it never does: what it parses is the command with its name in front, which is no event description.  The
  event fails, and nothing is written to the control file.
\<close>

theorem xen_never_releases_after_error:
  assumes "xq_model_error st" "exported_type (xq_event (Xen_with_line l st)) \<in> {TSEM_EVENT_EVENT, TSEM_EVENT_ASYNC_EVENT}"
  shows "case Xen_process_event env (Xen_with_line l st) of
     Ret _ st' \<Rightarrow> False | Fail st' \<Rightarrow> xq_control st' = xq_control st | Undef \<Rightarrow> True"
proof -
  obtain type e where e: "TSEMevent_extract_export (TSEMevent_reset ((xq_event st)\<lparr>te_event := hs_of l\<rparr>)) = Ret type e"
    "type = TSEM_EVENT_EVENT \<or> type = TSEM_EVENT_ASYNC_EVENT"
    using assms(2) by (auto simp: exported_type_def split: res.splits)
  note shown = exported_line [OF e(1)]
  have "release_actor env (''export '' @ l) x = Fail x" for x
    using parse_without_event [of "''export '' @ l" "xe_cell env" "xq_errno x"] by (auto simp: release_actor_def)
  then have error: "follow_verdict env type (''export '' @ l) reply x = Fail x" if "xq_model_error x" for reply x
    using e(2) that by (auto simp: follow_verdict_def)
  have sent: "(case transact env msg x of Ret _ y \<Rightarrow> xq_model_error y = xq_model_error x \<and> xq_control y = xq_control x
      | Fail y \<Rightarrow> xq_control y = xq_control x | Undef \<Rightarrow> True)" for msg and x :: "'a Xen_State"
    by (auto simp: transact_def duct_send_def duct_receive_def split: prod.splits option.splits)
  show ?thesis
    using sent [where msg = "''export '' @ l @ [NUL]" and x = "(Xen_with_line l st)\<lparr>xq_event := e\<rparr>"] e shown error assms(1)
    by (cases "transact env (''export '' @ l @ [NUL]) ((Xen_with_line l st)\<lparr>xq_event := e\<rparr>)")
      (auto simp: Xen_process_event_def Let_def)
qed

theorem xen_never_releases_after_error_witness:
  "case Xen_process_event (agent_environment demo_env) (Xen_with_line demo_line (demo_xen\<lparr>xq_model_error := True\<rparr>)) of
     Ret _ st' \<Rightarrow> False | Fail st' \<Rightarrow> xq_control st' = demo_control | Undef \<Rightarrow> True"
proof -
  have "xq_event demo_xen = qx_event demo_start" by (simp add: demo_xen_def Xen_Init_def)
  then have "exported_type (xq_event (Xen_with_line demo_line (demo_xen\<lparr>xq_model_error := True\<rparr>))) = TSEM_EVENT_EVENT"
    using demo_line_exported by simp
  moreover have "xq_control (demo_xen\<lparr>xq_model_error := True\<rparr>) = demo_control" by (simp add: demo_xen_def)
  ultimately show ?thesis
    using xen_never_releases_after_error [of "demo_xen\<lparr>xq_model_error := True\<rparr>" demo_line "agent_environment demo_env"]
    by (simp split: res.splits)
qed

text \<open>
  Three management commands make the orchestrator wait for ever.  The list of forensics
  is asked for without a NUL, which the interpreter reads beyond; \<open>show points\<close>, for the map, is no command of
  the interpreter; and after a reset the interpreter is gone.
\<close>

theorem xen_commands_without_answer:
  assumes "agent_ok m n (xq_duct st)" "\<not> b_poisoned (xq_cmdbufr st)"
    and "command_of (b_data (xq_cmdbufr st)) = Some cmd" "length (b_data (xq_cmdbufr st)) = 4"
    and "cmd = show_forensics \<or> cmd = sancho_reset \<or>
         cmd = show_map \<and> xq_aggregate st = Some \<lparr>b_poisoned = False, b_data = a\<rparr> \<and> env_mgmt env (xq_sent st)"
  shows "Xen_process_command (agent_environment env) st = Undef"
proof -
  have idle: "sancho_idle (ag_sancho (xq_duct st))" and a: "ag_running (xq_duct st)"
    "ag_read (xq_duct st) = length (sx_sent (ag_sancho (xq_duct st)))" using assms(1) by (simp_all add: agent_ok_def)
  have size: "buf_size (xq_cmdbufr st) = 4" using assms(2,4) by (simp add: buf_size_def)
  have unanswered: "transact (agent_environment env) msg x = Undef"
    if "xq_duct x = xq_duct st" "find_sancho Sancho_cmd_list msg \<in> {None, Some None, Some (Some sancho_reset)}"
    for msg and x :: "agent Xen_State"
    using that idle a
    by (auto simp: transact_def duct_send_def duct_receive_def agent_send_def agent_receive_def sancho_step_idle
        sancho_dispatch_def reset_bufr_def received_def)
  have duct: "xq_duct (Xen_fill bs x) = xq_duct x" for bs and x :: "agent Xen_State" by (simp add: Xen_fill_def)
  have found: "find_sancho Sancho_cmd_list ''show forensics'' = None"
    "find_sancho Sancho_cmd_list ''show points'' = Some None"
    "find_sancho Sancho_cmd_list (''reset'' @ [NUL]) = Some (Some sancho_reset)"
    by code_simp+
  from assms(5) show ?thesis
  proof (elim disjE conjE)
    assume "cmd = show_forensics"
    with size assms(3) found show ?thesis
      by (simp add: Xen_process_command_def Xen_send_list_def unanswered duct)
  next
    assume "cmd = sancho_reset"
    moreover have "relay_command (agent_environment env) ''reset'' st = Undef"
      using unanswered [of "Xen_fill (''reset'' @ [NUL]) st" "''reset'' @ [NUL]"] found(3)
      by (auto simp: relay_command_def relay_def transact_def duct res_simps)
    ultimately show ?thesis using size assms(3) by (simp add: Xen_process_command_def)
  next
    assume "cmd = show_map" "xq_aggregate st = Some \<lparr>b_poisoned = False, b_data = a\<rparr>" "env_mgmt env (xq_sent st)"
    with size assms(3) found show ?thesis
      by (simp add: Xen_process_command_def Xen_send_map_def Xen_send_list_def unanswered duct)
  qed
qed

theorem xen_commands_without_answer_witness:
  "Xen_process_command (agent_environment demo_env)
     (demo_xen\<lparr>xq_cmdbufr := \<lparr>b_poisoned = False, b_data = [CHR 0x0D, NUL, NUL, NUL]\<rparr>\<rparr>) = Undef"
proof -
  have "command_of [CHR 0x0D, NUL, NUL, NUL] = Some show_forensics" by code_simp
  moreover have "agent_ok TSEM_Init 0 (xq_duct demo_xen)" using demo_xen_agrees by (simp add: agrees_def)
  ultimately show ?thesis
    by (intro xen_commands_without_answer [where cmd = show_forensics and m = TSEM_Init and n = 0]) simp_all
qed

end
