(* ===== verification/QuixoteExport.thy ===== *)
theory QuixoteExport
  imports Quixote
begin

text \<open>
  The exporter (\<open>Quixote/quixote-export.c\<close>): it has no model and forwards the descriptions of events to a file or to
  an MQTT broker.  A workload of its own is monitored like by the orchestrators; the events of the root domain are read
  one by one and forwarded in batches from a queue.

  \<open>xp_mqtt\<close> and \<open>xp_file\<close> are the two outputs, if there are such: they tell whether one more text is
  taken; of the program's two outputs exactly one is opened.  \<open>xp_page\<close> is the size of a page.
\<close>

section \<open>State\<close>

record Export_State =
  xs_control :: TSEMcontrol_State
  xs_event :: TSEMevent_State
  xs_text :: hstr
  xs_sent :: "string list"
  xs_file :: "string list"
  xs_kills :: "bool list"
  xs_errno :: int
  xs_queued :: u64
  xs_queue :: "hstr Gaggle_State"

record export_environment =
  xp_control :: "byte list list \<Rightarrow> bool"
  xp_mqtt :: "(string list \<Rightarrow> bool) option"
  xp_file :: "(string list \<Rightarrow> bool) option"
  xp_page :: nat

definition Export_Init :: "int \<Rightarrow> Export_State" where
  "Export_Init errno =
     \<lparr>xs_control = TSEMcontrol_Init, xs_event = TSEMevent_Init, xs_text = hs_empty, xs_sent = [], xs_file = [],
      xs_kills = [], xs_errno = errno, xs_queued = 0, xs_queue = Gaggle_Init\<rparr>"

definition Export_kill_cartridge :: "bool \<Rightarrow> Export_State \<Rightarrow> Export_State" where
  "Export_kill_cartridge wait st = st\<lparr>xs_kills := xs_kills st @ [wait]\<rparr>"

section \<open>Output\<close>

text \<open>\<open>MQTT->send_String(MQTT, str)\<close> and \<open>Output_File->write_String(Output_File, str)\<close>, if there is the object.\<close>

definition mqtt_send :: "export_environment \<Rightarrow> hstr \<Rightarrow> Export_State \<Rightarrow> (unit, Export_State) res" where
  "mqtt_send env str st =
     (case xp_mqtt env of
        None \<Rightarrow> Ret () st
      | Some up \<Rightarrow>
          (if \<not> h_poisoned str \<and> up (xs_sent st) then Ret () (st\<lparr>xs_sent := xs_sent st @ [hs_chars str]\<rparr>) else Fail st))"

definition file_write :: "export_environment \<Rightarrow> hstr \<Rightarrow> Export_State \<Rightarrow> (unit, Export_State) res" where
  "file_write env str st =
     (case xp_file env of
        None \<Rightarrow> Ret () st
      | Some up \<Rightarrow>
          (if \<not> h_poisoned str \<and> up (xs_file st) then Ret () (st\<lparr>xs_file := xs_file st @ [hs_chars str]\<rparr>) else Fail st))"

definition text_add :: "string \<Rightarrow> Export_State \<Rightarrow> (unit, Export_State) res" where
  "text_add t st = zoom (\<lambda>s. st\<lparr>xs_text := s\<rparr>) (hs_add t (xs_text st))"

definition text_reset :: "Export_State \<Rightarrow> Export_State" where
  "text_reset st = st\<lparr>xs_text := hs_reset (xs_text st)\<rparr>"

definition output_event :: "export_environment \<Rightarrow> Export_State \<Rightarrow> (unit, Export_State) res" where
  "output_event env =
     steps
       [assign text_reset,
        (\<lambda>st. case TSEMevent_get_event (xs_event st) of None \<Rightarrow> Undef | Some t \<Rightarrow> text_add t st),
        text_add end_line,
        (\<lambda>st. mqtt_send env (xs_text st) st),
        (\<lambda>st. file_write env (xs_text st) st)]"

section \<open>A workload\<close>

definition Export_setup_namespace ::
  "export_environment \<Rightarrow> bool \<Rightarrow> string option \<Rightarrow> string option \<Rightarrow> u64 \<Rightarrow> string option \<Rightarrow> bool \<Rightarrow>
   Export_State \<Rightarrow> (string, Export_State) res" where
  "Export_setup_namespace env current model digest magazine line opened st =
     res_bind
       (zoom (\<lambda>c. st\<lparr>xs_control := c\<rparr>)
         (TSEMcontrol_create_ns (xp_control env) TSEMcontrol_TYPE_EXPORT model digest
            (if current then Some TSEMcontrol_CURRENT_NS else None) (ucast magazine) (xs_control st)))
       (\<lambda>_ st.
          res_bind
            (zoom (\<lambda>(c, e). st\<lparr>xs_control := c, xs_errno := e\<rparr>) (TSEMcontrol_id line (xs_control st, xs_errno st)))
            (\<lambda>ident st.
               if length (update_file ident) \<ge> 4096 \<or> \<not> opened then Fail st else Ret (update_file ident) st))"

text \<open>
  The loop over the lines that were read.  A line that cannot be fetched kills the workload; a line that cannot be
  forwarded only ends the loop.
\<close>

partial_function (option) export_drain ::
  "export_environment \<Rightarrow> Export_State \<Rightarrow> (unit, Export_State) res option" where
  "export_drain env st =
     (case TSEMevent_fetch_event (xs_event st, True) of
        Undef \<Rightarrow> Some Undef
      | Fail (ev, _) \<Rightarrow> Some (Ret () (Export_kill_cartridge False (st\<lparr>xs_event := ev\<rparr>)))
      | Ret _ (ev, event) \<Rightarrow>
          (case output_event env (st\<lparr>xs_event := ev\<rparr>) of
             Undef \<Rightarrow> Some Undef
           | Fail st1 \<Rightarrow> Some (Ret () st1)
           | Ret _ st1 \<Rightarrow> if event then export_drain env st1 else Some (Ret () st1)))"

text \<open>
  One pass: \<open>poll\<close> fails, or it reports a hang-up, events, or both.  The flags are those of the signals to stop
  and of a child, and whether the child has exited.
\<close>

datatype export_input =
  Export_error bool bool bool
| Export_pass "(bool \<times> bool \<times> bool) option" "(nat option \<times> byte list option) option"

definition export_events_of ::
  "export_environment \<Rightarrow> (nat option \<times> byte list option) option \<Rightarrow> Export_State \<Rightarrow>
   (monitor_answer, Export_State) res option" where
  "export_events_of env events st =
     (case events of
        None \<Rightarrow> Some (Ret Goes_on st)
      | Some (available, bs) \<Rightarrow>
          (case TSEMevent_read_event available bs (xs_event st) of
             Undef \<Rightarrow> Some Undef
           | Fail ev \<Rightarrow> Some (Ret (Ends False) (Export_kill_cartridge False (st\<lparr>xs_event := ev\<rparr>)))
           | Ret _ ev \<Rightarrow>
               map_option (\<lambda>r. res_bind r (\<lambda>_. Ret Goes_on)) (export_drain env (st\<lparr>xs_event := ev\<rparr>))))"

definition export_step ::
  "export_environment \<Rightarrow> export_input \<Rightarrow> Export_State \<Rightarrow> (monitor_answer, Export_State) res option" where
  "export_step env inp st =
     (case inp of
        Export_error stop child exited \<Rightarrow>
          Some (if stop then Ret (Ends True) (Export_kill_cartridge True st)
                else if child then Ret (if exited then Ends True else Goes_on) st
                else Ret (Ends True) (Export_kill_cartridge True st))
      | Export_pass hangup events \<Rightarrow>
          (case hangup of
             None \<Rightarrow> export_events_of env events st
           | Some (stop, child, exited) \<Rightarrow>
               if stop then Some (Ret (Ends True) st)
               else if child then Some (Ret (if exited then Ends True else Goes_on) st)
               else export_events_of env events st))"

fun Export_child_monitor ::
  "export_environment \<Rightarrow> export_input list \<Rightarrow> Export_State \<Rightarrow> (unit, Export_State) res option" where
  "Export_child_monitor env [] st = Some (Ret () st)"
| "Export_child_monitor env (inp # inputs) st =
     (case export_step env inp st of
        None \<Rightarrow> None
      | Some Undef \<Rightarrow> Some Undef
      | Some (Fail st1) \<Rightarrow> Some (Fail st1)
      | Some (Ret answer st1) \<Rightarrow>
          (case answer of
             Goes_on \<Rightarrow> Export_child_monitor env inputs st1
           | Ends retn \<Rightarrow> Some (if retn then Ret () st1 else Fail st1)))"

section \<open>The root domain\<close>

text \<open>
  What a \<open>read\<close> of the export file returns (no bytes at its end), and whether the signal to stop has come before it returns.
\<close>

datatype root_read = Root_data "byte list" | Root_nodata | Root_error

type_synonym root_input = "bool \<times> root_read"

text \<open>
  A description is read into the next text of the queue, through an array of one page and a byte that is cleared first.
  Without a next text a NULL pointer is followed.  The result is the new value of \<open>*nodata\<close>.
\<close>

definition Export_get_event ::
  "export_environment \<Rightarrow> root_input \<Rightarrow> bool \<Rightarrow> Export_State \<Rightarrow> (bool, Export_State) res" where
  "Export_get_event env inp nodata st =
     (case inp of (stop, r) \<Rightarrow>
        if stop \<or> r = Root_data [] then Ret nodata st
        else
          (case r of
             Root_data bs \<Rightarrow>
               (case Gaggle_get (xs_queue st) of
                  (None, _) \<Rightarrow> Undef
                | (Some str, g) \<Rightarrow>
                    (if length bs > xp_page env + 1 then Undef
                     else
                       (case c_string (overwrite bs (replicate (xp_page env + 1) NUL)) of
                          None \<Rightarrow> Undef
                        | Some t \<Rightarrow>
                            res_bind (zoom (\<lambda>s. st\<lparr>xs_queue := Gaggle_mutate_last s g\<rparr>) (hs_add t (hs_reset str)))
                              (\<lambda>_. Ret nodata))))
           | Root_nodata \<Rightarrow> Ret True st
           | _ \<Rightarrow> Fail st))"

text \<open>The texts under the cursor, one after the other.\<close>

fun each_queued ::
  "(hstr \<Rightarrow> Export_State \<Rightarrow> (unit, Export_State) res) \<Rightarrow> nat \<Rightarrow> Export_State \<Rightarrow> (unit, Export_State) res" where
  "each_queued f 0 st = Ret () st"
| "each_queued f (Suc n) st =
     (case Gaggle_get (xs_queue st) of
        (None, _) \<Rightarrow> Undef
      | (Some str, g) \<Rightarrow> res_bind (f str (st\<lparr>xs_queue := g\<rparr>)) (\<lambda>_. each_queued f n))"

definition rewind_queue :: "Export_State \<Rightarrow> Export_State" where
  "rewind_queue st = st\<lparr>xs_queue := Gaggle_rewind_cursor (xs_queue st)\<rparr>"

definition Export_output_events :: "export_environment \<Rightarrow> Export_State \<Rightarrow> (unit, Export_State) res" where
  "Export_output_events env =
     steps
       [assign rewind_queue,
        (\<lambda>st. if xp_mqtt env = None then Ret () st
              else steps
                [assign text_reset,
                 (\<lambda>st. each_queued (\<lambda>str st. case hs_get str of None \<Rightarrow> Undef | Some t \<Rightarrow> text_add t st)
                         (unat (xs_queued st)) st),
                 (\<lambda>st. mqtt_send env (xs_text st) st)] st),
        (\<lambda>st. if xp_file env = None then Ret () st
              else each_queued (file_write env) (unat (xs_queued st)) st),
        assign rewind_queue]"

text \<open>
  The reads until there is no more data.  The list of reads may end before that.
\<close>

fun export_loop ::
  "export_environment \<Rightarrow> root_input list \<Rightarrow> Export_State \<Rightarrow> (unit, Export_State) res" where
  "export_loop env [] st = Ret () st"
| "export_loop env (inp # inputs) st =
     (case Export_get_event env inp False st of
        Undef \<Rightarrow> Undef
      | Fail st1 \<Rightarrow> Fail st1
      | Ret nodata st1 \<Rightarrow>
          if nodata then Ret () st1
          else
            (let st2 = st1\<lparr>xs_queued := xs_queued st1 + 1\<rparr>
             in if xs_queued st2 = of_nat (Gaggle_size (xs_queue st2)) then
                  res_bind (Export_output_events env st2) (\<lambda>_ st3. export_loop env inputs (st3\<lparr>xs_queued := 0\<rparr>))
                else export_loop env inputs st2))"

definition Export_export_events ::
  "export_environment \<Rightarrow> root_input list \<Rightarrow> Export_State \<Rightarrow> (unit, Export_State) res" where
  "Export_export_events env inputs st = export_loop env inputs (rewind_queue st)"

text \<open>
  \<open>queue_size\<close> is the number from the command line; \<open>first\<close> are the reads before the loop.  The counter of
  the loop that fills the queue is an \<open>unsigned int\<close> and never reaches a length of \<open>2^32\<close>; the
  queue is a buffer of pointers, which a shorter length can already overrun.  A pass of the loop:
  \<open>poll\<close> fails, with or without the signal to stop, or the file can be read, or not.
\<close>

datatype root_pass = Root_poll_error bool | Root_idle | Root_events "root_input list"

fun root_loop :: "export_environment \<Rightarrow> root_pass list \<Rightarrow> Export_State \<Rightarrow> (unit, Export_State) res" where
  "root_loop env [] st = Ret () st"
| "root_loop env (pass # passes) st =
     (case pass of
        Root_poll_error stop \<Rightarrow> if stop then Ret () st else Fail st
      | Root_idle \<Rightarrow> root_loop env passes st
      | Root_events inputs \<Rightarrow> res_bind (Export_export_events env inputs st) (\<lambda>_. root_loop env passes))"

definition export_root ::
  "export_environment \<Rightarrow> bool \<Rightarrow> bool \<Rightarrow> string \<Rightarrow> root_input list \<Rightarrow> root_pass list \<Rightarrow>
   Export_State \<Rightarrow> (unit, Export_State) res" where
  "export_root env opened follow queue_size first passes st =
     (if \<not> opened then Fail st
      else
        (let (queue_length, range) = strtoll queue_size;
             st1 = st\<lparr>xs_errno := (if range then ERANGE else xs_errno st)\<rparr>
         in if xs_errno st1 = ERANGE then Fail st1
            else if 2 ^ 32 \<le> queue_length \<or> int fib_max < 8 * queue_length then Undef
            else
              (let st2 = st1\<lparr>xs_queue := gaggle_of (replicate (nat queue_length) hs_empty) 0\<rparr>
               in res_bind (Export_export_events env first st2) (\<lambda>_ st3.
                    if \<not> follow then Export_output_events env st3 else root_loop env passes st3))))"

end
