(* ===== verification/QuixoteExportProps.thy ===== *)
theory QuixoteExportProps
  imports QuixoteExport QuixoteLemmas
begin

text \<open>
  What the exporter forwards: the lines of a workload one by one, the events of the root domain in batches of the
  size of the queue; and what the batches lose when events are followed.
\<close>

section \<open>The output\<close>

text \<open>The program opens exactly one output; here it takes every text.\<close>

definition one_output :: "export_environment \<Rightarrow> bool" where
  "one_output env \<longleftrightarrow>
     xp_mqtt env = None \<and> xp_file env = Some (\<lambda>_. True) \<or> xp_mqtt env = Some (\<lambda>_. True) \<and> xp_file env = None"

definition sent_texts :: "export_environment \<Rightarrow> Export_State \<Rightarrow> string list" where
  "sent_texts env st = (if xp_mqtt env = None then xs_file st else xs_sent st)"

definition emit :: "export_environment \<Rightarrow> string list \<Rightarrow> Export_State \<Rightarrow> Export_State" where
  "emit env ts st =
     (if xp_mqtt env = None then st\<lparr>xs_file := xs_file st @ ts\<rparr> else st\<lparr>xs_sent := xs_sent st @ ts\<rparr>)"

lemma sent_texts_emit [simp]: "sent_texts env (emit env ts st) = sent_texts env st @ ts"
  by (simp add: sent_texts_def emit_def)

lemma emit_simps [simp]:
  "xs_event (emit env ts st) = xs_event st" "xs_text (emit env ts st) = xs_text st"
  "xs_queue (emit env ts st) = xs_queue st" "xs_queued (emit env ts st) = xs_queued st"
  "xs_kills (emit env ts st) = xs_kills st" "emit env us (emit env ts st) = emit env (ts @ us) st"
  by (simp_all add: emit_def)

section \<open>The lines of a workload\<close>

definition stream_to :: "TSEMevent_State \<Rightarrow> hstr \<Rightarrow> Export_State \<Rightarrow> Export_State" where
  "stream_to ev t st = st\<lparr>xs_event := ev, xs_text := t\<rparr>"

lemma stream_to_simps [simp]:
  "xs_event (stream_to ev t st) = ev" "xs_text (stream_to ev t st) = t"
  "stream_to ev t (stream_to ev' t' st) = stream_to ev t st"
  "emit env ts (stream_to ev t st) = stream_to ev t (emit env ts st)"
  "(stream_to ev' t st)\<lparr>xs_event := ev\<rparr> = stream_to ev t st"
  "sent_texts env (stream_to ev t st) = sent_texts env st"
  "xs_kills (stream_to ev t st) = xs_kills st"
  by (simp_all add: stream_to_def emit_def sent_texts_def)

lemma output_event_emits:
  assumes "one_output env" "\<not> h_poisoned (xs_text st)" "te_event (xs_event st) = hs_of l"
  shows "output_event env st =
     Ret () (stream_to (xs_event st) (hs_of (l @ end_line)) (emit env [l @ end_line] st))"
  using assms
  by (auto simp: output_event_def text_reset_def text_add_def hs_add_reset mqtt_send_def file_write_def
      TSEMevent_get_event_def one_output_def emit_def stream_to_def)

lemma export_drain_lines:
  assumes "one_output env" "ls \<noteq> []" "\<forall>l \<in> set ls. line_ok l"
    and "holds (lines ls) (xs_event st)" "\<not> h_poisoned (xs_text st)"
  shows "if apart [] ls
     then \<exists>ev t. export_drain env st =
       Some (Ret () (stream_to ev t (emit env (map (\<lambda>l. l @ end_line) ls) st))) \<and> holds [] ev \<and> \<not> h_poisoned t
     else export_drain env st = Some Undef"
  using assms(2-5)
proof (induction ls arbitrary: st)
  case (Cons l ls)
  have held: "holds (l @ newline # lines ls) (xs_event st)" and l: "line_ok l" using Cons.prems by simp_all
  show ?case
  proof (cases "length l + 1 < length (lines ls)")
    case True
    from fetch_event_overlap [OF held l True] have "export_drain env st = Some Undef"
      by (subst export_drain.simps) simp
    with True show ?thesis by simp
  next
    case fits: False
    obtain T where T: "TSEMevent_fetch_event (xs_event st, True) = Ret () (T, ls \<noteq> [])"
      "holds (lines ls) T" "T = (xs_event st)\<lparr>te_event := hs_of l, te_bufr := te_bufr T, te_size := te_size T\<rparr>"
      using fetch_event_holds [OF held l, of True] fits newline_in_lines [of ls] by auto
    have line: "te_event T = hs_of l" by (subst T(3)) simp
    let ?t = "hs_of (l @ end_line)"
    have out: "output_event env (st\<lparr>xs_event := T\<rparr>) = Ret () (stream_to T ?t (emit env [l @ end_line] st))"
      using output_event_emits [OF assms(1), of "st\<lparr>xs_event := T\<rparr>" l] Cons.prems(4) line
      by (simp add: stream_to_def emit_def)
    have drain: "export_drain env st =
        (if ls \<noteq> [] then export_drain env (stream_to T ?t (emit env [l @ end_line] st))
         else Some (Ret () (stream_to T ?t (emit env [l @ end_line] st))))"
      by (subst export_drain.simps) (simp add: T(1) out)
    show ?thesis
    proof (cases "ls = []")
      case True
      with drain T(2) show ?thesis by (simp, intro exI [of _ T] exI [of _ ?t]) simp
    next
      case False
      with Cons.IH [of "stream_to T ?t (emit env [l @ end_line] st)"] Cons.prems(2) T(2) drain fits
      show ?thesis by (simp split: if_splits)
    qed
  qed
qed simp

definition lines_pass :: "string list \<Rightarrow> export_input" where
  "lines_pass ls = Export_pass None (Some (Some (length (lines ls)), Some (lines ls)))"

lemma export_step_lines:
  assumes "one_output env" "ls \<noteq> []" "\<forall>l \<in> set ls. line_ok l" "length (lines ls) < 2 ^ 63"
    and "holds [] (xs_event st)" "\<not> h_poisoned (xs_text st)"
  shows "if apart [] ls
     then \<exists>ev t. export_step env (lines_pass ls) st =
       Some (Ret Goes_on (stream_to ev t (emit env (map (\<lambda>l. l @ end_line) ls) st))) \<and> holds [] ev \<and> \<not> h_poisoned t
     else export_step env (lines_pass ls) st = Some Undef"
proof -
  obtain T where T: "TSEMevent_read_event (Some (length (lines ls))) (Some (lines ls)) (xs_event st) = Ret () T"
    "holds (lines ls) T"
    using read_event_holds [OF assms(5) lines_no_NUL [OF assms(3)]] assms(4) by auto
  have st: "st\<lparr>xs_event := T\<rparr> = stream_to T (xs_text st) st" by (simp add: stream_to_def)
  have step: "export_step env (lines_pass ls) st =
      map_option (\<lambda>r. res_bind r (\<lambda>_. Ret Goes_on)) (export_drain env (st\<lparr>xs_event := T\<rparr>))"
    using T(1) by (simp add: export_step_def export_events_of_def lines_pass_def)
  note drain = export_drain_lines [OF assms(1-3), of "stream_to T (xs_text st) st"]
  show ?thesis
  proof (cases "apart [] ls")
    case True
    with drain T(2) assms(6) st obtain ev t where "export_drain env (st\<lparr>xs_event := T\<rparr>) =
        Some (Ret () (stream_to ev t (emit env (map (\<lambda>l. l @ end_line) ls) st)))" "holds [] ev" "\<not> h_poisoned t" by auto
    with True show ?thesis by (simp add: step, intro exI [of _ ev] exI [of _ t]) simp
  next
    case False
    with drain T(2) assms(6) st show ?thesis by (simp add: step)
  qed
qed

lemma export_groups:
  assumes "one_output env"
    and "\<forall>ls \<in> set groups. ls \<noteq> [] \<and> (\<forall>l \<in> set ls. line_ok l) \<and> length (lines ls) < 2 ^ 63"
    and "holds [] (xs_event st)" "\<not> h_poisoned (xs_text st)"
  shows "if \<forall>ls \<in> set groups. apart [] ls
     then \<exists>ev t. Export_child_monitor env (map lines_pass groups @ rest) st =
       Export_child_monitor env rest (stream_to ev t (emit env (map (\<lambda>l. l @ end_line) (concat groups)) st)) \<and>
       holds [] ev \<and> \<not> h_poisoned t
     else Export_child_monitor env (map lines_pass groups @ rest) st = Some Undef"
  using assms(2-4)
proof (induction groups arbitrary: st)
  case Nil
  have "st = stream_to (xs_event st) (xs_text st) (emit env [] st)" by (simp add: stream_to_def emit_def)
  with Nil show ?case by (simp, metis append_Nil)
next
  case (Cons ls groups)
  then have step: "if apart [] ls
     then \<exists>ev t. export_step env (lines_pass ls) st =
       Some (Ret Goes_on (stream_to ev t (emit env (map (\<lambda>l. l @ end_line) ls) st))) \<and> holds [] ev \<and> \<not> h_poisoned t
     else export_step env (lines_pass ls) st = Some Undef"
    by (intro export_step_lines [OF assms(1)]) simp_all
  show ?case
  proof (cases "apart [] ls")
    case True
    with step obtain ev t where s: "export_step env (lines_pass ls) st =
        Some (Ret Goes_on (stream_to ev t (emit env (map (\<lambda>l. l @ end_line) ls) st)))" "holds [] ev" "\<not> h_poisoned t"
      by auto
    with Cons.IH [of "stream_to ev t (emit env (map (\<lambda>l. l @ end_line) ls) st)"] Cons.prems(1) True
    show ?thesis by (cases "\<forall>ls \<in> set groups. apart [] ls") auto
  next
    case False
    with step show ?thesis by simp
  qed
qed

section \<open>The events of the root domain\<close>

definition text_fits :: "export_environment \<Rightarrow> string \<Rightarrow> bool" where
  "text_fits env t \<longleftrightarrow> t \<noteq> [] \<and> NUL \<notin> set t \<and> length t \<le> xp_page env"

definition event_reads :: "string list \<Rightarrow> root_input list" where
  "event_reads ts = map (\<lambda>t. (False, Root_data t)) ts"

definition no_more :: root_input where
  "no_more = (False, Root_nodata)"

definition queue_to :: "hstr list \<Rightarrow> nat \<Rightarrow> nat \<Rightarrow> Export_State \<Rightarrow> Export_State" where
  "queue_to Q c k st = st\<lparr>xs_queue := gaggle_of Q c, xs_queued := of_nat k\<rparr>"

lemma queue_to_simps [simp]:
  "xs_queue (queue_to Q c k st) = gaggle_of Q c" "xs_queued (queue_to Q c k st) = of_nat k"
  "xs_text (queue_to Q c k st) = xs_text st"
  "queue_to Q c k (queue_to Q' c' k' st) = queue_to Q c k st"
  "emit env ts (queue_to Q c k st) = queue_to Q c k (emit env ts st)"
  "sent_texts env (queue_to Q c k st) = sent_texts env st"
  "rewind_queue (queue_to Q c k st) = queue_to Q 0 k st"
  "(queue_to Q c k st)\<lparr>xs_queue := gaggle_of Q' c'\<rparr> = queue_to Q' c' k st"
  "(queue_to Q c k st)\<lparr>xs_text := x\<rparr> = queue_to Q c k (st\<lparr>xs_text := x\<rparr>)"
  by (simp_all add: queue_to_def emit_def sent_texts_def rewind_queue_def)

lemma queue_to_counted: "n = of_nat m \<Longrightarrow> (queue_to Q c k st)\<lparr>xs_queued := n\<rparr> = queue_to Q c m st"
  by (simp add: queue_to_def)

lemma get_event_stores:
  assumes "text_fits env t" "c < length Q" "\<not> h_poisoned (Q ! c)"
  shows "Export_get_event env (False, Root_data t) False (queue_to Q c k st) =
     Ret False (queue_to (Q[c := hs_of t]) (Suc c) k st)"
proof -
  have "drop (length t) (replicate (xp_page env + 1) NUL) = replicate (Suc (xp_page env - length t)) NUL"
    using assms(1) by (simp add: text_fits_def Suc_diff_le del: replicate_Suc)
  then have "overwrite t (replicate (xp_page env + 1) NUL) = t @ NUL # replicate (xp_page env - length t) NUL"
    by (simp add: overwrite_def)
  then have "c_string (overwrite t (replicate (xp_page env + 1) NUL)) = Some t"
    using assms(1) by (simp add: c_string_def cstring_append text_fits_def)
  with assms show ?thesis by (simp add: Export_get_event_def Gaggle_get_of hs_add_reset text_fits_def)
qed

definition batch :: "export_environment \<Rightarrow> string list \<Rightarrow> string list" where
  "batch env ts = (if xp_mqtt env = None then ts else [concat ts])"

lemma drop_ConsD: "drop c Q = x # xs \<Longrightarrow> c < length Q \<and> Q ! c = x \<and> drop (Suc c) Q = xs"
  by (metis Cons_nth_drop_Suc drop_all list.discI list.inject not_le)

lemma each_file_write:
  assumes "xp_file env = Some (\<lambda>_. True)" "drop c Q = map hs_of ps @ R"
  shows "each_queued (file_write env) (length ps) (queue_to Q c k st) =
     Ret () (queue_to Q (c + length ps) k (st\<lparr>xs_file := xs_file st @ ps\<rparr>))"
  using assms(2)
proof (induction ps arbitrary: c st)
  case (Cons p ps)
  then have c: "c < length Q" "Q ! c = hs_of p" "drop (Suc c) Q = map hs_of ps @ R"
    using drop_ConsD [of c Q "hs_of p"] by simp_all
  have "file_write env (hs_of p) (queue_to Q (Suc c) k st) =
      Ret () (queue_to Q (Suc c) k (st\<lparr>xs_file := xs_file st @ [p]\<rparr>))"
    by (simp add: file_write_def assms(1) queue_to_def)
  with c Cons.IH [of "Suc c" "st\<lparr>xs_file := xs_file st @ [p]\<rparr>"] show ?case by (simp add: Gaggle_get_of)
qed simp

lemma each_text_add:
  assumes "drop c Q = map hs_of ps @ R" "\<not> h_poisoned (xs_text st)"
  shows "\<exists>x. each_queued (\<lambda>str st. case hs_get str of None \<Rightarrow> Undef | Some t \<Rightarrow> text_add t st) (length ps) (queue_to Q c k st) =
     Ret () (queue_to Q (c + length ps) k (st\<lparr>xs_text := x\<rparr>)) \<and> \<not> h_poisoned x \<and>
     hs_chars x = hs_chars (xs_text st) @ concat ps"
  using assms
proof (induction ps arbitrary: c st)
  case (Cons p ps)
  then have c: "c < length Q" "Q ! c = hs_of p" "drop (Suc c) Q = map hs_of ps @ R"
    using drop_ConsD [of c Q "hs_of p"] by simp_all
  have "text_add p (queue_to Q (Suc c) k st) =
      Ret () (queue_to Q (Suc c) k (st\<lparr>xs_text := hs_of (hs_chars (xs_text st) @ p)\<rparr>))"
    using Cons.prems(2) by (simp add: text_add_def hs_add_ok queue_to_def)
  with c Cons.IH [of "Suc c" "st\<lparr>xs_text := hs_of (hs_chars (xs_text st) @ p)\<rparr>"] show ?case
    by (simp add: Gaggle_get_of)
next
  case Nil
  then show ?case by (intro exI [of _ "xs_text st"]) simp
qed

lemma output_events_emits:
  assumes "one_output env" "\<not> h_poisoned (xs_text st)" "length ps < 2 ^ 63"
  shows "\<exists>x. Export_output_events env (queue_to (map hs_of ps @ R) c (length ps) st) =
     Ret () (queue_to (map hs_of ps @ R) 0 (length ps) ((emit env (batch env ps) st)\<lparr>xs_text := x\<rparr>)) \<and> \<not> h_poisoned x"
proof -
  let ?Q = "map hs_of ps @ R" and ?n = "length ps"
  have n: "unat (of_nat ?n :: u64) = ?n" by (rule unat_small [OF assms(3)])
  show ?thesis
  proof (cases "xp_mqtt env = None")
    case True
    with assms(1) have "xp_file env = Some (\<lambda>_. True)" by (auto simp: one_output_def)
    from each_file_write [OF this, of 0 ?Q ps R ?n st] True this show ?thesis
      by (intro exI [of _ "xs_text st"]) (simp add: Export_output_events_def n emit_def batch_def assms(2))
  next
    case False
    with assms(1) have up: "xp_mqtt env = Some (\<lambda>_. True)" "xp_file env = None" by (auto simp: one_output_def)
    obtain x where x: "each_queued (\<lambda>str st. case hs_get str of None \<Rightarrow> Undef | Some t \<Rightarrow> text_add t st) ?n
        (queue_to ?Q 0 ?n (st\<lparr>xs_text := hs_reset (xs_text st)\<rparr>)) = Ret () (queue_to ?Q ?n ?n (st\<lparr>xs_text := x\<rparr>))"
      "\<not> h_poisoned x" "hs_chars x = concat ps"
      using each_text_add [of 0 ?Q ps R "st\<lparr>xs_text := hs_reset (xs_text st)\<rparr>" ?n] assms(2) by auto
    then show ?thesis
      by (intro exI [of _ x]) (simp add: Export_output_events_def n emit_def batch_def up text_reset_def mqtt_send_def,
        simp add: queue_to_def rewind_queue_def)
  qed
qed

text \<open>One read: the text is put under the cursor, and a full queue is output.\<close>

lemma loop_fills:
  assumes "text_fits env t" "c < length Q" "\<not> h_poisoned (Q ! c)" "Suc k < length Q" "length Q < 2 ^ 63"
  shows "export_loop env ((False, Root_data t) # inputs) (queue_to Q c k st) =
     export_loop env inputs (queue_to (Q[c := hs_of t]) (Suc c) (Suc k) st)"
proof -
  have neq: "of_nat k + 1 \<noteq> (of_nat (length Q) :: u64)"
    using unat_small [of "Suc k"] unat_small [of "length Q"] assms(4,5) by (metis less_trans nat_neq_iff of_nat_Suc add.commute)
  have up: "(queue_to Q c k st)\<lparr>xs_queued := of_nat k + 1\<rparr> = queue_to Q c (Suc k) st" for Q c
    by (rule queue_to_counted) simp
  show ?thesis using assms(1-3) neq by (simp add: get_event_stores Let_def up)
qed

lemma loop_outputs:
  assumes "one_output env" "\<not> h_poisoned (xs_text st)"
    and "text_fits env t" "c < length Q" "\<not> h_poisoned (Q ! c)" "Suc k = length Q" "length Q < 2 ^ 63"
    and "Q[c := hs_of t] = map hs_of ps"
  shows "\<exists>x. export_loop env ((False, Root_data t) # inputs) (queue_to Q c k st) =
     export_loop env inputs (queue_to (map hs_of ps) 0 0 ((emit env (batch env ps) st)\<lparr>xs_text := x\<rparr>)) \<and> \<not> h_poisoned x"
proof -
  have len: "length ps = Suc k" using arg_cong [OF assms(8), of length] assms(6) by simp
  then obtain x where x: "Export_output_events env (queue_to (map hs_of ps) (Suc c) (Suc k) st) =
      Ret () (queue_to (map hs_of ps) 0 (Suc k) ((emit env (batch env ps) st)\<lparr>xs_text := x\<rparr>))" "\<not> h_poisoned x"
    using output_events_emits [OF assms(1,2), of ps "[]" "Suc c"] assms(6,7) by auto
  have full: "(of_nat (length ps) :: u64) = of_nat k + 1" by (simp add: len)
  have up: "(queue_to Q c k st)\<lparr>xs_queued := of_nat k + 1\<rparr> = queue_to Q c (Suc k) st" for Q c
    by (rule queue_to_counted) simp
  have zero: "(queue_to Q c k st)\<lparr>xs_queued := 0\<rparr> = queue_to Q c 0 st" for Q c k st
    by (rule queue_to_counted) simp
  from x show ?thesis
    by (intro exI [of _ x]) (simp add: get_event_stores [OF assms(3-5)] assms(8) Let_def up zero full)
qed

text \<open>
  From a queue that holds the pending events and a cursor behind them: every event read is output or pending,
  in the order of the reads.
\<close>

definition delivered :: "export_environment \<Rightarrow> Export_State \<Rightarrow> string list \<Rightarrow> string list" where
  "delivered env st ps = (if xp_mqtt env = None then xs_file st @ ps else [concat (xs_sent st) @ concat ps])"

lemma delivered_simps [simp]:
  "delivered env (emit env (batch env ps) st) ts = delivered env st (ps @ ts)"
  "delivered env (st\<lparr>xs_text := x\<rparr>) ts = delivered env st ts"
  "delivered env (queue_to Q c k st) ts = delivered env st ts"
  by (simp_all add: delivered_def emit_def batch_def queue_to_def)

lemma loop_delivers:
  assumes "one_output env" "\<forall>t \<in> set ts. text_fits env t" "q < 2 ^ 63"
    and "length ps < q" "length ps + length R = q" "\<forall>s \<in> set R. \<not> h_poisoned s" "\<not> h_poisoned (xs_text st)"
  shows "\<exists>ps' R' st'. export_loop env (event_reads ts @ [no_more]) (queue_to (map hs_of ps @ R) (length ps) (length ps) st) =
     Ret () (queue_to (map hs_of ps' @ R') (length ps') (length ps') st') \<and>
     length ps' < q \<and> delivered env st' ps' = delivered env st (ps @ ts) \<and> \<not> h_poisoned (xs_text st')"
  using assms(2,4-7)
proof (induction ts arbitrary: ps R st)
  case Nil
  then show ?case
    by (intro exI [of _ ps] exI [of _ R] exI [of _ st]) (simp add: event_reads_def no_more_def Export_get_event_def)
next
  case (Cons t ts)
  obtain s R1 where R: "R = s # R1" using Cons.prems(2,3) by (cases R) auto
  let ?Q = "map hs_of ps @ R" and ?k = "length ps"
  have Q: "text_fits env t" "?k < length ?Q" "\<not> h_poisoned (?Q ! ?k)" "length ?Q < 2 ^ 63"
    using Cons.prems R assms(3) by (simp_all add: nth_append)
  have upd: "?Q[?k := hs_of t] = map hs_of (ps @ [t]) @ R1" by (simp add: R list_update_append)
  have reads: "event_reads (t # ts) @ [no_more] = (False, Root_data t) # event_reads ts @ [no_more]"
    by (simp add: event_reads_def)
  show ?case
  proof (cases "Suc ?k < q")
    case True
    then have "export_loop env (event_reads (t # ts) @ [no_more]) (queue_to ?Q ?k ?k st) =
        export_loop env (event_reads ts @ [no_more])
          (queue_to (map hs_of (ps @ [t]) @ R1) (length (ps @ [t])) (length (ps @ [t])) st)"
      using loop_fills [OF Q(1-3) _ Q(4)] Cons.prems(3) upd unfolding reads by simp
    with Cons.IH [of "ps @ [t]" R1 st] Cons.prems R True show ?thesis by simp
  next
    case False
    with Cons.prems(2,3) R have full: "Suc ?k = length ?Q" "R1 = []" by auto
    obtain x where x: "export_loop env (event_reads (t # ts) @ [no_more]) (queue_to ?Q ?k ?k st) =
        export_loop env (event_reads ts @ [no_more])
          (queue_to (map hs_of [] @ map hs_of (ps @ [t])) 0 0 ((emit env (batch env (ps @ [t])) st)\<lparr>xs_text := x\<rparr>))"
      "\<not> h_poisoned x"
      using loop_outputs [OF assms(1) Cons.prems(5) Q(1-3) full(1) Q(4), of "ps @ [t]"] upd full(2)
      unfolding reads by auto
    with Cons.IH [of "[]" "map hs_of (ps @ [t])" "(emit env (batch env (ps @ [t])) st)\<lparr>xs_text := x\<rparr>"] Cons.prems full
    show ?thesis by simp
  qed
qed

text \<open>Reads that do not fill the queue, from any cursor.\<close>

lemma loop_fills_all:
  assumes "\<forall>t \<in> set ts. text_fits env t" "\<forall>s \<in> set Q. \<not> h_poisoned s" "length Q < 2 ^ 63"
    and "k + length ts < length Q" "c + length ts \<le> length Q"
  shows "export_loop env (event_reads ts @ inputs) (queue_to Q c k st) =
     export_loop env inputs
       (queue_to (take c Q @ map hs_of ts @ drop (c + length ts) Q) (c + length ts) (k + length ts) st)"
  using assms
proof (induction ts arbitrary: Q c k)
  case (Cons t ts)
  let ?Q = "Q[c := hs_of t]"
  have c: "c < length Q" using Cons.prems(5) by simp
  have upd: "take (Suc c) ?Q = take c Q @ [hs_of t]" "drop (Suc c + n) ?Q = drop (Suc c + n) Q" for n
    using c by (simp_all add: take_Suc_conv_app_nth)
  have ok: "\<forall>s \<in> set ?Q. \<not> h_poisoned s"
    using Cons.prems(2) set_update_subset_insert [of Q c "hs_of t"] by auto
  have "export_loop env (event_reads (t # ts) @ inputs) (queue_to Q c k st) =
      export_loop env (event_reads ts @ inputs) (queue_to ?Q (Suc c) (Suc k) st)"
    using loop_fills [of env t c Q k "event_reads ts @ inputs" st] Cons.prems c by (simp add: event_reads_def)
  also have "\<dots> = export_loop env inputs (queue_to (take (Suc c) ?Q @ map hs_of ts @ drop (Suc c + length ts) ?Q)
      (Suc c + length ts) (Suc k + length ts) st)"
    using Cons.IH [of ?Q "Suc k" "Suc c"] Cons.prems ok by simp
  finally show ?case by (simp only: upd) simp
qed (simp add: event_reads_def)

text \<open>Reads that just fill the queue: it is output once.\<close>

lemma loop_batch:
  assumes "one_output env" "\<not> h_poisoned (xs_text st)" "\<forall>t \<in> set ts. text_fits env t" "\<forall>s \<in> set Q. \<not> h_poisoned s"
    and "length Q < 2 ^ 63" "k + length ts = length Q" "c + length ts \<le> length Q" "ts \<noteq> []"
    and "take c Q @ map hs_of ts @ drop (c + length ts) Q = map hs_of ps"
  shows "\<exists>x. export_loop env (event_reads ts @ inputs) (queue_to Q c k st) =
     export_loop env inputs (queue_to (map hs_of ps) 0 0 ((emit env (batch env ps) st)\<lparr>xs_text := x\<rparr>)) \<and> \<not> h_poisoned x"
proof -
  obtain us t where ts: "ts = us @ [t]" using assms(8) by (cases ts rule: rev_cases) auto
  define i Q1 where "i = c + length us" and "Q1 = take c Q @ map hs_of us @ drop i Q"
  have c: "min (length Q) c = c" "i < length Q" using assms(7) by (simp_all add: ts i_def)
  have Q1: "length Q1 = length Q" "Q1[i := hs_of t] = map hs_of ps" "Q1 ! i = Q ! i"
    using assms(9) c Cons_nth_drop_Suc [OF c(2)] by (simp_all add: Q1_def i_def ts list_update_append nth_append)
      (metis list_update_code(2))
  have "export_loop env (event_reads ts @ inputs) (queue_to Q c k st) =
      export_loop env ((False, Root_data t) # inputs) (queue_to Q1 i (k + length us) st)"
    using loop_fills_all [of us env Q k c "(False, Root_data t) # inputs" st] assms(3-7)
    by (simp add: ts Q1_def i_def event_reads_def)
  with loop_outputs [OF assms(1,2), of t i Q1 "k + length us" ps inputs] assms(3-6) Q1 c(2) show ?thesis
    by (simp add: ts)
qed

lemma export_root_starts:
  assumes "strtoll queue_size = (int q, False)" "xs_errno st \<noteq> ERANGE" "xs_queued st = 0" "8 * q \<le> fib_max"
  shows "export_root env True follow queue_size first passes st =
     res_bind (export_loop env first (queue_to (replicate q hs_empty) 0 0 st))
       (\<lambda>_ st1. if \<not> follow then Export_output_events env st1 else root_loop env passes st1)"
proof -
  have "st\<lparr>xs_queue := gaggle_of (replicate q hs_empty) 0\<rparr> = queue_to (replicate q hs_empty) 0 0 st"
    using assms(3) by (simp add: queue_to_def)
  moreover have "int q < 2 ^ 32" "\<not> int fib_max < 8 * int q" using assms(4) by (simp_all add: fib_max_def)
  ultimately show ?thesis using assms(1-3) by (simp add: export_root_def Export_export_events_def cong: if_cong)
qed

section \<open>Properties\<close>

text \<open>
  C40: When no read has more bytes behind one of its lines than the line with its newline,
  the exporter sends each line, with its newline, exactly once and in their order to the file or to the broker,
  however the lines of a workload are grouped, and the workload is not killed.  Otherwise the bytes that
  \<open>memcpy\<close> moves to the front of the buffer overlap, and the run is undefined.
\<close>

theorem export_forwards_lines:
  assumes "one_output env"
    and "\<forall>ls \<in> set groups. ls \<noteq> [] \<and> (\<forall>l \<in> set ls. line_ok l) \<and> length (lines ls) < 2 ^ 31"
    and "holds [] (xs_event st)" "\<not> h_poisoned (xs_text st)"
  shows "if \<forall>ls \<in> set groups. apart [] ls
     then \<exists>st'. Export_child_monitor env (map lines_pass groups) st = Some (Ret () st') \<and>
       sent_texts env st' = sent_texts env st @ map (\<lambda>l. l @ end_line) (concat groups) \<and> xs_kills st' = xs_kills st
     else Export_child_monitor env (map lines_pass groups) st = Some Undef"
proof -
  have "\<forall>ls \<in> set groups. ls \<noteq> [] \<and> (\<forall>l \<in> set ls. line_ok l) \<and> length (lines ls) < 2 ^ 63" using assms(2) by auto
  from export_groups [OF assms(1) this assms(3,4), of "[]"] show ?thesis by (auto split: if_splits)
qed

definition demo_export :: "export_environment" where
  "demo_export = \<lparr>xp_control = (\<lambda>_. True), xp_mqtt = None, xp_file = Some (\<lambda>_. True), xp_page = 8\<rparr>"

lemma demo_export_one: "one_output demo_export" "xp_mqtt demo_export = None"
  by (simp_all add: one_output_def demo_export_def)

lemma Export_Init_simps [simp]:
  "xs_event (Export_Init e) = TSEMevent_Init" "xs_text (Export_Init e) = hs_empty" "xs_file (Export_Init e) = []"
  "xs_queued (Export_Init e) = 0" "xs_errno (Export_Init e) = e" "xs_kills (Export_Init e) = []"
  by (simp_all add: Export_Init_def)

theorem export_forwards_lines_witness:
  "(\<exists>st'. Export_child_monitor demo_export (map lines_pass [[''ab'', ''c''], [''d'']]) (Export_Init 0) = Some (Ret () st') \<and>
     sent_texts demo_export st' = [''ab'' @ end_line, ''c'' @ end_line, ''d'' @ end_line]) \<and>
   Export_child_monitor demo_export (map lines_pass [[''a'', ''bc'']]) (Export_Init 0) = Some Undef"
proof -
  have good: "\<forall>ls \<in> set [[''ab'', ''c''], [''d'']]. ls \<noteq> [] \<and> (\<forall>l \<in> set ls. line_ok l) \<and> length (lines ls) < 2 ^ 31"
    and bad: "\<forall>ls \<in> set [[''a'', ''bc'']]. ls \<noteq> [] \<and> (\<forall>l \<in> set ls. line_ok l) \<and> length (lines ls) < 2 ^ 31"
    by (simp_all add: line_ok_def newline_def)
  note run = export_forwards_lines [OF demo_export_one(1), where st = "Export_Init 0"]
  from run [OF good] have "\<exists>st'. Export_child_monitor demo_export (map lines_pass [[''ab'', ''c''], [''d'']]) (Export_Init 0) =
      Some (Ret () st') \<and> sent_texts demo_export st' = [''ab'' @ end_line, ''c'' @ end_line, ''d'' @ end_line]"
    by (auto simp: holds_Init sent_texts_def demo_export_def simp del: Export_child_monitor.simps)
  moreover from run [OF bad]
  have "Export_child_monitor demo_export (map lines_pass [[''a'', ''bc'']]) (Export_Init 0) = Some Undef"
    by (simp add: holds_Init del: Export_child_monitor.simps)
  ultimately show ?thesis by blast
qed

text \<open>
  C38: Without following, the events of the root domain are output once each and in the order
  they are read, for each positive size of the queue whose pointers fit the buffer of the queue: to a file one by one,
  to a broker in the messages of the batches, when the texts of a batch fit one string.  A larger queue
  makes the loop that fills it write outside of this buffer; with a size of
  \<open>2^32\<close> or more it could never end, because its counter has 32 bits.
\<close>

theorem root_events_exported:
  assumes "one_output env" "\<forall>t \<in> set ts. text_fits env t"
    and "strtoll queue_size = (int q, False)" "0 < q" "xs_errno st \<noteq> ERANGE" "xs_queued st = 0" "\<not> h_poisoned (xs_text st)"
  shows "(8 * q \<le> fib_max \<and> (xp_mqtt env = None \<or> q * xp_page env < fib_max) \<longrightarrow>
      (\<exists>st'. export_root env True False queue_size (event_reads ts @ [no_more]) passes st = Ret () st' \<and>
         (if xp_mqtt env = None then xs_file st' = xs_file st @ ts
          else concat (xs_sent st') = concat (xs_sent st) @ concat ts))) \<and>
     (fib_max < 8 * q \<longrightarrow> export_root env True False queue_size (event_reads ts @ [no_more]) passes st = Undef)"
proof (intro conjI impI)
  assume "8 * q \<le> fib_max \<and> (xp_mqtt env = None \<or> q * xp_page env < fib_max)"
  then have q: "8 * q \<le> fib_max" "q < 2 ^ 63" by (simp_all add: fib_max_def)
  obtain ps R st1 where read: "export_loop env (event_reads ts @ [no_more]) (queue_to (replicate q hs_empty) 0 0 st) =
      Ret () (queue_to (map hs_of ps @ R) (length ps) (length ps) st1)"
    and ps: "length ps < q" "delivered env st1 ps = delivered env st ts" "\<not> h_poisoned (xs_text st1)"
    using loop_delivers [OF assms(1,2) q(2), of "[]" "replicate q hs_empty" st] assms(4,7) by auto
  obtain x where out: "Export_output_events env (queue_to (map hs_of ps @ R) (length ps) (length ps) st1) =
      Ret () (queue_to (map hs_of ps @ R) 0 (length ps) ((emit env (batch env ps) st1)\<lparr>xs_text := x\<rparr>))"
    using output_events_emits [OF assms(1) ps(3), of ps R "length ps"] ps(1) q(2) by auto
  let ?t = "queue_to (map hs_of ps @ R) 0 (length ps) ((emit env (batch env ps) st1)\<lparr>xs_text := x\<rparr>)"
  have "delivered env ?t [] = delivered env st ts" using ps(2) by simp
  then have "if xp_mqtt env = None then xs_file ?t = xs_file st @ ts
      else concat (xs_sent ?t) = concat (xs_sent st) @ concat ts"
    by (simp add: delivered_def split: if_splits)
  with read out show "\<exists>st'. export_root env True False queue_size (event_reads ts @ [no_more]) passes st = Ret () st' \<and>
      (if xp_mqtt env = None then xs_file st' = xs_file st @ ts
       else concat (xs_sent st') = concat (xs_sent st) @ concat ts)"
    by (intro exI [of _ ?t]) (simp add: export_root_starts [OF assms(3,5,6) q(1)])
next
  assume "fib_max < 8 * q"
  then show "export_root env True False queue_size (event_reads ts @ [no_more]) passes st = Undef"
    using assms(3,5) by (simp add: export_root_def)
qed

theorem root_events_exported_witness:
  "(\<exists>st'. export_root demo_export True False ''2'' (event_reads [''a'', ''b'', ''c''] @ [no_more]) [] (Export_Init 0) = Ret () st' \<and>
     xs_file st' = [''a'', ''b'', ''c'']) \<and>
   export_root demo_export True False (sprint_u 4294967296) (event_reads [''a'', ''b'', ''c''] @ [no_more]) [] (Export_Init 0) = Undef"
proof -
  have fits: "\<forall>t \<in> set [''a'', ''b'', ''c'']. text_fits demo_export t" by (simp add: text_fits_def demo_export_def)
  have "strtoll ''2'' = (int 2, False)" by code_simp
  moreover have "strtoll (sprint_u 4294967296) = (int 4294967296, False)" by (rule strtoll_sprint_u) simp
  ultimately show ?thesis
    using root_events_exported [OF demo_export_one(1) fits, of "''2''" 2 "Export_Init 0" "[]"]
    root_events_exported [OF demo_export_one(1) fits, of "sprint_u 4294967296" 4294967296 "Export_Init 0" "[]"]
    by (simp add: ERANGE_def demo_export_one(2) fib_max_def)
qed

text \<open>
  C39: When events are followed, a pass that leaves events in the queue loses them: the next pass
  starts at the front of the queue again, but counts on from the number that is left.  Here the first pass leaves \<open>evs1\<close>,
  and the events \<open>evs2\<close> of the next one make the queue look full.  As many of \<open>evs1\<close> as \<open>evs2\<close>
  has are overwritten and never written; the queue is output with those behind them, and the places that are
  filled up still hold events of \<open>evs0\<close>, which were written before.
\<close>

theorem followed_events_lost:
  assumes "one_output env" "xp_mqtt env = None" "\<forall>t \<in> set (evs0 @ evs1 @ evs2). text_fits env t"
    and "strtoll queue_size = (int (length evs0), False)" "8 * length evs0 \<le> fib_max"
    and "length evs1 + length evs2 = length evs0" "evs2 \<noteq> []"
    and "xs_errno st \<noteq> ERANGE" "xs_queued st = 0" "\<not> h_poisoned (xs_text st)"
  shows "\<exists>st'. export_root env True True queue_size (event_reads (evs0 @ evs1) @ [no_more])
       [Root_events (event_reads evs2 @ [no_more])] st = Ret () st' \<and>
     xs_file st' = xs_file st @ evs0 @ evs2 @ drop (length evs2) (evs1 @ drop (length evs1) evs0)"
proof -
  let ?q = "length evs0" and ?Q0 = "map hs_of evs0"
  let ?last = "evs2 @ drop (length evs2) (evs1 @ drop (length evs1) evs0)"
  let ?Q1 = "map hs_of evs1 @ drop (length evs1) ?Q0"
  let ?more = "event_reads evs1 @ [no_more]" and ?k = "length evs1"
  have q: "8 * ?q \<le> fib_max" "?q < 2 ^ 63" using assms(5) by (simp_all add: fib_max_def)
  have stop: "export_loop env [no_more] t = Ret () t" for t
    by (simp add: no_more_def Export_get_event_def)
  have one: "batch env ts = ts" for ts by (simp add: batch_def assms(2))
  have less: "evs0 \<noteq> []" "?k < ?q" using assms(6,7) by (cases evs2; auto)+
  obtain x where x: "export_loop env (event_reads evs0 @ ?more) (queue_to (replicate ?q hs_empty) 0 0 st) =
      export_loop env ?more (queue_to ?Q0 0 0 ((emit env evs0 st)\<lparr>xs_text := x\<rparr>))" "\<not> h_poisoned x"
    using loop_batch [OF assms(1,10), of evs0 "replicate ?q hs_empty" 0 0 evs0 ?more] assms(3) q(2) less
    by (auto simp: one)
  define A where "A = (emit env evs0 st)\<lparr>xs_text := x\<rparr>"
  have fill: "export_loop env ?more (queue_to ?Q0 0 0 A) = Ret () (queue_to ?Q1 ?k ?k A)"
    using loop_fills_all [of evs1 env ?Q0 0 0 "[no_more]" A] assms(3) q(2) less by (simp add: stop del: export_loop.simps)
  have again: "map hs_of evs2 @ drop (length evs2) ?Q1 = map hs_of ?last"
    by (simp add: drop_map)
  have Q1: "\<forall>s \<in> set ?Q1. \<not> h_poisoned s" "length ?Q1 = ?q" using less by (auto simp: drop_map)
  obtain y where y: "export_loop env (event_reads evs2 @ [no_more]) (queue_to ?Q1 0 ?k A) =
      Ret () (queue_to (map hs_of ?last) 0 0 ((emit env ?last A)\<lparr>xs_text := y\<rparr>))"
    using loop_batch [OF assms(1), of A evs2 ?Q1 ?k 0 ?last "[no_more]"] assms(3,6,7) q(2) Q1 again x(2)
    by (auto simp: one stop A_def simp del: export_loop.simps)
  let ?t = "queue_to (map hs_of ?last) 0 0 ((emit env ?last A)\<lparr>xs_text := y\<rparr>)"
  have reads: "event_reads (evs0 @ evs1) @ [no_more] = event_reads evs0 @ ?more" by (simp add: event_reads_def)
  have "export_root env True True queue_size (event_reads (evs0 @ evs1) @ [no_more])
       [Root_events (event_reads evs2 @ [no_more])] st = Ret () ?t"
    using x(1) fill y unfolding reads export_root_starts [OF assms(4,8,9) q(1)]
    by (simp add: A_def [symmetric] Export_export_events_def)
  moreover have "xs_file ?t = xs_file st @ evs0 @ ?last"
    by (simp add: queue_to_def emit_def assms(2) A_def)
  ultimately show ?thesis by blast
qed

theorem followed_events_lost_witness:
  "(\<exists>st'. export_root demo_export True True ''3'' (event_reads ([''a'', ''b'', ''c''] @ [''lost'']) @ [no_more])
       [Root_events (event_reads [''d'', ''e''] @ [no_more])] (Export_Init 0) = Ret () st' \<and>
     xs_file st' = [''a'', ''b'', ''c'', ''d'', ''e'', ''c'']) \<and>
   (\<exists>st'. export_root demo_export True True ''3'' (event_reads ([''a'', ''b'', ''c''] @ [''lost'', ''kept'']) @ [no_more])
       [Root_events (event_reads [''d''] @ [no_more])] (Export_Init 0) = Ret () st' \<and>
     xs_file st' = [''a'', ''b'', ''c'', ''d'', ''kept'', ''c''])"
proof -
  have "\<forall>t \<in> set ([''a'', ''b'', ''c''] @ [''lost''] @ [''d'', ''e'']). text_fits demo_export t"
    "\<forall>t \<in> set ([''a'', ''b'', ''c''] @ [''lost'', ''kept''] @ [''d'']). text_fits demo_export t"
    by (simp_all add: text_fits_def demo_export_def)
  moreover have "strtoll ''3'' = (int (length [''a'', ''b'', ''c'']), False)" by code_simp
  ultimately show ?thesis
    using followed_events_lost [OF demo_export_one, of "[''a'', ''b'', ''c'']" "[''lost'']" "[''d'', ''e'']" "''3''" "Export_Init 0"]
      followed_events_lost [OF demo_export_one, of "[''a'', ''b'', ''c'']" "[''lost'', ''kept'']" "[''d'']" "''3''" "Export_Init 0"]
    by (simp add: ERANGE_def fib_max_def)
qed

end
