(* ===== verification/XenDuctProps.thy ===== *)
theory XenDuctProps
  imports XenDuct
begin

text \<open>
  The conversation over the shared page: whatever the two ends and the event handler interleave, the answers are those
  of the interpreter, in their order, and every run ends; but it may end because a notification was lost.
\<close>

section \<open>The page\<close>

definition page_ok :: "byte list \<Rightarrow> bool" where
  "page_ok page \<longleftrightarrow> length page = page_bytes"

definition carries :: "byte list \<Rightarrow> byte list \<Rightarrow> bool" where
  "carries page msg \<longleftrightarrow> read_message (length msg) page = Some msg"

definition msg_ok :: "byte list \<Rightarrow> bool" where
  "msg_ok msg \<longleftrightarrow> msg \<noteq> [] \<and> length msg < XEN_MAX_RECEIVE"

lemma page_ok_simps [simp]:
  "page_ok clear_page" "page_ok page \<Longrightarrow> page_ok (set_size w page)" "page_ok (set_status v page) = page_ok page"
  by (simp_all add: page_ok_def clear_page_def set_size_def set_status_def page_bytes_def)

lemma status_simps [simp]:
  "\<not> status_of clear_page" "page_ok page \<Longrightarrow> status_of (set_size w page) = status_of page"
  "page_ok page \<Longrightarrow> status_of (set_status v page) = v"
  by (simp_all add: page_ok_def status_of_def clear_page_def set_size_def set_status_def page_bytes_def
      nth_append)

lemma size_simps [simp]:
  "size_of (set_size w page) = unat w" "size_of (set_status v page) = size_of page"
  by (simp_all add: size_of_def set_size_def set_status_def)

lemma carries_simps [simp]:
  "page_ok page \<Longrightarrow> carries (set_size w page) msg = carries page msg"
  "carries (set_status v page) msg = carries page msg"
  by (simp_all add: carries_def read_message_def set_size_def set_status_def page_ok_def page_bytes_def drop_append)

lemma load_message_ok:
  assumes "page_ok page" "msg_ok msg"
  shows "\<exists>page'. load_message msg page = Some page' \<and> page_ok page' \<and> carries page' msg \<and> status_of page' = status_of page"
  using assms by (simp add: load_message_def page_write_def page_ok_def page_bytes_def msg_ok_def XEN_MAX_RECEIVE_def
      carries_def read_message_def status_of_def nth_append)

lemma carries_read: "carries page msg \<Longrightarrow> read_message (length msg) page = Some msg"
  by (simp add: carries_def)

lemma msg_ok_size:
  assumes "msg_ok msg"
  shows "unat (of_nat (length msg) :: u32) = length msg" "length msg \<noteq> 0" "\<not> XEN_MAX_RECEIVE < length msg"
    "length msg \<noteq> 4294967295"
  using assms by (simp_all add: msg_ok_def XEN_MAX_RECEIVE_def unsigned_of_nat take_bit_nat_eq_self)

lemma minus_one_size [simp]: "unat (- 1 :: u32) = 4294967295"
  by (simp add: unsigned_minus_1_eq_mask mask_eq_exp_minus_1)

section \<open>What the interpreter answers\<close>

fun answers :: "(byte list \<Rightarrow> 'd \<Rightarrow> byte list list \<times> 'd) \<Rightarrow> (byte list \<times> nat) list \<Rightarrow> 'd \<Rightarrow> byte list list" where
  "answers serve [] agent = []"
| "answers serve ((msg, n) # todo) agent =
     (case serve msg agent of (rs, agent') \<Rightarrow> rs @ answers serve todo agent')"

text \<open>
  The messages have room in the page and are not empty, and each command has as many answers, at least one, as the
  orchestrator receives.
\<close>

fun fits :: "(byte list \<Rightarrow> 'd \<Rightarrow> byte list list \<times> 'd) \<Rightarrow> (byte list \<times> nat) list \<Rightarrow> 'd \<Rightarrow> bool" where
  "fits serve [] agent = True"
| "fits serve ((msg, n) # todo) agent =
     (case serve msg agent of (rs, agent') \<Rightarrow>
        msg_ok msg \<and> rs \<noteq> [] \<and> length rs = n \<and> (\<forall>r \<in> set rs. msg_ok r) \<and> fits serve todo agent')"

section \<open>The invariant\<close>

text \<open>One assertion for each pair of program points; \<open>all\<close> are the answers to all commands.\<close>

definition owes :: "(byte list \<Rightarrow> 'd \<Rightarrow> byte list list \<times> 'd) \<Rightarrow> byte list list \<Rightarrow> byte list list \<Rightarrow> 'd xen_link \<Rightarrow> bool" where
  "owes serve all rs s \<longleftrightarrow> xl_got s @ rs @ answers serve (xl_todo s) (xl_agent s) = all \<and>
     fits serve (xl_todo s) (xl_agent s) \<and> (\<forall>r \<in> set rs. msg_ok r)"

definition asked :: "(byte list \<Rightarrow> 'd \<Rightarrow> byte list list \<times> 'd) \<Rightarrow> byte list list \<Rightarrow> 'd xen_link \<Rightarrow> bool" where
  "asked serve all s \<longleftrightarrow>
     xl_got s @ answers serve ((xl_cmd s, xl_left s) # xl_todo s) (xl_agent s) = all \<and>
     fits serve ((xl_cmd s, xl_left s) # xl_todo s) (xl_agent s)"

definition quiet :: "'d xen_link \<Rightarrow> bool" where
  "quiet s \<longleftrightarrow> \<not> xl_event s \<and> \<not> xl_irq s"

definition sized :: "byte list \<Rightarrow> 'd xen_link \<Rightarrow> bool" where
  "sized msg s \<longleftrightarrow> size_of (xl_page s) = length msg"

definition stub_idle :: "'d xen_link \<Rightarrow> bool" where
  "stub_idle s \<longleftrightarrow> quiet s \<and>
     (xl_spc s = Stub_listen \<or> xl_spc s \<in> {Stub_reset, Stub_event} \<and> \<not> xl_have_event s)"

definition notified :: "'d xen_link \<Rightarrow> bool" where
  "notified s \<longleftrightarrow> \<not> xl_event s \<and>
     (xl_spc s = Stub_listen \<or> xl_spc s \<in> {Stub_reset, Stub_event} \<and> \<not> (xl_irq s \<and> xl_have_event s) \<or>
      xl_spc s = Stub_read \<and> \<not> xl_irq s)"

definition replying :: "(byte list \<Rightarrow> 'd \<Rightarrow> byte list list \<times> 'd) \<Rightarrow> byte list list \<Rightarrow> 'd xen_link \<Rightarrow> bool" where
  "replying serve all s \<longleftrightarrow> xl_queue s \<noteq> [] \<and> xl_left s = length (xl_queue s) \<and> owes serve all (xl_queue s) s \<and>
     \<not> status_of (xl_page s) \<and> \<not> xl_irq s \<and>
     (xl_spc s \<noteq> Stub_send \<longrightarrow> carries (xl_page s) (hd (xl_queue s))) \<and>
     (xl_spc s \<notin> {Stub_send, Stub_size} \<longrightarrow> sized (hd (xl_queue s)) s)"

definition answering :: "(byte list \<Rightarrow> 'd \<Rightarrow> byte list list \<times> 'd) \<Rightarrow> byte list list \<Rightarrow> 'd xen_link \<Rightarrow> bool" where
  "answering serve all s \<longleftrightarrow> replying serve all s \<and>
     (xl_spc s \<in> {Stub_send, Stub_size, Stub_status, Stub_notify} \<and> \<not> xl_event s \<or> xl_spc s = Stub_wait \<and> xl_event s)"

definition received :: "(byte list \<Rightarrow> 'd \<Rightarrow> byte list list \<times> 'd) \<Rightarrow> byte list list \<Rightarrow> 'd xen_link \<Rightarrow> bool" where
  "received serve all s \<longleftrightarrow> xl_queue s \<noteq> [] \<and> xl_left s = length (tl (xl_queue s)) \<and> owes serve all (tl (xl_queue s)) s"

definition link_ok :: "(byte list \<Rightarrow> 'd \<Rightarrow> byte list list \<times> 'd) \<Rightarrow> byte list list \<Rightarrow> 'd xen_link \<Rightarrow> bool" where
  "link_ok serve all s \<longleftrightarrow> page_ok (xl_page s) \<and>
     (case xl_hpc s of
        Host_send \<Rightarrow> stub_idle s \<and> owes serve all [] s
      | Host_size \<Rightarrow> stub_idle s \<and> asked serve all s \<and> carries (xl_page s) (xl_cmd s)
      | Host_status \<Rightarrow> stub_idle s \<and> asked serve all s \<and> carries (xl_page s) (xl_cmd s) \<and> sized (xl_cmd s) s
      | Host_notify \<Rightarrow> stub_idle s \<and> \<not> status_of (xl_page s) \<and> asked serve all s \<and> carries (xl_page s) (xl_cmd s) \<and> sized (xl_cmd s) s
      | Host_wait \<Rightarrow> asked serve all s \<and> \<not> xl_event s \<and>
          (notified s \<and> \<not> status_of (xl_page s) \<and> carries (xl_page s) (xl_cmd s) \<and> sized (xl_cmd s) s \<or>
           xl_spc s = Stub_take \<and> \<not> status_of (xl_page s) \<and> \<not> xl_irq s \<and> carries (xl_page s) (xl_cmd s) \<and>
             xl_ssize s = length (xl_cmd s) \<or>
           xl_spc s = Stub_clear \<and> \<not> status_of (xl_page s) \<and> \<not> xl_irq s \<and> xl_msg s = xl_cmd s \<or>
           xl_spc s = Stub_taken \<and> \<not> status_of (xl_page s) \<and> \<not> xl_irq s \<and> xl_msg s = xl_cmd s \<or>
           xl_spc s = Stub_release \<and> status_of (xl_page s) \<and> \<not> xl_irq s \<and> xl_msg s = xl_cmd s)
      | Host_confirm \<Rightarrow> asked serve all s \<and> quiet s \<and> xl_spc s = Stub_release \<and> status_of (xl_page s) \<and> xl_msg s = xl_cmd s
      | Host_pending \<Rightarrow>
          asked serve all s \<and> quiet s \<and> xl_spc s = Stub_release \<and> \<not> status_of (xl_page s) \<and> xl_msg s = xl_cmd s \<or>
          answering serve all s
      | Host_read \<Rightarrow> replying serve all s \<and> \<not> xl_event s \<and> xl_spc s = Stub_wait
      | Host_take \<Rightarrow> replying serve all s \<and> \<not> xl_event s \<and> xl_spc s = Stub_wait \<and> xl_hsize s = length (hd (xl_queue s))
      | Host_clear \<Rightarrow> received serve all s \<and> quiet s \<and> xl_spc s = Stub_wait \<and> \<not> status_of (xl_page s)
      | Host_taken \<Rightarrow> received serve all s \<and> quiet s \<and> xl_spc s = Stub_wait \<and> \<not> status_of (xl_page s)
      | Host_release \<Rightarrow>
          received serve all s \<and> quiet s \<and> xl_spc s \<in> {Stub_wait, Stub_confirm} \<and> status_of (xl_page s) \<or>
          stub_idle s \<and> \<not> status_of (xl_page s) \<and> xl_left s = 0 \<and> owes serve all [] s \<or>
          answering serve all s
      | Host_bye \<Rightarrow> stub_idle s \<and> xl_todo s = [] \<and> xl_got s = all
      | Host_bye_notify \<Rightarrow> stub_idle s \<and> xl_todo s = [] \<and> xl_got s = all \<and> size_of (xl_page s) = 2 ^ 32 - 1
      | Host_bye_wait \<Rightarrow> xl_todo s = [] \<and> xl_got s = all \<and>
          (notified s \<and> size_of (xl_page s) = 2 ^ 32 - 1 \<or> xl_spc s = Stub_closed \<and> xl_event s)
      | Host_closed \<Rightarrow> xl_todo s = [] \<and> xl_got s = all \<and> xl_spc s = Stub_closed
      | Host_failed \<Rightarrow> False
      | Host_undefined \<Rightarrow> False)"

lemmas link_defs = link_ok_def owes_def asked_def quiet_def sized_def stub_idle_def notified_def replying_def
  answering_def received_def

lemma link_ok_init: "fits serve todo agent \<Longrightarrow> link_ok serve (answers serve todo agent) (link_init todo agent)"
  by (simp add: link_defs link_init_def)

lemma host_send_ok:
  assumes "link_ok serve all s" "host_send_step s = Some t"
  shows "link_ok serve all t"
proof (cases "xl_hpc s = Host_send")
  case True
  show ?thesis
  proof (cases "xl_todo s")
    case Nil
    with True assms show ?thesis by (auto simp: host_send_step_def link_defs)
  next
    case (Cons c todo)
    obtain msg n where c: "c = (msg, n)" by fastforce
    have ok: "page_ok (xl_page s)" "msg_ok msg"
      using True assms(1) Cons c by (auto simp: link_defs split: prod.splits)
    from load_message_ok [OF this] obtain page where
      page: "load_message msg (xl_page s) = Some page" "page_ok page" "carries page msg"
      "status_of page = status_of (xl_page s)" by blast
    have "t = s\<lparr>xl_page := page, xl_todo := todo, xl_cmd := msg, xl_left := n, xl_hpc := Host_size\<rparr>"
      using assms(2) True Cons c page(1) msg_ok_size(3) [OF ok(2)] by (simp add: host_send_step_def)
    then show ?thesis using assms(1) True Cons c page(2-4) by (auto simp: link_defs)
  qed
next
  case False
  have "msg_ok (xl_cmd s)" "page_ok (xl_page s)" if "xl_hpc s \<in> {Host_size, Host_status, Host_notify, Host_wait, Host_confirm}"
    using that assms(1) by (auto simp: link_defs split: prod.splits)
  with False assms msg_ok_size(1) [of "xl_cmd s"] show ?thesis
    by (cases "xl_hpc s") (auto simp: host_send_step_def on_page_def host_next_def link_defs split: if_splits prod.splits)
qed

lemma replying_msg:
  assumes "replying serve all s"
  shows "xl_queue s \<noteq> []" "msg_ok (hd (xl_queue s))"
    "xl_left s = Suc (length (tl (xl_queue s)))" "\<not> status_of (xl_page s)" "\<not> xl_irq s"
    "xl_got s @ hd (xl_queue s) # tl (xl_queue s) @ answers serve (xl_todo s) (xl_agent s) = all"
    "fits serve (xl_todo s) (xl_agent s)" "\<forall>r \<in> set (tl (xl_queue s)). msg_ok r"
  using assms by (cases "xl_queue s"; simp add: replying_def owes_def)+

lemma host_receive_ok:
  assumes "link_ok serve all s" "host_receive_step s = Some t"
  shows "link_ok serve all t"
proof (cases "xl_hpc s \<in> {Host_read, Host_take}")
  case True
  then have r: "replying serve all s" "page_ok (xl_page s)" "\<not> xl_event s" "xl_spc s = Stub_wait"
    using assms(1) by (auto simp: link_ok_def)
  note q = replying_msg [OF r(1)] msg_ok_size [OF replying_msg(2) [OF r(1)]]
  show ?thesis
  proof (cases "xl_hpc s = Host_read")
    case read: True
    have "sized (hd (xl_queue s)) s" using r(1,4) by (simp add: replying_def)
    then have "t = s\<lparr>xl_hsize := length (hd (xl_queue s)), xl_hpc := Host_take\<rparr>"
      using assms(2) read q by (simp add: host_receive_step_def sized_def Let_def)
    with r show ?thesis by (simp add: link_ok_def replying_def owes_def sized_def)
  next
    case False
    with True have take: "xl_hpc s = Host_take" by simp
    have "carries (xl_page s) (hd (xl_queue s))" "xl_hsize s = length (hd (xl_queue s))"
      using r(1,4) take assms(1) by (simp_all add: replying_def link_ok_def)
    then have "t = s\<lparr>xl_got := xl_got s @ [hd (xl_queue s)], xl_left := xl_left s - 1, xl_hpc := Host_clear\<rparr>"
      using assms(2) take by (simp add: host_receive_step_def carries_def)
    with r q show ?thesis by (simp add: link_ok_def received_def owes_def quiet_def)
  qed
next
  case False
  with assms show ?thesis
    by (cases "xl_hpc s") (auto simp: host_receive_step_def on_page_def host_next_def link_defs split: if_splits)
qed

lemma host_whack_ok:
  assumes "link_ok serve all s" "host_whack_step s = Some t"
  shows "link_ok serve all t"
  using assms by (cases "xl_hpc s") (auto simp: host_whack_step_def on_page_def link_defs split: if_splits)

lemma handler_ok:
  assumes "link_ok serve all s" "event_handler_step s = Some t"
  shows "link_ok serve all t"
  using assms by (cases "xl_hpc s") (auto simp: event_handler_step_def link_defs split: if_splits)

lemma stub_send_ok:
  assumes "link_ok serve all s" "stub_send_step s = Some t"
  shows "link_ok serve all t"
proof (cases "xl_spc s = Stub_send")
  case True
  then have r: "replying serve all s" "\<not> xl_event s" "xl_hpc s \<in> {Host_pending, Host_release}" "page_ok (xl_page s)"
    using assms(1) by (auto simp: link_ok_def answering_def stub_idle_def notified_def split: host_pc.splits)
  note q = replying_msg [OF r(1)] msg_ok_size [OF replying_msg(2) [OF r(1)]]
  from load_message_ok [OF r(4) q(2)] obtain page where
    page: "load_message (hd (xl_queue s)) (xl_page s) = Some page" "page_ok page" "carries page (hd (xl_queue s))"
    "status_of page = status_of (xl_page s)" by blast
  have "t = s\<lparr>xl_page := page, xl_spc := Stub_size\<rparr>"
    using assms(2) True page(1) q by (cases "xl_queue s") (simp_all add: stub_send_step_def)
  with r page q show ?thesis by (auto simp: link_ok_def answering_def replying_def owes_def)
next
  case False
  have "msg_ok (hd (xl_queue s))" if "replying serve all s" using replying_msg(2) [OF that] .
  then have size: "unat (of_nat (length (hd (xl_queue s))) :: u32) = length (hd (xl_queue s))" if "replying serve all s"
    using msg_ok_size(1) that by blast
  show ?thesis
  proof (cases "xl_spc s")
    case Stub_confirm
    then have r: "xl_hpc s = Host_release" "received serve all s" "quiet s" "page_ok (xl_page s)"
      using assms(1) by (auto simp: link_ok_def answering_def stub_idle_def notified_def split: host_pc.splits)
    have "t = (let t = (on_page (set_status False) s)\<lparr>xl_queue := tl (xl_queue s)\<rparr> in t\<lparr>xl_spc := stub_next t\<rparr>)"
      using assms(2) Stub_confirm by (simp add: stub_send_step_def Let_def)
    with r show ?thesis
      by (cases "tl (xl_queue s)") (auto simp: Let_def on_page_def stub_next_def link_defs)
  next
    case Stub_size
    with assms size show ?thesis
      by (cases "xl_hpc s") (auto simp: stub_send_step_def on_page_def link_defs)
  next
    case Stub_status
    with assms show ?thesis by (cases "xl_hpc s") (auto simp: stub_send_step_def on_page_def link_defs)
  next
    case Stub_notify
    with assms show ?thesis by (cases "xl_hpc s") (auto simp: stub_send_step_def on_page_def link_defs)
  next
    case Stub_wait
    with assms show ?thesis
      by (cases "xl_hpc s") (auto simp: stub_send_step_def on_page_def link_defs split: if_splits)
  qed (use assms False in \<open>simp_all add: stub_send_step_def\<close>)
qed

lemma stub_receive_ok:
  assumes "link_ok serve all s" "stub_receive_step serve s = Some t"
  shows "link_ok serve all t"
proof (cases "xl_spc s")
  case Stub_listen
  with assms show ?thesis by (cases "xl_hpc s") (auto simp: stub_receive_step_def link_defs)
next
  case Stub_reset
  with assms show ?thesis by (cases "xl_hpc s") (auto simp: stub_receive_step_def on_page_def link_defs)
next
  case Stub_event
  with assms show ?thesis by (cases "xl_hpc s") (auto simp: stub_receive_step_def link_defs split: if_splits)
next
  case Stub_read
  have "msg_ok (xl_cmd s)" if "asked serve all s" using that by (auto simp: asked_def split: prod.splits)
  then have "length (xl_cmd s) \<noteq> 4294967295" "\<not> XEN_MAX_RECEIVE < length (xl_cmd s)" if "asked serve all s"
    using msg_ok_size(3,4) that by blast+
  with Stub_read assms show ?thesis
    by (cases "xl_hpc s") (auto simp: stub_receive_step_def link_defs Let_def split: if_splits)
next
  case Stub_take
  with assms show ?thesis
    by (cases "xl_hpc s") (auto simp: stub_receive_step_def link_defs carries_def)
next
  case Stub_clear
  with assms show ?thesis by (cases "xl_hpc s") (auto simp: stub_receive_step_def link_defs)
next
  case Stub_taken
  with assms show ?thesis by (cases "xl_hpc s") (auto simp: stub_receive_step_def on_page_def link_defs)
next
  case Stub_release
  with assms(1) have r: "asked serve all s" "page_ok (xl_page s)" "xl_hpc s \<in> {Host_wait, Host_confirm, Host_pending}"
    "xl_msg s = xl_cmd s" "\<not> status_of (xl_page s) \<longrightarrow> xl_hpc s = Host_pending \<and> quiet s"
    by (auto simp: link_ok_def answering_def stub_idle_def notified_def split: host_pc.splits)
  obtain rs agent where serve: "serve (xl_cmd s) (xl_agent s) = (rs, agent)" by fastforce
  have "\<not> status_of (xl_page s)" using assms(2) Stub_release by (auto simp: stub_receive_step_def)
  moreover have "rs \<noteq> []" using r(1) serve by (simp add: asked_def)
  ultimately have "t = s\<lparr>xl_queue := rs, xl_agent := agent, xl_spc := Stub_send\<rparr>"
    using assms(2) Stub_release serve r(4) by (simp add: stub_receive_step_def Let_def stub_next_def)
  with r serve \<open>\<not> status_of (xl_page s)\<close> show ?thesis
    by (auto simp: link_ok_def answering_def replying_def owes_def asked_def quiet_def)
qed (use assms in \<open>simp_all add: stub_receive_step_def\<close>)

lemma link_step_ok: "link_step serve s t \<Longrightarrow> link_ok serve all s \<Longrightarrow> link_ok serve all t"
  by (erule link_step.cases)
    (auto intro: host_send_ok host_receive_ok host_whack_ok stub_receive_ok stub_send_ok handler_ok)

lemma link_reachable_ok:
  assumes "(link_step serve)\<^sup>*\<^sup>* (link_init todo agent) s" "fits serve todo agent"
  shows "link_ok serve (answers serve todo agent) s"
  using assms(1) by (induction rule: rtranclp_induct) (auto intro: link_step_ok link_ok_init assms(2))

section \<open>Where a run can end\<close>

definition link_stuck :: "(byte list \<Rightarrow> 'd \<Rightarrow> byte list list \<times> 'd) \<Rightarrow> 'd xen_link \<Rightarrow> bool" where
  "link_stuck serve s \<longleftrightarrow> \<not> (\<exists>t. link_step serve s t)"

text \<open>Both ends are closed; or the interpreter waits for an event whose notification it has cleared.\<close>

definition link_done :: "'d xen_link \<Rightarrow> bool" where
  "link_done s \<longleftrightarrow> xl_hpc s = Host_closed \<and> xl_spc s = Stub_closed"

definition lost_wakeup :: "'d xen_link \<Rightarrow> bool" where
  "lost_wakeup s \<longleftrightarrow> xl_hpc s \<in> {Host_wait, Host_bye_wait} \<and> xl_spc s = Stub_event \<and> \<not> xl_have_event s \<and> \<not> xl_irq s"

lemma link_stuck_iff:
  "link_stuck serve s \<longleftrightarrow> host_send_step s = None \<and> host_receive_step s = None \<and> host_whack_step s = None \<and>
     stub_receive_step serve s = None \<and> stub_send_step s = None \<and> event_handler_step s = None"
  unfolding link_stuck_def link_step.simps by (metis not_None_eq)

lemma host_stuck_at:
  assumes "host_send_step s = None" "host_receive_step s = None" "host_whack_step s = None" "link_ok serve all s"
  shows "xl_hpc s = Host_wait \<and> \<not> status_of (xl_page s) \<or> xl_hpc s = Host_pending \<and> \<not> xl_event s \<or>
     xl_hpc s = Host_release \<and> status_of (xl_page s) \<or> xl_hpc s = Host_bye_wait \<and> \<not> xl_event s \<or> xl_hpc s = Host_closed"
  using assms
  by (cases "xl_hpc s") (auto simp: host_send_step_def host_receive_step_def host_whack_step_def Let_def link_ok_def
      split: if_splits list.splits option.splits)

lemma stub_stuck_at:
  assumes "stub_receive_step serve s = None" "stub_send_step s = None"
  shows "xl_spc s = Stub_event \<and> \<not> xl_have_event s \<or> xl_spc s = Stub_release \<and> status_of (xl_page s) \<or>
     xl_spc s = Stub_send \<and> xl_queue s = [] \<or> xl_spc s = Stub_wait \<and> \<not> status_of (xl_page s) \<or>
     xl_spc s \<in> {Stub_closed, Stub_failed, Stub_undefined}"
  using assms
  by (cases "xl_spc s") (auto simp: stub_receive_step_def stub_send_step_def Let_def
      split: if_splits list.splits option.splits prod.splits)

lemma stuck_cases:
  assumes "link_ok serve all s" "link_stuck serve s"
  shows "link_done s \<or> lost_wakeup s"
proof -
  have irq: "\<not> xl_irq s"
    using assms(2) by (auto simp: link_stuck_iff event_handler_step_def split: if_splits)
  have host: "xl_hpc s = Host_wait \<and> \<not> status_of (xl_page s) \<or> xl_hpc s = Host_pending \<and> \<not> xl_event s \<or>
     xl_hpc s = Host_release \<and> status_of (xl_page s) \<or> xl_hpc s = Host_bye_wait \<and> \<not> xl_event s \<or> xl_hpc s = Host_closed"
    using assms host_stuck_at by (auto simp: link_stuck_iff)
  have stub: "xl_spc s = Stub_event \<and> \<not> xl_have_event s \<or> xl_spc s = Stub_release \<and> status_of (xl_page s) \<or>
     xl_spc s = Stub_send \<and> xl_queue s = [] \<or> xl_spc s = Stub_wait \<and> \<not> status_of (xl_page s) \<or>
     xl_spc s \<in> {Stub_closed, Stub_failed, Stub_undefined}"
    using assms(2) stub_stuck_at by (auto simp: link_stuck_iff)
  show ?thesis
    using host stub irq assms(1) by (auto simp: link_defs link_done_def lost_wakeup_def)
qed

section \<open>How long a run is\<close>

definition todo_work :: "(byte list \<times> nat) list \<Rightarrow> nat" where
  "todo_work todo = sum_list (map (\<lambda>(msg, n). 15 + 12 * n) todo)"

fun host_rank :: "host_pc \<Rightarrow> nat \<Rightarrow> nat" where
  "host_rank Host_send n = 4" | "host_rank Host_size n = n + 9" | "host_rank Host_status n = n + 8"
| "host_rank Host_notify n = n + 7" | "host_rank Host_wait n = n + 6" | "host_rank Host_confirm n = n + 5"
| "host_rank Host_pending n = n + 4" | "host_rank Host_read n = n + 3" | "host_rank Host_take n = n + 2"
| "host_rank Host_clear n = n + 7" | "host_rank Host_taken n = n + 6" | "host_rank Host_release n = n + 5"
| "host_rank Host_bye n = 3" | "host_rank Host_bye_notify n = 2" | "host_rank Host_bye_wait n = 1"
| "host_rank _ n = 0"

fun stub_rank :: "stub_pc \<Rightarrow> nat \<Rightarrow> nat \<Rightarrow> nat" where
  "stub_rank Stub_listen n q = 3" | "stub_rank Stub_reset n q = 2" | "stub_rank Stub_event n q = 1"
| "stub_rank Stub_read n q = n + 8" | "stub_rank Stub_take n q = n + 7" | "stub_rank Stub_clear n q = n + 6"
| "stub_rank Stub_taken n q = n + 5" | "stub_rank Stub_release n q = n + 4"
| "stub_rank Stub_send n q = q + 3" | "stub_rank Stub_size n q = q + 2" | "stub_rank Stub_status n q = q + 1"
| "stub_rank Stub_notify n q = q" | "stub_rank Stub_wait n q = q - 1" | "stub_rank Stub_confirm n q = q - 2"
| "stub_rank _ n q = 0"

text \<open>The command that is on its way to the interpreter is work for it; the goodbye only ends it.\<close>

definition stub_work :: "'d xen_link \<Rightarrow> nat" where
  "stub_work s =
     (if xl_hpc s = Host_bye_wait \<and> xl_spc s = Stub_read then 0
      else stub_rank (xl_spc s) (6 * xl_left s) (6 * length (xl_queue s))) +
     (if xl_hpc s \<in> {Host_size, Host_status, Host_notify, Host_wait} \<and> xl_spc s \<in> {Stub_listen, Stub_reset, Stub_event}
      then 6 * xl_left s + 8 else 0)"

definition event_work :: "'d xen_link \<Rightarrow> nat" where
  "event_work s = (if xl_irq s then 1 else 0) + (if xl_hpc s \<in> {Host_size, Host_status, Host_notify} then 1 else 0) +
     (if xl_hpc s \<in> {Host_bye_wait, Host_closed} then 0 else 1) + (if xl_spc s = Stub_closed then 0 else 1)"

definition link_work :: "'d xen_link \<Rightarrow> nat" where
  "link_work s = todo_work (xl_todo s) + host_rank (xl_hpc s) (6 * xl_left s) + stub_work s + event_work s"

lemmas work_defs = link_work_def todo_work_def stub_work_def event_work_def

lemma host_send_work:
  assumes "link_ok serve all s" "host_send_step s = Some t"
  shows "link_work s = Suc (link_work t)"
proof (cases "xl_hpc s")
  case Host_send
  with assms(1) have idle: "xl_spc s \<in> {Stub_listen, Stub_reset, Stub_event}" "\<not> xl_irq s"
    by (auto simp: link_ok_def stub_idle_def quiet_def)
  show ?thesis
  proof (cases "xl_todo s")
    case Nil
    with Host_send assms(2) have "t = s\<lparr>xl_hpc := Host_bye\<rparr>" by (simp add: host_send_step_def)
    with Host_send idle show ?thesis by (auto simp: work_defs)
  next
    case (Cons c todo)
    obtain msg n where c: "c = (msg, n)" by fastforce
    have "xl_hpc t \<notin> {Host_failed, Host_undefined}"
      using host_send_ok [OF assms] by (auto simp: link_ok_def)
    with Host_send assms(2) Cons c obtain page where
      "t = s\<lparr>xl_page := page, xl_todo := todo, xl_cmd := msg, xl_left := n, xl_hpc := Host_size\<rparr>"
      by (auto simp: host_send_step_def split: if_splits option.splits)
    with Host_send idle Cons c show ?thesis by (auto simp: work_defs)
  qed
next
  case Host_size
  then have "t = (on_page (set_size (of_nat (length (xl_cmd s)))) s)\<lparr>xl_hpc := Host_status\<rparr>" "\<not> xl_irq s" "xl_spc s \<noteq> Stub_closed"
    using assms by (auto simp: host_send_step_def link_ok_def stub_idle_def quiet_def)
  with Host_size show ?thesis by (auto simp: work_defs on_page_def)
next
  case Host_status
  then have "t = (on_page (set_status False) s)\<lparr>xl_hpc := Host_notify\<rparr>" "\<not> xl_irq s" "xl_spc s \<noteq> Stub_closed"
    using assms by (auto simp: host_send_step_def link_ok_def stub_idle_def quiet_def)
  with Host_status show ?thesis by (auto simp: work_defs on_page_def)
next
  case Host_notify
  then have "t = s\<lparr>xl_irq := True, xl_hpc := Host_wait\<rparr>" "\<not> xl_irq s" "xl_spc s \<noteq> Stub_closed"
    using assms by (auto simp: host_send_step_def link_ok_def stub_idle_def quiet_def)
  with Host_notify show ?thesis by (auto simp: work_defs on_page_def)
next
  case Host_wait
  then have "status_of (xl_page s)" "t = s\<lparr>xl_hpc := Host_confirm\<rparr>"
    using assms(2) by (simp_all add: host_send_step_def split: if_splits)
  moreover from this have "xl_spc s = Stub_release" using assms(1) Host_wait by (auto simp: link_ok_def notified_def)
  ultimately show ?thesis using Host_wait by (simp add: work_defs)
next
  case Host_confirm
  then have "xl_spc s = Stub_release" "t = (on_page (set_status False) s)\<lparr>xl_hpc := host_next s\<rparr>"
    using assms by (simp_all add: host_send_step_def link_ok_def)
  with Host_confirm show ?thesis by (simp add: work_defs on_page_def host_next_def)
qed (use assms(2) in \<open>simp_all add: host_send_step_def\<close>)

lemma host_receive_work:
  assumes "link_ok serve all s" "host_receive_step s = Some t"
  shows "link_work s = Suc (link_work t)"
proof (cases "xl_hpc s")
  case Host_pending
  then have "t = s\<lparr>xl_event := False, xl_hpc := Host_read\<rparr>"
    using assms(2) by (simp add: host_receive_step_def split: if_splits)
  with Host_pending show ?thesis by (simp add: work_defs)
next
  case Host_read
  then have r: "replying serve all s" "xl_spc s = Stub_wait" using assms(1) by (auto simp: link_ok_def)
  have "sized (hd (xl_queue s)) s" using r by (simp add: replying_def)
  then have "t = s\<lparr>xl_hsize := length (hd (xl_queue s)), xl_hpc := Host_take\<rparr>"
    using assms(2) Host_read msg_ok_size(2,3) [OF replying_msg(2) [OF r(1)]]
    by (simp add: host_receive_step_def sized_def Let_def)
  with Host_read r(2) show ?thesis by (simp add: work_defs)
next
  case Host_take
  then have r: "replying serve all s" "xl_spc s = Stub_wait" "xl_hsize s = length (hd (xl_queue s))"
    using assms(1) by (auto simp: link_ok_def)
  have "carries (xl_page s) (hd (xl_queue s))" using r by (simp add: replying_def)
  then have "t = s\<lparr>xl_got := xl_got s @ [hd (xl_queue s)], xl_left := xl_left s - 1, xl_hpc := Host_clear\<rparr>"
    using assms(2) Host_take r(3) by (simp add: host_receive_step_def carries_def)
  with Host_take r(2) replying_msg(3) [OF r(1)] show ?thesis by (simp add: work_defs)
next
  case Host_clear
  with assms(2) have "t = s\<lparr>xl_page := clear_page, xl_hpc := Host_taken\<rparr>" by (simp add: host_receive_step_def)
  with Host_clear show ?thesis by (simp add: work_defs on_page_def)
next
  case Host_taken
  with assms(2) have "t = (on_page (set_status True) s)\<lparr>xl_hpc := Host_release\<rparr>" by (simp add: host_receive_step_def)
  with Host_taken show ?thesis by (simp add: work_defs on_page_def)
next
  case Host_release
  then have "t = s\<lparr>xl_hpc := host_next s\<rparr>"
    using assms(2) by (simp add: host_receive_step_def split: if_splits)
  with Host_release show ?thesis by (simp add: work_defs host_next_def)
qed (use assms(2) in \<open>simp_all add: host_receive_step_def\<close>)

lemma host_whack_work:
  assumes "link_ok serve all s" "host_whack_step s = Some t"
  shows "link_work s = Suc (link_work t)"
proof (cases "xl_hpc s")
  case Host_bye
  with assms(2) have "t = (on_page (set_size (- 1)) s)\<lparr>xl_hpc := Host_bye_notify\<rparr>" by (simp add: host_whack_step_def)
  with Host_bye show ?thesis by (simp add: work_defs on_page_def)
next
  case Host_bye_notify
  then have "t = s\<lparr>xl_irq := True, xl_hpc := Host_bye_wait\<rparr>" "\<not> xl_irq s" "xl_spc s \<in> {Stub_listen, Stub_reset, Stub_event}"
    using assms by (auto simp: host_whack_step_def link_ok_def stub_idle_def quiet_def)
  with Host_bye_notify show ?thesis by (auto simp: work_defs)
next
  case Host_bye_wait
  then have "xl_event s" "t = s\<lparr>xl_event := False, xl_hpc := Host_closed\<rparr>"
    using assms(2) by (simp_all add: host_whack_step_def split: if_splits)
  moreover from this have "xl_spc s = Stub_closed" using assms(1) Host_bye_wait by (auto simp: link_ok_def notified_def)
  ultimately show ?thesis using Host_bye_wait by (simp add: work_defs)
qed (use assms(2) in \<open>simp_all add: host_whack_step_def\<close>)

lemma handler_work:
  assumes "event_handler_step s = Some t"
  shows "link_work s = Suc (link_work t)"
proof -
  have "xl_irq s" "t = s\<lparr>xl_irq := False, xl_have_event := True\<rparr>"
    using assms by (simp_all add: event_handler_step_def split: if_splits)
  then show ?thesis by (simp add: work_defs)
qed

lemma stub_pcs:
  assumes "link_ok serve all s"
  shows "xl_spc s \<in> {Stub_listen, Stub_reset, Stub_event} \<Longrightarrow>
      xl_hpc s \<in> {Host_send, Host_size, Host_status, Host_notify, Host_wait, Host_release, Host_bye, Host_bye_notify, Host_bye_wait}"
    "xl_spc s = Stub_read \<Longrightarrow> xl_hpc s = Host_bye_wait \<and> size_of (xl_page s) = 2 ^ 32 - 1 \<or>
      xl_hpc s = Host_wait \<and> asked serve all s \<and> sized (xl_cmd s) s"
    "xl_spc s \<in> {Stub_take, Stub_clear, Stub_taken} \<Longrightarrow> xl_hpc s = Host_wait"
    "xl_spc s = Stub_take \<Longrightarrow> carries (xl_page s) (xl_cmd s) \<and> xl_ssize s = length (xl_cmd s)"
    "xl_spc s = Stub_release \<Longrightarrow> asked serve all s \<and> xl_msg s = xl_cmd s \<and> xl_hpc s \<in> {Host_wait, Host_confirm, Host_pending}"
    "xl_spc s \<in> {Stub_send, Stub_size, Stub_status, Stub_notify} \<Longrightarrow>
      replying serve all s \<and> xl_hpc s \<in> {Host_pending, Host_release}"
    "xl_spc s \<in> {Stub_wait, Stub_confirm} \<Longrightarrow> xl_queue s \<noteq> [] \<and>
      xl_hpc s \<in> {Host_pending, Host_read, Host_take, Host_clear, Host_taken, Host_release}"
  using assms by (cases "xl_hpc s"; auto simp: link_ok_def stub_idle_def notified_def answering_def received_def
      dest: replying_msg(1))+


lemma stub_receive_work:
  assumes "link_ok serve all s" "stub_receive_step serve s = Some t"
  shows "link_work s = Suc (link_work t)"
proof (cases "xl_spc s")
  case Stub_listen
  with assms(2) have "t = s\<lparr>xl_have_event := False, xl_spc := Stub_reset\<rparr>" by (simp add: stub_receive_step_def)
  with Stub_listen show ?thesis by (simp add: work_defs)
next
  case Stub_reset
  with assms(2) have "t = (on_page (set_status False) s)\<lparr>xl_spc := Stub_event\<rparr>" by (simp add: stub_receive_step_def)
  with Stub_reset show ?thesis by (simp add: work_defs on_page_def)
next
  case Stub_event
  then have t: "xl_have_event s" "t = s\<lparr>xl_spc := Stub_read\<rparr>"
    using assms(2) by (simp_all add: stub_receive_step_def split: if_splits)
  then have "xl_hpc s \<in> {Host_wait, Host_bye_wait}"
    using assms(1) Stub_event by (cases "xl_hpc s") (auto simp: link_defs)
  with t Stub_event show ?thesis by (auto simp: work_defs)
next
  case Stub_read
  from stub_pcs(2) [OF assms(1) this] show ?thesis
  proof
    assume "xl_hpc s = Host_bye_wait \<and> size_of (xl_page s) = 2 ^ 32 - 1"
    moreover from this have "t = s\<lparr>xl_event := True, xl_spc := Stub_closed\<rparr>"
      using assms(2) Stub_read by (simp add: stub_receive_step_def Let_def)
    ultimately show ?thesis using Stub_read by (simp add: work_defs)
  next
    assume r: "xl_hpc s = Host_wait \<and> asked serve all s \<and> sized (xl_cmd s) s"
    then have "msg_ok (xl_cmd s)" by (auto simp: asked_def split: prod.splits)
    from msg_ok_size(3,4) [OF this] r have "t = s\<lparr>xl_ssize := length (xl_cmd s), xl_spc := Stub_take\<rparr>"
      using assms(2) Stub_read by (simp add: stub_receive_step_def Let_def sized_def)
    with r Stub_read show ?thesis by (simp add: work_defs)
  qed
next
  case Stub_take
  with stub_pcs(4) [OF assms(1) this] assms(2) have "t = s\<lparr>xl_msg := xl_cmd s, xl_spc := Stub_clear\<rparr>"
    by (simp add: stub_receive_step_def carries_def)
  with Stub_take show ?thesis by (simp add: work_defs)
next
  case Stub_clear
  with assms(2) have "t = s\<lparr>xl_page := clear_page, xl_spc := Stub_taken\<rparr>" by (simp add: stub_receive_step_def)
  with Stub_clear show ?thesis by (simp add: work_defs)
next
  case Stub_taken
  with assms(2) have "t = (on_page (set_status True) s)\<lparr>xl_spc := Stub_release\<rparr>" by (simp add: stub_receive_step_def)
  with Stub_taken show ?thesis by (simp add: work_defs on_page_def)
next
  case Stub_release
  note r = stub_pcs(5) [OF assms(1) this]
  obtain rs agent where serve: "serve (xl_cmd s) (xl_agent s) = (rs, agent)" by fastforce
  with r have "rs \<noteq> []" "xl_left s = length rs" by (auto simp: asked_def)
  moreover from this have "t = s\<lparr>xl_queue := rs, xl_agent := agent, xl_spc := Stub_send\<rparr>"
    using assms(2) Stub_release serve r
    by (simp add: stub_receive_step_def Let_def stub_next_def split: if_splits)
  ultimately show ?thesis using Stub_release by (simp add: work_defs)
qed (use assms(2) in \<open>simp_all add: stub_receive_step_def\<close>)

lemma stub_send_work:
  assumes "link_ok serve all s" "stub_send_step s = Some t"
  shows "link_work s = Suc (link_work t)"
proof (cases "xl_spc s")
  case Stub_send
  then have r: "replying serve all s" "page_ok (xl_page s)" using stub_pcs(6) [OF assms(1)] assms(1) by (auto simp: link_ok_def)
  from load_message_ok [OF r(2) replying_msg(2) [OF r(1)]] obtain page where
    "load_message (hd (xl_queue s)) (xl_page s) = Some page" by blast
  then have "t = s\<lparr>xl_page := page, xl_spc := Stub_size\<rparr>"
    using assms(2) Stub_send replying_msg(1) [OF r(1)] msg_ok_size(3) [OF replying_msg(2) [OF r(1)]]
    by (cases "xl_queue s") (simp_all add: stub_send_step_def)
  with Stub_send show ?thesis by (simp add: work_defs)
next
  case Stub_size
  with assms(2) have "t = (on_page (set_size (of_nat (length (hd (xl_queue s))))) s)\<lparr>xl_spc := Stub_status\<rparr>"
    by (simp add: stub_send_step_def)
  with Stub_size show ?thesis by (simp add: work_defs on_page_def)
next
  case Stub_status
  with assms(2) have "t = (on_page (set_status False) s)\<lparr>xl_spc := Stub_notify\<rparr>" by (simp add: stub_send_step_def)
  with Stub_status show ?thesis by (simp add: work_defs on_page_def)
next
  case Stub_notify
  then have "xl_queue s \<noteq> []" using stub_pcs(6) [OF assms(1)] by (simp add: replying_def)
  moreover have "t = s\<lparr>xl_event := True, xl_spc := Stub_wait\<rparr>" using Stub_notify assms(2) by (simp add: stub_send_step_def)
  ultimately show ?thesis using Stub_notify by (cases "xl_queue s") (simp_all add: work_defs)
next
  case Stub_wait
  then have "t = s\<lparr>xl_spc := Stub_confirm\<rparr>" using assms(2) by (simp add: stub_send_step_def split: if_splits)
  moreover have "xl_queue s \<noteq> []" using Stub_wait stub_pcs(7) [OF assms(1)] by simp
  ultimately show ?thesis using Stub_wait by (cases "xl_queue s") (simp_all add: work_defs)
next
  case Stub_confirm
  then have q: "xl_queue s \<noteq> []"
    "xl_hpc s \<in> {Host_pending, Host_read, Host_take, Host_clear, Host_taken, Host_release}"
    using stub_pcs(7) [OF assms(1)] by simp_all
  have "t = (let t = (on_page (set_status False) s)\<lparr>xl_queue := tl (xl_queue s)\<rparr> in t\<lparr>xl_spc := stub_next t\<rparr>)"
    using assms(2) Stub_confirm by (simp add: stub_send_step_def Let_def)
  with Stub_confirm q show ?thesis
    by (cases "xl_queue s"; cases "tl (xl_queue s)") (auto simp: work_defs Let_def on_page_def stub_next_def)
qed (use assms(2) in \<open>simp_all add: stub_send_step_def\<close>)

lemma link_step_work: "link_step serve s t \<Longrightarrow> link_ok serve all s \<Longrightarrow> link_work s = Suc (link_work t)"
  by (erule link_step.cases)
    (auto intro: host_send_work host_receive_work host_whack_work stub_receive_work stub_send_work handler_work)

lemma link_run_work:
  "((link_step serve) ^^ k) s t \<Longrightarrow> link_ok serve all s \<Longrightarrow> link_ok serve all t \<and> link_work s = k + link_work t"
proof (induction k arbitrary: t)
  case (Suc k)
  then obtain u where "((link_step serve) ^^ k) s u" "link_step serve u t" by auto
  with Suc.IH [of u] Suc.prems(2) show ?case by (auto simp: link_step_work link_step_ok)
qed simp

lemma link_init_work: "link_work (link_init todo agent) = 9 + todo_work todo"
  by (simp add: link_work_def stub_work_def event_work_def link_init_def)

text \<open>The run in which the notification comes before the interpreter clears the flag.\<close>

lemma overlooked_notification:
  assumes "fits serve todo agent" "todo \<noteq> []"
  shows "\<exists>s. (link_step serve)\<^sup>*\<^sup>* (link_init todo agent) s \<and> lost_wakeup s \<and> link_stuck serve s \<and> xl_got s = []"
proof -
  obtain msg n rest where todo: "todo = (msg, n) # rest" using assms(2) by (cases todo) auto
  have ok: "msg_ok msg" using assms(1) todo by (auto split: prod.splits)
  obtain page where page: "load_message msg (set_status True clear_page) = Some page" "page_ok page"
    using load_message_ok [OF _ ok, of "set_status True clear_page"] by auto
  let ?s1 = "(link_init todo agent)\<lparr>xl_page := page, xl_todo := rest, xl_cmd := msg, xl_left := n, xl_hpc := Host_size\<rparr>"
  let ?s2 = "(on_page (set_size (of_nat (length msg))) ?s1)\<lparr>xl_hpc := Host_status\<rparr>"
  let ?s3 = "(on_page (set_status False) ?s2)\<lparr>xl_hpc := Host_notify\<rparr>"
  let ?s4 = "?s3\<lparr>xl_irq := True, xl_hpc := Host_wait\<rparr>"
  let ?s5 = "?s4\<lparr>xl_irq := False, xl_have_event := True\<rparr>"
  let ?s6 = "?s5\<lparr>xl_have_event := False, xl_spc := Stub_reset\<rparr>"
  let ?s7 = "(on_page (set_status False) ?s6)\<lparr>xl_spc := Stub_event\<rparr>"
  have "link_step serve (link_init todo agent) ?s1"
    using page(1) msg_ok_size(3) [OF ok] by (intro host_sends) (simp add: host_send_step_def link_init_def todo)
  moreover have "link_step serve ?s1 ?s2"
    by (intro host_sends) (simp add: host_send_step_def)
  moreover have "link_step serve ?s2 ?s3" by (intro host_sends) (simp add: host_send_step_def on_page_def)
  moreover have "link_step serve ?s3 ?s4" by (intro host_sends) (simp add: host_send_step_def)
  moreover have "link_step serve ?s4 ?s5" by (intro handler) (simp add: event_handler_step_def)
  moreover have "link_step serve ?s5 ?s6"
    by (intro stub_receives) (simp add: stub_receive_step_def on_page_def link_init_def)
  moreover have "link_step serve ?s6 ?s7" by (intro stub_receives) (simp add: stub_receive_step_def)
  ultimately have "(link_step serve)\<^sup>*\<^sup>* (link_init todo agent) ?s7"
    by (meson converse_rtranclp_into_rtranclp rtranclp.rtrancl_refl)
  moreover have "lost_wakeup ?s7" "xl_got ?s7 = []" by (simp_all add: lost_wakeup_def on_page_def link_init_def)
  moreover have "link_stuck serve ?s7"
    using page(2) by (simp add: link_stuck_iff host_send_step_def host_receive_step_def host_whack_step_def
        stub_receive_step_def stub_send_step_def event_handler_step_def on_page_def)
  ultimately show ?thesis by blast
qed

text \<open>
  Runs in which the orchestrator notifies the interpreter only when that waits: then the notification is not lost.
\<close>

definition awaited :: "'d xen_link \<Rightarrow> bool" where
  "awaited s \<longleftrightarrow> (xl_hpc s \<in> {Host_notify, Host_bye_notify} \<longrightarrow> xl_spc s = Stub_event)"

definition careful_step :: "(byte list \<Rightarrow> 'd \<Rightarrow> byte list list \<times> 'd) \<Rightarrow> 'd xen_link \<Rightarrow> 'd xen_link \<Rightarrow> bool" where
  "careful_step serve s t \<longleftrightarrow> link_step serve s t \<and> (awaited s \<or> xl_hpc t = xl_hpc s)"

definition not_overlooked :: "'d xen_link \<Rightarrow> bool" where
  "not_overlooked s \<longleftrightarrow> (xl_hpc s \<in> {Host_wait, Host_bye_wait} \<and> xl_spc s \<in> {Stub_listen, Stub_reset, Stub_event} \<longrightarrow>
     xl_spc s = Stub_event \<and> (xl_irq s \<or> xl_have_event s))"

lemma host_step_not_overlooked:
  assumes "host_send_step s = Some t \<or> host_receive_step s = Some t \<or> host_whack_step s = Some t"
    and "awaited s \<or> xl_hpc t = xl_hpc s"
  shows "not_overlooked t"
  using assms
  by (cases "xl_hpc s") (auto simp: host_send_step_def host_receive_step_def host_whack_step_def host_next_def Let_def
      not_overlooked_def awaited_def split: if_splits list.splits option.splits)

lemma stub_step_not_overlooked:
  assumes "stub_receive_step serve s = Some t \<or> stub_send_step s = Some t" "not_overlooked s" "link_ok serve all s"
  shows "not_overlooked t"
proof -
  have hpc: "xl_hpc t = xl_hpc s"
    using assms(1) by (cases "xl_spc s") (auto simp: stub_receive_step_def stub_send_step_def on_page_def Let_def
        split: if_splits list.splits option.splits prod.splits)
  have "xl_spc t \<notin> {Stub_listen, Stub_reset, Stub_event}" if host: "xl_hpc s \<in> {Host_wait, Host_bye_wait}"
  proof -
    have "xl_spc s \<notin> {Stub_listen, Stub_reset, Stub_confirm}"
      using assms(2) stub_pcs(7) [OF assms(3)] host by (auto simp: not_overlooked_def)
    moreover have "status_of (xl_page s)" if "xl_spc s = Stub_release"
      using assms(3) host that by (auto simp: link_ok_def notified_def)
    ultimately show ?thesis
      using assms(1) by (cases "xl_spc s") (auto simp: stub_receive_step_def stub_send_step_def Let_def
          split: if_splits list.splits option.splits)
  qed
  with hpc show ?thesis by (auto simp: not_overlooked_def)
qed

lemma careful_not_overlooked:
  assumes "careful_step serve s t" "not_overlooked s" "link_ok serve all s"
  shows "not_overlooked t"
proof -
  have host: "not_overlooked t"
    if "host_send_step s = Some t \<or> host_receive_step s = Some t \<or> host_whack_step s = Some t"
    using host_step_not_overlooked [OF that] assms(1,2) by (auto simp: careful_step_def)
  have handler: "not_overlooked t" if "event_handler_step s = Some t"
    using that assms(2) by (auto simp: event_handler_step_def not_overlooked_def split: if_splits)
  from assms(1) have "link_step serve s t" by (simp add: careful_step_def)
  then show ?thesis
    using host handler stub_step_not_overlooked [OF _ assms(2,3)] by (cases rule: link_step.cases) auto
qed

lemma careful_run_ok:
  assumes "(careful_step serve)\<^sup>*\<^sup>* (link_init todo agent) s" "fits serve todo agent"
  shows "link_ok serve (answers serve todo agent) s \<and> not_overlooked s"
  using assms(1)
proof (induction rule: rtranclp_induct)
  case base
  then show ?case using link_ok_init [OF assms(2)] by (simp add: not_overlooked_def link_init_def)
next
  case (step s t)
  then have "link_step serve s t" by (simp add: careful_step_def)
  with step careful_not_overlooked [of serve s t] show ?case by (auto intro: link_step_ok)
qed

lemma careful_stuck:
  assumes "link_ok serve all s" "\<not> (\<exists>t. careful_step serve s t)"
  shows "link_stuck serve s"
proof (rule ccontr)
  assume "\<not> link_stuck serve s"
  then have away: "\<not> awaited s" using assms(2) by (auto simp: link_stuck_def careful_step_def)
  then have "xl_spc s \<in> {Stub_listen, Stub_reset}" "xl_hpc s \<in> {Host_notify, Host_bye_notify}"
    using assms(1) by (auto simp: awaited_def link_ok_def stub_idle_def)
  then obtain t where "stub_receive_step serve s = Some t" "xl_hpc t = xl_hpc s"
    by (auto simp: stub_receive_step_def on_page_def)
  then have "careful_step serve s t" by (auto simp: careful_step_def intro: stub_receives)
  with assms(2) show False by blast
qed

lemma careful_run_exists:
  assumes "link_ok serve all s"
  shows "\<exists>t. (careful_step serve)\<^sup>*\<^sup>* s t \<and> \<not> (\<exists>u. careful_step serve t u)"
  using assms
proof (induction "link_work s" arbitrary: s rule: less_induct)
  case less
  show ?case
  proof (cases "\<exists>u. careful_step serve s u")
    case True
    then obtain u where u: "careful_step serve s u" by blast
    then have step: "link_step serve s u" by (simp add: careful_step_def)
    have "link_work u < link_work s" using link_step_work [OF step less.prems] by simp
    from less.hyps [OF this link_step_ok [OF step less.prems]] u show ?thesis
      by (meson converse_rtranclp_into_rtranclp)
  qed blast
qed

section \<open>Properties\<close>

text \<open>An interpreter that answers each command with the command itself, and counts.\<close>

definition demo_serve :: "byte list \<Rightarrow> nat \<Rightarrow> byte list list \<times> nat" where
  "demo_serve msg n = ([msg], Suc n)"

definition demo_commands :: "(byte list \<times> nat) list" where
  "demo_commands = [(''seal'', 1), (''show state'', 1)]"

lemma demo_fits: "fits demo_serve demo_commands 0"
  by (simp add: demo_commands_def demo_serve_def msg_ok_def XEN_MAX_RECEIVE_def)

lemma demo_answers: "answers demo_serve demo_commands 0 = [''seal'', ''show state'']"
  by (simp add: demo_commands_def demo_serve_def)

text \<open>
  C25: Whatever the orchestrator, the interpreter and the event handler interleave, the messages that
  the orchestrator has received are the first answers of the interpreter to the commands, complete and in their
  order, and neither end has failed or left the shared page.
\<close>

theorem xen_link_answers:
  assumes "fits serve todo agent" "(link_step serve)\<^sup>*\<^sup>* (link_init todo agent) s"
  shows "(\<exists>rest. xl_got s @ rest = answers serve todo agent) \<and>
     xl_hpc s \<notin> {Host_failed, Host_undefined} \<and> xl_spc s \<notin> {Stub_failed, Stub_undefined}"
proof -
  have ok: "link_ok serve (answers serve todo agent) s" by (rule link_reachable_ok [OF assms(2,1)])
  then have "\<exists>rest. xl_got s @ rest = answers serve todo agent"
    by (cases "xl_hpc s") (auto simp: link_ok_def owes_def asked_def stub_idle_def answering_def replying_def received_def)
  moreover from ok have "xl_spc s \<notin> {Stub_failed, Stub_undefined} \<and> xl_hpc s \<notin> {Host_failed, Host_undefined}"
    by (cases "xl_hpc s") (auto simp: link_ok_def stub_idle_def notified_def answering_def)
  ultimately show ?thesis by simp
qed

theorem xen_link_answers_witness:
  "\<exists>s. (link_step demo_serve)\<^sup>*\<^sup>* (link_init demo_commands 0) s \<and> s \<noteq> link_init demo_commands 0 \<and>
     (\<exists>rest. xl_got s @ rest = [''seal'', ''show state'']) \<and> xl_hpc s \<noteq> Host_failed"
proof -
  obtain s where s: "(link_step demo_serve)\<^sup>*\<^sup>* (link_init demo_commands 0) s" "lost_wakeup s"
    using overlooked_notification [OF demo_fits] by (auto simp: demo_commands_def)
  from s(2) have "s \<noteq> link_init demo_commands 0" by (auto simp: lost_wakeup_def link_init_def)
  with s(1) xen_link_answers [OF demo_fits s(1)] show ?thesis by (auto simp: demo_answers)
qed

text \<open>
  C26: No run is longer than 9 steps and 15 for each command and 12 for each answer.  A run that cannot go
  on has delivered all answers and closed both ends; or its end waits for an event that the interpreter has
  overlooked.
\<close>

theorem xen_runs_end:
  assumes "fits serve todo agent" "((link_step serve) ^^ k) (link_init todo agent) s"
  shows "k \<le> 9 + (\<Sum>(msg, n) \<leftarrow> todo. 15 + 12 * n) \<and>
     (link_stuck serve s \<longrightarrow> link_done s \<and> xl_got s = answers serve todo agent \<or> lost_wakeup s)"
proof -
  note init = link_ok_init [OF assms(1)]
  have ok: "link_ok serve (answers serve todo agent) s" and work: "9 + todo_work todo = k + link_work s"
    using link_run_work [OF assms(2) init] by (simp_all add: link_init_work)
  from ok have "xl_got s = answers serve todo agent" if "link_done s" using that by (simp add: link_done_def link_ok_def)
  with stuck_cases [OF ok] work show ?thesis unfolding todo_work_def by force
qed

theorem xen_runs_end_witness:
  "\<exists>k s. ((link_step demo_serve) ^^ k) (link_init demo_commands 0) s \<and> k \<le> 63 \<and> lost_wakeup s"
proof -
  obtain s where s: "(link_step demo_serve)\<^sup>*\<^sup>* (link_init demo_commands 0) s" "lost_wakeup s"
    using overlooked_notification [OF demo_fits] by (auto simp: demo_commands_def)
  from s(1) obtain k where k: "((link_step demo_serve) ^^ k) (link_init demo_commands 0) s"
    by (auto simp: rtranclp_power)
  with s(2) xen_runs_end [OF demo_fits k] show ?thesis by (auto simp: demo_commands_def)
qed

text \<open>
  C27: When the interpreter always waits before it is notified, every run that cannot go on has
  delivered all answers of the interpreter, in their order, and has closed both ends; and there is such a run.
\<close>

theorem xen_careful_runs_deliver:
  assumes "fits serve todo agent"
  shows "(\<forall>s. (careful_step serve)\<^sup>*\<^sup>* (link_init todo agent) s \<and> \<not> (\<exists>t. careful_step serve s t) \<longrightarrow>
       link_done s \<and> xl_got s = answers serve todo agent) \<and>
     (\<exists>s. (careful_step serve)\<^sup>*\<^sup>* (link_init todo agent) s \<and> \<not> (\<exists>t. careful_step serve s t))"
proof (intro conjI allI impI)
  fix s
  assume run: "(careful_step serve)\<^sup>*\<^sup>* (link_init todo agent) s \<and> \<not> (\<exists>t. careful_step serve s t)"
  with careful_run_ok [OF _ assms, of s]
  have ok: "link_ok serve (answers serve todo agent) s" "not_overlooked s" by simp_all
  have "link_done s \<or> lost_wakeup s" using stuck_cases [OF ok(1) careful_stuck [OF ok(1)]] run by blast
  with ok(2) have "link_done s" by (auto simp: lost_wakeup_def not_overlooked_def)
  with ok(1) show "link_done s" "xl_got s = answers serve todo agent" by (auto simp: link_done_def link_ok_def)
next
  show "\<exists>s. (careful_step serve)\<^sup>*\<^sup>* (link_init todo agent) s \<and> \<not> (\<exists>t. careful_step serve s t)"
    by (rule careful_run_exists [OF link_ok_init [OF assms]])
qed

theorem xen_careful_runs_deliver_witness:
  "\<exists>s. (careful_step demo_serve)\<^sup>*\<^sup>* (link_init demo_commands 0) s \<and> link_done s \<and> xl_got s = [''seal'', ''show state'']"
  using xen_careful_runs_deliver [OF demo_fits] by (auto simp: demo_answers)

text \<open>
  C28: The interpreter clears the flag of the event handler before it waits for it.  When the
  notification of a command comes before that, the conversation ends there: the orchestrator waits for the status
  and the interpreter for the event, and nothing can go on.
\<close>

theorem wakeup_can_be_lost:
  assumes "fits serve todo agent" "todo \<noteq> []"
  shows "\<exists>s. (link_step serve)\<^sup>*\<^sup>* (link_init todo agent) s \<and> lost_wakeup s \<and> link_stuck serve s \<and> xl_got s = []"
  by (rule overlooked_notification [OF assms])

theorem wakeup_can_be_lost_witness:
  "\<exists>s. (link_step demo_serve)\<^sup>*\<^sup>* (link_init demo_commands 0) s \<and> link_stuck demo_serve s \<and> xl_got s = []"
  using wakeup_can_be_lost [OF demo_fits] by (auto simp: demo_commands_def)

text \<open>
  C30: The bound of the size forgets the byte of the status: of the messages that both ends
  accept, exactly those of the largest size do not fit behind the header, and storing one leaves the shared page.
\<close>

theorem xen_largest_message_overruns:
  assumes "xl_hpc s = Host_send" "xl_todo s = (msg, n) # todo" "length (xl_page s) = page_bytes"
    and "length msg \<le> XEN_MAX_RECEIVE"
  shows "host_send_step s = Some (s\<lparr>xl_hpc := Host_undefined\<rparr>) \<longleftrightarrow> length msg = XEN_MAX_RECEIVE"
proof -
  have "load_message msg (xl_page s) = None \<longleftrightarrow> length msg = XEN_MAX_RECEIVE"
    using assms(3,4) by (auto simp: load_message_def page_write_def page_bytes_def XEN_MAX_RECEIVE_def)
  moreover have "xl_hpc (s\<lparr>xl_page := p, xl_todo := todo, xl_cmd := msg, xl_left := n, xl_hpc := Host_size\<rparr>) = Host_size" for p
    by simp
  ultimately show ?thesis
    using assms(1,2,4) by (auto simp: host_send_step_def split: option.splits dest: arg_cong [where f = xl_hpc])
qed

theorem xen_largest_message_overruns_witness:
  "host_send_step (link_init [(replicate 4092 CHR ''x'', 1)] ()) =
     Some ((link_init [(replicate 4092 CHR ''x'', 1)] ())\<lparr>xl_hpc := Host_undefined\<rparr>)"
  using xen_largest_message_overruns [of "link_init [(replicate 4092 CHR ''x'', 1)] ()" "replicate 4092 CHR ''x''" 1 "[]"]
  by (simp add: link_init_def XEN_MAX_RECEIVE_def set_status_def clear_page_def page_bytes_def)

end
