(* ===== verification/TtyDuct.thy ===== *)
theory TtyDuct
  imports LocalDuct
begin

text \<open>
  The serial line between an orchestrator and an interpreter on a micro-controller: the end of the orchestrator
  (\<open>lib/TTYduct.c\<close>) and that of the Nordic board (\<open>Sancho/Nordic/NRF52840-DK/Sancho/TTYduct.c\<close>).  Messages
  are preceded by their size, as in \<open>LocalDuct\<close>.

  The state of an end has the bytes that are on their way to it and those it wrote.  The orchestrator polls and reads
  what is available.  The board has a handler that the USB library calls when a read is complete,
  and a method that waits until the handler has seen the parts of a message.  The library is not part of the program:
  what it reports is an argument \<open>usb\<close>, and \<open>ep\<close> is the size of a packet.  A wait for bytes that never
  come is \<open>Undef\<close>.
\<close>

section \<open>The end of the orchestrator\<close>

record TTYduct_State =
  ty_poisoned :: bool
  ty_eof :: bool
  ty_error :: int
  ty_in :: "byte list"
  ty_out :: "byte list"

text \<open>Whether a byte is written, what is available, whether \<open>poll\<close>, \<open>ioctl\<close> and \<open>read\<close> succeed.\<close>

record tty_io =
  tio_written :: "byte list \<Rightarrow> byte \<Rightarrow> bool"
  tio_available :: "byte list \<Rightarrow> nat"
  tio_ok :: "byte list \<Rightarrow> bool"
  tio_errno :: int

definition tty_poison :: "TTYduct_State \<Rightarrow> TTYduct_State" where
  "tty_poison S = S\<lparr>ty_poisoned := True\<rparr>"

text \<open>\<open>write\<close> of one byte; its result is ignored.\<close>

definition tty_put :: "tty_io \<Rightarrow> byte \<Rightarrow> TTYduct_State \<Rightarrow> TTYduct_State" where
  "tty_put io b S = (if tio_written io (ty_out S) b then S\<lparr>ty_out := ty_out S @ [b]\<rparr> else S)"

text \<open>The board answers a newline with an at sign; everything else is discarded.\<close>

definition TTYduct_init_device :: "tty_io \<Rightarrow> bool \<Rightarrow> TTYduct_State \<Rightarrow> (unit, TTYduct_State) res" where
  "TTYduct_init_device io opened S =
     (if ty_poisoned S \<or> \<not> opened then Fail (tty_poison S)
      else if CHR ''@'' \<in> set (ty_in S) then Ret () ((tty_put io CHR 0x0A S)\<lparr>ty_in := []\<rparr>)
      else Undef)"

text \<open>
  The size is taken before the pointer is checked.  The loop over the bytes counts with 32 bits: of a longer packet only
  as many bytes are written as the lower 32 bits of its length say.
\<close>

definition counted32 :: "byte list \<Rightarrow> byte list" where
  "counted32 bs = take (unat (of_nat (length bs) :: u32)) bs"

lemma counted32_short: "length bs < 2 ^ 32 \<Longrightarrow> counted32 bs = bs"
  by (simp add: counted32_def unat_of_nat take_bit_nat_eq_self)

definition TTYduct_send_Buffer :: "tty_io \<Rightarrow> buf option \<Rightarrow> TTYduct_State \<Rightarrow> (unit, TTYduct_State) res" where
  "TTYduct_send_Buffer io bf S =
     (case bf of
        None \<Rightarrow> Undef
      | Some b \<Rightarrow>
          if ty_poisoned S \<or> b_poisoned b then Fail (tty_poison S)
          else Ret () (fold (tty_put io) (counted32 (net_bytes (of_nat (buf_size b)) @ b_data b)) S))"

text \<open>At least one byte is available when \<open>poll\<close> returns.\<close>

function tty_read_loop :: "tty_io \<Rightarrow> nat \<Rightarrow> byte list \<Rightarrow> TTYduct_State \<Rightarrow> (byte list, TTYduct_State) res" where
  "tty_read_loop io cnt got S =
     (if cnt = 0 then Ret got S
      else if \<not> tio_ok io (ty_in S) then Fail S
      else if ty_in S = [] then Undef
      else
        (let available = max 1 (min (tio_available io (ty_in S)) (length (ty_in S)));
             amt = min cnt available
         in tty_read_loop io (cnt - amt) (got @ take amt (ty_in S)) (S\<lparr>ty_in := drop amt (ty_in S)\<rparr>)))"
  by pat_completeness auto
termination by (relation "measure (\<lambda>(io, cnt, got, S). cnt)") auto

declare tty_read_loop.simps [simp del]

definition TTYduct_read_buffer :: "tty_io \<Rightarrow> nat \<Rightarrow> TTYduct_State \<Rightarrow> (byte list, TTYduct_State) res" where
  "TTYduct_read_buffer io cnt S = (if cnt = 0 then Fail S else tty_read_loop io cnt [] S)"

definition tty_receive_part ::
  "tty_io \<Rightarrow> nat \<Rightarrow> TTYduct_State \<times> buf \<Rightarrow> (unit, TTYduct_State \<times> buf) res" where
  "tty_receive_part io n = (\<lambda>(S, bf).
     (case TTYduct_read_buffer io n S of
        Undef \<Rightarrow> Undef
      | Fail S1 \<Rightarrow> Fail (S1\<lparr>ty_error := tio_errno io\<rparr>, bf)
      | Ret bs S1 \<Rightarrow>
          (case buf_add bs bf of
             Undef \<Rightarrow> Undef
           | Fail b \<Rightarrow> Fail (S1\<lparr>ty_error := -2\<rparr>, b)
           | Ret _ b \<Rightarrow> Ret () (S1, b))))"

fun tty_receive_blocks ::
  "tty_io \<Rightarrow> nat \<Rightarrow> TTYduct_State \<times> buf \<Rightarrow> (unit, TTYduct_State \<times> buf) res" where
  "tty_receive_blocks io 0 x = Ret () x"
| "tty_receive_blocks io (Suc blocks) x =
     res_bind (tty_receive_part io 1024 x) (\<lambda>_. tty_receive_blocks io blocks)"

text \<open>
  An empty message is the end of the transmission.  A message that is too large ends in \<open>terminal\<close>, a loop that is
  never left.
\<close>

definition TTYduct_receive_Buffer ::
  "tty_io \<Rightarrow> TTYduct_State \<times> buf \<Rightarrow> (unit, TTYduct_State \<times> buf) res" where
  "TTYduct_receive_Buffer io = (\<lambda>(S, bf).
     on_fail (\<lambda>(S, bf). (tty_poison S, bf))
       (if ty_poisoned S \<or> b_poisoned bf then Fail (S, bf)
        else
          res_bind (zoom (\<lambda>S. (S, bf)) (TTYduct_read_buffer io 4 S)) (\<lambda>size (S, bf).
            let rsize = net_value size
            in if rsize = 0 then Ret () (S\<lparr>ty_eof := True\<rparr>, bf)
               else if rsize > MAX_RECEIVE_SIZE then Undef
               else res_bind (tty_receive_blocks io (rsize div 1024) (S, bf))
                      (\<lambda>_ x. if rsize mod 1024 = 0 then Ret () x else tty_receive_part io (rsize mod 1024) x))))"

section \<open>The end of the board\<close>

datatype receive_state = receiving_sync | receiving_size | receiving_block | receiving_residual

text \<open>\<open>nt_request\<close> is the length of the read that the USB library was asked for, into \<open>nt_buffer\<close>.\<close>

record NTTY_State =
  nt_poisoned :: bool
  nt_port_open :: bool
  nt_port_close :: bool
  nt_have_read :: bool
  nt_blocks :: nat
  nt_residual :: nat
  nt_input :: "byte list"
  nt_buffer :: "byte list"
  nt_state :: receive_state
  nt_request :: nat
  nt_in :: "byte list"
  nt_out :: "byte list"

text \<open>The object is initialised, and the port was opened, which asks for one byte.\<close>

definition NTTY_Init :: "nat \<Rightarrow> byte list \<Rightarrow> NTTY_State" where
  "NTTY_Init ep bytes =
     \<lparr>nt_poisoned = False, nt_port_open = True, nt_port_close = False, nt_have_read = False, nt_blocks = 0,
      nt_residual = 0, nt_input = replicate ep NUL, nt_buffer = replicate ep NUL, nt_state = receiving_sync,
      nt_request = 1, nt_in = bytes, nt_out = []\<rparr>"

text \<open>
  The USB library.  A call of \<open>app_usbd_event_queue_process\<close> reports that a number of bytes was received, with the
  length of the read and the bytes on the line as arguments, or that the port was closed, or it never reports anything.
  Of a write, with what was written before, the next thing it reports is the end, or it never does.
\<close>

datatype usb_report = Usb_received nat | Usb_port_closed | Usb_silent

record usb_library =
  usb_rx :: "nat \<Rightarrow> byte list \<Rightarrow> usb_report"
  usb_tx :: "byte list \<Rightarrow> byte list \<Rightarrow> bool"

text \<open>A packet is written, and its end waited for: \<open>None\<close> is waiting for ever.\<close>

definition nt_write :: "usb_library \<Rightarrow> byte list \<Rightarrow> NTTY_State \<Rightarrow> NTTY_State option" where
  "nt_write usb bs S = (if usb_tx usb (nt_out S) bs then Some (S\<lparr>nt_out := nt_out S @ bs\<rparr>) else None)"

text \<open>What the handler does in the states: the next state, and the length of the read that it asks for.\<close>

definition handle_sync :: "usb_library \<Rightarrow> NTTY_State \<Rightarrow> NTTY_State option" where
  "handle_sync usb S =
     (if nt_input S ! 0 = CHR 0x0A
      then map_option (\<lambda>S. S\<lparr>nt_state := receiving_size, nt_request := 4\<rparr>) (nt_write usb ''@'' S)
      else Some (S\<lparr>nt_request := 1\<rparr>))"

definition handle_size :: "nat \<Rightarrow> NTTY_State \<Rightarrow> NTTY_State" where
  "handle_size ep S =
     (let size = net_value (take 4 (nt_input S));
          S1 = S\<lparr>nt_blocks := size div ep, nt_residual := size mod ep\<rparr>
      in if nt_blocks S1 \<noteq> 0
         then S1\<lparr>nt_blocks := nt_blocks S1 - 1, nt_request := ep, nt_state := receiving_block\<rparr>
         else S1\<lparr>nt_request := nt_residual S1, nt_state := receiving_residual\<rparr>)"

definition handle_block :: "nat \<Rightarrow> NTTY_State \<Rightarrow> NTTY_State" where
  "handle_block ep S =
     (if nt_blocks S = 0 then
        (if nt_residual S = 0 then S\<lparr>nt_request := 4, nt_state := receiving_size\<rparr>
         else S\<lparr>nt_request := nt_residual S, nt_state := receiving_residual\<rparr>)
      else S\<lparr>nt_request := ep, nt_blocks := nt_blocks S - 1\<rparr>)"

definition NTTY_receive_handler :: "nat \<Rightarrow> usb_library \<Rightarrow> nat \<Rightarrow> NTTY_State \<Rightarrow> NTTY_State option" where
  "NTTY_receive_handler ep usb read_size S =
     (let S1 = S\<lparr>nt_have_read := 0 < read_size\<rparr>
      in if read_size = 0 then Some S1
         else
           (let S2 = S1\<lparr>nt_input := overwrite (take read_size (nt_buffer S1)) (replicate ep NUL)\<rparr>
            in map_option (\<lambda>S3. S3\<lparr>nt_buffer := replicate ep NUL\<rparr>)
                 (case nt_state S2 of
                    receiving_sync \<Rightarrow> handle_sync usb S2
                  | receiving_size \<Rightarrow> Some (handle_size ep S2)
                  | receiving_block \<Rightarrow> Some (handle_block ep S2)
                  | receiving_residual \<Rightarrow> Some (S2\<lparr>nt_request := 4, nt_state := receiving_size\<rparr>))))"

text \<open>
  One report of the library, with what the handlers of the program make of it.  A report of more bytes than were
  asked for or are on the line has no meaning.  \<open>Usb_stuck\<close> is a handler that does not return.
\<close>

datatype usb_event = Usb_read NTTY_State | Usb_closed NTTY_State | Usb_never | Usb_stuck

definition usb_process :: "nat \<Rightarrow> usb_library \<Rightarrow> NTTY_State \<Rightarrow> usb_event" where
  "usb_process ep usb S =
     (case usb_rx usb (nt_request S) (nt_in S) of
        Usb_silent \<Rightarrow> Usb_never
      | Usb_port_closed \<Rightarrow> Usb_closed (S\<lparr>nt_port_open := False, nt_port_close := True\<rparr>)
      | Usb_received n \<Rightarrow>
          if nt_request S < n \<or> length (nt_in S) < n then Usb_stuck
          else
            (case NTTY_receive_handler ep usb n
                    (S\<lparr>nt_buffer := overwrite (take n (nt_in S)) (nt_buffer S), nt_in := drop n (nt_in S)\<rparr>) of
               None \<Rightarrow> Usb_stuck
             | Some T \<Rightarrow> Usb_read T))"

lemma handler_in:
  "NTTY_receive_handler ep usb n S = Some T \<Longrightarrow> nt_in T = nt_in S \<and> nt_have_read T = (0 < n)"
  by (auto simp: NTTY_receive_handler_def handle_sync_def nt_write_def handle_size_def handle_block_def Let_def
      split: receive_state.splits if_splits)

lemma usb_process_shorter:
  "usb_process ep usb S = Usb_read T \<Longrightarrow> nt_have_read T \<Longrightarrow> length (nt_in T) < length (nt_in S)"
  by (auto simp: usb_process_def Let_def dest!: handler_in split: if_splits usb_report.splits option.splits)

definition NTTY_accept_connection :: "nat \<Rightarrow> usb_library \<Rightarrow> NTTY_State \<Rightarrow> (bool, NTTY_State) res" where
  "NTTY_accept_connection ep usb S =
     (if nt_state S = receiving_sync then
        (case usb_process ep usb S of
           Usb_read T \<Rightarrow> Ret False T | Usb_closed T \<Rightarrow> Ret False T | Usb_never \<Rightarrow> Ret False S | Usb_stuck \<Rightarrow> Undef)
      else Ret (nt_port_open S) S)"

text \<open>The message is written in packets.\<close>

fun nt_write_blocks :: "nat \<Rightarrow> usb_library \<Rightarrow> nat \<Rightarrow> byte list \<Rightarrow> NTTY_State \<Rightarrow> NTTY_State option" where
  "nt_write_blocks ep usb 0 bs S = (if bs = [] then Some S else nt_write usb bs S)"
| "nt_write_blocks ep usb (Suc blocks) bs S =
     (case nt_write usb (take ep bs) S of
        None \<Rightarrow> None
      | Some T \<Rightarrow> nt_write_blocks ep usb blocks (drop ep bs) T)"

text \<open>The sizes of the board have 32 bits.\<close>

definition NTTY_send_Buffer :: "nat \<Rightarrow> usb_library \<Rightarrow> buf option \<Rightarrow> NTTY_State \<Rightarrow> (unit, NTTY_State) res" where
  "NTTY_send_Buffer ep usb bf S =
     (case bf of
        None \<Rightarrow> Undef
      | Some b \<Rightarrow>
          if nt_poisoned S \<or> b_poisoned b then Fail (S\<lparr>nt_poisoned := True\<rparr>)
          else
            (let packet = counted32 (net_bytes (of_nat (buf_size b)) @ b_data b)
             in (case nt_write_blocks ep usb (length packet div ep) packet S of None \<Rightarrow> Undef | Some T \<Rightarrow> Ret () T)))"

text \<open>
  The loops that wait while the handler is in a state: when it has read, \<open>amount\<close> bytes of its input are added.
  A report of no bytes changes nothing that the library looks at, so that it is repeated for ever.
\<close>

function rx_loop ::
  "nat \<Rightarrow> usb_library \<Rightarrow> receive_state \<Rightarrow> (NTTY_State \<Rightarrow> nat) \<Rightarrow> NTTY_State \<times> buf \<Rightarrow> (unit, NTTY_State \<times> buf) res" where
  "rx_loop ep usb waiting amount x =
     (case x of (S, bf) \<Rightarrow>
        if nt_state S \<noteq> waiting then Ret () (S, bf)
        else
          (case usb_process ep usb S of
             Usb_never \<Rightarrow> Undef
           | Usb_stuck \<Rightarrow> Undef
           | Usb_closed T \<Rightarrow> Fail (T, bf)
           | Usb_read T \<Rightarrow>
               if nt_port_close T then Fail (T, bf)
               else if \<not> nt_have_read T then Undef
               else
                 (case buf_add (take (amount T) (nt_input T)) bf of
                    Undef \<Rightarrow> Undef
                  | Fail b \<Rightarrow> Fail (T\<lparr>nt_have_read := False\<rparr>, b)
                  | Ret _ b \<Rightarrow> rx_loop ep usb waiting amount (T\<lparr>nt_have_read := False\<rparr>, b))))"
  by pat_completeness auto
termination
  by (relation "measure (\<lambda>(ep, usb, waiting, amount, S, bf). length (nt_in S))") (auto dest: usb_process_shorter)

declare rx_loop.simps [simp del]

text \<open>The wait for the size looks only at the state.\<close>

function size_loop :: "nat \<Rightarrow> usb_library \<Rightarrow> NTTY_State \<Rightarrow> (unit, NTTY_State) res" where
  "size_loop ep usb S =
     (if nt_state S \<noteq> receiving_size then Ret () S
      else (case usb_process ep usb S of
              Usb_never \<Rightarrow> Undef
            | Usb_stuck \<Rightarrow> Undef
            | Usb_closed T \<Rightarrow> Fail T
            | Usb_read T \<Rightarrow>
                if nt_port_close T then Fail T else if \<not> nt_have_read T then Undef else size_loop ep usb T))"
  by pat_completeness auto
termination by (relation "measure (\<lambda>(ep, usb, S). length (nt_in S))") (auto dest: usb_process_shorter)

declare size_loop.simps [simp del]

definition nt_reset_input :: "nat \<Rightarrow> NTTY_State \<Rightarrow> NTTY_State" where
  "nt_reset_input ep S =
     S\<lparr>nt_input := replicate ep NUL, nt_buffer := replicate ep NUL, nt_blocks := 0, nt_residual := 0\<rparr>"

definition nt_forget_read :: "NTTY_State \<times> buf \<Rightarrow> (unit, NTTY_State \<times> buf) res" where
  "nt_forget_read = assign (\<lambda>(S, bf). (S\<lparr>nt_have_read := False\<rparr>, bf))"

text \<open>A closed port makes the board wait for the next connection; other failures poison the object.\<close>

definition NTTY_receive_Buffer ::
  "nat \<Rightarrow> usb_library \<Rightarrow> NTTY_State \<times> buf \<Rightarrow> (unit, NTTY_State \<times> buf) res" where
  "NTTY_receive_Buffer ep usb = (\<lambda>(S, bf).
     if nt_poisoned S \<or> b_poisoned bf then Fail ((nt_reset_input ep S)\<lparr>nt_poisoned := True\<rparr>, bf)
     else
       (case steps
          [(\<lambda>(S, bf). zoom (\<lambda>S. (S, bf)) (size_loop ep usb S)),
           nt_forget_read,
           rx_loop ep usb receiving_block (\<lambda>_. ep),
           nt_forget_read,
           rx_loop ep usb receiving_residual nt_residual] (S, bf) of
          Undef \<Rightarrow> Undef
        | Ret _ (S1, b) \<Rightarrow> Ret () (nt_reset_input ep S1, b)
        | Fail (S1, b) \<Rightarrow>
            Fail (if nt_port_close S1 then (nt_reset_input ep S1)\<lparr>nt_state := receiving_sync\<rparr>
                  else (nt_reset_input ep S1)\<lparr>nt_poisoned := True\<rparr>, b)))"

end
