(* ===== verification/TtyDuctProps.thy ===== *)
theory TtyDuctProps
  imports TtyDuct
begin

text \<open>What one end of the serial line sends is what the other end receives, in both directions.\<close>

section \<open>The end of the orchestrator\<close>

text \<open>A line on which every byte is written and every system call succeeds.\<close>

definition tty_works :: "tty_io \<Rightarrow> bool" where
  "tty_works io \<longleftrightarrow> (\<forall>bs b. tio_written io bs b) \<and> (\<forall>bs. tio_ok io bs)"

lemma tty_put_all: "tty_works io \<Longrightarrow> fold (tty_put io) bs S = S\<lparr>ty_out := ty_out S @ bs\<rparr>"
  by (induction bs arbitrary: S) (simp_all add: tty_put_def tty_works_def)

lemma tty_send:
  assumes "tty_works io" "\<not> ty_poisoned S" "length (packet msg) < 2 ^ 32"
  shows "TTYduct_send_Buffer io (Some \<lparr>b_poisoned = False, b_data = msg\<rparr>) S = Ret () (S\<lparr>ty_out := ty_out S @ packet msg\<rparr>)"
  using assms counted32_short [of "packet msg"] by (simp add: TTYduct_send_Buffer_def tty_put_all packet_def buf_size_def)

text \<open>However much is available at a time.\<close>

lemma tty_read_ok:
  assumes "tty_works io" "ty_in S = bs @ rest" "cnt = length bs"
  shows "tty_read_loop io cnt got S = Ret (got @ bs) (S\<lparr>ty_in := rest\<rparr>)"
  using assms
proof (induction io cnt got S arbitrary: bs rule: tty_read_loop.induct)
  case (1 io cnt got S)
  show ?case
  proof (cases "bs = []")
    case False
    let ?n = "min cnt (max 1 (min (tio_available io (ty_in S)) (length (ty_in S))))"
    have n: "0 < ?n" "?n \<le> length bs" using 1(4) False by auto
    have "tty_read_loop io (cnt - ?n) (got @ take ?n (ty_in S)) (S\<lparr>ty_in := drop ?n (ty_in S)\<rparr>) =
        Ret ((got @ take ?n (ty_in S)) @ drop ?n bs) (S\<lparr>ty_in := drop ?n (ty_in S)\<rparr>\<lparr>ty_in := rest\<rparr>)"
      by (rule 1(1)) (use 1(2-4) False n in \<open>auto simp: tty_works_def\<close>)
    with 1(2-4) False n show ?thesis
      by (subst tty_read_loop.simps) (simp add: tty_works_def Let_def)
  qed (use 1 in \<open>simp add: tty_read_loop.simps\<close>)
qed

lemma tty_part_ok:
  assumes "tty_works io" "ty_in S = bs @ rest" "n = length bs" "bs \<noteq> []" "\<not> b_poisoned bf"
  shows "tty_receive_part io n (S, bf) = Ret () (S\<lparr>ty_in := rest\<rparr>, bf\<lparr>b_data := b_data bf @ bs\<rparr>)"
  using tty_read_ok [OF assms(1-3), of "[]"] assms(3-5)
  by (simp add: tty_receive_part_def TTYduct_read_buffer_def buf_add_def)

lemma tty_blocks_ok:
  assumes "tty_works io" "ty_in S = bs @ rest" "length bs = k * 1024" "\<not> b_poisoned bf"
  shows "tty_receive_blocks io k (S, bf) = Ret () (S\<lparr>ty_in := rest\<rparr>, bf\<lparr>b_data := b_data bf @ bs\<rparr>)"
  using assms
proof (induction k arbitrary: S bs bf)
  case (Suc k)
  let ?S = "S\<lparr>ty_in := drop 1024 bs @ rest\<rparr>" and ?bf = "bf\<lparr>b_data := b_data bf @ take 1024 bs\<rparr>"
  have "take 1024 bs \<noteq> []" using Suc.prems(3) by auto
  then have part: "tty_receive_part io 1024 (S, bf) = Ret () (?S, ?bf)"
    by (intro tty_part_ok) (use Suc.prems in simp_all)
  have "tty_receive_blocks io k (?S, ?bf) =
      Ret () (?S\<lparr>ty_in := rest\<rparr>, ?bf\<lparr>b_data := b_data ?bf @ drop 1024 bs\<rparr>)"
    by (rule Suc.IH) (use Suc.prems in simp_all)
  with part show ?case by simp
qed simp

lemma tty_receive:
  assumes "tty_works io" "\<not> ty_poisoned S" "\<not> b_poisoned bf"
    and "ty_in S = packet msg @ rest" "msg \<noteq> []" "length msg \<le> MAX_RECEIVE_SIZE"
  shows "TTYduct_receive_Buffer io (S, bf) = Ret () (S\<lparr>ty_in := rest\<rparr>, bf\<lparr>b_data := b_data bf @ msg\<rparr>)"
proof -
  let ?n = "length msg"
  let ?a = "take (?n div 1024 * 1024) msg" and ?b = "drop (?n div 1024 * 1024) msg"
  let ?S = "S\<lparr>ty_in := msg @ rest\<rparr>" and ?bf = "bf\<lparr>b_data := b_data bf @ ?a\<rparr>"
  have n: "net_value (net_bytes (of_nat ?n)) = ?n"
    using assms(6) by (simp add: MAX_RECEIVE_SIZE_def unat_of_nat take_bit_nat_eq_self)
  have size: "TTYduct_read_buffer io 4 S = Ret (net_bytes (of_nat ?n)) ?S"
    using tty_read_ok [OF assms(1), of S "net_bytes (of_nat ?n)" "msg @ rest" 4 "[]"] assms(4)
    by (simp add: TTYduct_read_buffer_def packet_def)
  have "msg @ rest = ?a @ ?b @ rest" by simp
  then have blocks: "tty_receive_blocks io (?n div 1024) (?S, bf) = Ret () (?S\<lparr>ty_in := ?b @ rest\<rparr>, ?bf)"
    by (intro tty_blocks_ok) (use assms in simp_all)
  have len: "length ?b = ?n mod 1024" by (simp add: minus_div_mult_eq_mod)
  have data: "b_data ?bf @ ?b = b_data bf @ msg" by simp
  show ?thesis
  proof (cases "?n mod 1024 = 0")
    case True
    with len have "?b = []" by simp
    with size blocks n assms(2,3,5,6) True show ?thesis by (simp add: TTYduct_receive_Buffer_def Let_def)
  next
    case False
    then have "tty_receive_part io (?n mod 1024) (?S\<lparr>ty_in := ?b @ rest\<rparr>, ?bf) =
        Ret () (?S\<lparr>ty_in := ?b @ rest\<rparr>\<lparr>ty_in := rest\<rparr>, ?bf\<lparr>b_data := b_data ?bf @ ?b\<rparr>)"
      by (intro tty_part_ok) (use assms len in auto)
    with size blocks n assms(2,3,5,6) False data show ?thesis by (simp add: TTYduct_receive_Buffer_def Let_def)
  qed
qed

section \<open>The end of the board\<close>

text \<open>
  What is documented of the USB library: a read is complete when as many bytes have come as were asked for, and the end
  of a write is reported.
\<close>

definition usb_works :: "usb_library \<Rightarrow> bool" where
  "usb_works usb \<longleftrightarrow>
     (\<forall>n line. 0 < n \<and> n \<le> length line \<longrightarrow> usb_rx usb n line = Usb_received n) \<and> (\<forall>out bs. bs \<noteq> [] \<longrightarrow> usb_tx usb out bs)"

lemma nt_write_blocks_all:
  "usb_works usb \<Longrightarrow> 0 < ep \<Longrightarrow> blocks * ep \<le> length bs \<Longrightarrow>
   nt_write_blocks ep usb blocks bs S = Some (S\<lparr>nt_out := nt_out S @ bs\<rparr>)"
proof (induction blocks arbitrary: bs S)
  case (Suc blocks)
  then have "blocks * ep \<le> length (drop ep bs)" "take ep bs \<noteq> []" by auto
  with Suc.IH [OF Suc.prems(1,2) this(1)] Suc.prems(1) show ?case by (simp add: nt_write_def usb_works_def)
qed (simp add: nt_write_def usb_works_def)

lemma nt_send:
  assumes "usb_works usb" "0 < ep" "\<not> nt_poisoned S" "length (packet msg) < 2 ^ 32"
  shows "NTTY_send_Buffer ep usb (Some \<lparr>b_poisoned = False, b_data = msg\<rparr>) S = Ret () (S\<lparr>nt_out := nt_out S @ packet msg\<rparr>)"
  using assms(3,4) nt_write_blocks_all [OF assms(1,2), of "length (packet msg) div ep" "packet msg" S]
    counted32_short [of "packet msg"]
  by (simp add: NTTY_send_Buffer_def packet_def buf_size_def Let_def)

text \<open>The board between two messages.\<close>

definition nt_ready :: "NTTY_State \<Rightarrow> bool" where
  "nt_ready S \<longleftrightarrow> \<not> nt_poisoned S \<and> \<not> nt_port_close S \<and> nt_state S = receiving_size \<and> nt_request S = 4"

text \<open>A state of the board, with the fields that the handler and the loops change.\<close>

definition nt_at ::
  "nat \<Rightarrow> receive_state \<Rightarrow> nat \<Rightarrow> nat \<Rightarrow> nat \<Rightarrow> byte list \<Rightarrow> bool \<Rightarrow> byte list \<Rightarrow> NTTY_State \<Rightarrow> NTTY_State" where
  "nt_at ep st blocks residual request input have bytes S =
     S\<lparr>nt_state := st, nt_blocks := blocks, nt_residual := residual, nt_request := request, nt_in := input,
       nt_have_read := have, nt_input := bytes, nt_buffer := replicate ep NUL\<rparr>"

lemma nt_at_simps [simp]:
  "nt_state (nt_at ep st b r q i h x S) = st" "nt_blocks (nt_at ep st b r q i h x S) = b"
  "nt_residual (nt_at ep st b r q i h x S) = r" "nt_request (nt_at ep st b r q i h x S) = q"
  "nt_in (nt_at ep st b r q i h x S) = i" "nt_have_read (nt_at ep st b r q i h x S) = h"
  "nt_input (nt_at ep st b r q i h x S) = x" "nt_buffer (nt_at ep st b r q i h x S) = replicate ep NUL"
  "nt_poisoned (nt_at ep st b r q i h x S) = nt_poisoned S"
  "nt_port_close (nt_at ep st b r q i h x S) = nt_port_close S"
  "nt_port_open (nt_at ep st b r q i h x S) = nt_port_open S" "nt_out (nt_at ep st b r q i h x S) = nt_out S"
  "(nt_at ep st b r q i h x S)\<lparr>nt_have_read := h'\<rparr> = nt_at ep st b r q i h' x S"
  by (simp_all add: nt_at_def)

text \<open>The answer to the first newline.\<close>

definition synced :: "NTTY_State \<Rightarrow> NTTY_State" where
  "synced S =
     (if nt_input S ! 0 = CHR 0x0A
      then S\<lparr>nt_out := nt_out S @ ''@'', nt_state := receiving_size, nt_request := 4\<rparr> else S\<lparr>nt_request := 1\<rparr>)"

lemma handle_sync_works: "usb_works usb \<Longrightarrow> handle_sync usb S = Some (synced S)"
  by (simp add: usb_works_def handle_sync_def nt_write_def synced_def)

lemma buffer_unseen:
  "(synced (S\<lparr>nt_buffer := u\<rparr>))\<lparr>nt_buffer := v\<rparr> = (synced S)\<lparr>nt_buffer := v\<rparr>"
  "(handle_size ep (S\<lparr>nt_buffer := u\<rparr>))\<lparr>nt_buffer := v\<rparr> = (handle_size ep S)\<lparr>nt_buffer := v\<rparr>"
  "(handle_block ep (S\<lparr>nt_buffer := u\<rparr>))\<lparr>nt_buffer := v\<rparr> = (handle_block ep S)\<lparr>nt_buffer := v\<rparr>"
  by (simp_all add: synced_def handle_size_def handle_block_def Let_def)

text \<open>A completed read: what the handler makes of it.\<close>

lemma usb_process_read:
  assumes "q = length bs" "bs \<noteq> []" "length bs \<le> ep" and works: "usb_works usb"
  shows "\<exists>x. take (length bs) x = bs \<and>
     usb_process ep usb (nt_at ep st b r q (bs @ rest) h y S) = Usb_read
       (case st of
          receiving_sync \<Rightarrow> (synced (nt_at ep st b r q rest True x S))\<lparr>nt_buffer := replicate ep NUL\<rparr>
        | receiving_size \<Rightarrow> (handle_size ep (nt_at ep st b r q rest True x S))\<lparr>nt_buffer := replicate ep NUL\<rparr>
        | receiving_block \<Rightarrow> (handle_block ep (nt_at ep st b r q rest True x S))\<lparr>nt_buffer := replicate ep NUL\<rparr>
        | receiving_residual \<Rightarrow> nt_at ep receiving_size b r 4 rest True x S)"
proof -
  let ?x = "overwrite bs (replicate ep NUL)" and ?S = "nt_at ep st b r q (bs @ rest) h y S"
  have x: "take (length bs) ?x = bs" by (simp add: overwrite_def)
  have seen: "(nt_at ep st b r q (bs @ rest) h y S)\<lparr>nt_buffer := u, nt_in := rest, nt_have_read := True, nt_input := ?x\<rparr> =
      (nt_at ep st b r q rest True ?x S)\<lparr>nt_buffer := u\<rparr>" for u st q
    by (simp add: nt_at_def)
  have residual: "(nt_at ep st b r q rest True ?x S)\<lparr>nt_buffer := u, nt_request := 4, nt_state := receiving_size,
      nt_buffer := replicate ep NUL\<rparr> = nt_at ep receiving_size b r 4 rest True ?x S" for u st q
    by (simp add: nt_at_def)
  have "usb_rx usb q (bs @ rest) = Usb_received q" using assms by (simp add: usb_works_def)
  then have "usb_process ep usb ?S = (case NTTY_receive_handler ep usb q
      (?S\<lparr>nt_buffer := overwrite bs (replicate ep NUL), nt_in := rest\<rparr>) of None \<Rightarrow> Usb_stuck | Some T \<Rightarrow> Usb_read T)"
    using assms by (simp add: usb_process_def)
  moreover have "take q (overwrite bs (replicate ep NUL)) = bs" using assms(1) x by simp
  ultimately show ?thesis
    using assms(1,2) by (intro exI [of _ ?x] conjI x)
      (simp add: NTTY_receive_handler_def Let_def seen handle_sync_works [OF works] buffer_unseen residual
        split: receive_state.split)
qed

lemma rx_loop_skips: "nt_state S \<noteq> waiting \<Longrightarrow> rx_loop ep usb waiting amount (S, bf) = Ret () (S, bf)"
  by (subst rx_loop.simps) simp

lemma size_loop_skips: "nt_state S \<noteq> receiving_size \<Longrightarrow> size_loop ep usb S = Ret () S"
  by (subst size_loop.simps) simp

lemma net_bytes_not_Nil [simp]: "net_bytes w \<noteq> []"
  using length_net_bytes [of w] by (metis list.size(3) zero_neq_numeral)

lemma size_loop_ok:
  assumes "4 \<le> ep" "n < 2 ^ 32" "\<not> nt_port_close S" and works: "usb_works usb"
  shows "\<exists>x. size_loop ep usb (nt_at ep receiving_size b r 4 (net_bytes (of_nat n) @ rest) h y S) =
     Ret () (nt_at ep (if n div ep = 0 then receiving_residual else receiving_block) (n div ep - 1) (n mod ep)
       (if n div ep = 0 then n mod ep else ep) rest True x S)"
proof -
  have n: "unat (of_nat n :: u32) = n"
    using assms(2) by (simp add: unat_of_nat take_bit_nat_eq_self)
  obtain x where x: "take 4 x = net_bytes (of_nat n)"
    "usb_process ep usb (nt_at ep receiving_size b r 4 (net_bytes (of_nat n) @ rest) h y S) = Usb_read
       ((handle_size ep (nt_at ep receiving_size b r 4 rest True x S))\<lparr>nt_buffer := replicate ep NUL\<rparr>)"
    using usb_process_read [of 4 "net_bytes (of_nat n)" ep usb receiving_size b r rest h y S, OF _ _ _ works] assms(1)
    by auto
  have "(handle_size ep (nt_at ep receiving_size b r 4 rest True x S))\<lparr>nt_buffer := replicate ep NUL\<rparr> =
      nt_at ep (if n div ep = 0 then receiving_residual else receiving_block) (n div ep - 1) (n mod ep)
       (if n div ep = 0 then n mod ep else ep) rest True x S"
    using x(1) by (simp add: handle_size_def nt_at_def Let_def n)
  with x(2) assms(3) show ?thesis
    by (intro exI [of _ x]) (subst size_loop.simps, simp add: size_loop_skips)
qed

lemma block_loop_ok:
  assumes "0 < ep" "length bs = Suc b * ep" "\<not> b_poisoned bf" "\<not> nt_port_close S" and works: "usb_works usb"
  shows "\<exists>x. rx_loop ep usb receiving_block (\<lambda>_. ep) (nt_at ep receiving_block b r ep (bs @ rest) False y S, bf) =
     Ret () (nt_at ep (if r = 0 then receiving_size else receiving_residual) 0 r (if r = 0 then 4 else r) rest False x S,
       bf\<lparr>b_data := b_data bf @ bs\<rparr>)"
  using assms
proof (induction b arbitrary: bs bf y)
  case 0
  obtain x where x: "take ep x = bs"
    "usb_process ep usb (nt_at ep receiving_block 0 r ep (bs @ rest) False y S) = Usb_read
       ((handle_block ep (nt_at ep receiving_block 0 r ep rest True x S))\<lparr>nt_buffer := replicate ep NUL\<rparr>)"
    using usb_process_read [of ep bs ep usb receiving_block 0 r rest False y S, OF _ _ _ works] 0 by auto
  have "(handle_block ep (nt_at ep receiving_block 0 r ep rest True x S))\<lparr>nt_buffer := replicate ep NUL\<rparr> =
      nt_at ep (if r = 0 then receiving_size else receiving_residual) 0 r (if r = 0 then 4 else r) rest True x S"
    by (simp add: handle_block_def nt_at_def)
  with x 0(3,4) show ?case
    by (intro exI [of _ x]) (subst rx_loop.simps, simp add: buf_add_def rx_loop_skips)
next
  case (Suc b)
  let ?b = "take ep bs" and ?bs = "drop ep bs"
  have "bs \<noteq> []" using Suc.prems(1,2) by auto
  then obtain x where x: "take ep x = ?b"
    "usb_process ep usb (nt_at ep receiving_block (Suc b) r ep (?b @ ?bs @ rest) False y S) = Usb_read
       ((handle_block ep (nt_at ep receiving_block (Suc b) r ep (?bs @ rest) True x S))\<lparr>nt_buffer := replicate ep NUL\<rparr>)"
    using usb_process_read [of ep ?b ep usb receiving_block "Suc b" r "?bs @ rest" False y S, OF _ _ _ works] Suc.prems(1,2) by auto
  have handled: "(handle_block ep (nt_at ep receiving_block (Suc b) r ep (?bs @ rest) True x S))\<lparr>nt_buffer := replicate ep NUL\<rparr> =
      nt_at ep receiving_block b r ep (?bs @ rest) True x S"
    by (simp add: handle_block_def nt_at_def)
  let ?bf = "bf\<lparr>b_data := b_data bf @ ?b\<rparr>"
  have cut: "bs @ rest = ?b @ ?bs @ rest" by simp
  have "rx_loop ep usb receiving_block (\<lambda>_. ep) (nt_at ep receiving_block (Suc b) r ep (bs @ rest) False y S, bf) =
      rx_loop ep usb receiving_block (\<lambda>_. ep) (nt_at ep receiving_block b r ep (?bs @ rest) False x S, ?bf)"
    unfolding cut using x handled Suc.prems(3,4) by (subst rx_loop.simps) (simp add: buf_add_def)
  moreover have "length ?bs = Suc b * ep" using Suc.prems(2) by simp
  ultimately show ?case using Suc.IH [of ?bs ?bf x] Suc.prems by simp
qed

lemma residual_loop_ok:
  assumes "length bs = r" "bs \<noteq> []" "r \<le> ep" "\<not> b_poisoned bf" "\<not> nt_port_close S" and works: "usb_works usb"
  shows "\<exists>x. rx_loop ep usb receiving_residual nt_residual (nt_at ep receiving_residual b r r (bs @ rest) False y S, bf) =
     Ret () (nt_at ep receiving_size b r 4 rest False x S, bf\<lparr>b_data := b_data bf @ bs\<rparr>)"
proof -
  obtain x where "take r x = bs"
    "usb_process ep usb (nt_at ep receiving_residual b r r (bs @ rest) False y S) = Usb_read
       (nt_at ep receiving_size b r 4 rest True x S)"
    using usb_process_read [of r bs ep usb receiving_residual b r rest False y S, OF _ _ _ works] assms(1-3) by auto
  with assms(4,5) show ?thesis
    by (intro exI [of _ x]) (subst rx_loop.simps, simp add: buf_add_def rx_loop_skips)
qed


text \<open>The board between two messages.\<close>

definition nt_idle :: "nat \<Rightarrow> byte list \<Rightarrow> bool \<Rightarrow> byte list \<Rightarrow> NTTY_State \<Rightarrow> NTTY_State" where
  "nt_idle ep input have bytes S = nt_at ep receiving_size 0 0 4 input have bytes S"

lemma nt_receive:
  assumes "4 \<le> ep" "msg \<noteq> []" "length msg < 2 ^ 32" "\<not> b_poisoned bf" "\<not> nt_poisoned S" "\<not> nt_port_close S"
    and works: "usb_works usb"
  shows "\<exists>h. NTTY_receive_Buffer ep usb (nt_idle ep (packet msg @ rest) hr y S, bf) =
     Ret () (nt_idle ep rest h (replicate ep NUL) S, bf\<lparr>b_data := b_data bf @ msg\<rparr>)"
proof -
  let ?n = "length msg"
  let ?k = "?n div ep" and ?r = "?n mod ep"
  let ?a = "take (?k * ep) msg" and ?b = "drop (?k * ep) msg"
  have parts: "length ?a = ?k * ep" "length ?b = ?r" "msg = ?a @ ?b"
    by (simp_all add: minus_div_mult_eq_mod)
  have reset: "nt_reset_input ep (nt_at ep receiving_size c d 4 rest h x S) = nt_idle ep rest h (replicate ep NUL) S" for c d h x
    by (simp add: nt_reset_input_def nt_idle_def nt_at_def)
  obtain x where len: "size_loop ep usb (nt_idle ep (packet msg @ rest) hr y S) =
     Ret () (nt_at ep (if ?k = 0 then receiving_residual else receiving_block) (?k - 1) ?r
       (if ?k = 0 then ?r else ep) (msg @ rest) True x S)"
    using size_loop_ok [OF assms(1,3,6) works, of 0 0 "msg @ rest" hr y]
    by (auto simp: nt_idle_def packet_def)
  have open_: "nt_poisoned (nt_idle ep (packet msg @ rest) hr y S) = False" by (simp add: nt_idle_def assms(5))
  show ?thesis
  proof (cases "?k = 0")
    case True
    then have r: "?r = ?n" "?n < ep" using assms(1) by (simp_all add: div_eq_0_iff)
    obtain y where "rx_loop ep usb receiving_residual nt_residual
        (nt_at ep receiving_residual (?k - 1) ?r ?r (msg @ rest) False x S, bf) =
      Ret () (nt_at ep receiving_size (?k - 1) ?r 4 rest False y S, bf\<lparr>b_data := b_data bf @ msg\<rparr>)"
      using residual_loop_ok [of msg ?r ep bf S usb "?k - 1" rest x] r assms(2,4,6) works by auto
    with len True assms(4) open_ show ?thesis
      by (intro exI [of _ False]) (simp add: NTTY_receive_Buffer_def nt_forget_read_def rx_loop_skips reset)
  next
    case False
    then have blocks: "length ?a = Suc (?k - 1) * ep" using parts(1) by simp
    have pos: "0 < ep" using assms(1) by simp
    have cut: "?a @ ?b @ rest = msg @ rest" by simp
    obtain y where block: "rx_loop ep usb receiving_block (\<lambda>_. ep)
        (nt_at ep receiving_block (?k - 1) ?r ep (msg @ rest) False x S, bf) =
      Ret () (nt_at ep (if ?r = 0 then receiving_size else receiving_residual) 0 ?r (if ?r = 0 then 4 else ?r)
        (?b @ rest) False y S, bf\<lparr>b_data := b_data bf @ ?a\<rparr>)"
      using block_loop_ok [OF pos blocks assms(4,6) works, of ?r "?b @ rest" x] unfolding cut by blast
    show ?thesis
    proof (cases "?r = 0")
      case True
      then have "?a = msg" using parts(2) by simp
      with len False block True assms(4) open_ show ?thesis
        by (intro exI [of _ False]) (simp add: NTTY_receive_Buffer_def nt_forget_read_def rx_loop_skips reset)
    next
      case r: False
      have b: "?b \<noteq> []" using parts(2) r by (metis list.size(3))
      let ?bf = "bf\<lparr>b_data := b_data bf @ ?a\<rparr>"
      have small: "?r \<le> ep" using assms(1) by (simp add: less_imp_le)
      obtain z where "rx_loop ep usb receiving_residual nt_residual
          (nt_at ep receiving_residual 0 ?r ?r (?b @ rest) False y S, ?bf) =
        Ret () (nt_at ep receiving_size 0 ?r 4 rest False z S, ?bf\<lparr>b_data := b_data ?bf @ ?b\<rparr>)"
        using residual_loop_ok [of ?b ?r ep ?bf S usb 0 rest y] b parts(2) small assms(4,6) works by auto
      moreover have "b_data ?bf @ ?b = b_data bf @ msg" by simp
      ultimately show ?thesis using len False block r assms(4) open_
        by (intro exI [of _ False]) (simp add: NTTY_receive_Buffer_def nt_forget_read_def rx_loop_skips reset)
    qed
  qed
qed

section \<open>A conversation over the line\<close>

definition wrap :: "byte list \<Rightarrow> buf" where
  "wrap msg = \<lparr>b_poisoned = False, b_data = msg\<rparr>"

text \<open>A command, what the interpreter on the board makes of it, and its answer; each end gets what the other one wrote.\<close>

definition serial_call ::
  "tty_io \<Rightarrow> nat \<Rightarrow> usb_library \<Rightarrow> (byte list \<Rightarrow> 'd \<Rightarrow> byte list \<times> 'd) \<Rightarrow> byte list \<Rightarrow> TTYduct_State \<times> NTTY_State \<times> 'd \<Rightarrow>
   (byte list \<times> TTYduct_State \<times> NTTY_State \<times> 'd) option" where
  "serial_call io ep usb serve msg = (\<lambda>(H, B, d).
     (case TTYduct_send_Buffer io (Some (wrap msg)) H of
        Ret _ H1 \<Rightarrow>
          (case NTTY_receive_Buffer ep usb (B\<lparr>nt_in := nt_in B @ drop (length (ty_out H)) (ty_out H1)\<rparr>, buf_empty) of
             Ret _ (B1, command) \<Rightarrow>
               (case serve (b_data command) d of (answer, d1) \<Rightarrow>
                  (case NTTY_send_Buffer ep usb (Some (wrap answer)) B1 of
                     Ret _ B2 \<Rightarrow>
                       (case TTYduct_receive_Buffer io
                          (H1\<lparr>ty_in := ty_in H1 @ drop (length (nt_out B1)) (nt_out B2)\<rparr>, buf_empty) of
                          Ret _ (H2, reply) \<Rightarrow> Some (b_data reply, H2, B2, d1)
                        | _ \<Rightarrow> None)
                   | _ \<Rightarrow> None))
           | _ \<Rightarrow> None)
      | _ \<Rightarrow> None))"

fun serial_calls ::
  "tty_io \<Rightarrow> nat \<Rightarrow> usb_library \<Rightarrow> (byte list \<Rightarrow> 'd \<Rightarrow> byte list \<times> 'd) \<Rightarrow> byte list list \<Rightarrow> TTYduct_State \<times> NTTY_State \<times> 'd \<Rightarrow>
   byte list list option" where
  "serial_calls io ep usb serve [] x = Some []"
| "serial_calls io ep usb serve (msg # msgs) x =
     (case serial_call io ep usb serve msg x of
        None \<Rightarrow> None
      | Some (reply, x1) \<Rightarrow> map_option (\<lambda>replies. reply # replies) (serial_calls io ep usb serve msgs x1))"

text \<open>The interpreter alone, and what the messages must be.\<close>

fun replies :: "(byte list \<Rightarrow> 'd \<Rightarrow> byte list \<times> 'd) \<Rightarrow> byte list list \<Rightarrow> 'd \<Rightarrow> byte list list" where
  "replies serve [] d = []"
| "replies serve (msg # msgs) d = (case serve msg d of (answer, d1) \<Rightarrow> answer # replies serve msgs d1)"

fun serial_fits :: "(byte list \<Rightarrow> 'd \<Rightarrow> byte list \<times> 'd) \<Rightarrow> byte list list \<Rightarrow> 'd \<Rightarrow> bool" where
  "serial_fits serve [] d = True"
| "serial_fits serve (msg # msgs) d =
     (case serve msg d of (answer, d1) \<Rightarrow>
        msg \<noteq> [] \<and> length (packet msg) \<le> fib_max \<and> answer \<noteq> [] \<and> length answer \<le> MAX_RECEIVE_SIZE \<and> serial_fits serve msgs d1)"

lemma serial_call_ok:
  assumes "tty_works io" "4 \<le> ep" "\<not> ty_poisoned H" "ty_in H = []" "\<not> nt_poisoned S" "\<not> nt_port_close S"
    and "serve msg d = (answer, d1)" "msg \<noteq> []" "length (packet msg) \<le> fib_max" "answer \<noteq> []"
    and "length answer \<le> MAX_RECEIVE_SIZE" "usb_works usb"
  shows "\<exists>H' h S'. serial_call io ep usb serve msg (H, nt_idle ep [] hr y S, d) = Some (answer, H', nt_idle ep [] h (replicate ep NUL) S', d1) \<and>
     \<not> ty_poisoned H' \<and> ty_in H' = [] \<and> \<not> nt_poisoned S' \<and> \<not> nt_port_close S'"
proof -
  let ?H = "H\<lparr>ty_out := ty_out H @ packet msg\<rparr>"
  have send: "TTYduct_send_Buffer io (Some (wrap msg)) H = Ret () ?H"
    using tty_send [OF assms(1,3), of msg] assms(9) by (simp add: wrap_def fib_max_def)
  have line: "(nt_idle ep [] hr y S)\<lparr>nt_in := packet msg\<rparr> = nt_idle ep (packet msg @ []) hr y S"
    by (simp add: nt_idle_def nt_at_def)
  obtain h where receive: "NTTY_receive_Buffer ep usb ((nt_idle ep [] hr y S)\<lparr>nt_in := packet msg\<rparr>, buf_empty) =
      Ret () (nt_idle ep [] h (replicate ep NUL) S, wrap msg)"
  proof -
    have "length msg < 2 ^ 32" using assms(9) by (simp add: packet_def fib_max_def)
    from nt_receive [OF assms(2,8) this _ assms(5,6,12), of buf_empty "[]" hr y] that
    show thesis by (auto simp: line buf_empty_def wrap_def)
  qed
  let ?B = "(nt_idle ep [] h (replicate ep NUL) S)\<lparr>nt_out := nt_out S @ packet answer\<rparr>"
  have idle: "?B = nt_idle ep [] h (replicate ep NUL) (S\<lparr>nt_out := nt_out S @ packet answer\<rparr>)" by (simp add: nt_idle_def nt_at_def)
  have answer: "NTTY_send_Buffer ep usb (Some (wrap answer)) (nt_idle ep [] h (replicate ep NUL) S) = Ret () ?B"
    using nt_send [OF assms(12), of ep "nt_idle ep [] h (replicate ep NUL) S" answer] assms(2,5,11)
    by (simp add: wrap_def nt_idle_def packet_def MAX_RECEIVE_SIZE_def)
  have reply: "TTYduct_receive_Buffer io (?H\<lparr>ty_in := packet answer\<rparr>, buf_empty) = Ret () (?H\<lparr>ty_in := []\<rparr>, wrap answer)"
    using tty_receive [OF assms(1), of "?H\<lparr>ty_in := packet answer\<rparr>" buf_empty answer "[]"] assms(3,10,11)
    by (simp add: buf_empty_def wrap_def)
  have "nt_in (nt_idle ep [] hr y S) = []" "nt_out (nt_idle ep [] h (replicate ep NUL) S) = nt_out S" by (simp_all add: nt_idle_def)
  then have "serial_call io ep usb serve msg (H, nt_idle ep [] hr y S, d) = Some (answer, ?H\<lparr>ty_in := []\<rparr>, ?B, d1)"
    using send receive answer reply assms(4,7) by (simp add: serial_call_def wrap_def)
  then show ?thesis
    using assms(3,5,6) idle
    by (intro exI [of _ "?H\<lparr>ty_in := []\<rparr>"] exI [of _ h] exI [of _ "S\<lparr>nt_out := nt_out S @ packet answer\<rparr>"]) simp
qed

lemma serial_calls_ok:
  assumes "tty_works io" "4 \<le> ep" "\<not> ty_poisoned H" "ty_in H = []" "\<not> nt_poisoned S" "\<not> nt_port_close S"
    and "serial_fits serve msgs d" and works: "usb_works usb"
  shows "serial_calls io ep usb serve msgs (H, nt_idle ep [] hr y S, d) = Some (replies serve msgs d)"
  using assms(3-7)
proof (induction msgs arbitrary: H hr y S d)
  case (Cons msg msgs)
  obtain answer d1 where serve: "serve msg d = (answer, d1)" by fastforce
  with Cons.prems(5) have fits: "msg \<noteq> []" "length (packet msg) \<le> fib_max" "answer \<noteq> []" "length answer \<le> MAX_RECEIVE_SIZE"
    "serial_fits serve msgs d1" by simp_all
  from serial_call_ok [where serve = serve and msg = msg and d = d, OF assms(1,2) Cons.prems(1-4) serve fits(1-4) works, of hr y] obtain H' h S' where
    "serial_call io ep usb serve msg (H, nt_idle ep [] hr y S, d) = Some (answer, H', nt_idle ep [] h (replicate ep NUL) S', d1)"
    "\<not> ty_poisoned H'" "ty_in H' = []" "\<not> nt_poisoned S'" "\<not> nt_port_close S'" by blast
  with Cons.IH [OF this(2-5) fits(5), of h "replicate ep NUL"] serve show ?case by simp
qed simp

text \<open>The board answers the newline of the orchestrator.\<close>

lemma board_connects:
  assumes "4 \<le> ep" and works: "usb_works usb"
  shows "\<exists>x S. NTTY_accept_connection ep usb (NTTY_Init ep [CHR 0x0A]) = Ret False (nt_idle ep [] True x S) \<and>
     nt_out S = ''@'' \<and> \<not> nt_poisoned S \<and> \<not> nt_port_close S"
proof -
  let ?B = "NTTY_Init ep [CHR 0x0A]"
  have B: "?B = nt_at ep receiving_sync 0 0 1 ([CHR 0x0A] @ []) False (replicate ep NUL) ?B"
    by (simp add: NTTY_Init_def nt_at_def)
  obtain x where x: "take 1 x = [CHR 0x0A]" "usb_process ep usb ?B = Usb_read
      ((synced (nt_at ep receiving_sync 0 0 1 [] True x ?B))\<lparr>nt_buffer := replicate ep NUL\<rparr>)"
    using usb_process_read [of 1 "[CHR 0x0A]" ep usb receiving_sync 0 0 "[]" False "replicate ep NUL" ?B, OF _ _ _ works] assms(1)
    unfolding B [symmetric] by auto
  then have "x ! 0 = CHR 0x0A" by (cases x) simp_all
  then have "(synced (nt_at ep receiving_sync 0 0 1 [] True x ?B))\<lparr>nt_buffer := replicate ep NUL\<rparr> =
      nt_idle ep [] True x (?B\<lparr>nt_out := ''@''\<rparr>)"
    by (simp add: synced_def nt_idle_def nt_at_def NTTY_Init_def)
  moreover have "nt_state ?B = receiving_sync" by (simp add: NTTY_Init_def)
  ultimately show ?thesis
    using x(2) by (intro exI [of _ x] exI [of _ "?B\<lparr>nt_out := ''@''\<rparr>"])
      (simp add: NTTY_accept_connection_def NTTY_Init_def [of ep])
qed

section \<open>Properties\<close>

text \<open>
  C29: After the two ends have connected, the orchestrator receives for every command exactly what
  the interpreter on the board answers to it, in however many pieces the line delivers the messages and however long the
  packets of the board are.  No message is empty, the commands with their size fit the buffer of the sender, and the
  answers have at most 262144 bytes; the USB library reports a read when what was asked for has come.
\<close>

theorem serial_conversation:
  assumes "tty_works io" "usb_works usb" "4 \<le> ep" "\<not> ty_poisoned H" "serial_fits serve msgs d"
  shows "\<exists>B H'. NTTY_accept_connection ep usb (NTTY_Init ep [CHR 0x0A]) = Ret False B \<and>
     TTYduct_init_device io True (H\<lparr>ty_in := nt_out B\<rparr>) = Ret () H' \<and>
     serial_calls io ep usb serve msgs (H', B, d) = Some (replies serve msgs d)"
proof -
  obtain x S where board: "NTTY_accept_connection ep usb (NTTY_Init ep [CHR 0x0A]) = Ret False (nt_idle ep [] True x S)"
    "nt_out S = ''@''" "\<not> nt_poisoned S" "\<not> nt_port_close S"
    using board_connects [OF assms(3,2)] by blast
  let ?B = "nt_idle ep [] True x S"
  let ?H = "(tty_put io CHR 0x0A (H\<lparr>ty_in := nt_out ?B\<rparr>))\<lparr>ty_in := []\<rparr>"
  have "nt_out ?B = ''@''" using board(2) by (simp add: nt_idle_def)
  then have "TTYduct_init_device io True (H\<lparr>ty_in := nt_out ?B\<rparr>) = Ret () ?H"
    using assms(4) by (simp add: TTYduct_init_device_def tty_put_def)
  moreover have "\<not> ty_poisoned ?H" "ty_in ?H = []" using assms(4) by (simp_all add: tty_put_def)
  ultimately show ?thesis
    using board(1) serial_calls_ok [OF assms(1,3) _ _ board(3,4) assms(5,2), of ?H True x] by blast
qed

definition demo_line :: tty_io where
  "demo_line = \<lparr>tio_written = (\<lambda>_ _. True), tio_available = (\<lambda>_. 3), tio_ok = (\<lambda>_. True), tio_errno = 0\<rparr>"

definition demo_usb :: usb_library where
  "demo_usb =
     \<lparr>usb_rx = (\<lambda>n line. if 0 < n \<and> n \<le> length line then Usb_received n else Usb_silent), usb_tx = (\<lambda>_ _. True)\<rparr>"

definition demo_host :: TTYduct_State where
  "demo_host = \<lparr>ty_poisoned = False, ty_eof = False, ty_error = 0, ty_in = [], ty_out = []\<rparr>"

lemma demo_works: "tty_works demo_line" "usb_works demo_usb" "\<not> ty_poisoned demo_host"
  by (simp_all add: tty_works_def usb_works_def demo_line_def demo_usb_def demo_host_def)

theorem serial_conversation_witness:
  "\<exists>B H'. NTTY_accept_connection 64 demo_usb (NTTY_Init 64 [CHR 0x0A]) = Ret False B \<and>
     serial_calls demo_line 64 demo_usb (\<lambda>msg n. (msg @ msg, Suc n)) [''show state'', ''seal''] (H', B, 0 :: nat) =
       Some [''show stateshow state'', ''sealseal'']"
proof -
  have "serial_fits (\<lambda>msg n. (msg @ msg, Suc n)) [''show state'', ''seal''] (0 :: nat)"
    by (simp add: MAX_RECEIVE_SIZE_def packet_def fib_max_def)
  with serial_conversation [OF demo_works(1,2) _ demo_works(3),
      of 64 "\<lambda>msg n. (msg @ msg, Suc n)" "[''show state'', ''seal'']" 0]
  show ?thesis by auto
qed

text \<open>
  Messages of other sizes end a conversation.  The orchestrator never returns from a message that
  is announced as larger than its limit, and takes an empty one for the end of the transmission; the board waits for
  ever for the rest of an empty message, when the library reports nothing of a read of no bytes.
\<close>

theorem serial_bad_sizes:
  assumes "tty_works io" "\<not> ty_poisoned H" "\<not> b_poisoned bf" "MAX_RECEIVE_SIZE < n" "n < 2 ^ 32"
    and "4 \<le> ep" "\<not> nt_poisoned S" "\<not> nt_port_close S" "usb_works usb" "usb_rx usb 0 rest = Usb_silent"
  shows "TTYduct_receive_Buffer io (H\<lparr>ty_in := net_bytes (of_nat n) @ rest\<rparr>, bf) = Undef \<and>
     TTYduct_receive_Buffer io (H\<lparr>ty_in := packet [] @ rest\<rparr>, bf) = Ret () (H\<lparr>ty_in := rest, ty_eof := True\<rparr>, bf) \<and>
     NTTY_receive_Buffer ep usb (nt_idle ep (packet [] @ rest) hr y S, bf) = Undef"
proof (intro conjI)
  have n: "unat (of_nat n :: u32) = n" using assms(5) by (simp add: unat_of_nat take_bit_nat_eq_self)
  have size: "TTYduct_read_buffer io 4 (H\<lparr>ty_in := net_bytes w @ rest\<rparr>) = Ret (net_bytes w) (H\<lparr>ty_in := rest\<rparr>)" for w
    using tty_read_ok [OF assms(1), of "H\<lparr>ty_in := net_bytes w @ rest\<rparr>" "net_bytes w" rest 4 "[]"]
    by (simp add: TTYduct_read_buffer_def)
  show "TTYduct_receive_Buffer io (H\<lparr>ty_in := net_bytes (of_nat n) @ rest\<rparr>, bf) = Undef"
    using size assms(2-4) n by (simp add: TTYduct_receive_Buffer_def Let_def MAX_RECEIVE_SIZE_def)
  show "TTYduct_receive_Buffer io (H\<lparr>ty_in := packet [] @ rest\<rparr>, bf) = Ret () (H\<lparr>ty_in := rest, ty_eof := True\<rparr>, bf)"
    using size [of 0] assms(2,3) by (simp add: TTYduct_receive_Buffer_def packet_def)
  obtain x where "size_loop ep usb (nt_idle ep (packet [] @ rest) hr y S) =
      Ret () (nt_at ep receiving_residual 0 0 0 rest True x S)"
    using size_loop_ok [OF assms(6) _ assms(8,9), of 0 0 0 rest hr y] assms(6) by (auto simp: nt_idle_def packet_def)
  moreover have "rx_loop ep usb receiving_residual nt_residual (nt_at ep receiving_residual 0 0 0 rest False x S, bf) = Undef"
    by (subst rx_loop.simps) (simp add: usb_process_def assms(10))
  moreover have "\<not> nt_poisoned (nt_idle ep (packet [] @ rest) hr y S)" using assms(7) by (simp add: nt_idle_def)
  ultimately show "NTTY_receive_Buffer ep usb (nt_idle ep (packet [] @ rest) hr y S, bf) = Undef"
    using assms(3) by (simp add: NTTY_receive_Buffer_def nt_forget_read_def rx_loop_skips)
qed

theorem serial_bad_sizes_witness:
  "TTYduct_receive_Buffer demo_line (demo_host\<lparr>ty_in := net_bytes (of_nat 262145)\<rparr>, buf_empty) = Undef \<and>
   NTTY_receive_Buffer 64 demo_usb (nt_idle 64 (packet []) True [] (NTTY_Init 64 []), buf_empty) = Undef"
proof -
  have "\<not> b_poisoned buf_empty" "\<not> nt_poisoned (NTTY_Init 64 [])" "\<not> nt_port_close (NTTY_Init 64 [])"
    "usb_rx demo_usb 0 [] = Usb_silent"
    by (simp_all add: buf_empty_def NTTY_Init_def demo_usb_def)
  from serial_bad_sizes [OF demo_works(1,3) this(1) _ _ _ this(2,3) demo_works(2) this(4), of 262145 64 True "[]"]
  show ?thesis by (simp add: MAX_RECEIVE_SIZE_def)
qed

end
