(* ===== verification/Base64.thy ===== *)
theory Base64
  imports HString
begin

text \<open>
  The Base64 object (\<open>lib/Base64.c\<close>).  It splits its input into blocks and leaves the blocks to OpenSSL:
  \<open>enc block\<close> are the characters that \<open>EVP_EncodeBlock\<close> writes for one to three bytes, before its NUL, and
  \<open>dec block mem\<close> is what three bytes of memory hold after \<open>EVP_DecodeBlock\<close>, whose result the code ignores.
  At the end is the code of the standard, to which the properties are applied.

  The output grows by up to four bytes at a time.  Such an append beyond the limit of \<open>Buffer\<close> writes outside of its
  memory (\<open>buffer_limit\<close>), and so does the encoding or decoding.
\<close>

section \<open>State and operations\<close>

record Base64_State =
  b6_poisoned :: bool

definition Base64_Init :: Base64_State where
  "Base64_Init = \<lparr>b6_poisoned = False\<rparr>"

definition b6_poison :: "Base64_State \<times> 's \<Rightarrow> Base64_State \<times> 's" where
  "b6_poison = (\<lambda>(S, x). (S\<lparr>b6_poisoned := True\<rparr>, x))"

text \<open>Appends of a block to the output, within the limit of its buffer; the text of a string has a NUL behind it.\<close>

definition b6_add :: "string \<Rightarrow> hstr \<Rightarrow> (unit, hstr) res" where
  "b6_add t s = (if \<not> h_poisoned s \<and> fib_max < length (hs_chars s) + length t + 1 then Undef else hs_add t s)"

definition b6_add_bytes :: "byte list \<Rightarrow> buf \<Rightarrow> (unit, buf) res" where
  "b6_add_bytes bs b = (if \<not> b_poisoned b \<and> fib_max < length (b_data b) + length bs then Undef else buf_add bs b)"

text \<open>The number of the blocks is a 32-bit integer.\<close>

fun encode_blocks :: "(byte list \<Rightarrow> byte list) \<Rightarrow> nat \<Rightarrow> byte list \<Rightarrow> hstr \<Rightarrow> (byte list, hstr) res" where
  "encode_blocks enc 0 p output = Ret p output"
| "encode_blocks enc (Suc blocks) p output =
     res_bind (b6_add (cstring (enc (take 3 p))) output) (\<lambda>_. encode_blocks enc blocks (drop 3 p))"

definition Base64_encode ::
  "(byte list \<Rightarrow> byte list) \<Rightarrow> buf \<Rightarrow> Base64_State \<times> hstr \<Rightarrow> (unit, Base64_State \<times> hstr) res" where
  "Base64_encode enc input = (\<lambda>(S, output).
     on_fail b6_poison
       (if b6_poisoned S \<or> b_poisoned input \<or> h_poisoned output then Fail (S, output)
        else
          let blocks = (of_nat (buf_size input div 3) :: u32);
              residual = (of_nat (buf_size input mod 3) :: u32)
          in zoom (\<lambda>s. (S, s))
               (res_bind (encode_blocks enc (unat blocks) (b_data input) output) (\<lambda>p output.
                  if residual > 0 then b6_add (cstring (enc (take (unat residual) p))) output
                  else Ret () output))))"

fun decode_blocks ::
  "(byte list \<Rightarrow> byte list \<Rightarrow> byte list) \<Rightarrow> nat \<Rightarrow> byte list \<Rightarrow> byte list \<times> buf \<Rightarrow> (byte list, byte list \<times> buf) res" where
  "decode_blocks dec 0 p x = Ret p x"
| "decode_blocks dec (Suc blocks) p (decbufr, output) =
     (let decbufr = dec (take 4 p) decbufr
      in res_bind (zoom (\<lambda>b. (decbufr, b)) (b6_add_bytes decbufr output)) (\<lambda>_. decode_blocks dec blocks (drop 4 p)))"

definition buf_shrink :: "nat \<Rightarrow> buf \<Rightarrow> buf" where
  "buf_shrink cnt b =
     (if b_poisoned b \<or> cnt > length (b_data b) then b else b\<lparr>b_data := take (length (b_data b) - cnt) (b_data b)\<rparr>)"

text \<open>
  Without a residual the last block is looked at for padding: its third and its fourth character.  When the text is empty
  there is no last block, and the code reads in front of the text.  \<open>junk\<close> is the memory of \<open>decbufr\<close>.
\<close>

definition Base64_decode ::
  "(byte list \<Rightarrow> byte list \<Rightarrow> byte list) \<Rightarrow> byte list \<Rightarrow> hstr \<Rightarrow> Base64_State \<times> buf \<Rightarrow>
   (unit, Base64_State \<times> buf) res" where
  "Base64_decode dec junk input = (\<lambda>(S, output).
     on_fail b6_poison
       (if b6_poisoned S \<or> h_poisoned input \<or> b_poisoned output then Fail (S, output)
        else
          let t = hs_chars input;
              blocks = (of_nat (length t div 4) :: u32);
              residual = (of_nat (length t mod 4) :: u32)
          in zoom (\<lambda>(_, b). (S, b))
               (res_bind (decode_blocks dec (unat blocks) t (junk, output)) (\<lambda>p (decbufr, output).
                  if residual > 0 then
                    (let decbufr = dec (take (unat residual) p) (replicate 3 NUL)
                     in zoom (\<lambda>b. (decbufr, b)) (b6_add_bytes decbufr output))
                  else
                    (let consumed = length t - length p
                     in if consumed < 4 then Undef
                        else
                          let lp = (if t ! (consumed - 2) = CHR ''='' then 1 else 0) +
                                   (if t ! (consumed - 1) = CHR ''='' then 1 else 0)
                          in Ret () (decbufr, buf_shrink lp output))))))"

section \<open>The code of the standard\<close>

definition base64_alphabet :: string where
  "base64_alphabet = ''ABCDEFGHIJKLMNOPQRSTUVWXYZabcdefghijklmnopqrstuvwxyz0123456789+/''"

definition std_encode :: "byte list \<Rightarrow> byte list" where
  "std_encode bs =
     (let n = fold (\<lambda>c n. 256 * n + of_char c) (take 3 (bs @ replicate 3 NUL)) (0::nat);
          digits = [n div 262144 mod 64, n div 4096 mod 64, n div 64 mod 64, n mod 64]
      in map ((!) base64_alphabet) (take (Suc (length bs)) digits) @ replicate (3 - length bs) CHR ''='')"

definition std_digit :: "char \<Rightarrow> nat option" where
  "std_digit c =
     (if c = CHR ''='' then Some 0
      else map_of (zip base64_alphabet [0..<64]) c)"

definition std_decode :: "byte list \<Rightarrow> byte list \<Rightarrow> byte list" where
  "std_decode t mem =
     (case t of
        [w, x, y, z] \<Rightarrow>
          (case (std_digit w, std_digit x, std_digit y, std_digit z) of
             (Some a, Some b, Some c, Some d) \<Rightarrow>
               (let n = 262144 * a + 4096 * b + 64 * c + d
                in map char_of [n div 65536 mod 256, n div 256 mod 256, n mod 256])
           | _ \<Rightarrow> mem)
      | _ \<Rightarrow> mem)"

section \<open>The round trip\<close>

text \<open>What the code relies on.\<close>

definition block_code :: "(byte list \<Rightarrow> byte list) \<Rightarrow> (byte list \<Rightarrow> byte list \<Rightarrow> byte list) \<Rightarrow> bool" where
  "block_code enc dec \<longleftrightarrow>
     (\<forall>bs mem. bs \<noteq> [] \<and> length bs \<le> 3 \<and> length mem = 3 \<longrightarrow>
        length (enc bs) = 4 \<and> NUL \<notin> set (enc bs) \<and>
        (enc bs ! 2 = CHR ''='' \<longleftrightarrow> length bs = 1) \<and> (enc bs ! 3 = CHR ''='' \<longleftrightarrow> length bs \<le> 2) \<and>
        dec (enc bs) mem = bs @ replicate (3 - length bs) NUL)"

lemma std_digit_alphabet: "k < 64 \<Longrightarrow> std_digit (base64_alphabet ! k) = Some k"
proof -
  have "\<forall>k \<in> set [0..<64]. std_digit (base64_alphabet ! k) = Some k" by code_simp
  then show "k < 64 \<Longrightarrow> std_digit (base64_alphabet ! k) = Some k" by simp
qed

lemma alphabet_plain: "k < 64 \<Longrightarrow> base64_alphabet ! k \<noteq> CHR ''='' \<and> base64_alphabet ! k \<noteq> NUL"
proof -
  have "\<forall>k \<in> set [0..<64]. base64_alphabet ! k \<noteq> CHR ''='' \<and> base64_alphabet ! k \<noteq> NUL" by code_simp
  then show "k < 64 \<Longrightarrow> base64_alphabet ! k \<noteq> CHR ''='' \<and> base64_alphabet ! k \<noteq> NUL" by simp
qed

lemma base64_digits:
  fixes a b c :: nat
  assumes "a < 256" "b < 256" "c < 256"
  defines "n \<equiv> 256 * (256 * a + b) + c"
  shows "262144 * (n div 262144 mod 64) + 4096 * (n div 4096 mod 64) + 64 * (n div 64 mod 64) + n mod 64 = n"
    "n div 65536 mod 256 = a" "n div 256 mod 256 = b" "n mod 256 = c"
proof -
  have n: "n < 64 * 262144" using assms by (simp add: n_def)
  have "n div 4096 = n div 64 div 64" "n div 262144 = n div 64 div 64 div 64" by (simp_all flip: div_mult2_eq)
  moreover have "n = 64 * (n div 64) + n mod 64" "n div 64 = 64 * (n div 64 div 64) + n div 64 mod 64"
    "n div 64 div 64 = 64 * (n div 64 div 64 div 64) + n div 64 div 64 mod 64" by simp_all
  moreover have "n div 262144 mod 64 = n div 262144" using n by (simp add: less_mult_imp_div_less)
  ultimately have "n = 64 * (n div 64) + n mod 64" "n div 64 = 64 * (n div 4096) + n div 64 mod 64"
    "n div 4096 = 64 * (n div 262144) + n div 4096 mod 64" "n div 262144 mod 64 = n div 262144" by simp_all
  then show "262144 * (n div 262144 mod 64) + 4096 * (n div 4096 mod 64) + 64 * (n div 64 mod 64) + n mod 64 = n"
    by linarith
  show "n mod 256 = c" using assms(3) unfolding n_def by (simp only: mod_mult_self4 mod_less)
  have "(256 * m + c) div 256 = m" for m using assms(3) by simp
  then have "n div 256 = 256 * a + b" unfolding n_def .
  then show "n div 256 mod 256 = b" using assms by simp
  have "n div 65536 = n div 256 div 256" by (simp add: div_mult2_eq [of n 256 256, simplified])
  then show "n div 65536 mod 256 = a" using \<open>n div 256 = 256 * a + b\<close> assms by simp
qed

lemma std_decode_value:
  assumes "a < 256" "b < 256" "c < 256"
  defines "n \<equiv> 256 * (256 * a + b) + c"
  assumes "std_digit w = Some (n div 262144 mod 64)" "std_digit x = Some (n div 4096 mod 64)"
    and "std_digit y = Some (n div 64 mod 64)" "std_digit z = Some (n mod 64)"
  shows "std_decode [w, x, y, z] mem = [char_of a, char_of b, char_of c]"
  using assms(5-) base64_digits [OF assms(1-3)] assms(1-3) unfolding n_def [symmetric]
  by (simp add: std_decode_def)

lemma std_encode_simps:
  fixes x y z
  defines "n b c \<equiv> 256 * (256 * of_char x + b) + c :: nat"
  shows
    "std_encode [x] = [base64_alphabet ! (n 0 0 div 262144 mod 64), base64_alphabet ! (n 0 0 div 4096 mod 64), CHR ''='', CHR ''='']"
    "std_encode [x, y] = [base64_alphabet ! (n (of_char y) 0 div 262144 mod 64), base64_alphabet ! (n (of_char y) 0 div 4096 mod 64),
       base64_alphabet ! (n (of_char y) 0 div 64 mod 64), CHR ''='']"
    "std_encode [x, y, z] = [base64_alphabet ! (n (of_char y) (of_char z) div 262144 mod 64),
       base64_alphabet ! (n (of_char y) (of_char z) div 4096 mod 64),
       base64_alphabet ! (n (of_char y) (of_char z) div 64 mod 64), base64_alphabet ! (n (of_char y) (of_char z) mod 64)]"
proof -
  have three: "replicate 3 c = [c, c, c]" "replicate 2 c = [c, c]" "take 3 (a # b # d # r) = [a, b, d]" for a b c d :: char and r
    by (simp_all add: numeral_eq_Suc)
  have out: "take 2 (a # b # r) = [a, b]" "take 3 (a # b # c # r) = [a, b, c]" "take 4 [a, b, c, d] = [a, b, c, d]"
    for a b c d :: nat and r by (simp_all add: numeral_eq_Suc)
  have suc: "Suc (Suc 0) = 2" "Suc (Suc (Suc 0)) = 3" "Suc (Suc (Suc (Suc 0))) = 4" "Suc 3 = 4" "Suc 2 = 3" "Suc 1 = 2" by simp_all
  show "std_encode [x] = [base64_alphabet ! (n 0 0 div 262144 mod 64), base64_alphabet ! (n 0 0 div 4096 mod 64), CHR ''='', CHR ''='']"
    by (simp add: std_encode_def Let_def three out n_def)
  show "std_encode [x, y] = [base64_alphabet ! (n (of_char y) 0 div 262144 mod 64), base64_alphabet ! (n (of_char y) 0 div 4096 mod 64),
       base64_alphabet ! (n (of_char y) 0 div 64 mod 64), CHR ''='']"
    by (simp add: std_encode_def Let_def three out n_def)
  show "std_encode [x, y, z] = [base64_alphabet ! (n (of_char y) (of_char z) div 262144 mod 64),
       base64_alphabet ! (n (of_char y) (of_char z) div 4096 mod 64),
       base64_alphabet ! (n (of_char y) (of_char z) div 64 mod 64), base64_alphabet ! (n (of_char y) (of_char z) mod 64)]"
    by (simp add: std_encode_def Let_def three out n_def)
qed

lemma std_block_code: "block_code std_encode std_decode"
  unfolding block_code_def
proof (intro allI impI, elim conjE)
  fix bs mem :: "byte list"
  assume bs: "bs \<noteq> []" "length bs \<le> 3"
  have lt: "(of_char x :: nat) < 256" for x :: char by (rule nat_of_char_less_256)
  have mod64: "k mod 64 < 64" for k :: nat by simp
  note digit = std_digit_alphabet [OF mod64] alphabet_plain [OF mod64] alphabet_plain [OF mod64, THEN conjunct2, THEN not_sym]
  have pad: "std_digit CHR ''='' = Some 0" by (simp add: std_digit_def)
  have nul: "char_of (0::nat) = NUL" by (simp add: char_of_eq_iff)
  have fill: "replicate 1 c = [c]" "replicate 2 c = [c, c]" for c :: char by (simp_all add: numeral_eq_Suc)
  have zeros: "(256 * (256 * k + 0) + 0) mod 64 = 0" "(256 * (256 * k + 0) + 0) div 64 mod 64 = 0"
    "(256 * (256 * k + l) + 0) mod 64 = 0" for k l :: nat
    by (simp_all add: mod_eq_0_iff_dvd dvd_add dvd_mult2)
  consider x where "bs = [x]" | x y where "bs = [x, y]" | x y z where "bs = [x, y, z]"
    using bs by (cases bs; cases "tl bs"; cases "tl (tl bs)") auto
  then show "length (std_encode bs) = 4 \<and> NUL \<notin> set (std_encode bs) \<and>
     (std_encode bs ! 2 = CHR ''='' \<longleftrightarrow> length bs = 1) \<and> (std_encode bs ! 3 = CHR ''='' \<longleftrightarrow> length bs \<le> 2) \<and>
     std_decode (std_encode bs) mem = bs @ replicate (3 - length bs) NUL"
  proof cases
    case 1
    have "std_decode (std_encode [x]) mem = [char_of (of_char x :: nat), char_of (0::nat), char_of (0::nat)]"
      unfolding std_encode_simps by (rule std_decode_value) (simp_all only: lt digit pad zeros zero_less_numeral)
    then show ?thesis using digit by (simp add: 1 std_encode_simps fill nul)
  next
    case 2
    have "std_decode (std_encode [x, y]) mem = [char_of (of_char x :: nat), char_of (of_char y :: nat), char_of (0::nat)]"
      unfolding std_encode_simps by (rule std_decode_value) (simp_all only: lt digit pad zeros zero_less_numeral)
    then show ?thesis using digit by (simp add: 2 std_encode_simps fill nul)
  next
    case 3
    have "std_decode (std_encode [x, y, z]) mem =
        [char_of (of_char x :: nat), char_of (of_char y :: nat), char_of (of_char z :: nat)]"
      unfolding std_encode_simps by (rule std_decode_value) (simp_all only: lt digit)
    then show ?thesis using digit by (simp add: 3 std_encode_simps fill nul)
  qed
qed

text \<open>The blocks of a text: three bytes each, the last one what is left.\<close>

fun chunks :: "byte list \<Rightarrow> byte list list" where
  "chunks [] = []"
| "chunks [a] = [[a]]"
| "chunks [a, b] = [[a, b]]"
| "chunks (a # b # c # p) = [a, b, c] # chunks p"

lemma concat_chunks [simp]: "concat (chunks p) = p"
  by (induction p rule: chunks.induct) simp_all

lemma length_chunks: "length (chunks p) = (length p + 2) div 3"
proof (induction p rule: chunks.induct)
  case (4 a b c p)
  have "(length (a # b # c # p) + 2) div 3 = Suc ((length p + 2) div 3)" by simp
  with 4 show ?case by simp
qed simp_all

lemma chunks_last:
  "p \<noteq> [] \<Longrightarrow> \<exists>bss b. chunks p = bss @ [b] \<and> (\<forall>bs \<in> set bss. length bs = 3) \<and> b \<noteq> [] \<and> length b \<le> 3"
proof (induction p rule: chunks.induct)
  case (4 a b c p)
  show ?case
  proof (cases "p = []")
    case False
    with 4 obtain bss x where "chunks p = bss @ [x]" "\<forall>bs \<in> set bss. length bs = 3" "x \<noteq> []" "length x \<le> 3" by blast
    then show ?thesis by (intro exI [of _ "[a, b, c] # bss"] exI [of _ x]) simp
  qed simp
qed simp_all

lemma chunks_sizes: "bs \<in> set (chunks p) \<Longrightarrow> bs \<noteq> [] \<and> length bs \<le> 3"
  by (induction p rule: chunks.induct) auto

lemma block_codeD:
  assumes "block_code enc dec" "bs \<noteq> []" "length bs \<le> 3"
  shows "length (enc bs) = 4" "cstring (enc bs) = enc bs"
    "enc bs ! 2 = CHR ''='' \<longleftrightarrow> length bs = 1" "enc bs ! 3 = CHR ''='' \<longleftrightarrow> length bs \<le> 2"
    "length mem = 3 \<Longrightarrow> dec (enc bs) mem = bs @ replicate (3 - length bs) NUL"
proof -
  have law: "length (enc bs) = 4 \<and> NUL \<notin> set (enc bs) \<and>
      (enc bs ! 2 = CHR ''='' \<longleftrightarrow> length bs = 1) \<and> (enc bs ! 3 = CHR ''='' \<longleftrightarrow> length bs \<le> 2) \<and>
      dec (enc bs) mem = bs @ replicate (3 - length bs) NUL" if "length mem = 3" for mem
    using assms that unfolding block_code_def by blast
  from law [of "replicate 3 NUL"] show "length (enc bs) = 4" "cstring (enc bs) = enc bs"
    "enc bs ! 2 = CHR ''='' \<longleftrightarrow> length bs = 1" "enc bs ! 3 = CHR ''='' \<longleftrightarrow> length bs \<le> 2"
    by (auto simp: cstring_def takeWhile_eq_all_conv)
  show "length mem = 3 \<Longrightarrow> dec (enc bs) mem = bs @ replicate (3 - length bs) NUL" using law by blast
qed

lemma b6_add_ok:
  assumes "\<not> h_poisoned s" "length (hs_chars s) + length t + 1 \<le> fib_max"
  shows "b6_add t s = Ret () (hs_of (hs_chars s @ t))"
  using assms by (simp add: b6_add_def hs_add_ok)

lemma encode_chunks:
  assumes "block_code enc dec" "\<not> h_poisoned out" "length (hs_chars out) + 4 * length (chunks p) + 1 \<le> fib_max"
  shows "\<exists>out'. res_bind (encode_blocks enc (length p div 3) p out) (\<lambda>q out.
       if 0 < length p mod 3 then b6_add (cstring (enc (take (length p mod 3) q))) out else Ret () out) = Ret () out' \<and>
     \<not> h_poisoned out' \<and> hs_chars out' = hs_chars out @ concat (map enc (chunks p))"
  using assms(2,3)
proof (induction p arbitrary: out rule: chunks.induct)
  case (4 a b c p)
  have sizes: "length (a # b # c # p) div 3 = Suc (length p div 3)" "length (a # b # c # p) mod 3 = length p mod 3"
    by simp_all
  show ?case
    unfolding sizes
    using 4(1) [of "hs_of (hs_chars out @ enc [a, b, c])"] 4(2,3) block_codeD(1,2) [OF assms(1), of "[a, b, c]"]
    by (simp add: b6_add_ok)
qed (simp_all add: b6_add_ok block_codeD(1,2) [OF assms(1)])

definition padded :: "byte list \<Rightarrow> byte list" where
  "padded bs = bs @ replicate (3 - length bs) NUL"

lemma decode_chunks:
  assumes "block_code enc dec" "\<forall>bs \<in> set bss. bs \<noteq> [] \<and> length bs \<le> 3" "length mem = 3" "\<not> b_poisoned b"
    and "length (b_data b) + 3 * length bss \<le> fib_max"
  shows "\<exists>mem' b'. decode_blocks dec (length bss) (concat (map enc bss) @ p) (mem, b) = Ret p (mem', b') \<and>
     \<not> b_poisoned b' \<and> b_data b' = b_data b @ concat (map padded bss)"
  using assms(2-)
proof (induction bss arbitrary: mem b)
  case (Cons bs bss)
  have len: "length (enc bs) = 4" "dec (enc bs) mem = padded bs"
    using block_codeD(1,5) [OF assms(1)] Cons.prems by (simp_all add: padded_def)
  let ?b = "b\<lparr>b_data := b_data b @ padded bs\<rparr>"
  have three: "length (padded bs) = 3" using Cons.prems(1) by (simp add: padded_def)
  then obtain mem' b' where "decode_blocks dec (length bss) (concat (map enc bss) @ p) (padded bs, ?b) = Ret p (mem', b')"
    "\<not> b_poisoned b'" "b_data b' = b_data ?b @ concat (map padded bss)"
    using Cons.IH [of "padded bs" ?b] Cons.prems by auto
  with len three Cons.prems(3,4) show ?case by (simp add: b6_add_bytes_def buf_add_def)
qed simp

lemma decode_text:
  assumes "block_code enc dec" "p \<noteq> []" "length (chunks p) < 2 ^ 32" "length mem = 3" "\<not> b_poisoned b" "\<not> b6_poisoned S"
    and "\<not> h_poisoned input" "hs_chars input = concat (map enc (chunks p))"
    and "length (b_data b) + 3 * length (chunks p) \<le> fib_max"
  shows "\<exists>b'. Base64_decode dec mem input (S, b) = Ret () (S, b') \<and> \<not> b_poisoned b' \<and> b_data b' = b_data b @ p"
proof -
  let ?t = "concat (map enc (chunks p))" and ?n = "length (chunks p)"
  have len: "length ?t = 4 * ?n"
    using block_codeD(1) [OF assms(1)] chunks_sizes by (induction p rule: chunks.induct) auto
  obtain bss x where last: "chunks p = bss @ [x]" "\<forall>bs \<in> set bss. length bs = 3" "x \<noteq> []" "length x \<le> 3"
    using chunks_last [OF assms(2)] by blast
  obtain mem' b' where run: "decode_blocks dec ?n ?t (mem, b) = Ret [] (mem', b')" "\<not> b_poisoned b'"
    "b_data b' = b_data b @ concat (map padded (chunks p))"
    using decode_chunks [OF assms(1) _ assms(4,5,9), of "[]"] chunks_sizes by auto
  have "concat (map padded bss) = concat bss" using last(2) by (induction bss) (simp_all add: padded_def)
  then have data: "b_data b' = b_data b @ p @ replicate (3 - length x) NUL"
    using run(3) concat_chunks [of p] last(1) by (auto simp: padded_def)
  have "length (enc bs) = 4" if "length bs = 3" for bs
    using block_codeD(1) [OF assms(1), of bs] that by (cases bs) auto
  then have pre: "length (concat (map enc bss)) = 4 * length bss"
    using last(2) by (induction bss) auto
  have ends: "?t ! (length ?t - 2) = enc x ! 2" "?t ! (length ?t - 1) = enc x ! 3"
    using pre last(1) block_codeD(1) [OF assms(1) last(3,4)] by (simp_all add: nth_append len)
  let ?lp = "(if ?t ! (length ?t - 2) = CHR ''='' then 1 else 0) + (if ?t ! (length ?t - 1) = CHR ''='' then 1 else 0) :: nat"
  have "?lp = 3 - length x"
    using ends block_codeD(3,4) [OF assms(1) last(3,4)] last(3,4) by (cases x; cases "tl x"; cases "tl (tl x)") auto
  then have "buf_shrink ?lp b' = b'\<lparr>b_data := b_data b @ p\<rparr>" using data run(2) by (simp add: buf_shrink_def)
  moreover have "4 \<le> length ?t" using len last(1) by simp
  moreover have "unat (of_nat (length ?t div 4) :: u32) = ?n" using len assms(3) by (simp add: unat_of_nat take_bit_nat_eq_self)
  moreover have "chunks p \<noteq> []" using last(1) by simp
  ultimately show ?thesis using run(1,2) assms(5-8) len
    by (simp add: Base64_decode_def Let_def)
qed

definition code_text :: "(byte list \<Rightarrow> byte list) \<Rightarrow> byte list \<Rightarrow> string" where
  "code_text enc bs = concat (map enc (chunks bs))"

lemma code_text_ok:
  assumes "block_code enc dec"
  shows "NUL \<notin> set (code_text enc bs)" "bs \<noteq> [] \<Longrightarrow> code_text enc bs \<noteq> []"
proof -
  have law: "NUL \<notin> set (enc b) \<and> enc b \<noteq> []" if "b \<in> set (chunks bs)" for b
  proof -
    have "b \<noteq> []" "length b \<le> 3" "length (replicate 3 NUL) = 3" using chunks_sizes [OF that] by simp_all
    with assms have "length (enc b) = 4 \<and> NUL \<notin> set (enc b)" unfolding block_code_def by blast
    then show ?thesis by auto
  qed
  then show "NUL \<notin> set (code_text enc bs)" by (auto simp: code_text_def)
  show "code_text enc bs \<noteq> []" if "bs \<noteq> []"
    using law that by (cases "chunks bs") (auto simp: code_text_def dest: arg_cong [of "chunks bs" "[]" concat])
qed

lemma encode_text:
  assumes "block_code enc dec" "length (hs_chars out) + 4 * ((length bs + 2) div 3) + 1 \<le> fib_max"
    and "\<not> h_poisoned out" "\<not> b6_poisoned S"
  shows "\<exists>out'. Base64_encode enc \<lparr>b_poisoned = False, b_data = bs\<rparr> (S, out) = Ret () (S, out') \<and>
     \<not> h_poisoned out' \<and> hs_chars out' = hs_chars out @ code_text enc bs"
proof -
  obtain t where t: "res_bind (encode_blocks enc (length bs div 3) bs out) (\<lambda>q out.
       if 0 < length bs mod 3 then b6_add (cstring (enc (take (length bs mod 3) q))) out else Ret () out) = Ret () t"
     "\<not> h_poisoned t" "hs_chars t = hs_chars out @ code_text enc bs"
    using encode_chunks [OF assms(1,3), of bs] assms(2) by (auto simp: code_text_def length_chunks)
  have small: "length bs div 3 < 2 ^ 32" using assms(2) by (simp add: fib_max_def)
  have words: "unat (of_nat (length bs div 3) :: u32) = length bs div 3" "unat (of_nat (length bs mod 3) :: u32) = length bs mod 3"
    "(0 < (of_nat (length bs mod 3) :: u32)) = (0 < length bs mod 3)"
    using small by (simp_all add: unat_of_nat take_bit_nat_eq_self word_less_nat_alt)
  show ?thesis
    using t assms(3,4) by (intro exI [of _ t]) (simp add: Base64_encode_def buf_size_def Let_def words cong: if_cong)
qed

lemma encode_chunks_overrun:
  assumes "block_code enc dec" "\<not> h_poisoned out" "fib_max < length (hs_chars out) + 4 * length (chunks p) + 1" "p \<noteq> []"
  shows "res_bind (encode_blocks enc (length p div 3) p out) (\<lambda>q out.
       if 0 < length p mod 3 then b6_add (cstring (enc (take (length p mod 3) q))) out else Ret () out) = Undef"
  using assms(2-4)
proof (induction p arbitrary: out rule: chunks.induct)
  case (4 a b c p)
  have sizes: "length (a # b # c # p) div 3 = Suc (length p div 3)" "length (a # b # c # p) mod 3 = length p mod 3"
    by simp_all
  note block = block_codeD(1,2) [OF assms(1), of "[a, b, c]"]
  show ?case
  proof (cases "fib_max < length (hs_chars out) + 4 + 1")
    case True
    then show ?thesis using 4(2) block unfolding sizes by (simp add: b6_add_def)
  next
    case False
    then have "p \<noteq> []" using 4(3) by auto
    with False show ?thesis
      unfolding sizes using 4(1) [of "hs_of (hs_chars out @ enc [a, b, c])"] 4(2,3) block by (simp add: b6_add_ok)
  qed
qed (simp_all add: b6_add_def block_codeD(1,2) [OF assms(1)])

lemma encode_overrun:
  assumes "block_code enc dec" "fib_max < length (hs_chars out) + 4 * ((length bs + 2) div 3) + 1"
    and "\<not> h_poisoned out" "\<not> b6_poisoned S" "bs \<noteq> []" "length bs < 3 * 2 ^ 32"
  shows "Base64_encode enc \<lparr>b_poisoned = False, b_data = bs\<rparr> (S, out) = Undef"
proof -
  have small: "length bs div 3 < 2 ^ 32" using assms(6) by (simp add: less_mult_imp_div_less)
  have words: "unat (of_nat (length bs div 3) :: u32) = length bs div 3" "unat (of_nat (length bs mod 3) :: u32) = length bs mod 3"
    "(0 < (of_nat (length bs mod 3) :: u32)) = (0 < length bs mod 3)"
    using small by (simp_all add: unat_of_nat take_bit_nat_eq_self word_less_nat_alt)
  show ?thesis
    using encode_chunks_overrun [OF assms(1,3) _ assms(5)] assms(2-4)
    by (simp add: Base64_encode_def buf_size_def Let_def words length_chunks cong: if_cong)
qed

text \<open>The decoder as the function that its clients see.\<close>

definition base64_of :: "(byte list \<Rightarrow> byte list \<Rightarrow> byte list) \<Rightarrow> byte list \<Rightarrow> string \<Rightarrow> byte list option" where
  "base64_of dec junk t =
     (case Base64_decode dec junk (hs_of t) (Base64_Init, buf_empty) of Ret _ (_, b) \<Rightarrow> Some (b_data b) | _ \<Rightarrow> None)"

lemma base64_of_text:
  assumes "block_code enc dec" "bs \<noteq> []" "length bs + 2 \<le> fib_max" "length junk = 3"
  shows "base64_of dec junk (code_text enc bs) = Some bs"
proof -
  have "length (chunks bs) < 2 ^ 32" "3 * length (chunks bs) \<le> fib_max"
    using assms(3) by (simp_all add: length_chunks fib_max_def)
  with decode_text [OF assms(1,2) this(1) assms(4), of buf_empty Base64_Init "hs_of (code_text enc bs)"]
  show ?thesis by (auto simp: base64_of_def Base64_Init_def buf_empty_def code_text_def)
qed

text \<open>
  C35: What the object encodes it decodes: the bytes, at least one, come back and
  are added to the output, whatever the memory of the decoder held.  The text with its NUL, four characters for
  three bytes, and the output with the padding must fit their buffers, which hold up to 2971215073 bytes; bytes whose text does
  not fit make the encoder write outside of the buffer.  It relies on OpenSSL
  to encode and decode single blocks by the standard.  The empty text is not decoded: the code reads in front of it.
\<close>

theorem base64_roundtrip:
  assumes "block_code enc dec" "bs \<noteq> []" "length junk = 3" "\<not> b_poisoned b"
    and "length (b_data b) + length bs + 2 \<le> 2971215073"
  shows "(if 4 * ((length bs + 2) div 3) + 1 \<le> 2971215073
      then \<exists>text' b'.
        Base64_encode enc \<lparr>b_poisoned = False, b_data = bs\<rparr> (Base64_Init, hs_empty) = Ret () (Base64_Init, text') \<and>
        Base64_decode dec junk text' (Base64_Init, b) = Ret () (Base64_Init, b') \<and>
        \<not> b_poisoned b' \<and> b_data b' = b_data b @ bs
      else Base64_encode enc \<lparr>b_poisoned = False, b_data = bs\<rparr> (Base64_Init, hs_empty) = Undef) \<and>
     Base64_decode dec junk hs_empty (Base64_Init, b) = Undef"
proof -
  have S: "\<not> b6_poisoned Base64_Init" by (simp add: Base64_Init_def)
  have sizes: "length (chunks bs) < 2 ^ 32" "length (b_data b) + 3 * length (chunks bs) \<le> fib_max"
    using assms(5) by (simp_all add: length_chunks fib_max_def)
  have "\<exists>text' b'.
     Base64_encode enc \<lparr>b_poisoned = False, b_data = bs\<rparr> (Base64_Init, hs_empty) = Ret () (Base64_Init, text') \<and>
     Base64_decode dec junk text' (Base64_Init, b) = Ret () (Base64_Init, b') \<and> \<not> b_poisoned b' \<and> b_data b' = b_data b @ bs"
    if "4 * ((length bs + 2) div 3) + 1 \<le> fib_max"
  proof -
    from encode_text [OF assms(1) _ _ S, of hs_empty bs] that obtain t where
      t: "Base64_encode enc \<lparr>b_poisoned = False, b_data = bs\<rparr> (Base64_Init, hs_empty) = Ret () (Base64_Init, t)"
      "\<not> h_poisoned t" "hs_chars t = concat (map enc (chunks bs))" by (auto simp: code_text_def)
    with decode_text [OF assms(1,2) sizes(1) assms(3,4) S t(2,3) sizes(2)] show ?thesis by auto
  qed
  moreover have "Base64_encode enc \<lparr>b_poisoned = False, b_data = bs\<rparr> (Base64_Init, hs_empty) = Undef"
    if "\<not> 4 * ((length bs + 2) div 3) + 1 \<le> fib_max"
    using encode_overrun [OF assms(1) _ _ S assms(2), of hs_empty] that assms(5) by simp
  moreover have "Base64_decode dec junk hs_empty (Base64_Init, b) = Undef"
    using assms(4) by (simp add: Base64_decode_def Base64_Init_def)
  ultimately show ?thesis by (simp add: fib_max_def)
qed

theorem base64_roundtrip_witness:
  "\<exists>text' b'.
     Base64_encode std_encode \<lparr>b_poisoned = False, b_data = ''abcd''\<rparr> (Base64_Init, hs_empty) = Ret () (Base64_Init, text') \<and>
     Base64_decode std_decode ''xyz'' text' (Base64_Init, buf_empty) = Ret () (Base64_Init, b') \<and> b_data b' = ''abcd''"
  using base64_roundtrip [OF std_block_code, of "''abcd''" "''xyz''" buf_empty] by (auto simp: buf_empty_def)

end
