(* ===== verification/RSAkey.thy ===== *)
theory RSAkey
  imports TSEM
begin

text \<open>
  The object of an RSA key for builds with OpenSSL (\<open>lib/RSAkey.c\<close>), as far as the loading of signed models needs it:
  the loading of keys and certificates, and the verification of a signature.  What the functions of OpenSSL return is
  the record \<open>openssl\<close>; a key is represented by the bytes it was read from.

  The builds for Xen and for micro-controllers have objects of their own with the same interface, over another library.
  The models use
  the object through the record \<open>crypto\<close>, and \<open>openssl_crypto\<close> is this record for the object here.
  The padding and the engine are used by the other methods only, and are left out.
\<close>

section \<open>OpenSSL\<close>

text \<open>
  \<open>ssl_alloc\<close> tells whether \<open>EVP_PKEY_new\<close>, \<open>EVP_PKEY_set1_RSA\<close> and \<open>EVP_MD_CTX_new\<close> succeed; the next
  three whether a text, of less than \<open>2 ^ 31\<close> bytes, is a public key, a private key or a certificate; \<open>ssl_X509_pubkey\<close> is the key of a certificate.
  The last three are the results of \<open>EVP_DigestVerifyInit\<close> for a key, of \<open>EVP_DigestVerifyUpdate\<close> for the key and the
  data, and of \<open>EVP_DigestVerifyFinal\<close> for the key, the data and the signature: 1 for a signature that is
  valid, 0 for one that is not, and a negative number for an error.
\<close>

record openssl =
  ssl_alloc :: bool
  ssl_pubkey :: "byte list \<Rightarrow> bool"
  ssl_privkey :: "byte list \<Rightarrow> bool"
  ssl_X509 :: "byte list \<Rightarrow> bool"
  ssl_X509_pubkey :: "byte list \<Rightarrow> byte list option"
  ssl_verify_init :: "byte list \<Rightarrow> int"
  ssl_verify_update :: "byte list \<Rightarrow> byte list \<Rightarrow> int"
  ssl_verify_final :: "byte list \<Rightarrow> byte list \<Rightarrow> byte list \<Rightarrow> int"

section \<open>State and operations\<close>

datatype RSAkey_type = no_key | public_key | private_key | hardware_key | generated | certificate

record RSAkey_State =
  rk_poisoned :: bool
  rk_type :: RSAkey_type
  rk_key :: "byte list option"
  rk_certificate :: "byte list option"

definition RSAkey_Init :: RSAkey_State where
  "RSAkey_Init = \<lparr>rk_poisoned = False, rk_type = no_key, rk_key = None, rk_certificate = None\<rparr>"

text \<open>The bytes of the argument, unless it is NULL or poisoned.\<close>

definition rsa_argument :: "buf option \<Rightarrow> byte list option" where
  "rsa_argument bufr = (case bufr of None \<Rightarrow> None | Some b \<Rightarrow> if b_poisoned b then None else Some (b_data b))"

text \<open>The checks that the three methods that load something share.\<close>

definition rsa_load ::
  "(byte list \<Rightarrow> bool) \<Rightarrow> (byte list \<Rightarrow> RSAkey_State \<Rightarrow> RSAkey_State) \<Rightarrow> buf option \<Rightarrow> RSAkey_State \<Rightarrow> (unit, RSAkey_State) res" where
  "rsa_load parses store bufr S =
     (if rk_poisoned S then Fail (S\<lparr>rk_poisoned := True\<rparr>)
      else
        (case rsa_argument bufr of
           None \<Rightarrow> Fail (S\<lparr>rk_poisoned := True\<rparr>)
         | Some bs \<Rightarrow>
             if rk_type S \<noteq> no_key \<or> \<not> parses bs then Fail (S\<lparr>rk_poisoned := True\<rparr>)
             else Ret () (store bs S)))"

definition RSAkey_load_public :: "openssl \<Rightarrow> buf option \<Rightarrow> RSAkey_State \<Rightarrow> (unit, RSAkey_State) res" where
  "RSAkey_load_public ssl = rsa_load (ssl_pubkey ssl) (\<lambda>bs S. S\<lparr>rk_key := Some bs, rk_type := public_key\<rparr>)"

definition RSAkey_load_private :: "openssl \<Rightarrow> buf option \<Rightarrow> RSAkey_State \<Rightarrow> (unit, RSAkey_State) res" where
  "RSAkey_load_private ssl = rsa_load (ssl_privkey ssl) (\<lambda>bs S. S\<lparr>rk_key := Some bs, rk_type := private_key\<rparr>)"

definition RSAkey_load_certificate :: "openssl \<Rightarrow> buf option \<Rightarrow> RSAkey_State \<Rightarrow> (unit, RSAkey_State) res" where
  "RSAkey_load_certificate ssl = rsa_load (ssl_X509 ssl) (\<lambda>bs S. S\<lparr>rk_certificate := Some bs, rk_type := certificate\<rparr>)"

text \<open>The key that a signature is verified with.\<close>

definition verify_key :: "openssl \<Rightarrow> RSAkey_State \<Rightarrow> byte list option" where
  "verify_key ssl S =
     (case rk_certificate S of
        Some c \<Rightarrow> ssl_X509_pubkey ssl c
      | None \<Rightarrow> if rk_type S = public_key \<and> ssl_alloc ssl then rk_key S else None)"

text \<open>
  The result is \<open>*status\<close>.  The result of \<open>EVP_DigestVerifyFinal\<close> is stored into a \<open>_Bool\<close>, which is 1 for
  every number but 0, and never negative.  On a failure the object is marked as not poisoned.
\<close>

definition RSAkey_verify ::
  "openssl \<Rightarrow> buf option \<Rightarrow> buf option \<Rightarrow> RSAkey_State \<Rightarrow> (bool, RSAkey_State) res" where
  "RSAkey_verify ssl signature data S =
     (case (rsa_argument signature, rsa_argument data, verify_key ssl S) of
        (Some sg, Some d, Some pkey) \<Rightarrow>
          if \<not> ssl_alloc ssl then Fail (S\<lparr>rk_poisoned := False\<rparr>)
          else if ssl_verify_init ssl pkey = 0 then Fail (S\<lparr>rk_poisoned := False\<rparr>)
          else if ssl_verify_update ssl pkey d = 0 then Fail (S\<lparr>rk_poisoned := False\<rparr>)
          else
            (let verify_retn = (if ssl_verify_final ssl pkey d sg = 0 then 0 else 1 :: int)
             in if verify_retn < 0 then Fail (S\<lparr>rk_poisoned := False\<rparr>) else Ret (verify_retn \<noteq> 0) S)
      | _ \<Rightarrow> Fail (S\<lparr>rk_poisoned := False\<rparr>))"

section \<open>The object as its clients use it\<close>

definition rsa_buf :: "byte list \<Rightarrow> buf option" where
  "rsa_buf bs = Some \<lparr>b_poisoned = False, b_data = bs\<rparr>"

definition openssl_crypto :: "openssl \<Rightarrow> crypto \<Rightarrow> crypto" where
  "openssl_crypto ssl cr =
     cr\<lparr>cr_rsa_load := (\<lambda>k. case RSAkey_load_public ssl (rsa_buf k) RSAkey_Init of Ret _ _ \<Rightarrow> True | _ \<Rightarrow> False),
        cr_rsa_verify := (\<lambda>k sg d.
          case res_bind (RSAkey_load_public ssl (rsa_buf k) RSAkey_Init) (\<lambda>_. RSAkey_verify ssl (rsa_buf sg) (rsa_buf d)) of
            Ret valid _ \<Rightarrow> Some valid | _ \<Rightarrow> None)\<rparr>"

lemma rsa_argument_buf [simp]: "rsa_argument (rsa_buf bs) = Some bs"
  by (simp add: rsa_argument_def rsa_buf_def)

lemma openssl_crypto_simps [simp]:
  "cr_sha (openssl_crypto ssl cr) = cr_sha cr" "cr_base64 (openssl_crypto ssl cr) = cr_base64 cr"
  "cr_rsa_load (openssl_crypto ssl cr) k = ssl_pubkey ssl k"
  by (simp_all add: openssl_crypto_def RSAkey_load_public_def rsa_load_def RSAkey_Init_def)

lemma openssl_crypto_verify:
  "cr_rsa_verify (openssl_crypto ssl cr) k sg d =
     (if ssl_pubkey ssl k \<and> ssl_alloc ssl \<and> ssl_verify_init ssl k \<noteq> 0 \<and> ssl_verify_update ssl k d \<noteq> 0
      then Some (ssl_verify_final ssl k d sg \<noteq> 0) else None)"
  by (simp add: openssl_crypto_def RSAkey_load_public_def rsa_load_def RSAkey_Init_def RSAkey_verify_def verify_key_def)

text \<open>A failed verification takes the mark from an object that was poisoned before.\<close>

lemma verify_forgets_poison:
  "RSAkey_verify ssl signature data S = Fail T \<Longrightarrow> \<not> rk_poisoned T"
  by (auto simp: RSAkey_verify_def Let_def split: option.splits if_splits)

end
