(* ===== verification/QuixoteKernel.thy ===== *)
theory QuixoteKernel
  imports Quixote
begin

text \<open>
  The orchestrator of a workload that the kernel models itself (\<open>Quixote/quixote.c\<close>).  It forwards the lines of a model
  file to the control file, answers management commands from the files in which the kernel shows the model, and at the end
  of the workload passes the model to its parent, which writes it to a file.

  The kernel is the environment: \<open>ke_files n name\<close> are the lines of a file when it is opened after \<open>n\<close> other
  opens, if it opens.  Between two opens the workload goes on.
\<close>

section \<open>State\<close>

record Kernel_State =
  kq_control :: TSEMcontrol_State
  kq_sealed :: bool
  kq_loading :: bool
  kq_key :: "buf option"
  kq_sigdata :: "buf option"
  kq_cmdbufr :: buf
  kq_connected :: bool
  kq_stop :: bool
  kq_sigchild :: bool
  kq_sent :: "byte list list"
  kq_kills :: "bool list"
  kq_opens :: nat
  kq_pipe :: "byte list"

record kernel_environment =
  ke_crypto :: crypto
  ke_control :: "byte list list \<Rightarrow> bool"
  ke_mgmt :: "byte list list \<Rightarrow> bool"
  ke_files :: "nat \<Rightarrow> string \<Rightarrow> string list option"

definition Kernel_Init :: Kernel_State where
  "Kernel_Init =
     \<lparr>kq_control = TSEMcontrol_Init, kq_sealed = False, kq_loading = False, kq_key = None, kq_sigdata = None,
      kq_cmdbufr = buf_empty, kq_connected = False, kq_stop = False,
      kq_sigchild = False, kq_sent = [], kq_kills = [], kq_opens = 0, kq_pipe = []\<rparr>"

definition MODEL_DIR :: string where
  "MODEL_DIR = ''/sys/kernel/security/tsem/internal_tma/model0/''"

definition AGGREGATE :: string where
  "AGGREGATE = ''/sys/kernel/security/tsem/aggregate''"

definition TRAJECTORY_COEFFICIENTS :: string where
  "TRAJECTORY_COEFFICIENTS = MODEL_DIR @ ''trajectory_coefficients''"

definition k_control ::
  "(TSEMcontrol_State \<Rightarrow> (unit, TSEMcontrol_State) res) \<Rightarrow> Kernel_State \<Rightarrow> (unit, Kernel_State) res" where
  "k_control f st = zoom (\<lambda>c. st\<lparr>kq_control := c\<rparr>) (f (kq_control st))"

definition k_open :: "kernel_environment \<Rightarrow> string \<Rightarrow> Kernel_State \<Rightarrow> (string list, Kernel_State) res" where
  "k_open env name st =
     (case ke_files env (kq_opens st) name of
        None \<Rightarrow> Fail st
      | Some ls \<Rightarrow> Ret ls (st\<lparr>kq_opens := kq_opens st + 1\<rparr>))"

definition k_fill :: "byte list \<Rightarrow> Kernel_State \<Rightarrow> Kernel_State" where
  "k_fill bs st = st\<lparr>kq_cmdbufr := (case buf_add bs (buf_reset (kq_cmdbufr st)) of
                                     Ret _ b \<Rightarrow> b | Fail b \<Rightarrow> b | Undef \<Rightarrow> kq_cmdbufr st)\<rparr>"

definition k_send :: "kernel_environment \<Rightarrow> Kernel_State \<Rightarrow> (unit, Kernel_State) res" where
  "k_send env st =
     (if \<not> b_poisoned (kq_cmdbufr st) \<and> ke_mgmt env (kq_sent st)
      then Ret () (st\<lparr>kq_sent := kq_sent st @ [b_data (kq_cmdbufr st)]\<rparr>) else Fail st)"

section \<open>Showing the model\<close>

text \<open>
  The file is opened again after its lines were counted.  When there are fewer lines then, empty texts are sent for
  those that are missing.
\<close>

fun k_send_lines :: "kernel_environment \<Rightarrow> nat \<Rightarrow> string list \<Rightarrow> Kernel_State \<Rightarrow> (unit, Kernel_State) res" where
  "k_send_lines env 0 ls st = Ret () st"
| "k_send_lines env (Suc cnt) ls st =
     res_bind (k_send env (k_fill ((case ls of [] \<Rightarrow> [] | l # _ \<Rightarrow> l) @ [NUL]) st))
       (\<lambda>_. k_send_lines env cnt (tl ls))"

definition k_send_file :: "kernel_environment \<Rightarrow> string \<Rightarrow> Kernel_State \<Rightarrow> (unit, Kernel_State) res" where
  "k_send_file env name st =
     (case k_open env name st of
        Undef \<Rightarrow> Undef
      | Fail st1 \<Rightarrow> Fail st1
      | Ret counted st1 \<Rightarrow>
          res_bind (k_send env (k_fill (size_bytes (length counted)) st1)) (\<lambda>_ st2.
            (case k_open env name st2 of
               Undef \<Rightarrow> Undef
             | Fail st3 \<Rightarrow> Fail st3
             | Ret ls st3 \<Rightarrow> k_send_lines env (length counted) ls st3)))"

definition Kernel_send_forensics :: "kernel_environment \<Rightarrow> Kernel_State \<Rightarrow> (unit, Kernel_State) res" where
  "Kernel_send_forensics env = k_send_file env (MODEL_DIR @ ''forensics'')"

definition Kernel_send_coefficients :: "kernel_environment \<Rightarrow> string \<Rightarrow> Kernel_State \<Rightarrow> (unit, Kernel_State) res" where
  "Kernel_send_coefficients env type = k_send_file env type"

definition Kernel_send_trajectory :: "kernel_environment \<Rightarrow> Kernel_State \<Rightarrow> (unit, Kernel_State) res" where
  "Kernel_send_trajectory env = k_send_file env (MODEL_DIR @ ''trajectory'')"

definition Kernel_send_counts :: "kernel_environment \<Rightarrow> string \<Rightarrow> Kernel_State \<Rightarrow> (unit, Kernel_State) res" where
  "Kernel_send_counts env type = k_send_file env type"

text \<open>The variable \<open>Sealed\<close> is never set by the code.\<close>

definition Kernel_seal_domain :: "kernel_environment \<Rightarrow> Kernel_State \<Rightarrow> (unit, Kernel_State) res" where
  "Kernel_seal_domain env =
     steps
       [(\<lambda>st. if \<not> kq_sealed st then k_control (TSEMcontrol_seal (ke_control env)) st else Ret () st),
        assign (k_fill (''OK'' @ [NUL])),
        k_send env]"

text \<open>The first line of a file, in hexadecimal, added to the buffer that was reset.\<close>

definition k_add_hex :: "string \<Rightarrow> Kernel_State \<Rightarrow> (unit, Kernel_State) res" where
  "k_add_hex t st = zoom (\<lambda>b. st\<lparr>kq_cmdbufr := b\<rparr>) (buf_add_hexstring (Some t) (buf_reset (kq_cmdbufr st)))"

text \<open>The result of the conversion is ignored here; a poisoned buffer is not sent.\<close>

definition Kernel_send_map :: "kernel_environment \<Rightarrow> Kernel_State \<Rightarrow> (unit, Kernel_State) res" where
  "Kernel_send_map env st =
     (case k_open env AGGREGATE st of
        Undef \<Rightarrow> Undef
      | Fail st1 \<Rightarrow> Fail st1
      | Ret [] st1 \<Rightarrow> Fail st1
      | Ret (l # _) st1 \<Rightarrow>
          steps
            [attempt (k_add_hex l),
             k_send env,
             Kernel_send_coefficients env TRAJECTORY_COEFFICIENTS] st1)"

definition k_show :: "kernel_environment \<Rightarrow> string \<Rightarrow> Kernel_State \<Rightarrow> (unit, Kernel_State) res" where
  "k_show env name st =
     (case k_open env name (st\<lparr>kq_cmdbufr := buf_reset (kq_cmdbufr st)\<rparr>) of
        Undef \<Rightarrow> Undef
      | Fail st1 \<Rightarrow> Fail st1
      | Ret [] st1 \<Rightarrow> Fail st1
      | Ret (l # _) st1 \<Rightarrow> steps [k_add_hex l, k_send env] st1)"

definition Kernel_process_command :: "kernel_environment \<Rightarrow> Kernel_State \<Rightarrow> (unit, Kernel_State) res" where
  "Kernel_process_command env st =
     (if buf_size (kq_cmdbufr st) \<noteq> 4 then Fail st
      else
        (case command_of (b_data (kq_cmdbufr st)) of
           Some show_measurement \<Rightarrow> k_show env (MODEL_DIR @ ''measurement'') st
         | Some show_state \<Rightarrow> k_show env (MODEL_DIR @ ''state'') st
         | Some show_trajectory \<Rightarrow> Kernel_send_trajectory env st
         | Some show_counts \<Rightarrow> Kernel_send_counts env (MODEL_DIR @ ''trajectory_counts'') st
         | Some show_coefficients \<Rightarrow> Kernel_send_coefficients env TRAJECTORY_COEFFICIENTS st
         | Some show_forensics \<Rightarrow> Kernel_send_forensics env st
         | Some show_forensics_counts \<Rightarrow> Kernel_send_counts env (MODEL_DIR @ ''forensics_counts'') st
         | Some show_forensics_coefficients \<Rightarrow> Kernel_send_coefficients env (MODEL_DIR @ ''forensics_coefficients'') st
         | Some seal_event \<Rightarrow> Kernel_seal_domain env st
         | Some show_map \<Rightarrow> Kernel_send_map env st
         | _ \<Rightarrow> Fail st))"

section \<open>Loading a model\<close>

text \<open>Before a key was read there is no buffer for the signed data.\<close>

definition Kernel_add_entry :: "string \<Rightarrow> Kernel_State \<Rightarrow> (unit, Kernel_State) res" where
  "Kernel_add_entry line st =
     (case kq_sigdata st of
        None \<Rightarrow> Ret () st
      | Some d \<Rightarrow> zoom (\<lambda>d. st\<lparr>kq_sigdata := Some d\<rparr>) (buf_add (line @ [NUL]) d))"

text \<open>The function is the one of the same name in \<open>TSEM.c\<close>.\<close>

definition Kernel_verify_model :: "crypto \<Rightarrow> string \<Rightarrow> byte list \<Rightarrow> buf \<Rightarrow> (bool, buf) res" where
  "Kernel_verify_model = TSEM_verify_model"

text \<open>The argument with its NUL, as a buffer.\<close>

definition k_argument :: "string \<Rightarrow> buf" where
  "k_argument arg = \<lparr>b_poisoned = False, b_data = arg @ [NUL]\<rparr>"

definition Kernel_load_command ::
  "kernel_environment \<Rightarrow> load_command \<Rightarrow> string \<Rightarrow> string \<Rightarrow> Kernel_State \<Rightarrow> (unit, Kernel_State) res" where
  "Kernel_load_command env cmd text arg =
     (case cmd of
        Cmd_comment \<Rightarrow> Kernel_add_entry text
      | Cmd_key \<Rightarrow> steps
          [assign (\<lambda>st. st\<lparr>kq_sigdata := Some buf_empty\<rparr>),
           Kernel_add_entry text,
           fail_if (\<lambda>st. kq_key st \<noteq> None),
           assign (\<lambda>st. st\<lparr>kq_key := Some buf_empty\<rparr>),
           (\<lambda>st. zoom (\<lambda>k. st\<lparr>kq_key := Some k\<rparr>) (buf_add (arg @ [NUL]) (the (kq_key st))))]
      | Cmd_aggregate \<Rightarrow> Kernel_add_entry text
      | Cmd_base \<Rightarrow> steps
          [Kernel_add_entry text, k_control (TSEMcontrol_set_base (ke_control env) (k_argument arg))]
      | Cmd_state \<Rightarrow> steps
          [Kernel_add_entry text, k_control (TSEMcontrol_add_state (ke_control env) (k_argument arg))]
      | Cmd_pseudonym \<Rightarrow> steps
          [Kernel_add_entry text, k_control (TSEMcontrol_pseudonym (ke_control env) (k_argument arg))]
      | Cmd_seal \<Rightarrow> steps [Kernel_add_entry text, k_control (TSEMcontrol_seal (ke_control env))]
      | Cmd_signature \<Rightarrow>
          (\<lambda>st. case (kq_key st, kq_sigdata st) of
             (Some key, Some sigdata) \<Rightarrow>
               (let st1 = st\<lparr>kq_key := None, kq_sigdata := None\<rparr>
                in case Kernel_verify_model (ke_crypto env) arg (b_data sigdata) key of
                     Undef \<Rightarrow> Undef
                   | Fail _ \<Rightarrow> Fail st1
                   | Ret valid _ \<Rightarrow> (if valid then Ret () st1 else Fail st1))
           | _ \<Rightarrow> Fail st)
      | Cmd_end \<Rightarrow> steps [Kernel_add_entry text, assign (\<lambda>st. st\<lparr>kq_loading := False\<rparr>)])"

text \<open>The table has no sentinel.\<close>

definition Kernel_load :: "kernel_environment \<Rightarrow> string \<Rightarrow> Kernel_State \<Rightarrow> (unit, Kernel_State) res" where
  "Kernel_load env text st =
     (case find_command Security_cmd_list text of
        None \<Rightarrow> Undef
      | Some (cmd, syntax, has_arg) \<Rightarrow>
          let st1 = (if cmd \<noteq> Cmd_signature \<and> \<not> kq_loading st then st\<lparr>kq_loading := True\<rparr> else st);
              arg = drop (length syntax) text
          in if has_arg \<and> arg = [] then Fail st1 else Kernel_load_command env cmd text arg st1)"

fun Kernel_load_model :: "kernel_environment \<Rightarrow> string list \<Rightarrow> Kernel_State \<Rightarrow> (unit, Kernel_State) res" where
  "Kernel_load_model env [] st = Ret () st"
| "Kernel_load_model env (entry # entries) st = res_bind (Kernel_load env entry st) (\<lambda>_. Kernel_load_model env entries)"

definition Kernel_setup_namespace ::
  "kernel_environment \<Rightarrow> bool \<Rightarrow> string option \<Rightarrow> string option \<Rightarrow> u64 \<Rightarrow> bool \<Rightarrow>
   Kernel_State \<Rightarrow> (unit, Kernel_State) res" where
  "Kernel_setup_namespace env current model digest magazine enforce =
     steps
       [k_control (TSEMcontrol_create_ns (ke_control env) TSEMcontrol_TYPE_INTERNAL model digest
          (if current then Some TSEMcontrol_CURRENT_NS else None) (ucast magazine)),
        (\<lambda>st. if enforce then k_control (TSEMcontrol_enforce (ke_control env)) st else Ret () st)]"

section \<open>Passing the model to the parent\<close>

text \<open>The results of the writes to the pipe are ignored, and so is that of these two, which is always false.\<close>

definition k_write :: "string \<Rightarrow> Kernel_State \<Rightarrow> Kernel_State" where
  "k_write t st = st\<lparr>kq_pipe := kq_pipe st @ t\<rparr>"

definition Kernel_upload_model :: "kernel_environment \<Rightarrow> Kernel_State \<Rightarrow> (unit, Kernel_State) res" where
  "Kernel_upload_model env st =
     (case k_open env AGGREGATE st of
        Ret (l # _) st1 \<Rightarrow>
          (case k_open env TRAJECTORY_COEFFICIENTS (k_write (''aggregate '' @ l @ end_line) st1) of
             Ret ls st2 \<Rightarrow>
               Fail (k_write (concat (map (\<lambda>l. ''state '' @ l @ end_line) ls) @ ''seal'' @ end_line @ ''end'' @ end_line) st2)
           | Fail st2 \<Rightarrow> Fail st2
           | Undef \<Rightarrow> Undef)
      | Ret [] st1 \<Rightarrow> Fail st1
      | Fail st1 \<Rightarrow> Fail st1
      | Undef \<Rightarrow> Undef)"

definition Kernel_upload_trajectory :: "kernel_environment \<Rightarrow> Kernel_State \<Rightarrow> (unit, Kernel_State) res" where
  "Kernel_upload_trajectory env st =
     (case k_open env (MODEL_DIR @ ''trajectory'') st of
        Ret ls st1 \<Rightarrow> Fail (k_write (concat (map (\<lambda>l. l @ end_line) ls)) st1)
      | Fail st1 \<Rightarrow> Fail st1
      | Undef \<Rightarrow> Undef)"

text \<open>
  The parent reads the pipe.  The model is read byte by byte until the pipe is at its end, or, when \<open>ok\<close> is false,
  until a read fails; a rest without a newline is dropped.  \<open>up file\<close> tells whether the file takes one more buffer.
\<close>

fun receive_model_loop ::
  "(byte list list \<Rightarrow> bool) \<Rightarrow> bool \<Rightarrow> byte list \<Rightarrow> buf \<times> byte list list \<Rightarrow> (unit, buf \<times> byte list list) res" where
  "receive_model_loop up ok [] x = (if ok then Ret () x else Fail x)"
| "receive_model_loop up ok (c # cs) x =
     (case x of (bufr, file) \<Rightarrow>
        res_bind (zoom (\<lambda>b. (b, file)) (buf_add [c] bufr)) (\<lambda>_ (bufr, file).
          if c \<noteq> CHR 0x0A then receive_model_loop up ok cs (bufr, file)
          else if b_poisoned bufr \<or> \<not> up file then Fail (bufr, file)
          else receive_model_loop up ok cs (buf_reset bufr, file @ [b_data bufr])))"

definition Kernel_receive_model ::
  "(byte list list \<Rightarrow> bool) \<Rightarrow> bool \<Rightarrow> byte list \<Rightarrow> bool \<Rightarrow> (unit, buf \<times> byte list list) res" where
  "Kernel_receive_model up opened pipe ok =
     (if \<not> opened then Fail (buf_empty, []) else receive_model_loop up ok pipe (buf_empty, []))"

text \<open>
  The trajectory is read into an array of two characters, as many of them as a \<open>read\<close> returns: \<open>reads\<close> are what the
  calls return, one or two bytes each, up to the end of the pipe.  The array is used as a C string.
\<close>

fun receive_trajectory_loop ::
  "(byte list list \<Rightarrow> bool) \<Rightarrow> bool \<Rightarrow> byte list list \<Rightarrow> byte list \<times> hstr \<times> byte list list \<Rightarrow>
   (unit, byte list \<times> hstr \<times> byte list list) res" where
  "receive_trajectory_loop up ok [] x = (if ok then Ret () x else Fail x)"
| "receive_trajectory_loop up ok (r # rs) x =
     (case x of (array, str, file) \<Rightarrow>
        (let inchar = overwrite r array
         in if hd inchar \<noteq> CHR 0x0A then
              (case c_string inchar of
                 None \<Rightarrow> Undef
               | Some t \<Rightarrow>
                   res_bind (zoom (\<lambda>s. (inchar, s, file)) (hs_add t str)) (\<lambda>_. receive_trajectory_loop up ok rs))
            else
              res_bind (zoom (\<lambda>s. (inchar, s, file)) (hs_add end_line str)) (\<lambda>_ (inchar, str, file).
                if \<not> up file then Fail (inchar, str, file)
                else receive_trajectory_loop up ok rs (inchar, hs_reset str, file @ [hs_chars str]))))"

definition Kernel_receive_trajectory ::
  "(byte list list \<Rightarrow> bool) \<Rightarrow> bool \<Rightarrow> byte \<Rightarrow> byte list list \<Rightarrow> bool \<Rightarrow>
   (unit, byte list \<times> hstr \<times> byte list list) res" where
  "Kernel_receive_trajectory up opened junk reads ok =
     (let array = [junk, NUL] in
      if \<not> opened then Fail (array, hs_empty, []) else receive_trajectory_loop up ok reads (array, hs_empty, []))"

section \<open>The monitor\<close>

text \<open>
  One pass: an error of \<open>poll\<close> that is not an interruption, or the signals that came since the last pass, whether the
  workload has exited, and what the management socket has.  The flags of the signals are never cleared.  \<open>pause\<close> and
  \<open>trajectory\<close> are options of the command line.
\<close>

datatype kernel_io =
  Kernel_idle
| Kernel_socket bool "byte list option" bool bool

datatype kernel_input =
  Kernel_poll_error
| Kernel_pass bool bool bool kernel_io

definition Kernel_kill_cartridge :: "bool \<Rightarrow> Kernel_State \<Rightarrow> Kernel_State" where
  "Kernel_kill_cartridge wait st = st\<lparr>kq_kills := kq_kills st @ [wait]\<rparr>"

definition Kernel_manage ::
  "kernel_environment \<Rightarrow> bool \<Rightarrow> byte list option \<Rightarrow> bool \<Rightarrow> bool \<Rightarrow> Kernel_State \<Rightarrow> (monitor_answer, Kernel_State) res" where
  "Kernel_manage env accepted msg eof socket st =
     (if \<not> kq_connected st then
        (if accepted then Ret Goes_on (st\<lparr>kq_connected := True\<rparr>) else Ret (Ends False) st)
      else
        (case msg of
           None \<Rightarrow> Ret Goes_on st
         | Some bs \<Rightarrow>
             (case buf_add bs (kq_cmdbufr st) of
                Undef \<Rightarrow> Undef
              | Fail b \<Rightarrow> Ret Goes_on (st\<lparr>kq_cmdbufr := b\<rparr>)
              | Ret _ b \<Rightarrow>
                  (let st1 = st\<lparr>kq_cmdbufr := b\<rparr>
                   in if eof then
                        (if socket then Ret Goes_on (st1\<lparr>kq_connected := False\<rparr>) else Ret (Ends False) st1)
                      else
                        (case Kernel_process_command env st1 of
                           Undef \<Rightarrow> Undef
                         | Fail st2 \<Rightarrow> Ret (Ends False) st2
                         | Ret _ st2 \<Rightarrow> Ret Goes_on (st2\<lparr>kq_cmdbufr := buf_reset (kq_cmdbufr st2)\<rparr>))))))"

definition Kernel_monitor_step ::
  "kernel_environment \<Rightarrow> bool \<Rightarrow> bool \<Rightarrow> kernel_input \<Rightarrow> Kernel_State \<Rightarrow> (monitor_answer, Kernel_State) res" where
  "Kernel_monitor_step env pause trajectory inp st =
     (case inp of
        Kernel_poll_error \<Rightarrow> Ret (Ends False) st
      | Kernel_pass stop child exited io \<Rightarrow>
          (let st1 = st\<lparr>kq_stop := kq_stop st \<or> stop, kq_sigchild := kq_sigchild st \<or> child\<rparr>
           in if kq_stop st1 then Ret (Ends True) (Kernel_kill_cartridge True st1)
              else if kq_sigchild st1 then
                (if \<not> exited then Ret Goes_on st1
                 else if pause then
                   res_bind
                     (attempt (if trajectory then Kernel_upload_trajectory env else Kernel_upload_model env) st1)
                     (\<lambda>_. Ret (Ends True))
                 else Ret (Ends True) st1)
              else
                (case io of
                   Kernel_idle \<Rightarrow> Ret Goes_on st1
                 | Kernel_socket accepted msg eof socket \<Rightarrow> Kernel_manage env accepted msg eof socket st1)))"

fun Kernel_child_monitor ::
  "kernel_environment \<Rightarrow> bool \<Rightarrow> bool \<Rightarrow> kernel_input list \<Rightarrow> Kernel_State \<Rightarrow> (unit, Kernel_State) res" where
  "Kernel_child_monitor env pause trajectory [] st = Ret () st"
| "Kernel_child_monitor env pause trajectory (inp # inputs) st =
     (case Kernel_monitor_step env pause trajectory inp st of
        Undef \<Rightarrow> Undef
      | Fail st1 \<Rightarrow> Fail st1
      | Ret answer st1 \<Rightarrow>
          (case answer of
             Goes_on \<Rightarrow> Kernel_child_monitor env pause trajectory inputs st1
           | Ends retn \<Rightarrow> (if retn then Ret () st1 else Fail st1)))"

end
