(* ===== verification/QuixoteConsole.thy ===== *)
theory QuixoteConsole
  imports Quixote LocalDuct
begin

text \<open>
  The management client (\<open>Quixote/quixote-console.c\<close>): it sends the number of a command to an orchestrator and
  prints what comes back.  \<open>co_out\<close> is what was written to the standard output; \<open>tty\<close> tells whether that is
  a terminal.
\<close>

section \<open>State\<close>

record Console_State =
  co_duct :: LocalDuct_State
  co_bufr :: buf
  co_out :: string

text \<open>The message is added to what the buffer holds.\<close>

definition co_receive :: "socket_io \<Rightarrow> Console_State \<Rightarrow> (unit, Console_State) res" where
  "co_receive io S =
     zoom (\<lambda>(d, b). S\<lparr>co_duct := d, co_bufr := b\<rparr>) (LocalDuct_receive_Buffer io (co_duct S, co_bufr S))"

definition co_reset :: "Console_State \<Rightarrow> Console_State" where
  "co_reset S = S\<lparr>co_bufr := buf_reset (co_bufr S)\<rparr>"

definition co_print :: "string \<Rightarrow> Console_State \<Rightarrow> Console_State" where
  "co_print t S = S\<lparr>co_out := co_out S @ t\<rparr>"

text \<open>
  The buffer as a C string: the empty buffer was used before, so its memory holds 0; the memory behind a message without a
  NUL is not part of this model.
\<close>

definition co_text :: "Console_State \<Rightarrow> string option" where
  "co_text S = (if b_poisoned (co_bufr S) then None
                else if b_data (co_bufr S) = [] then Some [] else c_string (b_data (co_bufr S)))"

text \<open>\<open>fprintf(stdout, "...%s\n", cmdbufr->get(cmdbufr))\<close>\<close>

definition co_print_text :: "string \<Rightarrow> Console_State \<Rightarrow> (unit, Console_State) res" where
  "co_print_text prefix S =
     (case co_text S of None \<Rightarrow> Undef | Some t \<Rightarrow> Ret () (co_print (prefix @ t @ end_line) S))"

text \<open>\<open>cmdbufr->print(cmdbufr)\<close>\<close>

definition co_print_hex :: "Console_State \<Rightarrow> Console_State" where
  "co_print_hex S = (if b_poisoned (co_bufr S) then S else co_print (sprint_hex (b_data (co_bufr S)) @ end_line) S)"

section \<open>Lists\<close>

fun co_items :: "socket_io \<Rightarrow> string \<Rightarrow> nat \<Rightarrow> Console_State \<Rightarrow> (unit, Console_State) res" where
  "co_items io prefix 0 S = Ret () S"
| "co_items io prefix (Suc cnt) S =
     res_bind (co_receive io (co_reset S)) (\<lambda>_ S. res_bind (co_print_text prefix S) (\<lambda>_. co_items io prefix cnt))"

text \<open>
  The number of the items is an \<open>unsigned int\<close> at the start of the message.  The buffer has held the four bytes of the
  command, so a shorter message is followed by 0.
\<close>

definition co_list :: "socket_io \<Rightarrow> bool \<Rightarrow> string \<Rightarrow> Console_State \<Rightarrow> (unit, Console_State) res" where
  "co_list io tty title S =
     res_bind (co_receive io (co_reset S)) (\<lambda>_ S.
       if b_poisoned (co_bufr S) then Undef
       else
         let cnt = le_value (take 4 (b_data (co_bufr S)));
             S1 = (if tty then co_print (title @ sprint_u cnt @ end_line) S else S)
         in res_bind (co_items io [] cnt S1) (\<lambda>_ S. Ret () (co_reset S)))"

definition Console_receive_trajectory :: "socket_io \<Rightarrow> bool \<Rightarrow> Console_State \<Rightarrow> (unit, Console_State) res" where
  "Console_receive_trajectory io tty = co_list io tty ''Trajectory size: ''"

definition Console_receive_list :: "socket_io \<Rightarrow> bool \<Rightarrow> Console_State \<Rightarrow> (unit, Console_State) res" where
  "Console_receive_list io tty = co_list io tty ''List size: ''"

definition Console_receive_forensics :: "socket_io \<Rightarrow> bool \<Rightarrow> Console_State \<Rightarrow> (unit, Console_State) res" where
  "Console_receive_forensics io tty = co_list io tty ''Forensics size: ''"

definition Console_receive_coefficients :: "socket_io \<Rightarrow> bool \<Rightarrow> Console_State \<Rightarrow> (unit, Console_State) res" where
  "Console_receive_coefficients io tty = co_list io tty ''State size: ''"

definition Console_receive_TE_events :: "socket_io \<Rightarrow> bool \<Rightarrow> Console_State \<Rightarrow> (unit, Console_State) res" where
  "Console_receive_TE_events io tty = co_list io tty ''Untrusted event size: ''"

text \<open>The map is printed as a model file.\<close>

definition Console_receive_map :: "socket_io \<Rightarrow> Console_State \<Rightarrow> (unit, Console_State) res" where
  "Console_receive_map io S =
     res_bind (co_receive io (co_reset S)) (\<lambda>_ S.
       res_bind (co_receive io (co_reset (co_print_hex (co_print ''aggregate '' S)))) (\<lambda>_ S.
         if b_poisoned (co_bufr S) then Undef
         else
           res_bind (co_items io ''state '' (le_value (take 4 (b_data (co_bufr S)))) S) (\<lambda>_ S.
             Ret () (co_reset (co_print (''end'' @ end_line) (co_print (''seal'' @ end_line) S))))))"

section \<open>Commands\<close>

definition Console_receive_command ::
  "socket_io \<Rightarrow> bool \<Rightarrow> sancho_command \<Rightarrow> Console_State \<Rightarrow> (unit, Console_State) res" where
  "Console_receive_command io tty cmd S =
     (case cmd of
        seal_event \<Rightarrow>
          res_bind (co_receive io S) (\<lambda>_ S. res_bind (co_print_text [] S) (\<lambda>_ S. Ret () (co_reset S)))
      | enable_cell \<Rightarrow>
          res_bind (co_receive io S) (\<lambda>_ S. res_bind (co_print_text [] S) (\<lambda>_ S. Ret () (co_reset S)))
      | show_measurement \<Rightarrow> res_bind (co_receive io S) (\<lambda>_ S. Ret () (co_reset (co_print_hex S)))
      | show_state \<Rightarrow> res_bind (co_receive io S) (\<lambda>_ S. Ret () (co_reset (co_print_hex S)))
      | show_trajectory \<Rightarrow> Console_receive_trajectory io tty S
      | show_counts \<Rightarrow> Console_receive_list io tty S
      | show_forensics_counts \<Rightarrow> Console_receive_list io tty S
      | show_forensics \<Rightarrow> Console_receive_forensics io tty S
      | show_coefficients \<Rightarrow> Console_receive_coefficients io tty S
      | show_forensics_coefficients \<Rightarrow> Console_receive_coefficients io tty S
      | show_events \<Rightarrow> Console_receive_TE_events io tty S
      | show_map \<Rightarrow> Console_receive_map io S
      | _ \<Rightarrow> Fail S)"

definition number_of :: "sancho_command \<Rightarrow> u32" where
  "number_of cmd = of_int (fst (the (find (\<lambda>(n, c). c = cmd) command_number)))"

text \<open>
  The last command of the table with the text.  \<open>replies\<close>: what is on its way to the client once the orchestrator has
  the command.
\<close>

definition Console_process_command ::
  "socket_io \<Rightarrow> bool \<Rightarrow> string \<Rightarrow> byte list \<Rightarrow> LocalDuct_State \<times> string \<Rightarrow> (unit, LocalDuct_State \<times> string) res" where
  "Console_process_command io tty cmd replies = (\<lambda>(d, out).
     case map_of (rev (map prod.swap Sancho_cmd_list)) cmd of
       None \<Rightarrow> Ret () (d, out @ ''Unknown command: '' @ cmd @ end_line)
     | Some c \<Rightarrow>
         (let b = \<lparr>b_poisoned = False, b_data = u32_bytes (number_of c)\<rparr>
          in case LocalDuct_send_Buffer io (Some b) d of
               Undef \<Rightarrow> Undef
             | Fail d1 \<Rightarrow> Fail (d1, out)
             | Ret _ d1 \<Rightarrow>
                 zoom (\<lambda>S. (co_duct S, co_out S))
                   (Console_receive_command io tty c
                     \<lparr>co_duct = d1\<lparr>ld_in := ld_in d1 @ replies\<rparr>, co_bufr = buf_reset b, co_out = out\<rparr>)))"

datatype Oneshot_mode =
  oneshot_none | oneshot_state | oneshot_trajectory | oneshot_counts | oneshot_forensics | oneshot_points |
  oneshot_events | oneshot_map

definition oneshot_command :: "Oneshot_mode \<Rightarrow> string option" where
  "oneshot_command mode =
     (case mode of
        oneshot_state \<Rightarrow> Some ''show state''
      | oneshot_trajectory \<Rightarrow> Some ''show trajectory''
      | oneshot_forensics \<Rightarrow> Some ''show forensics''
      | oneshot_points \<Rightarrow> Some ''show coefficients''
      | oneshot_events \<Rightarrow> Some ''show events''
      | oneshot_map \<Rightarrow> Some ''show map''
      | oneshot_counts \<Rightarrow> Some ''show counts''
      | oneshot_none \<Rightarrow> None)"

definition Console_process_oneshot ::
  "socket_io \<Rightarrow> bool \<Rightarrow> Oneshot_mode \<Rightarrow> byte list \<Rightarrow> LocalDuct_State \<times> string \<Rightarrow> (unit, LocalDuct_State \<times> string) res" where
  "Console_process_oneshot io tty mode replies x =
     (case oneshot_command mode of None \<Rightarrow> Fail x | Some cmd \<Rightarrow> Console_process_command io tty cmd replies x)"

text \<open>
  The socket of an orchestrator: by its process or by the name of its cartridge.  Without one the path is a text to which
  nothing was added, so NULL.
\<close>

datatype console_mode = show_mode | process_mode string | cartridge_mode string

definition console_path :: "console_mode \<Rightarrow> string option" where
  "console_path mode =
     (case mode of
        show_mode \<Rightarrow> None
      | process_mode pid \<Rightarrow> Some (''/var/lib/Quixote/mgmt/processes/pid-'' @ pid)
      | cartridge_mode name \<Rightarrow> Some (''/var/lib/Quixote/mgmt/cartridges/'' @ name))"

definition Console_setup_management ::
  "socket_io \<Rightarrow> console_mode \<Rightarrow> LocalDuct_State \<Rightarrow> (unit, LocalDuct_State) res" where
  "Console_setup_management io mode =
     steps
       [LocalDuct_init_client,
        (\<lambda>S. case console_path mode of None \<Rightarrow> Undef | Some path \<Rightarrow> LocalDuct_init_port io path S)]"

end
