(* ===== verification/QuixoteModels.thy ===== *)
theory QuixoteModels
  imports QuixoteProps
begin

text \<open>
  Model files: what \<open>output_model\<close> writes and what \<open>load_model\<close> makes of it.
\<close>

section \<open>Writing\<close>

lemma encode_buffer_of [simp]: "encode_buffer bs (hs_of t) = hs_of (t @ sprint_hex bs)"
  by (induction bs arbitrary: t) (simp_all add: sprint_hex_def)

lemma new_text_ok [simp]:
  "\<not> h_poisoned str \<Longrightarrow> new_text t (st, str, bufr, out) = Ret () (st, hs_of t, bufr, out)"
  by (simp add: new_text_def hs_add_reset)

lemma write_text_ok [simp]:
  assumes "up out" "\<not> b_poisoned bufr"
  shows "write_text up tail (st, hs_of t, bufr, out) =
     Ret () (st, hs_of t, \<lparr>b_poisoned = False, b_data = t @ tail\<rparr>, out @ [t @ tail])"
  using assms by (cases bufr) (simp add: write_text_def buf_add_def buf_reset_def)

definition model_line :: "string \<Rightarrow> byte list \<Rightarrow> string" where
  "model_line key bs = key @ sprint_hex bs"

text \<open>The lines of the points from the cursor on.\<close>

lemma write_points_ok:
  assumes "\<forall>w. up w" "\<not> h_poisoned str" "\<not> b_poisoned bufr"
    and "ts_points (qx_model st) = gaggle_of ps c" "\<not> ts_poisoned (qx_model st)"
  shows "\<exists>g str' bufr'. write_points up n (st, str, bufr, out) =
     Ret () (st\<lparr>qx_model := (qx_model st)\<lparr>ts_points := g\<rparr>\<rparr>, str', bufr',
       out @ map (\<lambda>p. model_line ''state '' (sp_point p) @ end_line) (take n (drop c ps))) \<and>
     \<not> h_poisoned str' \<and> \<not> b_poisoned bufr'"
  using assms(2-5)
proof (induction n arbitrary: st str bufr out c)
  case 0
  show ?case
    by (intro exI [of _ "ts_points (qx_model st)"] exI [of _ str] exI [of _ bufr]) (use 0 in simp)
next
  case (Suc n)
  note get = TSEM_get_point_of [OF Suc.prems(3,4)]
  show ?case
  proof (cases "c < length ps")
    case True
    have here: "drop c ps = ps ! c # drop (Suc c) ps" using True by (rule Cons_nth_drop_Suc [symmetric])
    let ?st = "st\<lparr>qx_model := (qx_model st)\<lparr>ts_points := gaggle_of ps (Suc c)\<rparr>\<rparr>"
    let ?t = "model_line ''state '' (sp_point (ps ! c))"
    have "ts_points (qx_model ?st) = gaggle_of ps (Suc c)" "\<not> ts_poisoned (qx_model ?st)" using Suc.prems(4) by simp_all
    from Suc.IH [OF _ _ this, of "hs_of ?t" "\<lparr>b_poisoned = False, b_data = ?t @ end_line\<rparr>" "out @ [?t @ end_line]"]
    show ?thesis
      using assms(1) Suc.prems(1,2) get True here by (auto simp: model_line_def SecurityPoint_get_def)
  next
    case False
    let ?st = "st\<lparr>qx_model := (qx_model st)\<lparr>ts_points := gaggle_of ps c\<rparr>\<rparr>"
    have "ts_points (qx_model ?st) = gaggle_of ps c" "\<not> ts_poisoned (qx_model ?st)" using Suc.prems(4) by simp_all
    from Suc.IH [OF Suc.prems(1,2) this, of out] show ?thesis using get False by auto
  qed
qed

definition model_lines :: "byte list \<Rightarrow> byte list list \<Rightarrow> string list" where
  "model_lines agg ds =
     [model_line ''aggregate '' agg] @ map (model_line ''state '') ds @ [''seal'', ''end'']"

lemma output_model_lines:
  assumes up: "\<forall>w. env_file env w" and agg: "qx_aggregate st = Some a" "\<not> b_poisoned a"
    and ok: "tsem_ok (qx_model st)" "\<not> ts_poisoned (qx_model st)"
  shows "\<exists>st'. output_model env True st =
     Ret () (st', map (\<lambda>l. l @ end_line) (model_lines (b_data a) (map sp_point (points_of (qx_model st)))))"
proof -
  obtain ps c where ps: "ts_points (qx_model st) = gaggle_of ps c"
    using ok(1) by (auto simp: tsem_ok_def points_ok_def)
  let ?st = "st\<lparr>qx_model := TSEM_rewind_points (qx_model st)\<rparr>"
  have m: "ts_points (qx_model ?st) = gaggle_of ps 0" "\<not> ts_poisoned (qx_model ?st)"
    "TSEM_points_size (qx_model ?st) = length ps"
    using ps ok(2) by (simp_all add: TSEM_rewind_points_def TSEM_points_size_def)
  let ?t = "model_line ''aggregate '' (b_data a)"
  let ?lines = "map (\<lambda>p. model_line ''state '' (sp_point p) @ end_line) ps"
  obtain g str bufr where points: "write_points (env_file env) (length ps)
      (?st, hs_of ?t, \<lparr>b_poisoned = False, b_data = ?t @ end_line\<rparr>, [?t @ end_line]) =
      Ret () (?st\<lparr>qx_model := (qx_model ?st)\<lparr>ts_points := g\<rparr>\<rparr>, str, bufr, [?t @ end_line] @ ?lines)"
    "\<not> h_poisoned str" "\<not> b_poisoned bufr"
    using write_points_ok [OF up _ _ m(1,2), where n = "length ps" and str = "hs_of ?t" and
        bufr = "\<lparr>b_poisoned = False, b_data = ?t @ end_line\<rparr>" and out = "[?t @ end_line]"] by auto
  have "output_model env True st = Ret () (?st\<lparr>qx_model := (qx_model ?st)\<lparr>ts_points := g\<rparr>\<rparr>,
      [?t @ end_line] @ ?lines @ [''seal'' @ end_line, ''end'' @ end_line])"
    using up agg m(3) points by (simp add: output_model_def model_line_def buf_empty_def)
  moreover have "points_of (qx_model st) = ps" by (simp add: ps)
  ultimately show ?thesis by (auto simp: model_lines_def)
qed

section \<open>Loading\<close>

text \<open>A model that is being loaded: the points \<open>ds\<close> are in it, and the measurement is that of their discovery.\<close>

definition loading :: "(byte list \<Rightarrow> byte list) \<Rightarrow> byte list \<Rightarrow> byte list list \<Rightarrow> TSEM_State \<Rightarrow> bool" where
  "loading sha agg ds S \<longleftrightarrow>
     tsem_ok S \<and> \<not> ts_poisoned S \<and> \<not> ts_sealed S \<and> ts_loading S \<and> ts_base S = zero_id \<and> ts_have_aggregate S \<and>
     b_data (ts_aggregate S) = extend_value sha zero_id zero_id agg \<and>
     map sp_point (points_of S) = ds \<and> violations S = [] \<and>
     ts_measurement S = foldl (extend_value sha zero_id) (extend_value sha zero_id zero_id agg) ds \<and>
     (\<exists>b. ts_sigdata S = Some b \<and> \<not> b_poisoned b)"

lemma load_effect:
  assumes "sha_ok (cr_sha cr)" "tsem_ok S" "TSEM_load cr entry S = Ret u T"
  shows "tsem_ok T"
proof -
  have "keeps (effect S) (TSEM_load cr entry S)"
    using effectful_load [OF assms(1)] assms(2) by (simp add: effectful_def)
  then show ?thesis using assms(3) effect_ok by simp
qed

lemma hex_argument:
  "bs \<noteq> [] \<Longrightarrow> sprint_hex bs \<noteq> []"
  "bs \<noteq> [] \<Longrightarrow> buf_add_hexstring (Some (sprint_hex bs)) buf_empty = Ret () \<lparr>b_poisoned = False, b_data = bs\<rparr>"
proof -
  show ne: "sprint_hex bs \<noteq> []" if "bs \<noteq> []"
  proof
    assume "sprint_hex bs = []"
    then have "length (sprint_hex bs) = 0" by simp
    with that show False by simp
  qed
  show "buf_add_hexstring (Some (sprint_hex bs)) buf_empty = Ret () \<lparr>b_poisoned = False, b_data = bs\<rparr>" if "bs \<noteq> []"
    using ne [OF that] by (simp add: buf_add_hexstring_def buf_empty_def hex_decode_sprint_hex)
qed

lemma find_lines:
  "find_command Security_cmd_list (model_line ''aggregate '' bs) = Some (Cmd_aggregate, ''aggregate '', True)"
  "find_command Security_cmd_list (model_line ''state '' bs) = Some (Cmd_state, ''state '', True)"
  "find_command Security_cmd_list ''seal'' = Some (Cmd_seal, ''seal'', False)"
  "find_command Security_cmd_list ''end'' = Some (Cmd_end, ''end'', False)"
  by (simp_all add: Security_cmd_list_def model_line_def)

lemma load_line:
  assumes "\<not> ts_poisoned S" "bs \<noteq> []" "cmd \<noteq> Cmd_signature"
    and "find_command Security_cmd_list (model_line key bs) = Some (cmd, key, True)"
  shows "TSEM_load cr (hs_of (model_line key bs)) S = TSEM_load_command cr cmd (model_line key bs) (sprint_hex bs)
     (S\<lparr>ts_loading := True, ts_sigdata := Some (case ts_sigdata S of None \<Rightarrow> buf_empty | Some b \<Rightarrow> b)\<rparr>)"
proof -
  let ?S1 = "if cmd \<noteq> Cmd_signature \<and> \<not> ts_loading S then S\<lparr>ts_loading := True\<rparr> else S"
  have arg: "drop (length key) (model_line key bs) = sprint_hex bs" by (simp add: model_line_def)
  have S2: "(if ts_sigdata ?S1 = None then ?S1\<lparr>ts_sigdata := Some buf_empty\<rparr> else ?S1) =
      S\<lparr>ts_loading := True, ts_sigdata := Some (case ts_sigdata S of None \<Rightarrow> buf_empty | Some b \<Rightarrow> b)\<rparr>"
    using assms(3) by (cases S; cases "ts_sigdata S"; cases "ts_loading S") simp_all
  have "TSEM_load cr (hs_of (model_line key bs)) S = TSEM_load_command cr cmd (model_line key bs) (sprint_hex bs)
      (if ts_sigdata ?S1 = None then ?S1\<lparr>ts_sigdata := Some buf_empty\<rparr> else ?S1)"
    unfolding TSEM_load_def Let_def assms(4) hs_get_of option.case prod.case arg
    using assms(1) hex_argument(1) [OF assms(2)] by (simp only: if_False simp_thms)
  then show ?thesis unfolding S2 .
qed

lemma load_aggregate:
  assumes sha: "sha_ok (cr_sha cr)" and agg: "length agg = IDSIZE"
  shows "\<exists>S. TSEM_load cr (hs_of (model_line ''aggregate '' agg)) TSEM_Init = Ret () S \<and> loading (cr_sha cr) agg [] S"
proof -
  have ne: "agg \<noteq> []" using agg by auto
  have init: "\<not> ts_poisoned TSEM_Init" "ts_sigdata TSEM_Init = None" by (simp_all add: TSEM_Init_def)
  have cmd: "Cmd_aggregate \<noteq> Cmd_signature" by simp
  let ?v = "extend_value (cr_sha cr) zero_id zero_id agg"
  have "TSEM_extend_measurement (cr_sha cr) zero_id agg zero_id = Ret ?v ?v"
    using TSEM_extend_measurement_value [OF sha, of agg zero_id zero_id] agg by simp
  then obtain S where S: "TSEM_load cr (hs_of (model_line ''aggregate '' agg)) TSEM_Init = Ret () S"
    "\<not> ts_poisoned S" "\<not> ts_sealed S" "ts_loading S" "ts_base S = zero_id" "ts_have_aggregate S"
    "b_data (ts_aggregate S) = ?v" "points_of S = []" "ts_measurement S = ?v"
    "\<exists>b. ts_sigdata S = Some b \<and> \<not> b_poisoned b"
    using hex_argument(2) [OF ne]
    unfolding load_line [OF init(1) ne cmd find_lines(1)] init(2)
    by (simp add: TSEM_load_command_def TSEM_add_entry_def with_hex_def TSEM_set_aggregate_def TSEM_Init_def buf_empty_def buf_add_def on_aggregate_def Gaggle_Init_def)
  moreover have "tsem_ok S" by (rule load_effect [OF sha tsem_ok_Init S(1)])
  ultimately show ?thesis by (auto simp: loading_def violations_def)
qed

lemma load_state:
  assumes sha: "sha_ok (cr_sha cr)" and S: "loading (cr_sha cr) agg ds S" and d: "length d = IDSIZE" "d \<notin> set ds"
  shows "\<exists>T. TSEM_load cr (hs_of (model_line ''state '' d)) S = Ret () T \<and> loading (cr_sha cr) agg (ds @ [d]) T"
proof -
  have ne: "d \<noteq> []" using d(1) by auto
  from S obtain b where L: "tsem_ok S" "\<not> ts_poisoned S" "\<not> ts_sealed S" "ts_loading S" "ts_base S = zero_id"
    "ts_have_aggregate S" "map sp_point (points_of S) = ds" "violations S = []"
    "ts_measurement S = foldl (extend_value (cr_sha cr) zero_id) (extend_value (cr_sha cr) zero_id zero_id agg) ds"
    "b_data (ts_aggregate S) = extend_value (cr_sha cr) zero_id zero_id agg"
    "ts_sigdata S = Some b" "\<not> b_poisoned b"
    by (auto simp: loading_def)
  obtain ps c where ps: "ts_points S = gaggle_of ps c" using L(1) by (auto simp: tsem_ok_def points_ok_def)
  let ?cp = "SecurityPoint_Init\<lparr>sp_point := d\<rparr>"
  have cp: "SecurityPoint_add \<lparr>b_poisoned = False, b_data = d\<rparr> SecurityPoint_Init = ?cp"
    using d(1) by (simp add: SecurityPoint_add_def buf_size_def)
  have "sp_point ?cp \<notin> known ps" using L(7) d(2) ps by (auto simp: known_def)
  from TSEM_is_mapped_new [OF this] have new: "TSEM_is_mapped (ts_points S) ?cp = Some (False, gaggle_of ps (length ps), ?cp)"
    by (simp add: ps)
  have cmd: "Cmd_state \<noteq> Cmd_signature" by simp
  have "\<not> sp_violation ?cp" by (simp add: SecurityPoint_Init_def)
  then obtain T where T: "TSEM_load cr (hs_of (model_line ''state '' d)) S = Ret () T"
    "\<not> ts_poisoned T" "\<not> ts_sealed T" "ts_loading T" "ts_base T = zero_id" "ts_have_aggregate T"
    "ts_aggregate T = ts_aggregate S" "map sp_point (points_of T) = ds @ [d]" "violations T = []"
    "ts_measurement T = extend_value (cr_sha cr) zero_id (ts_measurement S) d"
    "\<exists>b. ts_sigdata T = Some b \<and> \<not> b_poisoned b"
    using hex_argument(2) [OF ne] L(2-8,11,12) d(1) ps new cp
    unfolding load_line [OF L(2) ne cmd find_lines(2)]
    by (simp add: TSEM_load_command_def TSEM_add_entry_def with_hex_def
        TSEM_update_map_def buf_add_def buf_size_def SecurityPoint_get_def violations_def TSEM_extend_value [OF sha])
  moreover have "tsem_ok T" by (rule load_effect [OF sha L(1) T(1)])
  ultimately show ?thesis using L(9,10) by (auto simp: loading_def)
qed

lemma state_line_not_seal: "model_line key bs \<noteq> ''seal''" if "hd key \<noteq> CHR ''s'' \<or> take 2 key = ''st''" "key \<noteq> []"
proof
  assume "model_line key bs = ''seal''"
  then show False using that
    by (cases key; cases "tl key") (auto simp: model_line_def)
qed

lemma load_states:
  assumes sha: "sha_ok (cr_sha cr)" and S: "loading (cr_sha cr) agg ds0 (qx_model st)"
    and ds: "distinct (ds0 @ ds)" "\<forall>d \<in> set ds. length d = IDSIZE"
  shows "\<exists>T. load_entries cr (map (model_line ''state '') ds @ rest) st = load_entries cr rest (st\<lparr>qx_model := T\<rparr>) \<and>
     loading (cr_sha cr) agg (ds0 @ ds) T"
  using S ds
proof (induction ds arbitrary: st ds0)
  case Nil
  have "st = st\<lparr>qx_model := qx_model st\<rparr>" by simp
  with Nil show ?case by (metis append_Nil append_Nil2 list.simps(8))
next
  case (Cons d ds)
  from Cons.prems obtain T where T: "TSEM_load cr (hs_of (model_line ''state '' d)) (qx_model st) = Ret () T"
    "loading (cr_sha cr) agg (ds0 @ [d]) T"
    using load_state [OF sha Cons.prems(1), of d] by auto
  let ?st = "st\<lparr>qx_model := T\<rparr>"
  have "loading (cr_sha cr) agg (ds0 @ [d]) (qx_model ?st)" using T(2) by simp
  from Cons.IH [OF this] Cons.prems(2,3) obtain U where
    "load_entries cr (map (model_line ''state '') ds @ rest) ?st = load_entries cr rest (?st\<lparr>qx_model := U\<rparr>)"
    "loading (cr_sha cr) agg ((ds0 @ [d]) @ ds) U" by auto
  moreover have "model_line ''state '' d \<noteq> ''seal''" by (rule state_line_not_seal) simp_all
  ultimately show ?case using T(1) by auto
qed

lemma load_closing:
  assumes S: "loading sha agg ds (qx_model st)"
  shows "\<exists>T. load_entries cr [''seal'', ''end''] st = Ret () (st\<lparr>qx_sealed := True, qx_model := T\<rparr>) \<and>
     tsem_ok T \<and> \<not> ts_poisoned T \<and> ts_sealed T \<and> \<not> ts_loading T \<and> ts_base T = zero_id \<and>
     points_of T = points_of (qx_model st) \<and> ts_measurement T = ts_measurement (qx_model st) \<and>
     ts_aggregate T = ts_aggregate (qx_model st) \<and> ts_have_aggregate T"
proof -
  from S obtain b where b: "tsem_ok (qx_model st)" "\<not> ts_poisoned (qx_model st)" "ts_loading (qx_model st)"
    "ts_sigdata (qx_model st) = Some b" "\<not> b_poisoned b" "ts_have_aggregate (qx_model st)" "ts_base (qx_model st) = zero_id"
    by (auto simp: loading_def)
  let ?b = "\<lambda>t d. d\<lparr>b_data := b_data d @ t @ [NUL]\<rparr>"
  let ?T = "(qx_model st)\<lparr>ts_sigdata := Some (?b ''end'' (?b ''seal'' b)), ts_sealed := True, ts_loading := False\<rparr>"
  have seal: "TSEM_load cr (hs_of ''seal'') (qx_model st) =
      Ret () ((qx_model st)\<lparr>ts_sigdata := Some (?b ''seal'' b), ts_sealed := True\<rparr>)"
    using b by (simp add: TSEM_load_def find_lines Let_def TSEM_load_command_def TSEM_add_entry_def buf_add_def TSEM_seal_def)
  have end_: "TSEM_load cr (hs_of ''end'') ((qx_model st)\<lparr>ts_sigdata := Some (?b ''seal'' b), ts_sealed := True\<rparr>) = Ret () ?T"
    using b by (simp add: TSEM_load_def find_lines Let_def TSEM_load_command_def TSEM_add_entry_def buf_add_def)
  have "load_entries cr [''seal'', ''end''] st = Ret () (st\<lparr>qx_sealed := True, qx_model := ?T\<rparr>)"
    using seal end_ by simp
  moreover have "tsem_ok ?T" using b(1) by (simp add: tsem_ok_def)
  ultimately show ?thesis using b by (intro exI [of _ ?T]) simp
qed

lemma load_model_lines:
  assumes sha: "sha_ok (cr_sha cr)" and agg: "length agg = IDSIZE"
    and ds: "distinct ds" "\<forall>d \<in> set ds. length d = IDSIZE"
  shows "\<exists>st. load_entries cr (model_lines agg ds) (Quixote_Init enforce errno) = Ret () st \<and> qx_sealed st \<and>
     tsem_ok (qx_model st) \<and> ts_sealed (qx_model st) \<and> \<not> ts_loading (qx_model st) \<and> \<not> ts_poisoned (qx_model st) \<and>
     valid_points (qx_model st) = ds \<and> violations (qx_model st) = [] \<and> ts_have_aggregate (qx_model st) \<and>
     b_data (ts_aggregate (qx_model st)) = extend_value (cr_sha cr) zero_id zero_id agg \<and> ts_base (qx_model st) = zero_id \<and>
     ts_measurement (qx_model st) =
       foldl (extend_value (cr_sha cr) zero_id) (extend_value (cr_sha cr) zero_id zero_id agg) ds"
proof -
  let ?st = "Quixote_Init enforce errno"
  obtain S where S: "TSEM_load cr (hs_of (model_line ''aggregate '' agg)) TSEM_Init = Ret () S" "loading (cr_sha cr) agg [] S"
    using load_aggregate [OF sha agg] by blast
  have "loading (cr_sha cr) agg [] (qx_model (?st\<lparr>qx_model := S\<rparr>))" using S(2) by simp
  from load_states [OF sha this, of ds "[''seal'', ''end'']"] ds obtain T where
    T: "load_entries cr (map (model_line ''state '') ds @ [''seal'', ''end'']) (?st\<lparr>qx_model := S\<rparr>) =
      load_entries cr [''seal'', ''end''] (?st\<lparr>qx_model := T\<rparr>)" "loading (cr_sha cr) agg ds T" by auto
  have "loading (cr_sha cr) agg ds (qx_model (?st\<lparr>qx_model := T\<rparr>))" using T(2) by simp
  from load_closing [OF this, of cr] obtain U where
    U: "load_entries cr [''seal'', ''end''] (?st\<lparr>qx_model := T\<rparr>) = Ret () (?st\<lparr>qx_sealed := True, qx_model := U\<rparr>)"
      "tsem_ok U \<and> \<not> ts_poisoned U \<and> ts_sealed U \<and> \<not> ts_loading U \<and> ts_base U = zero_id \<and>
       points_of U = points_of T \<and> ts_measurement U = ts_measurement T \<and> ts_aggregate U = ts_aggregate T \<and> ts_have_aggregate U"
    by auto
  have "model_line ''aggregate '' agg \<noteq> ''seal''" by (rule state_line_not_seal) simp_all
  then have run: "load_entries cr (model_lines agg ds) ?st = Ret () (?st\<lparr>qx_sealed := True, qx_model := U\<rparr>)"
    using S(1) T(1) U(1) by (simp add: model_lines_def Quixote_Init_def)
  have "violations T = []" "map sp_point (points_of T) = ds" using T(2) by (simp_all add: loading_def)
  then have "filter (\<lambda>p. \<not> sp_violation p) (points_of T) = points_of T" "violations U = []"
    using U(2) by (auto simp: violations_def filter_empty_conv filter_id_conv)
  then have "valid_points U = ds" "violations U = []"
    using U(2) \<open>map sp_point (points_of T) = ds\<close> by (simp_all add: valid_points_def)
  with run U(2) T(2) show ?thesis by (auto simp: loading_def)
qed

section \<open>The round trip\<close>

text \<open>
  C8: The lines that are written for a model, of which the aggregate is known, are loaded into a new
  orchestrator without an error.  The restored model is sealed and has the points of the saved one in their
  order, all of them as valid points, those that were violations too; its measurement is that of their discovery.
\<close>

theorem saved_model_restored:
  assumes "sha_ok (cr_sha (env_crypto env))" "\<forall>w. env_file env w"
    and "qx_ok st" "\<not> ts_poisoned (qx_model st)"
    and "qx_aggregate st = Some a" "\<not> b_poisoned a" "length (b_data a) = 32"
  shows "\<exists>st' entries st''. output_model env True st = Ret () (st', map (\<lambda>l. l @ end_line) entries) \<and>
     load_model env (Some entries) (Quixote_Init enforce errno) = Ret () st'' \<and>
     qx_sealed st'' \<and> ts_sealed (qx_model st'') \<and> \<not> ts_loading (qx_model st'') \<and> \<not> ts_poisoned (qx_model st'') \<and>
     valid_points (qx_model st'') = map sp_point (points_of (qx_model st)) \<and> violations (qx_model st'') = [] \<and>
     ts_measurement (qx_model st'') =
       foldl (extend_value (cr_sha (env_crypto env)) zero_id)
         (extend_value (cr_sha (env_crypto env)) zero_id zero_id (b_data a)) (map sp_point (points_of (qx_model st)))"
proof -
  let ?ds = "map sp_point (points_of (qx_model st))"
  have ok: "tsem_ok (qx_model st)" using assms(3) by (simp add: qx_ok_iff)
  then have "points_ok (ts_points (qx_model st))" by (simp add: tsem_ok_def)
  then have ds: "distinct ?ds" "\<forall>d \<in> set ?ds. length d = IDSIZE" by (auto simp: points_ok_iff point_ok_def)
  obtain st' where "output_model env True st = Ret () (st', map (\<lambda>l. l @ end_line) (model_lines (b_data a) ?ds))"
    using output_model_lines [OF assms(2,5,6) ok assms(4)] by blast
  moreover have "length (b_data a) = IDSIZE" using assms(7) by simp
  note load_model_lines [OF assms(1) this ds, of enforce errno]
  ultimately show ?thesis by (auto simp: load_model_def)
qed

definition aggregate_start :: Quixote_State where
  "aggregate_start = demo_start\<lparr>qx_aggregate := Some \<lparr>b_poisoned = False, b_data = zero_id\<rparr>\<rparr>"

theorem saved_model_restored_witness:
  "\<exists>st' entries st''. output_model demo_env True aggregate_start = Ret () (st', map (\<lambda>l. l @ end_line) entries) \<and>
     load_model demo_env (Some entries) (Quixote_Init True 0) = Ret () st'' \<and> ts_sealed (qx_model st'')"
proof -
  have "qx_ok aggregate_start" using demo_start_ok(1) by (simp add: qx_ok_iff aggregate_start_def)
  moreover have "\<not> ts_poisoned (qx_model aggregate_start)" by (simp add: aggregate_start_def TSEM_Init_def)
  moreover have "qx_aggregate aggregate_start = Some \<lparr>b_poisoned = False, b_data = zero_id\<rparr>"
    by (simp add: aggregate_start_def)
  moreover have "\<forall>w. env_file demo_env w" "length zero_id = 32" by (simp_all add: demo_env_def zero_id_def)
  ultimately show ?thesis
    using saved_model_restored [of demo_env aggregate_start] by fastforce
qed

end
