(* ===== verification/QuixoteConsoleProps.thy ===== *)
theory QuixoteConsoleProps
  imports QuixoteConsole QuixoteModels
begin

text \<open>
  The management connection: what is sent is received, what the client prints, and what becomes of a client that is gone.
\<close>

section \<open>Conversations\<close>

fun send_all :: "socket_io \<Rightarrow> byte list list \<Rightarrow> LocalDuct_State \<Rightarrow> (unit, LocalDuct_State) res" where
  "send_all io [] S = Ret () S"
| "send_all io (msg # msgs) S =
     res_bind (LocalDuct_send_Buffer io (Some \<lparr>b_poisoned = False, b_data = msg\<rparr>) S) (\<lambda>_. send_all io msgs)"

text \<open>Each message is received into a buffer that was reset.\<close>

fun receive_all :: "socket_io \<Rightarrow> nat \<Rightarrow> LocalDuct_State \<Rightarrow> (byte list list, LocalDuct_State) res" where
  "receive_all io 0 S = Ret [] S"
| "receive_all io (Suc n) S =
     (case LocalDuct_receive_Buffer io (S, buf_empty) of
        Undef \<Rightarrow> Undef
      | Fail (T, _) \<Rightarrow> Fail T
      | Ret _ (T, b) \<Rightarrow> res_bind (receive_all io n T) (\<lambda>msgs. Ret (b_data b # msgs)))"

definition message_ok :: "byte list \<Rightarrow> bool" where
  "message_ok msg \<longleftrightarrow> msg \<noteq> [] \<and> length msg \<le> MAX_RECEIVE_SIZE"

lemma send_all_ok:
  assumes "\<forall>out p. io_write io out p" "ld_fd S" "\<not> ld_poisoned S"
  shows "send_all io msgs S = Ret () (S\<lparr>ld_out := ld_out S @ concat (map packet msgs)\<rparr>)"
  using assms(2,3)
proof (induction msgs arbitrary: S)
  case (Cons msg msgs)
  let ?S = "S\<lparr>ld_out := ld_out S @ packet msg\<rparr>"
  have "LocalDuct_send_Buffer io (Some \<lparr>b_poisoned = False, b_data = msg\<rparr>) S = Ret () ?S"
    using assms(1) Cons.prems by (simp add: LocalDuct_send_Buffer_def packet_def buf_size_def)
  with Cons.IH [of ?S] Cons.prems show ?case by simp
qed simp

lemma receive_all_ok:
  assumes "io_complete io" "ld_fd S" "\<not> ld_poisoned S" "\<forall>msg \<in> set msgs. message_ok msg"
    and "ld_in S = concat (map packet msgs) @ rest"
  shows "receive_all io (length msgs) S = Ret msgs (S\<lparr>ld_in := rest\<rparr>)"
  using assms(2-)
proof (induction msgs arbitrary: S)
  case (Cons msg msgs)
  let ?S = "S\<lparr>ld_in := concat (map packet msgs) @ rest\<rparr>"
  have "LocalDuct_receive_Buffer io (S, buf_empty) = Ret () (?S, buf_empty\<lparr>b_data := b_data buf_empty @ msg\<rparr>)"
    by (rule receive_packet [OF assms(1)])
      (use Cons.prems in \<open>simp_all add: message_ok_def buf_empty_def\<close>)
  with Cons.IH [of ?S] Cons.prems show ?case by (simp add: buf_empty_def)
qed simp

text \<open>
  When the sockets do not fail, the messages that one side sends, each neither empty nor larger than
  the limit, are received by the other side in their order and with their bounds, and what comes behind them is left.
\<close>

theorem duct_conversation:
  assumes "\<forall>out p. io_write sio out p" "ld_fd S" "\<not> ld_poisoned S" "ld_out S = []"
    and "io_complete cio" "ld_fd C" "\<not> ld_poisoned C" "\<forall>msg \<in> set msgs. msg \<noteq> [] \<and> length msg \<le> 262144"
  shows "\<exists>S'. send_all sio msgs S = Ret () S' \<and>
     receive_all cio (length msgs) (C\<lparr>ld_in := ld_out S' @ rest\<rparr>) = Ret msgs (C\<lparr>ld_in := rest\<rparr>)"
proof -
  have ok: "\<forall>msg \<in> set msgs. message_ok msg" using assms(8) by (simp add: message_ok_def MAX_RECEIVE_SIZE_def)
  have "send_all sio msgs S = Ret () (S\<lparr>ld_out := concat (map packet msgs)\<rparr>)"
    using send_all_ok [OF assms(1-3)] assms(4) by simp
  moreover have "receive_all cio (length msgs) (C\<lparr>ld_in := concat (map packet msgs) @ rest\<rparr>) =
      Ret msgs (C\<lparr>ld_in := concat (map packet msgs) @ rest\<rparr>\<lparr>ld_in := rest\<rparr>)"
    by (rule receive_all_ok [OF assms(5) _ _ ok]) (use assms(6,7) in simp_all)
  ultimately show ?thesis by simp
qed

definition demo_io :: socket_io where
  "demo_io = \<lparr>io_read = \<lambda>bs n. min n (length bs), io_write = \<lambda>_ _. True, io_open = \<lambda>_. True, io_errno = 0\<rparr>"

lemma demo_io_ok [simp]: "io_complete demo_io" "io_write demo_io out p"
  by (simp_all add: demo_io_def io_complete_def)

definition demo_client :: LocalDuct_State where
  "demo_client = LocalDuct_Init\<lparr>ld_type := client, ld_sockt := True, ld_fd := True\<rparr>"

lemma demo_client_simps [simp]: "ld_fd demo_client" "\<not> ld_poisoned demo_client" "ld_in demo_client = []"
  "ld_out demo_client = []" "\<not> ld_eof demo_client"
  by (simp_all add: demo_client_def LocalDuct_Init_def)

theorem duct_conversation_witness:
  "\<exists>S'. send_all demo_io [''ab'', ''c''] demo_client = Ret () S' \<and>
     receive_all demo_io 2 (demo_client\<lparr>ld_in := ld_out S' @ []\<rparr>) = Ret [''ab'', ''c''] (demo_client\<lparr>ld_in := []\<rparr>)"
  using duct_conversation [of demo_io demo_client demo_io demo_client "[''ab'', ''c'']" "[]"]
  by (simp add: numeral_2_eq_2 del: send_all.simps receive_all.simps)

section \<open>What the client prints\<close>

lemma co_items_ok:
  assumes "io_complete io" "ld_fd (co_duct S)" "\<not> ld_poisoned (co_duct S)" "\<not> b_poisoned (co_bufr S)"
    and "ld_in (co_duct S) = concat (map (\<lambda>t. packet (t @ [NUL])) ts) @ rest"
    and "\<forall>t \<in> set ts. NUL \<notin> set t \<and> message_ok (t @ [NUL])"
  shows "\<exists>b. co_items io prefix (length ts) S =
     Ret () (S\<lparr>co_duct := (co_duct S)\<lparr>ld_in := rest\<rparr>, co_bufr := b,
               co_out := co_out S @ concat (map (\<lambda>t. prefix @ t @ end_line) ts)\<rparr>) \<and> \<not> b_poisoned b"
  using assms(2-)
proof (induction ts arbitrary: S)
  case Nil
  then show ?case by (intro exI [of _ "co_bufr S"]) simp
next
  case (Cons t ts)
  let ?d = "(co_duct S)\<lparr>ld_in := concat (map (\<lambda>t. packet (t @ [NUL])) ts) @ rest\<rparr>"
  let ?S1 = "S\<lparr>co_duct := ?d, co_bufr := \<lparr>b_poisoned = False, b_data = t @ [NUL]\<rparr>\<rparr>"
  let ?S2 = "co_print (prefix @ t @ end_line) ?S1"
  have "LocalDuct_receive_Buffer io (co_duct (co_reset S), co_bufr (co_reset S)) =
      Ret () (?d, (co_bufr (co_reset S))\<lparr>b_data := b_data (co_bufr (co_reset S)) @ t @ [NUL]\<rparr>)"
    using receive_packet [OF assms(1), of "co_duct S" "co_bufr (co_reset S)" "t @ [NUL]"] Cons.prems
    by (simp add: co_reset_def message_ok_def)
  then have "co_receive io (co_reset S) = Ret () ?S1"
    using Cons.prems(3) by (cases "co_bufr S") (simp add: co_receive_def co_reset_def buf_reset_def)
  moreover have "co_print_text prefix ?S1 = Ret () ?S2"
    using Cons.prems(5) by (simp add: co_print_text_def co_text_def c_string_def cstring_append)
  moreover obtain b where "co_items io prefix (length ts) ?S2 =
      Ret () (?S2\<lparr>co_duct := (co_duct ?S2)\<lparr>ld_in := rest\<rparr>, co_bufr := b,
               co_out := co_out ?S2 @ concat (map (\<lambda>t. prefix @ t @ end_line) ts)\<rparr>)" "\<not> b_poisoned b"
    using Cons.IH [of ?S2] Cons.prems by (auto simp: co_print_def)
  ultimately show ?case by (auto simp: co_print_def)
qed

text \<open>The number that a list starts with is read from its lower half.\<close>

lemma take_le_bytes: "take j (le_bytes (j + k) n) = le_bytes j n"
  by (induction j arbitrary: n) simp_all

lemma size_bytes_ok: "message_ok (size_bytes n)"
proof -
  have "length (size_bytes n) = 8" by (simp add: size_bytes_def)
  then show ?thesis by (auto simp: message_ok_def MAX_RECEIVE_SIZE_def simp del: length_0_conv)
qed

lemma size_bytes_low: "n < 2 ^ 32 \<Longrightarrow> le_value (take 4 (size_bytes n)) = n"
proof -
  assume n: "n < 2 ^ 32"
  have take: "take 4 (le_bytes 8 k) = le_bytes 4 k" for k using take_le_bytes [of 4 4 k] by simp
  have "unat (of_nat n :: u64) = n" using n by (simp add: unat_of_nat take_bit_nat_eq_self)
  then show ?thesis using n by (simp add: size_bytes_def u64_bytes_def take le_value_le_bytes)
qed

lemma hex_codes:
  assumes "c \<in> set (sprint_hex bs)"
  shows "48 \<le> (of_char c :: nat)"
proof -
  have "48 \<le> (of_char (digit_char k) :: nat)" if "k < 16" for k using that by (simp add: digit_char_code)
  moreover have "(of_char b :: nat) div 16 < 16" "(of_char b :: nat) mod 16 < 16" for b :: char
    using nat_of_char_less_256 [of b] by (simp_all add: less_mult_imp_div_less)
  ultimately show ?thesis using assms by (auto simp: sprint_hex_def sprint_02x_def)
qed

lemma hex_no_NUL: "NUL \<notin> set (sprint_hex bs)"
  using hex_codes [of NUL bs] by auto

lemma hex_no_newline: "CHR 0x0A \<notin> set (sprint_hex bs)"
  using hex_codes [of "CHR 0x0A" bs] by auto

lemma co_receive_ok:
  assumes "io_complete io" "ld_fd (co_duct S)" "\<not> ld_poisoned (co_duct S)" "\<not> b_poisoned (co_bufr S)"
    and "ld_in (co_duct S) = packet msg @ rest" "message_ok msg"
  shows "co_receive io (co_reset S) =
     Ret () (S\<lparr>co_duct := (co_duct S)\<lparr>ld_in := rest\<rparr>, co_bufr := \<lparr>b_poisoned = False, b_data = msg\<rparr>\<rparr>)"
proof -
  have "LocalDuct_receive_Buffer io (co_duct (co_reset S), co_bufr (co_reset S)) =
      Ret () ((co_duct S)\<lparr>ld_in := rest\<rparr>, (co_bufr (co_reset S))\<lparr>b_data := b_data (co_bufr (co_reset S)) @ msg\<rparr>)"
    using receive_packet [OF assms(1), of "co_duct S" "co_bufr (co_reset S)" msg] assms(2-)
    by (simp add: co_reset_def message_ok_def)
  then show ?thesis
    using assms(4) by (cases "co_bufr S") (simp add: co_receive_def co_reset_def buf_reset_def)
qed

lemma receive_map_ok:
  assumes "io_complete io" "ld_fd (co_duct S)" "\<not> ld_poisoned (co_duct S)" "\<not> b_poisoned (co_bufr S)"
    and "ld_in (co_duct S) = concat (map packet (agg # size_bytes (length ds) # map (\<lambda>d. sprint_hex d @ [NUL]) ds)) @ rest"
    and "length agg = 32" "\<forall>d \<in> set ds. length d = 32" "length ds < 2 ^ 32"
  shows "\<exists>b. Console_receive_map io S =
     Ret () (S\<lparr>co_duct := (co_duct S)\<lparr>ld_in := rest\<rparr>, co_bufr := b,
               co_out := co_out S @ concat (map (\<lambda>l. l @ end_line) (model_lines agg ds))\<rparr>)"
proof -
  let ?points = "concat (map packet (map (\<lambda>d. sprint_hex d @ [NUL]) ds)) @ rest"
  let ?S1 = "S\<lparr>co_duct := (co_duct S)\<lparr>ld_in := packet (size_bytes (length ds)) @ ?points\<rparr>,
    co_bufr := \<lparr>b_poisoned = False, b_data = agg\<rparr>\<rparr>"
  have 1: "co_receive io (co_reset S) = Ret () ?S1"
    by (rule co_receive_ok [OF assms(1-4)]) (use assms(5,6) in \<open>auto simp: message_ok_def MAX_RECEIVE_SIZE_def\<close>)
  let ?S2 = "co_print_hex (co_print ''aggregate '' ?S1)"
  let ?S3 = "?S2\<lparr>co_duct := (co_duct ?S2)\<lparr>ld_in := ?points\<rparr>, co_bufr := \<lparr>b_poisoned = False, b_data = size_bytes (length ds)\<rparr>\<rparr>"
  have 2: "co_receive io (co_reset ?S2) = Ret () ?S3"
    by (rule co_receive_ok [OF assms(1)])
      (use assms(2,3) size_bytes_ok in \<open>simp_all add: co_print_hex_def co_print_def\<close>)
  have texts: "\<forall>t \<in> set (map sprint_hex ds). NUL \<notin> set t \<and> message_ok (t @ [NUL])"
    using assms(7) hex_no_NUL by (auto simp: message_ok_def MAX_RECEIVE_SIZE_def)
  have "ld_in (co_duct ?S3) = concat (map (\<lambda>t. packet (t @ [NUL])) (map sprint_hex ds)) @ rest" by (simp add: comp_def)
  then obtain b where 3: "co_items io ''state '' (length (map sprint_hex ds)) ?S3 =
     Ret () (?S3\<lparr>co_duct := (co_duct ?S3)\<lparr>ld_in := rest\<rparr>, co_bufr := b,
               co_out := co_out ?S3 @ concat (map (\<lambda>t. ''state '' @ t @ end_line) (map sprint_hex ds))\<rparr>)"
    using co_items_ok [OF assms(1), of ?S3 "map sprint_hex ds" rest "''state ''"] assms(2,3) texts
    by (auto simp: co_print_hex_def co_print_def)
  have 4: "le_value (take 4 (b_data (co_bufr ?S3))) = length (map sprint_hex ds)"
    using size_bytes_low [OF assms(8)] by simp
  show ?thesis
    unfolding Console_receive_map_def 1 res_bind.simps 2
    using 3 4
    by (intro exI [of _ "buf_reset b"])
      (simp add: Let_def co_print_hex_def co_print_def co_reset_def model_lines_def model_line_def comp_def)
qed

section \<open>The map of a running workload\<close>

lemma command_of_number: "command_of (u32_bytes (number_of c)) = Some c"
  by (cases c) (simp_all add: command_of_def command_number_def number_of_def u32_bytes_def le_value_le_bytes)

lemma valid_points_kind: "map sp_point (points_of_kind True S) = valid_points S"
  by (simp add: points_of_kind_def valid_points_def SecurityPoint_is_valid_def)

lemma send_map_messages:
  assumes ok: "qx_ok st" and up: "\<forall>w. env_mgmt env w" and live: "\<not> ts_poisoned (qx_model st)"
    and fo: "length (gg_objects (ts_forensics (qx_model st))) = length (violations (qx_model st))"
    and agg: "qx_aggregate st = Some a" "\<not> b_poisoned a"
    and cmd: "qx_cmdbufr st = \<lparr>b_poisoned = False, b_data = u32_bytes (number_of show_map)\<rparr>"
  shows "\<exists>st'. process_command env st = Ret () st' \<and>
     qx_sent st' = qx_sent st @ b_data a # size_bytes (length (valid_points (qx_model st))) #
       map (\<lambda>d. sprint_hex d @ [NUL]) (valid_points (qx_model st))"
proof -
  let ?st = "st\<lparr>qx_cmdbufr := \<lparr>b_poisoned = False, b_data = b_data a\<rparr>, qx_sent := qx_sent st @ [b_data a]\<rparr>"
  have first: "on_sancho (\<lambda>s. send_Buffer (env_mgmt env) (fill (b_data a) s)) st = Ret () ?st"
    using up cmd by (simp add: on_sancho_def as_sancho_def fill_def send_Buffer_def buf_add_def buf_reset_def)
  have "sx_ok (as_sancho ?st)" "\<not> ts_poisoned (sx_model (as_sancho ?st))"
    "length (gg_objects (ts_forensics (sx_model (as_sancho ?st)))) = length (violations (sx_model (as_sancho ?st)))"
    using ok live fo by (simp_all add: sx_ok_def qx_ok_iff)
  from send_points(1) [OF up this, of True] obtain s where
    s: "send_trajectory_coefficients (env_mgmt env) True (as_sancho ?st) = Ret () s"
    "sx_sent s = qx_sent ?st @ [size_bytes (length (points_of_kind True (qx_model st)))] @
       map (\<lambda>p. sprint_hex (sp_point p) @ [NUL]) (points_of_kind True (qx_model st))" by auto
  have points: "length (points_of_kind True (qx_model st)) = length (valid_points (qx_model st))"
    "map (\<lambda>p. sprint_hex (sp_point p) @ [NUL]) (points_of_kind True (qx_model st)) =
     map (\<lambda>d. sprint_hex d @ [NUL]) (valid_points (qx_model st))"
    unfolding valid_points_kind [symmetric] by simp_all
  have "length (u32_bytes (number_of show_map)) = 4" by simp
  with cmd have "process_command env st = Quixote_send_map env st"
    using command_of_number [of show_map] by (simp add: process_command_def buf_size_def)
  also have "\<dots> = Quixote_send_trajectory_coefficients env True ?st"
    using agg first by (cases "Quixote_send_trajectory_coefficients env True ?st") (simp_all add: Quixote_send_map_def)
  finally show ?thesis
    using s(1) s(2) [unfolded points] by (simp add: Quixote_send_trajectory_coefficients_def on_sancho_def)
qed

lemma console_map:
  assumes "io_complete io" "\<forall>out p. io_write io out p" "ld_fd d" "\<not> ld_poisoned d" "ld_in d = []"
    and "length agg = 32" "\<forall>d \<in> set ds. length d = 32" "length ds < 2 ^ 32"
  shows "\<exists>d'. Console_process_command io tty ''show map''
       (concat (map packet (agg # size_bytes (length ds) # map (\<lambda>d. sprint_hex d @ [NUL]) ds))) (d, []) =
       Ret () (d', concat (map (\<lambda>l. l @ end_line) (model_lines agg ds))) \<and>
     ld_in d' = [] \<and> ld_out d' = ld_out d @ packet (u32_bytes (number_of show_map))"
proof -
  let ?msgs = "concat (map packet (agg # size_bytes (length ds) # map (\<lambda>d. sprint_hex d @ [NUL]) ds))"
  let ?b = "\<lparr>b_poisoned = False, b_data = u32_bytes (number_of show_map)\<rparr>"
  let ?d = "d\<lparr>ld_out := ld_out d @ packet (u32_bytes (number_of show_map))\<rparr>"
  have send: "LocalDuct_send_Buffer io (Some ?b) d = Ret () ?d"
    using assms(2-4) by (simp add: LocalDuct_send_Buffer_def packet_def buf_size_def)
  let ?S = "\<lparr>co_duct = ?d\<lparr>ld_in := ld_in ?d @ ?msgs\<rparr>, co_bufr = buf_reset ?b, co_out = []\<rparr>"
  have "ld_fd (co_duct ?S)" "\<not> ld_poisoned (co_duct ?S)" "\<not> b_poisoned (co_bufr ?S)" "ld_in (co_duct ?S) = ?msgs @ []"
    using assms(3-5) by (simp_all add: buf_reset_def)
  from receive_map_ok [OF assms(1) this assms(6-8)] obtain b where
    map: "Console_receive_map io ?S = Ret () (?S\<lparr>co_duct := (co_duct ?S)\<lparr>ld_in := []\<rparr>, co_bufr := b,
       co_out := co_out ?S @ concat (map (\<lambda>l. l @ end_line) (model_lines agg ds))\<rparr>)" by blast
  have "map_of (rev (map prod.swap Sancho_cmd_list)) ''show map'' = Some show_map"
    by (simp add: Sancho_cmd_list_def)
  with send map show ?thesis
    by (simp add: Console_process_command_def Console_receive_command_def Let_def del: map_of.simps)
qed

text \<open>
  C10: The management client asks a running orchestrator for its map, and what the client prints is a
  model file: loaded into a new orchestrator it gives a sealed model with exactly the valid points of the running one,
  in their order, and no violation.  The orchestrator waits for a command, in a state like all it reaches: its model is in
  order, and the forensics are those of its violations.  The sockets are assumed not to fail, and nothing is left on the
  connection.
\<close>

theorem console_map_restores:
  assumes "qx_ok st" "TSEM_forensics_size (qx_model st) = length (violations (qx_model st))"
    and "sha_ok (cr_sha (env_crypto env))" "\<forall>w. env_mgmt env w"
    and "\<not> ts_poisoned (qx_model st)" "length (valid_points (qx_model st)) < 2 ^ 32"
    and "qx_aggregate st = Some a" "\<not> b_poisoned a" "length (b_data a) = 32"
    and "qx_connected st" "b_data (qx_cmdbufr st) = []"
    and "io_complete io" "\<forall>out p. io_write io out p" "ld_fd d" "\<not> ld_poisoned d" "ld_in d = []"
  shows "\<exists>command st' replies d' entries st''.
     monitor_step env (Command_input True (Some command) False True) st = Some (Ret Goes_on st') \<and>
     qx_sent st' = qx_sent st @ replies \<and>
     Console_process_command io tty ''show map'' (concat (map packet replies)) (d, []) =
       Ret () (d', concat (map (\<lambda>l. l @ end_line) entries)) \<and>
     ld_in d' = [] \<and> ld_out d' = ld_out d @ packet command \<and>
     load_model env (Some entries) (Quixote_Init enforce errno) = Ret () st'' \<and>
     ts_sealed (qx_model st'') \<and> valid_points (qx_model st'') = valid_points (qx_model st) \<and>
     violations (qx_model st'') = []"
proof -
  let ?ds = "valid_points (qx_model st)" and ?cmd = "u32_bytes (number_of show_map)"
  have ok: "tsem_ok (qx_model st)" "\<not> b_poisoned (qx_cmdbufr st)" using assms(1) by (simp_all add: qx_ok_iff)
  then have "points_ok (ts_points (qx_model st))" "gaggle_ok (ts_forensics (qx_model st))" by (simp_all add: tsem_ok_def)
  then have ds: "distinct ?ds" "\<forall>d \<in> set ?ds. length d = 32"
    and fo: "length (gg_objects (ts_forensics (qx_model st))) = length (violations (qx_model st))"
    using assms(2)
    by (auto simp: points_ok_iff point_ok_def valid_points_def distinct_map TSEM_forensics_size_def Gaggle_size_def
        gaggle_ok_def intro: inj_on_subset)
  let ?st = "st\<lparr>qx_cmdbufr := \<lparr>b_poisoned = False, b_data = ?cmd\<rparr>\<rparr>"
  have received: "receive_command (Some ?cmd) st = ?st"
    using ok(2) assms(11) by (cases "qx_cmdbufr st") (simp add: receive_command_def buf_add_def)
  have "qx_ok ?st" using ok(1) by (simp add: qx_ok_iff)
  from send_map_messages [OF this assms(4), of a] assms(5,7,8) fo obtain st' where
    st': "process_command env ?st = Ret () st'"
    "qx_sent st' = qx_sent st @ b_data a # size_bytes (length ?ds) # map (\<lambda>d. sprint_hex d @ [NUL]) ?ds"
    by auto
  let ?st' = "st'\<lparr>qx_cmdbufr := buf_reset (qx_cmdbufr st')\<rparr>"
  have step: "monitor_step env (Command_input True (Some ?cmd) False True) st = Some (Ret Goes_on ?st')"
    using assms(10) st'(1) received by (simp add: monitor_step_def manage_def Let_def)
  obtain d' where d': "Console_process_command io tty ''show map''
       (concat (map packet (b_data a # size_bytes (length ?ds) # map (\<lambda>d. sprint_hex d @ [NUL]) ?ds))) (d, []) =
       Ret () (d', concat (map (\<lambda>l. l @ end_line) (model_lines (b_data a) ?ds)))"
    "ld_in d' = []" "ld_out d' = ld_out d @ packet ?cmd"
    using console_map [OF assms(12-16,9) ds(2) assms(6)] by blast
  obtain st'' where "load_entries (env_crypto env) (model_lines (b_data a) ?ds) (Quixote_Init enforce errno) = Ret () st''"
    "ts_sealed (qx_model st'')" "valid_points (qx_model st'') = ?ds" "violations (qx_model st'') = []"
    using load_model_lines [OF assms(3,9) ds, of enforce errno] by auto
  moreover have "qx_sent ?st' = qx_sent st @ b_data a # size_bytes (length ?ds) # map (\<lambda>d. sprint_hex d @ [NUL]) ?ds"
    using st'(2) by simp
  ultimately show ?thesis using step d' unfolding load_model_def option.case by blast
qed

theorem console_map_restores_witness:
  "\<exists>command st' replies d' entries st''.
     monitor_step demo_env (Command_input True (Some command) False True) (aggregate_start\<lparr>qx_connected := True\<rparr>) =
       Some (Ret Goes_on st') \<and>
     Console_process_command demo_io False ''show map'' (concat (map packet replies)) (demo_client, []) =
       Ret () (d', concat (map (\<lambda>l. l @ end_line) entries)) \<and>
     load_model demo_env (Some entries) (Quixote_Init True 0) = Ret () st'' \<and> ts_sealed (qx_model st'')"
proof -
  let ?st = "aggregate_start\<lparr>qx_connected := True\<rparr>"
  have "qx_ok ?st" using demo_start_ok(1) by (simp add: qx_ok_iff aggregate_start_def)
  moreover have "TSEM_forensics_size (qx_model ?st) = length (violations (qx_model ?st))"
    "length (valid_points (qx_model ?st)) < 2 ^ 32" "\<not> ts_poisoned (qx_model ?st)"
    by (simp_all add: aggregate_start_def TSEM_Init_def TSEM_forensics_size_def Gaggle_size_def Gaggle_Init_def
        violations_def valid_points_def)
  moreover have "qx_aggregate ?st = Some \<lparr>b_poisoned = False, b_data = zero_id\<rparr>" "b_data (qx_cmdbufr ?st) = []"
    "qx_connected ?st"
    by (simp_all add: aggregate_start_def demo_start_def Quixote_Init_def buf_empty_def)
  moreover have "\<forall>w. env_mgmt demo_env w" "length zero_id = 32" by (simp_all add: demo_env_def zero_id_def)
  ultimately show ?thesis
    using console_map_restores [of ?st demo_env _ demo_io demo_client] by fastforce
qed

section \<open>A client that is gone\<close>

text \<open>
  C31: A management client that ends without the farewell of its destructor, because it was
  killed, makes the next receive fail.  The orchestrator takes this for a failed command, twice: it marks the model and
  kills the workload.  The connection cannot be used again, since its reset does not clear the error: the next client
  is refused.
\<close>

theorem vanished_client_kills_workload:
  assumes "ld_fd S" "\<not> ld_poisoned S" "\<not> ld_eof S" "ld_in S = []"
    and "qx_connected st" "\<not> b_poisoned (qx_cmdbufr st)" "b_data (qx_cmdbufr st) = []"
  shows "\<exists>S'. LocalDuct_receive_Buffer io (S, qx_cmdbufr st) = Fail (S', qx_cmdbufr st) \<and> \<not> LocalDuct_eof S' \<and>
     monitor_step env (Command_input True None (LocalDuct_eof S') socket) st =
       Some (Ret Goes_on (st\<lparr>qx_model_error := True, qx_kills := qx_kills st @ [False, False]\<rparr>)) \<and>
     (\<forall>bytes. \<exists>S''. LocalDuct_accept_connection bytes (LocalDuct_reset S') = Fail S'')"
proof -
  let ?S = "S\<lparr>ld_error := io_errno io, ld_poisoned := True\<rparr>"
  have fail: "LocalDuct_receive_Buffer io (S, qx_cmdbufr st) = Fail (?S, qx_cmdbufr st)"
    using assms(1,2,4,6) by (simp add: LocalDuct_receive_Buffer_def read_exactly_def duct_poison_def)
  have "buf_size (qx_cmdbufr st) \<noteq> 4" "buf_reset (qx_cmdbufr st) = qx_cmdbufr st"
    using assms(6,7) by (cases "qx_cmdbufr st"; simp add: buf_size_def buf_reset_def)+
  then have "monitor_step env (Command_input True None False socket) st =
       Some (Ret Goes_on (st\<lparr>qx_model_error := True, qx_kills := qx_kills st @ [False, False]\<rparr>))"
    using assms(5)
    by (simp add: monitor_step_def manage_def receive_command_def command_error_def kill_cartridge_def
        process_command_def Let_def)
  moreover have "\<exists>S''. LocalDuct_accept_connection bytes (LocalDuct_reset ?S) = Fail S''" for bytes
    by (simp add: LocalDuct_accept_connection_def LocalDuct_reset_def Let_def)
  ultimately show ?thesis using fail assms(3) by (auto simp: LocalDuct_eof_def)
qed

theorem vanished_client_kills_workload_witness:
  "\<exists>S'. LocalDuct_receive_Buffer demo_io (demo_client, buf_empty) = Fail (S', buf_empty) \<and>
     monitor_step demo_env (Command_input True None (LocalDuct_eof S') True) (demo_start\<lparr>qx_connected := True\<rparr>) =
       Some (Ret Goes_on (demo_start\<lparr>qx_connected := True, qx_model_error := True, qx_kills := [False, False]\<rparr>))"
proof -
  let ?st = "demo_start\<lparr>qx_connected := True\<rparr>"
  have buf: "qx_cmdbufr ?st = buf_empty" and kills: "qx_kills ?st = []" by (simp_all add: demo_start_def Quixote_Init_def)
  from vanished_client_kills_workload [of demo_client ?st demo_io demo_env True, unfolded buf kills]
  show ?thesis by (auto simp: buf_empty_def)
qed

end
