(* ===== verification/QuixoteKernelProps.thy ===== *)
theory QuixoteKernelProps
  imports QuixoteKernel QuixoteConsoleProps
begin

text \<open>
  The orchestrator for models in the kernel: which commands a model file becomes, how the model of the kernel comes back as
  a file, what the management client receives, and two ways in which the orchestrator fails.
\<close>

section \<open>Commands for the kernel\<close>

text \<open>Nothing is left of an earlier command.\<close>

definition control_idle :: "TSEMcontrol_State \<Rightarrow> bool" where
  "control_idle c \<longleftrightarrow>
     \<not> b_poisoned (tc_bufr c) \<and> b_data (tc_bufr c) = [] \<and> \<not> h_poisoned (tc_cmdstr c) \<and> hs_chars (tc_cmdstr c) = []"

lemma control_idle_Init [simp]: "control_idle TSEMcontrol_Init"
  by (simp add: control_idle_def TSEMcontrol_Init_def buf_empty_def)

lemma command_written:
  assumes "control_idle c" "up (tc_written c)"
  shows "\<exists>d. steps [add_cmd t, TSEMcontrol_write_cmd up] c = Ret () d \<and> control_idle d \<and>
     tc_written d = tc_written c @ [t] \<and> tc_key d = tc_key c"
  using assms
  by (auto simp: add_cmd_def hs_add_ok TSEMcontrol_write_cmd_def buf_add_def control_idle_def buf_reset_def)

lemma command_refused:
  assumes "control_idle c" "\<not> up (tc_written c)"
  shows "\<exists>d. steps [add_cmd t, TSEMcontrol_write_cmd up] c = Fail d \<and> tc_written d = tc_written c"
  using assms
  by (auto simp: add_cmd_def hs_add_ok TSEMcontrol_write_cmd_def buf_add_def control_idle_def)

lemma state_command:
  assumes "NUL \<notin> set arg"
  shows "with_state name (k_argument arg) up c =
     steps [add_cmd (name @ '' value='' @ arg @ end_line), TSEMcontrol_write_cmd up] c"
  using assms by (simp add: with_state_def k_argument_def cstring_append)

text \<open>What a line of a model file makes the orchestrator write to the control file.\<close>

definition kernel_commands :: "string \<Rightarrow> byte list list" where
  "kernel_commands entry =
     (case find_command Security_cmd_list entry of
        Some (cmd, syntax, _) \<Rightarrow>
          (let value = '' value='' @ drop (length syntax) entry @ end_line
           in case cmd of
                Cmd_base \<Rightarrow> [''base'' @ value]
              | Cmd_state \<Rightarrow> [''state'' @ value]
              | Cmd_pseudonym \<Rightarrow> [''pseudonym'' @ value]
              | Cmd_seal \<Rightarrow> [''seal'' @ end_line]
              | _ \<Rightarrow> [])
      | None \<Rightarrow> [])"

text \<open>A line that is a command, with an argument if it needs one, and is not about signatures.\<close>

definition plain_entry :: "string \<Rightarrow> bool" where
  "plain_entry entry \<longleftrightarrow>
     NUL \<notin> set entry \<and>
     (case find_command Security_cmd_list entry of
        None \<Rightarrow> False
      | Some (cmd, syntax, has_arg) \<Rightarrow>
          cmd \<noteq> Cmd_key \<and> cmd \<noteq> Cmd_signature \<and> (has_arg \<longrightarrow> length syntax < length entry))"

definition kernel_ready :: "Kernel_State \<Rightarrow> bool" where
  "kernel_ready st \<longleftrightarrow> control_idle (kq_control st) \<and> (\<forall>d. kq_sigdata st = Some d \<longrightarrow> \<not> b_poisoned d)"

lemma kernel_ready_Init [simp]: "kernel_ready Kernel_Init" "tc_written (kq_control Kernel_Init) = []"
  by (simp_all add: kernel_ready_def Kernel_Init_def TSEMcontrol_Init_def control_idle_def buf_empty_def)

text \<open>The data that a signature covers.\<close>

definition add_signed :: "string \<Rightarrow> buf option \<Rightarrow> buf option" where
  "add_signed line d = map_option (\<lambda>d. d\<lparr>b_data := b_data d @ line @ [NUL]\<rparr>) d"

lemma add_entry_ok:
  "kernel_ready st \<Longrightarrow> Kernel_add_entry line st = Ret () (st\<lparr>kq_sigdata := add_signed line (kq_sigdata st)\<rparr>)"
  by (cases st; cases "kq_sigdata st") (simp_all add: Kernel_add_entry_def kernel_ready_def buf_add_def add_signed_def)

lemma kernel_control_step:
  assumes "kernel_ready st" "ke_control env (tc_written (kq_control st))"
  shows "\<exists>st'. steps [Kernel_add_entry line, k_control (steps [add_cmd t, TSEMcontrol_write_cmd (ke_control env)])] st = Ret () st' \<and>
     kernel_ready st' \<and> tc_written (kq_control st') = tc_written (kq_control st) @ [t] \<and>
     kq_key st' = kq_key st \<and> kq_sigdata st' = add_signed line (kq_sigdata st) \<and> kq_loading st' = kq_loading st"
proof -
  let ?st = "st\<lparr>kq_sigdata := add_signed line (kq_sigdata st)\<rparr>"
  have add: "Kernel_add_entry line st = Ret () ?st" by (rule add_entry_ok [OF assms(1)])
  obtain d where "steps [add_cmd t, TSEMcontrol_write_cmd (ke_control env)] (kq_control st) = Ret () d"
    "control_idle d" "tc_written d = tc_written (kq_control st) @ [t]"
    using command_written [of "kq_control st" "ke_control env" t] assms by (auto simp: kernel_ready_def)
  then show ?thesis using assms(1) by (auto simp: add k_control_def kernel_ready_def add_signed_def)
qed

lemma kernel_line_step:
  assumes "kernel_ready st" "NUL \<notin> set arg" "ke_control env (tc_written (kq_control st))"
  shows "\<exists>st'. steps [Kernel_add_entry line, k_control (with_state name (k_argument arg) (ke_control env))] st = Ret () st' \<and>
     kernel_ready st' \<and> tc_written (kq_control st') = tc_written (kq_control st) @ [name @ '' value='' @ arg @ end_line] \<and>
     kq_key st' = kq_key st \<and> kq_sigdata st' = add_signed line (kq_sigdata st) \<and> kq_loading st' = kq_loading st"
proof -
  have "k_control (with_state name (k_argument arg) (ke_control env)) =
      k_control (steps [add_cmd (name @ '' value='' @ arg @ end_line), TSEMcontrol_write_cmd (ke_control env)])"
    by (rule ext) (simp add: k_control_def state_command [OF assms(2)] del: steps.simps)
  with kernel_control_step [OF assms(1,3), of line "name @ '' value='' @ arg @ end_line"] show ?thesis by simp
qed

lemma kernel_entry:
  assumes "kernel_ready st" "plain_entry entry" "\<forall>w. ke_control env w"
  shows "\<exists>st'. Kernel_load env entry st = Ret () st' \<and> kernel_ready st' \<and>
     tc_written (kq_control st') = tc_written (kq_control st) @ kernel_commands entry \<and>
     kq_key st' = kq_key st \<and> kq_sigdata st' = add_signed entry (kq_sigdata st)"
proof -
  obtain cmd syn has_arg where f: "find_command Security_cmd_list entry = Some (cmd, syn, has_arg)"
    "cmd \<noteq> Cmd_key" "cmd \<noteq> Cmd_signature" "has_arg \<longrightarrow> length syn < length entry" and NUL: "NUL \<notin> set entry"
    using assms(2) by (auto simp: plain_entry_def split: option.splits prod.splits)
  let ?st = "if \<not> kq_loading st then st\<lparr>kq_loading := True\<rparr> else st" and ?arg = "drop (length syn) entry"
  have ready: "kernel_ready ?st" using assms(1) by (simp add: kernel_ready_def)
  have arg: "NUL \<notin> set ?arg" using NUL by (meson in_set_dropD)
  have same: "kq_control ?st = kq_control st" "kq_key ?st = kq_key st" "kq_sigdata ?st = kq_sigdata st" by simp_all
  have run: "Kernel_load env entry st = Kernel_load_command env cmd entry ?arg ?st"
    using f by (auto simp: Kernel_load_def Let_def)
  have point: "\<exists>st'. steps [Kernel_add_entry entry, k_control (with_state name (k_argument ?arg) (ke_control env))] ?st = Ret () st' \<and>
     kernel_ready st' \<and> tc_written (kq_control st') = tc_written (kq_control st) @ [name @ '' value='' @ ?arg @ end_line] \<and>
     kq_key st' = kq_key st \<and> kq_sigdata st' = add_signed entry (kq_sigdata st)" for name
    using kernel_line_step [OF ready arg, where name = name and line = entry] assms(3) unfolding same by blast
  have seal: "\<exists>st'. steps [Kernel_add_entry entry, k_control (TSEMcontrol_seal (ke_control env))] ?st = Ret () st' \<and>
     kernel_ready st' \<and> tc_written (kq_control st') = tc_written (kq_control st) @ [''seal'' @ end_line] \<and>
     kq_key st' = kq_key st \<and> kq_sigdata st' = add_signed entry (kq_sigdata st)"
    using kernel_control_step [OF ready, of env entry "''seal'' @ end_line"] assms(3)
    unfolding same TSEMcontrol_seal_def by blast
  note add = add_entry_ok [OF ready, of entry]
  have added: "kernel_ready (?st\<lparr>kq_sigdata := add_signed entry (kq_sigdata ?st)\<rparr>)"
    using ready by (auto simp: kernel_ready_def add_signed_def split: if_splits)
  show ?thesis
  proof (cases cmd)
    case Cmd_base
    with point [of "''base''"] f show ?thesis
      by (simp add: run Kernel_load_command_def TSEMcontrol_set_base_def kernel_commands_def)
  next
    case Cmd_state
    with point [of "''state''"] f show ?thesis
      by (simp add: run Kernel_load_command_def TSEMcontrol_add_state_def kernel_commands_def)
  next
    case Cmd_pseudonym
    with point [of "''pseudonym''"] f show ?thesis
      by (simp add: run Kernel_load_command_def TSEMcontrol_pseudonym_def kernel_commands_def)
  next
    case Cmd_seal
    with seal f show ?thesis by (simp add: run Kernel_load_command_def kernel_commands_def)
  qed (use f add added same in \<open>auto simp: run Kernel_load_command_def kernel_commands_def kernel_ready_def\<close>)
qed

lemma kernel_entries:
  assumes "kernel_ready st" "\<forall>entry \<in> set entries. plain_entry entry" "\<forall>w. ke_control env w"
  shows "\<exists>st'. Kernel_load_model env entries st = Ret () st' \<and> kernel_ready st' \<and>
     tc_written (kq_control st') = tc_written (kq_control st) @ concat (map kernel_commands entries) \<and>
     kq_key st' = kq_key st \<and> kq_sigdata st' = fold add_signed entries (kq_sigdata st)"
  using assms(1,2)
proof (induction entries arbitrary: st)
  case (Cons entry entries)
  then obtain st1 where st1: "Kernel_load env entry st = Ret () st1" "kernel_ready st1"
    "tc_written (kq_control st1) = tc_written (kq_control st) @ kernel_commands entry"
    "kq_key st1 = kq_key st" "kq_sigdata st1 = add_signed entry (kq_sigdata st)"
    using kernel_entry [OF _ _ assms(3)] by (metis list.set_intros(1))
  with Cons.IH [of st1] Cons.prems(2) show ?case by auto
qed simp

text \<open>
  The lines of a model file, when each of them is a command that is complete and none is about
  signatures, are loaded into a namespace without an error, and the kernel gets exactly the commands they stand for, in
  their order: base points, state points and pseudonyms with their values, and the seal.  Comments, the aggregate and the end
  are not passed on.
\<close>

theorem kernel_load_commands:
  assumes "kernel_ready st" "\<forall>entry \<in> set entries. plain_entry entry" "\<forall>w. ke_control env w"
  shows "\<exists>st'. Kernel_load_model env entries st = Ret () st' \<and> kernel_ready st' \<and>
     tc_written (kq_control st') = tc_written (kq_control st) @ concat (map kernel_commands entries)"
  using kernel_entries [OF assms] by blast

definition demo_kernel :: kernel_environment where
  "demo_kernel = \<lparr>ke_crypto = demo_crypto, ke_control = \<lambda>_. True, ke_mgmt = \<lambda>_. True,
     ke_files = \<lambda>n name. if name = AGGREGATE then Some [''00''] else Some [''01'', ''02'']\<rparr>"

theorem kernel_load_commands_witness:
  "\<exists>st'. Kernel_load_model demo_kernel [''# test'', ''base 00'', ''state 01'', ''seal'', ''end''] Kernel_Init = Ret () st' \<and>
     tc_written (kq_control st') =
       [''base value=00'' @ end_line, ''state value=01'' @ end_line, ''seal'' @ end_line]"
proof -
  have "\<forall>entry \<in> set [''# test'', ''base 00'', ''state 01'', ''seal'', ''end'']. plain_entry entry"
    by (simp add: plain_entry_def Security_cmd_list_def)
  moreover have "\<forall>w. ke_control demo_kernel w" by (simp add: demo_kernel_def)
  moreover have "concat (map kernel_commands [''# test'', ''base 00'', ''state 01'', ''seal'', ''end'']) =
      [''base value=00'' @ end_line, ''state value=01'' @ end_line, ''seal'' @ end_line]"
    by (simp add: kernel_commands_def Security_cmd_list_def)
  ultimately show ?thesis
    using kernel_load_commands [of Kernel_Init "[''# test'', ''base 00'', ''state 01'', ''seal'', ''end'']" demo_kernel] by auto
qed

section \<open>The model comes back as a file\<close>

lemma receive_model_line:
  assumes "CHR 0x0A \<notin> set l" "\<not> b_poisoned b" "\<forall>w. up w"
  shows "receive_model_loop up ok (l @ CHR 0x0A # cs) (b, out) =
     receive_model_loop up ok cs (buf_reset b, out @ [b_data b @ l @ end_line])"
  using assms(1,2)
proof (induction l arbitrary: b)
  case Nil
  then show ?case using assms(3) by (cases b) (simp add: buf_add_def buf_reset_def)
next
  case (Cons c l)
  then show ?case by (cases b) (auto simp: buf_add_def buf_reset_def)
qed

lemma receive_model_lines:
  assumes "\<forall>l \<in> set ls. CHR 0x0A \<notin> set l" "\<forall>w. up w"
  shows "receive_model_loop up True (lines ls) (buf_empty, out) = Ret () (buf_empty, out @ map (\<lambda>l. l @ end_line) ls)"
  using assms(1)
proof (induction ls arbitrary: out)
  case (Cons l ls)
  have "receive_model_loop up True (lines (l # ls)) (buf_empty, out) =
      receive_model_loop up True (lines ls) (buf_empty, out @ [l @ end_line])"
    using receive_model_line [OF _ _ assms(2), of l buf_empty True "lines ls" out] Cons.prems
    by (simp add: buf_empty_def buf_reset_def newline_def)
  with Cons show ?case by simp
qed simp

lemma upload_model_lines:
  assumes "ke_files env (kq_opens st) AGGREGATE = Some (sprint_hex agg # rest)"
    and "ke_files env (Suc (kq_opens st)) TRAJECTORY_COEFFICIENTS = Some (map sprint_hex ds)"
  shows "\<exists>st'. Kernel_upload_model env st = Fail st' \<and> kq_pipe st' = kq_pipe st @ lines (model_lines agg ds)"
  using assms
  by (simp add: Kernel_upload_model_def k_open_def k_write_def model_lines_def model_line_def lines_def newline_def comp_def)

definition state_text :: "byte list \<Rightarrow> byte list" where
  "state_text d = ''state value='' @ sprint_hex d @ end_line"

lemma model_line_kernel:
  assumes "d \<noteq> []"
  shows "plain_entry (model_line ''state '' d)" "plain_entry (model_line ''aggregate '' d)"
    "kernel_commands (model_line ''state '' d) = [state_text d]" "kernel_commands (model_line ''aggregate '' d) = []"
    "plain_entry ''seal''" "plain_entry ''end''"
    "kernel_commands ''seal'' = [''seal'' @ end_line]" "kernel_commands ''end'' = []"
proof -
  have hex: "sprint_hex d \<noteq> []" using hex_argument(1) [OF assms] .
  then show "plain_entry (model_line ''state '' d)" "plain_entry (model_line ''aggregate '' d)"
    using hex_no_NUL [of d] by (simp_all add: plain_entry_def find_lines) (simp_all add: model_line_def assms)
  show "kernel_commands (model_line ''state '' d) = [state_text d]"
    "kernel_commands (model_line ''aggregate '' d) = []"
    by (simp_all add: kernel_commands_def find_lines) (simp add: model_line_def state_text_def)
  show "plain_entry ''seal''" "plain_entry ''end''"
    "kernel_commands ''seal'' = [''seal'' @ end_line]" "kernel_commands ''end'' = []"
    by (simp_all add: plain_entry_def kernel_commands_def find_lines)
qed

lemma model_lines_kernel:
  assumes "agg \<noteq> []" "\<forall>d \<in> set ds. d \<noteq> []"
  shows "\<forall>l \<in> set (model_lines agg ds). plain_entry l \<and> CHR 0x0A \<notin> set l"
    "concat (map kernel_commands (model_lines agg ds)) = map state_text ds @ [''seal'' @ end_line]"
proof -
  have "CHR 0x0A \<notin> set (model_line key d)" if "CHR 0x0A \<notin> set key" for key d
    using that hex_no_newline by (simp add: model_line_def)
  then show "\<forall>l \<in> set (model_lines agg ds). plain_entry l \<and> CHR 0x0A \<notin> set l"
    using model_line_kernel assms by (auto simp: model_lines_def)
  have "concat (map kernel_commands (map (model_line ''state '') ds)) = map state_text ds"
    using assms(2) by (induction ds) (simp_all add: model_line_kernel)
  then show "concat (map kernel_commands (model_lines agg ds)) = map state_text ds @ [''seal'' @ end_line]"
    using model_line_kernel [OF assms(1)] by (simp add: model_lines_def)
qed

text \<open>
  C34: When the workload has ended and its model is wanted, the monitor writes the model that the kernel
  shows to the pipe, and the parent makes a file of it.  The lines of the file, loaded into a new namespace of the kernel, give
  it the same points in the same order and then the seal; loaded by the orchestrator that models in user space, they give a
  sealed model with the same valid points and no violation.
\<close>

theorem kernel_model_roundtrip:
  assumes "ke_files env (kq_opens st) AGGREGATE = Some (sprint_hex agg # rest)"
    and "ke_files env (Suc (kq_opens st)) TRAJECTORY_COEFFICIENTS = Some (map sprint_hex ds)"
    and "length agg = 32" "\<forall>d \<in> set ds. length d = 32" "distinct ds"
    and "\<not> kq_stop st" "kq_pipe st = []" "\<forall>w. up w" "\<forall>w. ke_control env' w" "sha_ok (cr_sha (env_crypto uenv))"
  shows "\<exists>st' bufr entries kst qst.
     Kernel_monitor_step env True False (Kernel_pass False True True io) st = Ret (Ends True) st' \<and>
     Kernel_receive_model up True (kq_pipe st') True = Ret () (bufr, map (\<lambda>l. l @ end_line) entries) \<and>
     Kernel_load_model env' entries Kernel_Init = Ret () kst \<and>
     tc_written (kq_control kst) = map state_text ds @ [''seal'' @ end_line] \<and>
     load_model uenv (Some entries) (Quixote_Init enforce errno) = Ret () qst \<and>
     ts_sealed (qx_model qst) \<and> valid_points (qx_model qst) = ds \<and> violations (qx_model qst) = []"
proof -
  let ?st = "st\<lparr>kq_stop := False, kq_sigchild := True\<rparr>" and ?entries = "model_lines agg ds"
  have ne: "agg \<noteq> []" "\<forall>d \<in> set ds. d \<noteq> []" using assms(3,4) by auto
  obtain st' where st': "Kernel_upload_model env ?st = Fail st'" "kq_pipe st' = lines ?entries"
    using upload_model_lines [of env ?st agg rest ds] assms(1,2,7) by auto
  then have step: "Kernel_monitor_step env True False (Kernel_pass False True True io) st = Ret (Ends True) st'"
    using assms(6) by (simp add: Kernel_monitor_step_def)
  have recv: "Kernel_receive_model up True (lines ?entries) True = Ret () (buf_empty, map (\<lambda>l. l @ end_line) ?entries)"
    using receive_model_lines [of ?entries up "[]"] model_lines_kernel(1) [OF ne] assms(8)
    by (simp add: Kernel_receive_model_def)
  obtain kst where kst: "Kernel_load_model env' ?entries Kernel_Init = Ret () kst"
    "tc_written (kq_control kst) = map state_text ds @ [''seal'' @ end_line]"
    using kernel_entries [of Kernel_Init ?entries env'] model_lines_kernel [OF ne] assms(9) by auto
  obtain qst where "load_model uenv (Some ?entries) (Quixote_Init enforce errno) = Ret () qst"
    "ts_sealed (qx_model qst) \<and> valid_points (qx_model qst) = ds \<and> violations (qx_model qst) = []"
    using load_model_lines [OF assms(10,3,5,4), of enforce errno] by (auto simp: load_model_def)
  with step recv kst st'(2) show ?thesis by metis
qed

theorem kernel_model_roundtrip_witness:
  "\<exists>env st'. Kernel_monitor_step env True False (Kernel_pass False True True Kernel_idle) Kernel_Init = Ret (Ends True) st' \<and>
     (\<exists>bufr entries. Kernel_receive_model (\<lambda>_. True) True (kq_pipe st') True = Ret () (bufr, map (\<lambda>l. l @ end_line) entries) \<and>
        (\<exists>kst. Kernel_load_model demo_kernel entries Kernel_Init = Ret () kst \<and>
           tc_written (kq_control kst) = [state_text zero_id, ''seal'' @ end_line]))"
proof -
  let ?env = "demo_kernel\<lparr>ke_files := \<lambda>n name. Some [sprint_hex zero_id]\<rparr>"
  have "\<forall>w. ke_control demo_kernel w" "length zero_id = 32" "\<not> kq_stop Kernel_Init" "kq_pipe Kernel_Init = []"
    "kq_opens Kernel_Init = 0"
    by (simp_all add: demo_kernel_def zero_id_def Kernel_Init_def)
  then show ?thesis
    using kernel_model_roundtrip [of ?env Kernel_Init zero_id "[]" "[zero_id]" "\<lambda>_. True" demo_kernel demo_env Kernel_idle]
    by fastforce
qed

section \<open>Lists for the management client\<close>

definition list_source :: "sancho_command \<Rightarrow> string option" where
  "list_source cmd =
     (case cmd of
        show_trajectory \<Rightarrow> Some (MODEL_DIR @ ''trajectory'')
      | show_counts \<Rightarrow> Some (MODEL_DIR @ ''trajectory_counts'')
      | show_coefficients \<Rightarrow> Some (MODEL_DIR @ ''trajectory_coefficients'')
      | show_forensics \<Rightarrow> Some (MODEL_DIR @ ''forensics'')
      | show_forensics_counts \<Rightarrow> Some (MODEL_DIR @ ''forensics_counts'')
      | show_forensics_coefficients \<Rightarrow> Some (MODEL_DIR @ ''forensics_coefficients'')
      | _ \<Rightarrow> None)"

text \<open>As many lines as were counted: the first ones, or all and empty ones behind them.\<close>

definition shown :: "nat \<Rightarrow> string list \<Rightarrow> string list" where
  "shown n ls = take n (ls @ replicate n [])"

lemma shown_simps [simp]: "shown 0 ls = []" "shown (Suc n) [] = [] # shown n []" "shown (Suc n) (l # ls) = l # shown n ls"
  "length (shown n ls) = n"
proof -
  show "shown (Suc n) (l # ls) = l # shown n ls"
    by (simp add: shown_def replicate_append_same [symmetric])
qed (simp_all add: shown_def)

lemma k_send_ok:
  assumes "\<forall>w. ke_mgmt env w" "\<not> b_poisoned (kq_cmdbufr st)"
  shows "k_send env (k_fill bs st) =
     Ret () (st\<lparr>kq_cmdbufr := \<lparr>b_poisoned = False, b_data = bs\<rparr>, kq_sent := kq_sent st @ [bs]\<rparr>)"
  using assms by (cases "kq_cmdbufr st") (simp add: k_send_def k_fill_def buf_add_def buf_reset_def)

lemma send_lines_ok:
  assumes "\<forall>w. ke_mgmt env w" "\<not> b_poisoned (kq_cmdbufr st)"
  shows "\<exists>b. k_send_lines env n ls st = Ret () (st\<lparr>kq_cmdbufr := b,
     kq_sent := kq_sent st @ map (\<lambda>l. l @ [NUL]) (shown n ls)\<rparr>) \<and> \<not> b_poisoned b"
  using assms(2)
proof (induction n arbitrary: ls st)
  case 0
  then show ?case by (intro exI [of _ "kq_cmdbufr st"]) simp
next
  case (Suc n)
  let ?l = "case ls of [] \<Rightarrow> [] | l # _ \<Rightarrow> l"
  let ?st = "st\<lparr>kq_cmdbufr := \<lparr>b_poisoned = False, b_data = ?l @ [NUL]\<rparr>, kq_sent := kq_sent st @ [?l @ [NUL]]\<rparr>"
  have "k_send env (k_fill (?l @ [NUL]) st) = Ret () ?st" by (rule k_send_ok) (use assms(1) Suc.prems in simp_all)
  moreover obtain b where "k_send_lines env n (tl ls) ?st = Ret () (?st\<lparr>kq_cmdbufr := b,
      kq_sent := kq_sent ?st @ map (\<lambda>l. l @ [NUL]) (shown n (tl ls))\<rparr>)" "\<not> b_poisoned b"
    using Suc.IH [of ?st "tl ls"] by auto
  ultimately show ?case by (cases ls) auto
qed

lemma send_file_ok:
  assumes "\<forall>w. ke_mgmt env w" "\<not> b_poisoned (kq_cmdbufr st)"
    and "ke_files env (kq_opens st) name = Some counted" "ke_files env (Suc (kq_opens st)) name = Some ls"
  shows "\<exists>b. k_send_file env name st = Ret () (st\<lparr>kq_opens := Suc (Suc (kq_opens st)), kq_cmdbufr := b,
     kq_sent := kq_sent st @ size_bytes (length counted) # map (\<lambda>l. l @ [NUL]) (shown (length counted) ls)\<rparr>) \<and> \<not> b_poisoned b"
proof -
  let ?st1 = "st\<lparr>kq_opens := Suc (kq_opens st)\<rparr>"
  let ?st2 = "?st1\<lparr>kq_cmdbufr := \<lparr>b_poisoned = False, b_data = size_bytes (length counted)\<rparr>,
    kq_sent := kq_sent st @ [size_bytes (length counted)]\<rparr>"
  have 1: "k_open env name st = Ret counted ?st1" using assms(3) by (simp add: k_open_def)
  have 2: "k_send env (k_fill (size_bytes (length counted)) ?st1) = Ret () ?st2"
    using k_send_ok [of env ?st1] assms(1,2) by simp
  have 3: "k_open env name ?st2 = Ret ls (?st2\<lparr>kq_opens := Suc (Suc (kq_opens st))\<rparr>)"
    using assms(4) by (simp add: k_open_def)
  obtain b where "k_send_lines env (length counted) ls (?st2\<lparr>kq_opens := Suc (Suc (kq_opens st))\<rparr>) =
     Ret () (?st2\<lparr>kq_opens := Suc (Suc (kq_opens st)), kq_cmdbufr := b,
       kq_sent := kq_sent ?st2 @ map (\<lambda>l. l @ [NUL]) (shown (length counted) ls)\<rparr>)" "\<not> b_poisoned b"
    using send_lines_ok [OF assms(1), of "?st2\<lparr>kq_opens := Suc (Suc (kq_opens st))\<rparr>" "length counted" ls] by auto
  with 1 2 3 show ?thesis by (auto simp: k_send_file_def)
qed

text \<open>The client prints the lines of a list, and nothing else when its output is no terminal.\<close>

lemma co_list_ok:
  assumes "io_complete io" "ld_fd (co_duct S)" "\<not> ld_poisoned (co_duct S)" "\<not> b_poisoned (co_bufr S)"
    and "ld_in (co_duct S) = concat (map packet (size_bytes (length ts) # map (\<lambda>t. t @ [NUL]) ts))"
    and "\<forall>t \<in> set ts. NUL \<notin> set t \<and> message_ok (t @ [NUL])" "length ts < 2 ^ 32"
  shows "\<exists>b. co_list io False title S =
     Ret () (S\<lparr>co_duct := (co_duct S)\<lparr>ld_in := []\<rparr>, co_bufr := b, co_out := co_out S @ lines ts\<rparr>)"
proof -
  let ?items = "concat (map (\<lambda>t. packet (t @ [NUL])) ts)"
  let ?S = "S\<lparr>co_duct := (co_duct S)\<lparr>ld_in := ?items\<rparr>, co_bufr := \<lparr>b_poisoned = False, b_data = size_bytes (length ts)\<rparr>\<rparr>"
  have 1: "co_receive io (co_reset S) = Ret () ?S"
    by (rule co_receive_ok [OF assms(1-4)]) (use assms(5) size_bytes_ok in \<open>simp_all add: comp_def\<close>)
  obtain b where 2: "co_items io [] (length ts) ?S =
      Ret () (?S\<lparr>co_duct := (co_duct ?S)\<lparr>ld_in := []\<rparr>, co_bufr := b,
               co_out := co_out ?S @ concat (map (\<lambda>t. [] @ t @ end_line) ts)\<rparr>)"
    using co_items_ok [OF assms(1), of ?S ts "[]" "[]"] assms(2,3,6) by auto
  show ?thesis
    unfolding co_list_def 1 res_bind.simps
    using 2 size_bytes_low [OF assms(7)]
    by (intro exI [of _ "buf_reset b"]) (simp add: Let_def co_reset_def lines_def newline_def)
qed

lemma list_source_client:
  assumes "list_source cmd = Some name"
  shows "\<exists>title. Console_receive_command io tty cmd = co_list io tty title"
  using assms
  by (cases cmd)
    (auto simp: list_source_def Console_receive_command_def Console_receive_trajectory_def Console_receive_list_def
      Console_receive_forensics_def Console_receive_coefficients_def fun_eq_iff)

lemma list_source_monitor:
  assumes "list_source cmd = Some name" "kq_cmdbufr st = \<lparr>b_poisoned = False, b_data = u32_bytes (number_of cmd)\<rparr>"
  shows "Kernel_process_command env st = k_send_file env name st"
proof -
  have "buf_size (kq_cmdbufr st) = 4" "command_of (b_data (kq_cmdbufr st)) = Some cmd"
    using assms(2) command_of_number [of cmd] by (simp_all add: buf_size_def)
  with assms(1) show ?thesis
    by (cases cmd)
      (auto simp: list_source_def Kernel_process_command_def Kernel_send_trajectory_def Kernel_send_counts_def
        Kernel_send_coefficients_def Kernel_send_forensics_def TRAJECTORY_COEFFICIENTS_def)
qed

lemma command_text:
  assumes "(cmd, txt) \<in> set Sancho_cmd_list"
  shows "map_of (rev (map prod.swap Sancho_cmd_list)) txt = Some cmd"
proof -
  have "distinct (map fst (rev (map prod.swap Sancho_cmd_list)))" by (simp add: Sancho_cmd_list_def)
  moreover have "(txt, cmd) \<in> set (rev (map prod.swap Sancho_cmd_list))" using assms by force
  ultimately show ?thesis by (rule map_of_is_SomeI)
qed

text \<open>
  The management client asks for one of the six lists of the kernel.  What the monitor answers is
  announced with its length, and the client prints as many lines: those of the file when it was opened for the second time.
  If it has grown in between, the new lines are missing; if it has shrunk, lines are empty.  The connection is left without a
  rest, whatever the workload did in between.
\<close>

theorem kernel_lists_shown:
  assumes "(cmd, txt) \<in> set Sancho_cmd_list" "list_source cmd = Some name"
    and "ke_files env (kq_opens st) name = Some counted" "ke_files env (Suc (kq_opens st)) name = Some ls"
    and "\<forall>l \<in> set ls. NUL \<notin> set l \<and> length l < 262144" "length counted < 2 ^ 32"
    and "\<forall>w. ke_mgmt env w" "kq_connected st" "\<not> b_poisoned (kq_cmdbufr st)" "b_data (kq_cmdbufr st) = []"
    and "\<not> kq_stop st" "\<not> kq_sigchild st"
    and "io_complete io" "\<forall>out p. io_write io out p" "ld_fd d" "\<not> ld_poisoned d" "ld_in d = []"
  shows "\<exists>command st' replies d'.
     Kernel_monitor_step env pause trajectory
       (Kernel_pass False False exited (Kernel_socket True (Some command) False True)) st = Ret Goes_on st' \<and>
     kq_sent st' = kq_sent st @ replies \<and>
     Console_process_command io False txt (concat (map packet replies)) (d, []) =
       Ret () (d', concat (map (\<lambda>l. l @ end_line) (take (length counted) (ls @ replicate (length counted) [])))) \<and>
     ld_in d' = [] \<and> ld_out d' = ld_out d @ packet command"
proof -
  let ?command = "u32_bytes (number_of cmd)"
  let ?b = "\<lparr>b_poisoned = False, b_data = ?command\<rparr>"
  let ?lines = "shown (length counted) ls"
  let ?msgs = "size_bytes (length counted) # map (\<lambda>l. l @ [NUL]) ?lines"
  have add: "buf_add ?command (kq_cmdbufr st) = Ret () ?b"
    using assms(9,10) by (cases "kq_cmdbufr st") (simp add: buf_add_def)
  let ?st = "st\<lparr>kq_stop := False, kq_sigchild := False, kq_cmdbufr := ?b\<rparr>"
  obtain b where sent: "Kernel_process_command env ?st = Ret () (?st\<lparr>kq_opens := Suc (Suc (kq_opens st)), kq_cmdbufr := b,
     kq_sent := kq_sent st @ ?msgs\<rparr>)"
    using send_file_ok [of env ?st name counted ls] list_source_monitor [OF assms(2), of ?st env] assms(3,4,7) by auto
  let ?st' = "?st\<lparr>kq_opens := Suc (Suc (kq_opens st)), kq_sent := kq_sent st @ ?msgs, kq_cmdbufr := buf_reset b\<rparr>"
  have step: "Kernel_monitor_step env pause trajectory
       (Kernel_pass False False exited (Kernel_socket True (Some ?command) False True)) st = Ret Goes_on ?st'"
    using assms(8,11,12) add sent by (simp add: Kernel_monitor_step_def Kernel_manage_def Let_def)
  have "\<forall>l \<in> set ?lines. NUL \<notin> set l \<and> message_ok (l @ [NUL])"
    using assms(5) by (auto simp: shown_def message_ok_def MAX_RECEIVE_SIZE_def dest!: in_set_takeD)
  moreover have "size_bytes (length ?lines) = size_bytes (length counted)" "length ?lines < 2 ^ 32" using assms(6) by simp_all
  moreover let ?d = "d\<lparr>ld_out := ld_out d @ packet ?command\<rparr>"
  let ?S = "\<lparr>co_duct = ?d\<lparr>ld_in := concat (map packet ?msgs)\<rparr>, co_bufr = buf_reset ?b, co_out = []\<rparr>"
  obtain title where title: "Console_receive_command io False cmd = co_list io False title"
    using list_source_client [OF assms(2)] by blast
  ultimately obtain b' where shown: "Console_receive_command io False cmd ?S =
     Ret () (?S\<lparr>co_duct := (co_duct ?S)\<lparr>ld_in := []\<rparr>, co_bufr := b', co_out := lines ?lines\<rparr>)"
    using co_list_ok [OF assms(13), of ?S ?lines title] assms(15,16) by (auto simp: buf_reset_def)
  have "LocalDuct_send_Buffer io (Some ?b) d = Ret () ?d"
    using assms(14-16) by (simp add: LocalDuct_send_Buffer_def packet_def buf_size_def)
  with shown have "Console_process_command io False txt (concat (map packet ?msgs)) (d, []) =
      Ret () (?d\<lparr>ld_in := []\<rparr>, lines ?lines)"
    using assms(17) by (simp add: Console_process_command_def command_text [OF assms(1)] Let_def)
  with step show ?thesis unfolding lines_def newline_def shown_def by fastforce
qed

theorem kernel_lists_shown_witness:
  "\<exists>command st' replies d'.
     Kernel_monitor_step demo_kernel False False
       (Kernel_pass False False False (Kernel_socket True (Some command) False True)) (Kernel_Init\<lparr>kq_connected := True\<rparr>) =
       Ret Goes_on st' \<and>
     Console_process_command demo_io False ''show trajectory'' (concat (map packet replies)) (demo_client, []) =
       Ret () (d', ''01'' @ end_line @ ''02'' @ end_line)"
proof -
  let ?ls = "[''01'', ''02''] :: string list" and ?st = "Kernel_Init\<lparr>kq_connected := True\<rparr>"
  have src: "(show_trajectory, ''show trajectory'') \<in> set Sancho_cmd_list"
    "list_source show_trajectory = Some (MODEL_DIR @ ''trajectory'')"
    by (simp_all add: Sancho_cmd_list_def list_source_def)
  have ls: "ke_files demo_kernel n (MODEL_DIR @ ''trajectory'') = Some ?ls" for n
    by (simp add: demo_kernel_def MODEL_DIR_def AGGREGATE_def)
  have ok: "\<forall>l \<in> set ?ls. NUL \<notin> set l \<and> length l < 262144" "length ?ls < 2 ^ 32" "\<forall>w. ke_mgmt demo_kernel w"
    by (simp_all add: demo_kernel_def)
  have st: "kq_connected ?st" "\<not> b_poisoned (kq_cmdbufr ?st)" "b_data (kq_cmdbufr ?st) = []" "\<not> kq_stop ?st" "\<not> kq_sigchild ?st"
    by (simp_all add: Kernel_Init_def buf_empty_def)
  have io: "io_complete demo_io" "\<forall>out p. io_write demo_io out p" by simp_all
  have shown: "concat (map (\<lambda>l. l @ end_line) (take (length ?ls) (?ls @ replicate (length ?ls) []))) =
      ''01'' @ end_line @ ''02'' @ end_line" by simp
  show ?thesis
    using kernel_lists_shown [OF src ls ls ok st io demo_client_simps(1,2,3), of False False False]
    unfolding shown by blast
qed

section \<open>A client that is not served\<close>

text \<open>
  The flag of the child signal is never cleared.  After such a signal for a workload
  that has not ended, because it was only stopped, the monitor goes on without serving the management socket:
  whatever clients send until the workload ends, nothing is sent, written or changed.
\<close>

theorem commands_ignored_after_child_signal:
  assumes "\<not> kq_stop st"
    and "\<forall>input \<in> set inputs. \<exists>child io. input = Kernel_pass False child False io"
  shows "Kernel_child_monitor env pause trajectory (Kernel_pass False True False io # inputs) st =
     Ret () (st\<lparr>kq_sigchild := True\<rparr>)"
proof -
  have "Kernel_child_monitor env pause trajectory inputs st' = Ret () st'"
    if "\<not> kq_stop st'" "kq_sigchild st'" for st'
    using assms(2)
  proof (induction inputs)
    case (Cons input inputs)
    then obtain child io where "input = Kernel_pass False child False io" by auto
    moreover have same: "st'\<lparr>kq_stop := False, kq_sigchild := True\<rparr> = st'" using that by (cases st') simp
    ultimately show ?case using Cons that by (simp add: Kernel_monitor_step_def Let_def same)
  qed simp
  moreover have same: "st\<lparr>kq_stop := False, kq_sigchild := True\<rparr> = st\<lparr>kq_sigchild := True\<rparr>" using assms(1) by (cases st) simp
  ultimately show ?thesis using assms(1) by (simp add: Kernel_monitor_step_def Let_def same)
qed

theorem commands_ignored_after_child_signal_witness:
  "Kernel_child_monitor demo_kernel False False
     [Kernel_pass False True False Kernel_idle,
      Kernel_pass False False False (Kernel_socket True (Some (u32_bytes (number_of show_state))) False True)] Kernel_Init =
   Ret () (Kernel_Init\<lparr>kq_sigchild := True\<rparr>)"
proof -
  have "\<not> kq_stop Kernel_Init" by (simp add: Kernel_Init_def)
  then show ?thesis
    using commands_ignored_after_child_signal [of Kernel_Init
        "[Kernel_pass False False False (Kernel_socket True (Some (u32_bytes (number_of show_state))) False True)]"
        demo_kernel False False Kernel_idle] by (auto simp del: Kernel_child_monitor.simps)
qed

section \<open>The trajectory\<close>

lemma receive_trajectory_line:
  assumes "CHR 0x0A \<notin> set l" "NUL \<notin> set l" "\<not> h_poisoned str" "\<forall>w. up w" "length array = 2" "array ! 1 = NUL"
  shows "\<exists>array' str'. receive_trajectory_loop up ok (map (\<lambda>c. [c]) (l @ end_line) @ reads) (array, str, out) =
     receive_trajectory_loop up ok reads (array', str', out @ [hs_chars str @ l @ end_line]) \<and>
     length array' = 2 \<and> array' ! 1 = NUL \<and> \<not> h_poisoned str' \<and> hs_chars str' = []"
  using assms(1-3,5,6)
proof (induction l arbitrary: array str)
  case Nil
  then obtain x where "array = [x, NUL]" by (cases array; cases "tl array") auto
  then show ?case using Nil(3) assms(4)
    by (intro exI [of _ "[CHR 0x0A, NUL]"] exI [of _ "hs_reset (hs_of (hs_chars str @ end_line))"])
      (simp add: overwrite_def hs_add_ok)
next
  case (Cons c l)
  then obtain x where array: "array = [x, NUL]" by (cases array; cases "tl array") auto
  have "c_string [c, NUL] = Some [c]" using Cons.prems(2) by (auto simp: c_string_def cstring_def)
  then have "receive_trajectory_loop up ok (map (\<lambda>c. [c]) ((c # l) @ end_line) @ reads) (array, str, out) =
      receive_trajectory_loop up ok (map (\<lambda>c. [c]) (l @ end_line) @ reads) ([c, NUL], hs_of (hs_chars str @ [c]), out)"
    using Cons.prems(1,3) array by (auto simp: overwrite_def hs_add_ok Let_def)
  with Cons.IH [of "hs_of (hs_chars str @ [c])" "[c, NUL]"] Cons.prems show ?case by auto
qed

lemma receive_trajectory_lines:
  assumes "\<forall>l \<in> set ls. CHR 0x0A \<notin> set l \<and> NUL \<notin> set l" "\<forall>w. up w"
    and "length array = 2" "array ! 1 = NUL" "\<not> h_poisoned str" "hs_chars str = []"
  shows "\<exists>array' str'. receive_trajectory_loop up True (map (\<lambda>c. [c]) (lines ls)) (array, str, out) =
     Ret () (array', str', out @ map (\<lambda>l. l @ end_line) ls)"
  using assms(1,3-)
proof (induction ls arbitrary: array str out)
  case (Cons l ls)
  obtain array' str' where
    "receive_trajectory_loop up True (map (\<lambda>c. [c]) (l @ end_line) @ map (\<lambda>c. [c]) (lines ls)) (array, str, out) =
     receive_trajectory_loop up True (map (\<lambda>c. [c]) (lines ls)) (array', str', out @ [l @ end_line])"
    "length array' = 2 \<and> array' ! 1 = NUL \<and> \<not> h_poisoned str' \<and> hs_chars str' = []"
    using receive_trajectory_line [OF _ _ Cons.prems(4) assms(2) Cons.prems(2,3), of l True "map (\<lambda>c. [c]) (lines ls)" out]
      Cons.prems(1,5) by auto
  with Cons.IH [of array' str' "out @ [l @ end_line]"] Cons.prems(1) show ?case by (auto simp: newline_def)
qed simp

text \<open>
  The monitor writes the trajectory line by line, and the parent reads it into an array of two
  bytes.  When every read returns one byte the file gets the lines.  As soon as a read returns two bytes of
  which the first is no newline and none is 0, the array holds no NUL and its use as a text leaves it; when the first is
  a newline, the byte behind it is lost.
\<close>

theorem trajectory_reader_overruns:
  assumes "ke_files env (kq_opens st) (MODEL_DIR @ ''trajectory'') = Some ls" "kq_pipe st = []" "\<forall>w. up w"
    and "\<forall>l \<in> set ls. CHR 0x0A \<notin> set l \<and> NUL \<notin> set l"
    and "a \<noteq> CHR 0x0A" "a \<noteq> NUL" "b \<noteq> NUL"
  shows "\<exists>st'. Kernel_upload_trajectory env st = Fail st' \<and>
     (\<exists>array str. Kernel_receive_trajectory up True junk (map (\<lambda>c. [c]) (kq_pipe st')) True =
        Ret () (array, str, map (\<lambda>l. l @ end_line) ls)) \<and>
     Kernel_receive_trajectory up True junk ([a, b] # reads) ok = Undef \<and>
     Kernel_receive_trajectory up True junk [[CHR 0x0A, b], [CHR 0x0A]] True =
       Ret () ([CHR 0x0A, b], hs_of [], [end_line, end_line])"
proof -
  obtain st' where "Kernel_upload_trajectory env st = Fail st'" "kq_pipe st' = lines ls"
    using assms(1,2) by (auto simp: Kernel_upload_trajectory_def k_open_def k_write_def lines_def newline_def)
  moreover have "\<exists>array str. Kernel_receive_trajectory up True junk (map (\<lambda>c. [c]) (lines ls)) True =
      Ret () (array, str, map (\<lambda>l. l @ end_line) ls)"
    using receive_trajectory_lines [OF assms(4,3), of "[junk, NUL]" hs_empty "[]"]
    by (simp add: Kernel_receive_trajectory_def)
  moreover have "Kernel_receive_trajectory up True junk ([a, b] # reads) ok = Undef"
    using assms(5-7) by (simp add: Kernel_receive_trajectory_def overwrite_def c_string_def)
  moreover have "Kernel_receive_trajectory up True junk [[CHR 0x0A, b], [CHR 0x0A]] True =
       Ret () ([CHR 0x0A, b], hs_of [], [end_line, end_line])"
    using assms(3) by (simp add: Kernel_receive_trajectory_def overwrite_def hs_reset_def hs_of_def hs_empty_def hs_add_def
        hs_chars_def hs_get_def)
  ultimately show ?thesis by auto
qed

theorem trajectory_reader_overruns_witness:
  "\<exists>st'. Kernel_upload_trajectory demo_kernel Kernel_Init = Fail st' \<and>
     (\<exists>array str. Kernel_receive_trajectory (\<lambda>_. True) True NUL (map (\<lambda>c. [c]) (kq_pipe st')) True =
        Ret () (array, str, [''01'' @ end_line, ''02'' @ end_line])) \<and>
     Kernel_receive_trajectory (\<lambda>_. True) True NUL [''01''] True = Undef"
proof -
  have "ke_files demo_kernel n (MODEL_DIR @ ''trajectory'') = Some [''01'', ''02'']" for n
    by (simp add: demo_kernel_def MODEL_DIR_def AGGREGATE_def)
  moreover have "kq_pipe Kernel_Init = []" by (simp add: Kernel_Init_def)
  ultimately show ?thesis
    using trajectory_reader_overruns [of demo_kernel Kernel_Init "[''01'', ''02'']" "\<lambda>_. True" "CHR ''0''" "CHR ''1''" NUL "[]" True]
    by fastforce
qed

end
