(* ===== verification/SignModel.thy ===== *)
theory SignModel
  imports Base64 RSAkey QuixoteKernelProps
begin

text \<open>
  The signing of model files (\<open>SecurityModel/sign-model.c\<close>), and what the two loaders make of a signed file.
\<close>

section \<open>Signing\<close>

text \<open>
  \<open>public\<close> is the public part of the key that was loaded, \<open>sign\<close> the signature of OpenSSL, \<open>content\<close> the
  lines of the model file if it opens.  The state are the lines that were printed.
\<close>

definition sign_model ::
  "(byte list \<Rightarrow> byte list) \<Rightarrow> byte list option \<Rightarrow> (byte list \<Rightarrow> byte list option) \<Rightarrow> string list option \<Rightarrow>
   (unit, string list) res" where
  "sign_model enc public sign content =
     (case public of
        None \<Rightarrow> Fail []
      | Some pub \<Rightarrow>
          (case Base64_encode enc \<lparr>b_poisoned = False, b_data = pub\<rparr> (Base64_Init, hs_of ''key '') of
             Ret _ (encoder, str) \<Rightarrow>
               (let out = [hs_chars str];
                    bufr = hs_chars str @ [NUL]
                in case content of
                     None \<Rightarrow> Fail out
                   | Some ls \<Rightarrow>
                       (let out = out @ ls;
                            bufr = bufr @ concat (map (\<lambda>l. l @ [NUL]) ls)
                        in case sign bufr of
                             None \<Rightarrow> Fail out
                           | Some sg \<Rightarrow>
                               (case Base64_encode enc \<lparr>b_poisoned = False, b_data = sg\<rparr> (encoder, hs_of ''signature '') of
                                  Ret _ (_, str) \<Rightarrow> Ret () (out @ [hs_chars str])
                                | Fail _ \<Rightarrow> Fail out
                                | Undef \<Rightarrow> Undef)))
           | Fail _ \<Rightarrow> Fail []
           | Undef \<Rightarrow> Undef))"

section \<open>Loading does not look at the signed data\<close>

definition signing :: "buf option \<Rightarrow> buf option \<Rightarrow> TSEM_State \<Rightarrow> TSEM_State" where
  "signing k d S = S\<lparr>ts_key := k, ts_sigdata := d\<rparr>"

definition signings :: "(TSEM_State \<Rightarrow> TSEM_State) set" where
  "signings = {signing k d | k d. True}"

definition sign_view :: "TSEM_State \<Rightarrow> buf option \<times> buf option" where
  "sign_view S = (ts_key S, ts_sigdata S)"

lemma signing_parts [simp]:
  assumes "u \<in> signings"
  shows "ts_poisoned (u S) = ts_poisoned S" "ts_sealed (u S) = ts_sealed S" "ts_base (u S) = ts_base S"
    "ts_have_aggregate (u S) = ts_have_aggregate S" "ts_aggregate (u S) = ts_aggregate S"
    "ts_measurement (u S) = ts_measurement S" "ts_points (u S) = ts_points S" "ts_model (u S) = ts_model S"
  using assms by (auto simp: signings_def signing_def)

lemma signing_updates [simp]:
  assumes "u \<in> signings"
  shows "u S\<lparr>ts_poisoned := a\<rparr> = u (S\<lparr>ts_poisoned := a\<rparr>)" "u S\<lparr>ts_sealed := a\<rparr> = u (S\<lparr>ts_sealed := a\<rparr>)"
    "u S\<lparr>ts_base := l\<rparr> = u (S\<lparr>ts_base := l\<rparr>)" "u S\<lparr>ts_have_aggregate := a\<rparr> = u (S\<lparr>ts_have_aggregate := a\<rparr>)"
    "u S\<lparr>ts_aggregate := b\<rparr> = u (S\<lparr>ts_aggregate := b\<rparr>)" "u S\<lparr>ts_measurement := l\<rparr> = u (S\<lparr>ts_measurement := l\<rparr>)"
    "u S\<lparr>ts_points := g\<rparr> = u (S\<lparr>ts_points := g\<rparr>)" "u S\<lparr>ts_model := m\<rparr> = u (S\<lparr>ts_model := m\<rparr>)"
    "u S\<lparr>ts_loading := a\<rparr> = u (S\<lparr>ts_loading := a\<rparr>)"
  using assms by (auto simp: signings_def signing_def)

lemma sign_view_updates [simp]:
  "sign_view (S\<lparr>ts_poisoned := a\<rparr>) = sign_view S" "sign_view (S\<lparr>ts_sealed := a\<rparr>) = sign_view S"
  "sign_view (S\<lparr>ts_base := l\<rparr>) = sign_view S" "sign_view (S\<lparr>ts_have_aggregate := a\<rparr>) = sign_view S"
  "sign_view (S\<lparr>ts_aggregate := b\<rparr>) = sign_view S" "sign_view (S\<lparr>ts_measurement := l\<rparr>) = sign_view S"
  "sign_view (S\<lparr>ts_points := g\<rparr>) = sign_view S" "sign_view (S\<lparr>ts_model := m\<rparr>) = sign_view S"
  "sign_view (S\<lparr>ts_loading := a\<rparr>) = sign_view S"
  by (simp_all add: sign_view_def)

abbreviation unsigned :: "(TSEM_State \<Rightarrow> (unit, TSEM_State) res) \<Rightarrow> bool" where
  "unsigned f \<equiv> framed signings sign_view f"

lemma unsigned_extend: "unsigned (TSEM_extend sha update)"
  unfolding TSEM_extend_def by (rule framed_zoom) simp_all

lemma unsigned_update_map: "unsigned (TSEM_update_map sha b)"
proof -
  let ?cp = "SecurityPoint_add b SecurityPoint_Init"
  let ?add = "\<lambda>cp1. steps [TSEM_extend sha (SecurityPoint_get cp1), \<lambda>S. zoom (\<lambda>p. S\<lparr>ts_points := p\<rparr>) (Gaggle_add cp1 (ts_points S))]"
  have zoom: "unsigned (\<lambda>S. zoom (\<lambda>p. S\<lparr>ts_points := p\<rparr>) (Gaggle_add cp1 (ts_points S)))" for cp1
    by (rule framed_zoom) simp_all
  have add: "unsigned (?add cp1)" for cp1
    by (rule framed_steps) (auto simp: unsigned_extend zoom)
  have set_points: "unsigned (\<lambda>S. f (S\<lparr>ts_points := p\<rparr>))" if "unsigned f" for f p
    by (rule framed_modify [OF _ _ that]) simp_all
  let ?found = "\<lambda>m S. case m of None \<Rightarrow> Undef
      | Some (True, points, _) \<Rightarrow> Ret () (S\<lparr>ts_points := points\<rparr>)
      | Some (False, points, cp1) \<Rightarrow> ?add cp1 (S\<lparr>ts_points := points\<rparr>)"
  have found: "unsigned (?found m)" for m
  proof (cases m)
    case (Some x)
    obtain known points cp1 where "x = (known, points, cp1)" by (cases x)
    then show ?thesis
      using Some set_points [OF framed_Ret] set_points [OF add] by (cases known) simp_all
  qed (simp add: framed_Undef)
  have "unsigned (\<lambda>S. ?found (TSEM_is_mapped (ts_points S) ?cp) S)"
    by (rule framed_read [where f = ?found and p = "\<lambda>S. TSEM_is_mapped (ts_points S) ?cp"]) (simp_all add: found del: steps.simps)
  then show ?thesis
    unfolding TSEM_update_map_def [abs_def] Let_def
    by (intro framed_read_if framed_Fail) simp_all
qed

lemma unsigned_on_fail: "unsigned f \<Longrightarrow> unsigned (\<lambda>S. on_fail tsem_poison (f S))"
  unfolding framed_def
proof (intro conjI allI impI ballI)
  assume f: "(\<forall>u\<in>signings. \<forall>S. f (u S) = zoom u (f S)) \<and> (\<forall>a S T. f S = Ret a T \<or> f S = Fail T \<longrightarrow> sign_view T = sign_view S)"
  show "on_fail tsem_poison (f (u S)) = zoom u (on_fail tsem_poison (f S))" if "u \<in> signings" for u S
    using f that by (cases "f S") (auto simp: tsem_poison_def)
  show "sign_view T = sign_view S" if "on_fail tsem_poison (f S) = Ret a T \<or> on_fail tsem_poison (f S) = Fail T" for a S T
    using f that by (cases "f S") (auto simp: tsem_poison_def)
qed

lemma unsigned_assign: "(\<And>u S. u \<in> signings \<Longrightarrow> g (u S) = u (g S)) \<Longrightarrow> (\<And>S. sign_view (g S) = sign_view S) \<Longrightarrow> unsigned (assign g)"
  by (simp add: framed_def)

lemma unsigned_on_aggregate: "unsigned (\<lambda>S. on_aggregate (f S) S)" if "\<And>u S. u \<in> signings \<Longrightarrow> f (u S) = f S"
  unfolding on_aggregate_def by (rule framed_zoom) (simp_all add: that)

lemma unsigned_set_aggregate: "unsigned (TSEM_set_aggregate sha b)"
proof -
  let ?bytes = "if b_poisoned b then [] else b_data b"
  let ?set = "\<lambda>measurement S. if ts_have_aggregate S \<and> read_bytes IDSIZE (b_data (ts_aggregate S)) = None then Undef
       else if ts_have_aggregate S \<and> take IDSIZE (b_data (ts_aggregate S)) = measurement then Ret () S
       else steps
         [assign (\<lambda>S. if ts_have_aggregate S then S\<lparr>ts_aggregate := buf_reset (ts_aggregate S)\<rparr> else S),
          assign (\<lambda>S. S\<lparr>ts_measurement := measurement\<rparr>),
          (\<lambda>S. on_aggregate (buf_add (ts_measurement S)) S),
          assign (\<lambda>S. S\<lparr>ts_have_aggregate := True\<rparr>)] S"
  have prog: "unsigned (steps
         [assign (\<lambda>S. if ts_have_aggregate S then S\<lparr>ts_aggregate := buf_reset (ts_aggregate S)\<rparr> else S),
          assign (\<lambda>S. S\<lparr>ts_measurement := measurement\<rparr>),
          (\<lambda>S. on_aggregate (buf_add (ts_measurement S)) S),
          assign (\<lambda>S. S\<lparr>ts_have_aggregate := True\<rparr>)])" for measurement
    by (rule framed_steps) (auto intro!: unsigned_assign unsigned_on_aggregate)
  have set_it: "unsigned (?set measurement)" for measurement
    by (intro framed_read_if framed_Undef framed_Ret prog) (simp_all del: steps.simps)
  have "unsigned (\<lambda>S. case TSEM_extend_measurement sha (ts_base S) ?bytes zero_id of
             Undef \<Rightarrow> Undef | Fail _ \<Rightarrow> Fail S | Ret measurement _ \<Rightarrow> ?set measurement S)"
    by (rule framed_read_res [where p = "\<lambda>S. TSEM_extend_measurement sha (ts_base S) ?bytes zero_id"])
      (simp_all only: set_it framed_Fail signing_parts)
  then show ?thesis
    unfolding TSEM_set_aggregate_def [abs_def]
    by (intro unsigned_on_fail framed_read_if framed_Fail framed_Ret) simp_all
qed

text \<open>What a line does besides the addition to the signed data.\<close>

definition load_core :: "crypto \<Rightarrow> load_command \<Rightarrow> string \<Rightarrow> TSEM_State \<Rightarrow> (unit, TSEM_State) res" where
  "load_core cr cmd arg =
     (case cmd of
        Cmd_base \<Rightarrow> with_hex arg (\<lambda>b S. case read_bytes IDSIZE (b_data b) of
                                          None \<Rightarrow> Undef | Some base \<Rightarrow> Ret () (S\<lparr>ts_base := base\<rparr>))
      | Cmd_aggregate \<Rightarrow> with_hex arg (TSEM_set_aggregate (cr_sha cr))
      | Cmd_state \<Rightarrow> with_hex arg (TSEM_update_map (cr_sha cr))
      | Cmd_pseudonym \<Rightarrow> steps
          [assign (\<lambda>S. if ts_model S = None then S\<lparr>ts_model := Some EventModel_Init\<rparr> else S),
           with_hex arg (\<lambda>b S. zoom (\<lambda>M. S\<lparr>ts_model := Some M\<rparr>) (EventModel_add_pseudonym b (the (ts_model S))))]
      | Cmd_seal \<Rightarrow> assign TSEM_seal
      | Cmd_end \<Rightarrow> assign (\<lambda>S. S\<lparr>ts_loading := False\<rparr>)
      | _ \<Rightarrow> Ret ())"

lemma unsigned_with_hex: "(\<And>b. unsigned (f b)) \<Longrightarrow> unsigned (with_hex arg f)"
  unfolding with_hex_def [abs_def] by (cases "buf_add_hexstring (Some arg) buf_empty") (auto simp: framed_Undef)

lemma unsigned_load_core: "unsigned (load_core cr cmd arg)"
proof -
  have base: "unsigned (\<lambda>S. case read_bytes IDSIZE (b_data b) of None \<Rightarrow> Undef | Some base \<Rightarrow> Ret () (S\<lparr>ts_base := base\<rparr>))" for b
    by (cases "read_bytes IDSIZE (b_data b)") (simp_all add: framed_def)
  have pseudonym: "unsigned (\<lambda>S. zoom (\<lambda>M. S\<lparr>ts_model := Some M\<rparr>) (EventModel_add_pseudonym b (the (ts_model S))))" for b
    by (rule framed_zoom) simp_all
  show ?thesis
    unfolding load_core_def
    by (cases cmd)
      (auto simp del: steps.simps intro!: framed_steps unsigned_with_hex unsigned_assign base pseudonym
        unsigned_set_aggregate unsigned_update_map simp: TSEM_seal_def)
qed

lemma signing_member [simp]: "signing k d \<in> signings"
  by (auto simp: signings_def)

lemma core_signing: "load_core cr cmd arg (signing k d S) = zoom (signing k d) (load_core cr cmd arg S)"
  by (rule framedD(1) [OF unsigned_load_core signing_member])

lemma bind_Ret [simp]: "res_bind m Ret = m"
  by (cases m) simp_all

lemma steps_nil: "steps [] = Ret ()"
  by (rule ext) simp

lemma steps_one: "steps [f] = f"
  by (rule ext) (simp add: steps_nil)

definition signed_with :: "string \<Rightarrow> buf option \<Rightarrow> buf" where
  "signed_with line d = (let b = (case d of None \<Rightarrow> buf_empty | Some b \<Rightarrow> b) in b\<lparr>b_data := b_data b @ line @ [NUL]\<rparr>)"

definition data_ok :: "buf option \<Rightarrow> bool" where
  "data_ok d \<longleftrightarrow> (\<forall>b. d = Some b \<longrightarrow> \<not> b_poisoned b)"

lemma signed_with_ok: "data_ok d \<Longrightarrow> \<not> b_poisoned (signed_with line d)"
  by (auto simp: signed_with_def data_ok_def Let_def buf_empty_def split: option.split)

lemma load_plain:
  assumes "plain_entry entry" "\<not> ts_poisoned S" "data_ok (ts_sigdata S)"
    and f: "find_command Security_cmd_list entry = Some (cmd, syn, has_arg)"
  shows "TSEM_load cr (hs_of entry) S =
     zoom (signing (ts_key S) (Some (signed_with entry (ts_sigdata S)))) (load_core cr cmd (drop (length syn) entry) (S\<lparr>ts_loading := True\<rparr>))"
proof -
  let ?arg = "drop (length syn) entry"
  let ?b = "case ts_sigdata S of None \<Rightarrow> buf_empty | Some b \<Rightarrow> b"
  let ?S1 = "if cmd \<noteq> Cmd_signature \<and> \<not> ts_loading S then S\<lparr>ts_loading := True\<rparr> else S"
  have cmd: "cmd \<noteq> Cmd_key" "cmd \<noteq> Cmd_signature" "\<not> (has_arg \<and> ?arg = [])"
    using assms(1) f by (auto simp: plain_entry_def)
  have S2: "(if ts_sigdata ?S1 = None then ?S1\<lparr>ts_sigdata := Some buf_empty\<rparr> else ?S1) =
      S\<lparr>ts_loading := True, ts_sigdata := Some ?b\<rparr>"
    using cmd(2) by (cases S; cases "ts_sigdata S"; cases "ts_loading S") simp_all
  have "TSEM_load cr (hs_of entry) S = TSEM_load_command cr cmd entry ?arg (S\<lparr>ts_loading := True, ts_sigdata := Some ?b\<rparr>)"
    unfolding TSEM_load_def Let_def f hs_get_of option.case prod.case S2
    using assms(2) cmd(3) by (simp only: if_False)
  also have "TSEM_load_command cr cmd entry ?arg T = res_bind (TSEM_add_entry entry T) (\<lambda>_. load_core cr cmd ?arg)" for T
    using cmd by (cases cmd) (simp_all add: TSEM_load_command_def load_core_def steps_one steps_nil)
  also have "TSEM_add_entry entry (S\<lparr>ts_loading := True, ts_sigdata := Some ?b\<rparr>) =
      Ret () (signing (ts_key S) (Some (signed_with entry (ts_sigdata S))) (S\<lparr>ts_loading := True\<rparr>))"
    using assms(3) by (auto simp: TSEM_add_entry_def buf_add_def signing_def signed_with_def data_ok_def Let_def buf_empty_def split: option.split)
  finally show ?thesis
    by (simp add: core_signing)
qed

lemma core_healthy:
  assumes "load_core cr cmd arg S = Ret u T"
  shows "ts_poisoned T = ts_poisoned S"
  using assms
  by (cases cmd)
    (auto simp: load_core_def with_hex_def TSEM_set_aggregate_def TSEM_update_map_def TSEM_extend_def on_aggregate_def
      TSEM_seal_def res_simps Let_def split: res.splits option.splits if_splits prod.splits bool.splits)

text \<open>The same lines loaded with another key and other signed data in front.\<close>

lemma load_signed:
  assumes "plain_entry entry" "data_ok (ts_sigdata S)" "\<not> b_poisoned d" "TSEM_load cr (hs_of entry) S = Ret () T"
  shows "TSEM_load cr (hs_of entry) (signing k (Some d) S) = Ret () (signing k (Some (signed_with entry (Some d))) T)"
    "data_ok (ts_sigdata T)" "\<not> ts_poisoned T" "\<not> ts_poisoned S"
proof -
  show healthy: "\<not> ts_poisoned S" using assms(4) by (auto simp: TSEM_load_def split: if_splits)
  obtain cmd syn has_arg where f: "find_command Security_cmd_list entry = Some (cmd, syn, has_arg)"
    using assms(1) by (auto simp: plain_entry_def split: option.splits)
  let ?core = "load_core cr cmd (drop (length syn) entry)"
  obtain U where U: "?core (S\<lparr>ts_loading := True\<rparr>) = Ret () U" "T = signing (ts_key S) (Some (signed_with entry (ts_sigdata S))) U"
    using assms(4) load_plain [OF assms(1) healthy assms(2) f, of cr]
    by (cases "?core (S\<lparr>ts_loading := True\<rparr>)") auto
  have "TSEM_load cr (hs_of entry) (signing k (Some d) S) =
      zoom (signing k (Some (signed_with entry (Some d)))) (?core ((signing k (Some d) S)\<lparr>ts_loading := True\<rparr>))"
    using load_plain [OF assms(1) _ _ f, of "signing k (Some d) S" cr] healthy assms(3)
    by (simp add: signing_def data_ok_def)
  moreover have "?core ((signing k (Some d) S)\<lparr>ts_loading := True\<rparr>) = zoom (signing k (Some d)) (?core (S\<lparr>ts_loading := True\<rparr>))"
    by (simp add: core_signing)
  ultimately show "TSEM_load cr (hs_of entry) (signing k (Some d) S) = Ret () (signing k (Some (signed_with entry (Some d))) T)"
    using U by (simp add: signing_def)
  show "data_ok (ts_sigdata T)" using U(2) signed_with_ok [OF assms(2)] by (simp add: signing_def data_ok_def)
  show "\<not> ts_poisoned T" using core_healthy [OF U(1)] healthy U(2) by (simp add: signing_def)
qed

section \<open>Signed files\<close>

definition signed_data :: "string list \<Rightarrow> byte list" where
  "signed_data ls = concat (map (\<lambda>l. l @ [NUL]) ls)"

lemma signed_data_simps [simp]: "signed_data [] = []" "signed_data (l # ls) = l @ NUL # signed_data ls"
  by (simp_all add: signed_data_def)

definition plain_buf :: "byte list \<Rightarrow> buf" where
  "plain_buf bs = \<lparr>b_poisoned = False, b_data = bs\<rparr>"

lemma plain_buf_simps [simp]: "\<not> b_poisoned (plain_buf bs)" "b_data (plain_buf bs) = bs"
  "signed_with l (Some (plain_buf bs)) = plain_buf (bs @ l @ [NUL])"
  by (simp_all add: plain_buf_def signed_with_def)

definition with_signing :: "buf option \<Rightarrow> buf option \<Rightarrow> Quixote_State \<Rightarrow> Quixote_State" where
  "with_signing k d st = st\<lparr>qx_model := signing k d (qx_model st)\<rparr>"

lemma load_entries_signed:
  assumes "\<forall>e \<in> set es. plain_entry e" "data_ok (ts_sigdata (qx_model st))" "load_entries cr es st = Ret () st1"
  shows "load_entries cr (es @ rest) (with_signing k (Some (plain_buf d)) st) =
       load_entries cr rest (with_signing k (Some (plain_buf (d @ signed_data es))) st1) \<and>
     (es \<noteq> [] \<longrightarrow> \<not> ts_poisoned (qx_model st1))"
  using assms
proof (induction es arbitrary: st d)
  case (Cons e es)
  let ?st = "if e = ''seal'' then st\<lparr>qx_sealed := True\<rparr> else st"
  have model: "qx_model ?st = qx_model st" by simp
  obtain T where T: "TSEM_load cr (hs_of e) (qx_model st) = Ret () T" "load_entries cr es (?st\<lparr>qx_model := T\<rparr>) = Ret () st1"
    using Cons.prems(3) by (cases "TSEM_load cr (hs_of e) (qx_model st)") (auto simp: Let_def split: if_splits)
  have plain: "plain_entry e" using Cons.prems(1) by simp
  note load = load_signed [OF plain Cons.prems(2) plain_buf_simps(1) T(1)]
  have "load_entries cr ((e # es) @ rest) (with_signing k (Some (plain_buf d)) st) =
      load_entries cr (es @ rest) (with_signing k (Some (plain_buf (d @ e @ [NUL]))) (?st\<lparr>qx_model := T\<rparr>))"
    using load(1) by (cases "e = ''seal''") (auto simp: with_signing_def Let_def)
  moreover note IH = Cons.IH [OF _ _ T(2), of "d @ e @ [NUL]"]
  moreover have "\<not> ts_poisoned (qx_model st1)"
  proof (cases es)
    case Nil
    then show ?thesis using T(2) load(3) by auto
  qed (use IH Cons.prems(1) load(2) in simp)
  ultimately show ?case using Cons.prems(1) load(2) by simp
qed simp

lemma load_loading:
  assumes "plain_entry e" "\<not> ts_poisoned S" "data_ok (ts_sigdata S)"
  shows "TSEM_load cr (hs_of e) (S\<lparr>ts_loading := True\<rparr>) = TSEM_load cr (hs_of e) S"
proof -
  obtain cmd syn has_arg where f: "find_command Security_cmd_list e = Some (cmd, syn, has_arg)"
    using assms(1) by (auto simp: plain_entry_def split: option.splits)
  show ?thesis
    using load_plain [OF assms f, of cr] load_plain [OF assms(1) _ _ f, of "S\<lparr>ts_loading := True\<rparr>" cr] assms(2,3) by simp
qed

definition key_line :: "string \<Rightarrow> string" where
  "key_line t = ''key '' @ t"

definition signature_line :: "string \<Rightarrow> string" where
  "signature_line t = ''signature '' @ t"

lemma find_signing_lines:
  "find_command Security_cmd_list (key_line t) = Some (Cmd_key, ''key '', True)"
  "find_command Security_cmd_list (signature_line t) = Some (Cmd_signature, ''signature '', True)"
  by (simp_all add: Security_cmd_list_def key_line_def signature_line_def)

lemma load_key:
  assumes "t \<noteq> []"
  shows "TSEM_load cr (hs_of (key_line t)) TSEM_Init =
     Ret () (signing (Some (plain_buf (t @ [NUL]))) (Some (plain_buf (key_line t @ [NUL]))) (TSEM_Init\<lparr>ts_loading := True\<rparr>))"
proof -
  have arg: "drop (length ''key '') (key_line t) = t" by (simp add: key_line_def)
  show ?thesis
    unfolding TSEM_load_def Let_def hs_get_of option.case find_signing_lines prod.case arg
    using assms
    by (simp add: TSEM_load_command_def TSEM_add_entry_def TSEM_Init_def buf_add_def buf_empty_def signing_def plain_buf_def)
qed

text \<open>How a signature is found to be valid.\<close>

definition accepts :: "crypto \<Rightarrow> string \<Rightarrow> string \<Rightarrow> byte list \<Rightarrow> bool" where
  "accepts cr key sig d \<longleftrightarrow>
     (\<exists>pub sg. cr_base64 cr key = Some pub \<and> cr_rsa_load cr pub \<and> cr_base64 cr sig = Some sg \<and>
        cr_rsa_verify cr pub sg d = Some True)"

lemma verify_model:
  assumes "NUL \<notin> set key"
  shows "accepts cr key sig d \<Longrightarrow> \<exists>k. TSEM_verify_model cr sig d (plain_buf (key @ [NUL])) = Ret True k"
    "\<not> accepts cr key sig d \<Longrightarrow> (\<exists>k. TSEM_verify_model cr sig d (plain_buf (key @ [NUL])) = Ret False k \<or>
        TSEM_verify_model cr sig d (plain_buf (key @ [NUL])) = Fail k)"
  using assms
  by (auto simp: accepts_def TSEM_verify_model_def cstring_append buf_reset_def buf_add_def plain_buf_def split: option.splits)

lemma load_signature:
  assumes "NUL \<notin> set key" "sig \<noteq> []" "\<not> ts_poisoned S"
    and "ts_key S = Some (plain_buf (key @ [NUL]))" "ts_sigdata S = Some (plain_buf d)"
  shows "accepts cr key sig d \<Longrightarrow> \<exists>k. TSEM_load cr (hs_of (signature_line sig)) S = Ret () (S\<lparr>ts_key := k\<rparr>)"
    "\<not> accepts cr key sig d \<Longrightarrow> \<exists>T. TSEM_load cr (hs_of (signature_line sig)) S = Fail T"
proof -
  have arg: "drop (length ''signature '') (signature_line sig) = sig" by (simp add: signature_line_def)
  have load: "TSEM_load cr (hs_of (signature_line sig)) S =
      (case TSEM_verify_model cr sig d (plain_buf (key @ [NUL])) of
         Ret valid k \<Rightarrow> (if valid then Ret () (S\<lparr>ts_key := Some k\<rparr>) else Fail (S\<lparr>ts_key := Some k\<rparr>))
       | Fail k \<Rightarrow> Fail (S\<lparr>ts_key := Some k\<rparr>)
       | Undef \<Rightarrow> Undef)"
    unfolding TSEM_load_def find_signing_lines Let_def hs_get_of option.case prod.case arg
    using assms(2-) by (simp add: TSEM_load_command_def)
  show "accepts cr key sig d \<Longrightarrow> \<exists>k. TSEM_load cr (hs_of (signature_line sig)) S = Ret () (S\<lparr>ts_key := k\<rparr>)"
    using verify_model(1) [OF assms(1), of cr sig d] load by fastforce
  show "\<not> accepts cr key sig d \<Longrightarrow> \<exists>T. TSEM_load cr (hs_of (signature_line sig)) S = Fail T"
    using verify_model(2) [OF assms(1), of cr sig d] load by fastforce
qed

text \<open>The user-space orchestrator: the key, the lines, and what comes behind them.\<close>

lemma load_keyed:
  assumes "key \<noteq> []" "\<forall>e \<in> set es. plain_entry e" "es \<noteq> []"
    and "load_entries cr es (Quixote_Init enforce errno) = Ret () st"
  shows "load_entries cr (key_line key # es @ rest) (Quixote_Init enforce errno) =
      load_entries cr rest (with_signing (Some (plain_buf (key @ [NUL]))) (Some (plain_buf (signed_data (key_line key # es)))) st)"
    "\<not> ts_poisoned (qx_model st)"
proof -
  let ?init = "Quixote_Init enforce errno"
  let ?st0 = "?init\<lparr>qx_model := TSEM_Init\<lparr>ts_loading := True\<rparr>\<rparr>"
  have model: "qx_model ?init = TSEM_Init" by (simp add: Quixote_Init_def)
  have init: "\<not> ts_poisoned TSEM_Init" "data_ok (ts_sigdata TSEM_Init)" by (simp_all add: TSEM_Init_def data_ok_def)
  have "key_line key \<noteq> ''seal''" by (simp add: key_line_def)
  then have first: "load_entries cr (key_line key # es @ rest) ?init =
      load_entries cr (es @ rest) (with_signing (Some (plain_buf (key @ [NUL]))) (Some (plain_buf (key_line key @ [NUL]))) ?st0)"
    using load_key [OF assms(1), of cr] model by (simp add: with_signing_def)
  obtain e es' where es: "es = e # es'" using assms(3) by (cases es) auto
  then have plain: "plain_entry e" using assms(2) by simp
  have "load_entries cr es ?st0 = load_entries cr es ?init"
    using load_loading [OF plain init] model by (cases "e = ''seal''") (auto simp: es Let_def)
  with assms(4) have "load_entries cr es ?st0 = Ret () st" by simp
  moreover have "data_ok (ts_sigdata (qx_model ?st0))" using init(2) by simp
  ultimately have "load_entries cr (es @ rest)
        (with_signing (Some (plain_buf (key @ [NUL]))) (Some (plain_buf (key_line key @ [NUL]))) ?st0) =
      load_entries cr rest (with_signing (Some (plain_buf (key @ [NUL])))
        (Some (plain_buf ((key_line key @ [NUL]) @ signed_data es))) st) \<and> \<not> ts_poisoned (qx_model st)"
    using load_entries_signed [OF assms(2), of ?st0 cr st rest] assms(3) by blast
  with first show "load_entries cr (key_line key # es @ rest) ?init =
      load_entries cr rest (with_signing (Some (plain_buf (key @ [NUL]))) (Some (plain_buf (signed_data (key_line key # es)))) st)"
    "\<not> ts_poisoned (qx_model st)" by simp_all
qed

lemma load_signed_file:
  assumes "key \<noteq> []" "\<forall>e \<in> set es. plain_entry e" "es \<noteq> []" "NUL \<notin> set key" "sig \<noteq> []"
    and "load_entries cr es (Quixote_Init enforce errno) = Ret () st"
  shows "accepts cr key sig (signed_data (key_line key # es)) \<Longrightarrow>
      \<exists>k d. load_entries cr (key_line key # es @ [signature_line sig]) (Quixote_Init enforce errno) = Ret () (with_signing k d st)"
    "\<not> accepts cr key sig (signed_data (key_line key # es)) \<Longrightarrow>
      \<exists>T. load_entries cr (key_line key # es @ [signature_line sig]) (Quixote_Init enforce errno) = Fail T"
proof -
  let ?k = "Some (plain_buf (key @ [NUL]))" and ?d = "signed_data (key_line key # es)"
  let ?S = "signing ?k (Some (plain_buf ?d)) (qx_model st)"
  note load = load_keyed(1) [OF assms(1-3,6), of "[signature_line sig]"]
  have S: "\<not> ts_poisoned ?S" "ts_key ?S = ?k" "ts_sigdata ?S = Some (plain_buf ?d)"
    using load_keyed(2) [OF assms(1-3,6)] by (simp_all add: signing_def)
  note signature = load_signature [OF assms(4,5) S, of cr]
  have not_seal: "signature_line sig \<noteq> ''seal''" by (simp add: signature_line_def)
  show "\<exists>k d. load_entries cr (key_line key # es @ [signature_line sig]) (Quixote_Init enforce errno) = Ret () (with_signing k d st)"
    if valid: "accepts cr key sig ?d"
  proof -
    obtain k where "TSEM_load cr (hs_of (signature_line sig)) ?S = Ret () (?S\<lparr>ts_key := k\<rparr>)" using signature(1) [OF valid] by blast
    then have "load_entries cr [signature_line sig] (with_signing ?k (Some (plain_buf ?d)) st) =
        Ret () (with_signing k (Some (plain_buf ?d)) st)"
      using not_seal by (simp add: with_signing_def signing_def)
    then show ?thesis unfolding load by blast
  qed
  show "\<exists>T. load_entries cr (key_line key # es @ [signature_line sig]) (Quixote_Init enforce errno) = Fail T"
    if "\<not> accepts cr key sig ?d"
    using signature(2) [OF that] not_seal unfolding load by (auto simp: with_signing_def)
qed

text \<open>The orchestrator for models in the kernel.\<close>

lemma Kernel_load_append:
  "Kernel_load_model env (xs @ ys) st = res_bind (Kernel_load_model env xs st) (\<lambda>_. Kernel_load_model env ys)"
proof (induction xs arbitrary: st)
  case (Cons x xs)
  then show ?case by (cases "Kernel_load env x st") simp_all
qed simp

lemma fold_add_signed: "fold add_signed es (Some (plain_buf d)) = Some (plain_buf (d @ signed_data es))"
  by (induction es arbitrary: d) (simp_all add: add_signed_def plain_buf_def)

lemma kernel_keyed:
  assumes "key \<noteq> []" "\<forall>e \<in> set es. plain_entry e" "\<forall>w. ke_control env w"
  shows "\<exists>st. Kernel_load_model env (key_line key # es) Kernel_Init = Ret () st \<and>
     tc_written (kq_control st) = concat (map kernel_commands es) \<and>
     kq_key st = Some (plain_buf (key @ [NUL])) \<and> kq_sigdata st = Some (plain_buf (signed_data (key_line key # es)))"
proof -
  let ?st = "Kernel_Init\<lparr>kq_loading := True, kq_key := Some (plain_buf (key @ [NUL])),
    kq_sigdata := Some (plain_buf (key_line key @ [NUL]))\<rparr>"
  have arg: "drop (length ''key '') (key_line key) = key" by (simp add: key_line_def)
  have "Kernel_load env (key_line key) Kernel_Init = Ret () ?st"
    unfolding Kernel_load_def find_signing_lines option.case prod.case Let_def arg
    using assms(1)
    by (simp add: Kernel_load_command_def Kernel_add_entry_def Kernel_Init_def buf_add_def buf_empty_def plain_buf_def)
  moreover have "kernel_ready ?st" "tc_written (kq_control ?st) = []"
    using kernel_ready_Init by (simp_all add: kernel_ready_def)
  note kernel_entries [OF this(1) assms(2,3)]
  ultimately show ?thesis using \<open>tc_written (kq_control ?st) = []\<close> fold_add_signed [of es "key_line key @ [NUL]"] by auto
qed

lemma kernel_signed_file:
  assumes "key \<noteq> []" "\<forall>e \<in> set es. plain_entry e" "\<forall>w. ke_control env w" "NUL \<notin> set key" "sig \<noteq> []"
  shows "\<exists>st. Kernel_load_model env (key_line key # es @ [signature_line sig]) Kernel_Init =
       (if accepts (ke_crypto env) key sig (signed_data (key_line key # es)) then Ret () st else Fail st) \<and>
     tc_written (kq_control st) = concat (map kernel_commands es)"
proof -
  let ?d = "signed_data (key_line key # es)"
  obtain st where st: "Kernel_load_model env (key_line key # es) Kernel_Init = Ret () st"
    "tc_written (kq_control st) = concat (map kernel_commands es)"
    "kq_key st = Some (plain_buf (key @ [NUL]))" "kq_sigdata st = Some (plain_buf ?d)"
    using kernel_keyed [OF assms(1-3)] by blast
  have arg: "drop (length ''signature '') (signature_line sig) = sig" by (simp add: signature_line_def)
  let ?st1 = "st\<lparr>kq_key := None, kq_sigdata := None\<rparr>"
  have load: "Kernel_load env (signature_line sig) st =
      (case TSEM_verify_model (ke_crypto env) sig ?d (plain_buf (key @ [NUL])) of
         Undef \<Rightarrow> Undef | Fail _ \<Rightarrow> Fail ?st1 | Ret valid _ \<Rightarrow> (if valid then Ret () ?st1 else Fail ?st1))"
    unfolding Kernel_load_def find_signing_lines option.case prod.case Let_def arg
    using assms(5) st(3,4) by (simp add: Kernel_load_command_def Kernel_verify_model_def Let_def)
  have "Kernel_load env (signature_line sig) st = (if accepts (ke_crypto env) key sig ?d then Ret () ?st1 else Fail ?st1)"
    using verify_model [OF assms(4), of "ke_crypto env" sig ?d] unfolding load by (auto split: if_splits)
  then show ?thesis
    using Kernel_load_append [of env "key_line key # es" "[signature_line sig]" Kernel_Init] st(1,2)
    by (intro exI [of _ ?st1]) simp
qed

lemma sign_model_ok:
  assumes "block_code enc dec" "length pub < 2 ^ 31" "length sg < 2 ^ 31"
    and "sign (signed_data (key_line (code_text enc pub) # es)) = Some sg"
  shows "sign_model enc (Some pub) sign (Some es) =
     Ret () (key_line (code_text enc pub) # es @ [signature_line (code_text enc sg)])"
proof -
  have S: "\<not> b6_poisoned Base64_Init" by (simp add: Base64_Init_def)
  have "(length pub + 2) div 3 \<le> 715827883" "(length sg + 2) div 3 \<le> 715827883" using assms(2,3) by simp_all
  then have fits: "length ''key '' + 4 * ((length pub + 2) div 3) + 1 \<le> fib_max"
    "length ''signature '' + 4 * ((length sg + 2) div 3) + 1 \<le> fib_max" by (simp_all add: fib_max_def)
  obtain k where k: "Base64_encode enc \<lparr>b_poisoned = False, b_data = pub\<rparr> (Base64_Init, hs_of ''key '') = Ret () (Base64_Init, k)"
    "hs_chars k = key_line (code_text enc pub)"
    using encode_text [OF assms(1) _ _ S, of "hs_of ''key ''" pub] fits(1) by (auto simp: key_line_def)
  obtain t where "Base64_encode enc \<lparr>b_poisoned = False, b_data = sg\<rparr> (Base64_Init, hs_of ''signature '') = Ret () (Base64_Init, t)"
    "hs_chars t = signature_line (code_text enc sg)"
    using encode_text [OF assms(1) _ _ S, of "hs_of ''signature ''" sg] fits(2) by (auto simp: signature_line_def)
  with k assms(4) show ?thesis by (simp add: sign_model_def Let_def signed_data_def)
qed

text \<open>
  C36: A model file that loads without its signature is signed and loads with it: in user space it gives
  the same orchestrator, apart from the key and the signed data, and for a namespace in the kernel the same commands.
  OpenSSL is assumed to encode single blocks by the standard, and to verify what it has signed with the key.
\<close>

theorem signed_model_accepted:
  assumes "block_code enc dec" "length junk = 3" "cr_base64 cr = base64_of dec junk"
    and "pub \<noteq> []" "length pub < 2 ^ 31" "cr_rsa_load cr pub"
    and "\<forall>d. \<exists>sg. sign d = Some sg \<and> sg \<noteq> [] \<and> length sg < 2 ^ 31 \<and> cr_rsa_verify cr pub sg d = Some True"
    and "es \<noteq> []" "\<forall>e \<in> set es. plain_entry e"
    and "env_crypto env = cr" "load_model env (Some es) (Quixote_Init enforce errno) = Ret () st"
    and "ke_crypto kenv = cr" "\<forall>w. ke_control kenv w"
  shows "\<exists>signed k d kst. sign_model enc (Some pub) sign (Some es) = Ret () signed \<and>
     load_model env (Some signed) (Quixote_Init enforce errno) =
       Ret () (st\<lparr>qx_model := (qx_model st)\<lparr>ts_key := k, ts_sigdata := d\<rparr>\<rparr>) \<and>
     Kernel_load_model kenv signed Kernel_Init = Ret () kst \<and>
     tc_written (kq_control kst) = concat (map kernel_commands es)"
proof -
  let ?key = "code_text enc pub"
  let ?d = "signed_data (key_line ?key # es)"
  obtain sg where sg: "sign ?d = Some sg" "sg \<noteq> []" "length sg < 2 ^ 31" "cr_rsa_verify cr pub sg ?d = Some True"
    using assms(7) by blast
  let ?sig = "code_text enc sg"
  have fits: "length pub + 2 \<le> fib_max" "length sg + 2 \<le> fib_max" using assms(5) sg(3) by (simp_all add: fib_max_def)
  have decoded: "cr_base64 cr ?key = Some pub" "cr_base64 cr ?sig = Some sg"
    using base64_of_text [OF assms(1) _ _ assms(2)] assms(3,4) sg(2) fits by simp_all
  then have accepted: "accepts cr ?key ?sig ?d" using assms(6) sg(4) by (simp add: accepts_def)
  have key: "?key \<noteq> []" "NUL \<notin> set ?key" "?sig \<noteq> []" using code_text_ok [OF assms(1)] assms(4) sg(2) by simp_all
  have plain: "load_entries cr es (Quixote_Init enforce errno) = Ret () st"
    using assms(10,11) by (simp add: load_model_def)
  obtain k d where "load_entries cr (key_line ?key # es @ [signature_line ?sig]) (Quixote_Init enforce errno) =
      Ret () (with_signing k d st)"
    using load_signed_file(1) [OF key(1) assms(9,8) key(2,3) plain accepted] by blast
  moreover obtain kst where "Kernel_load_model kenv (key_line ?key # es @ [signature_line ?sig]) Kernel_Init = Ret () kst"
    "tc_written (kq_control kst) = concat (map kernel_commands es)"
    using kernel_signed_file [OF key(1) assms(9,13) key(2,3)] accepted assms(12) by auto
  ultimately show ?thesis
    using sign_model_ok [where sign = sign and es = es, OF assms(1,5) sg(3,1)] assms(10) by (auto simp: load_model_def with_signing_def signing_def)
qed

definition signing_crypto :: crypto where
  "signing_crypto = demo_crypto\<lparr>cr_base64 := base64_of std_decode ''xyz'', cr_rsa_load := \<lambda>_. True,
     cr_rsa_verify := \<lambda>_ sg _. Some (sg = ''s'')\<rparr>"

lemma signing_crypto_simps [simp]:
  "cr_sha signing_crypto = demo_sha" "cr_base64 signing_crypto = base64_of std_decode ''xyz''"
  "cr_rsa_load signing_crypto = (\<lambda>_. True)" "cr_rsa_verify signing_crypto = (\<lambda>_ sg _. Some (sg = ''s''))"
  by (simp_all add: signing_crypto_def demo_crypto_def)

lemma signing_example:
  "\<exists>st. load_model (demo_env\<lparr>env_crypto := signing_crypto\<rparr>) (Some (model_lines zero_id [zero_id])) (Quixote_Init True 0) = Ret () st"
  "\<forall>e \<in> set (model_lines zero_id [zero_id]). plain_entry e"
proof -
  have sha: "sha_ok (cr_sha signing_crypto)" by simp
  have "length zero_id = IDSIZE" "zero_id \<noteq> []" by (simp_all add: zero_id_def)
  with load_model_lines [OF sha, of zero_id "[zero_id]" True 0]
  show "\<exists>st. load_model (demo_env\<lparr>env_crypto := signing_crypto\<rparr>) (Some (model_lines zero_id [zero_id])) (Quixote_Init True 0) = Ret () st"
    by (auto simp: load_model_def)
  show "\<forall>e \<in> set (model_lines zero_id [zero_id]). plain_entry e"
    using model_lines_kernel(1) [of zero_id "[zero_id]"] \<open>zero_id \<noteq> []\<close> by auto
qed

theorem signed_model_accepted_witness:
  "\<exists>signed st. sign_model std_encode (Some ''pub'') (\<lambda>_. Some ''s'') (Some (model_lines zero_id [zero_id])) = Ret () signed \<and>
     load_model (demo_env\<lparr>env_crypto := signing_crypto\<rparr>) (Some signed) (Quixote_Init True 0) = Ret () st"
proof -
  let ?env = "demo_env\<lparr>env_crypto := signing_crypto\<rparr>" and ?kenv = "demo_kernel\<lparr>ke_crypto := signing_crypto\<rparr>"
  obtain st where "load_model ?env (Some (model_lines zero_id [zero_id])) (Quixote_Init True 0) = Ret () st"
    using signing_example(1) by blast
  moreover have "model_lines zero_id [zero_id] \<noteq> []" by (simp add: model_lines_def)
  moreover have "\<forall>w. ke_control ?kenv w" by (simp add: demo_kernel_def)
  ultimately show ?thesis
    using signed_model_accepted [OF std_block_code, of "''xyz''" signing_crypto "''pub''" "\<lambda>_. Some ''s''"
        "model_lines zero_id [zero_id]" ?env True 0 st ?kenv] signing_example(2) by fastforce
qed

text \<open>What the functions of OpenSSL return for the key, the signature and the signed data.\<close>

definition signature_passes :: "openssl \<Rightarrow> crypto \<Rightarrow> string \<Rightarrow> string \<Rightarrow> byte list \<Rightarrow> bool" where
  "signature_passes ssl cr key sig d \<longleftrightarrow>
     (case (cr_base64 cr key, cr_base64 cr sig) of
        (Some pub, Some sg) \<Rightarrow>
          ssl_pubkey ssl pub \<and> ssl_alloc ssl \<and> ssl_verify_init ssl pub \<noteq> 0 \<and> ssl_verify_update ssl pub d \<noteq> 0 \<and>
          ssl_verify_final ssl pub d sg \<noteq> 0
      | _ \<Rightarrow> False)"

lemma accepts_openssl: "accepts (openssl_crypto ssl cr) key sig d = signature_passes ssl cr key sig d"
  by (auto simp: accepts_def signature_passes_def openssl_crypto_verify split: option.splits if_splits)

text \<open>
  C37: Both loaders, with the key object for OpenSSL, refuse a signed file when its key or its
  signature cannot be used or OpenSSL finds that the signature is not valid, with the result 0.  Every other
  result passes, also the negative numbers that OpenSSL returns for an error, because the code keeps the
  result in a \<open>_Bool\<close>.  The kernel has got all its commands in any case, because the signature is the last line.  And
  a file without its last line is loaded by both, with the key and whatever its lines are: nothing asks for a signature.
\<close>

theorem signature_is_checked_last:
  assumes "key \<noteq> []" "NUL \<notin> set key" "sig \<noteq> []" "es \<noteq> []" "\<forall>e \<in> set es. plain_entry e"
    and "env_crypto env = openssl_crypto ssl cr" "load_model env (Some es) (Quixote_Init enforce errno) = Ret () st"
    and "ke_crypto kenv = openssl_crypto ssl cr" "\<forall>w. ke_control kenv w"
  shows "\<exists>kst k d k' d' kst'.
     (if signature_passes ssl cr key sig (concat (map (\<lambda>l. l @ [NUL]) ((''key '' @ key) # es)))
      then load_model env (Some ((''key '' @ key) # es @ [''signature '' @ sig])) (Quixote_Init enforce errno) =
          Ret () (st\<lparr>qx_model := (qx_model st)\<lparr>ts_key := k, ts_sigdata := d\<rparr>\<rparr>) \<and>
        Kernel_load_model kenv ((''key '' @ key) # es @ [''signature '' @ sig]) Kernel_Init = Ret () kst
      else (\<exists>st'. load_model env (Some ((''key '' @ key) # es @ [''signature '' @ sig])) (Quixote_Init enforce errno) = Fail st') \<and>
        Kernel_load_model kenv ((''key '' @ key) # es @ [''signature '' @ sig]) Kernel_Init = Fail kst) \<and>
     tc_written (kq_control kst) = concat (map kernel_commands es) \<and>
     load_model env (Some ((''key '' @ key) # es)) (Quixote_Init enforce errno) =
       Ret () (st\<lparr>qx_model := (qx_model st)\<lparr>ts_key := k', ts_sigdata := d'\<rparr>\<rparr>) \<and>
     Kernel_load_model kenv ((''key '' @ key) # es) Kernel_Init = Ret () kst'"
proof -
  let ?cr = "openssl_crypto ssl cr" and ?d = "signed_data (key_line key # es)"
  have d: "concat (map (\<lambda>l. l @ [NUL]) ((''key '' @ key) # es)) = ?d" by (simp add: key_line_def signed_data_def)
  note lines = key_line_def [symmetric] signature_line_def [symmetric]
  have plain: "load_entries ?cr es (Quixote_Init enforce errno) = Ret () st"
    using assms(6,7) by (simp add: load_model_def)
  have 1: "if signature_passes ssl cr key sig ?d
      then \<exists>k d. load_model env (Some (key_line key # es @ [signature_line sig])) (Quixote_Init enforce errno) =
        Ret () (with_signing k d st)
      else \<exists>st'. load_model env (Some (key_line key # es @ [signature_line sig])) (Quixote_Init enforce errno) = Fail st'"
    using load_signed_file [OF assms(1,5,4,2,3) plain] assms(6) by (simp add: load_model_def accepts_openssl)
  have 2: "\<exists>kst. Kernel_load_model kenv (key_line key # es @ [signature_line sig]) Kernel_Init =
        (if signature_passes ssl cr key sig ?d then Ret () kst else Fail kst) \<and>
      tc_written (kq_control kst) = concat (map kernel_commands es)"
    using kernel_signed_file [OF assms(1,5,9,2,3)] unfolding assms(8) accepts_openssl .
  have 3: "\<exists>k d. load_model env (Some (key_line key # es)) (Quixote_Init enforce errno) = Ret () (with_signing k d st)"
    using load_keyed(1) [OF assms(1,5,4) plain, of "[]"] assms(6) by (auto simp: load_model_def)
  have 4: "\<exists>kst'. Kernel_load_model kenv (key_line key # es) Kernel_Init = Ret () kst'"
    using kernel_keyed [OF assms(1,5,9)] by blast
  show ?thesis
  proof (cases "signature_passes ssl cr key sig ?d")
    case True
    with 1 2 3 4 show ?thesis unfolding d unfolding lines by (simp only: if_True if_False with_signing_def signing_def simp_thms) blast
  next
    case False
    with 1 2 3 4 show ?thesis unfolding d unfolding lines by (simp only: if_True if_False with_signing_def signing_def simp_thms) blast
  qed
qed

text \<open>A library for which one key is good, one signature is valid, and one leads to an error.\<close>

definition demo_openssl :: openssl where
  "demo_openssl =
     \<lparr>ssl_alloc = True, ssl_pubkey = (\<lambda>_. True), ssl_privkey = (\<lambda>_. True), ssl_X509 = (\<lambda>_. True), ssl_X509_pubkey = (\<lambda>_. None),
      ssl_verify_init = (\<lambda>_. 1), ssl_verify_update = (\<lambda>_ _. 1),
      ssl_verify_final = (\<lambda>_ _ sg. if sg = ''s'' then 1 else if sg = ''e'' then - 1 else 0)\<rparr>"

definition openssl_env :: environment where
  "openssl_env = demo_env\<lparr>env_crypto := openssl_crypto demo_openssl signing_crypto\<rparr>"

definition openssl_kernel :: kernel_environment where
  "openssl_kernel = demo_kernel\<lparr>ke_crypto := openssl_crypto demo_openssl signing_crypto\<rparr>"

theorem signature_is_checked_last_witness:
  "\<exists>ls st' kst st''. load_model openssl_env (Some ((''key '' @ code_text std_encode ''k'') # ls @ [''signature '' @ code_text std_encode ''t'']))
       (Quixote_Init True 0) = Fail st' \<and>
     Kernel_load_model openssl_kernel ((''key '' @ code_text std_encode ''k'') # ls @ [''signature '' @ code_text std_encode ''t'']) Kernel_Init = Fail kst \<and>
     load_model openssl_env (Some ((''key '' @ code_text std_encode ''k'') # ls @ [''signature '' @ code_text std_encode ''e'']))
       (Quixote_Init True 0) = Ret () st''"
proof -
  let ?ls = "model_lines zero_id [zero_id]" and ?k = "code_text std_encode ''k''"
  have sha: "sha_ok (cr_sha (openssl_crypto demo_openssl signing_crypto))" by simp
  have "length zero_id = IDSIZE" "zero_id \<noteq> []" by (simp_all add: zero_id_def)
  with load_model_lines [OF sha, of zero_id "[zero_id]" True 0] obtain st where
    load: "load_model openssl_env (Some ?ls) (Quixote_Init True 0) = Ret () st"
    by (auto simp: load_model_def openssl_env_def)
  have content: "?ls \<noteq> []" "\<forall>e \<in> set ?ls. plain_entry e" using signing_example(2) by (simp_all add: model_lines_def)
  have kernel: "\<forall>w. ke_control openssl_kernel w" "ke_crypto openssl_kernel = openssl_crypto demo_openssl signing_crypto"
    by (simp_all add: demo_kernel_def openssl_kernel_def)
  have env: "env_crypto openssl_env = openssl_crypto demo_openssl signing_crypto" by (simp add: openssl_env_def)
  have code: "cr_base64 signing_crypto (code_text std_encode [c]) = Some [c]" "code_text std_encode [c] \<noteq> []"
    "NUL \<notin> set (code_text std_encode [c])" for c
    using base64_of_text [OF std_block_code, of "[c]" "''xyz''"] code_text_ok [OF std_block_code, of "[c]"]
    by (simp_all add: fib_max_def)
  note loaded = signature_is_checked_last
    [OF code(2) [of "CHR ''k''"] code(3) [of "CHR ''k''"] _ content env load kernel(2,1)]
  have "\<not> signature_passes demo_openssl signing_crypto ?k (code_text std_encode ''t'') d"
    "signature_passes demo_openssl signing_crypto ?k (code_text std_encode ''e'') d" for d
    using code(1) by (simp_all add: signature_passes_def demo_openssl_def)
  with loaded [OF code(2) [of "CHR ''t''"]] loaded [OF code(2) [of "CHR ''e''"]] show ?thesis
    by (intro exI [of _ ?ls]) auto
qed

end
