(* ===== verification/SgxEnclave.thy ===== *)
theory SgxEnclave
  imports Sancho TSEMcontrol
begin

text \<open>
  The model of a workload inside of an SGX enclave: the functions of the enclave (\<open>Sancho/SGX/SanchoSGX-enclave.c\<close>),
  the interface through which they are called from outside (\<open>Sancho/SGX/SanchoSGX-interface.c\<close>), and the table of
  the functions outside that the enclave calls (\<open>SRDE/SRDEocall.c\<close>).

  The caller is not trusted.  A pointer from outside is NULL or a \<open>region\<close> with what it points to: it is outside of
  the enclave, inside, or reaches over the border.  Values that the enclave writes into the caller's structure are part
  of the result.  Memory that is read before it is written is in the environment: \<open>sn_heap\<close> of \<open>malloc\<close> and
  \<open>sn_stack\<close> of a local variable.
\<close>

section \<open>Pointers from outside\<close>

datatype region = Outside | Inside | Straddling

type_synonym 'a pointer = "(region \<times> 'a) option"

text \<open>The two library functions: all of the memory is inside, or all of it is outside.\<close>

definition sgx_is_within_enclave :: "region \<Rightarrow> bool" where
  "sgx_is_within_enclave r \<longleftrightarrow> r = Inside"

definition sgx_is_outside_enclave :: "region \<Rightarrow> bool" where
  "sgx_is_outside_enclave r \<longleftrightarrow> r = Outside"

definition SGXidf_untrusted_region :: "'a pointer \<Rightarrow> bool" where
  "SGXidf_untrusted_region p = (case p of None \<Rightarrow> False | Some (r, _) \<Rightarrow> \<not> sgx_is_within_enclave r)"

definition CHECK_REF_POINTER :: "'a pointer \<Rightarrow> bool" where
  "CHECK_REF_POINTER p = (case p of None \<Rightarrow> False | Some (r, _) \<Rightarrow> sgx_is_outside_enclave r)"

definition CHECK_UNIQUE_POINTER :: "'a pointer \<Rightarrow> bool" where
  "CHECK_UNIQUE_POINTER p = (case p of None \<Rightarrow> True | Some (r, _) \<Rightarrow> sgx_is_outside_enclave r)"

section \<open>Functions outside of the enclave\<close>

text \<open>The objects that the functions in front of the last one serve are not modelled.\<close>

datatype ocall_function = SRDEfusion_ocall nat | SRDEnaaaim_ocall nat | SanchoSGX_ocall

record SRDEocall_State =
  so_poisoned :: bool
  so_count :: u16
  so_ocalls :: "ocall_function list"

definition SRDEocall_Init :: SRDEocall_State where
  "SRDEocall_Init = \<lparr>so_poisoned = False, so_count = 0, so_ocalls = []\<rparr>"

definition SRDEocall_add :: "ocall_function \<Rightarrow> SRDEocall_State \<Rightarrow> (unit, SRDEocall_State) res" where
  "SRDEocall_add f S =
     (if so_poisoned S then Fail S
      else Ret () (S\<lparr>so_ocalls := so_ocalls S @ [f], so_count := so_count S + 1\<rparr>))"

fun SRDEocall_add_table :: "ocall_function list \<Rightarrow> SRDEocall_State \<Rightarrow> (unit, SRDEocall_State) res" where
  "SRDEocall_add_table [] S = (if so_poisoned S then Fail S else Ret () S)"
| "SRDEocall_add_table (f # fs) S = res_bind (SRDEocall_add f S) (\<lambda>_. SRDEocall_add_table fs)"

text \<open>The number of functions, and the functions.\<close>

definition SRDEocall_get_table :: "SRDEocall_State \<Rightarrow> (u64 \<times> ocall_function list) option" where
  "SRDEocall_get_table S = (if so_poisoned S then None else Some (ucast (so_count S), so_ocalls S))"

definition SRDEfusion_ocall_table :: "ocall_function list" where
  "SRDEfusion_ocall_table = map SRDEfusion_ocall [0, 1, 2]"

definition SRDEnaaaim_ocall_table :: "ocall_function list" where
  "SRDEnaaaim_ocall_table = map SRDEnaaaim_ocall [0, 1, 2, 3, 4]"

definition SRDEFUSION_MAX_OCALL :: nat where
  "SRDEFUSION_MAX_OCALL = 2"

definition SRDENAAAIM_MAX_OCALL :: nat where
  "SRDENAAAIM_MAX_OCALL = SRDEFUSION_MAX_OCALL + 1 + 1 + 1 + 1 + 1"

section \<open>State\<close>

text \<open>
  \<open>en_model\<close> is the global pointer to the model.  \<open>en_freed\<close> are the positions of the log entries of the model
  that were freed although the model still holds them.
\<close>

record Enclave_State =
  en_model :: "TSEM_State option"
  en_freed :: "nat list"
  en_errno :: int

record sgx_env =
  sn_crypto :: crypto
  sn_cell :: Cell_State
  sn_heap :: "byte list"
  sn_stack :: u32
  sn_ocalloc :: bool
  sn_control :: "byte list list \<Rightarrow> bool"

datatype sgx_status = SGX_SUCCESS | SGX_ERROR_INVALID_PARAMETER

text \<open>The calls work on their arguments, the enclave, and the control object, which is outside.\<close>

type_synonym world = "Enclave_State \<times> TSEMcontrol_State"
type_synonym 'a call = "'a \<times> world"

section \<open>The verdict leaves the enclave\<close>

datatype SanchoSGX_ocalls = SanchoSGX_discipline | SanchoSGX_END

record ocall_args =
  oc_retn :: bool
  oc_debug :: bool
  oc_ocall :: SanchoSGX_ocalls
  oc_pid :: u32
  oc_discipline :: bool

text \<open>The function outside: it returns 0 whatever happens, and the result of the command in the structure.\<close>

definition discipline_pid_ocall ::
  "(byte list list \<Rightarrow> bool) \<Rightarrow> ocall_args \<Rightarrow> TSEMcontrol_State \<Rightarrow> (ocall_args, TSEMcontrol_State) res" where
  "discipline_pid_ocall up oc control =
     (case (if oc_discipline oc then TSEMcontrol_discipline up (oc_pid oc) control
            else TSEMcontrol_release up (oc_pid oc) control) of
        Undef \<Rightarrow> Undef
      | Fail c \<Rightarrow> Ret (oc\<lparr>oc_retn := False\<rparr>) c
      | Ret _ c \<Rightarrow> Ret (oc\<lparr>oc_retn := True\<rparr>) c)"

text \<open>The slot is not compared with the number of functions.\<close>

definition boot_ocall ::
  "(byte list list \<Rightarrow> bool) \<Rightarrow> ocall_function list \<Rightarrow> nat \<Rightarrow> ocall_args \<Rightarrow> TSEMcontrol_State \<Rightarrow>
   (ocall_args, TSEMcontrol_State) res" where
  "boot_ocall up table slot oc control =
     (if slot < length table \<and> table ! slot = SanchoSGX_ocall then discipline_pid_ocall up oc control else Undef)"

text \<open>\<open>sgx_ocalloc\<close> may have no memory.  The status of the call is looked at, its result is not.\<close>

definition discipline_ocall ::
  "sgx_env \<Rightarrow> ocall_function list \<Rightarrow> ocall_args \<Rightarrow> TSEMcontrol_State \<Rightarrow> (ocall_args, TSEMcontrol_State) res" where
  "discipline_ocall env table ocall control =
     (if \<not> sn_ocalloc env then Fail control
      else
        (let ocp = (if oc_ocall ocall = SanchoSGX_discipline then ocall\<lparr>oc_pid := oc_pid ocall\<rparr> else ocall)
         in boot_ocall (sn_control env) table (SRDENAAAIM_MAX_OCALL + 1) ocp control))"

section \<open>Functions of the enclave\<close>

definition enclave_init_model :: "bool \<Rightarrow> Enclave_State \<Rightarrow> (unit, Enclave_State) res" where
  "enclave_init_model init en =
     (if init then Ret () (en\<lparr>en_model := Some TSEM_Init, en_freed := []\<rparr>)
      else if en_model en \<noteq> None \<and> en_freed en \<noteq> [] then Undef
      else Ret () (en\<lparr>en_model := None\<rparr>))"

record ecall1 =
  e1_retn :: bool
  e1_debug :: bool
  e1_async :: bool
  e1_discipline :: bool
  e1_sealed :: bool
  e1_update :: "string pointer"

text \<open>
  The control object, to which the structure has a pointer, is a part of the world.  An event that is not parsed or
  not modelled is leaked.
\<close>

definition enclave_update_model ::
  "sgx_env \<Rightarrow> ocall_function list \<Rightarrow> ecall1 call \<Rightarrow> (unit, ecall1 call) res" where
  "enclave_update_model env table = (\<lambda>(e, en, control).
     (case e1_update e of
        None \<Rightarrow> Undef
      | Some (_, t) \<Rightarrow>
          (case SecurityEvent_parse ((SecurityEvent_Init (sn_cell env), hs_of t), en_errno en) of
             Undef \<Rightarrow> Undef
           | Fail (_, errno) \<Rightarrow> Fail (e, en\<lparr>en_errno := errno\<rparr>, control)
           | Ret _ ((event, _), errno) \<Rightarrow>
               (case en_model en of
                  None \<Rightarrow> Undef
                | Some model \<Rightarrow>
                    (case TSEM_update (cr_sha (sn_crypto env)) (model, event) of
                       Undef \<Rightarrow> Undef
                     | Fail (model1, _) \<Rightarrow> Fail (e, en\<lparr>en_errno := errno, en_model := Some model1\<rparr>, control)
                     | Ret (updated, discipline, sealed) (model1, _) \<Rightarrow>
                         (let e1 = e\<lparr>e1_discipline := discipline, e1_sealed := sealed\<rparr>;
                              en1 = en\<lparr>en_errno := errno, en_model := Some model1\<rparr>
                          in if e1_async e then Ret () (e1, en1, control)
                             else
                               (case TSEM_discipline_pid model1 of
                                  Undef \<Rightarrow> Undef
                                | Fail model2 \<Rightarrow> Fail (e1, en1\<lparr>en_model := Some model2\<rparr>, control)
                                | Ret pid model2 \<Rightarrow>
                                    res_bind
                                      (zoom (\<lambda>c. (e1, en1\<lparr>en_model := Some model2\<rparr>, c))
                                        (discipline_ocall env table
                                          \<lparr>oc_retn = False, oc_debug = e1_debug e1, oc_ocall = SanchoSGX_discipline,
                                           oc_pid = pid, oc_discipline = discipline\<rparr> control))
                                      (\<lambda>_. Ret ()))))))))"

text \<open>Access to the model through the pointer.\<close>

definition on_enclave_model :: "(TSEM_State \<Rightarrow> ('a, TSEM_State) res) \<Rightarrow> Enclave_State \<Rightarrow> ('a, Enclave_State) res" where
  "on_enclave_model f en =
     (case en_model en of None \<Rightarrow> Undef | Some m \<Rightarrow> zoom (\<lambda>m. en\<lparr>en_model := Some m\<rparr>) (f m))"

definition enclave_load :: "sgx_env \<Rightarrow> string \<Rightarrow> Enclave_State \<Rightarrow> (unit, Enclave_State) res" where
  "enclave_load env entry = on_enclave_model (TSEM_load (sn_crypto env) (hs_of entry))"

definition enclave_seal_model :: "Enclave_State \<Rightarrow> (unit, Enclave_State) res" where
  "enclave_seal_model = on_enclave_model (assign TSEM_seal)"

text \<open>The selectors of \<open>SanchoSGX-interface.h\<close>, which are numbers in the structures.\<close>

datatype model_selector = ISO_IDENTITY_EVENT | ISO_IDENTITY_FORENSICS | DOMAIN_POINTS | TSEM_EVENTS

definition selector_of :: "int \<Rightarrow> model_selector option" where
  "selector_of = map_of [(0, ISO_IDENTITY_EVENT), (1, ISO_IDENTITY_FORENSICS), (2, DOMAIN_POINTS), (3, TSEM_EVENTS)]"

definition enclave_get_size :: "int \<Rightarrow> Enclave_State \<Rightarrow> nat" where
  "enclave_get_size type en =
     (case en_model en of
        None \<Rightarrow> 0
      | Some model \<Rightarrow>
          (case selector_of type of
             None \<Rightarrow> 0
           | Some ISO_IDENTITY_EVENT \<Rightarrow> TSEM_points_size model
           | Some ISO_IDENTITY_FORENSICS \<Rightarrow> TSEM_forensics_size model
           | Some DOMAIN_POINTS \<Rightarrow> TSEM_trajectory_size model
           | Some TSEM_EVENTS \<Rightarrow> TSEM_events_size model))"

text \<open>\<open>aggregate\<close> is what the pointer points to, unless that is NULL, and \<open>len\<close> the number of bytes.\<close>

definition enclave_set_aggregate :: "sgx_env \<Rightarrow> byte list option \<Rightarrow> nat \<Rightarrow> Enclave_State \<Rightarrow> (unit, Enclave_State) res" where
  "enclave_set_aggregate env aggregate len en =
     (case en_model en of
        None \<Rightarrow> Fail en
      | Some model \<Rightarrow>
          (case (case aggregate of None \<Rightarrow> if len = 0 then Some [] else None | Some bs \<Rightarrow> read_bytes len bs) of
             None \<Rightarrow> Undef
           | Some bs \<Rightarrow>
               (case buf_add bs buf_empty of
                  Ret _ b \<Rightarrow>
                    zoom (\<lambda>m. en\<lparr>en_model := Some m\<rparr>) (TSEM_set_aggregate (cr_sha (sn_crypto env)) b model)
                | Fail _ \<Rightarrow> Fail en
                | Undef \<Rightarrow> Undef)))"

text \<open>The text ends at the first NUL of the bytes.\<close>

definition enclave_add_ai_event :: "byte list \<Rightarrow> Enclave_State \<Rightarrow> (unit, Enclave_State) res" where
  "enclave_add_ai_event ai_event en =
     (case en_model en of
        None \<Rightarrow> Fail en
      | Some model \<Rightarrow>
          (case c_string ai_event of
             None \<Rightarrow> Undef
           | Some t \<Rightarrow> zoom (\<lambda>m. en\<lparr>en_model := Some m\<rparr>) (TSEM_add_TSEM_event (hs_of t) model)))"

text \<open>The area for the measurement has 32 bytes.\<close>

definition enclave_get_measurement ::
  "sgx_env \<Rightarrow> int \<Rightarrow> byte list \<times> Enclave_State \<Rightarrow> (unit, byte list \<times> Enclave_State) res" where
  "enclave_get_measurement env type = (\<lambda>(area, en).
     (case en_model en of
        None \<Rightarrow> Undef
      | Some model \<Rightarrow>
          (case (if type = 0 then zoom (\<lambda>b. (model, b)) (TSEM_get_measurement model buf_empty)
                 else TSEM_get_state (cr_sha (sn_crypto env)) (model, buf_empty)) of
             Undef \<Rightarrow> Undef
           | Fail (model1, _) \<Rightarrow> Fail (area, en\<lparr>en_model := Some model1\<rparr>)
           | Ret _ (model1, b) \<Rightarrow>
               (if length area < buf_size b then Undef
                else Ret () (overwrite (b_data b) area, en\<lparr>en_model := Some model1\<rparr>)))))"

definition enclave_get_pid :: "u32 \<times> Enclave_State \<Rightarrow> (unit, u32 \<times> Enclave_State) res" where
  "enclave_get_pid = (\<lambda>(pid, en).
     (case on_enclave_model TSEM_discipline_pid en of
        Undef \<Rightarrow> Undef
      | Fail en1 \<Rightarrow> Fail (pid, en1)
      | Ret p en1 \<Rightarrow> Ret () (p, en1)))"

definition enclave_rewind :: "int \<Rightarrow> Enclave_State \<Rightarrow> (unit, Enclave_State) res" where
  "enclave_rewind type =
     (case selector_of type of
        None \<Rightarrow> Ret ()
      | Some ISO_IDENTITY_EVENT \<Rightarrow> on_enclave_model (assign TSEM_rewind_event)
      | Some ISO_IDENTITY_FORENSICS \<Rightarrow> on_enclave_model (assign TSEM_rewind_forensics)
      | Some DOMAIN_POINTS \<Rightarrow> on_enclave_model (assign TSEM_rewind_points)
      | Some TSEM_EVENTS \<Rightarrow> on_enclave_model (assign TSEM_rewind_TSEM_event))"

text \<open>
  The text of an event is formatted into a string that is freed at the end; it and its NUL must fit into \<open>update\<close>.
  Here \<open>next\<close> is the iterator of the model, and \<open>put\<close> puts the event back that formatting may have poisoned.
\<close>

definition enclave_format ::
  "(TSEM_State \<Rightarrow> SecurityEvent_State option \<times> TSEM_State) \<Rightarrow> (SecurityEvent_State \<Rightarrow> TSEM_State \<Rightarrow> TSEM_State) \<Rightarrow>
   byte list \<times> Enclave_State \<Rightarrow> (unit, byte list \<times> Enclave_State) res" where
  "enclave_format next_event put = (\<lambda>(update, en).
     (case en_model en of
        None \<Rightarrow> Undef
      | Some model \<Rightarrow>
          (case next_event model of
             (None, model1) \<Rightarrow> Ret () (update, en\<lparr>en_model := Some model1\<rparr>)
           | (Some event, model1) \<Rightarrow>
               (case SecurityEvent_format (event, hs_empty) of
                  Undef \<Rightarrow> Undef
                | Fail (event1, _) \<Rightarrow> Fail (update, en\<lparr>en_model := Some (put event1 model1)\<rparr>)
                | Ret _ (event1, es) \<Rightarrow>
                    (let en1 = en\<lparr>en_model := Some (put event1 model1)\<rparr>
                     in if hs_size es + 1 > length update then Fail (update, en1)
                        else Ret () (overwrite (hs_chars es) update, en1))))))"

text \<open>
  A log entry is not copied: the string that is freed at the end, when the entry does not fit, is that of the model.
  An entry that was freed is read when it is reached again.  The selector of this function is a \<open>char\<close>.
\<close>

definition enclave_get_event :: "8 word \<Rightarrow> nat \<Rightarrow> Enclave_State \<Rightarrow> (unit, byte list \<times> Enclave_State) res" where
  "enclave_get_event type len en =
     (let update = replicate len NUL
      in (case selector_of (sint type) of
            Some TSEM_EVENTS \<Rightarrow>
              (case en_model en of
                 None \<Rightarrow> Undef
               | Some model \<Rightarrow>
                   (case TSEM_get_TSEM_event model of
                      (None, model1) \<Rightarrow> Ret () (update, en\<lparr>en_model := Some model1\<rparr>)
                    | (Some es, model1) \<Rightarrow>
                        (let en1 = en\<lparr>en_model := Some model1\<rparr>; position = gg_cursor (ts_TE_events model)
                         in if position \<in> set (en_freed en) then Undef
                            else if hs_size es + 1 > len
                            then Fail (update, en1\<lparr>en_freed := position # en_freed en\<rparr>)
                            else Ret () (overwrite (hs_chars es) update, en1))))
          | Some ISO_IDENTITY_EVENT \<Rightarrow>
              enclave_format TSEM_get_event
                (\<lambda>e m. m\<lparr>ts_trajectory := Gaggle_mutate_last e (ts_trajectory m)\<rparr>) (update, en)
          | Some ISO_IDENTITY_FORENSICS \<Rightarrow>
              enclave_format TSEM_get_forensics
                (\<lambda>e m. m\<lparr>ts_forensics := Gaggle_mutate_last e (ts_forensics m)\<rparr>) (update, en)
          | _ \<Rightarrow> Undef))"

definition enclave_get_point :: "Enclave_State \<Rightarrow> (byte list \<times> bool \<times> u64, Enclave_State) res" where
  "enclave_get_point en =
     (case en_model en of
        None \<Rightarrow> Undef
      | Some model \<Rightarrow>
          (case TSEM_get_point model of
             (None, model1) \<Rightarrow> Fail (en\<lparr>en_model := Some model1\<rparr>)
           | (Some cp, model1) \<Rightarrow>
               Ret (SecurityPoint_get cp, \<not> SecurityPoint_is_valid cp, SecurityPoint_get_count cp)
                 (en\<lparr>en_model := Some model1\<rparr>)))"

section \<open>The interface\<close>

record ecall0 =
  e0_retn :: bool
  e0_init :: bool

record ecall4 =
  e4_type :: int
  e4_size :: nat

record ecall5 =
  e5_retn :: bool
  e5_aggregate :: "byte list pointer"
  e5_length :: nat

record ecall6 =
  e6_retn :: bool
  e6_type :: int
  e6_measurement :: "byte list"

record ecall7 =
  e7_retn :: bool
  e7_pid :: u32

record ecall8 =
  e8_type :: int

record ecall9 =
  e9_retn :: bool
  e9_type :: int
  e9_event :: "byte list"

record ecall12 =
  e12_retn :: bool
  e12_update :: "string pointer"

record ecall14 =
  e14_retn :: bool
  e14_ai_event :: "byte list pointer"
  e14_size :: nat

record ecall15 =
  e15_retn :: bool
  e15_violation :: bool
  e15_count :: u64
  e15_point :: "byte list"

text \<open>
  The answer of a function of the interface: its status, and the structure of the caller.  The structure is left alone
  when the call is refused.
\<close>

type_synonym 'a answer = "(sgx_status \<times> 'a pointer, world) res"

definition refused :: "'a pointer \<Rightarrow> world \<Rightarrow> 'a answer" where
  "refused pms w = Ret (SGX_ERROR_INVALID_PARAMETER, pms) w"

text \<open>The result of a function of the enclave is stored by \<open>store\<close>.\<close>

definition answered ::
  "('a \<Rightarrow> bool \<Rightarrow> 'a) \<Rightarrow> region \<Rightarrow> 'a \<Rightarrow> TSEMcontrol_State \<Rightarrow> (unit, Enclave_State) res \<Rightarrow> 'a answer" where
  "answered store r ms control result =
     (case result of
        Undef \<Rightarrow> Undef
      | Fail en \<Rightarrow> Ret (SGX_SUCCESS, Some (r, store ms False)) (en, control)
      | Ret _ en \<Rightarrow> Ret (SGX_SUCCESS, Some (r, store ms True)) (en, control))"

definition sgx_init_model :: "ecall0 pointer \<Rightarrow> world \<Rightarrow> ecall0 answer" where
  "sgx_init_model pms = (\<lambda>(en, control).
     if \<not> CHECK_REF_POINTER pms then refused pms (en, control)
     else (case pms of None \<Rightarrow> Undef | Some (r, ms) \<Rightarrow>
       answered (\<lambda>m b. m\<lparr>e0_retn := b\<rparr>) r ms control (enclave_init_model (e0_init ms) en)))"

text \<open>
  When the structure is refused, the pointer that is freed at the end was not set.  The text is measured before its
  place is checked.
\<close>

definition sgx_update_model :: "sgx_env \<Rightarrow> ocall_function list \<Rightarrow> ecall1 pointer \<Rightarrow> world \<Rightarrow> ecall1 answer" where
  "sgx_update_model env table pms = (\<lambda>(en, control).
     if \<not> SGXidf_untrusted_region pms then Undef
     else (case pms of None \<Rightarrow> Undef | Some (r, ms) \<Rightarrow>
       (case e1_update ms of
          None \<Rightarrow> Undef
        | Some (_, t) \<Rightarrow>
            if \<not> SGXidf_untrusted_region (e1_update ms) then refused pms (en, control)
            else
              (case enclave_update_model env table
                  (\<lparr>e1_retn = False, e1_debug = e1_debug ms, e1_async = e1_async ms, e1_discipline = False,
                    e1_sealed = False, e1_update = Some (Inside, t)\<rparr>, en, control) of
                 Undef \<Rightarrow> Undef
               | Fail (_, w) \<Rightarrow> Ret (SGX_SUCCESS, Some (r, ms\<lparr>e1_retn := False\<rparr>)) w
               | Ret _ (e, w) \<Rightarrow>
                   Ret (SGX_SUCCESS,
                        Some (r, ms\<lparr>e1_retn := True, e1_discipline := e1_discipline e, e1_sealed := e1_sealed e\<rparr>)) w))))"

definition sgx_seal_model :: "unit pointer \<Rightarrow> world \<Rightarrow> unit answer" where
  "sgx_seal_model pms = (\<lambda>(en, control).
     if pms \<noteq> None then refused pms (en, control)
     else (case enclave_seal_model en of Ret _ en1 \<Rightarrow> Ret (SGX_SUCCESS, None) (en1, control) | _ \<Rightarrow> Undef))"

definition sgx_get_size :: "ecall4 pointer \<Rightarrow> world \<Rightarrow> ecall4 answer" where
  "sgx_get_size pms = (\<lambda>(en, control).
     if \<not> CHECK_REF_POINTER pms then refused pms (en, control)
     else (case pms of None \<Rightarrow> Undef | Some (r, ms) \<Rightarrow>
       Ret (SGX_SUCCESS, Some (r, ms\<lparr>e4_size := enclave_get_size (e4_type ms) en\<rparr>)) (en, control)))"

text \<open>The structure is read before its place is checked.\<close>

definition sgx_set_aggregate :: "sgx_env \<Rightarrow> ecall5 pointer \<Rightarrow> world \<Rightarrow> ecall5 answer" where
  "sgx_set_aggregate env pms = (\<lambda>(en, control).
     (case pms of None \<Rightarrow> Undef | Some (r, ms) \<Rightarrow>
       if \<not> CHECK_REF_POINTER pms then refused pms (en, control)
       else if \<not> CHECK_UNIQUE_POINTER (e5_aggregate ms) then refused pms (en, control)
       else if e5_aggregate ms \<noteq> None \<and> read_bytes (e5_length ms) (snd (the (e5_aggregate ms))) = None then Undef
       else answered (\<lambda>m b. m\<lparr>e5_retn := b\<rparr>) r ms control
              (enclave_set_aggregate env (map_option snd (e5_aggregate ms)) (e5_length ms) en)))"

text \<open>The area is copied out whether or not there is a measurement in it.\<close>

definition sgx_get_measurement :: "sgx_env \<Rightarrow> ecall6 pointer \<Rightarrow> world \<Rightarrow> ecall6 answer" where
  "sgx_get_measurement env pms = (\<lambda>(en, control).
     if \<not> CHECK_REF_POINTER pms then refused pms (en, control)
     else (case pms of None \<Rightarrow> Undef | Some (r, ms) \<Rightarrow>
       (case enclave_get_measurement env (e6_type ms) (sn_heap env, en) of
          Undef \<Rightarrow> Undef
        | Fail (area, en1) \<Rightarrow>
            Ret (SGX_SUCCESS, Some (r, ms\<lparr>e6_retn := False, e6_measurement := area\<rparr>)) (en1, control)
        | Ret _ (area, en1) \<Rightarrow>
            Ret (SGX_SUCCESS, Some (r, ms\<lparr>e6_retn := True, e6_measurement := area\<rparr>)) (en1, control))))"

definition sgx_get_pid :: "sgx_env \<Rightarrow> ecall7 pointer \<Rightarrow> world \<Rightarrow> ecall7 answer" where
  "sgx_get_pid env pms = (\<lambda>(en, control).
     if \<not> CHECK_REF_POINTER pms then refused pms (en, control)
     else (case pms of None \<Rightarrow> Undef | Some (r, ms) \<Rightarrow>
       (case enclave_get_pid (sn_stack env, en) of
          Undef \<Rightarrow> Undef
        | Fail (pid, en1) \<Rightarrow> Ret (SGX_SUCCESS, Some (r, ms\<lparr>e7_retn := False, e7_pid := pid\<rparr>)) (en1, control)
        | Ret _ (pid, en1) \<Rightarrow> Ret (SGX_SUCCESS, Some (r, ms\<lparr>e7_retn := True, e7_pid := pid\<rparr>)) (en1, control))))"

definition sgx_rewind :: "ecall8 pointer \<Rightarrow> world \<Rightarrow> ecall8 answer" where
  "sgx_rewind pms = (\<lambda>(en, control).
     if \<not> CHECK_REF_POINTER pms then refused pms (en, control)
     else (case pms of None \<Rightarrow> Undef | Some (r, ms) \<Rightarrow>
       (case enclave_rewind (e8_type ms) en of
          Ret _ en1 \<Rightarrow> Ret (SGX_SUCCESS, pms) (en1, control)
        | _ \<Rightarrow> Undef)))"

text \<open>\<open>sizeof(ms->event)\<close>.  The selector of the structure is an \<open>int\<close>, of which the call keeps the lowest byte.\<close>

definition EVENT_SIZE :: nat where
  "EVENT_SIZE = 768"

definition sgx_get_event :: "ecall9 pointer \<Rightarrow> world \<Rightarrow> ecall9 answer" where
  "sgx_get_event pms = (\<lambda>(en, control).
     if \<not> CHECK_REF_POINTER pms then refused pms (en, control)
     else (case pms of None \<Rightarrow> Undef | Some (r, ms) \<Rightarrow>
       (case enclave_get_event (word_of_int (e9_type ms)) EVENT_SIZE en of
          Undef \<Rightarrow> Undef
        | Fail (update, en1) \<Rightarrow>
            Ret (SGX_SUCCESS, Some (r, ms\<lparr>e9_retn := False, e9_event := update\<rparr>)) (en1, control)
        | Ret _ (update, en1) \<Rightarrow>
            Ret (SGX_SUCCESS, Some (r, ms\<lparr>e9_retn := True, e9_event := update\<rparr>)) (en1, control))))"

text \<open>As in \<open>sgx_update_model\<close>.\<close>

definition sgx_load :: "sgx_env \<Rightarrow> ecall12 pointer \<Rightarrow> world \<Rightarrow> ecall12 answer" where
  "sgx_load env pms = (\<lambda>(en, control).
     if \<not> SGXidf_untrusted_region pms then Undef
     else (case pms of None \<Rightarrow> Undef | Some (r, ms) \<Rightarrow>
       (case e12_update ms of
          None \<Rightarrow> Undef
        | Some (_, t) \<Rightarrow>
            if \<not> SGXidf_untrusted_region (e12_update ms) then refused pms (en, control)
            else answered (\<lambda>m b. m\<lparr>e12_retn := b\<rparr>) r ms control (enclave_load env t en))))"

text \<open>
  At the end the copy of the text is cleared, through a NULL pointer when its place was refused: a write, unless the
  size is 0.
\<close>

definition sgx_add_ai_event :: "ecall14 pointer \<Rightarrow> world \<Rightarrow> ecall14 answer" where
  "sgx_add_ai_event pms = (\<lambda>(en, control).
     if \<not> SGXidf_untrusted_region pms then refused pms (en, control)
     else (case pms of None \<Rightarrow> Undef | Some (r, ms) \<Rightarrow>
       if \<not> SGXidf_untrusted_region (e14_ai_event ms) then
         (if e14_size ms = 0 then refused pms (en, control) else Undef)
       else
         (case e14_ai_event ms of
            None \<Rightarrow> Undef
          | Some (_, bs) \<Rightarrow>
              (case read_bytes (e14_size ms) bs of
                 None \<Rightarrow> Undef
               | Some copy \<Rightarrow> answered (\<lambda>m b. m\<lparr>e14_retn := b\<rparr>) r ms control (enclave_add_ai_event copy en)))))"

definition sgx_get_point :: "ecall15 pointer \<Rightarrow> world \<Rightarrow> ecall15 answer" where
  "sgx_get_point pms = (\<lambda>(en, control).
     if \<not> SGXidf_untrusted_region pms then refused pms (en, control)
     else (case pms of None \<Rightarrow> Undef | Some (r, ms) \<Rightarrow>
       (case enclave_get_point en of
          Undef \<Rightarrow> Undef
        | Fail en1 \<Rightarrow>
            Ret (SGX_SUCCESS,
                 Some (r, \<lparr>e15_retn = False, e15_violation = False, e15_count = 0, e15_point = zero_id\<rparr>)) (en1, control)
        | Ret (point, violation, n) en1 \<Rightarrow>
            Ret (SGX_SUCCESS,
                 Some (r, \<lparr>e15_retn = True, e15_violation = violation, e15_count = n, e15_point = point\<rparr>))
              (en1, control))))"

section \<open>The table of the interface\<close>

text \<open>
  The function of a slot is called with a pointer to the structure that it expects; a call with another structure has no
  defined behaviour.  Slot 3 prints the model, and slots 10, 11 and 13 belong to the identity of the enclave: they are
  not modelled.
\<close>

datatype ecall =
  Ecall0 "ecall0 pointer" | Ecall1 "ecall1 pointer" | Ecall2 "unit pointer" | Ecall4 "ecall4 pointer" |
  Ecall5 "ecall5 pointer" | Ecall6 "ecall6 pointer" | Ecall7 "ecall7 pointer" | Ecall8 "ecall8 pointer" |
  Ecall9 "ecall9 pointer" | Ecall12 "ecall12 pointer" | Ecall14 "ecall14 pointer" | Ecall15 "ecall15 pointer"

fun tagged :: "('a pointer \<Rightarrow> ecall) \<Rightarrow> 'a answer \<Rightarrow> (sgx_status \<times> ecall, world) res" where
  "tagged f (Ret (status, p) w) = Ret (status, f p) w"
| "tagged f (Fail w) = Fail w"
| "tagged f Undef = Undef"

definition ecall_table ::
  "sgx_env \<Rightarrow> ocall_function list \<Rightarrow> nat \<Rightarrow> ecall \<Rightarrow> world \<Rightarrow> (sgx_status \<times> ecall, world) res" where
  "ecall_table env table slot arg w =
     (case arg of
        Ecall0 p \<Rightarrow> if slot = 0 then tagged Ecall0 (sgx_init_model p w) else Undef
      | Ecall1 p \<Rightarrow> if slot = 1 then tagged Ecall1 (sgx_update_model env table p w) else Undef
      | Ecall2 p \<Rightarrow> if slot = 2 then tagged Ecall2 (sgx_seal_model p w) else Undef
      | Ecall4 p \<Rightarrow> if slot = 4 then tagged Ecall4 (sgx_get_size p w) else Undef
      | Ecall5 p \<Rightarrow> if slot = 5 then tagged Ecall5 (sgx_set_aggregate env p w) else Undef
      | Ecall6 p \<Rightarrow> if slot = 6 then tagged Ecall6 (sgx_get_measurement env p w) else Undef
      | Ecall7 p \<Rightarrow> if slot = 7 then tagged Ecall7 (sgx_get_pid env p w) else Undef
      | Ecall8 p \<Rightarrow> if slot = 8 then tagged Ecall8 (sgx_rewind p w) else Undef
      | Ecall9 p \<Rightarrow> if slot = 9 then tagged Ecall9 (sgx_get_event p w) else Undef
      | Ecall12 p \<Rightarrow> if slot = 12 then tagged Ecall12 (sgx_load env p w) else Undef
      | Ecall14 p \<Rightarrow> if slot = 14 then tagged Ecall14 (sgx_add_ai_event p w) else Undef
      | Ecall15 p \<Rightarrow> if slot = 15 then tagged Ecall15 (sgx_get_point p w) else Undef)"

end
