(* ===== verification/SanchoSGX.thy ===== *)
theory SanchoSGX
  imports SgxEnclave
begin

text \<open>
  The object through which an orchestrator uses the model in the enclave (\<open>Sancho/SGX/SanchoSGX.c\<close>): its methods fill
  a structure, enter the enclave at a slot (\<open>boot_slot\<close> and \<open>get_thread\<close> of \<open>SRDE/SRDEenclave.c\<close>), and read what
  the enclave stored.

  Loading the enclave is the work of the driver and the processor; \<open>load_enclave\<close> gets its result.  The object keeps
  the control object of the orchestrator, which the enclave reaches through it.  Members of a structure that a method
  does not set before the call are False or 0 here: the enclave sets them or does not use them.
\<close>

section \<open>State\<close>

text \<open>
  \<open>sg_broken\<close> is the poisoned flag of the enclave object, \<open>sg_threads\<close> the number of its threads and
  \<open>sg_thread_cnt\<close> how many of them are in use.
\<close>

record SanchoSGX_State =
  sg_poisoned :: bool
  sg_debug :: bool
  sg_broken :: bool
  sg_threads :: nat
  sg_thread_cnt :: nat
  sg_ocall :: SRDEocall_State
  sg_enclave :: Enclave_State
  sg_control :: TSEMcontrol_State

definition sgx_poison :: "SanchoSGX_State \<Rightarrow> SanchoSGX_State" where
  "sgx_poison S = S\<lparr>sg_poisoned := True\<rparr>"

section \<open>Entering the enclave\<close>

definition SRDEenclave_get_thread :: "SanchoSGX_State \<Rightarrow> (unit, SanchoSGX_State) res" where
  "SRDEenclave_get_thread S =
     (if sg_broken S then Fail S
      else if sg_thread_cnt S \<ge> sg_threads S then Fail S
      else Ret () (S\<lparr>sg_thread_cnt := sg_thread_cnt S + 1\<rparr>))"

text \<open>A call that returns another status than 0 breaks the object.\<close>

definition boot_slot ::
  "sgx_env \<Rightarrow> nat \<Rightarrow> ocall_function list \<Rightarrow> ecall \<Rightarrow> SanchoSGX_State \<Rightarrow> (ecall, SanchoSGX_State) res" where
  "boot_slot env slot table arg S =
     on_fail (\<lambda>S. S\<lparr>sg_broken := True\<rparr>)
       (if sg_broken S then Fail S
        else res_bind (SRDEenclave_get_thread S) (\<lambda>_ S.
          (case ecall_table env table slot arg (sg_enclave S, sg_control S) of
             Ret (status, out) (en, c) \<Rightarrow>
               (let S1 = S\<lparr>sg_enclave := en, sg_control := c, sg_thread_cnt := sg_thread_cnt S - 1\<rparr>
                in if status \<noteq> SGX_SUCCESS then Fail S1 else Ret out S1)
           | _ \<Rightarrow> Undef)))"

text \<open>What all methods do: the table of the functions outside, then the slot.\<close>

definition sgx_call :: "sgx_env \<Rightarrow> nat \<Rightarrow> ecall \<Rightarrow> SanchoSGX_State \<Rightarrow> (ecall, SanchoSGX_State) res" where
  "sgx_call env slot arg S =
     (case SRDEocall_get_table (sg_ocall S) of
        None \<Rightarrow> Fail S
      | Some (cnt, table) \<Rightarrow> boot_slot env slot table arg S)"

section \<open>Starting and ending\<close>

definition SanchoSGX_Init :: "TSEMcontrol_State \<Rightarrow> SanchoSGX_State" where
  "SanchoSGX_Init control =
     \<lparr>sg_poisoned = False, sg_debug = False, sg_broken = False, sg_threads = 0, sg_thread_cnt = 0,
      sg_ocall = SRDEocall_Init, sg_enclave = \<lparr>en_model = None, en_freed = [], en_errno = 0\<rparr>, sg_control = control\<rparr>"

text \<open>\<open>loaded\<close> is the number of threads and the memory of the enclave, if it could be loaded and initialised.\<close>

definition SanchoSGX_load_enclave ::
  "sgx_env \<Rightarrow> (nat \<times> Enclave_State) option \<Rightarrow> TSEMcontrol_State \<Rightarrow> SanchoSGX_State \<Rightarrow> (unit, SanchoSGX_State) res" where
  "SanchoSGX_load_enclave env loaded control S =
     on_fail sgx_poison
       (case loaded of
          None \<Rightarrow> Fail (S\<lparr>sg_control := control\<rparr>)
        | Some (threads, en) \<Rightarrow>
            res_bind
              (steps
                 [attempt (\<lambda>S. zoom (\<lambda>c. S\<lparr>sg_ocall := c\<rparr>) (SRDEocall_add_table SRDEfusion_ocall_table (sg_ocall S))),
                  attempt (\<lambda>S. zoom (\<lambda>c. S\<lparr>sg_ocall := c\<rparr>) (SRDEocall_add_table SRDEnaaaim_ocall_table (sg_ocall S))),
                  attempt (\<lambda>S. zoom (\<lambda>c. S\<lparr>sg_ocall := c\<rparr>) (SRDEocall_add SanchoSGX_ocall (sg_ocall S)))]
                 (S\<lparr>sg_control := control, sg_threads := threads, sg_thread_cnt := 0, sg_broken := False,
                    sg_enclave := en, sg_ocall := SRDEocall_Init\<rparr>))
              (\<lambda>_ S. (case sgx_call env 0 (Ecall0 (Some (Outside, \<lparr>e0_retn = False, e0_init = True\<rparr>))) S of
                 Ret (Ecall0 (Some (_, e))) S1 \<Rightarrow> if e0_retn e then Ret () S1 else Fail S1
               | Ret _ S1 \<Rightarrow> Undef
               | Fail S1 \<Rightarrow> Fail S1
               | Undef \<Rightarrow> Undef)))"

text \<open>An enclave that is in the memory of the program is opened in another way; all that follows is the same.\<close>

definition SanchoSGX_load_enclave_memory ::
  "sgx_env \<Rightarrow> (nat \<times> Enclave_State) option \<Rightarrow> TSEMcontrol_State \<Rightarrow> SanchoSGX_State \<Rightarrow> (unit, SanchoSGX_State) res" where
  "SanchoSGX_load_enclave_memory = SanchoSGX_load_enclave"

text \<open>The result is the enclave that is left.\<close>

definition SanchoSGX_whack :: "sgx_env \<Rightarrow> SanchoSGX_State \<Rightarrow> (unit, SanchoSGX_State) res" where
  "SanchoSGX_whack env S =
     (case sgx_call env 0 (Ecall0 (Some (Outside, \<lparr>e0_retn = False, e0_init = False\<rparr>))) S of
        Ret _ S1 \<Rightarrow> Ret () S1 | Fail S1 \<Rightarrow> Ret () S1 | Undef \<Rightarrow> Undef)"

section \<open>Updating the model\<close>

definition SanchoSGX_update ::
  "sgx_env \<Rightarrow> hstr option \<Rightarrow> bool \<Rightarrow> SanchoSGX_State \<Rightarrow> (bool \<times> bool, SanchoSGX_State) res" where
  "SanchoSGX_update env update async S =
     (if sg_poisoned S then Fail S
      else
        (case update of
           None \<Rightarrow> Fail S
         | Some u \<Rightarrow>
             if h_poisoned u then Fail S
             else
               (case sgx_call env 1
                   (Ecall1 (Some (Outside,
                      \<lparr>e1_retn = False, e1_debug = False, e1_async = async, e1_discipline = False, e1_sealed = False,
                       e1_update = map_option (Pair Outside) (hs_get u)\<rparr>))) S of
                  Ret (Ecall1 (Some (_, e))) S1 \<Rightarrow>
                    if e1_retn e then Ret (e1_discipline e, e1_sealed e) S1 else Fail S1
                | Ret _ S1 \<Rightarrow> Undef
                | Fail S1 \<Rightarrow> Fail S1
                | Undef \<Rightarrow> Undef)))"

definition SanchoSGX_load :: "sgx_env \<Rightarrow> hstr option \<Rightarrow> SanchoSGX_State \<Rightarrow> (unit, SanchoSGX_State) res" where
  "SanchoSGX_load env entry S =
     (if sg_poisoned S then Fail S
      else
        (case entry of
           None \<Rightarrow> Fail S
         | Some u \<Rightarrow>
             if h_poisoned u then Fail S
             else
               (case sgx_call env 12
                   (Ecall12 (Some (Outside,
                      \<lparr>e12_retn = False, e12_update = map_option (Pair Outside) (hs_get u)\<rparr>))) S of
                  Ret (Ecall12 (Some (_, e))) S1 \<Rightarrow> if e12_retn e then Ret () S1 else Fail S1
                | Ret _ S1 \<Rightarrow> Undef
                | Fail S1 \<Rightarrow> Fail S1
                | Undef \<Rightarrow> Undef)))"

definition SanchoSGX_set_aggregate :: "sgx_env \<Rightarrow> buf option \<Rightarrow> SanchoSGX_State \<Rightarrow> (unit, SanchoSGX_State) res" where
  "SanchoSGX_set_aggregate env bufr S =
     on_fail sgx_poison
       (if sg_poisoned S then Fail S
        else
          (case bufr of
             None \<Rightarrow> Fail S
           | Some b \<Rightarrow>
               if b_poisoned b then Fail S
               else
                 (case sgx_call env 5
                     (Ecall5 (Some (Outside,
                        \<lparr>e5_retn = False, e5_aggregate = Some (Outside, b_data b), e5_length = buf_size b\<rparr>))) S of
                    Ret (Ecall5 (Some (_, e))) S1 \<Rightarrow> if e5_retn e then Ret () S1 else Fail S1
                  | Ret _ S1 \<Rightarrow> Undef
                  | Fail S1 \<Rightarrow> Fail S1
                  | Undef \<Rightarrow> Undef)))"

text \<open>The text is passed with its NUL.\<close>

definition SanchoSGX_add_ai_event :: "sgx_env \<Rightarrow> hstr option \<Rightarrow> SanchoSGX_State \<Rightarrow> (unit, SanchoSGX_State) res" where
  "SanchoSGX_add_ai_event env event S =
     on_fail sgx_poison
       (if sg_poisoned S then Fail S
        else
          (case event of
             None \<Rightarrow> Fail S
           | Some u \<Rightarrow>
               if h_poisoned u then Fail S
               else
                 (case sgx_call env 14
                     (Ecall14 (Some (Outside,
                        \<lparr>e14_retn = False, e14_ai_event = map_option (\<lambda>t. (Outside, t @ [NUL])) (hs_get u),
                         e14_size = hs_size u + 1\<rparr>))) S of
                    Ret (Ecall14 (Some (_, e))) S1 \<Rightarrow> if e14_retn e then Ret () S1 else Fail S1
                  | Ret _ S1 \<Rightarrow> Undef
                  | Fail S1 \<Rightarrow> Fail S1
                  | Undef \<Rightarrow> Undef)))"

definition SanchoSGX_seal :: "sgx_env \<Rightarrow> SanchoSGX_State \<Rightarrow> (unit, SanchoSGX_State) res" where
  "SanchoSGX_seal env S =
     on_fail sgx_poison
       (if sg_poisoned S then Fail S
        else res_bind (sgx_call env 2 (Ecall2 None) S) (\<lambda>_. Ret ()))"

section \<open>Texts of the model\<close>

text \<open>
  The three methods that get a text differ in the selector.  \<open>event\<close> is the pointer to the string object; an empty
  text is not added.
\<close>

definition sgx_get_text ::
  "sgx_env \<Rightarrow> int \<Rightarrow> SanchoSGX_State \<times> hstr option \<Rightarrow> (unit, SanchoSGX_State \<times> hstr option) res" where
  "sgx_get_text env type = (\<lambda>(S, event).
     (if sg_poisoned S then Fail (S, event)
      else
        (case event of
           None \<Rightarrow> Fail (S, event)
         | Some es \<Rightarrow>
             if h_poisoned es then Fail (S, event)
             else
               (case sgx_call env 9 (Ecall9 (Some (Outside, \<lparr>e9_retn = False, e9_type = type, e9_event = []\<rparr>))) S of
                  Ret (Ecall9 (Some (_, e))) S1 \<Rightarrow>
                    (if \<not> e9_retn e then Fail (S1, event)
                     else
                       (case c_string (e9_event e) of
                          None \<Rightarrow> Undef
                        | Some t \<Rightarrow>
                            if t = [] then Ret () (S1, event)
                            else zoom (\<lambda>s. (S1, Some s)) (hs_add t es)))
                | Ret _ S1 \<Rightarrow> Undef
                | Fail S1 \<Rightarrow> Fail (S1, event)
                | Undef \<Rightarrow> Undef))))"

definition SanchoSGX_get_te_event ::
  "sgx_env \<Rightarrow> SanchoSGX_State \<times> hstr option \<Rightarrow> (unit, SanchoSGX_State \<times> hstr option) res" where
  "SanchoSGX_get_te_event env = sgx_get_text env 3"

definition SanchoSGX_get_event ::
  "sgx_env \<Rightarrow> SanchoSGX_State \<times> hstr option \<Rightarrow> (unit, SanchoSGX_State \<times> hstr option) res" where
  "SanchoSGX_get_event env = sgx_get_text env 0"

definition SanchoSGX_get_forensics ::
  "sgx_env \<Rightarrow> SanchoSGX_State \<times> hstr option \<Rightarrow> (unit, SanchoSGX_State \<times> hstr option) res" where
  "SanchoSGX_get_forensics env = sgx_get_text env 1"

section \<open>Sizes and cursors\<close>

text \<open>
  The methods that return a size.  When the call is not made the size is not set, or 0; \<open>size\<close> is the one that looks
  at the poisoned flag.
\<close>

definition sgx_get_number :: "sgx_env \<Rightarrow> int \<Rightarrow> SanchoSGX_State \<Rightarrow> (nat, SanchoSGX_State) res" where
  "sgx_get_number env type S =
     (if so_poisoned (sg_ocall S) then Undef
      else
        (case sgx_call env 4 (Ecall4 (Some (Outside, \<lparr>e4_type = type, e4_size = 0\<rparr>))) S of
           Ret (Ecall4 (Some (_, e))) S1 \<Rightarrow> Ret (e4_size e) S1
         | Ret _ S1 \<Rightarrow> Undef
         | Fail S1 \<Rightarrow> Ret 0 (sgx_poison S1)
         | Undef \<Rightarrow> Undef))"

definition SanchoSGX_te_size :: "sgx_env \<Rightarrow> SanchoSGX_State \<Rightarrow> (nat, SanchoSGX_State) res" where
  "SanchoSGX_te_size env = sgx_get_number env 3"

definition SanchoSGX_trajectory_size :: "sgx_env \<Rightarrow> SanchoSGX_State \<Rightarrow> (nat, SanchoSGX_State) res" where
  "SanchoSGX_trajectory_size env = sgx_get_number env 2"

definition SanchoSGX_forensics_size :: "sgx_env \<Rightarrow> SanchoSGX_State \<Rightarrow> (nat, SanchoSGX_State) res" where
  "SanchoSGX_forensics_size env = sgx_get_number env 1"

definition SanchoSGX_size :: "sgx_env \<Rightarrow> SanchoSGX_State \<Rightarrow> (nat, SanchoSGX_State) res" where
  "SanchoSGX_size env S = (if sg_poisoned S then Undef else sgx_get_number env 0 S)"

text \<open>The methods that rewind a cursor return nothing.\<close>

definition sgx_rewind_cursor :: "sgx_env \<Rightarrow> int \<Rightarrow> SanchoSGX_State \<Rightarrow> (unit, SanchoSGX_State) res" where
  "sgx_rewind_cursor env type S =
     (if sg_poisoned S then Ret () (sgx_poison S)
      else
        (case sgx_call env 8 (Ecall8 (Some (Outside, \<lparr>e8_type = type\<rparr>))) S of
           Ret _ S1 \<Rightarrow> Ret () S1
         | Fail S1 \<Rightarrow> Ret () (sgx_poison S1)
         | Undef \<Rightarrow> Undef))"

definition SanchoSGX_rewind_te :: "sgx_env \<Rightarrow> SanchoSGX_State \<Rightarrow> (unit, SanchoSGX_State) res" where
  "SanchoSGX_rewind_te env = sgx_rewind_cursor env 3"

definition SanchoSGX_rewind_event :: "sgx_env \<Rightarrow> SanchoSGX_State \<Rightarrow> (unit, SanchoSGX_State) res" where
  "SanchoSGX_rewind_event env = sgx_rewind_cursor env 0"

definition SanchoSGX_rewind_points :: "sgx_env \<Rightarrow> SanchoSGX_State \<Rightarrow> (unit, SanchoSGX_State) res" where
  "SanchoSGX_rewind_points env = sgx_rewind_cursor env 2"

definition SanchoSGX_rewind_forensics :: "sgx_env \<Rightarrow> SanchoSGX_State \<Rightarrow> (unit, SanchoSGX_State) res" where
  "SanchoSGX_rewind_forensics env = sgx_rewind_cursor env 1"

section \<open>Measurements and points\<close>

text \<open>The two methods that get a measurement differ in the selector.\<close>

definition sgx_get_digest ::
  "sgx_env \<Rightarrow> int \<Rightarrow> SanchoSGX_State \<times> buf option \<Rightarrow> (unit, SanchoSGX_State \<times> buf option) res" where
  "sgx_get_digest env type = (\<lambda>(S, bufr).
     on_fail (\<lambda>(S, b). (sgx_poison S, b))
       (if sg_poisoned S then Fail (S, bufr)
        else
          (case bufr of
             None \<Rightarrow> Fail (S, bufr)
           | Some b \<Rightarrow>
               if b_poisoned b then Fail (S, bufr)
               else
                 (case sgx_call env 6
                     (Ecall6 (Some (Outside, \<lparr>e6_retn = False, e6_type = type, e6_measurement = []\<rparr>))) S of
                    Ret (Ecall6 (Some (_, e))) S1 \<Rightarrow>
                      (if \<not> e6_retn e then Fail (S1, bufr)
                       else zoom (\<lambda>b. (S1, Some b)) (buf_add (e6_measurement e) b))
                  | Ret _ S1 \<Rightarrow> Undef
                  | Fail S1 \<Rightarrow> Fail (S1, bufr)
                  | Undef \<Rightarrow> Undef))))"

definition SanchoSGX_get_measurement ::
  "sgx_env \<Rightarrow> SanchoSGX_State \<times> buf option \<Rightarrow> (unit, SanchoSGX_State \<times> buf option) res" where
  "SanchoSGX_get_measurement env = sgx_get_digest env 0"

definition SanchoSGX_get_state ::
  "sgx_env \<Rightarrow> SanchoSGX_State \<times> buf option \<Rightarrow> (unit, SanchoSGX_State \<times> buf option) res" where
  "SanchoSGX_get_state env = sgx_get_digest env 1"

definition SanchoSGX_discipline_pid :: "sgx_env \<Rightarrow> SanchoSGX_State \<Rightarrow> (u32, SanchoSGX_State) res" where
  "SanchoSGX_discipline_pid env S =
     on_fail sgx_poison
       (case sgx_call env 7 (Ecall7 (Some (Outside, \<lparr>e7_retn = False, e7_pid = 0\<rparr>))) S of
          Ret (Ecall7 (Some (_, e))) S1 \<Rightarrow> if e7_retn e then Ret (e7_pid e) S1 else Fail S1
        | Ret _ S1 \<Rightarrow> Undef
        | Fail S1 \<Rightarrow> Fail S1
        | Undef \<Rightarrow> Undef)"

definition SanchoSGX_get_point ::
  "sgx_env \<Rightarrow> SanchoSGX_State \<times> SecurityPoint_State \<Rightarrow> (unit, SanchoSGX_State \<times> SecurityPoint_State) res" where
  "SanchoSGX_get_point env = (\<lambda>(S, cp).
     (if sg_poisoned S then Fail (S, cp)
      else
        (case sgx_call env 15
            (Ecall15 (Some (Outside, \<lparr>e15_retn = False, e15_violation = False, e15_count = 0, e15_point = []\<rparr>))) S of
           Ret (Ecall15 (Some (_, e))) S1 \<Rightarrow>
             (if \<not> e15_retn e then Fail (S1, cp)
              else
                (let cp1 = SecurityPoint_set_count (e15_count e) cp;
                     cp2 = (if e15_violation e then SecurityPoint_set_invalid cp1 else cp1)
                 in (case buf_add (e15_point e) buf_empty of
                       Ret _ b \<Rightarrow> Ret () (S1, SecurityPoint_add b cp2)
                     | Fail _ \<Rightarrow> Fail (S1, cp2)
                     | Undef \<Rightarrow> Undef)))
         | Ret _ S1 \<Rightarrow> Undef
         | Fail S1 \<Rightarrow> Fail (S1, cp)
         | Undef \<Rightarrow> Undef)))"

end
