(* ===== verification/QuixoteSGX.thy ===== *)
theory QuixoteSGX
  imports SanchoSGX Quixote
begin

text \<open>
  The orchestrator of a workload that is modeled in an SGX enclave (\<open>Quixote/quixote-sgx.c\<close>, and \<open>quixote-sgx-u.c\<close>,
  which differs in where the enclave is loaded from).  It has the structure of the orchestrator in user space, with the
  object of \<open>SanchoSGX\<close> in the place of the model.
\<close>

section \<open>State\<close>

record SGX_State =
  gx_model :: SanchoSGX_State
  gx_event :: TSEMevent_State
  gx_aggregate :: "buf option"
  gx_model_error :: bool
  gx_enforce :: bool
  gx_kills :: "bool list"
  gx_cmdbufr :: buf
  gx_connected :: bool
  gx_sent :: "byte list list"

record sgx_environment =
  ge_sgx :: sgx_env
  ge_stack :: "byte list"
  ge_mgmt :: "byte list list \<Rightarrow> bool"
  ge_file :: "byte list list \<Rightarrow> bool"

definition SGX_Init :: "bool \<Rightarrow> SanchoSGX_State \<Rightarrow> SGX_State" where
  "SGX_Init enforce model =
     \<lparr>gx_model = model, gx_event = TSEMevent_Init, gx_aggregate = None, gx_model_error = False, gx_enforce = enforce,
      gx_kills = [], gx_cmdbufr = buf_empty, gx_connected = False, gx_sent = []\<rparr>"

definition SGX_kill_cartridge :: "bool \<Rightarrow> SGX_State \<Rightarrow> SGX_State" where
  "SGX_kill_cartridge wait st = st\<lparr>gx_kills := gx_kills st @ [wait]\<rparr>"

text \<open>A call of a method of the model.\<close>

definition on_sgx :: "(SanchoSGX_State \<Rightarrow> ('a, SanchoSGX_State) res) \<Rightarrow> SGX_State \<Rightarrow> ('a, SGX_State) res" where
  "on_sgx f st = zoom (\<lambda>m. st\<lparr>gx_model := m\<rparr>) (f (gx_model st))"

section \<open>Events of the workload\<close>

definition SGX_add_aggregate :: "sgx_environment \<Rightarrow> hstr \<Rightarrow> SGX_State \<Rightarrow> (unit, SGX_State) res" where
  "SGX_add_aggregate env str st =
     (case TSEMevent_get_text ''value'' (gx_event st, hs_reset str) of
        Undef \<Rightarrow> Undef
      | Fail (ev, _) \<Rightarrow> Fail (st\<lparr>gx_event := ev\<rparr>)
      | Ret _ (ev, value) \<Rightarrow>
          steps
            [(\<lambda>st. case gx_aggregate st of
                 Some _ \<Rightarrow> Ret () st
               | None \<Rightarrow> zoom (\<lambda>b. st\<lparr>gx_aggregate := Some b\<rparr>) (buf_add_hexstring (hs_get value) buf_empty)),
             (\<lambda>st. on_sgx (SanchoSGX_set_aggregate (ge_sgx env) (gx_aggregate st)) st)]
            (st\<lparr>gx_event := ev\<rparr>))"

definition SGX_add_event :: "sgx_environment \<Rightarrow> hstr \<Rightarrow> SGX_State \<Rightarrow> (unit, SGX_State) res" where
  "SGX_add_event env update st =
     res_bind (on_sgx (SanchoSGX_update (ge_sgx env) (Some update) False) st) (\<lambda>_. Ret ())"

definition SGX_add_async_event :: "sgx_environment \<Rightarrow> hstr \<Rightarrow> SGX_State \<Rightarrow> (unit, SGX_State) res" where
  "SGX_add_async_event env update st =
     res_bind (on_sgx (SanchoSGX_update (ge_sgx env) (Some update) True) st) (\<lambda>(violation, sealed) st.
       Ret () (if sealed \<and> violation \<and> gx_enforce st then SGX_kill_cartridge True st else st))"

definition SGX_add_TSEM_event :: "sgx_environment \<Rightarrow> hstr \<Rightarrow> SGX_State \<Rightarrow> (unit, SGX_State) res" where
  "SGX_add_TSEM_event env event = on_sgx (SanchoSGX_add_ai_event (ge_sgx env) (Some event))"

text \<open>The string that is passed on is a new one: the text of the event is not put into it.\<close>

definition SGX_process_event :: "sgx_environment \<Rightarrow> SGX_State \<Rightarrow> (unit, SGX_State) res" where
  "SGX_process_event env st =
     (let str = hs_empty in
      (case TSEMevent_extract_export (TSEMevent_reset (gx_event st)) of
         Undef \<Rightarrow> Undef
       | Fail ev \<Rightarrow> Fail (st\<lparr>gx_event := ev\<rparr>)
       | Ret type ev \<Rightarrow>
           (let st1 = st\<lparr>gx_event := ev\<rparr>
            in (case type of
                  TSEM_EVENT_AGGREGATE \<Rightarrow> SGX_add_aggregate env str st1
                | TSEM_EVENT_EVENT \<Rightarrow> SGX_add_event env str st1
                | TSEM_EVENT_ASYNC_EVENT \<Rightarrow> SGX_add_async_event env str st1
                | TSEM_EVENT_LOG \<Rightarrow> SGX_add_TSEM_event env str st1
                | TSEM_EVENT_UNKNOWN \<Rightarrow> Fail st1))))"

section \<open>Management commands\<close>

text \<open>The buffer of the command is reset, filled, and sent.\<close>

definition SGX_fill :: "byte list \<Rightarrow> SGX_State \<Rightarrow> SGX_State" where
  "SGX_fill bs st = st\<lparr>gx_cmdbufr := (case buf_add bs (buf_reset (gx_cmdbufr st)) of
                                       Ret _ b \<Rightarrow> b | Fail b \<Rightarrow> b | Undef \<Rightarrow> gx_cmdbufr st)\<rparr>"

definition SGX_send :: "sgx_environment \<Rightarrow> SGX_State \<Rightarrow> (unit, SGX_State) res" where
  "SGX_send env st =
     (if \<not> b_poisoned (gx_cmdbufr st) \<and> ge_mgmt env (gx_sent st)
      then Ret () (st\<lparr>gx_sent := gx_sent st @ [b_data (gx_cmdbufr st)]\<rparr>) else Fail st)"

definition SGX_reply :: "sgx_environment \<Rightarrow> byte list \<Rightarrow> SGX_State \<Rightarrow> (unit, SGX_State) res" where
  "SGX_reply env bs st = SGX_send env (SGX_fill bs st)"

text \<open>The next text of the model, put into the string \<open>es\<close>.\<close>

definition next_text ::
  "(SanchoSGX_State \<times> hstr option \<Rightarrow> (unit, SanchoSGX_State \<times> hstr option) res) \<Rightarrow> hstr \<Rightarrow> SGX_State \<Rightarrow>
   (hstr, SGX_State) res" where
  "next_text get es st =
     (case get (gx_model st, Some es) of
        Ret _ (m, Some s) \<Rightarrow> Ret s (st\<lparr>gx_model := m\<rparr>)
      | Ret _ (m, None) \<Rightarrow> Undef
      | Fail (m, _) \<Rightarrow> Fail (st\<lparr>gx_model := m\<rparr>)
      | Undef \<Rightarrow> Undef)"

text \<open>The bytes at the pointer that \<open>get\<close> returns, with the NUL: a string that was never filled has none.\<close>

fun SGX_trajectory_loop :: "sgx_environment \<Rightarrow> nat \<Rightarrow> hstr \<Rightarrow> SGX_State \<Rightarrow> (unit, SGX_State) res" where
  "SGX_trajectory_loop env 0 es st = Ret () st"
| "SGX_trajectory_loop env (Suc n) es st =
     res_bind (next_text (SanchoSGX_get_event (ge_sgx env)) es st) (\<lambda>es1 st1.
       (case hs_get es1 of
          None \<Rightarrow> Undef
        | Some t \<Rightarrow>
            res_bind (SGX_reply env (t @ [NUL]) st1) (\<lambda>_. SGX_trajectory_loop env n (hs_reset es1))))"

definition SGX_send_trajectory :: "sgx_environment \<Rightarrow> SGX_State \<Rightarrow> (unit, SGX_State) res" where
  "SGX_send_trajectory env st =
     res_bind (on_sgx (SanchoSGX_trajectory_size (ge_sgx env)) st) (\<lambda>cnt.
       steps
         [SGX_reply env (size_bytes cnt),
          on_sgx (SanchoSGX_rewind_event (ge_sgx env)),
          SGX_trajectory_loop env cnt hs_empty])"

fun SGX_forensics_loop :: "sgx_environment \<Rightarrow> nat \<Rightarrow> hstr \<Rightarrow> SGX_State \<Rightarrow> (unit, SGX_State) res" where
  "SGX_forensics_loop env 0 es st = Ret () st"
| "SGX_forensics_loop env (Suc n) es st =
     res_bind (next_text (SanchoSGX_get_forensics (ge_sgx env)) es st) (\<lambda>es1 st1.
       (case (if hs_size es1 = 0 then hs_add ''Unknown event.'' es1 else Ret () es1) of
          Undef \<Rightarrow> Undef
        | Fail _ \<Rightarrow> Fail st1
        | Ret _ es2 \<Rightarrow>
            res_bind (SGX_reply env (hs_chars es2 @ [NUL]) st1) (\<lambda>_. SGX_forensics_loop env n (hs_reset es2))))"

definition SGX_send_forensics :: "sgx_environment \<Rightarrow> SGX_State \<Rightarrow> (unit, SGX_State) res" where
  "SGX_send_forensics env st =
     res_bind (on_sgx (SanchoSGX_forensics_size (ge_sgx env)) st) (\<lambda>cnt.
       steps
         [SGX_reply env (size_bytes cnt),
          on_sgx (SanchoSGX_rewind_forensics (ge_sgx env)),
          SGX_forensics_loop env cnt hs_empty])"

text \<open>The log entries are sent without their NUL.\<close>

fun SGX_events_loop :: "sgx_environment \<Rightarrow> nat \<Rightarrow> hstr \<Rightarrow> SGX_State \<Rightarrow> (unit, SGX_State) res" where
  "SGX_events_loop env 0 es st = Ret () st"
| "SGX_events_loop env (Suc n) es st =
     res_bind (next_text (SanchoSGX_get_te_event (ge_sgx env)) es st) (\<lambda>es1 st1.
       res_bind (SGX_reply env (hs_chars es1) st1) (\<lambda>_. SGX_events_loop env n (hs_reset es1)))"

definition SGX_send_events :: "sgx_environment \<Rightarrow> SGX_State \<Rightarrow> (unit, SGX_State) res" where
  "SGX_send_events env st =
     res_bind (on_sgx (SanchoSGX_te_size (ge_sgx env)) st) (\<lambda>cnt.
       steps
         [SGX_reply env (size_bytes cnt),
          on_sgx (SanchoSGX_rewind_te (ge_sgx env)),
          SGX_events_loop env cnt hs_empty])"

text \<open>The number of points of one kind, a difference of \<open>size_t\<close>.\<close>

definition SGX_point_count :: "sgx_environment \<Rightarrow> bool \<Rightarrow> SGX_State \<Rightarrow> (u64, SGX_State) res" where
  "SGX_point_count env type st =
     (let forensics = on_sgx (SanchoSGX_forensics_size (ge_sgx env)) in
      if type then
        res_bind (on_sgx (SanchoSGX_size (ge_sgx env)) st) (\<lambda>n st1.
          res_bind (forensics st1) (\<lambda>f. Ret (of_nat n - of_nat f)))
      else res_bind (forensics st) (\<lambda>f. Ret (of_nat f)))"

text \<open>
  The loop over the points asks for their number in each pass.  \<open>lp\<close> is the counter, \<open>area\<close> the local array that is
  sent, and \<open>emit\<close> prints a point into it; the first argument bounds the passes.
\<close>

fun SGX_points_loop ::
  "sgx_environment \<Rightarrow> bool \<Rightarrow> (SecurityPoint_State \<Rightarrow> byte list \<Rightarrow> byte list) \<Rightarrow> nat \<Rightarrow> nat \<Rightarrow>
   SecurityPoint_State \<Rightarrow> byte list \<Rightarrow> SGX_State \<Rightarrow> (unit, SGX_State) res" where
  "SGX_points_loop env type emit 0 lp cp area st =
     res_bind (on_sgx (SanchoSGX_size (ge_sgx env)) st) (\<lambda>n st1. if lp < n then Undef else Ret () st1)"
| "SGX_points_loop env type emit (Suc k) lp cp area st =
     res_bind (on_sgx (SanchoSGX_size (ge_sgx env)) st) (\<lambda>n st1.
       if \<not> lp < n then Ret () st1
       else
         (case SanchoSGX_get_point (ge_sgx env) (gx_model st1, SecurityPoint_reset cp) of
            Undef \<Rightarrow> Undef
          | Fail (m, _) \<Rightarrow> Fail (st1\<lparr>gx_model := m\<rparr>)
          | Ret _ (m, cp1) \<Rightarrow>
              (let st2 = st1\<lparr>gx_model := m\<rparr>
               in if SecurityPoint_is_valid cp1 \<noteq> type then SGX_points_loop env type emit k (lp + 1) cp1 area st2
                  else res_bind (SGX_reply env (emit cp1 area) st2)
                         (\<lambda>_. SGX_points_loop env type emit k (lp + 1) cp1 (emit cp1 area)))))"

definition SGX_send_points ::
  "sgx_environment \<Rightarrow> bool \<Rightarrow> (SecurityPoint_State \<Rightarrow> byte list \<Rightarrow> byte list) \<Rightarrow> byte list \<Rightarrow> SGX_State \<Rightarrow>
   (unit, SGX_State) res" where
  "SGX_send_points env type emit area st =
     res_bind (SGX_point_count env type st) (\<lambda>cnt.
       steps
         [SGX_reply env (u64_bytes cnt),
          on_sgx (SanchoSGX_rewind_points (ge_sgx env)),
          (\<lambda>st. SGX_points_loop env type emit (enclave_get_size 0 (sg_enclave (gx_model st))) 0 SecurityPoint_Init area st)])"

text \<open>The array for a count is not cleared, that for a coefficient is.\<close>

definition SGX_send_trajectory_counts :: "sgx_environment \<Rightarrow> bool \<Rightarrow> SGX_State \<Rightarrow> (unit, SGX_State) res" where
  "SGX_send_trajectory_counts env type =
     SGX_send_points env type
       (\<lambda>cp area. overwrite (sprint_u (unat (SecurityPoint_get_count cp)) @ [NUL]) area) (ge_stack env)"

definition SGX_send_trajectory_coefficients :: "sgx_environment \<Rightarrow> bool \<Rightarrow> SGX_State \<Rightarrow> (unit, SGX_State) res" where
  "SGX_send_trajectory_coefficients env type =
     SGX_send_points env type (\<lambda>cp area. sprint_hex (SecurityPoint_get cp) @ [NUL]) []"

text \<open>The aggregate must exist; its bytes are added to the empty buffer.\<close>

definition SGX_send_map :: "sgx_environment \<Rightarrow> SGX_State \<Rightarrow> (unit, SGX_State) res" where
  "SGX_send_map env st =
     (case gx_aggregate st of
        None \<Rightarrow> Undef
      | Some aggregate \<Rightarrow> steps
          [SGX_reply env (if b_poisoned aggregate then [] else b_data aggregate),
           SGX_send_trajectory_coefficients env True] st)"

text \<open>A measurement is put into the buffer of the command, which is sent.\<close>

definition SGX_send_digest ::
  "sgx_environment \<Rightarrow> (SanchoSGX_State \<times> buf option \<Rightarrow> (unit, SanchoSGX_State \<times> buf option) res) \<Rightarrow> SGX_State \<Rightarrow>
   (unit, SGX_State) res" where
  "SGX_send_digest env get st =
     (case get (gx_model st, Some (buf_reset (gx_cmdbufr st))) of
        Ret _ (m, Some b) \<Rightarrow> SGX_send env (st\<lparr>gx_model := m, gx_cmdbufr := b\<rparr>)
      | Fail (m, Some b) \<Rightarrow> Fail (st\<lparr>gx_model := m, gx_cmdbufr := b\<rparr>)
      | _ \<Rightarrow> Undef)"

definition SGX_process_command :: "sgx_environment \<Rightarrow> SGX_State \<Rightarrow> (unit, SGX_State) res" where
  "SGX_process_command env st =
     (if buf_size (gx_cmdbufr st) \<noteq> 4 then Fail st
      else
        (case command_of (b_data (gx_cmdbufr st)) of
           Some show_measurement \<Rightarrow> SGX_send_digest env (SanchoSGX_get_measurement (ge_sgx env)) st
         | Some show_state \<Rightarrow> SGX_send_digest env (SanchoSGX_get_state (ge_sgx env)) st
         | Some show_trajectory \<Rightarrow> SGX_send_trajectory env st
         | Some show_coefficients \<Rightarrow> SGX_send_trajectory_coefficients env True st
         | Some show_counts \<Rightarrow> SGX_send_trajectory_counts env True st
         | Some show_forensics \<Rightarrow> SGX_send_forensics env st
         | Some show_forensics_coefficients \<Rightarrow> SGX_send_trajectory_coefficients env False st
         | Some show_forensics_counts \<Rightarrow> SGX_send_trajectory_counts env False st
         | Some show_events \<Rightarrow> SGX_send_events env st
         | Some show_map \<Rightarrow> SGX_send_map env st
         | Some seal_event \<Rightarrow>
             steps [attempt (on_sgx (SanchoSGX_seal (ge_sgx env))), SGX_reply env (''OK'' @ [NUL])] st
         | _ \<Rightarrow> Fail st))"

section \<open>Loading and saving models\<close>

fun SGX_load_entries :: "sgx_environment \<Rightarrow> string list \<Rightarrow> SGX_State \<Rightarrow> (unit, SGX_State) res" where
  "SGX_load_entries env [] st = Ret () st"
| "SGX_load_entries env (entry # entries) st =
     res_bind (on_sgx (SanchoSGX_load (ge_sgx env) (Some (hs_of entry))) st) (\<lambda>_. SGX_load_entries env entries)"

definition SGX_load_model :: "sgx_environment \<Rightarrow> string list option \<Rightarrow> SGX_State \<Rightarrow> (unit, SGX_State) res" where
  "SGX_load_model env file st =
     (case file of None \<Rightarrow> Fail st | Some entries \<Rightarrow> SGX_load_entries env entries st)"

text \<open>The buffer is only reset when no event could be got; the statement that leaves the loop then is missing.\<close>

fun SGX_write_events ::
  "sgx_environment \<Rightarrow> nat \<Rightarrow> SGX_State writer \<Rightarrow> (unit, SGX_State writer) res" where
  "SGX_write_events env 0 w = Ret () w"
| "SGX_write_events env (Suc n) w =
     (case w of (st, es, bufr, file) \<Rightarrow>
        (case (case SanchoSGX_get_event (ge_sgx env) (gx_model st, Some es) of
                 Ret _ (m, Some s) \<Rightarrow> Some (m, s, bufr)
               | Fail (m, Some s) \<Rightarrow> Some (m, s, buf_reset bufr)
               | _ \<Rightarrow> None) of
           None \<Rightarrow> Undef
         | Some (m, es1, b) \<Rightarrow>
             res_bind
               (steps
                  [attempt (\<lambda>(st, es, b, file). zoom (\<lambda>b. (st, es, b, file)) (buf_add (hs_chars es) b)),
                   attempt (\<lambda>(st, es, b, file). zoom (\<lambda>b. (st, es, b, file)) (buf_add end_line b)),
                   (\<lambda>(st, es, b, file).
                      if b_poisoned b \<or> \<not> ge_file env file then Fail (st, es, b, file)
                      else Ret () (st, es, b, file @ [b_data b])),
                   assign (\<lambda>(st, es, b, file). (st, hs_reset es, b, file))]
                  (st\<lparr>gx_model := m\<rparr>, es1, b, file))
               (\<lambda>_. SGX_write_events env n)))"

definition SGX_output_trajectory ::
  "sgx_environment \<Rightarrow> bool \<Rightarrow> SGX_State \<Rightarrow> (unit, SGX_State \<times> byte list list) res" where
  "SGX_output_trajectory env opened st =
     (if \<not> opened then Fail (st, [])
      else
        res_bind (zoom (\<lambda>st. (st, [])) (on_sgx (SanchoSGX_rewind_event (ge_sgx env)) st)) (\<lambda>_ (st, file).
          res_bind (zoom (\<lambda>st. (st, file)) (on_sgx (SanchoSGX_trajectory_size (ge_sgx env)) st)) (\<lambda>cnt (st, file).
            zoom (\<lambda>(st, es, bufr, file). (st, file)) (SGX_write_events env cnt (st, hs_empty, buf_empty, file)))))"

text \<open>Here the point object is not reset between the points.\<close>

fun SGX_write_points ::
  "sgx_environment \<Rightarrow> nat \<Rightarrow> SecurityPoint_State \<Rightarrow> SGX_State writer \<Rightarrow> (unit, SGX_State writer) res" where
  "SGX_write_points env 0 cp w = Ret () w"
| "SGX_write_points env (Suc n) cp w =
     (case w of (st, str, bufr, file) \<Rightarrow>
        (case SanchoSGX_get_point (ge_sgx env) (gx_model st, cp) of
           Undef \<Rightarrow> Undef
         | Fail (m, _) \<Rightarrow> Fail (st\<lparr>gx_model := m\<rparr>, str, buf_reset bufr, file)
         | Ret _ (m, cp1) \<Rightarrow>
             res_bind
               (steps
                  [new_text ''state '',
                   assign (\<lambda>(st, str, bufr, file). (st, encode_buffer (SecurityPoint_get cp1) str, bufr, file)),
                   write_text (ge_file env) end_line] (st\<lparr>gx_model := m\<rparr>, str, buf_reset bufr, file))
               (\<lambda>_. SGX_write_points env n cp1)))"

definition SGX_output_model ::
  "sgx_environment \<Rightarrow> bool \<Rightarrow> SGX_State \<Rightarrow> (unit, SGX_State \<times> byte list list) res" where
  "SGX_output_model env opened st =
     (if \<not> opened then Fail (st, [])
      else zoom (\<lambda>(st, str, bufr, file). (st, file))
        (steps
           [new_text ''aggregate '',
            (\<lambda>(st, str, bufr, file). case gx_aggregate st of
               None \<Rightarrow> Undef
             | Some a \<Rightarrow> Ret () (st, encode_buffer (if b_poisoned a then [] else b_data a) str, bufr, file)),
            write_text (ge_file env) end_line,
            (\<lambda>(st, w). zoom (\<lambda>st. (st, w)) (on_sgx (SanchoSGX_rewind_points (ge_sgx env)) st)),
            (\<lambda>(st, w). res_bind (zoom (\<lambda>st. (st, w)) (on_sgx (SanchoSGX_size (ge_sgx env)) st))
               (\<lambda>cnt. SGX_write_points env cnt SecurityPoint_Init)),
            new_text (''seal'' @ end_line),
            write_text (ge_file env) [],
            new_text (''end'' @ end_line),
            write_text (ge_file env) []] (st, hs_empty, buf_empty, [])))"

section \<open>The monitor\<close>

partial_function (option) SGX_drain_events ::
  "sgx_environment \<Rightarrow> SGX_State \<Rightarrow> (unit, SGX_State) res option" where
  "SGX_drain_events env st =
     (case TSEMevent_fetch_event (gx_event st, True) of
        Undef \<Rightarrow> Some Undef
      | Fail (ev, _) \<Rightarrow> Some (Ret () (SGX_kill_cartridge False (st\<lparr>gx_event := ev\<rparr>)))
      | Ret _ (ev, event) \<Rightarrow>
          (case SGX_process_event env (st\<lparr>gx_event := ev\<rparr>) of
             Undef \<Rightarrow> Some Undef
           | Fail st1 \<Rightarrow> Some (Ret () (st1\<lparr>gx_model_error := True\<rparr>))
           | Ret _ st1 \<Rightarrow> if event then SGX_drain_events env st1 else Some (Ret () st1)))"

definition SGX_command_error :: "SGX_State \<Rightarrow> SGX_State" where
  "SGX_command_error st = SGX_kill_cartridge False (st\<lparr>gx_model_error := True\<rparr>)"

definition SGX_receive_command :: "byte list option \<Rightarrow> SGX_State \<Rightarrow> SGX_State" where
  "SGX_receive_command msg st =
     (case msg of
        None \<Rightarrow> SGX_command_error st
      | Some bs \<Rightarrow>
          (case buf_add bs (gx_cmdbufr st) of
             Ret _ b \<Rightarrow> st\<lparr>gx_cmdbufr := b\<rparr>
           | Fail b \<Rightarrow> SGX_command_error (st\<lparr>gx_cmdbufr := b\<rparr>)
           | Undef \<Rightarrow> st))"

definition SGX_manage ::
  "sgx_environment \<Rightarrow> bool \<Rightarrow> byte list option \<Rightarrow> bool \<Rightarrow> bool \<Rightarrow> SGX_State \<Rightarrow> (monitor_answer, SGX_State) res" where
  "SGX_manage env accepted msg eof socket st =
     (if \<not> gx_connected st then
        (if accepted then Ret Goes_on (st\<lparr>gx_connected := True\<rparr>) else Ret (Ends False) st)
      else
        (let st1 = SGX_receive_command msg st
         in if eof then
              (if socket then Ret Goes_on (st1\<lparr>gx_connected := False\<rparr>) else Ret (Ends False) st1)
            else
              (case SGX_process_command env st1 of
                 Undef \<Rightarrow> Undef
               | Fail st2 \<Rightarrow> Ret Goes_on ((SGX_command_error st2)\<lparr>gx_cmdbufr := buf_reset (gx_cmdbufr st2)\<rparr>)
               | Ret _ st2 \<Rightarrow> Ret Goes_on (st2\<lparr>gx_cmdbufr := buf_reset (gx_cmdbufr st2)\<rparr>))))"

definition SGX_monitor_step ::
  "sgx_environment \<Rightarrow> monitor_input \<Rightarrow> SGX_State \<Rightarrow> (monitor_answer, SGX_State) res option" where
  "SGX_monitor_step env inp st =
     (case inp of
        Poll_error stop child exited \<Rightarrow>
          Some (if stop then Ret (Ends True) (SGX_kill_cartridge True st)
                else if child then Ret (if exited then Ends True else Goes_on) st
                else Ret (Ends True) (SGX_kill_cartridge True st))
      | Hangup stop child exited \<Rightarrow>
          Some (if stop then Ret (Ends True) st
                else if child then Ret (if exited then Ends True else Goes_on) st
                else Ret Goes_on st)
      | Event_input available bs \<Rightarrow>
          (case TSEMevent_read_event available bs (gx_event st) of
             Undef \<Rightarrow> Some Undef
           | Fail ev \<Rightarrow> Some (Ret (Ends False) (SGX_kill_cartridge False (st\<lparr>gx_event := ev\<rparr>)))
           | Ret _ ev \<Rightarrow>
               map_option
                 (\<lambda>r. res_bind r (\<lambda>_ st1.
                    if gx_model_error st1 then Ret (Ends False) (SGX_kill_cartridge False st1) else Ret Goes_on st1))
                 (SGX_drain_events env (st\<lparr>gx_event := ev\<rparr>)))
      | Command_input accepted msg eof socket \<Rightarrow> Some (SGX_manage env accepted msg eof socket st))"

fun SGX_child_monitor ::
  "sgx_environment \<Rightarrow> monitor_input list \<Rightarrow> SGX_State \<Rightarrow> (unit, SGX_State) res option" where
  "SGX_child_monitor env [] st = Some (Ret () st)"
| "SGX_child_monitor env (inp # inputs) st =
     (case SGX_monitor_step env inp st of
        None \<Rightarrow> None
      | Some Undef \<Rightarrow> Some Undef
      | Some (Fail st1) \<Rightarrow> Some (Fail st1)
      | Some (Ret answer st1) \<Rightarrow>
          (case answer of
             Goes_on \<Rightarrow> SGX_child_monitor env inputs st1
           | Ends retn \<Rightarrow> Some (if retn then Ret () st1 else Fail st1)))"

section \<open>The start of the program and its end\<close>

text \<open>
  The objects, the key, the enclave, and the model file if one is named.  \<open>loaded\<close> is the enclave that the driver
  loaded.
\<close>

definition SGX_start ::
  "sgx_environment \<Rightarrow> bool \<Rightarrow> byte list option \<Rightarrow> (nat \<times> Enclave_State) option \<Rightarrow> string list option option \<Rightarrow>
   (unit, SGX_State) res" where
  "SGX_start env enforce random loaded file =
     (case TSEMcontrol_generate_key random TSEMcontrol_Init of
        Undef \<Rightarrow> Undef
      | Fail c \<Rightarrow> Fail (SGX_Init enforce (SanchoSGX_Init c))
      | Ret _ c \<Rightarrow>
          steps
            [on_sgx (SanchoSGX_load_enclave (ge_sgx env) loaded c),
             (case file of None \<Rightarrow> Ret () | Some entries \<Rightarrow> SGX_load_model env entries)]
            (SGX_Init enforce (SanchoSGX_Init c)))"

definition SGX_run ::
  "sgx_environment \<Rightarrow> bool \<Rightarrow> bool option \<Rightarrow> monitor_input list \<Rightarrow> SGX_State \<Rightarrow>
   (unit, SGX_State \<times> byte list list) res option" where
  "SGX_run env trajectory outfile inputs st =
     map_option
       (\<lambda>r. case r of
          Undef \<Rightarrow> Undef
        | Fail st1 \<Rightarrow> Fail (st1, [])
        | Ret _ st1 \<Rightarrow>
            (case outfile of
               None \<Rightarrow> Ret () (st1, [])
             | Some opened \<Rightarrow>
                 if trajectory then SGX_output_trajectory env opened st1 else SGX_output_model env opened st1))
       (SGX_child_monitor env inputs st)"

end
