(* ===== verification/SanchoSGXProps.thy ===== *)
theory SanchoSGXProps
  imports SanchoSGX QuixoteXenProps
begin

text \<open>
  What the object and the enclave behind it do: the enclave refuses pointers into itself, a loaded object is ready, its
  operations are those of the model, and an update through it is the update of the orchestrator in user space.
\<close>

section \<open>An object to instantiate the properties\<close>

definition SGX_ocalls :: "ocall_function list" where
  "SGX_ocalls = SRDEfusion_ocall_table @ SRDEnaaaim_ocall_table @ [SanchoSGX_ocall]"

definition SGX_ocall_state :: SRDEocall_State where
  "SGX_ocall_state = \<lparr>so_poisoned = False, so_count = 9, so_ocalls = SGX_ocalls\<rparr>"

definition demo_senv :: sgx_env where
  "demo_senv = \<lparr>sn_crypto = demo_crypto, sn_cell = demo_cell, sn_heap = zero_id, sn_stack = 0, sn_ocalloc = True,
     sn_control = \<lambda>_. True\<rparr>"

definition demo_sgx :: SanchoSGX_State where
  "demo_sgx = \<lparr>sg_poisoned = False, sg_debug = False, sg_broken = False, sg_threads = 1, sg_thread_cnt = 0,
     sg_ocall = SGX_ocall_state, sg_enclave = \<lparr>en_model = Some TSEM_Init, en_freed = [], en_errno = 0\<rparr>,
     sg_control = demo_control\<rparr>"

section \<open>Pointers into the enclave\<close>

definition place :: "'a pointer \<Rightarrow> region option" where
  "place p = map_option fst p"

definition ecall_place :: "ecall \<Rightarrow> region option" where
  "ecall_place arg =
     (case arg of
        Ecall0 p \<Rightarrow> place p | Ecall1 p \<Rightarrow> place p | Ecall2 p \<Rightarrow> place p | Ecall4 p \<Rightarrow> place p
      | Ecall5 p \<Rightarrow> place p | Ecall6 p \<Rightarrow> place p | Ecall7 p \<Rightarrow> place p | Ecall8 p \<Rightarrow> place p
      | Ecall9 p \<Rightarrow> place p | Ecall12 p \<Rightarrow> place p | Ecall14 p \<Rightarrow> place p | Ecall15 p \<Rightarrow> place p)"

lemmas pointer_checks = CHECK_REF_POINTER_def CHECK_UNIQUE_POINTER_def SGXidf_untrusted_region_def
  sgx_is_outside_enclave_def sgx_is_within_enclave_def place_def refused_def

text \<open>Which places a function accepts: outside, or also over the border.\<close>

definition strict :: "region option \<Rightarrow> bool" where
  "strict r \<longleftrightarrow> r = Some Outside"

definition lax :: "region option \<Rightarrow> bool" where
  "lax r \<longleftrightarrow> r = Some Outside \<or> r = Some Straddling"

lemma strict_place: "CHECK_REF_POINTER p \<longleftrightarrow> strict (place p)"
  by (auto simp: strict_def CHECK_REF_POINTER_def sgx_is_outside_enclave_def place_def split: option.splits)

lemma unique_place: "CHECK_UNIQUE_POINTER p \<longleftrightarrow> place p = None \<or> strict (place p)"
  by (auto simp: strict_def CHECK_UNIQUE_POINTER_def sgx_is_outside_enclave_def place_def split: option.splits)

lemma lax_place: "SGXidf_untrusted_region p \<longleftrightarrow> lax (place p)"
proof -
  have "r \<noteq> Inside \<longleftrightarrow> r = Outside \<or> r = Straddling" for r by (cases r) simp_all
  then show ?thesis
    by (auto simp: lax_def SGXidf_untrusted_region_def sgx_is_within_enclave_def place_def split: option.splits)
qed

lemmas checked_place = strict_place unique_place lax_place

lemma no_place: "\<not> strict None" "\<not> lax None" "place (None :: 'a pointer) = None"
  by (simp_all add: strict_def lax_def place_def)

text \<open>The slot of a structure, its place, and the place of what it points to, for the structures with a pointer.\<close>

definition ecall_slot :: "ecall \<Rightarrow> nat" where
  "ecall_slot arg =
     (case arg of
        Ecall0 _ \<Rightarrow> 0 | Ecall1 _ \<Rightarrow> 1 | Ecall2 _ \<Rightarrow> 2 | Ecall4 _ \<Rightarrow> 4 | Ecall5 _ \<Rightarrow> 5 | Ecall6 _ \<Rightarrow> 6
      | Ecall7 _ \<Rightarrow> 7 | Ecall8 _ \<Rightarrow> 8 | Ecall9 _ \<Rightarrow> 9 | Ecall12 _ \<Rightarrow> 12 | Ecall14 _ \<Rightarrow> 14 | Ecall15 _ \<Rightarrow> 15)"

definition pointed_place :: "ecall \<Rightarrow> region option" where
  "pointed_place arg =
     (case arg of
        Ecall1 (Some (_, ms)) \<Rightarrow> place (e1_update ms)
      | Ecall5 (Some (_, ms)) \<Rightarrow> place (e5_aggregate ms)
      | Ecall12 (Some (_, ms)) \<Rightarrow> place (e12_update ms)
      | Ecall14 (Some (_, ms)) \<Rightarrow> place (e14_ai_event ms)
      | _ \<Rightarrow> None)"

text \<open>Which structures, and which pointers in them, the enclave accepts at the slots.\<close>

definition structure_accepted :: "ecall \<Rightarrow> bool" where
  "structure_accepted arg \<longleftrightarrow>
     (if ecall_slot arg = 2 then ecall_place arg = None
      else if ecall_slot arg \<in> {1, 12, 14, 15} then lax (ecall_place arg)
      else strict (ecall_place arg))"

definition pointer_accepted :: "ecall \<Rightarrow> bool" where
  "pointer_accepted arg \<longleftrightarrow>
     (if ecall_slot arg \<in> {1, 12, 14} then lax (pointed_place arg)
      else if ecall_slot arg = 5 then pointed_place arg = None \<or> strict (pointed_place arg)
      else True)"

text \<open>
  The refusals that are undefined: at the slots 1 and 12 a pointer that was not set is freed, or the length of a text at
  NULL is asked for; at slot 5 the structure is read before it is checked; at slot 14 a copy that was not made is cleared.
\<close>

definition refusal_undefined :: "ecall \<Rightarrow> bool" where
  "refusal_undefined arg \<longleftrightarrow>
     (case arg of
        Ecall1 p \<Rightarrow> \<not> structure_accepted arg \<or> pointed_place arg = None
      | Ecall12 p \<Rightarrow> \<not> structure_accepted arg \<or> pointed_place arg = None
      | Ecall5 p \<Rightarrow> p = None
      | Ecall14 (Some (_, ms)) \<Rightarrow> structure_accepted arg \<and> e14_size ms \<noteq> 0
      | _ \<Rightarrow> False)"

lemmas call_places = ecall_slot_def ecall_place_def pointed_place_def structure_accepted_def pointer_accepted_def
  refusal_undefined_def

lemmas ecall_functions = sgx_init_model_def sgx_update_model_def sgx_seal_model_def sgx_get_size_def sgx_set_aggregate_def
  sgx_get_measurement_def sgx_get_pid_def sgx_rewind_def sgx_get_event_def sgx_load_def sgx_add_ai_event_def
  sgx_get_point_def

lemma refused_call:
  assumes "\<not> (structure_accepted arg \<and> pointer_accepted arg)"
  shows "ecall_table env table (ecall_slot arg) arg w =
     (if refusal_undefined arg then Undef else Ret (SGX_ERROR_INVALID_PARAMETER, arg) w)"
  using assms
  by (cases arg; cases w)
    (auto simp: call_places ecall_table_def ecall_functions checked_place refused_def no_place place_def
      split: option.splits prod.splits)

lemma enclave_rewind_returns:
  "en_model en = Some m \<Longrightarrow> \<exists>en'. enclave_rewind type en = Ret () en'"
  by (auto simp: enclave_rewind_def on_enclave_model_def split: option.splits model_selector.splits)

lemma place_cases:
  "strict (place p) \<longleftrightarrow> (case p of None \<Rightarrow> False | Some (r, _) \<Rightarrow> r = Outside)"
  "lax (place p) \<longleftrightarrow> (case p of None \<Rightarrow> False | Some (r, _) \<Rightarrow> r \<noteq> Inside)"
  "place p = None \<longleftrightarrow> p = None"
proof -
  have "r \<noteq> Inside \<longleftrightarrow> r = Outside \<or> r = Straddling" for r by (cases r) simp_all
  then show "strict (place p) \<longleftrightarrow> (case p of None \<Rightarrow> False | Some (r, _) \<Rightarrow> r = Outside)"
    "lax (place p) \<longleftrightarrow> (case p of None \<Rightarrow> False | Some (r, _) \<Rightarrow> r \<noteq> Inside)" "place p = None \<longleftrightarrow> p = None"
    by (auto simp: strict_def lax_def place_def split: option.splits)
qed

lemma accepted_call:
  assumes "structure_accepted arg" "pointer_accepted arg"
  shows "case ecall_table env table (ecall_slot arg) arg w of
       Ret (status, _) _ \<Rightarrow> status = SGX_SUCCESS
     | Fail _ \<Rightarrow> False
     | Undef \<Rightarrow> ecall_slot arg \<notin> {2, 4, 7, 8, 15} \<or> en_model (fst w) = None"
proof -
  obtain en c where w: "w = (en, c)" by (cases w)
  have rewind: "(\<exists>en'. enclave_rewind type en = Ret () en') \<or> en_model en = None" for type
    using enclave_rewind_returns by (cases "en_model en") blast+
  note all = w call_places ecall_table_def ecall_functions checked_place place_cases no_place answered_def refused_def
    enclave_seal_model_def enclave_get_pid_def enclave_get_point_def on_enclave_model_def TSEM_discipline_pid_def
  show ?thesis
  proof (cases arg)
    case (Ecall8 p)
    with assms obtain r ms where p: "p = Some (r, ms)" "strict (place p)"
      by (cases p) (auto simp: call_places no_place)
    from rewind [of "e8_type ms"] Ecall8 p show ?thesis
      by (auto simp: w ecall_slot_def ecall_table_def sgx_rewind_def checked_place split: res.splits)
  qed (use assms in \<open>auto simp: all split: option.splits prod.splits res.splits if_splits\<close>)
qed

text \<open>
  C13: The enclave is called at any slot with any structure.  It accepts a structure that is
  outside of the enclave, at the slots 1, 12, 14 and 15 also one that reaches over the border, and for \<open>seal\<close> only NULL;
  and the pointer in the structure must be acceptable too.  All other calls are refused and have no effect on the model, the
  structure or the control file, except for those that are undefined, because the code frees, reads or clears
  through a pointer that it has not set or checked.  An accepted call is never refused: if it returns,
  and memory can be allocated, it succeeds, and with a model it returns at the slots of the
  operations that take no data.
\<close>

theorem enclave_refuses_pointers:
  "if structure_accepted arg \<and> pointer_accepted arg
   then (case ecall_table env table (ecall_slot arg) arg w of
       Ret (status, _) _ \<Rightarrow> status = SGX_SUCCESS
     | Fail _ \<Rightarrow> False
     | Undef \<Rightarrow> ecall_slot arg \<notin> {2, 4, 7, 8, 15} \<or> en_model (fst w) = None)
   else ecall_table env table (ecall_slot arg) arg w =
     (if refusal_undefined arg then Undef else Ret (SGX_ERROR_INVALID_PARAMETER, arg) w)"
  using refused_call accepted_call by metis

theorem enclave_refuses_pointers_witness:
  "ecall_table demo_senv SGX_ocalls 4 (Ecall4 (Some (Inside, \<lparr>e4_type = 0, e4_size = 7\<rparr>))) (sg_enclave demo_sgx, demo_control) =
     Ret (SGX_ERROR_INVALID_PARAMETER, Ecall4 (Some (Inside, \<lparr>e4_type = 0, e4_size = 7\<rparr>))) (sg_enclave demo_sgx, demo_control) \<and>
   (\<exists>out w. ecall_table demo_senv SGX_ocalls 4 (Ecall4 (Some (Outside, \<lparr>e4_type = 0, e4_size = 7\<rparr>)))
     (sg_enclave demo_sgx, demo_control) = Ret (SGX_SUCCESS, out) w)"
proof -
  let ?in = "Ecall4 (Some (Inside, \<lparr>e4_type = 0, e4_size = 7\<rparr>))" and ?out = "Ecall4 (Some (Outside, \<lparr>e4_type = 0, e4_size = 7\<rparr>))"
  let ?w = "(sg_enclave demo_sgx, demo_control)"
  have kinds: "\<not> structure_accepted ?in" "structure_accepted ?out" "pointer_accepted ?out" "\<not> refusal_undefined ?in"
    "ecall_slot ?in = 4" "ecall_slot ?out = 4" "en_model (fst ?w) = Some TSEM_Init"
    by (simp_all add: call_places place_cases demo_sgx_def)
  note call = enclave_refuses_pointers [where env = demo_senv and table = SGX_ocalls and w = ?w]
  from call [where arg = ?in] kinds have "ecall_table demo_senv SGX_ocalls 4 ?in ?w = Ret (SGX_ERROR_INVALID_PARAMETER, ?in) ?w"
    by simp
  moreover from call [where arg = ?out] kinds have "\<exists>out w. ecall_table demo_senv SGX_ocalls 4 ?out ?w = Ret (SGX_SUCCESS, out) w"
    by (cases "ecall_table demo_senv SGX_ocalls 4 ?out ?w") (auto split: prod.splits)
  ultimately show ?thesis by blast
qed

text \<open>
  A structure over the border is written by the function that reads a point: the check asks only whether the memory is
  completely inside.
\<close>

lemma straddling_structure_is_written:
  "en_model en = Some m \<Longrightarrow> \<exists>ms' en'. sgx_get_point (Some (Straddling, ms)) (en, c) =
     Ret (SGX_SUCCESS, Some (Straddling, ms')) (en', c)"
  by (auto simp: sgx_get_point_def SGXidf_untrusted_region_def sgx_is_within_enclave_def enclave_get_point_def
      split: option.splits prod.splits)

text \<open>Without a valid answer the caller gets what the memory of the enclave held before.\<close>

lemma stack_leaves_the_enclave:
  "en_model en = Some m \<Longrightarrow> ts_poisoned m \<Longrightarrow>
   sgx_get_pid env (Some (Outside, ms)) (en, c) =
     Ret (SGX_SUCCESS, Some (Outside, ms\<lparr>e7_retn := False, e7_pid := sn_stack env\<rparr>)) (en\<lparr>en_model := Some (tsem_poison m)\<rparr>, c)"
  by (simp add: sgx_get_pid_def CHECK_REF_POINTER_def sgx_is_outside_enclave_def enclave_get_pid_def on_enclave_model_def
      TSEM_discipline_pid_def)

section \<open>A loaded object\<close>

text \<open>The object is in order, and the enclave has the model and the \<open>errno\<close>.\<close>

definition sgx_working :: "SanchoSGX_State \<Rightarrow> bool" where
  "sgx_working S \<longleftrightarrow>
     \<not> sg_poisoned S \<and> \<not> sg_broken S \<and> sg_thread_cnt S = 0 \<and> 0 < sg_threads S \<and> sg_ocall S = SGX_ocall_state"

definition sgx_ready :: "TSEM_State \<Rightarrow> int \<Rightarrow> SanchoSGX_State \<Rightarrow> bool" where
  "sgx_ready m errno S \<longleftrightarrow>
     sgx_working S \<and> sg_enclave S = \<lparr>en_model = Some m, en_freed = [], en_errno = errno\<rparr>"

lemma ready_working: "sgx_ready m e S \<Longrightarrow> sgx_working S"
  by (simp add: sgx_ready_def)

definition sgx_with :: "Enclave_State \<Rightarrow> TSEMcontrol_State \<Rightarrow> SanchoSGX_State \<Rightarrow> SanchoSGX_State" where
  "sgx_with en c S = S\<lparr>sg_enclave := en, sg_control := c\<rparr>"

lemma sgx_with_working [simp]: "sgx_working (sgx_with en c S) = sgx_working S"
  by (simp add: sgx_working_def sgx_with_def)

lemma sgx_with_ready [simp]:
  "sgx_ready m e S \<Longrightarrow> sgx_ready m' e' (sgx_with \<lparr>en_model = Some m', en_freed = [], en_errno = e'\<rparr> c S)"
  by (simp add: sgx_ready_def sgx_working_def sgx_with_def)

lemma sgx_with_simps [simp]:
  "sg_enclave (sgx_with en c S) = en" "sg_control (sgx_with en c S) = c"
  "sgx_with en c (sgx_with en' c' S) = sgx_with en c S" "sg_poisoned (sgx_with en c S) = sg_poisoned S"
  by (simp_all add: sgx_with_def)

lemma sgx_with_same: "sgx_with (sg_enclave S) (sg_control S) S = S"
  by (simp add: sgx_with_def)

lemma boot_ok:
  assumes "\<not> sg_broken S" "sg_thread_cnt S = 0" "0 < sg_threads S"
  shows "ecall_table env table slot arg (sg_enclave S, sg_control S) = Ret (SGX_SUCCESS, out) (en, c) \<Longrightarrow>
      boot_slot env slot table arg S = Ret out (sgx_with en c S)"
    and "ecall_table env table slot arg (sg_enclave S, sg_control S) = Undef \<Longrightarrow> boot_slot env slot table arg S = Undef"
  using assms by (simp_all add: boot_slot_def SRDEenclave_get_thread_def sgx_with_def)

lemma sgx_call_working:
  assumes "sgx_working S"
  shows "ecall_table env SGX_ocalls slot arg (sg_enclave S, sg_control S) = Ret (SGX_SUCCESS, out) (en, c) \<Longrightarrow>
      sgx_call env slot arg S = Ret out (sgx_with en c S)"
    and "ecall_table env SGX_ocalls slot arg (sg_enclave S, sg_control S) = Undef \<Longrightarrow> sgx_call env slot arg S = Undef"
  using assms boot_ok [of S] by (simp_all add: sgx_working_def sgx_call_def SRDEocall_get_table_def SGX_ocall_state_def)

lemmas sgx_call_ready = sgx_call_working [OF ready_working]

lemma ready_enclave: "sgx_ready m e S \<Longrightarrow> sg_enclave S = \<lparr>en_model = Some m, en_freed = [], en_errno = e\<rparr>"
  and ready_poisoned: "sgx_ready m e S \<Longrightarrow> \<not> sg_poisoned S"
  by (simp_all add: sgx_ready_def sgx_working_def)

text \<open>The table of the functions outside, and what \<open>load_enclave\<close> leaves.\<close>

lemma add_ocalls:
  "sg_ocall S = SRDEocall_Init \<Longrightarrow>
   steps
     [attempt (\<lambda>S. zoom (\<lambda>c. S\<lparr>sg_ocall := c\<rparr>) (SRDEocall_add_table SRDEfusion_ocall_table (sg_ocall S))),
      attempt (\<lambda>S. zoom (\<lambda>c. S\<lparr>sg_ocall := c\<rparr>) (SRDEocall_add_table SRDEnaaaim_ocall_table (sg_ocall S))),
      attempt (\<lambda>S. zoom (\<lambda>c. S\<lparr>sg_ocall := c\<rparr>) (SRDEocall_add SanchoSGX_ocall (sg_ocall S)))] S =
   Ret () (S\<lparr>sg_ocall := SGX_ocall_state\<rparr>)"
  by (simp add: SRDEfusion_ocall_table_def SRDEnaaaim_ocall_table_def SRDEocall_add_def SGX_ocalls_def SRDEocall_Init_def
      SGX_ocall_state_def)

lemma load_enclave_ready:
  assumes "0 < threads"
  shows "\<exists>S'. SanchoSGX_load_enclave env (Some (threads, en)) control (SanchoSGX_Init control) = Ret () S' \<and>
    sgx_ready TSEM_Init (en_errno en) S' \<and> sg_control S' = control"
proof -
  let ?T = "(SanchoSGX_Init control)\<lparr>sg_control := control, sg_threads := threads, sg_thread_cnt := 0,
      sg_broken := False, sg_enclave := en, sg_ocall := SRDEocall_Init\<rparr>"
  let ?S = "?T\<lparr>sg_ocall := SGX_ocall_state\<rparr>"
  let ?en = "\<lparr>en_model = Some TSEM_Init, en_freed = [], en_errno = en_errno en\<rparr>"
  have table: "SRDEocall_get_table (sg_ocall ?S) = Some (9, SGX_ocalls)"
    by (simp add: SRDEocall_get_table_def SGX_ocall_state_def)
  have "ecall_table env SGX_ocalls 0 (Ecall0 (Some (Outside, \<lparr>e0_retn = False, e0_init = True\<rparr>))) (en, control) =
      Ret (SGX_SUCCESS, Ecall0 (Some (Outside, \<lparr>e0_retn = True, e0_init = True\<rparr>))) (?en, control)"
    by (simp add: ecall_table_def sgx_init_model_def CHECK_REF_POINTER_def sgx_is_outside_enclave_def answered_def
        enclave_init_model_def)
  with boot_ok(1) [of ?S] assms
  have "boot_slot env 0 SGX_ocalls (Ecall0 (Some (Outside, \<lparr>e0_retn = False, e0_init = True\<rparr>))) ?S =
      Ret (Ecall0 (Some (Outside, \<lparr>e0_retn = True, e0_init = True\<rparr>))) (sgx_with ?en control ?S)"
    by simp
  then have "sgx_call env 0 (Ecall0 (Some (Outside, \<lparr>e0_retn = False, e0_init = True\<rparr>))) ?S =
      Ret (Ecall0 (Some (Outside, \<lparr>e0_retn = True, e0_init = True\<rparr>))) (sgx_with ?en control ?S)"
    unfolding sgx_call_def table by simp
  then have "SanchoSGX_load_enclave env (Some (threads, en)) control (SanchoSGX_Init control) =
      Ret () (sgx_with ?en control ?S)"
    using add_ocalls [of ?T] by (simp add: SanchoSGX_load_enclave_def del: steps.simps)
  moreover have "sgx_ready TSEM_Init (en_errno en) (sgx_with ?en control ?S)"
    using assms by (simp add: sgx_ready_def sgx_working_def sgx_with_def SanchoSGX_Init_def SGX_ocall_state_def)
  ultimately show ?thesis by simp
qed

section \<open>Updates\<close>

text \<open>What an update through the object is, when the event is parsed and modeled.\<close>

lemma SanchoSGX_update_Ret:
  assumes ready: "sgx_ready m n S" and env: "sn_ocalloc env"
    and parse: "SecurityEvent_parse ((SecurityEvent_Init (sn_cell env), hs_of t), n) = Ret u ((event, x), k)"
    and model: "TSEM_update (cr_sha (sn_crypto env)) (m, event) = Ret (status, discipline, seal) (T, ev)" "\<not> ts_poisoned T"
  shows "SanchoSGX_update env (Some (hs_of t)) True S =
      Ret (discipline, seal) (sgx_with \<lparr>en_model = Some T, en_freed = [], en_errno = k\<rparr> (sg_control S) S)"
    and "TSEMcontrol_verdict (\<not> discipline) (sn_control env) (ts_discipline_pid T) (sg_control S) \<in> {Ret () c, Fail c} \<Longrightarrow>
      SanchoSGX_update env (Some (hs_of t)) False S =
      Ret (discipline, seal) (sgx_with \<lparr>en_model = Some T, en_freed = [], en_errno = k\<rparr> c S)"
proof -
  let ?arg = "\<lambda>async. \<lparr>e1_retn = False, e1_debug = False, e1_async = async, e1_discipline = False, e1_sealed = False,
      e1_update = Some (Outside, t)\<rparr>"
  have call: "SanchoSGX_update env (Some (hs_of t)) async S = Ret (discipline, seal) (sgx_with en c S)"
    if "sgx_update_model env SGX_ocalls (Some (Outside, ?arg async)) (sg_enclave S, sg_control S) =
        Ret (SGX_SUCCESS, Some (Outside, (?arg async)\<lparr>e1_retn := True, e1_discipline := discipline, e1_sealed := seal\<rparr>)) (en, c)"
    for async en c
    using sgx_call_ready(1) [OF ready, of env 1 "Ecall1 (Some (Outside, ?arg async))"] that ready
    by (simp add: SanchoSGX_update_def ecall_table_def ready_poisoned)
  have pid: "TSEM_discipline_pid T = Ret (ts_discipline_pid T) T" using model(2) by (simp add: TSEM_discipline_pid_def)
  note enter = sgx_update_model_def SGXidf_untrusted_region_def sgx_is_within_enclave_def enclave_update_model_def
    ready_enclave [OF ready]
  show "SanchoSGX_update env (Some (hs_of t)) True S =
      Ret (discipline, seal) (sgx_with \<lparr>en_model = Some T, en_freed = [], en_errno = k\<rparr> (sg_control S) S)"
    by (rule call) (simp add: enter parse model)
  assume verdict: "TSEMcontrol_verdict (\<not> discipline) (sn_control env) (ts_discipline_pid T) (sg_control S) \<in> {Ret () c, Fail c}"
  have "\<exists>b. discipline_ocall env SGX_ocalls \<lparr>oc_retn = False, oc_debug = False, oc_ocall = SanchoSGX_discipline,
      oc_pid = ts_discipline_pid T, oc_discipline = discipline\<rparr> (sg_control S) =
      Ret \<lparr>oc_retn = b, oc_debug = False, oc_ocall = SanchoSGX_discipline, oc_pid = ts_discipline_pid T,
        oc_discipline = discipline\<rparr> c"
    using verdict env
    by (cases discipline) (auto simp: Let_def discipline_ocall_def boot_ocall_def SRDENAAAIM_MAX_OCALL_def SRDEFUSION_MAX_OCALL_def SGX_ocalls_def
        SRDEfusion_ocall_table_def SRDEnaaaim_ocall_table_def discipline_pid_ocall_def TSEMcontrol_verdict_def)
  then show "SanchoSGX_update env (Some (hs_of t)) False S =
      Ret (discipline, seal) (sgx_with \<lparr>en_model = Some T, en_freed = [], en_errno = k\<rparr> c S)"
    by (intro call) (auto simp: enter parse model pid)
qed

text \<open>In a model that operations led to, only what happens after the seal is disciplined.\<close>

lemma disciplined_sealed:
  assumes "tsem_ok m" "history TSEM_Init m" "sha_ok sha"
    and "TSEM_update sha (m, event) = Ret (status, discipline, seal) (T, ev)"
  shows "discipline \<Longrightarrow> seal" "history TSEM_Init T"
proof -
  have "effect m T" using TSEM_update_effect [OF assms(1,3), of event] assms(4) by simp
  then show T: "history TSEM_Init T" using history_trans [OF assms(2)] by (simp add: effect_def)
  assume discipline
  with TSEM_update_verdict(2,3) [OF assms(1,3,4)] have "point_id ev \<in> set (violations T)" "ts_sealed T = seal" by simp_all
  with unsealed_no_violations [OF T] show seal by auto
qed

text \<open>The model of the object is that of an orchestrator in user space, and both write to the same control file.\<close>

definition sgx_agrees :: "SanchoSGX_State \<Rightarrow> Quixote_State \<Rightarrow> bool" where
  "sgx_agrees S q \<longleftrightarrow> sgx_ready (qx_model q) (qx_errno q) S \<and> sg_control S = qx_control q"

definition same_parameters :: "sgx_env \<Rightarrow> environment \<Rightarrow> bool" where
  "same_parameters s env \<longleftrightarrow> sn_crypto s = env_crypto env \<and> sn_cell s = env_cell env \<and> sn_control s = env_control env \<and>
     sn_ocalloc s"

text \<open>
  C11: An event is given to the model in the enclave, by an orchestrator whose state corresponds to one in
  user space.  When that handles the event without an error, so does the enclave: it has the same model afterwards, and
  the same command was written to the control file, through the function outside of the enclave.
\<close>

theorem sgx_update_agrees:
  assumes "sgx_agrees S q" "same_parameters s env" "sha_ok (cr_sha (env_crypto env))"
    and "tsem_ok (qx_model q)" "history TSEM_Init (qx_model q)" "\<not> qx_model_error q"
    and "Quixote_add_event env (hs_of t) q = Ret a q'"
  shows "\<exists>r S'. SanchoSGX_update s (Some (hs_of t)) False S = Ret r S' \<and> sgx_agrees S' q'"
proof -
  note p = assms(2) [unfolded same_parameters_def]
  obtain u event x k status discipline seal T ev where
    m: "SecurityEvent_parse ((SecurityEvent_Init (env_cell env), hs_of t), qx_errno q) = Ret u ((event, x), k)"
    "TSEM_update (cr_sha (env_crypto env)) (qx_model q, event) = Ret (status, discipline, seal) (T, ev)"
    "(if \<not> seal then attempt (on_control (TSEMcontrol_release (env_control env) (ts_discipline_pid T)))
      else if discipline then on_control (TSEMcontrol_discipline (env_control env) (ts_discipline_pid T))
      else on_control (TSEMcontrol_release (env_control env) (ts_discipline_pid T)))
       (q\<lparr>qx_errno := k, qx_model := T\<rparr>) = Ret a q'"
    using assms(7) [unfolded Quixote_add_event_def] assms(6) by (rule update_model_cases)
  note sealed = disciplined_sealed [OF assms(4,5,3) m(2)]
  have T: "\<not> ts_poisoned T" using TSEM_update_pid [OF assms(4,3) m(2)] by simp
  obtain d where d: "TSEMcontrol_verdict (\<not> discipline) (env_control env) (ts_discipline_pid T) (qx_control q) \<in> {Ret () d, Fail d}"
    "q' = q\<lparr>qx_errno := k, qx_model := T, qx_control := d\<rparr>"
    using m(3) sealed(1)
    by (cases seal; cases discipline)
      (auto simp: TSEMcontrol_verdict_def on_control_def res_simps split: res.splits if_splits)
  have S: "sgx_ready (qx_model q) (qx_errno q) S" "sg_control S = qx_control q"
    using assms(1) by (simp_all add: sgx_agrees_def)
  from SanchoSGX_update_Ret(2) [OF S(1), of s t u event x k status discipline seal T ev d] p m(1,2) T d(1) S(2)
  have "SanchoSGX_update s (Some (hs_of t)) False S =
      Ret (discipline, seal) (sgx_with \<lparr>en_model = Some T, en_freed = [], en_errno = k\<rparr> d S)" by simp
  with S(1) d(2) show ?thesis by (auto simp: sgx_agrees_def)
qed

lemma demo_sgx_ready: "sgx_ready TSEM_Init 0 demo_sgx"
  by (simp add: sgx_ready_def sgx_working_def demo_sgx_def)

lemma demo_sgx_agrees: "sgx_agrees demo_sgx demo_start" "same_parameters demo_senv demo_env"
  using demo_sgx_ready by (simp_all add: sgx_agrees_def same_parameters_def demo_senv_def demo_env_def, simp add: demo_sgx_def)

theorem sgx_update_agrees_witness:
  "\<exists>r S'. SanchoSGX_update demo_senv (Some (hs_of demo_line)) False demo_sgx = Ret r S' \<and>
     length (tc_written (sg_control S')) = 1"
proof -
  obtain status discipline seal T ev where
    "TSEM_update (cr_sha (env_crypto demo_env)) (qx_model demo_start, demo_parsed) = Ret (status, discipline, seal) (T, ev)"
    using demo_verdict(2) by blast
  from add_event_verdict [OF demo_start_ok(1) demo_verdict(5,4,6) _ demo_verdict(3) this] obtain q' where
    q': "Quixote_add_event demo_env (hs_of demo_line) demo_start = Ret () q'" "length (tc_written (qx_control q')) = 1"
    by auto
  have "tsem_ok (qx_model demo_start)" using demo_start_ok(1) by (simp add: qx_ok_iff)
  from sgx_update_agrees [OF demo_sgx_agrees demo_verdict(5) this demo_start_ok(2) _ q'(1)] q'(2) show ?thesis
    by (auto simp: sgx_agrees_def)
qed

lemma sgx_add_async_event_agrees:
  assumes "sgx_agrees S q" "same_parameters s env" "sha_ok (cr_sha (env_crypto env))"
    and "tsem_ok (qx_model q)" "\<not> qx_model_error q"
    and "Quixote_add_async_event env (hs_of t) q = Ret a q'"
  shows "\<exists>violation seal S'. SanchoSGX_update s (Some (hs_of t)) True S = Ret (violation, seal) S' \<and> sgx_agrees S' q' \<and>
    q' = (if seal \<and> violation \<and> qx_enforce q then kill_cartridge True else id)
           (q\<lparr>qx_model := qx_model q', qx_errno := qx_errno q'\<rparr>)"
proof -
  note p = assms(2) [unfolded same_parameters_def]
  obtain u event x k status discipline seal T ev where
    m: "SecurityEvent_parse ((SecurityEvent_Init (env_cell env), hs_of t), qx_errno q) = Ret u ((event, x), k)"
    "TSEM_update (cr_sha (env_crypto env)) (qx_model q, event) = Ret (status, discipline, seal) (T, ev)"
    "(\<lambda>st. Ret () (if seal \<and> discipline \<and> qx_enforce st then kill_cartridge True st else st))
       (q\<lparr>qx_errno := k, qx_model := T\<rparr>) = Ret a q'"
    using assms(6) [unfolded Quixote_add_async_event_def] assms(5) by (rule update_model_cases)
  have T: "\<not> ts_poisoned T" using TSEM_update_pid [OF assms(4,3) m(2)] by simp
  have S: "sgx_ready (qx_model q) (qx_errno q) S" "sg_control S = qx_control q"
    using assms(1) by (simp_all add: sgx_agrees_def)
  from SanchoSGX_update_Ret(1) [OF S(1), of s t u event x k status discipline seal T ev] p m(1,2) T
  have "SanchoSGX_update s (Some (hs_of t)) True S =
      Ret (discipline, seal) (sgx_with \<lparr>en_model = Some T, en_freed = [], en_errno = k\<rparr> (sg_control S) S)" by simp
  with S m(3) show ?thesis by (auto simp: sgx_agrees_def kill_cartridge_def)
qed

text \<open>
  C14: The model is sealed and the verdict on an event cannot be written to the control file.  The
  orchestrator in user space fails, and then kills the workload.  Through the enclave the update succeeds: the function
  outside stores its failure in a structure that nobody reads.
\<close>

theorem failed_verdict_unnoticed:
  assumes "sgx_agrees S q" "same_parameters s env" "\<not> qx_model_error q"
    and "SecurityEvent_parse ((SecurityEvent_Init (env_cell env), hs_of t), qx_errno q) = Ret u ((event, x), k)"
    and "TSEM_update (cr_sha (env_crypto env)) (qx_model q, event) = Ret (status, discipline, True) (T, ev)" "\<not> ts_poisoned T"
    and "TSEMcontrol_verdict (\<not> discipline) (env_control env) (ts_discipline_pid T) (qx_control q) = Fail c"
  shows "Quixote_add_event env (hs_of t) q = Fail (q\<lparr>qx_errno := k, qx_model := T, qx_control := c\<rparr>) \<and>
     SanchoSGX_update s (Some (hs_of t)) False S =
       Ret (discipline, True) (sgx_with \<lparr>en_model = Some T, en_freed = [], en_errno = k\<rparr> c S)"
proof
  have pid: "TSEM_discipline_pid T = Ret (ts_discipline_pid T) T" using assms(6) by (simp add: TSEM_discipline_pid_def)
  show "Quixote_add_event env (hs_of t) q = Fail (q\<lparr>qx_errno := k, qx_model := T, qx_control := c\<rparr>)"
    using assms(3-5,7) pid
    by (cases discipline)
      (simp_all add: Quixote_add_event_def parse_update_def update_model_def on_control_def TSEMcontrol_verdict_def)
  have S: "sgx_ready (qx_model q) (qx_errno q) S" "sg_control S = qx_control q"
    using assms(1) by (simp_all add: sgx_agrees_def)
  from SanchoSGX_update_Ret(2) [OF S(1), of s t u event x k status discipline True T ev c] assms(2,4-7) S(2)
  show "SanchoSGX_update s (Some (hs_of t)) False S =
       Ret (discipline, True) (sgx_with \<lparr>en_model = Some T, en_freed = [], en_errno = k\<rparr> c S)"
    by (simp add: same_parameters_def)
qed

theorem failed_verdict_unnoticed_witness:
  "\<exists>q c discipline T k. Quixote_add_event (demo_env\<lparr>env_control := \<lambda>_. False\<rparr>) (hs_of demo_line)
       (demo_start\<lparr>qx_model := TSEM_seal TSEM_Init\<rparr>) = Fail q \<and>
     SanchoSGX_update (demo_senv\<lparr>sn_control := \<lambda>_. False\<rparr>) (Some (hs_of demo_line)) False
       (sgx_with \<lparr>en_model = Some (TSEM_seal TSEM_Init), en_freed = [], en_errno = 0\<rparr> demo_control demo_sgx) =
       Ret (discipline, True) (sgx_with \<lparr>en_model = Some T, en_freed = [], en_errno = k\<rparr> c
         (sgx_with \<lparr>en_model = Some (TSEM_seal TSEM_Init), en_freed = [], en_errno = 0\<rparr> demo_control demo_sgx))"
proof -
  let ?m = "TSEM_seal TSEM_Init" and ?env = "demo_env\<lparr>env_control := \<lambda>_. False\<rparr>"
  let ?S = "sgx_with \<lparr>en_model = Some ?m, en_freed = [], en_errno = 0\<rparr> demo_control demo_sgx"
  have m: "model_ok demo_sha {} ?m"
    using model_ok_Init [OF demo_sha_ok] by (simp add: model_ok_def TSEM_seal_def has_pseudonyms_def)
  from model_learns [OF this demo_parsed_good] obtain status discipline seal T ev where
    up: "TSEM_update demo_sha (?m, demo_parsed) = Ret (status, discipline, seal) (T, ev)"
    by (auto simp: model_learn_def split: res.splits prod.splits)
  have ok: "tsem_ok ?m" using m by (simp add: model_ok_def)
  have T: "\<not> ts_poisoned T" using TSEM_update_pid [OF ok demo_sha_ok up] by simp
  have seal: "seal = True" using TSEM_update_verdict(3) [OF ok demo_sha_ok up] by (simp add: TSEM_seal_def)
  obtain c where c: "TSEMcontrol_verdict (\<not> discipline) (\<lambda>_. False) (ts_discipline_pid T) demo_control = Fail c"
    using control_verdict(2) [of demo_control "''00''" "\<lambda>_. False"] demo_control_ready(1)
    by (auto simp: control_ready_def)
  have agrees: "sgx_agrees ?S (demo_start\<lparr>qx_model := ?m\<rparr>)" "same_parameters (demo_senv\<lparr>sn_control := \<lambda>_. False\<rparr>) ?env"
    using sgx_with_ready [OF demo_sgx_ready, of ?m 0 demo_control]
    by (simp_all add: sgx_agrees_def same_parameters_def demo_senv_def demo_env_def)
  from failed_verdict_unnoticed [OF agrees, of "demo_line" "()" demo_parsed "hs_of demo_line" 0 status discipline T ev c]
  show ?thesis using demo_verdict(3) up seal T c by auto
qed

end
