(* ===== verification/QuixoteSGXProps.thy ===== *)
theory QuixoteSGXProps
  imports QuixoteSGX SanchoSGXProps QuixoteModels
begin

text \<open>
  The orchestrator with the enclave: it does not pass on any event, a long log entry makes it fail and then leaves the
  enclave without defined behaviour, the trajectory file repeats itself, and the model that it saves is the one that the
  orchestrator in user space saves.
\<close>

section \<open>Events\<close>

definition SGX_with_line :: "string \<Rightarrow> SGX_State \<Rightarrow> SGX_State" where
  "SGX_with_line l st = st\<lparr>gx_event := (gx_event st)\<lparr>te_event := hs_of l\<rparr>\<rparr>"

lemma SGX_with_line_simps [simp]:
  "gx_event (SGX_with_line l st) = (gx_event st)\<lparr>te_event := hs_of l\<rparr>" "gx_model (SGX_with_line l st) = gx_model st"
  by (simp_all add: SGX_with_line_def)

text \<open>What an object that is ready does with a string that was never filled.\<close>

lemma empty_update_Undef:
  assumes "sgx_ready m n S"
  shows "SanchoSGX_update env (Some hs_empty) async S = Undef" "SanchoSGX_add_ai_event env (Some hs_empty) S = Undef"
proof -
  have empty: "hs_get hs_empty = None" "hs_size hs_empty = 0" by (simp_all add: hs_get_def hs_empty_def hs_size_def hs_chars_def)
  have "ecall_table env SGX_ocalls 1 (Ecall1 (Some (Outside, \<lparr>e1_retn = False, e1_debug = False, e1_async = async,
      e1_discipline = False, e1_sealed = False, e1_update = None\<rparr>))) (sg_enclave S, sg_control S) = Undef"
    by (simp add: ecall_table_def sgx_update_model_def SGXidf_untrusted_region_def sgx_is_within_enclave_def)
  from sgx_call_ready(2) [OF assms this] show "SanchoSGX_update env (Some hs_empty) async S = Undef"
    using ready_poisoned [OF assms] by (simp add: SanchoSGX_update_def empty)
  have "ecall_table env SGX_ocalls 14 (Ecall14 (Some (Outside, \<lparr>e14_retn = False, e14_ai_event = None, e14_size = 1\<rparr>)))
      (sg_enclave S, sg_control S) = Undef"
    by (simp add: ecall_table_def sgx_add_ai_event_def SGXidf_untrusted_region_def sgx_is_within_enclave_def)
  from sgx_call_ready(2) [OF assms this] show "SanchoSGX_add_ai_event env (Some hs_empty) S = Undef"
    using ready_poisoned [OF assms] by (simp add: SanchoSGX_add_ai_event_def empty)
qed

text \<open>
  C12: The orchestrator has an enclave that is in order.  No event, asynchronous event or log entry that
  the kernel exports is modeled: the program passes on a string that it never filled, and the enclave reads through
  a NULL pointer.
\<close>

theorem sgx_models_no_event:
  assumes "sgx_ready m n (gx_model st)"
    and "exported_type (gx_event (SGX_with_line l st)) \<in> {TSEM_EVENT_EVENT, TSEM_EVENT_ASYNC_EVENT, TSEM_EVENT_LOG}"
  shows "SGX_process_event env (SGX_with_line l st) = Undef"
proof -
  obtain type e where e: "TSEMevent_extract_export (TSEMevent_reset (gx_event (SGX_with_line l st))) = Ret type e"
    "type \<in> {TSEM_EVENT_EVENT, TSEM_EVENT_ASYNC_EVENT, TSEM_EVENT_LOG}"
    using assms(2) by (auto simp: exported_type_def split: res.splits)
  then show ?thesis
    by (auto simp: SGX_process_event_def SGX_add_event_def SGX_add_async_event_def SGX_add_TSEM_event_def on_sgx_def
        empty_update_Undef [OF assms(1)])
qed

definition demo_gx :: SGX_State where
  "demo_gx = SGX_Init True demo_sgx"

definition demo_genv :: sgx_environment where
  "demo_genv = \<lparr>ge_sgx = demo_senv, ge_stack = demo_stack, ge_mgmt = \<lambda>_. True, ge_file = \<lambda>_. True\<rparr>"

theorem sgx_models_no_event_witness:
  "SGX_process_event demo_genv (SGX_with_line demo_line demo_gx) = Undef \<and>
   (\<exists>q. process_event demo_env (with_line demo_line demo_start) = Ret () q)"
proof
  have "gx_event demo_gx = qx_event demo_start" "gx_model demo_gx = demo_sgx" by (simp_all add: demo_gx_def SGX_Init_def)
  then show "SGX_process_event demo_genv (SGX_with_line demo_line demo_gx) = Undef"
    using sgx_models_no_event [of TSEM_Init 0 demo_gx demo_line demo_genv] demo_sgx_ready demo_line_exported by simp
  show "\<exists>q. process_event demo_env (with_line demo_line demo_start) = Ret () q"
    using demo_line_processed by (auto simp: res_simps)
qed

section \<open>Methods of an object in order\<close>

text \<open>The object with another model in its enclave.\<close>

definition sgx_model :: "TSEM_State \<Rightarrow> SanchoSGX_State \<Rightarrow> SanchoSGX_State" where
  "sgx_model m S = sgx_with ((sg_enclave S)\<lparr>en_model := Some m\<rparr>) (sg_control S) S"

lemma sgx_model_simps [simp]:
  "sgx_working (sgx_model m S) = sgx_working S" "sg_control (sgx_model m S) = sg_control S"
  "sg_enclave (sgx_model m S) = (sg_enclave S)\<lparr>en_model := Some m\<rparr>"
  "sgx_model m (sgx_model m' S) = sgx_model m S" "sgx_model m (sgx_with en c S) = sgx_with (en\<lparr>en_model := Some m\<rparr>) c S"
  "sgx_with en c (sgx_model m S) = sgx_with en c S"
  by (simp_all add: sgx_model_def)

lemma sgx_model_ready [simp]: "sgx_ready m n S \<Longrightarrow> sgx_ready m' n (sgx_model m' S)"
  by (simp add: sgx_ready_def)

lemma sgx_model_same: "sgx_ready m n S \<Longrightarrow> sgx_model m S = S"
  using ready_enclave [of m n S] sgx_with_same [of S] by (simp add: sgx_model_def)

lemma working_sizes:
  assumes "sgx_working S" "en_model (sg_enclave S) = Some m"
  shows "SanchoSGX_te_size env S = Ret (TSEM_events_size m) S"
    "SanchoSGX_trajectory_size env S = Ret (TSEM_trajectory_size m) S"
    "SanchoSGX_forensics_size env S = Ret (TSEM_forensics_size m) S"
    "SanchoSGX_size env S = Ret (TSEM_points_size m) S"
proof -
  have r: "sgx_get_number env type S = Ret (enclave_get_size type (sg_enclave S)) S" for type
  proof -
    have "sgx_call env 4 (Ecall4 (Some (Outside, \<lparr>e4_type = type, e4_size = 0\<rparr>))) S =
        Ret (Ecall4 (Some (Outside, \<lparr>e4_type = type, e4_size = enclave_get_size type (sg_enclave S)\<rparr>)))
          (sgx_with (sg_enclave S) (sg_control S) S)"
      by (rule sgx_call_working(1) [OF assms(1)])
        (simp add: ecall_table_def sgx_get_size_def CHECK_REF_POINTER_def sgx_is_outside_enclave_def)
    then show ?thesis
      using assms(1) by (simp add: sgx_get_number_def sgx_working_def SGX_ocall_state_def sgx_with_same)
  qed
  show "SanchoSGX_te_size env S = Ret (TSEM_events_size m) S"
    "SanchoSGX_trajectory_size env S = Ret (TSEM_trajectory_size m) S"
    "SanchoSGX_forensics_size env S = Ret (TSEM_forensics_size m) S"
    "SanchoSGX_size env S = Ret (TSEM_points_size m) S"
    using assms
    by (simp_all add: SanchoSGX_te_size_def SanchoSGX_trajectory_size_def SanchoSGX_forensics_size_def SanchoSGX_size_def
        r enclave_get_size_def selector_of_def sgx_working_def)
qed

lemma working_rewinds:
  assumes "sgx_working S" "en_model (sg_enclave S) = Some m"
  shows "SanchoSGX_rewind_te env S = Ret () (sgx_model (TSEM_rewind_TSEM_event m) S)"
    "SanchoSGX_rewind_event env S = Ret () (sgx_model (TSEM_rewind_event m) S)"
    "SanchoSGX_rewind_points env S = Ret () (sgx_model (TSEM_rewind_points m) S)"
    "SanchoSGX_rewind_forensics env S = Ret () (sgx_model (TSEM_rewind_forensics m) S)"
proof -
  have r: "sgx_rewind_cursor env type S = Ret () (sgx_model m' S)"
    if "enclave_rewind type (sg_enclave S) = Ret () ((sg_enclave S)\<lparr>en_model := Some m'\<rparr>)" for type m'
  proof -
    have "sgx_call env 8 (Ecall8 (Some (Outside, \<lparr>e8_type = type\<rparr>))) S =
        Ret (Ecall8 (Some (Outside, \<lparr>e8_type = type\<rparr>))) (sgx_with ((sg_enclave S)\<lparr>en_model := Some m'\<rparr>) (sg_control S) S)"
      by (rule sgx_call_working(1) [OF assms(1)])
        (simp add: ecall_table_def sgx_rewind_def CHECK_REF_POINTER_def sgx_is_outside_enclave_def that)
    then show ?thesis using assms(1) by (simp add: sgx_rewind_cursor_def sgx_model_def sgx_working_def)
  qed
  show "SanchoSGX_rewind_te env S = Ret () (sgx_model (TSEM_rewind_TSEM_event m) S)"
    "SanchoSGX_rewind_event env S = Ret () (sgx_model (TSEM_rewind_event m) S)"
    "SanchoSGX_rewind_points env S = Ret () (sgx_model (TSEM_rewind_points m) S)"
    "SanchoSGX_rewind_forensics env S = Ret () (sgx_model (TSEM_rewind_forensics m) S)"
    unfolding SanchoSGX_rewind_te_def SanchoSGX_rewind_event_def SanchoSGX_rewind_points_def SanchoSGX_rewind_forensics_def
    by (rule r, simp add: enclave_rewind_def selector_of_def on_enclave_model_def assms(2))+
qed

text \<open>A text that the enclave stored into the array of 768 bytes, and what the caller makes of it.\<close>

lemma c_string_area:
  assumes "NUL \<notin> set t" "length t < 768"
  shows "c_string (overwrite t (replicate EVENT_SIZE NUL)) = Some t"
proof -
  obtain k where "768 - length t = Suc k" using assms(2) by (metis Suc_diff_Suc)
  then have "overwrite t (replicate EVENT_SIZE NUL) = t @ NUL # replicate k NUL"
    by (simp add: overwrite_def EVENT_SIZE_def)
  then show ?thesis using assms(1) by (simp add: c_string_def cstring_append)
qed

lemma working_text:
  assumes "sgx_working S" "\<not> h_poisoned es"
  shows "enclave_get_event (word_of_int type) EVENT_SIZE (sg_enclave S) = Ret () (overwrite t (replicate EVENT_SIZE NUL), en) \<Longrightarrow>
      NUL \<notin> set t \<Longrightarrow> length t < 768 \<Longrightarrow> t \<noteq> [] \<Longrightarrow>
      sgx_get_text env type (S, Some es) = Ret () (sgx_with en (sg_control S) S, Some (hs_of (hs_chars es @ t)))"
    and "enclave_get_event (word_of_int type) EVENT_SIZE (sg_enclave S) = Fail (area, en) \<Longrightarrow>
      sgx_get_text env type (S, Some es) = Fail (sgx_with en (sg_control S) S, Some es)"
    and "enclave_get_event (word_of_int type) EVENT_SIZE (sg_enclave S) = Undef \<Longrightarrow> sgx_get_text env type (S, Some es) = Undef"
proof -
  let ?arg = "\<lparr>e9_retn = False, e9_type = type, e9_event = []\<rparr>"
  note enter = ecall_table_def sgx_get_event_def CHECK_REF_POINTER_def sgx_is_outside_enclave_def
  note call = sgx_call_working [OF assms(1), of env 9 "Ecall9 (Some (Outside, ?arg))"]
  have S: "\<not> sg_poisoned S" using assms(1) by (simp add: sgx_working_def)
  show "sgx_get_text env type (S, Some es) = Ret () (sgx_with en (sg_control S) S, Some (hs_of (hs_chars es @ t)))"
    if "enclave_get_event (word_of_int type) EVENT_SIZE (sg_enclave S) = Ret () (overwrite t (replicate EVENT_SIZE NUL), en)"
      "NUL \<notin> set t" "length t < 768" "t \<noteq> []"
    using call(1) [of "Ecall9 (Some (Outside, ?arg\<lparr>e9_retn := True, e9_event := overwrite t (replicate EVENT_SIZE NUL)\<rparr>))"
        en "sg_control S"] that assms(2) S c_string_area [OF that(2,3)]
    by (simp add: enter sgx_get_text_def hs_add_ok)
  show "sgx_get_text env type (S, Some es) = Fail (sgx_with en (sg_control S) S, Some es)"
    if "enclave_get_event (word_of_int type) EVENT_SIZE (sg_enclave S) = Fail (area, en)"
    using call(1) [of "Ecall9 (Some (Outside, ?arg\<lparr>e9_retn := False, e9_event := area\<rparr>))" en "sg_control S"] that assms(2) S
    by (simp add: enter sgx_get_text_def)
  show "sgx_get_text env type (S, Some es) = Undef"
    if "enclave_get_event (word_of_int type) EVENT_SIZE (sg_enclave S) = Undef"
    using call(2) that assms(2) S by (simp add: enter sgx_get_text_def)
qed

end
