(* ===== verification/QuixoteMcu.thy ===== *)
theory QuixoteMcu
  imports QuixoteXen
begin

text \<open>
  The orchestrator of a workload that is modeled on a micro-controller (\<open>Quixote/quixote-mcu.c\<close>), an older version of
  that for Xen.  Where a function is the same, its definition is that of \<open>QuixoteXen\<close>; the duct is any state here, too.
\<close>

section \<open>The orchestrator: events of the workload\<close>

definition Mcu_Init :: "bool \<Rightarrow> int \<Rightarrow> 'd \<Rightarrow> 'd Xen_State" where
  "Mcu_Init = Xen_Init"

definition Mcu_kill_cartridge :: "bool \<Rightarrow> 'd Xen_State \<Rightarrow> 'd Xen_State" where
  "Mcu_kill_cartridge = Xen_kill_cartridge"

definition Mcu_add_aggregate :: "'d xen_environment \<Rightarrow> 'd Xen_State \<Rightarrow> (unit, 'd Xen_State) res" where
  "Mcu_add_aggregate = Xen_add_aggregate"

text \<open>
  What is sent is an event in the notation of the encoder, not the line of the kernel.  An unknown event is only
  reported: the empty text that is sent then is a NULL pointer.
\<close>

definition Mcu_process_event :: "'d xen_environment \<Rightarrow> 'd Xen_State \<Rightarrow> (unit, 'd Xen_State) res" where
  "Mcu_process_event env st =
     (case TSEMevent_extract_export (TSEMevent_reset (xq_event st)) of
        Undef \<Rightarrow> Undef
      | Fail ev \<Rightarrow> Undef
      | Ret type ev \<Rightarrow>
          if type = TSEM_EVENT_AGGREGATE then Mcu_add_aggregate env (st\<lparr>xq_event := ev\<rparr>)
          else
            (case (if type = TSEM_EVENT_EVENT \<or> type = TSEM_EVENT_ASYNC_EVENT
                   then steps
                     [(\<lambda>(ev, update). zoom (\<lambda>ev. (ev, update)) (TSEMevent_extract_event ev)),
                      attempt (\<lambda>(ev, update). zoom (\<lambda>u. (ev, u)) (hs_add ''export '' update)),
                      TSEMevent_encode_event] (ev, hs_empty)
                   else if type = TSEM_EVENT_LOG then TSEMevent_encode_log (ev, hs_empty)
                   else Ret () (ev, hs_empty)) of
               Undef \<Rightarrow> Undef
             | Fail (ev1, _) \<Rightarrow> Fail (st\<lparr>xq_event := ev1\<rparr>)
             | Ret _ (ev1, update) \<Rightarrow>
                 (case hs_get update of
                    None \<Rightarrow> Undef
                  | Some t \<Rightarrow> res_bind (transact env (t @ [NUL]) (st\<lparr>xq_event := ev1\<rparr>)) (follow_verdict env type t))))"

section \<open>Management commands and model files\<close>

definition Mcu_send_list :: "'d xen_environment \<Rightarrow> string \<Rightarrow> 'd Xen_State \<Rightarrow> (unit, 'd Xen_State) res" where
  "Mcu_send_list = Xen_send_list"

definition Mcu_send_map :: "'d xen_environment \<Rightarrow> 'd Xen_State \<Rightarrow> (unit, 'd Xen_State) res" where
  "Mcu_send_map = Xen_send_map"

definition Mcu_process_command :: "'d xen_environment \<Rightarrow> 'd Xen_State \<Rightarrow> (unit, 'd Xen_State) res" where
  "Mcu_process_command = Xen_process_command"

definition Mcu_load_model :: "'d xen_environment \<Rightarrow> string list option \<Rightarrow> 'd Xen_State \<Rightarrow> (unit, 'd Xen_State) res" where
  "Mcu_load_model = Xen_load_model"

text \<open>Each event is written as it was received, with its NUL.\<close>

fun Mcu_write_events ::
  "'d xen_environment \<Rightarrow> nat \<Rightarrow> 'd Xen_State \<times> byte list list \<Rightarrow> (unit, 'd Xen_State \<times> byte list list) res" where
  "Mcu_write_events env 0 w = Ret () w"
| "Mcu_write_events env (Suc cnt) w =
     (case w of (st, file) \<Rightarrow>
        res_bind (zoom (\<lambda>st. (st, file)) (duct_receive env st)) (\<lambda>msg (st, file).
          if xe_file env file then Mcu_write_events env cnt (st, file @ [msg @ end_line])
          else Fail (st, file)))"

definition Mcu_output_trajectory ::
  "'d xen_environment \<Rightarrow> bool \<Rightarrow> 'd Xen_State \<Rightarrow> (unit, 'd Xen_State \<times> byte list list) res" where
  "Mcu_output_trajectory env opened st =
     (if \<not> opened then Fail (st, [])
      else res_bind (zoom (\<lambda>st. (st, [])) (transact env ''show trajectory'' st)) (\<lambda>msg.
        Mcu_write_events env (le_value (take 4 msg))))"

text \<open>A text is written with \<open>write_String\<close>.  Here a state text and the end of its line are put together first.\<close>

definition write_String :: "(byte list list \<Rightarrow> bool) \<Rightarrow> 'd Xen_State \<times> hstr \<times> byte list list \<Rightarrow>
   (unit, 'd Xen_State \<times> hstr \<times> byte list list) res" where
  "write_String up = (\<lambda>(st, str, file).
     (case hs_get str of
        None \<Rightarrow> Undef
      | Some t \<Rightarrow> if up file then Ret () (st, str, file @ [t]) else Fail (st, str, file)))"

definition add_text :: "string \<Rightarrow> 'd Xen_State \<times> hstr \<times> byte list list \<Rightarrow> (unit, 'd Xen_State \<times> hstr \<times> byte list list) res" where
  "add_text t = (\<lambda>(st, str, file). zoom (\<lambda>s. (st, s, file)) (hs_add t str))"

definition clear_text :: "'d Xen_State \<times> hstr \<times> byte list list \<Rightarrow> (unit, 'd Xen_State \<times> hstr \<times> byte list list) res" where
  "clear_text = assign (\<lambda>(st, str, file). (st, hs_reset str, file))"

fun Mcu_write_points ::
  "'d xen_environment \<Rightarrow> nat \<Rightarrow> 'd Xen_State \<times> hstr \<times> byte list list \<Rightarrow>
   (unit, 'd Xen_State \<times> hstr \<times> byte list list) res" where
  "Mcu_write_points env 0 w = Ret () w"
| "Mcu_write_points env (Suc cnt) w =
     (case w of (st, rest) \<Rightarrow>
        res_bind (zoom (\<lambda>st. (st, rest)) (duct_receive env st)) (\<lambda>msg w.
          (case c_string msg of
             None \<Rightarrow> Undef
           | Some t \<Rightarrow>
               res_bind
                 (steps
                    [clear_text, attempt (add_text ''state ''), attempt (add_text t), add_text end_line,
                     write_String (xe_file env)] w)
                 (\<lambda>_. Mcu_write_points env cnt))))"

definition Mcu_output_model ::
  "'d xen_environment \<Rightarrow> bool \<Rightarrow> 'd Xen_State \<Rightarrow> (unit, 'd Xen_State \<times> byte list list) res" where
  "Mcu_output_model env opened st =
     (if \<not> opened then Fail (st, [])
      else zoom (\<lambda>(st, str, file). (st, file))
        (steps
           [add_text ''aggregate '',
            (\<lambda>(st, str, file). case xq_aggregate st of
               None \<Rightarrow> Undef
             | Some a \<Rightarrow> Ret () (st, encode_buffer (if b_poisoned a then [] else b_data a) str, file)),
            add_text end_line,
            write_String (xe_file env),
            (\<lambda>(st, rest). res_bind (zoom (\<lambda>st. (st, rest)) (transact env ''show coefficients'' st))
               (\<lambda>msg. Mcu_write_points env (le_value (take 4 msg)))),
            clear_text,
            add_text (''seal'' @ end_line),
            write_String (xe_file env),
            clear_text,
            add_text (''end'' @ end_line),
            write_String (xe_file env)] (st, hs_empty, [])))"

section \<open>The monitor\<close>

partial_function (option) Mcu_drain_events ::
  "'d xen_environment \<Rightarrow> 'd Xen_State \<Rightarrow> (unit, 'd Xen_State) res option" where
  "Mcu_drain_events env st =
     (case TSEMevent_fetch_event (xq_event st, True) of
        Undef \<Rightarrow> Some Undef
      | Fail (ev, _) \<Rightarrow> Some (Ret () (Mcu_kill_cartridge False (st\<lparr>xq_event := ev\<rparr>)))
      | Ret _ (ev, event) \<Rightarrow>
          (case Mcu_process_event env (st\<lparr>xq_event := ev\<rparr>) of
             Undef \<Rightarrow> Some Undef
           | Fail st1 \<Rightarrow> Some (Ret () (st1\<lparr>xq_model_error := True\<rparr>))
           | Ret _ st1 \<Rightarrow> if event then Mcu_drain_events env st1 else Some (Ret () st1)))"

definition Mcu_monitor_step ::
  "'d xen_environment \<Rightarrow> monitor_input \<Rightarrow> 'd Xen_State \<Rightarrow> (monitor_answer, 'd Xen_State) res option" where
  "Mcu_monitor_step env inp st =
     (case inp of
        Event_input available bs \<Rightarrow>
          (case TSEMevent_read_event available bs (xq_event st) of
             Undef \<Rightarrow> Some Undef
           | Fail ev \<Rightarrow> Some (Ret (Ends False) (Mcu_kill_cartridge False (st\<lparr>xq_event := ev\<rparr>)))
           | Ret _ ev \<Rightarrow>
               map_option
                 (\<lambda>r. res_bind r (\<lambda>_ st1.
                    if xq_model_error st1 then Ret (Ends False) (Mcu_kill_cartridge False st1) else Ret Goes_on st1))
                 (Mcu_drain_events env (st\<lparr>xq_event := ev\<rparr>)))
      | _ \<Rightarrow> Xen_monitor_step env inp st)"

fun Mcu_child_monitor ::
  "'d xen_environment \<Rightarrow> monitor_input list \<Rightarrow> 'd Xen_State \<Rightarrow> (unit, 'd Xen_State) res option" where
  "Mcu_child_monitor env [] st = Some (Ret () st)"
| "Mcu_child_monitor env (inp # inputs) st =
     (case Mcu_monitor_step env inp st of
        None \<Rightarrow> None
      | Some Undef \<Rightarrow> Some Undef
      | Some (Fail st1) \<Rightarrow> Some (Fail st1)
      | Some (Ret answer st1) \<Rightarrow>
          (case answer of
             Goes_on \<Rightarrow> Mcu_child_monitor env inputs st1
           | Ends retn \<Rightarrow> Some (if retn then Ret () st1 else Fail st1)))"

text \<open>At the end of the program the micro-controller is told to reset; nobody waits for an answer.\<close>

definition send_reset :: "'d xen_environment \<Rightarrow> 'd Xen_State \<Rightarrow> 'd Xen_State" where
  "send_reset env st =
     (case duct_send env (''reset'' @ [NUL]) st of Ret _ st1 \<Rightarrow> st1 | Fail st1 \<Rightarrow> st1 | Undef \<Rightarrow> st)"

end
