(* ===== verification/SanchoNordic.thy ===== *)
theory SanchoNordic
  imports Sancho
begin

text \<open>
  The interpreter of a micro-controller (\<open>Sancho/Nordic/NRF52840-DK/Sancho/sancho-interpreter.c\<close>; that of the other board,
  \<open>NRF52840-DONGLE\<close>, differs in its lights).  Where a handler is the same as on Xen, its definition is that of \<open>Sancho\<close>.
\<close>

definition Nordic_Init :: "int \<Rightarrow> Sancho_State" where
  "Nordic_Init errno = on_model TSEM_disable_logging (Sancho_Init errno)"

text \<open>
  The event is always freed, which is sound because the model that does not log keeps none.  The notification of a
  violation over a second duct depends on \<open>Cellular_Enabled\<close>, which nothing sets.
\<close>

definition Nordic_add_event ::
  "crypto \<Rightarrow> Cell_State \<Rightarrow> (byte list list \<Rightarrow> bool) \<Rightarrow> Sancho_State \<Rightarrow> (unit, Sancho_State) res" where
  "Nordic_add_event = add_event"

definition Nordic_add_aggregate ::
  "crypto \<Rightarrow> (byte list list \<Rightarrow> bool) \<Rightarrow> Sancho_State \<Rightarrow> (unit, Sancho_State) res" where
  "Nordic_add_aggregate = add_aggregate"

text \<open>The whole message is the text of the event.\<close>

definition Nordic_add_security ::
  "(byte list list \<Rightarrow> bool) \<Rightarrow> Sancho_State \<Rightarrow> (unit, Sancho_State) res" where
  "Nordic_add_security up st =
     (if b_poisoned (sx_bufr st) then Undef
      else
        (case c_string (b_data (sx_bufr st)) of
           None \<Rightarrow> Undef
         | Some t \<Rightarrow>
             (case TSEM_add_TSEM_event (hs_of t) (sx_model st) of
                Undef \<Rightarrow> Undef
              | Fail model \<Rightarrow> Ret () (st\<lparr>sx_model := model\<rparr>)
              | Ret _ model \<Rightarrow> Ret () (send_ok up (st\<lparr>sx_model := model\<rparr>)))))"

definition Nordic_do_load ::
  "crypto \<Rightarrow> (byte list list \<Rightarrow> bool) \<Rightarrow> Sancho_State \<Rightarrow> (unit, Sancho_State) res" where
  "Nordic_do_load = do_load"

text \<open>A \<open>size_t\<close> has 4 bytes here.  The loops are those of \<open>Sancho\<close>.\<close>

definition Nordic_send_count ::
  "(byte list list \<Rightarrow> bool) \<Rightarrow> u32 \<Rightarrow> Sancho_State \<Rightarrow> (unit, Sancho_State) res" where
  "Nordic_send_count up cnt st = send_Buffer up (fill (u32_bytes cnt) st)"

definition Nordic_point_count :: "bool \<Rightarrow> TSEM_State \<Rightarrow> u32" where
  "Nordic_point_count type model =
     (if type then of_nat (TSEM_points_size model) - of_nat (TSEM_forensics_size model)
      else of_nat (TSEM_forensics_size model))"

definition Nordic_send_trajectory :: "(byte list list \<Rightarrow> bool) \<Rightarrow> Sancho_State \<Rightarrow> (unit, Sancho_State) res" where
  "Nordic_send_trajectory up st =
     (let cnt = TSEM_trajectory_size (sx_model st) in
      steps
        [Nordic_send_count up (of_nat cnt), assign (on_model TSEM_rewind_event), trajectory_loop up cnt hs_empty] st)"

definition Nordic_send_trajectory_coefficients ::
  "(byte list list \<Rightarrow> bool) \<Rightarrow> bool \<Rightarrow> Sancho_State \<Rightarrow> (unit, Sancho_State) res" where
  "Nordic_send_trajectory_coefficients up type st =
     steps
       [Nordic_send_count up (Nordic_point_count type (sx_model st)),
        assign (on_model TSEM_rewind_points),
        coefficients_loop up type (TSEM_points_size (sx_model st))] st"

definition Nordic_send_trajectory_counts ::
  "(byte list list \<Rightarrow> bool) \<Rightarrow> byte list \<Rightarrow> bool \<Rightarrow> Sancho_State \<Rightarrow> (unit, Sancho_State) res" where
  "Nordic_send_trajectory_counts up stack type st =
     steps
       [Nordic_send_count up (Nordic_point_count type (sx_model st)),
        assign (on_model TSEM_rewind_points),
        counts_loop up type (TSEM_points_size (sx_model st)) stack] st"

definition Nordic_send_forensics :: "(byte list list \<Rightarrow> bool) \<Rightarrow> Sancho_State \<Rightarrow> (unit, Sancho_State) res" where
  "Nordic_send_forensics up st =
     (let cnt = TSEM_forensics_size (sx_model st) in
      steps
        [Nordic_send_count up (of_nat cnt), assign (on_model TSEM_rewind_forensics), forensics_loop up cnt hs_empty] st)"

definition Nordic_send_events :: "(byte list list \<Rightarrow> bool) \<Rightarrow> Sancho_State \<Rightarrow> (unit, Sancho_State) res" where
  "Nordic_send_events up st =
     (let cnt = TSEM_events_size (sx_model st) in
      steps
        [Nordic_send_count up (of_nat cnt), assign (on_model TSEM_rewind_TSEM_event), events_loop up cnt] st)"

definition Nordic_dispatch ::
  "crypto \<Rightarrow> Cell_State \<Rightarrow> byte list \<Rightarrow> (byte list list \<Rightarrow> bool) \<Rightarrow> sancho_command \<Rightarrow>
   Sancho_State \<Rightarrow> (unit, Sancho_State) res" where
  "Nordic_dispatch cr junk stack up cmd =
     (case cmd of
        export_event \<Rightarrow> Nordic_add_event cr junk up
      | aggregate_event \<Rightarrow> Nordic_add_aggregate cr up
      | seal_event \<Rightarrow> (\<lambda>st. Ret () (send_ok up (on_model TSEM_seal st)))
      | log_event \<Rightarrow> Nordic_add_security up
      | sancho_load \<Rightarrow> Nordic_do_load cr up
      | show_measurement \<Rightarrow> send_measurement up
      | show_state \<Rightarrow> send_state cr up
      | show_trajectory \<Rightarrow> Nordic_send_trajectory up
      | show_coefficients \<Rightarrow> Nordic_send_trajectory_coefficients up True
      | show_counts \<Rightarrow> Nordic_send_trajectory_counts up stack True
      | show_forensics \<Rightarrow> Nordic_send_forensics up
      | show_forensics_coefficients \<Rightarrow> Nordic_send_trajectory_coefficients up False
      | show_forensics_counts \<Rightarrow> Nordic_send_trajectory_counts up stack False
      | show_events \<Rightarrow> Nordic_send_events up
      | show_map \<Rightarrow> Ret ()
      | enable_cell \<Rightarrow> (\<lambda>st. Ret () (send_ok up st))
      | sancho_reset \<Rightarrow> Ret ())"

text \<open>One pass of the loop: whether the interpreter goes on, and its state.\<close>

definition Nordic_step ::
  "crypto \<Rightarrow> Cell_State \<Rightarrow> byte list \<Rightarrow> (byte list list \<Rightarrow> bool) \<Rightarrow> byte list \<Rightarrow>
   Sancho_State \<Rightarrow> (bool \<times> Sancho_State) option" where
  "Nordic_step cr junk stack up msg st =
     (let st1 = st\<lparr>sx_bufr := (case buf_add msg (sx_bufr st) of
                                 Ret _ b \<Rightarrow> b | Fail b \<Rightarrow> b | Undef \<Rightarrow> sx_bufr st)\<rparr>
      in (case get_command (sx_bufr st1) of
            None \<Rightarrow> None
          | Some None \<Rightarrow> Some (True, reset_bufr st1)
          | Some (Some cmd) \<Rightarrow>
              map_option (\<lambda>st2. (cmd \<noteq> sancho_reset, reset_bufr st2))
                (handler (Nordic_dispatch cr junk stack up cmd st1))))"

fun Nordic_interpreter ::
  "crypto \<Rightarrow> Cell_State \<Rightarrow> byte list \<Rightarrow> (byte list list \<Rightarrow> bool) \<Rightarrow> byte list list \<Rightarrow>
   Sancho_State \<Rightarrow> Sancho_State option" where
  "Nordic_interpreter cr junk stack up [] st = Some st"
| "Nordic_interpreter cr junk stack up (msg # msgs) st =
     (case Nordic_step cr junk stack up msg st of
        None \<Rightarrow> None
      | Some (connected, st1) \<Rightarrow>
          if connected then Nordic_interpreter cr junk stack up msgs st1 else Some st1)"

end
