(* ===== verification/QuixoteMcuProps.thy ===== *)
theory QuixoteMcuProps
  imports QuixoteMcu SanchoNordic QuixoteXenProps
begin

text \<open>
  The orchestrator for micro-controllers together with the interpreter that it talks to.  What the encoder puts out is
  followed to its first character: it never starts with a brace, and the parser of the interpreter wants one.
\<close>

section \<open>What the encoder puts out\<close>

definition starts :: "string \<Rightarrow> hstr \<Rightarrow> bool" where
  "starts t out \<longleftrightarrow> (\<exists>xs. hs_get out = Some (t @ xs))"

definition puts :: "string \<Rightarrow> encoder \<Rightarrow> bool" where
  "puts t = (\<lambda>(S, str, out). starts t out)"

lemma puts_simp: "puts t (S, str, out) = starts t out"
  by (simp add: puts_def)

lemma starts_add: "starts t out \<Longrightarrow> keeps (starts t) (hs_add x out)"
  by (auto simp: starts_def hs_add_def hs_get_def hs_chars_def split: if_splits)

named_theorems putting \<open>statements of the encoder, which only append to the output\<close>

lemma puts_put_output [putting]: "puts t fr \<Longrightarrow> keeps (puts t) (put_output x fr)"
  by (cases fr) (auto simp: puts_simp put_output_def intro!: keeps_zoom [THEN iffD2] starts_add)

lemma puts_silent [putting]:
  "puts t fr \<Longrightarrow> keeps (puts t) (reset_text fr)"
  "puts t fr \<Longrightarrow> keeps (puts t) (read_text key fr)"
  "puts t fr \<Longrightarrow> keeps (puts t) (read_field fr)"
  "puts t fr \<Longrightarrow> keeps (puts t) (select_field field fr)"
  by (cases fr; simp add: reset_text_def read_text_def read_field_def select_field_def;
      cases "TSEMparser_get_text (Some key) (te_parser (fst fr), fst (snd fr))";
      cases "TSEMparser_get_field (te_parser (fst fr)) (fst (snd fr))"; cases "event_extract field (fst fr)";
      auto simp: puts_simp)+

lemma puts_steps [putting]: "(\<And>f s. f \<in> set fs \<Longrightarrow> puts t s \<Longrightarrow> keeps (puts t) (f s)) \<Longrightarrow> puts t fr \<Longrightarrow> keeps (puts t) (steps fs fr)"
  by (rule keeps_steps)

lemma puts_with_text [putting]:
  "(\<And>x s. puts t s \<Longrightarrow> keeps (puts t) (f x s)) \<Longrightarrow> puts t fr \<Longrightarrow> keeps (puts t) (with_text f fr)"
  by (cases fr) (simp add: with_text_def split: option.split)

lemma puts_add_key [putting]: "puts t fr \<Longrightarrow> keeps (puts t) (add_key term key fr)"
  unfolding add_key_def by (rule puts_steps) (auto intro: putting)

lemma starts_copy_loop: "starts t out \<Longrightarrow> keeps (starts t) (copy_loop prev cs out)"
proof (induction cs arbitrary: prev out)
  case (Cons c cs)
  have "keeps (starts t) (res_bind (hs_add y out) (\<lambda>_. copy_loop p cs))" for y p
    by (rule keeps_bind [OF starts_add [OF Cons.prems]]) (rule Cons.IH)
  with Cons show ?case by (subst copy_loop.simps(2)) (auto split: list.split simp del: copy_loop.simps(2))
qed simp

lemma puts_copy_field [putting]: "puts t fr \<Longrightarrow> keeps (puts t) (copy_field x fr)"
  by (cases fr) (auto simp: puts_simp copy_field_def intro!: keeps_zoom [THEN iffD2] starts_copy_loop)

lemma puts_convert_field [putting]: "puts t fr \<Longrightarrow> keeps (puts t) (convert_field field fr)"
  unfolding convert_field_def by (rule puts_steps) (auto intro: putting)

lemma puts_zoom [putting]:
  "starts t out \<Longrightarrow> keeps (puts t) (zoom (\<lambda>p. (f p, str, out)) r)"
  "starts t out \<Longrightarrow> keeps (puts t) (zoom (\<lambda>(p, s). (g p s, h s, out)) r')"
  by (cases r; cases r'; auto simp: puts_simp)+

lemma puts_mmap_file [putting]: "puts t fr \<Longrightarrow> keeps (puts t) (encode_mmap_file type fr)"
  unfolding encode_mmap_file_def
  by (auto intro!: keeps_bind puts_with_text simp: putting puts_simp split: res.split option.split)

lemma puts_encode_type [putting]: "puts t fr \<Longrightarrow> keeps (puts t) (encode_type type fr)"
  unfolding encode_type_def by (auto intro!: keeps_bind simp: putting)

text \<open>The first character that is put out belongs to the word \<open>pid\<close> or \<open>event\<close>.\<close>

lemma encode_pid_starts:
  assumes "hs_get out = Some t" "encode_pid (S, str, out) = Ret u fr"
  shows "(\<exists>S1 str1. fr = (S1, str1, out)) \<or> puts (t @ ''p'') fr"
proof -
  obtain p has where p: "TSEMparser_has_key ''pid'' (te_parser S) = Ret has p"
    using assms(2) by (auto simp: encode_pid_def split: res.splits)
  show ?thesis
  proof (cases has)
    case False
    with assms p show ?thesis by (auto simp: encode_pid_def)
  next
    case True
    with assms(2) p obtain x S1 str1 where
      "put_output (''pid{'' @ x @ ''} '') (S1, str1, out) = Ret u fr"
      by (auto simp: encode_pid_def reset_text_def read_text_def with_text_def res_simps split: option.splits)
    then have "puts (t @ ''p'') fr"
      using assms(1)
      by (auto simp: put_output_def hs_add_def starts_def hs_get_def hs_chars_def puts_simp split: if_splits)
    then show ?thesis ..
  qed
qed

lemma encode_event_starts:
  assumes "TSEMevent_encode_event (S, out) = Ret u (S', out')" "hs_get out = Some t"
  shows "starts (t @ ''p'') out' \<or> starts (t @ ''e'') out'"
proof -
  from assms(1) obtain S1 str1 type fr fr1 str' where
    pid: "encode_pid (S1, str1, out) = Ret () fr" and ev: "put_output ''event{'' fr = Ret () fr1"
    and rest: "steps
         [add_key '', '' ''process'', add_key '', '' ''type'', add_key '', '' ''ttd'', add_key '', '' ''p_ttd'',
          add_key '', '' ''task_id'', add_key '', '' ''p_task_id'', add_key ''} '' ''ts'', convert_field ''COE'',
          reset_text, put_output '' '', encode_type type] fr1 = Ret () (S', str', out')"
    by (auto simp: TSEMevent_encode_event_def read_text_def with_text_def res_simps split: option.splits)
  have keep: "keeps (puts s) (steps
         [add_key '', '' ''process'', add_key '', '' ''type'', add_key '', '' ''ttd'', add_key '', '' ''p_ttd'',
          add_key '', '' ''task_id'', add_key '', '' ''p_task_id'', add_key ''} '' ''ts'', convert_field ''COE'',
          reset_text, put_output '' '', encode_type type] fr1)" if "puts s fr1" for s
    using that by (intro puts_steps) (auto simp: putting)
  have started: "starts s out'" if "puts s fr1" for s
    using keep [OF that] rest by (simp add: puts_simp del: steps.simps)
  from encode_pid_starts [OF assms(2) pid] show ?thesis
  proof
    assume "puts (t @ ''p'') fr"
    from puts_put_output [OF this, of "''event{''"] ev have "puts (t @ ''p'') fr1" by simp
    from started [OF this] show ?thesis ..
  next
    assume "\<exists>S1 str1. fr = (S1, str1, out)"
    then have "puts (t @ ''e'') fr1"
      using ev assms(2)
      by (auto simp: put_output_def hs_add_def starts_def hs_get_def hs_chars_def puts_simp res_simps split: if_splits)
    from started [OF this] show ?thesis ..
  qed
qed

section \<open>The micro-controller\<close>

definition nordic_send :: "environment \<Rightarrow> byte list \<Rightarrow> agent \<Rightarrow> bool \<times> agent" where
  "nordic_send env msg a =
     (if \<not> ag_running a then (False, a)
      else
        (case Nordic_step (env_crypto env) (env_cell env) (env_stack env) (\<lambda>_. True) msg (ag_sancho a) of
           None \<Rightarrow> (True, a\<lparr>ag_running := False\<rparr>)
         | Some (connected, s) \<Rightarrow> (True, a\<lparr>ag_sancho := s, ag_running := connected\<rparr>)))"

definition nordic_environment :: "environment \<Rightarrow> agent xen_environment" where
  "nordic_environment env = (agent_environment env)\<lparr>xe_send := nordic_send env\<rparr>"

text \<open>It waits for a message, and has no answer under way.\<close>

definition nordic_ok :: "agent \<Rightarrow> bool" where
  "nordic_ok a \<longleftrightarrow> ag_running a \<and> sx_bufr (ag_sancho a) = buf_empty \<and> ag_read a = length (sx_sent (ag_sancho a))"

lemma Nordic_step_idle:
  assumes "sx_bufr st = buf_empty"
  shows "Nordic_step cr junk stack up msg st =
     (case find_sancho Sancho_cmd_list msg of
        None \<Rightarrow> None
      | Some None \<Rightarrow> Some (True, reset_bufr (received msg st))
      | Some (Some cmd) \<Rightarrow>
          map_option (\<lambda>st2. (cmd \<noteq> sancho_reset, reset_bufr st2))
            (handler (Nordic_dispatch cr junk stack up cmd (received msg st))))"
proof -
  have "st\<lparr>sx_bufr := (case buf_add msg (sx_bufr st) of Ret _ b \<Rightarrow> b | Fail b \<Rightarrow> b | Undef \<Rightarrow> sx_bufr st)\<rparr> = received msg st"
    using assms by (simp add: buf_add_def received_def buf_empty_def)
  moreover have "get_command (sx_bufr (received msg st)) = find_sancho Sancho_cmd_list msg"
    by (simp add: get_command_def received_def)
  ultimately show ?thesis by (simp add: Nordic_step_def Let_def)
qed

text \<open>A description that does not start with a brace gets no answer.\<close>

lemma encoded_export_unanswered:
  assumes "nordic_ok (xq_duct st)" "c \<noteq> CHR ''{''" "c \<noteq> NUL"
  shows "transact (nordic_environment env) (''export '' @ (c # xs) @ [NUL]) st = Undef"
proof -
  let ?a = "xq_duct st" and ?msg = "''export '' @ (c # xs) @ [NUL]"
  let ?s = "ag_sancho ?a"
  have a: "ag_running ?a" "sx_bufr ?s = buf_empty" "ag_read ?a = length (sx_sent ?s)"
    using assms(1) by (simp_all add: nordic_ok_def)
  have t: "c_string ((c # xs) @ [NUL]) = Some (c # cstring (xs @ [NUL]))"
    using assms(3) by (simp add: c_string_def cstring_def)
  obtain z where z: "SecurityEvent_parse ((SecurityEvent_Init (env_cell env), hs_of (c # cstring (xs @ [NUL]))), sx_errno ?s) =
      Fail ((z, hs_of (c # cstring (xs @ [NUL]))), sx_errno ?s)"
    using parse_without_event [of "c # cstring (xs @ [NUL])"] assms(2) by auto
  have "Nordic_add_event (env_crypto env) (env_cell env) (\<lambda>_. True) (received ?msg ?s) = Fail (received ?msg ?s)"
    using t z by (simp add: Nordic_add_event_def add_event_def with_argument_def received_def)
  moreover have "find_sancho Sancho_cmd_list ?msg = Some (Some export_event)" by (simp add: Sancho_cmd_list_def)
  ultimately have "Nordic_step (env_crypto env) (env_cell env) (env_stack env) (\<lambda>_. True) ?msg ?s =
      Some (True, reset_bufr (received ?msg ?s))"
    by (simp add: Nordic_step_idle [OF a(2)] Nordic_dispatch_def)
  then show ?thesis
    using a
    by (simp add: transact_def duct_send_def duct_receive_def nordic_environment_def nordic_send_def agent_receive_def
        reset_bufr_def received_def)
qed

text \<open>The statements that put the command together.\<close>

abbreviation export_command :: "TSEMevent_State \<Rightarrow> (unit, TSEMevent_State \<times> hstr) res" where
  "export_command ev \<equiv>
     steps
       [(\<lambda>(ev, update). zoom (\<lambda>ev. (ev, update)) (TSEMevent_extract_event ev)),
        attempt (\<lambda>(ev, update). zoom (\<lambda>u. (ev, u)) (hs_add ''export '' update)),
        TSEMevent_encode_event] (ev, hs_empty)"

lemma export_command_unanswered:
  assumes "nordic_ok (xq_duct st)" "TSEMevent_extract_export (TSEMevent_reset (xq_event st)) = Ret type ev"
    and "type = TSEM_EVENT_EVENT \<or> type = TSEM_EVENT_ASYNC_EVENT"
  shows "Mcu_process_event (nordic_environment env) st =
     (case export_command ev of Fail (ev1, _) \<Rightarrow> Fail (st\<lparr>xq_event := ev1\<rparr>) | _ \<Rightarrow> Undef)"
proof -
  have form: "Mcu_process_event (nordic_environment env) st =
     (case export_command ev of
        Undef \<Rightarrow> Undef
      | Fail (ev1, _) \<Rightarrow> Fail (st\<lparr>xq_event := ev1\<rparr>)
      | Ret _ (ev1, update) \<Rightarrow>
          (case hs_get update of
             None \<Rightarrow> Undef
           | Some t \<Rightarrow> res_bind (transact (nordic_environment env) (t @ [NUL]) (st\<lparr>xq_event := ev1\<rparr>))
               (follow_verdict (nordic_environment env) type t)))"
    using assms(2,3) by (auto simp: Mcu_process_event_def)
  show ?thesis
  proof (cases "export_command ev")
    case (Ret u x)
    obtain ev1 update where x: "x = (ev1, update)" by (cases x)
    from Ret x obtain ev0 where "TSEMevent_encode_event (ev0, hs_of ''export '') = Ret () (ev1, update)"
      by (auto simp: res_simps hs_add_def hs_empty_def hs_of_def hs_chars_def hs_get_def)
    from encode_event_starts [OF this] have "starts (''export '' @ ''p'') update \<or> starts (''export '' @ ''e'') update"
      by (simp add: hs_get_def hs_of_def)
    then obtain c xs where c: "hs_get update = Some (''export '' @ c # xs)" "c \<noteq> CHR ''{''" "c \<noteq> NUL"
      by (auto simp: starts_def)
    have "nordic_ok (xq_duct (st\<lparr>xq_event := ev1\<rparr>))" using assms(1) by simp
    from encoded_export_unanswered [OF this c(2,3)] Ret x c(1) show ?thesis by (simp add: form)
  qed (simp_all add: form)
qed

text \<open>
  C33: The orchestrator for micro-controllers has an interpreter that waits for a message.  No event and
  no asynchronous event of the workload is ever modeled: either it cannot be encoded, which ends the orchestrator, or the
  interpreter does not understand what is sent and does not answer, and the orchestrator waits for ever.
\<close>

theorem mcu_models_no_event:
  assumes "nordic_ok (xq_duct st)"
    and "exported_type (xq_event (Xen_with_line l st)) \<in> {TSEM_EVENT_EVENT, TSEM_EVENT_ASYNC_EVENT}"
  shows "case Mcu_process_event (nordic_environment env) (Xen_with_line l st) of
     Ret _ st' \<Rightarrow> False
   | Fail st' \<Rightarrow> xq_duct st' = xq_duct st \<and> xq_control st' = xq_control st
   | Undef \<Rightarrow> True"
proof -
  obtain type ev where "TSEMevent_extract_export (TSEMevent_reset (xq_event (Xen_with_line l st))) = Ret type ev"
    "type = TSEM_EVENT_EVENT \<or> type = TSEM_EVENT_ASYNC_EVENT"
    using assms(2) by (auto simp: exported_type_def split: res.splits)
  from export_command_unanswered [OF _ this] assms(1) show ?thesis
    by (simp add: Xen_with_line_def split: res.split prod.split del: steps.simps)
qed

definition demo_mcu :: "agent Xen_State" where
  "demo_mcu = Mcu_Init True 0 \<lparr>ag_sancho = Nordic_Init 0, ag_running = True, ag_read = 0\<rparr>"

lemma demo_mcu_ok: "nordic_ok (xq_duct demo_mcu)" "xq_event demo_mcu = TSEMevent_Init"
  by (simp_all add: nordic_ok_def demo_mcu_def Mcu_Init_def Xen_Init_def Nordic_Init_def on_model_def Sancho_Init_def)

text \<open>A complete description, which is encoded and sent.\<close>

definition demo_complete :: string where
  "demo_complete = CHR ''{'' # field_spec ''export'' @ DQ # ''type'' @ DQ # '': '' @ DQ # ''event'' @ DQ # ''}, '' @
     tl (event_text (demo_members @ [(''ttd'', ''1''), (''p_ttd'', ''1''), (''p_task_id'', ''00''), (''ts'', ''5'')])
       zero_character ''file_ioctl'')"

lemma demo_complete_encoded:
  "case TSEMevent_extract_export (TSEMevent_reset (TSEMevent_Init\<lparr>te_event := hs_of demo_complete\<rparr>)) of
     Ret type ev \<Rightarrow> type = TSEM_EVENT_EVENT \<and> (case export_command ev of Ret _ _ \<Rightarrow> True | _ \<Rightarrow> False)
   | _ \<Rightarrow> False"
  by code_simp

theorem mcu_models_no_event_witness:
  "Mcu_process_event (nordic_environment demo_env) (Xen_with_line demo_complete demo_mcu) = Undef"
proof -
  have line: "xq_event (Xen_with_line demo_complete demo_mcu) = TSEMevent_Init\<lparr>te_event := hs_of demo_complete\<rparr>"
    using demo_mcu_ok(2) by simp
  obtain ev where ev: "TSEMevent_extract_export (TSEMevent_reset (xq_event (Xen_with_line demo_complete demo_mcu))) =
      Ret TSEM_EVENT_EVENT ev" "case export_command ev of Ret _ _ \<Rightarrow> True | _ \<Rightarrow> False"
    using demo_complete_encoded unfolding line by (auto simp del: steps.simps split: res.splits)
  then have "exported_type (xq_event (Xen_with_line demo_complete demo_mcu)) = TSEM_EVENT_EVENT"
    by (simp add: exported_type_def)
  with mcu_models_no_event [OF demo_mcu_ok(1), of demo_complete demo_env]
    export_command_unanswered [OF _ ev(1), of demo_env] ev(2) demo_mcu_ok(1) show ?thesis
    by (simp split: res.splits del: steps.simps)
qed

text \<open>
  A log entry is taken: the interpreter answers, but it does not log, so that the entry is lost.
\<close>

lemma encode_log_starts:
  assumes "TSEMevent_encode_log (S, out) = Ret u (S', out')"
  shows "starts ''log{'' out'"
proof -
  from assms(1) obtain fr str' where
    put: "put_output ''log{'' (S, hs_empty, hs_reset out) = Ret () fr"
    and rest: "steps [add_key '', '' ''process'', add_key '', '' ''event'', add_key ''}'' ''action''] fr =
      Ret () (S', str', out')"
    by (auto simp: TSEMevent_encode_log_def res_simps)
  have "puts ''log{'' fr"
    using put
    by (auto simp: put_output_def hs_add_def starts_def hs_get_def puts_simp split: if_splits)
  then have "keeps (puts ''log{'') (steps [add_key '', '' ''process'', add_key '', '' ''event'', add_key ''}'' ''action''] fr)"
    by (intro puts_steps) (auto simp: putting)
  with rest show ?thesis by (simp add: puts_simp del: steps.simps)
qed

lemma log_entry_lost:
  assumes "nordic_ok (xq_duct st)" "sx_model (ag_sancho (xq_duct st)) = m" "\<not> ts_poisoned m" "\<not> ts_logging m"
    and "starts ''log{'' update" "hs_get update = Some t"
  shows "\<exists>a. res_bind (transact (nordic_environment env) (t @ [NUL]) st) (follow_verdict (nordic_environment env) TSEM_EVENT_LOG t) =
       Ret () (st\<lparr>xq_duct := a\<rparr>) \<and> nordic_ok a \<and> sx_model (ag_sancho a) = m"
proof -
  let ?a = "xq_duct st" and ?msg = "t @ [NUL]"
  let ?s = "ag_sancho ?a"
  let ?u = "reset_bufr (send_ok (\<lambda>_. True) (received ?msg ?s))"
  obtain xs where t: "t = ''log{'' @ xs" using assms(5,6) by (auto simp: starts_def)
  have a: "ag_running ?a" "sx_bufr ?s = buf_empty" "ag_read ?a = length (sx_sent ?s)"
    using assms(1) by (simp_all add: nordic_ok_def)
  have c: "c_string ?msg = Some (cstring ?msg)" by (simp add: c_string_def)
  have same: "(received ?msg ?s)\<lparr>sx_model := m\<rparr> = received ?msg ?s"
    using assms(2) by (cases ?s) (simp add: received_def)
  have "\<not> b_poisoned (sx_bufr (received ?msg ?s))" by (simp add: received_def)
  then have "Nordic_add_security (\<lambda>_. True) (received ?msg ?s) = Ret () (send_ok (\<lambda>_. True) ((received ?msg ?s)\<lparr>sx_model := m\<rparr>))"
    using c assms(2-4) by (simp add: Nordic_add_security_def TSEM_add_TSEM_event_def hs_of_def)
  moreover have "find_sancho Sancho_cmd_list ?msg = Some (Some log_event)" by (simp add: t Sancho_cmd_list_def)
  ultimately have step: "Nordic_step (env_crypto env) (env_cell env) (env_stack env) (\<lambda>_. True) ?msg ?s = Some (True, ?u)"
    by (simp add: Nordic_step_idle [OF a(2)] Nordic_dispatch_def same)
  have u: "sx_sent ?u = sx_sent ?s @ [''OK'' @ [NUL]]" "sx_bufr ?u = buf_empty" "sx_model ?u = sx_model ?s"
    by (simp_all add: send_ok_def Let_def send_Buffer_def fill_def buf_add_def buf_reset_def received_def reset_bufr_def
        buf_empty_def)
  let ?b = "?a\<lparr>ag_sancho := ?u, ag_running := True, ag_read := ag_read ?a + 1\<rparr>"
  have "transact (nordic_environment env) ?msg st = Ret (''OK'' @ [NUL]) (st\<lparr>xq_duct := ?b\<rparr>)"
    using a step u(1)
    by (simp add: transact_def duct_send_def duct_receive_def nordic_environment_def nordic_send_def agent_receive_def)
  moreover have "nordic_ok ?b" using a u by (simp add: nordic_ok_def)
  ultimately show ?thesis using u(3) assms(2) by (auto simp: follow_verdict_def)
qed

end
