(* ===== verification/Spec2Isabelle.thy ===== *)
theory Spec2Isabelle
  imports Examples SanchoProps EventProps CellText HurdProps QuixoteXenProps QuixoteExportProps XenDuctProps TtyDuctProps SignModel
    QuixoteSGXProps QuixoteMcuProps
begin

text \<open>
  Quixote runs a workload in a security modeling namespace of the Linux kernel (TSEM), describes every security event
  of the workload as a point, the digest of what happened and in which context, and learns or enforces the set
  of points.  This library models the program in Isabelle/HOL from its C sources and proves what its parts promise.

  \<^item> The program.  The kernel writes descriptions of events, in JSON, to an export file.  An orchestrator
  (\<open>src/Quixote\<close>) reads them, has them modeled, and writes to a control file whether the process
  that waits for its event may go on.  The model is an object of \<open>src/SecurityModel/TSEM.c\<close>: it lives in the
  orchestrator (\<open>quixote-us.c\<close>) or behind a duct in a trusted modeling agent, the interpreter of
  \<open>src/Sancho\<close> (\<open>quixote-xen.c\<close>); or in an SGX enclave, behind an object
  that enters it (\<open>quixote-sgx.c\<close>); or the kernel keeps it, and the orchestrator only loads and shows it
  (\<open>quixote.c\<close>).  An exporter only forwards the descriptions (\<open>quixote-export.c\<close>).  Model files can be signed (\<open>sign-model.c\<close>).  A management client (\<open>quixote-console.c\<close>) sends
  commands to an orchestrator over a socket.  All code is written as objects over HurdLib
  (\<open>src/SRDE/SRDElibs/SRDEfusion\<close>): buffers, strings, collections.

  \<^item> How C is read.  \<open>Prelude\<close> has the outcomes of methods: \<open>Ret\<close> for true, \<open>Fail\<close> for
  false, each with the state that is left, and \<open>Undef\<close> where C has no defined behaviour or the call
  never returns.  A run of \<open>if ( !f() ) ERR(goto done);\<close> is \<open>steps\<close>; what is done behind the label is
  \<open>on_fail\<close>; the call of a method of a member object is \<open>zoom\<close>.  Integers are words of their width, bytes
  are characters, a structure is a record, an enumeration a datatype, a pointer that may be NULL an option.  Objects
  that are shared by pointer are stored by value where nothing writes to them any more.  Calls of the operating system,
  of OpenSSL, of the USB library of a board and of other parts of the system are functions that the definitions take: \<open>crypto\<close>, the
  \<open>environment\<close> of an orchestrator, \<open>socket_io\<close>, the agent behind \<open>xe_send\<close> and \<open>xe_receive\<close>.
  Memory that is read before it is written is an argument (\<open>junk\<close>, \<open>stack\<close>).  A \<open>memcpy\<close> over
  memory that overlaps is \<open>Undef\<close>.

  \<^item> Theories and sources.
    \<^item> \<open>CLib\<close>: the functions of the C library that the code calls.
    \<^item> \<open>Fibsequence\<close>, \<open>HBuffer\<close>, \<open>HString\<close>, \<open>HGaggle\<close>: HurdLib.  The submodule
      \<open>HurdLib\<close> of the repository is empty; modelled are the sources of the same objects under
      \<open>SRDElibs/SRDEfusion\<close>.  \<open>Buffer\<close> and \<open>String\<close> are modelled twice: with the allocation,
      whose failure is an argument, and as the values \<open>buf\<close> and \<open>hstr\<close> that the first are proved to
      refine (\<open>HurdProps\<close>) and that all other theories use, for which memory is enough.
    \<^item> \<open>SHA256\<close>, \<open>TSEMparser\<close>: \<open>lib/SHA256.c\<close>, \<open>lib/TSEMparser.c\<close>; \<open>JsonText\<close> has the
      lemmas on texts and their members.
    \<^item> \<open>COE\<close>, \<open>Cell\<close>, \<open>CellMeasure\<close>, \<open>CellFormat\<close>, \<open>SecurityEvent\<close>, \<open>SecurityPoint\<close>,
      \<open>EventModel\<close>, \<open>TSEM\<close>: the files of these names in \<open>SecurityModel\<close>; \<open>Cell.c\<close> is split
      into parsing, measuring and formatting.
    \<^item> \<open>TSEMLemmas\<close>, \<open>TSEMRun\<close>, \<open>TSEMSpec\<close>: what the operations of a model compute, the step
      relation of a model and its invariants, and the contract of a model as the locale of a monitor that learns until
      it is sealed, with its interpretation on the code.
    \<^item> \<open>Sancho\<close>, \<open>SanchoLemmas\<close>, \<open>SanchoProps\<close>: \<open>Sancho/Xen/Sancho/sancho-interpreter.c\<close> and the table
      of commands in \<open>Quixote/sancho-cmd.h\<close>.
    \<^item> \<open>EventParser\<close>, \<open>TSEMevent\<close>, \<open>TSEMcontrol\<close>: the notation for encoded events, the export
      stream and the control file (\<open>lib\<close>).
    \<^item> \<open>Quixote\<close>, with \<open>QuixoteLemmas\<close>, \<open>QuixoteEffects\<close>, \<open>QuixoteProps\<close>, \<open>QuixoteModels\<close>:
      \<open>Quixote/quixote-us.c\<close>.
    \<^item> \<open>QuixoteXen\<close>, \<open>QuixoteXenProps\<close>: \<open>Quixote/quixote-xen.c\<close>, alone and with the interpreter.
    \<^item> \<open>SgxEnclave\<close>: the model in an SGX enclave, \<open>Sancho/SGX/SanchoSGX-enclave.c\<close>, the functions that stand
      between it and its callers, \<open>SanchoSGX-interface.c\<close>, with a pointer as the place it points to and what is there,
      and the calls out of the enclave, \<open>SRDE/SRDEocall.c\<close>; \<open>SanchoSGX\<close>: the object that enters the enclave,
      \<open>Sancho/SGX/SanchoSGX.c\<close> and \<open>SRDE/SRDEenclave.c\<close>; \<open>SanchoSGXProps\<close>.
    \<^item> \<open>QuixoteSGX\<close>, \<open>QuixoteSGXProps\<close>: \<open>Quixote/quixote-sgx.c\<close>.
    \<^item> \<open>QuixoteMcu\<close>: \<open>Quixote/quixote-mcu.c\<close>, \<open>SanchoNordic\<close>:
      \<open>Sancho/Nordic/NRF52840-DK/Sancho/sancho-interpreter.c\<close>; \<open>QuixoteMcuProps\<close>: both together.
    \<^item> \<open>LocalDuct\<close>, \<open>QuixoteConsole\<close>, \<open>QuixoteConsoleProps\<close>: \<open>lib/LocalDuct.c\<close> and
      \<open>Quixote/quixote-console.c\<close>.
    \<^item> \<open>XenDuct\<close>, \<open>XenDuctProps\<close>: both ends of the duct over a page that two Xen domains share,
      \<open>lib/XENduct.c\<close> and \<open>Sancho/Xen/Sancho/XENduct.c\<close>, as a step relation of their interleaved steps.
    \<^item> \<open>TtyDuct\<close>, \<open>TtyDuctProps\<close>: both ends of the serial line to a micro-controller, \<open>lib/TTYduct.c\<close> and
      \<open>Sancho/Nordic/NRF52840-DK/Sancho/TTYduct.c\<close>.
    \<^item> \<open>QuixoteKernel\<close>, \<open>QuixoteKernelProps\<close>: \<open>Quixote/quixote.c\<close>.
    \<^item> \<open>QuixoteExport\<close>, \<open>QuixoteExportProps\<close>: \<open>Quixote/quixote-export.c\<close>.
    \<^item> \<open>Base64\<close>: \<open>lib/Base64.c\<close>; \<open>RSAkey\<close>: loading of keys and verification of signatures in \<open>lib/RSAkey.c\<close>, which
      is linked into the programs that use OpenSSL; \<open>SignModel\<close>: \<open>SecurityModel/sign-model.c\<close> and the loading of
      signed files by both loaders.  The other models take the two objects as functions, in \<open>crypto\<close>, because
      the interpreters are linked with other objects of these names.
    \<^item> \<open>EventText\<close>, \<open>CellText\<close>, \<open>EventProps\<close>: texts of events and their measurements;
      \<open>Examples\<close>: the concrete model and events to which the properties are applied.

  \<^item> What is proved.  Of the model: the invariants of all reachable models, what an update reports, training followed by
  enforcement, the finality of sealing, the measurement and the state value (this theory).  Of the texts: field
  extraction and lookup, round trips of integers, contexts, events and file parameters, and which fields enter an
  identity.  Of the interpreter: the answer to an event, the lists it sends, and that no conversation unseals.  Of the
  orchestrators: the one command for each event, the refinement of the read loop to the processing of lines, up to a read
  for which \<open>memcpy\<close> is not defined, the
  agreement of the two orchestrators, over a page of the size that they share, and what happens with broken input.  Of the enclave: which structures it refuses and which it accepts, that
  a model in it is updated like one in user space, what becomes of a verdict that cannot be written, and that its
  orchestrator never gives it an event; nor does that for micro-controllers give one that is understood.  Of the exporter: what is forwarded, and what its
  queue loses when events are followed.  Of the ducts: that messages arrive as they were sent, in every interleaving of
  the ends over a shared page and for every division of what passes on a serial line, which runs over the page end, and when both ends
  wait for ever.  Of model files: what is saved or printed is
  loaded again, by user space and by the kernel, and signed files are loaded like the files that were signed.  Where the code does something else than it means to, the property states what it does.

  \<^item> Bounds and fuel.  The loops of the code that may not end are \<open>partial_function (option)\<close>: the read loop
  \<open>drain_events\<close>, that of the exporter, \<open>export_drain\<close>, and the search \<open>getAbove\<close>; that they return is part of \<open>monitor_refines_lines\<close>, \<open>export_forwards_lines\<close> and
  \<open>getAbove_terminates\<close>.  The queue of the exporter is filled
  by a counter of 32 bits, which never ends for larger sizes (\<open>root_events_exported\<close>).  The inputs of a monitor, the lines of a file and the messages of a conversation are
  lists, so their loops are recursions on these.  No other fuel is used.  \<open>32\<close> is the size of a digest,
  \<open>262144\<close> that of the largest message, and 2971215073 the last Fibonacci number below \<open>2 ^ 32\<close>, \<open>fib_max\<close>, up to which a buffer grows
  (\<open>buffer_limit\<close>).  The values \<open>buf\<close> and \<open>hstr\<close> have no such limit: where a property depends on it, it is a
  hypothesis (\<open>serial_fits\<close>, \<open>root_events_exported\<close>), and the Base64 object, whose output grows, checks it.

  \<^item> Not modelled.  Signal handlers, \<open>fork\<close>, the start of containers, \<open>main\<close> functions and the methods that print an object,
  because they are only I/O; OpenSSL and the rest of the object for RSA keys; the ducts for TCP and MQTT and the encrypted pipe, which are calls of the
  system and other libraries, and the setting up of the connections of the ducts that are modelled; the ports of the interpreter to the STM32 boards; \<open>cboot\<close>; what the driver does when an SGX enclave is loaded, its
  attestation and the three of its calls that serve it; the vendored regular
  expression library; tests.  A buffer in the upper layers never runs out of memory.
\<close>

section \<open>The security event model\<close>

text \<open>A run of the monitor interface is a run of updates of the model.\<close>

lemma monitor_run_is_TSEM_run:
  "event_monitor.run (model_learn sha) events S = Some (rs, T) \<Longrightarrow>
   \<exists>rs'. TSEM_run sha events S = Some (rs', T) \<and> map snd rs' = rs"
proof (induction events arbitrary: S rs)
  case Nil
  then show ?case by (simp add: model.run.simps)
next
  case (Cons event events)
  then obtain r U rs1 where l: "model_learn sha event S = Ret r U"
    and run: "event_monitor.run (model_learn sha) events U = Some (rs1, T)" and rs: "rs = r # rs1"
    by (auto simp: model.run.simps split: res.splits)
  obtain status discipline seal ev where
    "TSEM_update sha (S, event) = Ret (status, discipline, seal) (U, ev)" "r = (status, discipline)"
    using l by (auto simp: model_learn_def split: res.splits prod.splits)
  with Cons.IH [OF run] rs show ?case by auto
qed

text \<open>
  C1: A model is trained on a run of measurable events and then sealed.  All
  updates of both runs succeed, no training event is disciplined, and afterwards an event is
  disciplined exactly when its identity, after the pseudonyms were applied, is neither in the
  model at the start nor that of a training event.
\<close>

theorem training_then_enforcement:
  assumes "model_ok sha P S" "\<not> ts_sealed S" "violations S = []"
    and "\<forall>e \<in> set training. good_event sha P e" "\<forall>e \<in> set later. good_event sha P e"
  shows "\<exists>rs T rs' U. TSEM_run sha training S = Some (rs, T) \<and>
           TSEM_run sha later (TSEM_seal T) = Some (rs', U) \<and>
           (\<forall>(ev, status, discipline) \<in> set rs. \<not> discipline) \<and>
           map (\<lambda>(ev, status, discipline). discipline) rs' =
             map (\<lambda>e. model_identity sha P e \<notin>
                        set (valid_points S) \<union> model_identity sha P ` set training) later"
proof -
  obtain rs T rs' U where run: "event_monitor.run (model_learn sha) training S = Some (rs, T)"
    "event_monitor.run (model_learn sha) later (TSEM_seal T) = Some (rs', U)"
    and answers: "\<forall>r \<in> set rs. \<not> snd r"
      "map snd rs' = map (\<lambda>e. model_identity sha P e \<notin>
                        set (valid_points S) \<union> model_identity sha P ` set training) later"
    using model.train_seal_enforce [OF assms(1,2) _ assms(4,5)] assms(3) by auto
  obtain qs where qs: "TSEM_run sha training S = Some (qs, T)" "map snd qs = rs"
    using monitor_run_is_TSEM_run [OF run(1)] by blast
  obtain qs' where qs': "TSEM_run sha later (TSEM_seal T) = Some (qs', U)" "map snd qs' = rs'"
    using monitor_run_is_TSEM_run [OF run(2)] by blast
  have "map (\<lambda>(ev, status, discipline). discipline) qs' = map snd rs'"
    using qs'(2) by (auto simp: split_def)
  moreover have "\<forall>(ev, status, discipline) \<in> set qs. \<not> discipline"
    using answers(1) qs(2) by fastforce
  ultimately show ?thesis using qs(1) qs'(1) answers(2) by auto
qed

theorem training_then_enforcement_witness:
  "\<exists>rs T rs' U. TSEM_run demo_sha [demo_ioctl] TSEM_Init = Some (rs, T) \<and>
     TSEM_run demo_sha [demo_ioctl, demo_lock] (TSEM_seal T) = Some (rs', U) \<and>
     map (\<lambda>(ev, status, discipline). discipline) rs' = [False, True]"
proof -
  have init: "model_ok demo_sha {} TSEM_Init" "\<not> ts_sealed TSEM_Init" "violations TSEM_Init = []"
    "valid_points TSEM_Init = []"
    by (rule model_ok_Init) (simp_all add: TSEM_Init_def violations_def valid_points_def Gaggle_Init_def)
  have "\<forall>e \<in> set [demo_ioctl]. good_event demo_sha {} e"
    "\<forall>e \<in> set [demo_ioctl, demo_lock]. good_event demo_sha {} e"
    by (simp_all only: set_simps ball_simps demo_good HOL.simp_thms)
  note run = training_then_enforcement [OF init(1-3) this]
  have answers: "map (\<lambda>e. model_identity demo_sha {} e \<notin> set (valid_points TSEM_Init) \<union>
                  model_identity demo_sha {} ` set [demo_ioctl]) [demo_ioctl, demo_lock] = [False, True]"
    using demo_identities [of "{}"] init(4) by simp
  show ?thesis
    using run unfolding answers by (elim exE conjE) (intro exI conjI; assumption)
qed

text \<open>
  C2: Whatever operations follow, a sealed model that the constructor's operations led
  to stays sealed, its valid points are frozen, in content and in order, and the recorded
  violations are only ever extended.
\<close>

theorem sealing_is_final:
  assumes "sha_ok (cr_sha cr)" "tsem_steps cr TSEM_Init S" "ts_sealed S" "tsem_steps cr S T"
  shows "ts_sealed T \<and> valid_points T = valid_points S \<and> (\<exists>vs. violations T = violations S @ vs)"
  using tsem_steps_history [OF assms(4) reachable_model(1) [OF assms(2,1)] assms(1)] assms(3)
  by (simp add: history_def)

theorem sealing_is_final_witness:
  "\<exists>S T. tsem_steps \<lparr>cr_sha = demo_sha, cr_base64 = \<lambda>_. None, cr_rsa_load = \<lambda>_. False,
       cr_rsa_verify = \<lambda>_ _ _. None\<rparr> S T \<and> ts_sealed T \<and> valid_points T = valid_points S"
proof -
  let ?cr = "\<lparr>cr_sha = demo_sha, cr_base64 = \<lambda>_. None, cr_rsa_load = \<lambda>_. False,
       cr_rsa_verify = \<lambda>_ _ _. None\<rparr>"
  have reach: "tsem_steps ?cr TSEM_Init (TSEM_seal TSEM_Init)"
    using steps_step [OF steps_refl step_seal] .
  obtain T ev r where "TSEM_update demo_sha (TSEM_seal TSEM_Init, demo_ioctl) = Ret r (T, ev)"
  proof -
    have "model_ok demo_sha {} (TSEM_seal TSEM_Init)"
      using model_ok_Init [OF demo_sha_ok]
      by (simp add: model_ok_def TSEM_seal_def has_pseudonyms_def)
    from model_learns [OF this demo_good(1)] that show thesis
      by (auto simp: model_learn_def split: res.splits prod.splits)
  qed
  then have "tsem_step ?cr (TSEM_seal TSEM_Init) T"
    by (intro step_update [of _ _ demo_ioctl _ ev]) simp
  then have next_step: "tsem_steps ?cr (TSEM_seal TSEM_Init) T"
    by (rule steps_step [OF steps_refl])
  with sealing_is_final [OF _ reach _ next_step] show ?thesis
    by (auto simp: TSEM_seal_def)
qed

text \<open>
  C3: Every model that operations lead to from the constructor's state holds
  each point once, has 32 byte points, base and measurement; it has violations only when it is
  sealed; and as long as events are logged, the forensics list has one event for every
  violating point.
\<close>

theorem reachable_model_invariant:
  assumes "sha_ok (cr_sha cr)" "tsem_steps cr TSEM_Init S"
  shows "distinct (map sp_point (points_of S)) \<and> (\<forall>p \<in> set (points_of S). length (sp_point p) = 32) \<and>
     length (ts_base S) = 32 \<and> length (ts_measurement S) = 32 \<and>
     ((\<exists>p \<in> set (points_of S). sp_violation p) \<longrightarrow> ts_sealed S) \<and>
     (ts_logging S \<longrightarrow> TSEM_forensics_size S = length (filter sp_violation (points_of S)))"
proof -
  have ok: "tsem_ok S" using reachable_model(1) [OF assms(2,1)] .
  then have g: "gaggle_ok (ts_forensics S)" "points_ok (ts_points S)"
    and l: "length (ts_base S) = 32" "length (ts_measurement S) = 32"
    by (simp_all add: tsem_ok_def)
  have "TSEM_forensics_size S = length (gg_objects (ts_forensics S))"
    using g(1) by (simp add: TSEM_forensics_size_def Gaggle_size_def gaggle_ok_def)
  moreover have "length (violations S) = length (filter sp_violation (points_of S))"
    by (simp add: violations_def)
  moreover have "(\<exists>p \<in> set (points_of S). sp_violation p) \<longrightarrow> ts_sealed S"
    using reachable_model(2) [OF assms(2,1)] by (auto simp: violations_def filter_empty_conv)
  ultimately show ?thesis
    using g(2) l reachable_model(3) [OF assms(2,1)] by (auto simp: points_ok_iff point_ok_def)
qed

theorem reachable_model_invariant_witness:
  "distinct (map sp_point (points_of (TSEM_seal TSEM_Init))) \<and> length (ts_base (TSEM_seal TSEM_Init)) = 32"
  using reachable_model_invariant
    [of "\<lparr>cr_sha = demo_sha, cr_base64 = \<lambda>_. None, cr_rsa_load = \<lambda>_. False, cr_rsa_verify = \<lambda>_ _ _. None\<rparr>",
      OF _ steps_step [OF steps_refl step_seal]] by simp

text \<open>
  C4: An update that returns true tells its caller the truth, for any event: \<open>status\<close> is whether
  the point of the event was new, \<open>discipline\<close> whether the point is a violation, and
  \<open>sealed\<close> the unchanged seal.  A new point is added at the end of the map, and the
  measurement is extended by it; a known point leaves the measurement.
\<close>

theorem update_answer:
  assumes "tsem_ok S" "sha_ok sha"
    and "TSEM_update sha (S, event) = Ret (status, discipline, seal) (T, ev)"
  shows "(status \<longleftrightarrow> point_id ev \<notin> set (map sp_point (points_of S))) \<and>
     (discipline \<longleftrightarrow> point_id ev \<in> set (violations T)) \<and>
     seal = ts_sealed S \<and> ts_sealed T = ts_sealed S \<and>
     map sp_point (points_of T) = map sp_point (points_of S) @ (if status then [point_id ev] else []) \<and>
     ts_measurement T =
       (if status
        then extend_value sha (ts_base S) (ts_measurement (tsem_default sha S)) (point_id ev)
        else ts_measurement (tsem_default sha S)) \<and>
     tsem_ok T"
  using TSEM_update_verdict(1-5) [OF assms] update_ok [OF assms]
  by (simp add: known_def Let_def)

theorem update_answer_witness:
  "\<exists>status discipline seal T ev.
     TSEM_update demo_sha (TSEM_Init, demo_ioctl) = Ret (status, discipline, seal) (T, ev) \<and>
     status \<and> map sp_point (points_of T) = [point_id ev] \<and> tsem_ok T"
proof -
  obtain status discipline seal T ev where
    up: "TSEM_update demo_sha (TSEM_Init, demo_ioctl) = Ret (status, discipline, seal) (T, ev)"
    using demo_update by blast
  have "points_of TSEM_Init = []" by (simp add: TSEM_Init_def Gaggle_Init_def)
  with update_answer [OF tsem_ok_Init demo_sha_ok up] up show ?thesis by auto
qed

text \<open>
  C15: After a run of updates, the map has gained the new points in the order of their
  discovery, and the measurement is the measurement at the start, with the default
  aggregate if none was set, extended by these points in this order.
\<close>

theorem measurement_of_run:
  assumes "tsem_ok S" "sha_ok sha" "events \<noteq> []" "TSEM_run sha events S = Some (rs, T)"
  shows "map sp_point (points_of T) = map sp_point (points_of S) @ new_points rs \<and>
     ts_measurement T =
       foldl (extend_value sha (ts_base S)) (ts_measurement (tsem_default sha S)) (new_points rs)"
  using TSEM_run_measurement(1,2) [OF assms(4,1,2,3)] by simp

theorem measurement_of_run_witness:
  "\<exists>rs T. TSEM_run demo_sha [demo_ioctl] TSEM_Init = Some (rs, T) \<and>
     map sp_point (points_of T) = map sp_point (points_of TSEM_Init) @ new_points rs"
  using demo_run measurement_of_run [OF tsem_ok_Init demo_sha_ok, of "[demo_ioctl]"]
  by (metis list.distinct(1))

text \<open>
  The count of a point grows, modulo the 64 bits of the counter, by the number of events of
  the run that have this point.
\<close>

theorem count_of_run:
  assumes "tsem_ok S" "sha_ok sha" "TSEM_run sha events S = Some (rs, T)"
  shows "count_of d T = count_of d S + of_nat (length (filter (\<lambda>(ev, _). point_id ev = d) rs))"
  using TSEM_run_counts [OF assms(3,1,2)] .

theorem count_of_run_witness:
  "\<exists>rs T. TSEM_run demo_sha [demo_ioctl] TSEM_Init = Some (rs, T) \<and>
     count_of zero_id T = count_of zero_id TSEM_Init +
       of_nat (length (filter (\<lambda>(ev, _). point_id ev = zero_id) rs))"
  using demo_run count_of_run [OF tsem_ok_Init demo_sha_ok] by blast

text \<open>
  C16: The state value of a model depends only on its base, its aggregate and the
  points it holds, not on the order in which they were found, how often they were
  seen or whether they are violations.
\<close>

theorem state_independent_of_order:
  assumes "tsem_ok S" "tsem_ok T" "sha_ok sha" "ts_have_aggregate S" "ts_have_aggregate T"
    and "ts_base S = ts_base T" "b_data (ts_aggregate S) = b_data (ts_aggregate T)"
    and "set (map sp_point (points_of S)) = set (map sp_point (points_of T))"
  shows "\<exists>S' T' v. TSEM_get_state sha (S, buf_empty) = Ret () (S', \<lparr>b_poisoned = False, b_data = v\<rparr>) \<and>
                   TSEM_get_state sha (T, buf_empty) = Ret () (T', \<lparr>b_poisoned = False, b_data = v\<rparr>)"
proof -
  have "points_ok (ts_points S)" "points_ok (ts_points T)" using assms(1,2) by (simp_all add: tsem_ok_def)
  then have d: "distinct (map sp_point (points_of S))" "distinct (map sp_point (points_of T))"
    and l: "\<forall>p \<in> set (map sp_point (points_of S)). length p = IDSIZE"
    by (auto simp: points_ok_iff point_ok_def)
  from set_eq_iff_mset_eq_distinct [OF d] assms(8)
  have "mset (map sp_point (points_of S)) = mset (map sp_point (points_of T))" by simp
  from sort_points_unique [OF this l]
  have "state_value sha (ts_base S) (b_data (ts_aggregate S)) (map sp_point (points_of S)) =
        state_value sha (ts_base T) (b_data (ts_aggregate T)) (map sp_point (points_of T))"
    using assms(6,7) by (simp add: state_value_def)
  with TSEM_get_state_value [OF assms(1,3,4), of buf_empty] TSEM_get_state_value [OF assms(2,3,5), of buf_empty]
  show ?thesis by (auto simp: buf_empty_def)
qed

theorem state_independent_of_order_witness:
  "\<exists>S' T' v. TSEM_get_state demo_sha (tsem_default demo_sha TSEM_Init, buf_empty) =
       Ret () (S', \<lparr>b_poisoned = False, b_data = v\<rparr>) \<and>
     TSEM_get_state demo_sha (TSEM_seal (tsem_default demo_sha TSEM_Init), buf_empty) =
       Ret () (T', \<lparr>b_poisoned = False, b_data = v\<rparr>)"
  by (rule state_independent_of_order) (simp_all add: tsem_default_ok TSEM_seal_def)

end
